(* ===== verification/Prelude.thy ===== *)
theory Prelude
  imports Main "HOL-Library.Word"
begin

text \<open>
  The vocabulary every component of the development shares.

  \<^item> \<open>('a, 'e) result\<close> is Rust's \<^verbatim>\<open>Result<T, E>\<close> with a third outcome \<open>Panic\<close>: the release
    profile of the workspace sets \<^verbatim>\<open>overflow-checks = true\<close> (\<^verbatim>\<open>Cargo.toml\<close>), so an
    arithmetic overflow, an index out of range, an \<^verbatim>\<open>unwrap\<close> or an \<^verbatim>\<open>expect\<close> on nothing
    aborts the run, and the model says so.
  \<^item> \<open>('s, 'a, 'e) comp\<close> is a method with a \<^verbatim>\<open>&mut self\<close> receiver of type \<open>'s\<close>: it returns a
    result and the state, also when the result is an error, because the caller keeps the
    mutated receiver.
  \<^item> \<open>wp\<close> is the weakest precondition of such a method that excludes panics; the rules of the
    collection \<open>wp_rules\<close> compute it for the combinators.
  \<^item> \<open>u32\<close> is a 32 bit word with Rust's checked and panicking operations.
\<close>

section \<open>Results and computations\<close>

named_theorems wp_rules \<open>weakest preconditions of the combinators and of the operations\<close>
named_theorems comp_defs \<open>definitions of the combinators, for evaluating a computation\<close>

datatype ('a, 'e) result = Ok 'a | Err 'e | Panic

type_synonym ('s, 'a, 'e) comp = "'s \<Rightarrow> ('a, 'e) result \<times> 's"

fun res_then :: "('a, 'e) result \<Rightarrow> ('a \<Rightarrow> ('b, 'e) result) \<Rightarrow> ('b, 'e) result" where
  "res_then (Ok a) f = f a"
| "res_then (Err e) f = Err e"
| "res_then Panic f = Panic"

fun res_map_err :: "('e \<Rightarrow> 'f) \<Rightarrow> ('a, 'e) result \<Rightarrow> ('a, 'f) result" where
  "res_map_err h (Ok a) = Ok a"
| "res_map_err h (Err e) = Err (h e)"
| "res_map_err h Panic = Panic"

fun ok_or :: "'e \<Rightarrow> 'a option \<Rightarrow> ('a, 'e) result" where
  "ok_or e None = Err e"
| "ok_or e (Some a) = Ok a"

fun unwrap :: "'a option \<Rightarrow> ('a, 'e) result" where
  "unwrap None = Panic"
| "unwrap (Some a) = Ok a"

definition index_vec :: "'a list \<Rightarrow> nat \<Rightarrow> ('a, 'e) result" where
  "index_vec xs i = (if i < length xs then Ok (xs ! i) else Panic)"

definition ret :: "'a \<Rightarrow> ('s, 'a, 'e) comp" where
  [comp_defs]: "ret a = (\<lambda>s. (Ok a, s))"

definition throw :: "'e \<Rightarrow> ('s, 'a, 'e) comp" where
  [comp_defs]: "throw e = (\<lambda>s. (Err e, s))"

definition panic :: "('s, 'a, 'e) comp" where
  [comp_defs]: "panic = (\<lambda>s. (Panic, s))"

definition lift :: "('a, 'e) result \<Rightarrow> ('s, 'a, 'e) comp" where
  [comp_defs]: "lift r = (\<lambda>s. (r, s))"

definition gets :: "('s \<Rightarrow> 'a) \<Rightarrow> ('s, 'a, 'e) comp" where
  [comp_defs]: "gets f = (\<lambda>s. (Ok (f s), s))"

definition modify :: "('s \<Rightarrow> 's) \<Rightarrow> ('s, unit, 'e) comp" where
  [comp_defs]: "modify f = (\<lambda>s. (Ok (), f s))"

definition and_then :: "('s, 'a, 'e) comp \<Rightarrow> ('a \<Rightarrow> ('s, 'b, 'e) comp) \<Rightarrow> ('s, 'b, 'e) comp" where
  [comp_defs]: "and_then m f = (\<lambda>s. case m s of
     (Ok a, t) \<Rightarrow> f a t
   | (Err e, t) \<Rightarrow> (Err e, t)
   | (Panic, t) \<Rightarrow> (Panic, t))"

definition map_err :: "('e \<Rightarrow> 'f) \<Rightarrow> ('s, 'a, 'e) comp \<Rightarrow> ('s, 'a, 'f) comp" where
  [comp_defs]: "map_err h m = (\<lambda>s. case m s of (r, t) \<Rightarrow> (res_map_err h r, t))"

text \<open>\<^verbatim>\<open>let _ = m\<close>: an error is dropped, what the method did to the receiver stays.\<close>

definition ignore_result :: "('s, 'a, 'e) comp \<Rightarrow> ('s, unit, 'f) comp" where
  [comp_defs]: "ignore_result m = (\<lambda>s. case m s of
     (Panic, t) \<Rightarrow> (Panic, t)
   | (_, t) \<Rightarrow> (Ok (), t))"

text \<open>A method call on a field of the receiver, given by the field's selector and update.\<close>

definition zoom :: "('s \<Rightarrow> 't) \<Rightarrow> (('t \<Rightarrow> 't) \<Rightarrow> 's \<Rightarrow> 's) \<Rightarrow> ('t, 'a, 'e) comp \<Rightarrow> ('s, 'a, 'e) comp" where
  [comp_defs]: "zoom g u m = (\<lambda>s. case m (g s) of (r, t) \<Rightarrow> (r, u (\<lambda>_. t) s))"

lemma comp_apply [simp]:
  "ret a s = (Ok a, s)" "throw e s = (Err e, s)" "panic s = (Panic, s)" "lift r s = (r, s)"
  "gets f s = (Ok (f s), s)" "modify g s = (Ok (), g s)"
  by (simp_all add: comp_defs)

lemma and_then_lift:
  "and_then (lift r) f s = (case r of Ok a \<Rightarrow> f a s | Err e \<Rightarrow> (Err e, s) | Panic \<Rightarrow> (Panic, s))"
  by (simp add: and_then_def lift_def split: result.splits)

lemma and_then_simps [simp]:
  "and_then (ret a) h s = h a s" "and_then (gets f) k s = k (f s) s"
  "and_then (modify g) l s = l () (g s)" "and_then (throw e) m s = (Err e, s)"
  "and_then panic n s = (Panic, s)"
  by (simp_all add: comp_defs)

lemma and_then_Ok: "m s = (Ok a, t) \<Longrightarrow> and_then m k s = k a t"
  by (simp add: and_then_def)

lemma and_then_Err: "m s = (Err e, t) \<Longrightarrow> and_then m k s = (Err e, t)"
  by (simp add: and_then_def)

named_theorems result_simps \<open>when a chain of results succeeds and when it can panic\<close>

lemma res_then_Ok [result_simps]: "res_then r f = Ok b \<longleftrightarrow> (\<exists>a. r = Ok a \<and> f a = Ok b)"
  by (cases r) auto

lemma res_then_Panic [result_simps]: "res_then r f = Panic \<longleftrightarrow> r = Panic \<or> (\<exists>a. r = Ok a \<and> f a = Panic)"
  by (cases r) auto

lemma res_map_err_eqs [result_simps]:
  "res_map_err h r = Ok a \<longleftrightarrow> r = Ok a" "res_map_err h r = Panic \<longleftrightarrow> r = Panic"
  by (cases r; simp)+

lemma ok_or_eqs [result_simps]: "ok_or e x = Ok a \<longleftrightarrow> x = Some a" "ok_or e x = Panic \<longleftrightarrow> False"
  by (cases x; simp)+

lemma and_then_unwrap [result_simps]: "and_then (lift (unwrap x)) f s = (case x of None \<Rightarrow> (Panic, s) | Some a \<Rightarrow> f a s)"
  by (cases x) (simp_all add: and_then_lift)

lemma and_then_lift_simps [result_simps]: "and_then (lift (Ok a)) f s = f a s"
    "and_then (lift (Err e)) f s = (Err e, s)" "and_then (lift Panic) f s = (Panic, s)"
  by (simp_all add: and_then_lift)

section \<open>Weakest preconditions\<close>

definition wp :: "('s, 'a, 'e) comp \<Rightarrow> ('a \<Rightarrow> 's \<Rightarrow> bool) \<Rightarrow> ('e \<Rightarrow> 's \<Rightarrow> bool) \<Rightarrow> 's \<Rightarrow> bool" where
  "wp m Q E s = (case m s of
     (Ok a, t) \<Rightarrow> Q a t
   | (Err e, t) \<Rightarrow> E e t
   | (Panic, t) \<Rightarrow> False)"

definition no_panic :: "('s, 'a, 'e) comp \<Rightarrow> 's \<Rightarrow> bool" where
  "no_panic m s \<longleftrightarrow> fst (m s) \<noteq> Panic"

lemma no_panic_wp: "no_panic m s \<longleftrightarrow> wp m (\<lambda>_ _. True) (\<lambda>_ _. True) s"
  by (auto simp: no_panic_def wp_def split: prod.splits result.splits)

lemma wp_ret [wp_rules]: "wp (ret a) Q E s = Q a s"
  by (simp add: wp_def ret_def)

lemma wp_throw [wp_rules]: "wp (throw e) Q E s = E e s"
  by (simp add: wp_def throw_def)

lemma wp_panic [wp_rules]: "wp panic Q E s = False"
  by (simp add: wp_def panic_def)

lemma wp_lift [wp_rules]:
  "wp (lift r) Q E s = (case r of Ok a \<Rightarrow> Q a s | Err e \<Rightarrow> E e s | Panic \<Rightarrow> False)"
  by (simp add: wp_def lift_def split: result.splits)

lemma wp_gets [wp_rules]: "wp (gets f) Q E s = Q (f s) s"
  by (simp add: wp_def gets_def)

lemma wp_modify [wp_rules]: "wp (modify f) Q E s = Q () (f s)"
  by (simp add: wp_def modify_def)

lemma wp_and_then [wp_rules]: "wp (and_then m f) Q E s = wp m (\<lambda>a t. wp (f a) Q E t) E s"
  by (simp add: wp_def and_then_def split: prod.splits result.splits)

lemma wp_map_err [wp_rules]: "wp (map_err h m) Q E s = wp m Q (\<lambda>e t. E (h e) t) s"
  by (simp add: wp_def map_err_def split: prod.splits result.splits)

lemma wp_ignore_result [wp_rules]:
  "wp (ignore_result m) Q E s = wp m (\<lambda>_ t. Q () t) (\<lambda>_ t. Q () t) s"
  by (simp add: wp_def ignore_result_def split: prod.splits result.splits)

lemma wp_zoom [wp_rules]:
  "wp (zoom g u m) Q E s
     = wp m (\<lambda>a t. Q a (u (\<lambda>_. t) s)) (\<lambda>e t. E e (u (\<lambda>_. t) s)) (g s)"
  by (simp add: wp_def zoom_def split: prod.splits result.splits)

lemma wp_if [wp_rules]: "wp (if b then m else n) Q E s = (if b then wp m Q E s else wp n Q E s)"
  by simp

lemma wp_case_option [wp_rules]:
  "wp (case x of None \<Rightarrow> m | Some a \<Rightarrow> f a) Q E s
     = (case x of None \<Rightarrow> wp m Q E s | Some a \<Rightarrow> wp (f a) Q E s)"
  by (simp split: option.splits)

lemma wp_mono:
  assumes "wp m Q E s"
    and "\<And>a t. Q a t \<Longrightarrow> Q' a t" and "\<And>e t. E e t \<Longrightarrow> E' e t"
  shows "wp m Q' E' s"
  using assms by (auto simp: wp_def split: prod.splits result.splits)

lemma wp_OkD: "wp m Q E s \<Longrightarrow> m s = (Ok a, t) \<Longrightarrow> Q a t"
  by (simp add: wp_def)

lemma wp_not_Panic: "wp m Q E s \<Longrightarrow> m s \<noteq> (Panic, t)"
  by (auto simp: wp_def)

section \<open>Unsigned 32 bit integers\<close>

type_synonym u32 = "32 word"

abbreviation u32_bound :: nat where
  "u32_bound \<equiv> 4294967296"

definition checked_add :: "u32 \<Rightarrow> u32 \<Rightarrow> u32 option" where
  "checked_add a b = (if unat a + unat b < u32_bound then Some (a + b) else None)"

definition checked_sub :: "u32 \<Rightarrow> u32 \<Rightarrow> u32 option" where
  "checked_sub a b = (if b \<le> a then Some (a - b) else None)"

text \<open>\<open>+\<close> and \<open>-\<close> under \<^verbatim>\<open>overflow-checks\<close>.\<close>

definition u32_add :: "u32 \<Rightarrow> u32 \<Rightarrow> (u32, 'e) result" where
  "u32_add a b = unwrap (checked_add a b)"

definition u32_sub :: "u32 \<Rightarrow> u32 \<Rightarrow> (u32, 'e) result" where
  "u32_sub a b = unwrap (checked_sub a b)"

lemma unat_lt_u32_bound [simp]: "unat (a :: u32) < u32_bound"
  using unsigned_less [of a] by simp

lemma unat_le_u32_bound [simp]: "unat (a :: u32) \<le> u32_bound"
  using unat_lt_u32_bound [of a] by linarith

lemma unat_add_u32: "unat a + unat b < u32_bound \<Longrightarrow> unat (a + b :: u32) = unat a + unat b"
  by (simp add: unat_word_ariths)

lemma unat_sub_u32: "b \<le> a \<Longrightarrow> unat (a - b :: u32) = unat a - unat b"
  by (simp add: unat_sub_if_size word_le_nat_alt)

lemma u32_le_unat: "(a :: u32) \<le> b \<longleftrightarrow> unat a \<le> unat b"
  by (rule word_le_nat_alt)

lemma u32_less_unat: "(a :: u32) < b \<longleftrightarrow> unat a < unat b"
  by (rule word_less_nat_alt)

lemma u32_eq_unat: "(a :: u32) = b \<longleftrightarrow> unat a = unat b"
  by (rule word_unat_eq_iff)

lemma u32_eq_0: "unat (a :: u32) = 0 \<longleftrightarrow> a = 0"
  by (rule unat_eq_0)

lemmas u32_unat = u32_le_unat u32_less_unat unat_add_u32 unat_sub_u32

lemma unat_of_nat_u32 [simp]: "n < u32_bound \<Longrightarrow> unat (of_nat n :: u32) = n"
  by (simp add: unat_of_nat)

lemma checked_add_Some:
  "checked_add a b = Some c \<longleftrightarrow> unat a + unat b < u32_bound \<and> c = a + b"
  by (auto simp: checked_add_def)

lemma checked_add_None: "checked_add a b = None \<longleftrightarrow> u32_bound \<le> unat a + unat b"
  by (auto simp: checked_add_def)

lemma checked_sub_Some: "checked_sub a b = Some c \<longleftrightarrow> b \<le> a \<and> c = a - b"
  by (auto simp: checked_sub_def)

lemma checked_sub_None: "checked_sub a b = None \<longleftrightarrow> a < b"
  by (auto simp: checked_sub_def not_le)

lemma u32_add_Ok: "unat a + unat b < u32_bound \<Longrightarrow> u32_add a b = Ok (a + b)"
  by (simp add: u32_add_def checked_add_def)

lemma u32_add_cases: "u32_add a b = (if unat a + unat b < u32_bound then Ok (a + b) else Panic)"
  by (simp add: u32_add_def checked_add_def)

lemma u32_sub_cases: "u32_sub a b = (if b \<le> a then Ok (a - b) else Panic)"
  by (simp add: u32_sub_def checked_sub_def)

lemma u32_sub_Ok: "b \<le> a \<Longrightarrow> u32_sub a b = Ok (a - b)"
  by (simp add: u32_sub_def checked_sub_def)

lemma wp_u32_add [wp_rules]:
  "wp (lift (u32_add a b)) Q E s \<longleftrightarrow> unat a + unat b < u32_bound \<and> Q (a + b) s"
  by (simp add: wp_lift u32_add_cases)

lemma wp_u32_sub [wp_rules]:
  "wp (lift (u32_sub a b)) Q E s \<longleftrightarrow> b \<le> a \<and> Q (a - b) s"
  by (simp add: wp_lift u32_sub_cases)

lemma wp_unwrap [wp_rules]:
  "wp (lift (unwrap x)) Q E s = (case x of None \<Rightarrow> False | Some a \<Rightarrow> Q a s)"
  by (cases x) (simp_all add: wp_lift)

lemma wp_ok_or [wp_rules]:
  "wp (lift (ok_or e x)) Q E s = (case x of None \<Rightarrow> E e s | Some a \<Rightarrow> Q a s)"
  by (cases x) (simp_all add: wp_lift)

lemma wp_index_vec [wp_rules]:
  "wp (lift (index_vec xs i)) Q E s \<longleftrightarrow> i < length xs \<and> Q (xs ! i) s"
  by (simp add: wp_lift index_vec_def)

section \<open>Lists\<close>

lemma take_Suc_drop: "i < length xs \<Longrightarrow> take (Suc n) (drop i xs) = xs ! i # take n (drop (Suc i) xs)"
  by (simp add: Cons_nth_drop_Suc [symmetric])

lemma drop_eq_Cons: "drop i xs = y # ys \<Longrightarrow> i < length xs \<and> y = xs ! i \<and> ys = drop (Suc i) xs"
  by (metis drop_all Cons_nth_drop_Suc list.distinct(1) list.inject not_le)

lemma list_update_append_middle: "length xs = n \<Longrightarrow> (xs @ y # zs)[n := x] = xs @ x # zs"
  by auto

end
