(* ===== verification/Interpreter_Data.thy ===== *)
theory Interpreter_Data
  imports Prelude
begin

text \<open>
  The trace part of the interpreter's data, crate \<^verbatim>\<open>air-interpreter-data\<close>: trace positions and
  generation indices (\<^verbatim>\<open>trace_pos.rs\<close>, \<^verbatim>\<open>generation_idx.rs\<close>), the executed states
  (\<^verbatim>\<open>executed_state.rs\<close> and its \<^verbatim>\<open>impls.rs\<close>) and the execution trace (\<^verbatim>\<open>trace.rs\<close>).

  A CID is the string it wraps; the phantom type of the value it refers to is dropped. The
  constructors of \<^verbatim>\<open>CanonResult\<close> carry the prefix \<open>Canon\<close>, because \<^verbatim>\<open>CallResult\<close> uses the same
  names. \<^verbatim>\<open>usize\<close> is \<open>nat\<close>, and \<^verbatim>\<open>as u32\<close> is \<open>of_nat\<close>, which truncates.
\<close>

section \<open>Positions and generations\<close>

type_synonym trace_pos = u32
type_synonym trace_len = u32
type_synonym generation_idx = u32

type_synonym cid = string

definition GENERATION_STUB :: generation_idx where
  "GENERATION_STUB = 0xCAFEBABE"

definition generation_checked_add :: "generation_idx \<Rightarrow> generation_idx \<Rightarrow> generation_idx option" where
  "generation_checked_add self other = checked_add self other"

definition generation_checked_sub :: "generation_idx \<Rightarrow> generation_idx \<Rightarrow> generation_idx option" where
  "generation_checked_sub self other = checked_sub self other"

definition generation_from_usize :: "nat \<Rightarrow> generation_idx" where
  "generation_from_usize value = of_nat value"

definition generation_next :: "generation_idx \<Rightarrow> generation_idx" where
  "generation_next self = generation_from_usize (unat self + 1)"

definition generation_prev :: "generation_idx \<Rightarrow> (generation_idx, 'e) result" where
  "generation_prev self =
     (if unat self = 0 then Panic else Ok (generation_from_usize (unat self - 1)))"

section \<open>Executed states\<close>

record par_result =
  left_size :: u32
  right_size :: u32

datatype sender = PeerId string | PeerIdWithCallId (peer_id: string) (call_id: u32)

datatype value_ref =
    Scalar cid
  | Stream (stream_cid: cid) (stream_generation: generation_idx)
  | Unused cid

datatype call_result = RequestSentBy sender | Executed value_ref | Failed cid

record sub_trace_desc =
  begin_pos :: trace_pos
  desc_subtrace_len :: u32

record fold_sub_trace_lore =
  value_pos :: trace_pos
  subtraces_desc :: "sub_trace_desc list"

type_synonym fold_lore = "fold_sub_trace_lore list"

record fold_result =
  lore :: fold_lore

record ap_result =
  res_generations :: "generation_idx list"

datatype canon_result = CanonRequestSentBy string | CanonExecuted cid

datatype executed_state =
    Par par_result
  | Call call_result
  | Fold fold_result
  | Ap ap_result
  | Canon canon_result

definition par_result_new :: "u32 \<Rightarrow> u32 \<Rightarrow> par_result" where
  "par_result_new l r = \<lparr>left_size = l, right_size = r\<rparr>"

definition par_result_default :: par_result where
  "par_result_default = \<lparr>left_size = 0, right_size = 0\<rparr>"

definition par_size :: "par_result \<Rightarrow> u32 option" where
  "par_size self = checked_add (left_size self) (right_size self)"

definition sent_peer_id :: "string \<Rightarrow> call_result" where
  "sent_peer_id p = RequestSentBy (PeerId p)"

definition sent_peer_id_with_call_id :: "string \<Rightarrow> u32 \<Rightarrow> call_result" where
  "sent_peer_id_with_call_id p i = RequestSentBy (PeerIdWithCallId p i)"

definition executed_service_result :: "value_ref \<Rightarrow> call_result" where
  "executed_service_result v = Executed v"

definition executed_scalar :: "cid \<Rightarrow> call_result" where
  "executed_scalar c = executed_service_result (Scalar c)"

definition executed_stream_stub :: "cid \<Rightarrow> call_result" where
  "executed_stream_stub c = Executed (Stream c GENERATION_STUB)"

definition executed_unused :: "cid \<Rightarrow> call_result" where
  "executed_unused c = executed_service_result (Unused c)"

definition call_failed :: "cid \<Rightarrow> call_result" where
  "call_failed c = Failed c"

fun value_ref_get_cid :: "value_ref \<Rightarrow> cid option" where
  "value_ref_get_cid (Scalar c) = Some c"
| "value_ref_get_cid (Stream c g) = Some c"
| "value_ref_get_cid (Unused c) = None"

fun call_result_get_cid :: "call_result \<Rightarrow> cid option" where
  "call_result_get_cid (RequestSentBy s) = None"
| "call_result_get_cid (Executed v) = value_ref_get_cid v"
| "call_result_get_cid (Failed c) = Some c"

definition sub_trace_desc_new :: "trace_pos \<Rightarrow> nat \<Rightarrow> sub_trace_desc" where
  "sub_trace_desc_new pos len = \<lparr>begin_pos = pos, desc_subtrace_len = of_nat len\<rparr>"

definition executed_state_par :: "nat \<Rightarrow> nat \<Rightarrow> executed_state" where
  "executed_state_par l r = Par \<lparr>left_size = of_nat l, right_size = of_nat r\<rparr>"

definition ap_result_new :: "generation_idx \<Rightarrow> ap_result" where
  "ap_result_new g = \<lparr>res_generations = [g]\<rparr>"

definition ap_result_stub :: ap_result where
  "ap_result_stub = \<lparr>res_generations = [GENERATION_STUB]\<rparr>"

section \<open>The execution trace\<close>

type_synonym execution_trace = "executed_state list"

definition trace_get :: "execution_trace \<Rightarrow> trace_pos \<Rightarrow> executed_state option" where
  "trace_get t i = (if unat i < length t then Some (t ! unat i) else None)"

definition trace_push :: "execution_trace \<Rightarrow> executed_state \<Rightarrow> execution_trace" where
  "trace_push t v = t @ [v]"

definition trace_pop :: "execution_trace \<Rightarrow> executed_state option \<times> execution_trace" where
  "trace_pop t = (if t = [] then (None, []) else (Some (last t), butlast t))"

definition trace_states_count :: "execution_trace \<Rightarrow> (trace_len, 'e) result" where
  "trace_states_count t = (if length t < u32_bound then Ok (of_nat (length t)) else Panic)"

definition trace_index :: "execution_trace \<Rightarrow> trace_pos \<Rightarrow> (executed_state, 'e) result" where
  "trace_index t i = index_vec t (unat i)"

definition trace_index_set :: "execution_trace \<Rightarrow> trace_pos \<Rightarrow> executed_state \<Rightarrow> (execution_trace, 'e) result" where
  "trace_index_set t i v = (if unat i < length t then Ok (t[unat i := v]) else Panic)"

section \<open>Facts\<close>

lemma unat_generation_next:
  "unat g + 1 < u32_bound \<Longrightarrow> unat (generation_next g) = unat g + 1"
  using unat_of_nat_u32 [of "unat g + 1"] unfolding generation_next_def generation_from_usize_def
  by blast

lemma generation_prev_next:
  "unat g + 1 < u32_bound \<Longrightarrow> generation_prev (generation_next g) = Ok g"
  by (simp add: generation_prev_def unat_generation_next) (simp add: generation_from_usize_def)

lemma trace_states_count_Ok [simp]:
  "length t < u32_bound \<Longrightarrow> trace_states_count t = Ok (of_nat (length t))"
  by (simp add: trace_states_count_def)

lemma wp_trace_states_count [wp_rules]:
  "wp (lift (trace_states_count t)) Q E s \<longleftrightarrow> length t < u32_bound \<and> Q (of_nat (length t)) s"
  by (simp add: wp_lift trace_states_count_def)

lemma wp_trace_index [wp_rules]:
  "wp (lift (trace_index t i)) Q E s \<longleftrightarrow> unat i < length t \<and> Q (t ! unat i) s"
  by (simp add: wp_index_vec trace_index_def)

lemma wp_trace_index_set [wp_rules]:
  "wp (lift (trace_index_set t i v)) Q E s \<longleftrightarrow> unat i < length t \<and> Q (t[unat i := v]) s"
  by (simp add: wp_lift trace_index_set_def)

lemma trace_pop_push: "trace_pop (trace_push t v) = (Some v, t)"
  by (simp add: trace_pop_def trace_push_def)

lemma trace_get_push: "length t < u32_bound \<Longrightarrow>
   trace_get (trace_push t v) (of_nat (length t)) = Some v"
  by (simp add: trace_get_def trace_push_def)

end
