(* ===== verification/Trace_Slider.thy ===== *)
theory Trace_Slider
  imports Interpreter_Data
begin

text \<open>
  \<^verbatim>\<open>trace-handler/src/data_keeper/trace_slider.rs\<close>: a cursor over a window of a trace. The
  window is given by a position and a length, and \<^verbatim>\<open>next_state\<close> hands out its states one by
  one. The component's contract is that of a source of states: what is left in the window is
  \<open>remaining\<close>, \<open>next_state\<close> takes its head, and no operation ever changes the trace. The
  invariant \<open>slider_wf\<close> says that the window lies inside the trace unless it is empty; every
  operation keeps it.
\<close>

section \<open>Model\<close>

datatype keeper_error =
    SetSubtraceLenFailed (requested_subtrace_len: trace_len) (trace_position: trace_pos)
      (set_len_trace_len: trace_len)
  | SetSubtraceLenAndPosFailed (requested_pos: trace_pos) (requested_subtrace_len: trace_len)
      (set_pos_trace_len: trace_len)
  | NoElementAtPosition (no_element_position: trace_pos) (no_element_trace_len: trace_len)
  | NoStreamState (no_stream_state: executed_state)

record trace_slider =
  ts_trace :: execution_trace
  ts_position :: trace_pos
  ts_subtrace_len :: trace_len
  ts_seen_elements :: u32

definition slider_new :: "execution_trace \<Rightarrow> (trace_slider, 'e) result" where
  "slider_new trace = res_then (trace_states_count trace) (\<lambda>subtrace_len.
     Ok \<lparr>ts_trace = trace, ts_position = 0, ts_subtrace_len = subtrace_len, ts_seen_elements = 0\<rparr>)"

definition next_state :: "(trace_slider, executed_state option, 'e) comp" where
  "next_state =
     and_then (gets id) (\<lambda>self.
       if ts_seen_elements self \<ge> ts_subtrace_len self then ret None
       else and_then (lift (trace_states_count (ts_trace self))) (\<lambda>count.
         if ts_position self \<ge> count then ret None
         else
           and_then (lift (trace_index (ts_trace self) (ts_position self))) (\<lambda>result.
           and_then (lift (u32_add (ts_position self) 1)) (\<lambda>position.
           and_then (modify (\<lambda>s. s\<lparr>ts_position := position\<rparr>)) (\<lambda>_.
           and_then (lift (u32_add (ts_seen_elements self) 1)) (\<lambda>seen.
           and_then (modify (\<lambda>s. s\<lparr>ts_seen_elements := seen\<rparr>)) (\<lambda>_.
           ret (Some result))))))))"

definition set_position_and_len :: "trace_pos \<Rightarrow> trace_len \<Rightarrow> (trace_slider, unit, keeper_error) comp" where
  "set_position_and_len position subtrace_len =
     and_then (gets id) (\<lambda>self.
     and_then
       (if subtrace_len \<noteq> 0 then
          and_then (lift (u32_add position subtrace_len)) (\<lambda>end_pos.
          and_then (lift (trace_states_count (ts_trace self))) (\<lambda>count.
          ret (end_pos > count)))
        else ret False) (\<lambda>failed.
     if failed then
       and_then (lift (trace_states_count (ts_trace self))) (\<lambda>count.
       throw (SetSubtraceLenAndPosFailed position subtrace_len count))
     else
       modify (\<lambda>s. s\<lparr>ts_position := position, ts_subtrace_len := subtrace_len,
                    ts_seen_elements := 0\<rparr>)))"

definition set_subtrace_len :: "trace_len \<Rightarrow> (trace_slider, unit, keeper_error) comp" where
  "set_subtrace_len subtrace_len =
     and_then (gets id) (\<lambda>self.
     and_then (lift (trace_states_count (ts_trace self))) (\<lambda>count.
     and_then (lift (u32_sub count (ts_position self))) (\<lambda>trace_remainder.
     if trace_remainder < subtrace_len then
       throw (SetSubtraceLenFailed subtrace_len (ts_position self) count)
     else
       modify (\<lambda>s. s\<lparr>ts_seen_elements := 0, ts_subtrace_len := subtrace_len\<rparr>))))"

definition slider_subtrace_len :: "trace_slider \<Rightarrow> (trace_len, 'e) result" where
  "slider_subtrace_len self = u32_sub (ts_subtrace_len self) (ts_seen_elements self)"

definition state_at_position :: "trace_slider \<Rightarrow> trace_pos \<Rightarrow> executed_state option" where
  "state_at_position self position = trace_get (ts_trace self) position"

definition slider_trace_len :: "trace_slider \<Rightarrow> (trace_len, 'e) result" where
  "slider_trace_len self = trace_states_count (ts_trace self)"

section \<open>The window and the invariant\<close>

definition window_len :: "trace_slider \<Rightarrow> nat" where
  "window_len s = unat (ts_subtrace_len s) - unat (ts_seen_elements s)"

definition remaining :: "trace_slider \<Rightarrow> executed_state list" where
  "remaining s = take (window_len s) (drop (unat (ts_position s)) (ts_trace s))"

definition slider_wf :: "trace_slider \<Rightarrow> bool" where
  "slider_wf s \<longleftrightarrow>
     length (ts_trace s) < u32_bound \<and>
     ts_seen_elements s \<le> ts_subtrace_len s \<and>
     (window_len s \<noteq> 0 \<longrightarrow> unat (ts_position s) + window_len s \<le> length (ts_trace s))"

text \<open>A slider whose position has not left the trace; \<^verbatim>\<open>set_subtrace_len\<close> relies on it.\<close>

definition slider_in_trace :: "trace_slider \<Rightarrow> bool" where
  "slider_in_trace s \<longleftrightarrow> slider_wf s \<and> unat (ts_position s) \<le> length (ts_trace s)"

lemma slider_in_trace_wf: "slider_in_trace s \<Longrightarrow> slider_wf s"
  by (simp add: slider_in_trace_def)

lemma length_remaining: "slider_wf s \<Longrightarrow> length (remaining s) = window_len s"
  by (auto simp: slider_wf_def remaining_def)

lemma remaining_Nil_iff: "slider_wf s \<Longrightarrow> remaining s = [] \<longleftrightarrow> window_len s = 0"
  by (metis length_0_conv length_remaining)

lemma window_len_0: "slider_wf s \<Longrightarrow> ts_seen_elements s \<ge> ts_subtrace_len s \<longleftrightarrow> window_len s = 0"
  by (auto simp: slider_wf_def window_len_def u32_le_unat)

lemma slider_new_wf:
  "slider_new t = Ok s \<Longrightarrow>
     slider_in_trace s \<and> ts_trace s = t \<and> remaining s = t \<and> window_len s = length t"
  by (auto simp: slider_new_def trace_states_count_def slider_in_trace_def slider_wf_def
      remaining_def window_len_def split: if_splits)

lemma slider_new_Ok: "length t < u32_bound \<Longrightarrow> \<exists>s. slider_new t = Ok s"
  by (simp add: slider_new_def)

section \<open>The operations keep the invariant\<close>

definition advanced :: "trace_slider \<Rightarrow> trace_slider" where
  "advanced s = s\<lparr>ts_position := ts_position s + 1, ts_seen_elements := ts_seen_elements s + 1\<rparr>"

lemma next_state_Nil:
  assumes "slider_wf s" "remaining s = []"
  shows "next_state s = (Ok None, s)"
  using assms
  by (simp add: next_state_def comp_defs window_len_0 remaining_Nil_iff)

lemma window_bounds:
  assumes "slider_wf s" "remaining s = x # xs"
  shows "unat (ts_position s) < length (ts_trace s)" "ts_trace s ! unat (ts_position s) = x"
    "unat (ts_seen_elements s) < unat (ts_subtrace_len s)"
    "length (ts_trace s) < u32_bound" "unat (ts_seen_elements s) + 1 < u32_bound"
proof -
  have nz: "window_len s \<noteq> 0"
    using assms by (metis list.distinct(1) remaining_Nil_iff)
  with assms(1) show pos: "unat (ts_position s) < length (ts_trace s)"
    by (auto simp: slider_wf_def)
  show "ts_trace s ! unat (ts_position s) = x"
    using assms(2) pos nz
    by (cases "window_len s") (auto simp: remaining_def take_Suc_drop)
  show seen: "unat (ts_seen_elements s) < unat (ts_subtrace_len s)"
    using nz by (simp add: window_len_def)
  show "unat (ts_seen_elements s) + 1 < u32_bound"
    using seen unat_lt_u32_bound [of "ts_subtrace_len s"] by linarith
  show "length (ts_trace s) < u32_bound"
    using assms(1) by (simp add: slider_wf_def)
qed

lemma next_state_Cons:
  assumes "slider_wf s" "remaining s = x # xs"
  shows "next_state s = (Ok (Some x), advanced s)"
proof -
  note b = window_bounds [OF assms]
  have "\<not> ts_seen_elements s \<ge> ts_subtrace_len s"
    "\<not> ts_position s \<ge> of_nat (length (ts_trace s))"
    using b by (simp_all add: u32_le_unat)
  moreover have "unat (ts_position s) + 1 < u32_bound"
    using b by linarith
  ultimately show ?thesis
    using b by (simp add: next_state_def comp_defs trace_index_def index_vec_def advanced_def
        u32_add_cases)
qed

lemma advanced_wf:
  assumes "slider_wf s" "remaining s = x # xs"
  shows "slider_wf (advanced s)" "remaining (advanced s) = xs"
    "window_len (advanced s) = window_len s - 1" "ts_trace (advanced s) = ts_trace s"
    "unat (ts_position (advanced s)) = unat (ts_position s) + 1"
    "unat (ts_position (advanced s)) \<le> length (ts_trace s)"
proof -
  note b = window_bounds [OF assms]
  have p: "unat (ts_position s + 1) = unat (ts_position s) + 1"
    using b by (subst unat_add_u32) auto
  have k: "unat (ts_seen_elements s + 1) = unat (ts_seen_elements s) + 1"
    using b by (subst unat_add_u32) auto
  show "unat (ts_position (advanced s)) = unat (ts_position s) + 1"
    using p by (simp add: advanced_def)
  show w: "window_len (advanced s) = window_len s - 1"
    using k by (simp add: advanced_def window_len_def)
  show "ts_trace (advanced s) = ts_trace s"
    by (simp add: advanced_def)
  show "slider_wf (advanced s)"
    using assms(1) b k p w by (auto simp: slider_wf_def advanced_def window_len_def u32_le_unat)
  show "unat (ts_position (advanced s)) \<le> length (ts_trace s)"
    using b p by (simp add: advanced_def)
  have "window_len s = Suc (window_len s - 1)"
    using b by (simp add: window_len_def)
  then have "x # xs = ts_trace s ! unat (ts_position s)
      # take (window_len s - 1) (drop (Suc (unat (ts_position s))) (ts_trace s))"
    using assms(2) b take_Suc_drop [of "unat (ts_position s)" "ts_trace s" "window_len s - 1"]
    by (simp add: remaining_def)
  then show "remaining (advanced s) = xs"
    using w p by (simp add: remaining_def advanced_def)
qed

lemma set_position_and_len_eq:
  assumes "length (ts_trace s) < u32_bound"
  shows "set_position_and_len p n s =
    (if n \<noteq> 0 \<and> u32_bound \<le> unat p + unat n then (Panic, s)
     else if n \<noteq> 0 \<and> length (ts_trace s) < unat p + unat n
       then (Err (SetSubtraceLenAndPosFailed p n (of_nat (length (ts_trace s)))), s)
     else (Ok (), s\<lparr>ts_position := p, ts_subtrace_len := n, ts_seen_elements := 0\<rparr>))"
  using assms
  by (auto simp: set_position_and_len_def comp_defs u32_add_cases u32_unat not_less)

lemma set_subtrace_len_eq:
  assumes "length (ts_trace s) < u32_bound"
  shows "set_subtrace_len n s =
    (if length (ts_trace s) < unat (ts_position s) then (Panic, s)
     else if length (ts_trace s) - unat (ts_position s) < unat n
       then (Err (SetSubtraceLenFailed n (ts_position s) (of_nat (length (ts_trace s)))), s)
     else (Ok (), s\<lparr>ts_seen_elements := 0, ts_subtrace_len := n\<rparr>))"
  using assms
  by (auto simp: set_subtrace_len_def comp_defs u32_sub_cases u32_unat)

lemma set_position_wf:
  assumes "length (ts_trace s) < u32_bound" "n \<noteq> 0 \<longrightarrow> unat p + unat n \<le> length (ts_trace s)"
  shows "slider_wf (s\<lparr>ts_position := p, ts_subtrace_len := n, ts_seen_elements := 0\<rparr>)"
    "window_len (s\<lparr>ts_position := p, ts_subtrace_len := n, ts_seen_elements := 0\<rparr>) = unat n"
    "remaining (s\<lparr>ts_position := p, ts_subtrace_len := n, ts_seen_elements := 0\<rparr>)
       = take (unat n) (drop (unat p) (ts_trace s))"
  using assms by (auto simp: slider_wf_def window_len_def remaining_def u32_eq_0)

lemma set_len_wf:
  assumes "slider_wf s" "unat (ts_position s) + unat n \<le> length (ts_trace s)"
  shows "slider_wf (s\<lparr>ts_seen_elements := 0, ts_subtrace_len := n\<rparr>)"
    "window_len (s\<lparr>ts_seen_elements := 0, ts_subtrace_len := n\<rparr>) = unat n"
    "remaining (s\<lparr>ts_seen_elements := 0, ts_subtrace_len := n\<rparr>)
       = take (unat n) (drop (unat (ts_position s)) (ts_trace s))"
  using assms by (auto simp: slider_wf_def window_len_def remaining_def)

lemma slider_subtrace_len_Ok:
  "slider_wf s \<Longrightarrow> slider_subtrace_len s = Ok (ts_subtrace_len s - ts_seen_elements s)
     \<and> unat (ts_subtrace_len s - ts_seen_elements s) = window_len s"
  by (simp add: slider_subtrace_len_def slider_wf_def u32_sub_cases unat_sub_u32 window_len_def)

section \<open>Any sequence of operations\<close>

inductive slider_step :: "trace_slider \<Rightarrow> trace_slider \<Rightarrow> bool" where
  step_next: "next_state s = (r :: (executed_state option, keeper_error) result, t) \<Longrightarrow> slider_step s t"
| step_set_position: "set_position_and_len p n s = (r, t) \<Longrightarrow> slider_step s t"
| step_set_len: "set_subtrace_len n s = (r, t) \<Longrightarrow> slider_step s t"

inductive slider_reachable :: "execution_trace \<Rightarrow> trace_slider \<Rightarrow> bool" for trace where
  reach_new: "slider_new trace = (Ok s :: (trace_slider, keeper_error) result) \<Longrightarrow> slider_reachable trace s"
| reach_step: "slider_reachable trace s \<Longrightarrow> slider_step s t \<Longrightarrow> slider_reachable trace t"

lemma next_state_cases:
  assumes "slider_wf s"
  obtains (exhausted) "remaining s = []"
      "next_state s = (Ok None :: (executed_state option, 'e) result, s)"
  | (state) x xs where "remaining s = x # xs"
      "next_state s = (Ok (Some x) :: (executed_state option, 'e) result, advanced s)"
  using assms next_state_Nil [OF assms] next_state_Cons [OF assms]
  by (cases "remaining s") auto

lemma slider_step_wf:
  assumes "slider_step s t" "slider_wf s"
  shows "slider_wf t \<and> ts_trace t = ts_trace s"
  using assms
proof (cases rule: slider_step.cases)
  case (step_next r)
  from assms(2) show ?thesis
  proof (cases rule: next_state_cases [where 'e = keeper_error])
    case exhausted
    with step_next assms(2) show ?thesis by simp
  next
    case (state x xs)
    with step_next advanced_wf [OF assms(2) state(1)] show ?thesis by simp
  qed
next
  case (step_set_position p n r)
  then show ?thesis
    using assms(2) set_position_wf(1) [of s n p]
    by (auto simp: set_position_and_len_eq slider_wf_def split: if_splits)
next
  case (step_set_len n r)
  then show ?thesis
    using assms(2) set_len_wf(1) [of s n]
    by (auto simp: set_subtrace_len_eq slider_wf_def split: if_splits)
qed

lemma slider_reachable_wf:
  "slider_reachable trace s \<Longrightarrow> slider_wf s \<and> ts_trace s = trace"
proof (induction rule: slider_reachable.induct)
  case (reach_new s)
  then show ?case using slider_new_wf slider_in_trace_wf by blast
next
  case (reach_step s t)
  then show ?case using slider_step_wf by auto
qed

section \<open>The contract of a source of states\<close>

fun drain :: "nat \<Rightarrow> ('s, 'a option, 'e) comp \<Rightarrow> ('s, 'a list, 'e) comp" where
  "drain 0 next = ret []"
| "drain (Suc n) next =
     and_then next (\<lambda>x. case x of None \<Rightarrow> ret []
       | Some a \<Rightarrow> and_then (drain n next) (\<lambda>as. ret (a # as)))"

locale state_source =
  fixes take_next :: "('s, 'a option, 'e) comp"
    and contents :: "'s \<Rightarrow> 'a list"
    and invar :: "'s \<Rightarrow> bool"
  assumes take_Nil: "invar s \<Longrightarrow> contents s = [] \<Longrightarrow> take_next s = (Ok None, s)"
    and take_Cons: "invar s \<Longrightarrow> contents s = x # xs \<Longrightarrow>
      \<exists>t. take_next s = (Ok (Some x), t) \<and> invar t \<and> contents t = xs"
begin

lemma drain_contents:
  "invar s \<Longrightarrow> length (contents s) < n \<Longrightarrow>
     \<exists>t. drain n take_next s = (Ok (contents s), t) \<and> invar t \<and> contents t = []"
proof (induction n arbitrary: s)
  case 0
  then show ?case by simp
next
  case (Suc n)
  show ?case
  proof (cases "contents s")
    case Nil
    with Suc.prems take_Nil show ?thesis by (simp add: comp_defs)
  next
    case (Cons x xs)
    with Suc.prems take_Cons obtain t
      where t: "take_next s = (Ok (Some x), t)" "invar t" "contents t = xs" by blast
    with Suc.prems Cons Suc.IH [of t] obtain u
      where "drain n take_next t = (Ok xs, u)" "invar u" "contents u = []" by auto
    with t Cons show ?thesis by (simp add: comp_defs)
  qed
qed

lemma take_next_cases:
  assumes "invar s"
  shows "take_next s = (Ok None, s) \<and> contents s = [] \<or>
    (\<exists>x t. take_next s = (Ok (Some x), t) \<and> invar t \<and> contents s = x # contents t)"
  using assms take_Nil take_Cons by (cases "contents s") blast+

end

interpretation slider_source: state_source next_state remaining slider_wf
proof unfold_locales
  fix s
  assume "slider_wf s" "remaining s = []"
  then show "next_state s = (Ok None, s)" by (rule next_state_Nil)
next
  fix s x xs
  assume "slider_wf s" "remaining s = x # xs"
  then show "\<exists>t. next_state s = (Ok (Some x), t) \<and> slider_wf t \<and> remaining t = xs"
    using next_state_Cons advanced_wf by blast
qed

section \<open>Properties\<close>

text \<open>
  C21. Whatever sequence of \<^verbatim>\<open>next_state\<close>, \<^verbatim>\<open>set_position_and_len\<close> and \<^verbatim>\<open>set_subtrace_len\<close> calls
  leads to a slider (with any arguments, after errors too), its trace is the one it was built
  on, its window lies inside the trace, \<^verbatim>\<open>next_state\<close> returns the head of the window without a
  panic and moves on to the tail, and \<^verbatim>\<open>subtrace_len\<close> is the number of states left.
\<close>

theorem slider_invariant:
  assumes "slider_reachable trace s"
  shows "slider_wf s \<and> ts_trace s = trace
    \<and> (\<exists>t. next_state s = (Ok (case remaining s of [] \<Rightarrow> None | x # _ \<Rightarrow> Some x), t)
         \<and> remaining t = tl (remaining s) \<and> ts_trace t = trace)
    \<and> (\<exists>n. slider_subtrace_len s = Ok n \<and> unat n = length (remaining s))"
proof -
  have wf: "slider_wf s" and tr: "ts_trace s = trace"
    using slider_reachable_wf [OF assms] by auto
  have "\<exists>t. next_state s = (Ok (case remaining s of [] \<Rightarrow> None | x # _ \<Rightarrow> Some x), t)
       \<and> remaining t = tl (remaining s) \<and> ts_trace t = trace"
    using next_state_Nil [OF wf] next_state_Cons [OF wf] advanced_wf [OF wf] tr
    by (cases "remaining s") auto
  moreover have "\<exists>n. slider_subtrace_len s = Ok n \<and> unat n = length (remaining s)"
    using slider_subtrace_len_Ok [OF wf] length_remaining [OF wf] by auto
  ultimately show ?thesis
    using wf tr by blast
qed

definition example_trace :: execution_trace where
  "example_trace = [Par \<lparr>left_size = 1, right_size = 1\<rparr>, Call (Executed (Scalar ''a'')),
     Call (RequestSentBy (PeerId ''p''))]"

lemma slider_invariant_witness:
  "ts_trace \<lparr>ts_trace = example_trace, ts_position = 0, ts_subtrace_len = 3, ts_seen_elements = 0\<rparr>
     = example_trace"
  by (rule slider_invariant [THEN conjunct2, THEN conjunct1], rule reach_new)
    (simp add: slider_new_def example_trace_def)

text \<open>
  Moving the window and then reading it to its end yields exactly the states the window
  covers, in trace order: a slider refines the list of states it was pointed at.
\<close>

theorem slider_reads_window:
  assumes "slider_wf s" "unat p + unat n \<le> length (ts_trace s)" "unat n < fuel"
  shows "\<exists>t u. set_position_and_len p n s = (Ok (), t)
    \<and> drain fuel next_state t = (Ok (take (unat n) (drop (unat p) (ts_trace s))), u)
    \<and> remaining u = []"
proof -
  have len: "length (ts_trace s) < u32_bound"
    using assms(1) by (simp add: slider_wf_def)
  let ?t = "s\<lparr>ts_position := p, ts_subtrace_len := n, ts_seen_elements := 0\<rparr>"
  have "set_position_and_len p n s = (Ok (), ?t)"
    using len assms(2) by (simp add: set_position_and_len_eq)
  moreover note wf = set_position_wf [OF len, of n p]
  have "\<exists>u. drain fuel next_state ?t = (Ok (remaining ?t), u) \<and> slider_wf u \<and> remaining u = []"
    using assms(2,3) wf length_remaining [OF wf(1)] by (intro slider_source.drain_contents) auto
  ultimately show ?thesis
    using wf(3) assms(2) by auto
qed

lemma slider_reads_window_witness:
  "\<exists>t u. set_position_and_len 1 2
        \<lparr>ts_trace = example_trace, ts_position = 0, ts_subtrace_len = 3, ts_seen_elements = 0\<rparr>
        = (Ok (), t)
    \<and> drain 3 next_state t = (Ok (take 2 (drop 1 example_trace)), u)
    \<and> remaining u = []"
  using slider_reads_window
    [of "\<lparr>ts_trace = example_trace, ts_position = 0, ts_subtrace_len = 3, ts_seen_elements = 0\<rparr>" 1 2 3]
  by (simp add: slider_wf_def window_len_def example_trace_def)

text \<open>
  The setters on every branch. \<^verbatim>\<open>set_position_and_len\<close> adds its arguments without a check, so
  it panics when their sum leaves \<^verbatim>\<open>u32\<close>, fails when it leaves the trace, and accepts any
  position at all when the length is zero; \<^verbatim>\<open>set_subtrace_len\<close> then panics at such a position.
  No branch but the successful one changes the slider.
\<close>

theorem slider_setters:
  assumes "length (ts_trace s) < u32_bound"
  shows "set_position_and_len p n s =
    (if n \<noteq> 0 \<and> u32_bound \<le> unat p + unat n then (Panic, s)
     else if n \<noteq> 0 \<and> length (ts_trace s) < unat p + unat n
       then (Err (SetSubtraceLenAndPosFailed p n (of_nat (length (ts_trace s)))), s)
     else (Ok (), s\<lparr>ts_position := p, ts_subtrace_len := n, ts_seen_elements := 0\<rparr>))
    \<and> set_subtrace_len n s =
    (if length (ts_trace s) < unat (ts_position s) then (Panic, s)
     else if length (ts_trace s) - unat (ts_position s) < unat n
       then (Err (SetSubtraceLenFailed n (ts_position s) (of_nat (length (ts_trace s)))), s)
     else (Ok (), s\<lparr>ts_seen_elements := 0, ts_subtrace_len := n\<rparr>))"
  using set_position_and_len_eq [OF assms] set_subtrace_len_eq [OF assms] by auto

lemma slider_setters_witness:
  "fst (set_position_and_len 0xFFFFFFFF 1
     \<lparr>ts_trace = example_trace, ts_position = 0, ts_subtrace_len = 3, ts_seen_elements = 0\<rparr>) = Panic
   \<and> fst (set_subtrace_len 1
     \<lparr>ts_trace = example_trace, ts_position = 7, ts_subtrace_len = 0, ts_seen_elements = 0\<rparr>) = Panic"
  by (simp add: slider_setters example_trace_def)

end
