(* ===== verification/Data_Keeper.thy ===== *)
theory Data_Keeper
  imports Trace_Slider
begin

text \<open>
  \<^verbatim>\<open>trace-handler/src/data_keeper/merge_ctx.rs\<close> and \<^verbatim>\<open>keeper.rs\<close>: the two input traces, each
  behind its slider, the result trace, and the maps from positions of the result trace to
  positions of the inputs.

  The maps are \<^verbatim>\<open>bimap::BiHashMap\<close>, a third-party crate. It is a parameter: a record of the
  three operations the code calls, which every definition that touches a map takes as its
  argument. What the crate documents of them is \<open>bimap_documented\<close>: inserting a pair overwrites
  the pairs that share its left or its right value.
\<close>

section \<open>Model\<close>

record 'bm bimap_ops =
  bm_default :: 'bm
  bm_insert :: "'bm \<Rightarrow> trace_pos \<Rightarrow> trace_pos \<Rightarrow> 'bm"
  bm_get_by_left :: "'bm \<Rightarrow> trace_pos \<Rightarrow> trace_pos option"

definition bimap_documented :: "'bm bimap_ops \<Rightarrow> bool" where
  "bimap_documented B \<longleftrightarrow>
     (\<forall>x. bm_get_by_left B (bm_default B) x = None) \<and>
     (\<forall>m l r x. bm_get_by_left B (bm_insert B m l r) x =
        (if x = l then Some r
         else if bm_get_by_left B m x = Some r then None else bm_get_by_left B m x))"

record merge_ctx =
  slider :: trace_slider

record 'bm data_keeper =
  prev_ctx :: merge_ctx
  current_ctx :: merge_ctx
  new_to_prev_pos :: 'bm
  new_to_current_pos :: 'bm
  result_trace :: execution_trace

definition merge_ctx_from_trace :: "execution_trace \<Rightarrow> (merge_ctx, 'e) result" where
  "merge_ctx_from_trace trace = res_then (slider_new trace) (\<lambda>s. Ok \<lparr>slider = s\<rparr>)"

definition try_get_generation :: "merge_ctx \<Rightarrow> trace_pos \<Rightarrow> (generation_idx, keeper_error) result" where
  "try_get_generation self position =
     res_then
       (case state_at_position (slider self) position of
          Some state \<Rightarrow> Ok state
        | None \<Rightarrow> res_then (slider_trace_len (slider self)) (\<lambda>trace_len.
            Err (NoElementAtPosition position trace_len)))
       (\<lambda>state. case state of
          Call (Executed (Stream _ generation)) \<Rightarrow> Ok generation
        | Ap ap \<Rightarrow> index_vec (res_generations ap) 0
        | state \<Rightarrow> Err (NoStreamState state))"

definition data_keeper_from_trace ::
    "'bm bimap_ops \<Rightarrow> execution_trace \<Rightarrow> execution_trace \<Rightarrow> ('bm data_keeper, 'e) result" where
  "data_keeper_from_trace B prev_trace current_trace =
     res_then (merge_ctx_from_trace prev_trace) (\<lambda>prev_ctx.
     res_then (merge_ctx_from_trace current_trace) (\<lambda>current_ctx.
     Ok \<lparr>prev_ctx = prev_ctx, current_ctx = current_ctx, new_to_prev_pos = bm_default B,
         new_to_current_pos = bm_default B, result_trace = []\<rparr>))"

definition result_states_count :: "'bm data_keeper \<Rightarrow> nat" where
  "result_states_count self = length (result_trace self)"

definition result_trace_next_pos :: "'bm data_keeper \<Rightarrow> (trace_pos, 'e) result" where
  "result_trace_next_pos self = trace_states_count (result_trace self)"

definition prev_slider :: "'bm data_keeper \<Rightarrow> trace_slider" where
  "prev_slider self = slider (prev_ctx self)"

definition current_slider :: "'bm data_keeper \<Rightarrow> trace_slider" where
  "current_slider self = slider (current_ctx self)"

definition prev_slider_mut :: "(trace_slider, 'a, 'e) comp \<Rightarrow> ('bm data_keeper, 'a, 'e) comp" where
  "prev_slider_mut m = zoom prev_slider (\<lambda>f. prev_ctx_update (slider_update f)) m"

definition current_slider_mut :: "(trace_slider, 'a, 'e) comp \<Rightarrow> ('bm data_keeper, 'a, 'e) comp" where
  "current_slider_mut m = zoom current_slider (\<lambda>f. current_ctx_update (slider_update f)) m"

text \<open>
  The two \<^verbatim>\<open>next_state\<close> calls every merger starts with.
\<close>

definition next_states :: "('bm data_keeper, executed_state option \<times> executed_state option, 'e) comp" where
  "next_states =
     and_then (prev_slider_mut next_state) (\<lambda>prev_state.
     and_then (current_slider_mut next_state) (\<lambda>current_state.
     ret (prev_state, current_state)))"

section \<open>Invariant\<close>

definition keeper_wf :: "'bm data_keeper \<Rightarrow> bool" where
  "keeper_wf d \<longleftrightarrow> slider_wf (prev_slider d) \<and> slider_wf (current_slider d)"

definition head :: "'a list \<Rightarrow> 'a option" where
  "head xs = (case xs of [] \<Rightarrow> None | x # _ \<Rightarrow> Some x)"

text \<open>A slider after \<^verbatim>\<open>next_state\<close>: unchanged when its window is exhausted.\<close>

definition step_slider :: "trace_slider \<Rightarrow> trace_slider" where
  "step_slider s = (if remaining s = [] then s else advanced s)"

definition step_sliders :: "'bm data_keeper \<Rightarrow> 'bm data_keeper" where
  "step_sliders d = d\<lparr>prev_ctx := \<lparr>slider = step_slider (prev_slider d)\<rparr>,
     current_ctx := \<lparr>slider = step_slider (current_slider d)\<rparr>\<rparr>"

lemma head_simps [simp]: "head [] = None" "head (x # xs) = Some x"
  by (simp_all add: head_def)

lemma head_None [simp]: "head xs = None \<longleftrightarrow> xs = []"
  by (cases xs) simp_all

lemma head_Some: "head xs = Some x \<longleftrightarrow> (\<exists>ys. xs = x # ys)"
  by (cases xs) auto

lemma next_state_step: "slider_wf s \<Longrightarrow> next_state s = (Ok (head (remaining s)), step_slider s)"
  by (cases "remaining s") (simp_all add: next_state_Nil next_state_Cons step_slider_def)

lemma step_slider_wf:
  "slider_wf s \<Longrightarrow> slider_wf (step_slider s)"
  "ts_trace (step_slider s) = ts_trace s"
  "slider_wf s \<Longrightarrow> remaining (step_slider s) = tl (remaining s)"
  using advanced_wf [of s]
  by (cases "remaining s"; simp add: step_slider_def advanced_def)+

lemma step_slider_position:
  assumes "slider_wf s" "head (remaining s) = Some x"
  shows "1 \<le> ts_position (step_slider s)"
    "ts_position (step_slider s) - 1 = ts_position s"
    "unat (ts_position s) < length (ts_trace s)" "ts_trace s ! unat (ts_position s) = x"
proof -
  from assms(2) obtain xs where xs: "remaining s = x # xs"
    by (auto simp: head_Some)
  note a = advanced_wf [OF assms(1) xs] and b = window_bounds [OF assms(1) xs]
  show "1 \<le> ts_position (step_slider s)"
    using a(5) xs by (simp add: step_slider_def u32_le_unat)
  show "ts_position (step_slider s) - 1 = ts_position s"
    using xs by (simp add: step_slider_def advanced_def)
  show "unat (ts_position s) < length (ts_trace s)" "ts_trace s ! unat (ts_position s) = x"
    using b by auto
qed

lemma slider_update_const [simp]: "slider_update (\<lambda>_. s) c = \<lparr>slider = s\<rparr>"
  by (cases c) simp

lemma slider_sel_simps [simp]:
  "prev_slider (d\<lparr>prev_ctx := c\<rparr>) = slider c"
  "prev_slider (d\<lparr>current_ctx := c\<rparr>) = prev_slider d"
  "prev_slider (d\<lparr>new_to_prev_pos := m\<rparr>) = prev_slider d"
  "prev_slider (d\<lparr>new_to_current_pos := m\<rparr>) = prev_slider d"
  "prev_slider (d\<lparr>result_trace := t\<rparr>) = prev_slider d"
  "current_slider (d\<lparr>current_ctx := c\<rparr>) = slider c"
  "current_slider (d\<lparr>prev_ctx := c\<rparr>) = current_slider d"
  "current_slider (d\<lparr>new_to_prev_pos := m\<rparr>) = current_slider d"
  "current_slider (d\<lparr>new_to_current_pos := m\<rparr>) = current_slider d"
  "current_slider (d\<lparr>result_trace := t\<rparr>) = current_slider d"
  by (simp_all add: prev_slider_def current_slider_def)

lemma prev_slider_mut_eq:
  "prev_slider_mut m d = (case m (prev_slider d) of (r, s) \<Rightarrow> (r, d\<lparr>prev_ctx := \<lparr>slider = s\<rparr>\<rparr>))"
  by (cases d) (simp add: prev_slider_mut_def comp_defs split: prod.splits)

lemma current_slider_mut_eq:
  "current_slider_mut m d
     = (case m (current_slider d) of (r, s) \<Rightarrow> (r, d\<lparr>current_ctx := \<lparr>slider = s\<rparr>\<rparr>))"
  by (cases d) (simp add: current_slider_mut_def comp_defs split: prod.splits)

lemma next_states_eq:
  assumes "keeper_wf d"
  shows "next_states d
    = (Ok (head (remaining (prev_slider d)), head (remaining (current_slider d))), step_sliders d)"
  using assms
  by (simp add: next_states_def comp_defs prev_slider_mut_eq current_slider_mut_eq keeper_wf_def
      next_state_step step_sliders_def)

lemma step_sliders_simps [simp]:
  "prev_slider (step_sliders d) = step_slider (prev_slider d)"
  "current_slider (step_sliders d) = step_slider (current_slider d)"
  "result_trace (step_sliders d) = result_trace d"
  "new_to_prev_pos (step_sliders d) = new_to_prev_pos d"
  "new_to_current_pos (step_sliders d) = new_to_current_pos d"
  by (simp_all add: step_sliders_def)

lemma step_sliders_wf: "keeper_wf d \<Longrightarrow> keeper_wf (step_sliders d)"
  by (simp add: keeper_wf_def step_slider_wf)

lemma result_trace_next_pos_Ok:
  "length (result_trace d) < u32_bound \<Longrightarrow>
     result_trace_next_pos d = Ok (of_nat (length (result_trace d)))"
  by (simp add: result_trace_next_pos_def)

lemma data_keeper_from_trace_wf:
  "data_keeper_from_trace B p c = Ok d \<Longrightarrow>
     keeper_wf d \<and> remaining (prev_slider d) = p \<and> remaining (current_slider d) = c
     \<and> ts_trace (prev_slider d) = p \<and> ts_trace (current_slider d) = c \<and> result_trace d = []"
  by (auto simp: data_keeper_from_trace_def merge_ctx_from_trace_def slider_new_def
      trace_states_count_def keeper_wf_def prev_slider_def current_slider_def slider_wf_def
      remaining_def window_len_def split: if_splits)

section \<open>A bidirectional map as documented\<close>

definition fun_bimap :: "(trace_pos \<Rightarrow> trace_pos option) bimap_ops" where
  "fun_bimap = \<lparr>bm_default = (\<lambda>_. None),
     bm_insert = (\<lambda>m l r x. if x = l then Some r else if m x = Some r then None else m x),
     bm_get_by_left = (\<lambda>m. m)\<rparr>"

lemma fun_bimap_documented: "bimap_documented fun_bimap"
  by (simp add: bimap_documented_def fun_bimap_def)

section \<open>Properties\<close>

text \<open>
  \<^verbatim>\<open>try_get_generation\<close> on every branch. It reads a generation off a stream call or off the
  first generation of an ap; an ap without generations panics, whatever position an untrusted
  fold lore sends it to.
\<close>

theorem try_get_generation_table:
  assumes "length (ts_trace (slider c)) < u32_bound"
  shows "try_get_generation c p =
    (case trace_get (ts_trace (slider c)) p of
       None \<Rightarrow> Err (NoElementAtPosition p (of_nat (length (ts_trace (slider c)))))
     | Some (Call (Executed (Stream cid g))) \<Rightarrow> Ok g
     | Some (Ap ap) \<Rightarrow> (case res_generations ap of [] \<Rightarrow> Panic | g # _ \<Rightarrow> Ok g)
     | Some state \<Rightarrow> Err (NoStreamState state))"
  using assms
  by (auto simp: try_get_generation_def state_at_position_def slider_trace_len_def index_vec_def
      split: option.splits executed_state.splits call_result.splits value_ref.splits list.splits)

lemma try_get_generation_table_witness:
  "try_get_generation \<lparr>slider = \<lparr>ts_trace = [Ap \<lparr>res_generations = []\<rparr>], ts_position = 0,
      ts_subtrace_len = 1, ts_seen_elements = 0\<rparr>\<rparr> 0 = Panic"
  by (subst try_get_generation_table) (simp_all add: trace_get_def)

end
