(* ===== verification/Merger.thy ===== *)
theory Merger
  imports Data_Keeper
begin

text \<open>
  \<^verbatim>\<open>trace-handler/src/merger\<close>: how the next states of the previous and of the current trace are
  merged when the interpreter meets a call, an ap, a canon or a par (\<^verbatim>\<open>call_merger.rs\<close> and its
  \<^verbatim>\<open>utils.rs\<close>, \<^verbatim>\<open>ap_merger.rs\<close>, \<^verbatim>\<open>canon_merger.rs\<close>, \<^verbatim>\<open>par_merger.rs\<close>, \<^verbatim>\<open>position_mapping.rs\<close>,
  \<^verbatim>\<open>errors.rs\<close>). The fold merger is in the theory \<open>Fold_Lore\<close>.

  The specification of a merge of results is the join of a flat order: a result is either still
  pending or known with a value, and two known values must agree. The locale \<open>flat_merge\<close> states
  that a merge refines this join, and proves once that the outcome of merging several results
  does not depend on their order; calls and canons interpret it.
\<close>

section \<open>Errors\<close>

datatype data_type = DataPrevious | DataCurrent

datatype ap_result_error = InvalidDstGenerations ap_result

datatype call_result_error =
    ValuesNotEqual value_ref value_ref
  | IncompatibleCallResults call_result call_result

datatype canon_result_error = IncompatibleState canon_result canon_result

datatype fold_result_error =
    SubtraceLenOverflow fold_result nat
  | SeveralRecordsWithSamePos fold_result trace_pos
  | FoldIncorrectSubtracesCount nat

datatype merge_error =
    IncompatibleExecutedStates executed_state executed_state
  | DifferentExecutedStateExpected executed_state data_type string
  | KeeperError keeper_error
  | IncorrectApResult ap_result_error
  | IncorrectCallResult call_result_error
  | IncorrectCanonResult canon_result_error
  | IncorrectFoldResult fold_result_error

fun incompatible_states ::
    "executed_state option \<Rightarrow> executed_state option \<Rightarrow> string \<Rightarrow> ('a, merge_error) result" where
  "incompatible_states (Some prev_state) (Some current_state) expected =
     Err (IncompatibleExecutedStates prev_state current_state)"
| "incompatible_states None (Some current_state) expected =
     Err (DifferentExecutedStateExpected current_state DataCurrent expected)"
| "incompatible_states (Some prev_state) None expected =
     Err (DifferentExecutedStateExpected prev_state DataPrevious expected)"
| "incompatible_states None None expected = Panic"

definition not_equal_values :: "value_ref \<Rightarrow> value_ref \<Rightarrow> merge_error" where
  "not_equal_values prev_value current_value =
     IncorrectCallResult (ValuesNotEqual prev_value current_value)"

definition incompatible_calls :: "call_result \<Rightarrow> call_result \<Rightarrow> merge_error" where
  "incompatible_calls prev_call current_call =
     IncorrectCallResult (IncompatibleCallResults prev_call current_call)"

definition incompatible_state :: "canon_result \<Rightarrow> canon_result \<Rightarrow> canon_result_error" where
  "incompatible_state prev_canon current_canon = IncompatibleState prev_canon current_canon"

section \<open>Position mapping\<close>

datatype preparation_scheme = Previous | Current | Both

datatype value_source = PreviousData | CurrentData

datatype merge_ctx_type = CtxCurrent | CtxPrevious

fun value_source_from :: "preparation_scheme \<Rightarrow> value_source" where
  "value_source_from Previous = PreviousData"
| "value_source_from Both = PreviousData"
| "value_source_from Current = CurrentData"

definition prepare_positions_mapping ::
    "'bm bimap_ops \<Rightarrow> preparation_scheme \<Rightarrow> ('bm data_keeper, unit, 'e) comp" where
  "prepare_positions_mapping B scheme =
     and_then (gets id) (\<lambda>data_keeper.
     and_then (lift (result_trace_next_pos data_keeper)) (\<lambda>new_pos.
     case scheme of
       Previous \<Rightarrow>
         and_then (lift (u32_sub (ts_position (prev_slider data_keeper)) 1)) (\<lambda>prev_pos.
         modify (\<lambda>d. d\<lparr>new_to_prev_pos := bm_insert B (new_to_prev_pos d) new_pos prev_pos\<rparr>))
     | Current \<Rightarrow>
         and_then (lift (u32_sub (ts_position (current_slider data_keeper)) 1)) (\<lambda>current_pos.
         modify (\<lambda>d. d\<lparr>new_to_current_pos := bm_insert B (new_to_current_pos d) new_pos current_pos\<rparr>))
     | Both \<Rightarrow>
         and_then (lift (u32_sub (ts_position (prev_slider data_keeper)) 1)) (\<lambda>prev_pos.
         and_then (lift (u32_sub (ts_position (current_slider data_keeper)) 1)) (\<lambda>current_pos.
         and_then (modify (\<lambda>d. d\<lparr>new_to_prev_pos := bm_insert B (new_to_prev_pos d) new_pos prev_pos\<rparr>)) (\<lambda>_.
         modify (\<lambda>d. d\<lparr>new_to_current_pos := bm_insert B (new_to_current_pos d) new_pos current_pos\<rparr>))))))"

section \<open>Call\<close>

record met_call_result =
  mcr_result :: call_result
  mcr_trace_pos :: trace_pos
  mcr_source :: value_source

datatype merger_call_result = CallNotMet | CallMet met_call_result

definition are_scalars_equal :: "value_ref \<Rightarrow> value_ref \<Rightarrow> (unit, merge_error) result" where
  "are_scalars_equal prev_value current_value =
     (if prev_value = current_value then Ok () else Err (not_equal_values prev_value current_value))"

definition are_streams_equal ::
    "cid \<Rightarrow> cid \<Rightarrow> value_ref \<Rightarrow> value_ref \<Rightarrow> (unit, merge_error) result" where
  "are_streams_equal prev_result_value current_result_value prev_value current_value =
     (if prev_result_value = current_result_value then Ok ()
      else Err (not_equal_values prev_value current_value))"

definition check_equal :: "call_result \<Rightarrow> call_result \<Rightarrow> (unit, merge_error) result" where
  "check_equal prev_call current_call =
     (if prev_call \<noteq> current_call then Err (incompatible_calls prev_call current_call) else Ok ())"

definition merge_executed :: "value_ref \<Rightarrow> value_ref \<Rightarrow> (call_result, merge_error) result" where
  "merge_executed prev_value current_value =
     (case (prev_value, current_value) of
        (Scalar _, Scalar _) \<Rightarrow>
          res_then (are_scalars_equal prev_value current_value) (\<lambda>_. Ok (Executed prev_value))
      | (Stream pr _, Stream cr _) \<Rightarrow>
          res_then (are_streams_equal pr cr prev_value current_value) (\<lambda>_. Ok (Executed prev_value))
      | (Unused _, Unused _) \<Rightarrow>
          res_then (are_scalars_equal prev_value current_value) (\<lambda>_. Ok (Executed prev_value))
      | _ \<Rightarrow> Err (not_equal_values prev_value current_value))"

definition merge_call_results ::
    "call_result \<Rightarrow> call_result \<Rightarrow> (call_result \<times> preparation_scheme, merge_error) result" where
  "merge_call_results prev current =
     (case (prev, current) of
        (Failed _, Failed _) \<Rightarrow> res_then (check_equal prev current) (\<lambda>_. Ok (prev, Previous))
      | (RequestSentBy _, Failed _) \<Rightarrow> Ok (current, Current)
      | (Failed _, RequestSentBy _) \<Rightarrow> Ok (prev, Previous)
      | (RequestSentBy _, RequestSentBy _) \<Rightarrow> Ok (prev, Previous)
      | (RequestSentBy _, Executed _) \<Rightarrow> Ok (current, Current)
      | (Executed _, RequestSentBy _) \<Rightarrow> Ok (prev, Previous)
      | (Executed prev_value, Executed current_value) \<Rightarrow>
          res_then (merge_executed prev_value current_value) (\<lambda>merged. Ok (merged, Both))
      | (prev_call, current_call) \<Rightarrow> Err (incompatible_calls prev_call current_call))"

definition prepare_call_result ::
    "'bm bimap_ops \<Rightarrow> call_result \<Rightarrow> preparation_scheme
       \<Rightarrow> ('bm data_keeper, merger_call_result, 'e) comp" where
  "prepare_call_result B call_result scheme =
     and_then (gets id) (\<lambda>data_keeper.
     and_then (lift (result_trace_next_pos data_keeper)) (\<lambda>trace_pos.
     and_then (prepare_positions_mapping B scheme) (\<lambda>_.
     ret (CallMet \<lparr>mcr_result = call_result, mcr_trace_pos = trace_pos,
                   mcr_source = value_source_from scheme\<rparr>))))"

definition try_merge_next_state_as_call ::
    "'bm bimap_ops \<Rightarrow> ('bm data_keeper, merger_call_result, merge_error) comp" where
  "try_merge_next_state_as_call B =
     and_then next_states (\<lambda>states. case states of
        (Some (Call prev_call), Some (Call current_call)) \<Rightarrow>
          and_then (lift (merge_call_results prev_call current_call)) (\<lambda>(merged_call, scheme).
          prepare_call_result B merged_call scheme)
      | (None, Some (Call current_call)) \<Rightarrow> prepare_call_result B current_call Current
      | (Some (Call prev_call), None) \<Rightarrow> prepare_call_result B prev_call Previous
      | (None, None) \<Rightarrow> ret CallNotMet
      | (prev_state, current_state) \<Rightarrow> lift (incompatible_states prev_state current_state ''call''))"

section \<open>Ap\<close>

record met_ap_result =
  mar_generation :: generation_idx
  mar_value_source :: value_source

datatype merger_ap_result = ApNotMet | ApMet met_ap_result

definition to_maybe_generation :: "ap_result \<Rightarrow> (generation_idx, merge_error) result" where
  "to_maybe_generation ap =
     (if length (res_generations ap) = 1 then index_vec (res_generations ap) 0
      else Err (IncorrectApResult (InvalidDstGenerations ap)))"

definition prepare_merge_result ::
    "'bm bimap_ops \<Rightarrow> ap_result \<Rightarrow> preparation_scheme
       \<Rightarrow> ('bm data_keeper, merger_ap_result, merge_error) comp" where
  "prepare_merge_result B ap scheme =
     and_then (prepare_positions_mapping B scheme) (\<lambda>_.
     and_then (lift (to_maybe_generation ap)) (\<lambda>generation.
     ret (ApMet \<lparr>mar_generation = generation, mar_value_source = value_source_from scheme\<rparr>)))"

definition try_merge_next_state_as_ap ::
    "'bm bimap_ops \<Rightarrow> ('bm data_keeper, merger_ap_result, merge_error) comp" where
  "try_merge_next_state_as_ap B =
     and_then next_states (\<lambda>states. case states of
        (Some (Ap prev_ap), Some (Ap _)) \<Rightarrow> prepare_merge_result B prev_ap Both
      | (Some (Ap prev_ap), None) \<Rightarrow> prepare_merge_result B prev_ap Previous
      | (None, Some (Ap current_ap)) \<Rightarrow> prepare_merge_result B current_ap Current
      | (None, None) \<Rightarrow> ret ApNotMet
      | (prev_state, current_state) \<Rightarrow> lift (incompatible_states prev_state current_state ''ap''))"

section \<open>Canon\<close>

datatype merger_canon_result = CanonEmpty | CanonResult canon_result

definition merge_canon_results ::
    "canon_result \<Rightarrow> canon_result \<Rightarrow> (canon_result, canon_result_error) result" where
  "merge_canon_results prev_canon current_canon =
     (case (prev_canon, current_canon) of
        (CanonExecuted prev, CanonExecuted cur) \<Rightarrow>
          if prev \<noteq> cur then Err (incompatible_state prev_canon current_canon) else Ok prev_canon
      | (CanonRequestSentBy _, CanonExecuted _) \<Rightarrow> Ok current_canon
      | (CanonRequestSentBy _, CanonRequestSentBy _) \<Rightarrow> Ok prev_canon
      | (CanonExecuted _, CanonRequestSentBy _) \<Rightarrow> Ok prev_canon)"

definition prepare_single_canon_result :: "canon_result \<Rightarrow> (merger_canon_result, merge_error) result" where
  "prepare_single_canon_result canon = Ok (CanonResult canon)"

definition prepare_both_canon_result ::
    "canon_result \<Rightarrow> canon_result \<Rightarrow> (merger_canon_result, merge_error) result" where
  "prepare_both_canon_result prev_canon current_canon =
     res_then (res_map_err IncorrectCanonResult (merge_canon_results prev_canon current_canon))
       prepare_single_canon_result"

definition try_merge_next_state_as_canon :: "('bm data_keeper, merger_canon_result, merge_error) comp" where
  "try_merge_next_state_as_canon =
     and_then next_states (\<lambda>states. case states of
        (Some (Canon prev_canon), Some (Canon current_canon)) \<Rightarrow>
          lift (prepare_both_canon_result prev_canon current_canon)
      | (Some (Canon prev_canon), None) \<Rightarrow> lift (prepare_single_canon_result prev_canon)
      | (None, Some (Canon current_canon)) \<Rightarrow> lift (prepare_single_canon_result current_canon)
      | (None, None) \<Rightarrow> ret CanonEmpty
      | (prev_state, current_state) \<Rightarrow> lift (incompatible_states prev_state current_state ''canon''))"

section \<open>Par\<close>

record merger_par_result =
  prev_par :: "par_result option"
  current_par :: "par_result option"

definition from_pars :: "par_result \<Rightarrow> par_result \<Rightarrow> merger_par_result" where
  "from_pars p c = \<lparr>prev_par = Some p, current_par = Some c\<rparr>"

definition from_prev_par :: "par_result \<Rightarrow> merger_par_result" where
  "from_prev_par p = \<lparr>prev_par = Some p, current_par = None\<rparr>"

definition from_current_par :: "par_result \<Rightarrow> merger_par_result" where
  "from_current_par c = \<lparr>prev_par = None, current_par = Some c\<rparr>"

definition merger_par_result_default :: merger_par_result where
  "merger_par_result_default = \<lparr>prev_par = None, current_par = None\<rparr>"

definition try_merge_next_state_as_par :: "('bm data_keeper, merger_par_result, merge_error) comp" where
  "try_merge_next_state_as_par =
     and_then next_states (\<lambda>states. case states of
        (Some (Par p), Some (Par c)) \<Rightarrow> ret (from_pars p c)
      | (None, Some (Par c)) \<Rightarrow> ret (from_current_par c)
      | (Some (Par p), None) \<Rightarrow> ret (from_prev_par p)
      | (None, None) \<Rightarrow> ret merger_par_result_default
      | (prev_state, current_state) \<Rightarrow> lift (incompatible_states prev_state current_state ''par''))"

section \<open>The specification of a merge\<close>

datatype 'v info = Pending | Known 'v

fun join :: "'v info \<Rightarrow> 'v info \<Rightarrow> 'v info option" where
  "join Pending y = Some y"
| "join (Known v) Pending = Some (Known v)"
| "join (Known v) (Known w) = (if v = w then Some (Known v) else None)"

fun joins :: "'v info \<Rightarrow> 'v info list \<Rightarrow> 'v info option" where
  "joins x [] = Some x"
| "joins x (y # ys) = (case join x y of None \<Rightarrow> None | Some z \<Rightarrow> joins z ys)"

text \<open>Results that arrive one after another, each merged into what is known so far.\<close>

fun merge_all :: "('a \<Rightarrow> 'a \<Rightarrow> 'a option) \<Rightarrow> 'a \<Rightarrow> 'a list \<Rightarrow> 'a option" where
  "merge_all m a [] = Some a"
| "merge_all m a (b # bs) = (case m a b of None \<Rightarrow> None | Some c \<Rightarrow> merge_all m c bs)"

definition agree :: "'v info set \<Rightarrow> bool" where
  "agree S \<longleftrightarrow> (\<forall>v w. Known v \<in> S \<longrightarrow> Known w \<in> S \<longrightarrow> v = w)"

lemma join_cases:
  "join x y = (if agree {x, y} then Some (if x = Pending then y else x) else None)"
  by (cases x; cases y) (auto simp: agree_def)

lemma joins_Known:
  "joins x ys = Some (Known v) \<longleftrightarrow> agree (insert x (set ys)) \<and> Known v \<in> insert x (set ys)"
proof (induction ys arbitrary: x)
  case Nil
  then show ?case by (cases x) (auto simp: agree_def)
next
  case (Cons y ys)
  show ?case by (cases x; cases y) (auto simp: Cons.IH agree_def)
qed

lemma joins_Pending: "joins x ys = Some Pending \<longleftrightarrow> insert x (set ys) \<subseteq> {Pending}"
proof (induction ys arbitrary: x)
  case (Cons y ys)
  show ?case by (cases x; cases y) (auto simp: Cons.IH)
qed simp

lemma joins_defined: "joins x ys \<noteq> None \<longleftrightarrow> agree (insert x (set ys))"
proof
  assume "joins x ys \<noteq> None"
  then obtain z where "joins x ys = Some z" by blast
  then show "agree (insert x (set ys))"
    by (cases z) (auto simp: joins_Known joins_Pending agree_def)
next
  assume "agree (insert x (set ys))"
  moreover have "insert x (set ys) \<subseteq> {Pending} \<or> (\<exists>v. Known v \<in> insert x (set ys))"
    by (metis info.exhaust insertI1 subsetI)
  ultimately have "joins x ys = Some Pending \<or> (\<exists>v. joins x ys = Some (Known v))"
    unfolding joins_Known joins_Pending by blast
  then show "joins x ys \<noteq> None" by auto
qed

lemma joins_set_eq:
  assumes "insert x (set xs) = insert y (set ys)"
  shows "joins x xs = joins y ys"
proof (cases "joins x xs")
  case None
  with assms joins_defined [of x xs] joins_defined [of y ys] show ?thesis by simp
next
  case (Some z)
  then have "joins y ys = Some z"
    by (cases z) (simp_all only: joins_Known joins_Pending assms)
  with Some show ?thesis by simp
qed

locale flat_merge =
  fixes merge :: "'a \<Rightarrow> 'a \<Rightarrow> 'a option"
    and obs :: "'a \<Rightarrow> 'v info"
  assumes refines: "map_option obs (merge a b) = join (obs a) (obs b)"
    and left_biased: "merge a b = Some c \<Longrightarrow> c = (if obs a = Pending \<and> obs b \<noteq> Pending then b else a)"
begin

lemma merge_eq:
  "merge a b = (if agree {obs a, obs b}
     then Some (if obs a = Pending \<and> obs b \<noteq> Pending then b else a) else None)"
  using refines [of a b] left_biased [of a b]
  by (cases "merge a b") (auto simp: join_cases split: if_splits)

lemma merge_idem: "merge a a = Some a"
  by (auto simp: merge_eq agree_def) (metis info.inject)

lemma merge_assoc:
  "Option.bind (merge a b) (\<lambda>x. merge x c) = Option.bind (merge b c) (\<lambda>y. merge a y)"
  by (cases "obs a"; cases "obs b"; cases "obs c") (auto simp: merge_eq agree_def)

lemma merge_absorb:
  "merge a b = Some c \<Longrightarrow> merge c b = Some c \<and> merge c a = Some c"
  by (cases "obs a"; cases "obs b") (auto simp: merge_eq agree_def split: if_splits)

lemma merge_comm: "merge a b = Some c \<Longrightarrow> \<exists>c'. merge b a = Some c' \<and> obs c' = obs c"
  by (cases "obs a"; cases "obs b") (auto simp: merge_eq agree_def split: if_splits)

lemma merge_all_refines: "map_option obs (merge_all merge a bs) = joins (obs a) (map obs bs)"
proof (induction bs arbitrary: a)
  case (Cons b bs)
  show ?case
    using refines [of a b] Cons.IH by (cases "merge a b") (auto split: option.splits)
qed simp

lemma merge_all_set_eq:
  assumes "set (a # as) = set (b # bs)"
  shows "map_option obs (merge_all merge a as) = map_option obs (merge_all merge b bs)"
proof -
  have "obs ` set (a # as) = obs ` set (b # bs)" using assms by (rule arg_cong)
  then show ?thesis unfolding merge_all_refines by (intro joins_set_eq) simp
qed

lemma merge_all_defined: "merge_all merge a bs \<noteq> None \<longleftrightarrow> agree (obs ` set (a # bs))"
  using merge_all_refines [of a bs] joins_defined [of "obs a" "map obs bs"]
  by (cases "merge_all merge a bs") auto

end

section \<open>Calls and canons meet the specification\<close>

datatype call_value = ScalarValue cid | StreamValue cid | UnusedValue cid | FailedValue cid

fun call_info :: "call_result \<Rightarrow> call_value info" where
  "call_info (RequestSentBy _) = Pending"
| "call_info (Executed (Scalar c)) = Known (ScalarValue c)"
| "call_info (Executed (Stream c _)) = Known (StreamValue c)"
| "call_info (Executed (Unused c)) = Known (UnusedValue c)"
| "call_info (Failed c) = Known (FailedValue c)"

fun canon_info :: "canon_result \<Rightarrow> cid info" where
  "canon_info (CanonRequestSentBy _) = Pending"
| "canon_info (CanonExecuted c) = Known c"

definition merged_call :: "call_result \<Rightarrow> call_result \<Rightarrow> call_result option" where
  "merged_call a b = (case merge_call_results a b of Ok (c, _) \<Rightarrow> Some c | _ \<Rightarrow> None)"

definition merged_canon :: "canon_result \<Rightarrow> canon_result \<Rightarrow> canon_result option" where
  "merged_canon a b = (case merge_canon_results a b of Ok c \<Rightarrow> Some c | _ \<Rightarrow> None)"

lemmas merge_call_defs =
  merge_call_results_def merge_executed_def are_scalars_equal_def are_streams_equal_def check_equal_def

lemma call_info_cases [case_names pending scalar stream unused failed]:
  obtains s where "c = RequestSentBy s" | v where "c = Executed (Scalar v)"
  | v g where "c = Executed (Stream v g)" | v where "c = Executed (Unused v)" | v where "c = Failed v"
  by (cases c rule: call_info.cases) auto

lemma merge_call_results_no_panic: "merge_call_results a b \<noteq> Panic"
  by (cases a rule: call_info_cases; cases b rule: call_info_cases) (auto simp: merge_call_defs)

interpretation call_merge: flat_merge merged_call call_info
proof unfold_locales
  fix a b
  show "map_option call_info (merged_call a b) = join (call_info a) (call_info b)"
    by (cases a rule: call_info_cases; cases b rule: call_info_cases)
      (auto simp: merged_call_def merge_call_defs)
next
  fix a b c
  assume "merged_call a b = Some c"
  then show "c = (if call_info a = Pending \<and> call_info b \<noteq> Pending then b else a)"
    by (cases a rule: call_info_cases; cases b rule: call_info_cases)
      (auto simp: merged_call_def merge_call_defs split: if_splits)
qed

interpretation canon_merge: flat_merge merged_canon canon_info
proof unfold_locales
  fix a b
  show "map_option canon_info (merged_canon a b) = join (canon_info a) (canon_info b)"
    by (cases a; cases b) (auto simp: merged_canon_def merge_canon_results_def)
next
  fix a b c
  assume "merged_canon a b = Some c"
  then show "c = (if canon_info a = Pending \<and> canon_info b \<noteq> Pending then b else a)"
    by (cases a; cases b)
      (auto simp: merged_canon_def merge_canon_results_def split: if_splits)
qed

section \<open>What every merger does to the keeper\<close>

definition record_positions ::
    "'bm bimap_ops \<Rightarrow> preparation_scheme \<Rightarrow> 'bm data_keeper \<Rightarrow> 'bm data_keeper" where
  "record_positions B scheme d =
     (let n = of_nat (length (result_trace d));
          prev = (\<lambda>d. d\<lparr>new_to_prev_pos := bm_insert B (new_to_prev_pos d) n (ts_position (prev_slider d) - 1)\<rparr>);
          cur = (\<lambda>d. d\<lparr>new_to_current_pos := bm_insert B (new_to_current_pos d) n (ts_position (current_slider d) - 1)\<rparr>)
      in case scheme of Previous \<Rightarrow> prev d | Current \<Rightarrow> cur d | Both \<Rightarrow> cur (prev d))"

text \<open>The scheme a merger may use for given next states: never one that reads a missing state.\<close>

definition scheme_ok :: "preparation_scheme \<Rightarrow> 'bm data_keeper \<Rightarrow> bool" where
  "scheme_ok scheme d \<longleftrightarrow>
     (scheme \<noteq> Current \<longrightarrow> remaining (prev_slider d) \<noteq> []) \<and>
     (scheme \<noteq> Previous \<longrightarrow> remaining (current_slider d) \<noteq> [])"

lemma step_slider_position_ge:
  assumes "slider_wf s" "remaining s \<noteq> []"
  shows "1 \<le> ts_position (step_slider s)"
  using assms step_slider_position(1) [of s "hd (remaining s)"] by (cases "remaining s") auto

lemma prepare_positions_mapping_eq:
  assumes "keeper_wf d" "length (result_trace d) < u32_bound" "scheme_ok scheme d"
  shows "prepare_positions_mapping B scheme (step_sliders d)
    = (Ok (), record_positions B scheme (step_sliders d))"
proof -
  have "scheme \<noteq> Current \<Longrightarrow> 1 \<le> ts_position (step_slider (prev_slider d))"
    "scheme \<noteq> Previous \<Longrightarrow> 1 \<le> ts_position (step_slider (current_slider d))"
    using assms by (auto simp: scheme_ok_def keeper_wf_def intro: step_slider_position_ge)
  with assms(2) show ?thesis
    by (cases scheme)
      (simp_all add: prepare_positions_mapping_def comp_defs result_trace_next_pos_Ok u32_sub_cases
        record_positions_def Let_def)
qed

lemma record_positions_simps [simp]:
  "prev_slider (record_positions B scheme d) = prev_slider d"
  "current_slider (record_positions B scheme d) = current_slider d"
  "result_trace (record_positions B scheme d) = result_trace d"
  by (cases scheme; simp add: record_positions_def Let_def)+

lemma record_positions_get:
  assumes "bimap_documented B"
  shows "scheme \<noteq> Current \<Longrightarrow>
      bm_get_by_left B (new_to_prev_pos (record_positions B scheme d)) (of_nat (length (result_trace d)))
        = Some (ts_position (prev_slider d) - 1)"
    "scheme \<noteq> Previous \<Longrightarrow>
      bm_get_by_left B (new_to_current_pos (record_positions B scheme d)) (of_nat (length (result_trace d)))
        = Some (ts_position (current_slider d) - 1)"
  using assms by (cases scheme; simp add: record_positions_def bimap_documented_def Let_def)+

lemma prepare_call_result_eq:
  assumes "keeper_wf d" "length (result_trace d) < u32_bound" "scheme_ok scheme d"
  shows "prepare_call_result B c scheme (step_sliders d)
    = (Ok (CallMet \<lparr>mcr_result = c, mcr_trace_pos = of_nat (length (result_trace d)),
         mcr_source = value_source_from scheme\<rparr>), record_positions B scheme (step_sliders d))"
  using assms
  by (simp add: prepare_call_result_def comp_defs prepare_positions_mapping_eq result_trace_next_pos_Ok)

lemma prepare_merge_result_eq:
  assumes "keeper_wf d" "length (result_trace d) < u32_bound" "scheme_ok scheme d"
  shows "prepare_merge_result B ap scheme (step_sliders d) =
    ((case res_generations ap of
        [g] \<Rightarrow> Ok (ApMet \<lparr>mar_generation = g, mar_value_source = value_source_from scheme\<rparr>)
      | _ \<Rightarrow> Err (IncorrectApResult (InvalidDstGenerations ap))),
     record_positions B scheme (step_sliders d))"
  using assms
  by (simp add: prepare_merge_result_def comp_defs prepare_positions_mapping_eq to_maybe_generation_def
      index_vec_def split: list.splits)

text \<open>The states of the keeper a merger may leave behind: both sliders took one step.\<close>

definition stepped :: "'bm data_keeper \<Rightarrow> 'bm data_keeper \<Rightarrow> bool" where
  "stepped d d' \<longleftrightarrow>
     prev_slider d' = step_slider (prev_slider d) \<and>
     current_slider d' = step_slider (current_slider d) \<and>
     result_trace d' = result_trace d"

lemma stepped_simps [simp]:
  "stepped d (step_sliders d)" "stepped d (record_positions B scheme (step_sliders d))"
  by (simp_all add: stepped_def)

locale state_merger =
  fixes merge_op :: "('bm data_keeper, 'r, merge_error) comp"
    and accepts :: "executed_state \<Rightarrow> bool"
    and expected :: string
  assumes frame: "keeper_wf d \<Longrightarrow> length (result_trace d) < u32_bound \<Longrightarrow> stepped d (snd (merge_op d))"
    and rejects: "keeper_wf d \<Longrightarrow> length (result_trace d) < u32_bound \<Longrightarrow>
      head (remaining (prev_slider d)) = p \<Longrightarrow> head (remaining (current_slider d)) = c \<Longrightarrow>
      \<not> (\<forall>x. p = Some x \<or> c = Some x \<longrightarrow> accepts x) \<Longrightarrow>
      fst (merge_op d) = incompatible_states p c expected"
begin

lemma merge_op_frame:
  assumes "keeper_wf d" "length (result_trace d) < u32_bound" "merge_op d = (r, d')"
  shows "keeper_wf d'" "result_trace d' = result_trace d"
    "ts_trace (prev_slider d') = ts_trace (prev_slider d)"
    "ts_trace (current_slider d') = ts_trace (current_slider d)"
    "remaining (prev_slider d') = tl (remaining (prev_slider d))"
    "remaining (current_slider d') = tl (remaining (current_slider d))"
  using assms frame [OF assms(1,2)]
  by (auto simp: stepped_def keeper_wf_def step_slider_wf)

lemma merge_op_rejects:
  assumes "keeper_wf d" "length (result_trace d) < u32_bound" "merge_op d = (r, d')"
    and "x = hd (remaining (prev_slider d)) \<and> remaining (prev_slider d) \<noteq> []
       \<or> x = hd (remaining (current_slider d)) \<and> remaining (current_slider d) \<noteq> []"
    and "\<not> accepts x"
  shows "\<exists>e. r = Err e"
proof -
  let ?p = "head (remaining (prev_slider d))" and ?c = "head (remaining (current_slider d))"
  have x: "?p = Some x \<or> ?c = Some x"
    using assms(4) by (cases "remaining (prev_slider d)"; cases "remaining (current_slider d)") auto
  then have "fst (merge_op d) = incompatible_states ?p ?c expected"
    using assms(5) by (intro rejects [OF assms(1,2)]) auto
  with x assms(3) show ?thesis
    by (cases ?p; cases ?c) auto
qed

end

text \<open>The five kinds of states, and the shape every merger has after the two \<^verbatim>\<open>next_state\<close> calls.\<close>

abbreviation is_call :: "executed_state \<Rightarrow> bool" where
  "is_call s \<equiv> (case s of Call _ \<Rightarrow> True | _ \<Rightarrow> False)"

abbreviation is_ap :: "executed_state \<Rightarrow> bool" where
  "is_ap s \<equiv> (case s of Ap _ \<Rightarrow> True | _ \<Rightarrow> False)"

abbreviation is_canon :: "executed_state \<Rightarrow> bool" where
  "is_canon s \<equiv> (case s of Canon _ \<Rightarrow> True | _ \<Rightarrow> False)"

abbreviation is_par :: "executed_state \<Rightarrow> bool" where
  "is_par s \<equiv> (case s of Par _ \<Rightarrow> True | _ \<Rightarrow> False)"

abbreviation is_fold :: "executed_state \<Rightarrow> bool" where
  "is_fold s \<equiv> (case s of Fold _ \<Rightarrow> True | _ \<Rightarrow> False)"

lemma and_then_next_states:
  "keeper_wf d \<Longrightarrow> and_then next_states k d
     = k (head (remaining (prev_slider d)), head (remaining (current_slider d))) (step_sliders d)"
  by (simp add: and_then_def next_states_eq)

lemma merge_call_results_scheme:
  "merge_call_results a b = Ok (c, scheme) \<Longrightarrow>
     c = (if scheme = Current then b else a) \<and>
     (scheme = Current \<longleftrightarrow> call_info a = Pending \<and> call_info b \<noteq> Pending)"
  by (cases a rule: call_info_cases; cases b rule: call_info_cases)
    (auto simp: merge_call_defs split: if_splits)

lemma merge_call_results_cases:
  obtains (merged) m scheme where "merge_call_results a b = Ok (m, scheme)" "merged_call a b = Some m"
      "value_source_from scheme =
         (if call_info a = Pending \<and> call_info b \<noteq> Pending then CurrentData else PreviousData)"
  | (conflict) e where "merge_call_results a b = Err (IncorrectCallResult e)" "merged_call a b = None"
proof -
  have "(\<exists>m scheme. merge_call_results a b = Ok (m, scheme) \<and> merged_call a b = Some m
      \<and> value_source_from scheme =
         (if call_info a = Pending \<and> call_info b \<noteq> Pending then CurrentData else PreviousData))
    \<or> (\<exists>e. merge_call_results a b = Err (IncorrectCallResult e) \<and> merged_call a b = None)"
    by (cases a rule: call_info_cases; cases b rule: call_info_cases)
      (auto simp: merged_call_def merge_call_defs not_equal_values_def incompatible_calls_def)
  then show thesis using that by blast
qed

lemma try_merge_call_eq:
  assumes "keeper_wf d" "length (result_trace d) < u32_bound"
  shows "try_merge_next_state_as_call B d =
   (case (head (remaining (prev_slider d)), head (remaining (current_slider d))) of
      (Some (Call a), Some (Call b)) \<Rightarrow>
        (case merge_call_results a b of
           Ok (m, scheme) \<Rightarrow> prepare_call_result B m scheme (step_sliders d)
         | Err e \<Rightarrow> (Err e, step_sliders d)
         | Panic \<Rightarrow> (Panic, step_sliders d))
    | (None, Some (Call b)) \<Rightarrow> prepare_call_result B b Current (step_sliders d)
    | (Some (Call a), None) \<Rightarrow> prepare_call_result B a Previous (step_sliders d)
    | (None, None) \<Rightarrow> (Ok CallNotMet, step_sliders d)
    | (x, y) \<Rightarrow> (incompatible_states x y ''call'', step_sliders d))"
  using assms
  by (cases "head (remaining (prev_slider d))"; cases "head (remaining (current_slider d))")
    (auto simp: try_merge_next_state_as_call_def and_then_next_states and_then_lift
      split: executed_state.splits result.splits)

lemma scheme_ok_heads:
  "head (remaining (prev_slider d)) = Some a \<Longrightarrow> scheme_ok Previous d"
  "head (remaining (current_slider d)) = Some b \<Longrightarrow> scheme_ok Current d"
  "head (remaining (prev_slider d)) = Some a \<Longrightarrow> head (remaining (current_slider d)) = Some b \<Longrightarrow>
     scheme_ok scheme d"
  by (auto simp: scheme_ok_def head_Some)

interpretation call_merger: state_merger "try_merge_next_state_as_call B" is_call "''call''" for B
proof unfold_locales
  fix d :: "'a data_keeper"
  assume d: "keeper_wf d" "length (result_trace d) < u32_bound"
  show "stepped d (snd (try_merge_next_state_as_call B d))"
    using d merge_call_results_no_panic
    by (auto simp: try_merge_call_eq prepare_call_result_eq scheme_ok_heads
        split: option.split executed_state.split result.split)
  fix p c
  assume "head (remaining (prev_slider d)) = p" "head (remaining (current_slider d)) = c"
    "\<not> (\<forall>x. p = Some x \<or> c = Some x \<longrightarrow> is_call x)"
  then show "fst (try_merge_next_state_as_call B d) = incompatible_states p c ''call''"
    using d by (auto simp: try_merge_call_eq split: option.split executed_state.split)
qed

lemma try_merge_ap_eq:
  assumes "keeper_wf d"
  shows "try_merge_next_state_as_ap B d =
   (case (head (remaining (prev_slider d)), head (remaining (current_slider d))) of
      (Some (Ap a), Some (Ap b)) \<Rightarrow> prepare_merge_result B a Both (step_sliders d)
    | (Some (Ap a), None) \<Rightarrow> prepare_merge_result B a Previous (step_sliders d)
    | (None, Some (Ap b)) \<Rightarrow> prepare_merge_result B b Current (step_sliders d)
    | (None, None) \<Rightarrow> (Ok ApNotMet, step_sliders d)
    | (x, y) \<Rightarrow> (incompatible_states x y ''ap'', step_sliders d))"
  using assms
  by (cases "head (remaining (prev_slider d))"; cases "head (remaining (current_slider d))")
    (auto simp: try_merge_next_state_as_ap_def and_then_next_states
      split: executed_state.splits)

interpretation ap_merger: state_merger "try_merge_next_state_as_ap B" is_ap "''ap''" for B
proof unfold_locales
  fix d :: "'a data_keeper"
  assume d: "keeper_wf d" "length (result_trace d) < u32_bound"
  show "stepped d (snd (try_merge_next_state_as_ap B d))"
    using d by (auto simp: try_merge_ap_eq prepare_merge_result_eq scheme_ok_heads
        split: option.split executed_state.split)
  fix p c
  assume "head (remaining (prev_slider d)) = p" "head (remaining (current_slider d)) = c"
    "\<not> (\<forall>x. p = Some x \<or> c = Some x \<longrightarrow> is_ap x)"
  then show "fst (try_merge_next_state_as_ap B d) = incompatible_states p c ''ap''"
    using d by (auto simp: try_merge_ap_eq split: option.split executed_state.split)
qed

lemma try_merge_canon_eq:
  assumes "keeper_wf d"
  shows "try_merge_next_state_as_canon d =
   ((case (head (remaining (prev_slider d)), head (remaining (current_slider d))) of
      (Some (Canon a), Some (Canon b)) \<Rightarrow> prepare_both_canon_result a b
    | (Some (Canon a), None) \<Rightarrow> Ok (CanonResult a)
    | (None, Some (Canon b)) \<Rightarrow> Ok (CanonResult b)
    | (None, None) \<Rightarrow> Ok CanonEmpty
    | (x, y) \<Rightarrow> incompatible_states x y ''canon''), step_sliders d)"
  using assms
  by (cases "head (remaining (prev_slider d))"; cases "head (remaining (current_slider d))")
    (auto simp: try_merge_next_state_as_canon_def and_then_next_states
      prepare_single_canon_result_def split: executed_state.splits)

interpretation canon_merger: state_merger try_merge_next_state_as_canon is_canon "''canon''"
proof unfold_locales
  fix d :: "'a data_keeper"
  assume d: "keeper_wf d" "length (result_trace d) < u32_bound"
  show "stepped d (snd (try_merge_next_state_as_canon d))"
    using d by (simp add: try_merge_canon_eq)
  fix p c
  assume "head (remaining (prev_slider d)) = p" "head (remaining (current_slider d)) = c"
    "\<not> (\<forall>x. p = Some x \<or> c = Some x \<longrightarrow> is_canon x)"
  then show "fst (try_merge_next_state_as_canon d) = incompatible_states p c ''canon''"
    using d by (auto simp: try_merge_canon_eq split: option.split executed_state.split)
qed

lemma try_merge_par_eq:
  assumes "keeper_wf d"
  shows "try_merge_next_state_as_par d =
   ((case (head (remaining (prev_slider d)), head (remaining (current_slider d))) of
      (Some (Par a), Some (Par b)) \<Rightarrow> Ok \<lparr>prev_par = Some a, current_par = Some b\<rparr>
    | (None, Some (Par b)) \<Rightarrow> Ok \<lparr>prev_par = None, current_par = Some b\<rparr>
    | (Some (Par a), None) \<Rightarrow> Ok \<lparr>prev_par = Some a, current_par = None\<rparr>
    | (None, None) \<Rightarrow> Ok \<lparr>prev_par = None, current_par = None\<rparr>
    | (x, y) \<Rightarrow> incompatible_states x y ''par''), step_sliders d)"
  using assms
  by (cases "head (remaining (prev_slider d))"; cases "head (remaining (current_slider d))")
    (auto simp: try_merge_next_state_as_par_def and_then_next_states
      from_pars_def from_prev_par_def from_current_par_def merger_par_result_default_def
      split: executed_state.splits)

interpretation par_merger: state_merger try_merge_next_state_as_par is_par "''par''"
proof unfold_locales
  fix d :: "'a data_keeper"
  assume d: "keeper_wf d" "length (result_trace d) < u32_bound"
  show "stepped d (snd (try_merge_next_state_as_par d))"
    using d by (simp add: try_merge_par_eq)
  fix p c
  assume "head (remaining (prev_slider d)) = p" "head (remaining (current_slider d)) = c"
    "\<not> (\<forall>x. p = Some x \<or> c = Some x \<longrightarrow> is_par x)"
  then show "fst (try_merge_next_state_as_par d) = incompatible_states p c ''par''"
    using d by (auto simp: try_merge_par_eq split: option.split executed_state.split)
qed

lemma met_call_scheme:
  assumes "keeper_wf d" "length (result_trace d) < u32_bound"
    and "try_merge_next_state_as_call B d = (Ok (CallMet m), d')"
  shows "\<exists>scheme. d' = record_positions B scheme (step_sliders d)
      \<and> mcr_trace_pos m = of_nat (length (result_trace d)) \<and> mcr_source m = value_source_from scheme
      \<and> (scheme \<noteq> Current \<longrightarrow> head (remaining (prev_slider d)) = Some (Call (mcr_result m)))
      \<and> (scheme = Current \<longrightarrow> head (remaining (current_slider d)) = Some (Call (mcr_result m)))"
proof -
  note eq = try_merge_call_eq [OF assms(1,2), of B]
    and prep = prepare_call_result_eq [OF assms(1,2)]
  show ?thesis
  proof (cases "head (remaining (prev_slider d))"; cases "head (remaining (current_slider d))")
    fix x y
    assume h: "head (remaining (prev_slider d)) = Some x" "head (remaining (current_slider d)) = Some y"
    then obtain a b where ab: "x = Call a" "y = Call b"
      using eq assms(3) by (cases x; cases y) auto
    obtain c scheme where c: "merge_call_results a b = Ok (c, scheme)"
      using eq assms(3) h ab by (cases rule: merge_call_results_cases [of a b]) auto
    then show ?thesis
      using eq assms(3) h ab merge_call_results_scheme [OF c]
      by (intro exI [of _ scheme]) (auto simp: prep [OF scheme_ok_heads(3) [OF h]])
  next
    fix x
    assume h: "head (remaining (prev_slider d)) = Some x" "head (remaining (current_slider d)) = None"
    then show ?thesis
      using eq assms(3) by (cases x) (auto simp: prep [OF scheme_ok_heads(1) [OF h(1)]] intro!: exI [of _ Previous])
  next
    fix y
    assume h: "head (remaining (prev_slider d)) = None" "head (remaining (current_slider d)) = Some y"
    then show ?thesis
      using eq assms(3) by (cases y) (auto simp: prep [OF scheme_ok_heads(2) [OF h(2)]] intro!: exI [of _ Current])
  qed (use eq assms(3) in auto)
qed

definition example_slider :: "execution_trace \<Rightarrow> trace_slider" where
  "example_slider t = \<lparr>ts_trace = t, ts_position = 0, ts_subtrace_len = of_nat (length t), ts_seen_elements = 0\<rparr>"

definition example_keeper :: "execution_trace \<Rightarrow> execution_trace \<Rightarrow> (trace_pos \<Rightarrow> trace_pos option) data_keeper" where
  "example_keeper p c = \<lparr>prev_ctx = \<lparr>slider = example_slider p\<rparr>, current_ctx = \<lparr>slider = example_slider c\<rparr>,
     new_to_prev_pos = bm_default fun_bimap, new_to_current_pos = bm_default fun_bimap, result_trace = []\<rparr>"

lemma example_slider_wf:
  "length t < u32_bound \<Longrightarrow> slider_in_trace (example_slider t) \<and> remaining (example_slider t) = t"
  by (simp add: example_slider_def slider_in_trace_def slider_wf_def window_len_def remaining_def)

lemma example_keeper_wf:
  assumes "length p < u32_bound" "length c < u32_bound"
  shows "keeper_wf (example_keeper p c)" "remaining (prev_slider (example_keeper p c)) = p"
    "remaining (current_slider (example_keeper p c)) = c" "result_trace (example_keeper p c) = []"
    "prev_slider (example_keeper p c) = example_slider p" "current_slider (example_keeper p c) = example_slider c"
  using assms example_slider_wf
  by (simp_all add: keeper_wf_def prev_slider_def current_slider_def example_keeper_def slider_in_trace_wf)

section \<open>Properties\<close>

text \<open>
  Merging call results converges. Take any call results for one instruction, received in any
  order and any number of times: merging them one into another succeeds exactly when the known
  ones agree, and what is known afterwards (the kind of the result and its CID, but not the
  sender of a request or the generation of a stream value) depends on the set of results only.
  Merging is associative and idempotent, and a merged result absorbs what it was made of.
\<close>

theorem call_merge_converges:
  "(merge_all merged_call a as \<noteq> None \<longleftrightarrow> agree (call_info ` set (a # as)))
   \<and> (set (a # as) = set (b # bs) \<longrightarrow>
       map_option call_info (merge_all merged_call a as)
         = map_option call_info (merge_all merged_call b bs))
   \<and> Option.bind (merged_call x y) (\<lambda>r. merged_call r z)
       = Option.bind (merged_call y z) (\<lambda>r. merged_call x r)
   \<and> merged_call x x = Some x
   \<and> (merged_call x y = Some z \<longrightarrow> merged_call z x = Some z \<and> merged_call z y = Some z)"
  using call_merge.merge_all_defined call_merge.merge_all_set_eq call_merge.merge_assoc
    call_merge.merge_idem call_merge.merge_absorb
  by blast

lemma call_merge_converges_witness:
  "merge_all merged_call (RequestSentBy (PeerId ''p'')) [Executed (Stream ''c'' 1), Executed (Stream ''c'' 2)]
     \<noteq> None
   \<and> map_option call_info (merge_all merged_call (Executed (Stream ''c'' 1))
         [RequestSentBy (PeerId ''p''), RequestSentBy (PeerId ''p'')])
     = map_option call_info (merge_all merged_call (RequestSentBy (PeerId ''p'')) [Executed (Stream ''c'' 1)])"
proof -
  note c = call_merge_converges [where x = "Failed ''f''" and y = "Failed ''f''" and z = "Failed ''f''"]
  have "agree {Pending, Known (StreamValue ''c'')}" by (simp add: agree_def)
  then have "merge_all merged_call (RequestSentBy (PeerId ''p''))
      [Executed (Stream ''c'' 1), Executed (Stream ''c'' 2)] \<noteq> None"
    using c [of "RequestSentBy (PeerId ''p'')" "[Executed (Stream ''c'' 1), Executed (Stream ''c'' 2)]"] by simp
  moreover have "set [Executed (Stream ''c'' 1), RequestSentBy (PeerId ''p''), RequestSentBy (PeerId ''p'')]
      = set [RequestSentBy (PeerId ''p''), Executed (Stream ''c'' 1)]" by auto
  ultimately show ?thesis using c by blast
qed

text \<open>
  Merging canon results converges in the same way: a canonicalized stream is fixed by the
  first peer that executes the canon, two different ones never merge, and the order in which
  results arrive does not matter.
\<close>

theorem canon_merge_converges:
  "(merge_all merged_canon a as \<noteq> None \<longleftrightarrow> agree (canon_info ` set (a # as)))
   \<and> (set (a # as) = set (b # bs) \<longrightarrow>
       map_option canon_info (merge_all merged_canon a as)
         = map_option canon_info (merge_all merged_canon b bs))
   \<and> Option.bind (merged_canon x y) (\<lambda>r. merged_canon r z)
       = Option.bind (merged_canon y z) (\<lambda>r. merged_canon x r)
   \<and> (merge_canon_results x y = Ok x \<or> merge_canon_results x y = Ok y
       \<or> merge_canon_results x y = Err (IncompatibleState x y))"
  using canon_merge.merge_all_defined [of a as] canon_merge.merge_all_set_eq [of a as b bs]
    canon_merge.merge_assoc [of x y z]
  by (cases x; cases y) (auto simp: merge_canon_results_def incompatible_state_def)

lemma canon_merge_converges_witness:
  "map_option canon_info (merge_all merged_canon (CanonExecuted ''c'')
         [CanonRequestSentBy ''p'', CanonExecuted ''c''])
     = map_option canon_info (merge_all merged_canon (CanonRequestSentBy ''p'') [CanonExecuted ''c''])"
proof -
  have "set [CanonExecuted ''c'', CanonRequestSentBy ''p'', CanonExecuted ''c'']
      = set [CanonRequestSentBy ''p'', CanonExecuted ''c'']" by auto
  then show ?thesis
    using canon_merge_converges [of "CanonExecuted ''c''" "[CanonRequestSentBy ''p'', CanonExecuted ''c'']"
        "CanonRequestSentBy ''p''" "[CanonExecuted ''c'']" "CanonExecuted ''c''" "CanonExecuted ''c''"
        "CanonExecuted ''c''"]
    by blast
qed

lemma call_merger_cases:
  assumes "keeper_wf d" "length (result_trace d) < u32_bound"
    and "try_merge_next_state_as_call B d = (r, d')"
    and "n = of_nat (length (result_trace d))"
  shows "stepped d d' \<and>
   (case (head (remaining (prev_slider d)), head (remaining (current_slider d))) of
      (None, None) \<Rightarrow> r = Ok CallNotMet
    | (Some (Call a), None) \<Rightarrow>
        r = Ok (CallMet \<lparr>mcr_result = a, mcr_trace_pos = n, mcr_source = PreviousData\<rparr>)
    | (None, Some (Call b)) \<Rightarrow>
        r = Ok (CallMet \<lparr>mcr_result = b, mcr_trace_pos = n, mcr_source = CurrentData\<rparr>)
    | (Some (Call a), Some (Call b)) \<Rightarrow>
        (case merged_call a b of
           Some m \<Rightarrow> r = Ok (CallMet \<lparr>mcr_result = m, mcr_trace_pos = n,
             mcr_source = (if call_info a = Pending \<and> call_info b \<noteq> Pending
                           then CurrentData else PreviousData)\<rparr>)
         | None \<Rightarrow> \<exists>e. r = Err (IncorrectCallResult e))
    | (x, y) \<Rightarrow> r = incompatible_states x y ''call'' \<and> (\<exists>e. r = Err e))"
proof -
  have "stepped d d'"
    using call_merger.frame [OF assms(1,2)] assms(3) by (metis snd_conv)
  moreover note eq = try_merge_call_eq [OF assms(1,2), of B]
  ultimately show ?thesis
  proof (cases "head (remaining (prev_slider d))"; cases "head (remaining (current_slider d))")
    fix x y
    assume h: "head (remaining (prev_slider d)) = Some x" "head (remaining (current_slider d)) = Some y"
      and st: "stepped d d'"
    show ?thesis
    proof (cases "\<exists>a b. x = Call a \<and> y = Call b")
      case True
      then obtain a b where ab: "x = Call a" "y = Call b" by blast
      note prep = prepare_call_result_eq [OF assms(1,2) scheme_ok_heads(3) [OF h]]
      show ?thesis
        using h ab st eq assms(3,4)
        by (cases rule: merge_call_results_cases [of a b]) (auto simp: prep)
    next
      case False
      then show ?thesis
        using h st eq assms(3) by (cases x; cases y) auto
    qed
  qed (use eq assms in \<open>auto simp: prepare_call_result_eq scheme_ok_heads split: executed_state.splits\<close>)
qed



text \<open>
  The position maps tell the truth. When a call is merged, the map of the trace it is said
  to come from sends the call's position in the result trace to the position where that trace
  holds exactly this call result.
\<close>

theorem call_merger_provenance:
  assumes "bimap_documented B" "keeper_wf d" "length (result_trace d) < u32_bound"
    and "try_merge_next_state_as_call B d = (Ok (CallMet m), d')"
  shows "case mcr_source m of
     PreviousData \<Rightarrow> \<exists>pos. bm_get_by_left B (new_to_prev_pos d') (mcr_trace_pos m) = Some pos
       \<and> trace_get (ts_trace (prev_slider d)) pos = Some (Call (mcr_result m))
   | CurrentData \<Rightarrow> \<exists>pos. bm_get_by_left B (new_to_current_pos d') (mcr_trace_pos m) = Some pos
       \<and> trace_get (ts_trace (current_slider d)) pos = Some (Call (mcr_result m))"
proof -
  obtain scheme where scheme: "d' = record_positions B scheme (step_sliders d)"
      "mcr_trace_pos m = of_nat (length (result_trace d))" "mcr_source m = value_source_from scheme"
      "scheme \<noteq> Current \<longrightarrow> head (remaining (prev_slider d)) = Some (Call (mcr_result m))"
      "scheme = Current \<longrightarrow> head (remaining (current_slider d)) = Some (Call (mcr_result m))"
    using met_call_scheme [OF assms(2,3,4)] by blast
  have wf: "slider_wf (prev_slider d)" "slider_wf (current_slider d)"
    using assms(2) by (auto simp: keeper_wf_def)
  show ?thesis
    using scheme record_positions_get [OF assms(1), of scheme "step_sliders d"]
      step_slider_position [OF wf(1)] step_slider_position [OF wf(2)]
    by (cases scheme) (auto simp: trace_get_def)
qed

lemma call_merger_provenance_witness:
  "\<exists>pos. bm_get_by_left fun_bimap (new_to_prev_pos (snd (try_merge_next_state_as_call fun_bimap
       (example_keeper [Call (Failed ''c'')] [])))) 0 = Some pos
     \<and> trace_get (ts_trace (prev_slider (example_keeper [Call (Failed ''c'')] []))) pos
         = Some (Call (Failed ''c''))"
proof -
  let ?d = "example_keeper [Call (Failed ''c'')] []"
  let ?m = "\<lparr>mcr_result = Failed ''c'', mcr_trace_pos = 0, mcr_source = PreviousData\<rparr>"
  have wf: "keeper_wf ?d" "length (result_trace ?d) < u32_bound" "head (remaining (prev_slider ?d)) = Some (Call (Failed ''c''))"
    "head (remaining (current_slider ?d)) = None"
    by (simp_all add: example_keeper_wf example_slider_wf)
  have "try_merge_next_state_as_call fun_bimap ?d
      = (Ok (CallMet ?m), snd (try_merge_next_state_as_call fun_bimap ?d))"
    using wf scheme_ok_heads(1) [OF wf(3)]
    by (simp add: try_merge_call_eq prepare_call_result_eq example_keeper_wf)
  from call_merger_provenance [OF fun_bimap_documented wf(1,2) this] show ?thesis by simp
qed

end
