(* ===== verification/Fold_Lore.thy ===== *)
theory Fold_Lore
  imports Merger
begin

text \<open>
  \<^verbatim>\<open>trace-handler/src/merger/fold_merger.rs\<close> and \<^verbatim>\<open>fold_merger/fold_lore_resolver.rs\<close>: merging fold
  states. The lore of a fold gives for every iteration the number of states before and after
  \<^verbatim>\<open>next\<close>; \<^verbatim>\<open>compute_lens_convolution\<close> turns these into lengths that also count the states the
  nested iterations of the same generation bring, by one pass with a back traversal at every
  change of generation. The specification \<open>convolve\<close> says what the lengths are, group by group;
  the pass is shown to compute it, to fail exactly on malformed lores, and never to overflow
  past its own check.

  A \<^verbatim>\<open>HashMap\<close> that is only inserted into and looked up is a map.
\<close>

section \<open>Model\<close>

record lores_len =
  before_len :: u32
  after_len :: u32

record resolved_sub_trace_descs =
  before_subtrace :: sub_trace_desc
  after_subtrace :: sub_trace_desc

record resolved_fold =
  rf_lore :: "trace_pos \<rightharpoonup> resolved_sub_trace_descs"
  rf_fold_states_count :: u32

record merger_fold_result =
  prev_fold_lore :: resolved_fold
  current_fold_lore :: resolved_fold

definition resolved_fold_default :: resolved_fold where
  "resolved_fold_default = \<lparr>rf_lore = Map.empty, rf_fold_states_count = 0\<rparr>"

definition merger_fold_result_default :: merger_fold_result where
  "merger_fold_result_default =
     \<lparr>prev_fold_lore = resolved_fold_default, current_fold_lore = resolved_fold_default\<rparr>"

fun before_lens_loop :: "u32 \<Rightarrow> nat list \<Rightarrow> u32 \<Rightarrow> lores_len list \<Rightarrow> (lores_len list, merge_error) result" where
  "before_lens_loop al [] cum_before_len lore_lens = Ok lore_lens"
| "before_lens_loop al (subtrace_id # ids) cum_before_len lore_lens =
     res_then (index_vec lore_lens subtrace_id) (\<lambda>len.
     res_then (u32_add cum_before_len (before_len len)) (\<lambda>cum_before_len.
     res_then (u32_add cum_before_len al) (\<lambda>bl.
     before_lens_loop al ids cum_before_len (lore_lens[subtrace_id := len\<lparr>before_len := bl\<rparr>]))))"

definition compute_before_lens :: "lores_len list \<Rightarrow> nat \<Rightarrow> nat \<Rightarrow> (lores_len list, merge_error) result" where
  "compute_before_lens lore_lens first_pos end_pos =
     res_then (index_vec lore_lens end_pos) (\<lambda>len.
     before_lens_loop (after_len len) (rev [first_pos..<Suc end_pos]) 0 lore_lens)"

definition check_subtrace_lore :: "fold_sub_trace_lore \<Rightarrow> (unit, merge_error) result" where
  "check_subtrace_lore subtrace_lore =
     (if length (subtraces_desc subtrace_lore) \<noteq> 2
      then Err (IncorrectFoldResult (FoldIncorrectSubtracesCount (length (subtraces_desc subtrace_lore))))
      else Ok ())"

record convolution_state =
  cs_lens :: "lores_len list"
  cs_fold_states_count :: u32
  cs_last_seen_generation :: generation_idx
  cs_last_seen_generation_pos :: nat
  cs_cum_after_len :: u32

definition convolution_step ::
    "fold_result \<Rightarrow> merge_ctx \<Rightarrow> nat \<Rightarrow> fold_sub_trace_lore \<Rightarrow> convolution_state
       \<Rightarrow> (convolution_state, merge_error) result" where
  "convolution_step fr ctx subtrace_id subtrace_lore st =
     res_then (check_subtrace_lore subtrace_lore) (\<lambda>_.
     res_then (res_map_err KeeperError (try_get_generation ctx (value_pos subtrace_lore))) (\<lambda>current_generation.
     res_then
       (if cs_last_seen_generation st \<noteq> current_generation then
          res_then
            (if subtrace_id > 0
             then compute_before_lens (cs_lens st) (cs_last_seen_generation_pos st) (subtrace_id - 1)
             else Ok (cs_lens st)) (\<lambda>lens.
          Ok (st\<lparr>cs_lens := lens, cs_last_seen_generation := current_generation,
                cs_last_seen_generation_pos := subtrace_id, cs_cum_after_len := 0\<rparr>))
        else Ok st) (\<lambda>st.
     res_then (index_vec (subtraces_desc subtrace_lore) 0) (\<lambda>before_desc.
     res_then (index_vec (subtraces_desc subtrace_lore) 1) (\<lambda>after_desc.
     res_then
       (ok_or (IncorrectFoldResult (SubtraceLenOverflow fr subtrace_id))
          (Option.bind (checked_add (cs_fold_states_count st) (desc_subtrace_len before_desc))
             (\<lambda>v. checked_add v (desc_subtrace_len after_desc)))) (\<lambda>fold_states_count.
     res_then (u32_add (cs_cum_after_len st) (desc_subtrace_len after_desc)) (\<lambda>cum_after_len.
     Ok (st\<lparr>cs_fold_states_count := fold_states_count, cs_cum_after_len := cum_after_len,
           cs_lens := cs_lens st @ [\<lparr>before_len = desc_subtrace_len before_desc,
                                    after_len = cum_after_len\<rparr>]\<rparr>))))))))"

fun convolution_loop ::
    "fold_result \<Rightarrow> merge_ctx \<Rightarrow> nat \<Rightarrow> fold_lore \<Rightarrow> convolution_state
       \<Rightarrow> (convolution_state, merge_error) result" where
  "convolution_loop fr ctx subtrace_id [] st = Ok st"
| "convolution_loop fr ctx subtrace_id (subtrace_lore # rest) st =
     res_then (convolution_step fr ctx subtrace_id subtrace_lore st)
       (convolution_loop fr ctx (Suc subtrace_id) rest)"

definition compute_lens_convolution ::
    "fold_result \<Rightarrow> merge_ctx \<Rightarrow> (u32 \<times> lores_len list, merge_error) result" where
  "compute_lens_convolution fr ctx =
     (let subtraces_count = length (lore fr) in
      res_then (convolution_loop fr ctx 0 (lore fr)
        \<lparr>cs_lens = [], cs_fold_states_count = 0, cs_last_seen_generation = 0,
         cs_last_seen_generation_pos = 0, cs_cum_after_len = 0\<rparr>) (\<lambda>st.
      res_then
        (if subtraces_count > 0
         then compute_before_lens (cs_lens st) (cs_last_seen_generation_pos st) (subtraces_count - 1)
         else Ok (cs_lens st)) (\<lambda>lens.
      Ok (cs_fold_states_count st, lens))))"

fun resolve_loop ::
    "fold_result \<Rightarrow> (fold_sub_trace_lore \<times> lores_len) list \<Rightarrow> (trace_pos \<rightharpoonup> resolved_sub_trace_descs)
       \<Rightarrow> (trace_pos \<rightharpoonup> resolved_sub_trace_descs, merge_error) result" where
  "resolve_loop fr [] resolved_lore = Ok resolved_lore"
| "resolve_loop fr ((l, lens) # rest) resolved_lore =
     res_then (index_vec (subtraces_desc l) 0) (\<lambda>before_desc.
     res_then (index_vec (subtraces_desc l) 1) (\<lambda>after_desc.
     let resolved_descs =
       \<lparr>before_subtrace = sub_trace_desc_new (begin_pos before_desc) (unat (before_len lens)),
        after_subtrace = sub_trace_desc_new (begin_pos after_desc) (unat (after_len lens))\<rparr>
     in case resolved_lore (value_pos l) of
          Some _ \<Rightarrow> Err (IncorrectFoldResult (SeveralRecordsWithSamePos fr (value_pos l)))
        | None \<Rightarrow> resolve_loop fr rest (resolved_lore(value_pos l \<mapsto> resolved_descs))))"

definition resolve_fold_lore :: "fold_result \<Rightarrow> merge_ctx \<Rightarrow> (resolved_fold, merge_error) result" where
  "resolve_fold_lore fr ctx =
     res_then (compute_lens_convolution fr ctx) (\<lambda>(fold_states_count, lens).
     res_then (resolve_loop fr (zip (lore fr) lens) Map.empty) (\<lambda>resolved.
     Ok \<lparr>rf_lore = resolved, rf_fold_states_count = fold_states_count\<rparr>))"

definition from_fold_result ::
    "fold_result \<Rightarrow> merge_ctx_type \<Rightarrow> 'bm data_keeper \<Rightarrow> (merger_fold_result, merge_error) result" where
  "from_fold_result fr ctx_type data_keeper =
     (case ctx_type of
        CtxPrevious \<Rightarrow> res_then (resolve_fold_lore fr (prev_ctx data_keeper)) (\<lambda>fold_lore.
          Ok \<lparr>prev_fold_lore = fold_lore, current_fold_lore = resolved_fold_default\<rparr>)
      | CtxCurrent \<Rightarrow> res_then (resolve_fold_lore fr (current_ctx data_keeper)) (\<lambda>fold_lore.
          Ok \<lparr>prev_fold_lore = resolved_fold_default, current_fold_lore = fold_lore\<rparr>))"

definition from_fold_results ::
    "fold_result \<Rightarrow> fold_result \<Rightarrow> 'bm data_keeper \<Rightarrow> (merger_fold_result, merge_error) result" where
  "from_fold_results prev_fold current_fold data_keeper =
     res_then (resolve_fold_lore prev_fold (prev_ctx data_keeper)) (\<lambda>prev_lore.
     res_then (resolve_fold_lore current_fold (current_ctx data_keeper)) (\<lambda>current_lore.
     Ok \<lparr>prev_fold_lore = prev_lore, current_fold_lore = current_lore\<rparr>))"

definition try_merge_next_state_as_fold :: "('bm data_keeper, merger_fold_result, merge_error) comp" where
  "try_merge_next_state_as_fold =
     and_then next_states (\<lambda>states.
     and_then (gets id) (\<lambda>data_keeper. case states of
        (Some (Fold prev_fold), Some (Fold current_fold)) \<Rightarrow>
          lift (from_fold_results prev_fold current_fold data_keeper)
      | (None, Some (Fold current_fold)) \<Rightarrow> lift (from_fold_result current_fold CtxCurrent data_keeper)
      | (Some (Fold prev_fold), None) \<Rightarrow> lift (from_fold_result prev_fold CtxPrevious data_keeper)
      | (None, None) \<Rightarrow> ret merger_fold_result_default
      | (prev_state, current_state) \<Rightarrow> lift (incompatible_states prev_state current_state ''fold'')))"

section \<open>Specification\<close>

text \<open>
  The iterations of one generation, each with its own numbers of states before and after
  \<^verbatim>\<open>next\<close>. Iteration \<open>i\<close> is entered with everything the later iterations of the group and all
  after parts will take, and left with the after parts up to its own.
\<close>

definition group_lens :: "(nat \<times> nat) list \<Rightarrow> (nat \<times> nat) list" where
  "group_lens xs = map (\<lambda>i. (sum_list (map fst (drop i xs)) + sum_list (map snd xs),
                            sum_list (map snd (take (Suc i) xs)))) [0..<length xs]"

function convolve :: "('g \<times> nat \<times> nat) list \<Rightarrow> (nat \<times> nat) list" where
  "convolve [] = []"
| "convolve ((g, x) # items) =
     group_lens (x # map snd (takeWhile (\<lambda>i. fst i = g) items))
       @ convolve (dropWhile (\<lambda>i. fst i = g) items)"
  by pat_completeness auto
termination
  by (relation "measure length") (simp_all add: length_dropWhile_le less_Suc_eq_le)

definition states_count :: "('g \<times> nat \<times> nat) list \<Rightarrow> nat" where
  "states_count items = sum_list (map (\<lambda>(_, b, a). b + a) items)"

definition to_lens :: "(nat \<times> nat) \<Rightarrow> lores_len" where
  "to_lens x = \<lparr>before_len = of_nat (fst x), after_len = of_nat (snd x)\<rparr>"

text \<open>What a lore says of an iteration, when it is well-formed.\<close>

definition lore_item :: "merge_ctx \<Rightarrow> fold_sub_trace_lore \<Rightarrow> (generation_idx \<times> nat \<times> nat) option" where
  "lore_item ctx l = (case (subtraces_desc l, try_get_generation ctx (value_pos l)) of
     ([b, a], Ok g) \<Rightarrow> Some (g, unat (desc_subtrace_len b), unat (desc_subtrace_len a))
   | _ \<Rightarrow> None)"

definition lore_items :: "merge_ctx \<Rightarrow> fold_lore \<Rightarrow> (generation_idx \<times> nat \<times> nat) list option" where
  "lore_items ctx ls = (if \<forall>l\<in>set ls. lore_item ctx l \<noteq> None
     then Some (map (\<lambda>l. the (lore_item ctx l)) ls) else None)"

section \<open>The pass computes the specification\<close>

text \<open>The lengths of the group the pass is in: before parts alone, after parts cumulated.\<close>

definition raw_lens :: "(nat \<times> nat) list \<Rightarrow> (nat \<times> nat) list" where
  "raw_lens xs = map (\<lambda>i. (fst (xs ! i), sum_list (map snd (take (Suc i) xs)))) [0..<length xs]"

lemma length_lens [simp]: "length (raw_lens xs) = length xs" "length (group_lens xs) = length xs"
  by (simp_all add: raw_lens_def group_lens_def)

lemma raw_lens_snoc:
  "raw_lens (xs @ [(b, a)]) = raw_lens xs @ [(b, sum_list (map snd xs) + a)]"
  by (simp add: raw_lens_def nth_append)

lemma raw_lens_nth: "i < length xs \<Longrightarrow>
   raw_lens xs ! i = (fst (xs ! i), sum_list (map snd (take (Suc i) xs)))"
  by (simp add: raw_lens_def)

lemma group_lens_nth: "i < length xs \<Longrightarrow>
   group_lens xs ! i = (sum_list (map fst (drop i xs)) + sum_list (map snd xs),
     sum_list (map snd (take (Suc i) xs)))"
  by (simp add: group_lens_def)

lemma sum_drop_le: "sum_list (map f (drop i xs)) \<le> sum_list (map f xs)" for f :: "'a \<Rightarrow> nat"
  by (metis append_take_drop_id le_add2 map_append sum_list_append)

lemma before_lens_loop_step:
  assumes "k < length L" "unat cum + unat (before_len (L ! k)) < u32_bound"
    and "unat (cum + before_len (L ! k)) + unat al < u32_bound"
  shows "before_lens_loop al (k # ids) cum L
    = before_lens_loop al ids (cum + before_len (L ! k))
        (L[k := (L ! k)\<lparr>before_len := cum + before_len (L ! k) + al\<rparr>])"
  using assms by (simp add: index_vec_def u32_add_cases)

lemma before_lens_loop_eq:
  assumes "sum_list (map fst xs) + sum_list (map snd xs) < u32_bound" "i \<le> length xs"
    and "al = of_nat (sum_list (map snd xs))" and that: "length pre = n"
  shows "before_lens_loop al (rev [n..<n + i]) (of_nat (sum_list (map fst (drop i xs))))
      (pre @ map to_lens (take i (raw_lens xs) @ drop i (group_lens xs)))
    = Ok (pre @ map to_lens (group_lens xs))"
  using assms(2)
proof (induction i)
  case (Suc i)
  let ?A = "sum_list (map snd xs)" and ?F = "\<lambda>i. sum_list (map fst (drop i xs))"
  let ?m = "map to_lens (take (Suc i) (raw_lens xs) @ drop (Suc i) (group_lens xs))"
  have i: "i < length xs" using Suc.prems by simp
  have F: "?F i = fst (xs ! i) + ?F (Suc i)"
    using i by (simp flip: Cons_nth_drop_Suc)
  have bound: "?F i + ?A < u32_bound"
    using assms(1) sum_drop_le [of fst i xs] by linarith
  have nth: "(pre @ ?m) ! (n + i) = to_lens (raw_lens xs ! i)"
    using i that by (simp add: nth_append)
  have unats: "unat (of_nat (?F (Suc i)) :: u32) = ?F (Suc i)" "unat (of_nat (fst (xs ! i)) :: u32) = fst (xs ! i)"
    "unat (of_nat ?A :: u32) = ?A" "unat (of_nat (?F i) :: u32) = ?F i"
    using bound F by (intro unat_of_nat_u32; linarith)+
  let ?e = "to_lens (raw_lens xs ! i)"
  have e: "before_len ?e = of_nat (fst (xs ! i))" "of_nat (?F (Suc i)) + before_len ?e = of_nat (?F i)"
    using i by (simp_all add: to_lens_def raw_lens_nth F)
  have "(pre @ ?m)[n + i := ?e\<lparr>before_len := of_nat (?F i) + al\<rparr>]
      = pre @ map to_lens (take i (raw_lens xs) @ drop i (group_lens xs))"
    using i that
    by (simp add: list_update_append take_Suc_conv_app_nth Cons_nth_drop_Suc [symmetric]
        to_lens_def raw_lens_nth group_lens_nth assms(3))
  moreover have "n + i < length (pre @ ?m)" using i that by simp
  moreover have "unat (of_nat (?F (Suc i)) :: u32) + unat (before_len ?e) < u32_bound"
    "unat (of_nat (?F i) :: u32) + unat al < u32_bound"
    using unats bound F e assms(3) by simp_all
  ultimately have "before_lens_loop al ((n + i) # rev [n..<n + i]) (of_nat (?F (Suc i))) (pre @ ?m)
      = before_lens_loop al (rev [n..<n + i]) (of_nat (?F i))
          (pre @ map to_lens (take i (raw_lens xs) @ drop i (group_lens xs)))"
    by (subst before_lens_loop_step) (simp_all only: nth e(2))
  with Suc show ?case by (simp del: before_lens_loop.simps(2))
qed simp

lemma compute_before_lens_eq:
  assumes "run \<noteq> []" "sum_list (map fst run) + sum_list (map snd run) < u32_bound"
  shows "compute_before_lens (map to_lens (dn @ raw_lens run)) (length dn) (length dn + length run - 1)
    = Ok (map to_lens (dn @ group_lens run))"
proof -
  let ?n = "length dn" and ?e = "length dn + length run - 1"
  have "index_vec (map to_lens (dn @ raw_lens run)) ?e
      = (Ok (to_lens (raw_lens run ! (length run - 1))) :: (lores_len, merge_error) result)"
    using assms(1) by (cases run rule: rev_cases) (simp_all add: index_vec_def nth_append)
  moreover have "after_len (to_lens (raw_lens run ! (length run - 1))) = of_nat (sum_list (map snd run))"
    using assms(1) by (simp add: to_lens_def raw_lens_nth)
  moreover have "Suc ?e = ?n + length run" using assms(1) by (cases run) auto
  ultimately show ?thesis
    using before_lens_loop_eq [OF assms(2) order_refl refl, of "map to_lens dn" ?n]
    by (simp add: compute_before_lens_def)
qed

fun convolve_from :: "(nat \<times> nat) list \<Rightarrow> 'g \<Rightarrow> (nat \<times> nat) list \<Rightarrow> ('g \<times> nat \<times> nat) list \<Rightarrow> (nat \<times> nat) list" where
  "convolve_from dn g run [] = dn @ group_lens run"
| "convolve_from dn g run ((h, x) # items) =
     (if g = h then convolve_from dn g (run @ [x]) items
      else convolve_from (dn @ group_lens run) h [x] items)"

lemma group_lens_Nil [simp]: "group_lens [] = []" "raw_lens [] = []" "raw_lens [x] = [x]"
  by (simp_all add: group_lens_def raw_lens_def)

lemma convolve_from_eq:
  "convolve_from dn g run items = dn @ group_lens (run @ map snd (takeWhile (\<lambda>i. fst i = g) items))
     @ convolve (dropWhile (\<lambda>i. fst i = g) items)"
  by (induction dn g run items rule: convolve_from.induct) auto

lemma convolve_from_init: "convolve_from [] g [] items = convolve items"
  by (cases items) (auto simp: convolve_from_eq)

definition convolution_inv ::
    "(nat \<times> nat) list \<Rightarrow> generation_idx \<Rightarrow> (nat \<times> nat) list \<Rightarrow> nat \<Rightarrow> convolution_state \<Rightarrow> bool" where
  "convolution_inv dn g run n st \<longleftrightarrow>
     cs_lens st = map to_lens (dn @ raw_lens run) \<and> cs_last_seen_generation st = g \<and>
     cs_last_seen_generation_pos st = length dn \<and>
     cs_cum_after_len st = of_nat (sum_list (map snd run)) \<and>
     cs_fold_states_count st = of_nat n \<and> n < u32_bound \<and>
     sum_list (map fst run) + sum_list (map snd run) \<le> n \<and> (run = [] \<longrightarrow> dn = [])"

lemma convolution_step_split:
  assumes "lore_item ctx l = Some (h, b, a)" "convolution_inv dn g run n st" "i = length dn + length run"
  shows "convolution_step fr ctx i l st =
    (let st1 = (if g = h then st else st\<lparr>cs_lens := map to_lens (dn @ group_lens run),
           cs_last_seen_generation := h, cs_last_seen_generation_pos := i, cs_cum_after_len := 0\<rparr>) in
     res_then (ok_or (IncorrectFoldResult (SubtraceLenOverflow fr i))
       (Option.bind (checked_add (cs_fold_states_count st1) (of_nat b)) (\<lambda>v. checked_add v (of_nat a)))) (\<lambda>c.
     res_then (u32_add (cs_cum_after_len st1) (of_nat a)) (\<lambda>cum.
     Ok (st1\<lparr>cs_fold_states_count := c, cs_cum_after_len := cum,
           cs_lens := cs_lens st1 @ [\<lparr>before_len = of_nat b, after_len = cum\<rparr>]\<rparr>))))"
proof -
  obtain bd ad where l: "subtraces_desc l = [bd, ad]" "try_get_generation ctx (value_pos l) = Ok h"
      "desc_subtrace_len bd = of_nat b" "desc_subtrace_len ad = of_nat a"
    using assms(1) by (auto simp: lore_item_def split: list.splits result.splits)
  have before: "compute_before_lens (cs_lens st) (length dn) (i - 1) = Ok (map to_lens (dn @ group_lens run))"
    if "0 < i"
    using that assms(2,3) compute_before_lens_eq [of run dn] by (auto simp: convolution_inv_def)
  have zero: "cs_lens st = map to_lens (dn @ group_lens run)" if "i = 0"
    using that assms(2,3) by (auto simp: convolution_inv_def)
  show ?thesis
    using assms(2) before zero
    by (auto simp: convolution_step_def check_subtrace_lore_def l index_vec_def convolution_inv_def Let_def)
qed

lemma convolution_step_Some:
  assumes "lore_item ctx l = Some (h, b, a)" "convolution_inv dn g run n st" "i = length dn + length run"
  shows "if n + b + a < u32_bound
    then \<exists>st'. convolution_step fr ctx i l st = Ok st' \<and>
       (if g = h then convolution_inv dn g (run @ [(b, a)]) (n + b + a) st'
        else convolution_inv (dn @ group_lens run) h [(b, a)] (n + b + a) st')
    else convolution_step fr ctx i l st = Err (IncorrectFoldResult (SubtraceLenOverflow fr i))"
proof -
  note inv = assms(2) [unfolded convolution_inv_def]
  have "unat (of_nat b :: u32) = b" "unat (of_nat a :: u32) = a"
    using assms(1) by (auto simp: lore_item_def split: list.splits result.splits)
  then have ab: "b < u32_bound" "a < u32_bound"
    using unat_lt_u32_bound by metis+
  note eq = convolution_step_split [OF assms, of fr] and bd = unat_of_nat_u32
  show ?thesis
  proof (cases "n + b + a < u32_bound")
    case True
    then have "checked_add (of_nat n) (of_nat b) = Some (of_nat (n + b))"
      "checked_add (of_nat (n + b)) (of_nat a) = Some (of_nat (n + b + a))"
      using ab inv bd [of n] bd [of "n + b"] by (simp_all add: checked_add_def del: of_nat_add) simp_all
    moreover have "u32_add (of_nat (sum_list (map snd run))) (of_nat a)
        = (Ok (of_nat (sum_list (map snd run) + a)) :: (u32, merge_error) result)"
      using True inv ab bd [of "sum_list (map snd run)"] by (simp add: u32_add_cases)
    ultimately show ?thesis
      using True inv ab eq assms(3)
      by (auto simp: Let_def convolution_inv_def raw_lens_snoc to_lens_def u32_add_cases)
  next
    case False
    have "unat (of_nat n + of_nat b :: u32) = n + b" if "n + b < u32_bound"
      using bd [OF that] by simp
    with False have "Option.bind (checked_add (of_nat n) (of_nat b)) (\<lambda>v. checked_add v (of_nat a)) = None"
      using ab inv by (auto simp: checked_add_def)
    with False show ?thesis
      using inv eq by (auto simp: Let_def)
  qed
qed

lemma convolution_step_None:
  assumes "lore_item ctx l = None"
  shows "(\<exists>e. convolution_step fr ctx i l st = Err e)
    \<or> convolution_step fr ctx i l st = Panic \<and> try_get_generation ctx (value_pos l) = Panic"
  using assms
  by (cases "try_get_generation ctx (value_pos l)")
    (auto simp: convolution_step_def check_subtrace_lore_def lore_item_def length_Suc_conv
      numeral_2_eq_2 split: list.splits)

lemma lore_items_simps [simp]:
  "lore_items ctx [] = Some []"
  "lore_items ctx (l # ls) = (case lore_item ctx l of None \<Rightarrow> None
     | Some x \<Rightarrow> map_option ((#) x) (lore_items ctx ls))"
  by (auto simp: lore_items_def split: option.splits)

lemma states_count_simps [simp]:
  "states_count [] = 0" "states_count ((g, b, a) # items) = b + a + states_count items"
  by (simp_all add: states_count_def)

definition convolution_done ::
    "(nat \<times> nat) list \<Rightarrow> nat \<Rightarrow> nat \<Rightarrow> convolution_state \<Rightarrow> bool" where
  "convolution_done lens n k st \<longleftrightarrow> (\<exists>dn g run. convolution_inv dn g run n st
     \<and> dn @ group_lens run = lens \<and> length dn + length run = k)"

lemma convolution_loop_spec:
  assumes "convolution_inv dn g run n st" "i = length dn + length run"
  shows "case convolution_loop fr ctx i ls st of
      Ok st' \<Rightarrow> \<exists>items. lore_items ctx ls = Some items \<and> n + states_count items < u32_bound
        \<and> convolution_done (convolve_from dn g run items) (n + states_count items) (i + length ls) st'
    | Err _ \<Rightarrow> (\<forall>items. lore_items ctx ls = Some items \<longrightarrow> u32_bound \<le> n + states_count items)
    | Panic \<Rightarrow> (\<exists>l\<in>set ls. try_get_generation ctx (value_pos l) = Panic)"
  using assms
proof (induction ls arbitrary: dn g run n st i)
  case Nil
  then show ?case by (auto simp: convolution_done_def convolution_inv_def)
next
  case (Cons l ls)
  show ?case
  proof (cases "lore_item ctx l")
    case None
    then show ?thesis
      using convolution_step_None [OF None, of fr i st] by auto
  next
    case (Some x)
    obtain h b a where x: "x = (h, b, a)" by (cases x)
    note step = convolution_step_Some [OF Some [unfolded x] Cons.prems, of fr]
    show ?thesis
    proof (cases "n + b + a < u32_bound")
      case False
      with step Some x show ?thesis by (auto split: option.splits)
    next
      case True
      with step obtain st' where st': "convolution_step fr ctx i l st = Ok st'"
        and inv: "if g = h then convolution_inv dn g (run @ [(b, a)]) (n + b + a) st'
          else convolution_inv (dn @ group_lens run) h [(b, a)] (n + b + a) st'" by auto
      have "case convolution_loop fr ctx (Suc i) ls st' of
          Ok st' \<Rightarrow> \<exists>items. lore_items ctx ls = Some items \<and> (n + b + a) + states_count items < u32_bound
            \<and> convolution_done (convolve_from dn g run ((h, b, a) # items)) ((n + b + a) + states_count items)
                (Suc i + length ls) st'
        | Err _ \<Rightarrow> (\<forall>items. lore_items ctx ls = Some items \<longrightarrow> u32_bound \<le> (n + b + a) + states_count items)
        | Panic \<Rightarrow> (\<exists>l\<in>set ls. try_get_generation ctx (value_pos l) = Panic)"
        using Cons.IH [of dn g "run @ [(b, a)]" "n + b + a" st' "Suc i"]
          Cons.IH [of "dn @ group_lens run" h "[(b, a)]" "n + b + a" st' "Suc i"] inv Cons.prems(2)
        by (cases "g = h") (auto split: result.splits)
      then show ?thesis
        using st' Some x by (auto split: result.splits simp: add.assoc)
    qed
  qed
qed

lemma compute_lens_convolution_spec:
  "case compute_lens_convolution fr ctx of
     Ok (n, lens) \<Rightarrow> \<exists>items. lore_items ctx (lore fr) = Some items \<and> states_count items < u32_bound
       \<and> n = of_nat (states_count items) \<and> lens = map to_lens (convolve items)
   | Err _ \<Rightarrow> (\<forall>items. lore_items ctx (lore fr) = Some items \<longrightarrow> u32_bound \<le> states_count items)
   | Panic \<Rightarrow> (\<exists>l\<in>set (lore fr). try_get_generation ctx (value_pos l) = Panic)"
proof -
  let ?st = "\<lparr>cs_lens = [], cs_fold_states_count = 0, cs_last_seen_generation = 0,
         cs_last_seen_generation_pos = 0, cs_cum_after_len = 0\<rparr>"
  have "convolution_inv [] 0 [] 0 ?st" by (simp add: convolution_inv_def)
  note loop = convolution_loop_spec [OF this, where i = 0 and fr = fr and ctx = ctx and ls = "lore fr"]
  show ?thesis
  proof (cases "convolution_loop fr ctx 0 (lore fr) ?st")
    case (Ok st)
    then obtain items where items: "lore_items ctx (lore fr) = Some items" "states_count items < u32_bound"
      "convolution_done (convolve items) (states_count items) (length (lore fr)) st"
      using loop by (auto simp: convolve_from_init)
    then obtain dn g run where inv: "convolution_inv dn g run (states_count items) st"
      "dn @ group_lens run = convolve items" "length dn + length run = length (lore fr)"
      by (auto simp: convolution_done_def)
    have "(if length (lore fr) > 0
         then compute_before_lens (cs_lens st) (cs_last_seen_generation_pos st) (length (lore fr) - 1)
         else Ok (cs_lens st)) = Ok (map to_lens (convolve items))"
      using inv compute_before_lens_eq [of run dn] by (cases "run = []") (auto simp: convolution_inv_def)
    then show ?thesis
      using Ok items inv(1) by (simp add: compute_lens_convolution_def convolution_inv_def Let_def)
  next
    case (Err e)
    with loop show ?thesis by (auto simp: compute_lens_convolution_def Let_def)
  next
    case Panic
    with loop show ?thesis by (auto simp: compute_lens_convolution_def Let_def)
  qed
qed

lemma length_convolve [simp]: "length (convolve items) = length items"
proof (induction items rule: convolve.induct)
  case (2 g x items)
  have "length (takeWhile (\<lambda>i. fst i = g) items) + length (dropWhile (\<lambda>i. fst i = g) items) = length items"
    by (metis length_append takeWhile_dropWhile_id)
  with 2 show ?case by simp
qed simp

lemma sum_take_le: "sum_list (map f (take i xs)) \<le> sum_list (map f xs)" for f :: "'a \<Rightarrow> nat"
  by (metis append_take_drop_id le_add1 map_append sum_list_append)

lemma group_lens_bounds:
  "x \<in> set (group_lens xs) \<Longrightarrow> fst x \<le> sum_list (map fst xs) + sum_list (map snd xs)
     \<and> snd x \<le> sum_list (map fst xs) + sum_list (map snd xs)"
  using sum_take_le [of snd _ xs] sum_drop_le [of fst _ xs]
  by (auto simp: group_lens_def trans_le_add2)

lemma convolve_bounds:
  "x \<in> set (convolve items) \<Longrightarrow> fst x \<le> states_count items \<and> snd x \<le> states_count items"
proof (induction items rule: convolve.induct)
  case (2 g y items)
  let ?t = "takeWhile (\<lambda>i. fst i = g) items" and ?d = "dropWhile (\<lambda>i. fst i = g) items"
  have split: "states_count ((g, y) # items) = fst y + snd y + states_count ?t + states_count ?d"
    by (cases y) (simp add: states_count_def flip: sum_list_append map_append)
  have group: "sum_list (map fst (y # map snd ?t)) + sum_list (map snd (y # map snd ?t))
      = fst y + snd y + states_count ?t"
    by (simp add: states_count_def comp_def split_def sum_list_addf)
  from "2.prems" consider "x \<in> set (group_lens (y # map snd ?t))" | "x \<in> set (convolve ?d)"
    by auto
  then show ?case
  proof cases
    case 1
    from group_lens_bounds [OF this] show ?thesis unfolding group split by auto
  next
    case 2
    with "2.IH" show ?thesis unfolding split by auto
  qed
qed simp

section \<open>Resolving\<close>

definition resolved_descs :: "fold_sub_trace_lore \<Rightarrow> nat \<times> nat \<Rightarrow> resolved_sub_trace_descs" where
  "resolved_descs l x = \<lparr>before_subtrace = \<lparr>begin_pos = begin_pos (subtraces_desc l ! 0), desc_subtrace_len = of_nat (fst x)\<rparr>,
     after_subtrace = \<lparr>begin_pos = begin_pos (subtraces_desc l ! 1), desc_subtrace_len = of_nat (snd x)\<rparr>\<rparr>"

lemma resolve_loop_spec:
  assumes "\<forall>l\<in>set ls. length (subtraces_desc l) = 2" "length xs = length ls"
  shows "case resolve_loop fr (zip ls (map to_lens xs)) m of
     Ok m' \<Rightarrow> distinct (map value_pos ls) \<and> (\<forall>l\<in>set ls. m (value_pos l) = None)
       \<and> m' = m ++ map_of (zip (map value_pos ls) (map2 resolved_descs ls xs))
   | Err e \<Rightarrow> (\<exists>p. e = IncorrectFoldResult (SeveralRecordsWithSamePos fr p))
       \<and> \<not> (distinct (map value_pos ls) \<and> (\<forall>l\<in>set ls. m (value_pos l) = None))
   | Panic \<Rightarrow> False"
  using assms
proof (induction ls arbitrary: xs m)
  case (Cons l ls)
  then obtain x ys where xs: "xs = x # ys" "length ys = length ls"
    by (cases xs) auto
  have u: "sub_trace_desc_new p (unat (of_nat n :: u32)) = \<lparr>begin_pos = p, desc_subtrace_len = of_nat n\<rparr>" for p n
    by (simp add: sub_trace_desc_new_def)
  show ?case
  proof (cases "m (value_pos l)")
    case None
    define M where "M = m(value_pos l \<mapsto> resolved_descs l x)"
    have loop: "resolve_loop fr (zip (l # ls) (map to_lens xs)) m = resolve_loop fr (zip ls (map to_lens ys)) M"
      using None Cons.prems xs by (simp add: M_def index_vec_def to_lens_def u resolved_descs_def Let_def)
    have free: "(\<forall>k\<in>set ls. M (value_pos k) = None) \<longleftrightarrow>
        value_pos l \<notin> value_pos ` set ls \<and> (\<forall>k\<in>set ls. m (value_pos k) = None)"
      by (auto simp: M_def image_iff)
    have "value_pos l \<notin> value_pos ` set ls \<Longrightarrow>
        M ++ map_of (zip (map value_pos ls) (map2 resolved_descs ls ys))
        = m ++ map_of (zip (map value_pos (l # ls)) (map2 resolved_descs (l # ls) xs))"
      using xs unfolding M_def by (subst map_add_upd_left) (auto simp: dom_map_of_zip)
    then show ?thesis
      using Cons.IH [of ys M] Cons.prems xs(2) None
      unfolding loop by (auto simp: free split: result.splits)
  next
    case (Some r)
    then show ?thesis
      using Cons.prems xs by (auto simp: index_vec_def Let_def)
  qed
qed simp

lemma lore_items_length: "lore_items ctx ls = Some items \<Longrightarrow> length items = length ls"
  by (auto simp: lore_items_def split: if_splits)

lemma lore_item_two: "lore_item ctx l = Some x \<Longrightarrow> length (subtraces_desc l) = 2"
  by (auto simp: lore_item_def split: list.splits)

lemma lore_items_two: "lore_items ctx ls = Some items \<Longrightarrow> l \<in> set ls \<Longrightarrow> length (subtraces_desc l) = 2"
  using lore_item_two by (fastforce simp: lore_items_def split: if_splits)

lemma resolve_fold_lore_spec:
  "case resolve_fold_lore fr ctx of
     Ok rf \<Rightarrow> \<exists>items. lore_items ctx (lore fr) = Some items \<and> states_count items < u32_bound
       \<and> distinct (map value_pos (lore fr))
       \<and> rf_fold_states_count rf = of_nat (states_count items)
       \<and> rf_lore rf = map_of (zip (map value_pos (lore fr)) (map2 resolved_descs (lore fr) (convolve items)))
   | Err _ \<Rightarrow> \<not> (\<exists>items. lore_items ctx (lore fr) = Some items \<and> states_count items < u32_bound
       \<and> distinct (map value_pos (lore fr)))
   | Panic \<Rightarrow> \<exists>l. l \<in> set (lore fr) \<and> try_get_generation ctx (value_pos l) = Panic"
proof (cases "compute_lens_convolution fr ctx")
  case (Ok nl)
  then obtain items where items: "lore_items ctx (lore fr) = Some items" "states_count items < u32_bound"
      "nl = (of_nat (states_count items), map to_lens (convolve items))"
    using compute_lens_convolution_spec [of ctx fr] by (cases nl) auto
  note two = lore_items_two [OF items(1)] and len = lore_items_length [OF items(1)]
  have "case resolve_loop fr (zip (lore fr) (map to_lens (convolve items))) Map.empty of
     Ok m' \<Rightarrow> distinct (map value_pos (lore fr))
       \<and> m' = map_of (zip (map value_pos (lore fr)) (map2 resolved_descs (lore fr) (convolve items)))
   | Err e \<Rightarrow> \<not> distinct (map value_pos (lore fr)) | Panic \<Rightarrow> False"
    using resolve_loop_spec [of "lore fr" "convolve items" Map.empty fr] two len
    by (auto split: result.splits)
  then show ?thesis
    using Ok items by (auto simp: resolve_fold_lore_def split: result.splits)
next
  case (Err e)
  with compute_lens_convolution_spec [of ctx fr] show ?thesis
    by (auto simp: resolve_fold_lore_def)
next
  case Panic
  with compute_lens_convolution_spec [of ctx fr] show ?thesis
    by (auto simp: resolve_fold_lore_def)
qed

lemma try_merge_fold_eq:
  assumes "keeper_wf d"
  shows "try_merge_next_state_as_fold d =
   ((case (head (remaining (prev_slider d)), head (remaining (current_slider d))) of
      (Some (Fold a), Some (Fold b)) \<Rightarrow> from_fold_results a b (step_sliders d)
    | (None, Some (Fold b)) \<Rightarrow> from_fold_result b CtxCurrent (step_sliders d)
    | (Some (Fold a), None) \<Rightarrow> from_fold_result a CtxPrevious (step_sliders d)
    | (None, None) \<Rightarrow> Ok merger_fold_result_default
    | (x, y) \<Rightarrow> incompatible_states x y ''fold''), step_sliders d)"
  using assms
  by (cases "head (remaining (prev_slider d))"; cases "head (remaining (current_slider d))")
    (auto simp: try_merge_next_state_as_fold_def and_then_next_states split: executed_state.splits)

interpretation fold_merger: state_merger try_merge_next_state_as_fold is_fold "''fold''"
proof unfold_locales
  fix d :: "'a data_keeper"
  assume d: "keeper_wf d" "length (result_trace d) < u32_bound"
  show "stepped d (snd (try_merge_next_state_as_fold d))"
    using d by (simp add: try_merge_fold_eq)
  fix p c
  assume "head (remaining (prev_slider d)) = p" "head (remaining (current_slider d)) = c"
    "\<not> (\<forall>x. p = Some x \<or> c = Some x \<longrightarrow> is_fold x)"
  then show "fst (try_merge_next_state_as_fold d) = incompatible_states p c ''fold''"
    using d by (auto simp: try_merge_fold_eq split: option.split executed_state.split)
qed

section \<open>Properties\<close>

text \<open>
  C18. \<^verbatim>\<open>compute_lens_convolution\<close> computes the convolution of the lengths by generations: it succeeds
  exactly when every lore has two descriptors, every value position names a stream value and
  all states together fit \<^verbatim>\<open>u32\<close>, and then returns their number and the lengths the specification
  \<open>convolve\<close> gives for every group. Past its own overflow check no addition of the pass
  overflows: the only panic is the one of \<^verbatim>\<open>try_get_generation\<close>.
\<close>

theorem lens_convolution_correct:
  "case compute_lens_convolution fr ctx of
     Ok (n, lens) \<Rightarrow> \<exists>items. lore_items ctx (lore fr) = Some items \<and> states_count items < u32_bound
       \<and> unat n = states_count items
       \<and> map (\<lambda>l. (unat (before_len l), unat (after_len l))) lens = convolve items
   | Err _ \<Rightarrow> \<not> (\<exists>items. lore_items ctx (lore fr) = Some items \<and> states_count items < u32_bound)
   | Panic \<Rightarrow> \<exists>l. l \<in> set (lore fr) \<and> try_get_generation ctx (value_pos l) = Panic"
proof -
  have "map ((\<lambda>l. (unat (before_len l), unat (after_len l))) \<circ> to_lens) (convolve items) = convolve items"
    if "states_count items < u32_bound" for items :: "(generation_idx \<times> nat \<times> nat) list"
  proof (rule map_idI)
    fix x assume "x \<in> set (convolve items)"
    then have "fst x < u32_bound" "snd x < u32_bound"
      using convolve_bounds [of x items] that by auto
    then show "((\<lambda>l. (unat (before_len l), unat (after_len l))) \<circ> to_lens) x = x"
      by (simp add: to_lens_def)
  qed
  with compute_lens_convolution_spec [of ctx fr] show ?thesis
    by (auto split: result.splits)
qed

text \<open>
  C19. \<^verbatim>\<open>resolve_fold_lore\<close> keys the convolved descriptors by value position: it succeeds exactly on
  the lores of the previous property whose value positions are distinct, maps every position to
  its two begin positions with the convolved lengths, and reports the number of states.
\<close>

theorem resolve_fold_lore_correct:
  "case resolve_fold_lore fr ctx of
     Ok rf \<Rightarrow> \<exists>items. lore_items ctx (lore fr) = Some items \<and> states_count items < u32_bound
       \<and> distinct (map value_pos (lore fr))
       \<and> rf_fold_states_count rf = of_nat (states_count items)
       \<and> rf_lore rf = map_of (zip (map value_pos (lore fr)) (map2 resolved_descs (lore fr) (convolve items)))
   | Err _ \<Rightarrow> \<not> (\<exists>items. lore_items ctx (lore fr) = Some items \<and> states_count items < u32_bound
       \<and> distinct (map value_pos (lore fr)))
   | Panic \<Rightarrow> \<exists>l. l \<in> set (lore fr) \<and> try_get_generation ctx (value_pos l) = Panic"
  by (rule resolve_fold_lore_spec)

text \<open>The two examples in the comment of \<^verbatim>\<open>compute_lens_convolution\<close>.\<close>

definition example_lore :: "(trace_pos \<times> u32 \<times> u32) list \<Rightarrow> fold_result" where
  "example_lore xs = \<lparr>lore = map (\<lambda>(v, b, a). \<lparr>value_pos = v, subtraces_desc =
     [\<lparr>begin_pos = 0, desc_subtrace_len = b\<rparr>, \<lparr>begin_pos = 0, desc_subtrace_len = a\<rparr>]\<rparr>) xs\<rparr>"

definition example_ctx :: "generation_idx list \<Rightarrow> merge_ctx" where
  "example_ctx gs = \<lparr>slider = example_slider (map (\<lambda>g. Ap (ap_result_new g)) gs)\<rparr>"

lemma convolution_doc_examples:
  "map_option convolve (lore_items (example_ctx [0, 1, 2]) (lore (example_lore
     [(0, 1, 1), (0, 2, 2), (0, 3, 3)]))) = Some [(12, 1), (11, 3), (9, 6)]"
  "map_option convolve (lore_items (example_ctx [0, 1, 2]) (lore (example_lore
     [(0, 1, 1), (0, 2, 2), (0, 3, 3), (1, 4, 4), (1, 5, 5), (2, 1, 1)])))
   = Some [(12, 1), (11, 3), (9, 6), (18, 4), (14, 9), (2, 1)]"
  by code_simp+

lemma lens_convolution_correct_witness:
  "\<exists>n lens. compute_lens_convolution (example_lore [(0, 1, 1), (0, 2, 2), (0, 3, 3)]) (example_ctx [0]) = Ok (n, lens)
     \<and> unat n = 12 \<and> map (\<lambda>l. (unat (before_len l), unat (after_len l))) lens = [(12, 1), (11, 3), (9, 6)]"
proof -
  have items: "lore_items (example_ctx [0]) (lore (example_lore [(0, 1, 1), (0, 2, 2), (0, 3, 3)]))
      = Some [(0, 1, 1), (0, 2, 2), (0, 3, 3)]"
    by code_simp
  have spec: "convolve [(0 :: generation_idx, 1, 1), (0, 2, 2), (0, 3, 3)] = [(12, 1), (11, 3), (9, 6)]"
    "states_count [(0 :: generation_idx, 1, 1), (0, 2, 2), (0, 3, 3)] = 12"
    by code_simp+
  have "\<not> (\<exists>l. l \<in> set (lore (example_lore [(0, 1, 1), (0, 2, 2), (0, 3, 3)]))
      \<and> try_get_generation (example_ctx [0]) (value_pos l) = Panic)"
    by (auto simp: example_lore_def example_ctx_def example_slider_def try_get_generation_def
        state_at_position_def trace_get_def index_vec_def ap_result_new_def)
  then show ?thesis
    using lens_convolution_correct [of "example_ctx [0]" "example_lore [(0, 1, 1), (0, 2, 2), (0, 3, 3)]"]
    by (auto simp: items spec simp del: convolve.simps One_nat_def split: result.splits)
qed

end
