(* ===== verification/Par_Fsm.thy ===== *)
theory Par_Fsm
  imports Fold_Lore
begin

text \<open>
  \<^verbatim>\<open>trace-handler/src/state_automata\<close>: the errors of the automata (\<^verbatim>\<open>errors.rs\<close>), the states that
  sliders get when a subgraph ends (\<^verbatim>\<open>utils.rs\<close>), the placeholder that reserves a position of
  the result trace (\<^verbatim>\<open>state_inserter.rs\<close>), and the automaton of a par (\<^verbatim>\<open>par_fsm.rs\<close> with
  \<^verbatim>\<open>par_builder.rs\<close>, \<^verbatim>\<open>state_handler.rs\<close> and \<^verbatim>\<open>new_states_calculation.rs\<close>).

  A method that mutates the automaton and the keeper is a computation on the keeper that
  returns the automaton. \<^verbatim>\<open>let _ = ...\<close> on a fallible call is \<open>ignore_result\<close>. The \<^verbatim>\<open>assert!\<close> of
  \<^verbatim>\<open>compute_new_state\<close> compares the sizes of two integer types and always holds.
\<close>

section \<open>Errors and slider states\<close>

datatype state_fsm_error =
    ParQueueIsEmpty
  | FoldFSMNotFound u32
  | ParLenOverflow par_result
  | ParPosOverflow par_result trace_pos merge_ctx_type
  | ParLenUnderflow par_result trace_len merge_ctx_type
  | FoldPosOverflow resolved_fold trace_pos merge_ctx_type
  | FoldLenUnderflow resolved_fold trace_pos merge_ctx_type
  | FsmKeeperError keeper_error

record ctx_state =
  st_pos :: trace_pos
  st_subtrace_len :: trace_len

record ctx_states_pair =
  prev_state :: ctx_state
  current_state :: ctx_state

definition ctx_state_new :: "trace_pos \<Rightarrow> trace_len \<Rightarrow> ctx_state" where
  "ctx_state_new pos len = \<lparr>st_pos = pos, st_subtrace_len = len\<rparr>"

definition update_ctx_state :: "ctx_state \<Rightarrow> (trace_slider, unit, state_fsm_error) comp" where
  "update_ctx_state self = map_err FsmKeeperError (set_position_and_len (st_pos self) (st_subtrace_len self))"

definition update_ctx_states :: "ctx_states_pair \<Rightarrow> ('bm data_keeper, unit, state_fsm_error) comp" where
  "update_ctx_states state_pair =
     and_then (ignore_result (prev_slider_mut (update_ctx_state (prev_state state_pair)))) (\<lambda>_.
     ignore_result (current_slider_mut (update_ctx_state (current_state state_pair))))"

section \<open>State inserter\<close>

record state_inserter =
  si_position :: trace_pos

definition state_inserter_from_keeper :: "('bm data_keeper, state_inserter, state_fsm_error) comp" where
  "state_inserter_from_keeper =
     and_then (gets id) (\<lambda>data_keeper.
     and_then (lift (result_trace_next_pos data_keeper)) (\<lambda>position.
     and_then (modify (\<lambda>d. d\<lparr>result_trace := trace_push (result_trace d) (executed_state_par 0 0)\<rparr>)) (\<lambda>_.
     ret \<lparr>si_position = position\<rparr>)))"

definition state_inserter_insert :: "state_inserter \<Rightarrow> executed_state \<Rightarrow> ('bm data_keeper, unit, state_fsm_error) comp" where
  "state_inserter_insert self state =
     and_then (gets id) (\<lambda>data_keeper.
     and_then (lift (trace_index_set (result_trace data_keeper) (si_position self) state)) (\<lambda>trace.
     modify (\<lambda>d. d\<lparr>result_trace := trace\<rparr>)))"

section \<open>Par automaton\<close>

datatype subgraph_type = SubgraphLeft | SubgraphRight

record par_builder =
  saved_states_count :: nat
  left_subgraph_size :: nat
  right_subgraph_size :: nat

definition par_builder_from_keeper :: "'bm data_keeper \<Rightarrow> par_builder" where
  "par_builder_from_keeper data_keeper =
     \<lparr>saved_states_count = result_states_count data_keeper, left_subgraph_size = 0, right_subgraph_size = 0\<rparr>"

definition par_builder_track ::
    "par_builder \<Rightarrow> 'bm data_keeper \<Rightarrow> subgraph_type \<Rightarrow> (par_builder, state_fsm_error) result" where
  "par_builder_track self data_keeper subgraph =
     (let prev_states_count = saved_states_count self;
          states_count = result_states_count data_keeper in
      if states_count < prev_states_count then Panic
      else let resulted_states_count = states_count - prev_states_count;
               self = (case subgraph of
                   SubgraphLeft \<Rightarrow> self\<lparr>left_subgraph_size := resulted_states_count\<rparr>
                 | SubgraphRight \<Rightarrow> self\<lparr>right_subgraph_size := resulted_states_count\<rparr>)
           in Ok (self\<lparr>saved_states_count := length (result_trace data_keeper)\<rparr>))"

definition par_builder_build :: "par_builder \<Rightarrow> executed_state" where
  "par_builder_build self = executed_state_par (left_subgraph_size self) (right_subgraph_size self)"

record ctx_state_handler =
  left_pair :: ctx_states_pair
  right_pair :: ctx_states_pair

definition par_compute_new_state ::
    "par_result \<Rightarrow> subgraph_type \<Rightarrow> trace_slider \<Rightarrow> (ctx_state, state_fsm_error) result" where
  "par_compute_new_state par subgraph sl =
     res_then (case subgraph of
         SubgraphLeft \<Rightarrow> Ok (left_size par)
       | SubgraphRight \<Rightarrow> ok_or (ParLenOverflow par) (par_size par)) (\<lambda>par_subgraph_len.
     res_then (ok_or (ParPosOverflow par (ts_position sl) CtxPrevious)
         (checked_add (ts_position sl) par_subgraph_len)) (\<lambda>new_position.
     res_then (case subgraph of
         SubgraphLeft \<Rightarrow> Ok par_subgraph_len
       | SubgraphRight \<Rightarrow> res_then (slider_subtrace_len sl) (\<lambda>len.
           ok_or (ParLenUnderflow par len CtxCurrent) (checked_sub len par_subgraph_len)))
       (\<lambda>new_subtrace_len.
     Ok (ctx_state_new new_position new_subtrace_len))))"

definition compute_new_states ::
    "'bm data_keeper \<Rightarrow> par_result \<Rightarrow> par_result \<Rightarrow> subgraph_type
       \<Rightarrow> (ctx_states_pair, state_fsm_error) result" where
  "compute_new_states data_keeper p_par c_par subgraph =
     res_then (par_compute_new_state p_par subgraph (prev_slider data_keeper)) (\<lambda>p.
     res_then (par_compute_new_state c_par subgraph (current_slider data_keeper)) (\<lambda>c.
     Ok \<lparr>prev_state = p, current_state = c\<rparr>))"

definition par_state_handler_prepare ::
    "par_result \<Rightarrow> par_result \<Rightarrow> 'bm data_keeper \<Rightarrow> (ctx_state_handler, state_fsm_error) result" where
  "par_state_handler_prepare p_par c_par data_keeper =
     res_then (compute_new_states data_keeper p_par c_par SubgraphLeft) (\<lambda>left.
     res_then (compute_new_states data_keeper p_par c_par SubgraphRight) (\<lambda>right.
     Ok \<lparr>left_pair = left, right_pair = right\<rparr>))"

definition handle_subgraph_end :: "ctx_state_handler \<Rightarrow> subgraph_type \<Rightarrow> ('bm data_keeper, unit, state_fsm_error) comp" where
  "handle_subgraph_end self subgraph =
     (case subgraph of
        SubgraphLeft \<Rightarrow> update_ctx_states (left_pair self)
      | SubgraphRight \<Rightarrow> update_ctx_states (right_pair self))"

record par_fsm =
  pf_prev_par :: par_result
  pf_current_par :: par_result
  pf_state_inserter :: state_inserter
  pf_state_handler :: ctx_state_handler
  pf_par_builder :: par_builder

definition prepare_sliders :: "par_fsm \<Rightarrow> subgraph_type \<Rightarrow> ('bm data_keeper, unit, state_fsm_error) comp" where
  "prepare_sliders self subgraph =
     (let (prev_len, current_len) = (case subgraph of
          SubgraphLeft \<Rightarrow> (left_size (pf_prev_par self), left_size (pf_current_par self))
        | SubgraphRight \<Rightarrow> (right_size (pf_prev_par self), right_size (pf_current_par self))) in
      and_then (map_err FsmKeeperError (prev_slider_mut (set_subtrace_len prev_len))) (\<lambda>_.
      map_err FsmKeeperError (current_slider_mut (set_subtrace_len current_len))))"

definition from_left_started :: "merger_par_result \<Rightarrow> ('bm data_keeper, par_fsm, state_fsm_error) comp" where
  "from_left_started ingredients =
     (let prev = (case prev_par ingredients of None \<Rightarrow> par_result_default | Some p \<Rightarrow> p);
          current = (case current_par ingredients of None \<Rightarrow> par_result_default | Some p \<Rightarrow> p) in
      and_then state_inserter_from_keeper (\<lambda>inserter.
      and_then (gets id) (\<lambda>data_keeper.
      and_then (lift (par_state_handler_prepare prev current data_keeper)) (\<lambda>handler.
      let par_fsm = \<lparr>pf_prev_par = prev, pf_current_par = current, pf_state_inserter = inserter,
                     pf_state_handler = handler, pf_par_builder = par_builder_from_keeper data_keeper\<rparr> in
      and_then (prepare_sliders par_fsm SubgraphLeft) (\<lambda>_.
      ret par_fsm)))))"

definition left_completed :: "par_fsm \<Rightarrow> ('bm data_keeper, par_fsm, state_fsm_error) comp" where
  "left_completed self =
     and_then (gets id) (\<lambda>data_keeper.
     and_then (lift (par_builder_track (pf_par_builder self) data_keeper SubgraphLeft)) (\<lambda>builder.
     let self = self\<lparr>pf_par_builder := builder\<rparr> in
     and_then (handle_subgraph_end (pf_state_handler self) SubgraphLeft) (\<lambda>_.
     and_then (ignore_result (prepare_sliders self SubgraphRight)) (\<lambda>_.
     ret self))))"

definition right_completed :: "par_fsm \<Rightarrow> ('bm data_keeper, unit, state_fsm_error) comp" where
  "right_completed self =
     and_then (gets id) (\<lambda>data_keeper.
     and_then (lift (par_builder_track (pf_par_builder self) data_keeper SubgraphRight)) (\<lambda>builder.
     let self = self\<lparr>pf_par_builder := builder\<rparr>; state = par_builder_build (pf_par_builder self) in
     and_then (state_inserter_insert (pf_state_inserter self) state) (\<lambda>_.
     handle_subgraph_end (pf_state_handler self) SubgraphRight)))"

section \<open>The states computed for a slider\<close>

text \<open>The sizes of a par state fit the window of the slider it was read from.\<close>

definition par_fits :: "par_result \<Rightarrow> trace_slider \<Rightarrow> bool" where
  "par_fits p s \<longleftrightarrow> unat (left_size p) + unat (right_size p) \<le> window_len s"

abbreviation par_len :: "par_result \<Rightarrow> nat" where
  "par_len p \<equiv> unat (left_size p) + unat (right_size p)"

lemma window_in_trace:
  assumes "slider_in_trace s"
  shows "unat (ts_position s) + window_len s \<le> length (ts_trace s)" "length (ts_trace s) < u32_bound"
  using assms by (cases "window_len s = 0"; simp add: slider_in_trace_def slider_wf_def)+

lemma slider_subtrace_len_eq:
  "slider_wf s \<Longrightarrow> slider_subtrace_len s = Ok (ts_subtrace_len s - ts_seen_elements s)"
  by (simp add: slider_subtrace_len_Ok)

lemma unat_window_len: "slider_wf s \<Longrightarrow> unat (ts_subtrace_len s - ts_seen_elements s) = window_len s"
  using slider_subtrace_len_Ok by blast

lemma new_state_right:
  assumes "slider_in_trace s" "par_fits p s"
  shows "\<exists>st. par_compute_new_state p SubgraphRight s = Ok st
    \<and> unat (st_pos st) = unat (ts_position s) + par_len p \<and> unat (st_subtrace_len st) = window_len s - par_len p"
proof -
  note w = window_in_trace [OF assms(1)] and wf = slider_in_trace_wf [OF assms(1)]
  have b: "unat (ts_position s) + par_len p < u32_bound" "par_len p < u32_bound" "par_len p \<le> window_len s"
    using assms(2) w by (auto simp: par_fits_def)
  then have "unat (left_size p + right_size p) = par_len p" by (simp add: unat_add_u32)
  with b wf show ?thesis
    by (simp add: par_compute_new_state_def par_size_def checked_add_def checked_sub_def u32_unat
        ctx_state_new_def slider_subtrace_len_eq unat_window_len)
qed

lemma new_state_right_Err:
  assumes "slider_in_trace s" "\<not> par_fits p s"
  shows "\<exists>e. par_compute_new_state p SubgraphRight s = Err e"
  using assms slider_in_trace_wf [OF assms(1)]
  by (auto simp: par_compute_new_state_def par_size_def checked_add_def checked_sub_def u32_le_unat
      par_fits_def unat_add_u32 slider_subtrace_len_eq unat_window_len)

lemma new_state_left:
  assumes "slider_in_trace s" "par_fits p s"
  shows "\<exists>st. par_compute_new_state p SubgraphLeft s = Ok st
    \<and> unat (st_pos st) = unat (ts_position s) + unat (left_size p) \<and> st_subtrace_len st = left_size p"
proof -
  have "unat (ts_position s) + unat (left_size p) < u32_bound"
    using assms(2) window_in_trace [OF assms(1)] by (auto simp: par_fits_def)
  then show ?thesis
    by (simp add: par_compute_new_state_def checked_add_def ctx_state_new_def unat_add_u32)
qed

lemma new_state_left_no_panic: "par_compute_new_state p SubgraphLeft s \<noteq> Panic"
  by (auto simp: par_compute_new_state_def checked_add_def)

text \<open>
  At the end of the right subgraph the slider stands behind the par, whatever the subgraphs did
  to it.
\<close>

lemma state_restores:
  assumes "slider_in_trace s0" "k \<le> window_len s0"
    and "unat (st_pos st) = unat (ts_position s0) + k" "unat (st_subtrace_len st) = window_len s0 - k"
    and "ts_trace s = ts_trace s0"
  shows "\<exists>s'. update_ctx_state st s = (Ok (), s') \<and> slider_in_trace s' \<and> ts_trace s' = ts_trace s0
    \<and> unat (ts_position s') = unat (ts_position s0) + k \<and> remaining s' = drop k (remaining s0)
    \<and> window_len s' = window_len s0 - k"
proof -
  note w = window_in_trace [OF assms(1)] and st = assms(3,4)
  let ?s = "s\<lparr>ts_position := st_pos st, ts_subtrace_len := st_subtrace_len st, ts_seen_elements := 0\<rparr>"
  have fits: "unat (st_pos st) + unat (st_subtrace_len st) \<le> length (ts_trace s)"
    using st w(1) assms(2,5) by simp
  then have "update_ctx_state st s = (Ok (), ?s)"
    using w(2) assms(5) by (simp add: update_ctx_state_def map_err_def set_position_and_len_eq)
  moreover note wf = set_position_wf [of s "st_subtrace_len st" "st_pos st"]
  moreover have "remaining ?s = drop k (remaining s0)"
    using wf(3) fits w(2) assms(5) st by (simp add: remaining_def drop_take add.commute)
  ultimately show ?thesis
    using fits w(2) assms(5) st by (simp add: slider_in_trace_def)
qed

lemma right_state_restores:
  assumes "slider_in_trace s0" "par_fits p s0" "par_compute_new_state p SubgraphRight s0 = Ok st"
    and "ts_trace s = ts_trace s0"
  shows "\<exists>s'. update_ctx_state st s = (Ok (), s') \<and> slider_in_trace s' \<and> ts_trace s' = ts_trace s0
    \<and> unat (ts_position s') = unat (ts_position s0) + par_len p \<and> remaining s' = drop (par_len p) (remaining s0)
    \<and> window_len s' = window_len s0 - par_len p"
  using new_state_right [OF assms(1,2)] assms(2,3) state_restores [OF assms(1) _ _ _ assms(4), of "par_len p" st]
  by (auto simp: par_fits_def)

text \<open>
  At the end of the left subgraph the saved state is only applied when a window of \<^verbatim>\<open>left_size\<close>
  states fits behind the left subgraph; otherwise the failed update is ignored, and the slider
  is where the subgraph left it.
\<close>

definition left_handled :: "par_result \<Rightarrow> trace_slider \<Rightarrow> trace_slider \<Rightarrow> bool" where
  "left_handled p s0 s \<longleftrightarrow>
     unat (ts_position s0) + 2 * unat (left_size p) \<le> length (ts_trace s0)
     \<or> unat (ts_position s) = unat (ts_position s0) + unat (left_size p)"

lemma left_state_update:
  assumes "slider_in_trace s0" "par_fits p s0" "2 * length (ts_trace s0) < u32_bound"
    and "par_compute_new_state p SubgraphLeft s0 = Ok st"
    and "ts_trace s = ts_trace s0" "left_handled p s0 s"
  shows "\<exists>r s'. update_ctx_state st s = (r, s') \<and> r \<noteq> Panic \<and> ts_trace s' = ts_trace s0
    \<and> unat (ts_position s') = unat (ts_position s0) + unat (left_size p)"
proof -
  note w = window_in_trace [OF assms(1)]
  from new_state_left [OF assms(1,2)] assms(4)
  have st: "unat (st_pos st) = unat (ts_position s0) + unat (left_size p)" "st_subtrace_len st = left_size p"
    by auto
  have "unat (st_pos st) + unat (left_size p) < u32_bound"
    using st w assms(2,3) by (simp add: par_fits_def)
  then show ?thesis
    using st w(2) assms(5,6)
    by (auto simp: update_ctx_state_def map_err_def set_position_and_len_eq left_handled_def)
qed

lemma left_state_ignored:
  assumes "slider_in_trace s0" "par_fits p s0" "2 * length (ts_trace s0) < u32_bound"
    and "length (ts_trace s0) < unat (ts_position s0) + 2 * unat (left_size p)"
    and "par_compute_new_state p SubgraphLeft s0 = Ok st" "ts_trace s = ts_trace s0"
  shows "\<exists>e. update_ctx_state st s = (Err e, s)"
proof -
  note w = window_in_trace [OF assms(1)]
  from new_state_left [OF assms(1,2)] assms(5)
  have st: "unat (st_pos st) = unat (ts_position s0) + unat (left_size p)" "st_subtrace_len st = left_size p"
    by auto
  have "unat (st_pos st) + unat (left_size p) < u32_bound" "left_size p \<noteq> 0"
    using st w assms(2,3,4) by (auto simp: par_fits_def)
  then show ?thesis
    using st w assms(4,6) by (simp add: update_ctx_state_def map_err_def set_position_and_len_eq)
qed

lemma set_len_window:
  assumes "unat (ts_position s) + unat n \<le> length (ts_trace s)" "length (ts_trace s) < u32_bound"
  shows "\<exists>s'. set_subtrace_len n s = (Ok (), s') \<and> slider_in_trace s' \<and> ts_trace s' = ts_trace s
    \<and> ts_position s' = ts_position s \<and> remaining s' = take (unat n) (drop (unat (ts_position s)) (ts_trace s))"
  using assms
  by (auto simp: set_subtrace_len_eq slider_in_trace_def slider_wf_def window_len_def remaining_def)

section \<open>The automaton on the keeper\<close>

definition keeper_in_trace :: "'bm data_keeper \<Rightarrow> bool" where
  "keeper_in_trace d \<longleftrightarrow> slider_in_trace (prev_slider d) \<and> slider_in_trace (current_slider d)"

definition same_traces :: "'bm data_keeper \<Rightarrow> 'bm data_keeper \<Rightarrow> bool" where
  "same_traces d d' \<longleftrightarrow> ts_trace (prev_slider d') = ts_trace (prev_slider d)
     \<and> ts_trace (current_slider d') = ts_trace (current_slider d)"

definition same_maps :: "'bm data_keeper \<Rightarrow> 'bm data_keeper \<Rightarrow> bool" where
  "same_maps d d' \<longleftrightarrow> new_to_prev_pos d' = new_to_prev_pos d \<and> new_to_current_pos d' = new_to_current_pos d"

text \<open>The slider \<open>s'\<close> shows the \<open>n\<close> states that start \<open>k\<close> states into the window of \<open>s\<close>.\<close>

definition shows_window :: "nat \<Rightarrow> nat \<Rightarrow> trace_slider \<Rightarrow> trace_slider \<Rightarrow> bool" where
  "shows_window k n s s' \<longleftrightarrow> slider_in_trace s' \<and> ts_trace s' = ts_trace s
     \<and> unat (ts_position s') = unat (ts_position s) + k \<and> remaining s' = take n (drop k (remaining s))"

definition both_show :: "nat \<times> nat \<Rightarrow> nat \<times> nat \<Rightarrow> 'bm data_keeper \<Rightarrow> 'bm data_keeper \<Rightarrow> bool" where
  "both_show p c d d' \<longleftrightarrow> shows_window (fst p) (snd p) (prev_slider d) (prev_slider d')
     \<and> shows_window (fst c) (snd c) (current_slider d) (current_slider d')"

text \<open>An automaton that was started on the keeper \<open>d\<close> for the par states \<open>p\<close> and \<open>c\<close>.\<close>

definition par_started :: "par_result \<Rightarrow> par_result \<Rightarrow> 'bm data_keeper \<Rightarrow> par_fsm \<Rightarrow> bool" where
  "par_started p c d f \<longleftrightarrow> pf_prev_par f = p \<and> pf_current_par f = c
     \<and> si_position (pf_state_inserter f) = of_nat (length (result_trace d))
     \<and> par_state_handler_prepare p c d = Ok (pf_state_handler f)
     \<and> par_fits p (prev_slider d) \<and> par_fits c (current_slider d)"

lemma keeper_in_trace_wf: "keeper_in_trace d \<Longrightarrow> keeper_wf d"
  by (simp add: keeper_in_trace_def keeper_wf_def slider_in_trace_wf)

lemma par_state_handler_prepare_cong:
  "prev_slider d' = prev_slider d \<Longrightarrow> current_slider d' = current_slider d \<Longrightarrow>
     par_state_handler_prepare p c d' = par_state_handler_prepare p c d"
  by (simp add: par_state_handler_prepare_def compute_new_states_def)

lemma prepare_OkD:
  assumes "par_state_handler_prepare p c d = Ok h"
  shows "par_compute_new_state p SubgraphLeft (prev_slider d) = Ok (prev_state (left_pair h))"
    "par_compute_new_state c SubgraphLeft (current_slider d) = Ok (current_state (left_pair h))"
    "par_compute_new_state p SubgraphRight (prev_slider d) = Ok (prev_state (right_pair h))"
    "par_compute_new_state c SubgraphRight (current_slider d) = Ok (current_state (right_pair h))"
  using assms unfolding par_state_handler_prepare_def compute_new_states_def
  by (cases "par_compute_new_state p SubgraphLeft (prev_slider d)";
      cases "par_compute_new_state c SubgraphLeft (current_slider d)";
      cases "par_compute_new_state p SubgraphRight (prev_slider d)";
      cases "par_compute_new_state c SubgraphRight (current_slider d)"; auto)+

lemma prepare_Ok:
  assumes "keeper_in_trace d" "par_fits p (prev_slider d)" "par_fits c (current_slider d)"
  shows "\<exists>h. par_state_handler_prepare p c d = Ok h"
proof -
  have "slider_in_trace (prev_slider d)" "slider_in_trace (current_slider d)"
    using assms(1) by (auto simp: keeper_in_trace_def)
  then show ?thesis
    using new_state_left [OF _ assms(2)] new_state_left [OF _ assms(3)]
      new_state_right [OF _ assms(2)] new_state_right [OF _ assms(3)]
    by (auto simp: par_state_handler_prepare_def compute_new_states_def)
qed

lemma set_len_shows:
  assumes "slider_in_trace s0" "ts_trace s = ts_trace s0" "unat (ts_position s) = unat (ts_position s0) + k"
    and "k + unat n \<le> window_len s0"
  shows "\<exists>s'. set_subtrace_len n s = (Ok (), s') \<and> shows_window k (unat n) s0 s'"
proof -
  note w = window_in_trace [OF assms(1)]
  have "unat (ts_position s) + unat n \<le> length (ts_trace s)"
    using w assms(2-4) by simp
  moreover have "take (unat n) (drop (unat (ts_position s)) (ts_trace s)) = take (unat n) (drop k (remaining s0))"
    using assms(2-4) by (simp add: remaining_def drop_take min_def add.commute)
  ultimately show ?thesis
    using set_len_window [of s n] w(2) assms(2,3) by (auto simp: shows_window_def)
qed

lemma sliders_set_len:
  assumes "slider_in_trace (prev_slider d)" "slider_in_trace (current_slider d)" "same_traces d d'"
    and "unat (ts_position (prev_slider d')) = unat (ts_position (prev_slider d)) + k"
    and "unat (ts_position (current_slider d')) = unat (ts_position (current_slider d)) + l"
    and "k + unat m \<le> window_len (prev_slider d)" "l + unat n \<le> window_len (current_slider d)"
  shows "\<exists>d''. and_then (map_err FsmKeeperError (prev_slider_mut (set_subtrace_len m))) (\<lambda>_.
      map_err FsmKeeperError (current_slider_mut (set_subtrace_len n))) d' = (Ok (), d'')
    \<and> both_show (k, unat m) (l, unat n) d d'' \<and> result_trace d'' = result_trace d' \<and> same_maps d' d''"
proof -
  obtain s where s: "set_subtrace_len m (prev_slider d') = (Ok (), s)" "shows_window k (unat m) (prev_slider d) s"
    using set_len_shows [OF assms(1) _ assms(4,6)] assms(3) by (auto simp: same_traces_def)
  obtain t where t: "set_subtrace_len n (current_slider d') = (Ok (), t)" "shows_window l (unat n) (current_slider d) t"
    using set_len_shows [OF assms(2) _ assms(5,7)] assms(3) by (auto simp: same_traces_def)
  from s t show ?thesis
    by (auto simp: and_then_def map_err_def prev_slider_mut_eq current_slider_mut_eq both_show_def same_maps_def)
qed

lemma par_start:
  assumes "keeper_in_trace d" "length (result_trace d) < u32_bound"
    and "p = (case prev_par ing of None \<Rightarrow> par_result_default | Some p \<Rightarrow> p)"
    and "c = (case current_par ing of None \<Rightarrow> par_result_default | Some p \<Rightarrow> p)"
    and "par_fits p (prev_slider d)" "par_fits c (current_slider d)"
  shows "\<exists>f d1. from_left_started ing d = (Ok f, d1) \<and> par_started p c d f
    \<and> pf_par_builder f = \<lparr>saved_states_count = Suc (length (result_trace d)), left_subgraph_size = 0, right_subgraph_size = 0\<rparr>
    \<and> result_trace d1 = result_trace d @ [executed_state_par 0 0] \<and> same_maps d d1
    \<and> both_show (0, unat (left_size p)) (0, unat (left_size c)) d d1"
proof -
  let ?d = "d\<lparr>result_trace := result_trace d @ [executed_state_par 0 0]\<rparr>"
  obtain h where h: "par_state_handler_prepare p c ?d = Ok h"
    using prepare_Ok [OF assms(1,5,6)] par_state_handler_prepare_cong [of ?d d] by auto
  let ?f = "\<lparr>pf_prev_par = p, pf_current_par = c, pf_state_inserter = \<lparr>si_position = of_nat (length (result_trace d))\<rparr>,
     pf_state_handler = h, pf_par_builder = par_builder_from_keeper ?d\<rparr>"
  have ins: "state_inserter_from_keeper d = (Ok \<lparr>si_position = of_nat (length (result_trace d))\<rparr>, ?d)"
    using assms(2) by (simp add: state_inserter_from_keeper_def and_then_lift result_trace_next_pos_Ok trace_push_def)
  have "\<exists>d''. prepare_sliders ?f SubgraphLeft ?d = (Ok (), d'')
      \<and> both_show (0, unat (left_size p)) (0, unat (left_size c)) ?d d'' \<and> result_trace d'' = result_trace ?d
      \<and> same_maps ?d d''"
    using sliders_set_len [of ?d ?d 0 0 "left_size p" "left_size c"] assms
    by (simp add: prepare_sliders_def keeper_in_trace_def same_traces_def par_fits_def)
  then show ?thesis
    using ins h assms par_state_handler_prepare_cong [of ?d d]
    by (auto simp: from_left_started_def Let_def and_then_Ok and_then_lift par_started_def both_show_def
        same_maps_def par_builder_from_keeper_def result_states_count_def)
qed

lemma update_ctx_states_eq:
  assumes "update_ctx_state (prev_state sp) (prev_slider d) = (r, s)" "r \<noteq> Panic"
    and "update_ctx_state (current_state sp) (current_slider d) = (q, t)" "q \<noteq> Panic"
  shows "update_ctx_states sp d = (Ok (), d\<lparr>prev_ctx := \<lparr>slider = s\<rparr>, current_ctx := \<lparr>slider = t\<rparr>\<rparr>)"
  using assms
  by (cases r; cases q)
    (simp_all add: update_ctx_states_def and_then_def ignore_result_def prev_slider_mut_eq current_slider_mut_eq)

lemma par_left:
  assumes "keeper_in_trace d" "par_started p c d f" "same_traces d d2"
    and "2 * length (ts_trace (prev_slider d)) < u32_bound" "2 * length (ts_trace (current_slider d)) < u32_bound"
    and "left_handled p (prev_slider d) (prev_slider d2)" "left_handled c (current_slider d) (current_slider d2)"
    and "saved_states_count (pf_par_builder f) \<le> length (result_trace d2)"
  shows "\<exists>d3. left_completed f d2 = (Ok (f\<lparr>pf_par_builder := (pf_par_builder f)
      \<lparr>left_subgraph_size := length (result_trace d2) - saved_states_count (pf_par_builder f),
       saved_states_count := length (result_trace d2)\<rparr>\<rparr>), d3)
    \<and> result_trace d3 = result_trace d2 \<and> same_maps d2 d3
    \<and> both_show (unat (left_size p), unat (right_size p)) (unat (left_size c), unat (right_size c)) d d3"
proof -
  have sl: "slider_in_trace (prev_slider d)" "slider_in_trace (current_slider d)"
    using assms(1) by (auto simp: keeper_in_trace_def)
  have f: "pf_prev_par f = p" "pf_current_par f = c" "par_state_handler_prepare p c d = Ok (pf_state_handler f)"
      "par_fits p (prev_slider d)" "par_fits c (current_slider d)"
    using assms(2) by (auto simp: par_started_def)
  note h = prepare_OkD [OF f(3)]
  obtain r s where s: "update_ctx_state (prev_state (left_pair (pf_state_handler f))) (prev_slider d2) = (r, s)" "r \<noteq> Panic"
      "ts_trace s = ts_trace (prev_slider d)" "unat (ts_position s) = unat (ts_position (prev_slider d)) + unat (left_size p)"
    using left_state_update [OF sl(1) f(4) assms(4) h(1) _ assms(6)] assms(3) by (auto simp: same_traces_def)
  obtain q t where t: "update_ctx_state (current_state (left_pair (pf_state_handler f))) (current_slider d2) = (q, t)" "q \<noteq> Panic"
      "ts_trace t = ts_trace (current_slider d)" "unat (ts_position t) = unat (ts_position (current_slider d)) + unat (left_size c)"
    using left_state_update [OF sl(2) f(5) assms(5) h(2) _ assms(7)] assms(3) by (auto simp: same_traces_def)
  let ?d = "d2\<lparr>prev_ctx := \<lparr>slider = s\<rparr>, current_ctx := \<lparr>slider = t\<rparr>\<rparr>"
  note upd = update_ctx_states_eq [OF s(1,2) t(1,2)]
  obtain d3 where "and_then (map_err FsmKeeperError (prev_slider_mut (set_subtrace_len (right_size p)))) (\<lambda>_.
      map_err FsmKeeperError (current_slider_mut (set_subtrace_len (right_size c)))) ?d = (Ok (), d3)"
    "both_show (unat (left_size p), unat (right_size p)) (unat (left_size c), unat (right_size c)) d d3"
    "result_trace d3 = result_trace ?d" "same_maps ?d d3"
    using sliders_set_len [OF sl, of ?d "unat (left_size p)" "unat (left_size c)" "right_size p" "right_size c"]
      s(3,4) t(3,4) f(4,5)
    by (auto simp: same_traces_def par_fits_def)
  then show ?thesis
    using upd f(1,2) assms(8)
    by (simp add: left_completed_def and_then_lift par_builder_track_def Let_def result_states_count_def
        handle_subgraph_end_def and_then_Ok prepare_sliders_def ignore_result_def same_maps_def)
qed

lemma par_right:
  assumes "keeper_in_trace d" "par_started p c d f" "same_traces d d4"
    and "saved_states_count (pf_par_builder f) \<le> length (result_trace d4)"
    and "length (result_trace d) < length (result_trace d4)" "length (result_trace d) < u32_bound"
  shows "\<exists>d5. right_completed f d4 = (Ok (), d5)
    \<and> result_trace d5 = (result_trace d4)[length (result_trace d) := executed_state_par
        (left_subgraph_size (pf_par_builder f)) (length (result_trace d4) - saved_states_count (pf_par_builder f))]
    \<and> same_maps d4 d5
    \<and> both_show (par_len p, window_len (prev_slider d)) (par_len c, window_len (current_slider d)) d d5"
proof -
  have sl: "slider_in_trace (prev_slider d)" "slider_in_trace (current_slider d)"
    using assms(1) by (auto simp: keeper_in_trace_def)
  have f: "pf_prev_par f = p" "pf_current_par f = c" "par_state_handler_prepare p c d = Ok (pf_state_handler f)"
      "par_fits p (prev_slider d)" "par_fits c (current_slider d)"
      "unat (si_position (pf_state_inserter f)) = length (result_trace d)"
    using assms(2,6) by (auto simp: par_started_def)
  note h = prepare_OkD [OF f(3)]
  have full: "take (window_len s) (drop k (remaining s)) = drop k (remaining s)" if "slider_in_trace s" for s k
    using length_remaining [OF slider_in_trace_wf [OF that]] by simp
  obtain s where s: "update_ctx_state (prev_state (right_pair (pf_state_handler f))) (prev_slider d4) = (Ok (), s)"
      "shows_window (par_len p) (window_len (prev_slider d)) (prev_slider d) s"
    using right_state_restores [OF sl(1) f(4) h(3), of "prev_slider d4"] assms(3) full [OF sl(1)]
    by (auto simp: same_traces_def shows_window_def)
  obtain t where t: "update_ctx_state (current_state (right_pair (pf_state_handler f))) (current_slider d4) = (Ok (), t)"
      "shows_window (par_len c) (window_len (current_slider d)) (current_slider d) t"
    using right_state_restores [OF sl(2) f(5) h(4), of "current_slider d4"] assms(3) full [OF sl(2)]
    by (auto simp: same_traces_def shows_window_def)
  let ?b = "par_builder_build ((pf_par_builder f)\<lparr>right_subgraph_size := length (result_trace d4) - saved_states_count (pf_par_builder f),
      saved_states_count := length (result_trace d4)\<rparr>)"
  let ?d = "d4\<lparr>result_trace := (result_trace d4)[length (result_trace d) := ?b]\<rparr>"
  have "state_inserter_insert (pf_state_inserter f) ?b d4 = (Ok (), ?d)"
    using f(6) assms(5) by (simp add: state_inserter_insert_def and_then_lift trace_index_set_def)
  moreover have "update_ctx_states (right_pair (pf_state_handler f)) ?d
      = (Ok (), ?d\<lparr>prev_ctx := \<lparr>slider = s\<rparr>, current_ctx := \<lparr>slider = t\<rparr>\<rparr>)"
    using s(1) t(1) by (intro update_ctx_states_eq [where r = "Ok ()" and q = "Ok ()"]) simp_all
  ultimately show ?thesis
    using s(2) t(2) assms(4)
    by (simp add: right_completed_def and_then_lift par_builder_track_def Let_def result_states_count_def
        handle_subgraph_end_def and_then_Ok both_show_def same_maps_def par_builder_build_def)
qed

lemma par_start_fits:
  assumes "keeper_in_trace d" "length (result_trace d) < u32_bound" "from_left_started ing d = (Ok f, d1)"
  shows "par_fits (case prev_par ing of None \<Rightarrow> par_result_default | Some p \<Rightarrow> p) (prev_slider d)"
    "par_fits (case current_par ing of None \<Rightarrow> par_result_default | Some p \<Rightarrow> p) (current_slider d)"
proof -
  let ?p = "case prev_par ing of None \<Rightarrow> par_result_default | Some p \<Rightarrow> p"
    and ?c = "case current_par ing of None \<Rightarrow> par_result_default | Some p \<Rightarrow> p"
    and ?d = "d\<lparr>result_trace := result_trace d @ [executed_state_par 0 0]\<rparr>"
  have "state_inserter_from_keeper d = (Ok \<lparr>si_position = of_nat (length (result_trace d))\<rparr>, ?d)"
    using assms(2) by (simp add: state_inserter_from_keeper_def and_then_lift result_trace_next_pos_Ok trace_push_def)
  then obtain h where "par_state_handler_prepare ?p ?c ?d = Ok h"
    using assms(3) by (auto simp: from_left_started_def Let_def and_then_Ok and_then_lift split: result.splits)
  then have "par_compute_new_state ?p SubgraphRight (prev_slider d) = Ok (prev_state (right_pair h))"
      "par_compute_new_state ?c SubgraphRight (current_slider d) = Ok (current_state (right_pair h))"
    using prepare_OkD(3,4) [of ?p ?c ?d h] by simp_all
  with new_state_right_Err [of "prev_slider d" ?p] new_state_right_Err [of "current_slider d" ?c] assms(1)
  show "par_fits ?p (prev_slider d)" "par_fits ?c (current_slider d)"
    by (auto simp: keeper_in_trace_def)
qed

lemma setters_keep_trace:
  "set_position_and_len p n s = (r, t) \<Longrightarrow> ts_trace t = ts_trace s"
  "set_subtrace_len m s = (q, u) \<Longrightarrow> ts_trace u = ts_trace s"
  by (auto simp: set_position_and_len_def set_subtrace_len_def comp_defs split: result.splits if_splits prod.splits)

lemma update_ctx_states_frame:
  assumes "update_ctx_states sp d = (r, d')"
  shows "same_traces d d'" "same_maps d d'" "result_trace d' = result_trace d"
  using assms setters_keep_trace(1)
  by (fastforce simp: update_ctx_states_def comp_defs update_ctx_state_def prev_slider_mut_eq current_slider_mut_eq
      same_traces_def same_maps_def split: prod.splits result.splits)+

lemma prepare_sliders_frame:
  assumes "prepare_sliders f g d = (r, d')"
  shows "same_traces d d'" "same_maps d d'" "result_trace d' = result_trace d"
  using assms setters_keep_trace(2)
  by (fastforce simp: prepare_sliders_def Let_def and_then_def map_err_def prev_slider_mut_eq current_slider_mut_eq
      same_traces_def same_maps_def split: prod.splits result.splits subgraph_type.splits)+

lemma same_traces_trans: "same_traces a b \<Longrightarrow> same_traces b c \<Longrightarrow> same_traces a c"
  by (simp add: same_traces_def)

lemma same_maps_trans: "same_maps a b \<Longrightarrow> same_maps b c \<Longrightarrow> same_maps a c"
  by (simp add: same_maps_def)

lemma left_completed_frame:
  assumes "left_completed f d = (Ok f', d')"
  shows "same_traces d d'" "same_maps d d'" "result_trace d' = result_trace d"
    "saved_states_count (pf_par_builder f) \<le> length (result_trace d)"
    "f' = f\<lparr>pf_par_builder := (pf_par_builder f)
      \<lparr>left_subgraph_size := length (result_trace d) - saved_states_count (pf_par_builder f),
       saved_states_count := length (result_trace d)\<rparr>\<rparr>"
proof -
  let ?f = "f\<lparr>pf_par_builder := (pf_par_builder f)
      \<lparr>left_subgraph_size := length (result_trace d) - saved_states_count (pf_par_builder f),
       saved_states_count := length (result_trace d)\<rparr>\<rparr>"
  show le: "saved_states_count (pf_par_builder f) \<le> length (result_trace d)"
    using assms by (auto simp: left_completed_def and_then_lift par_builder_track_def Let_def result_states_count_def split: if_splits)
  obtain r d1 where u: "update_ctx_states (left_pair (pf_state_handler f)) d = (r, d1)" by fastforce
  obtain q d2 where p: "prepare_sliders ?f SubgraphRight d1 = (q, d2)" by fastforce
  have "left_completed f d = and_then (update_ctx_states (left_pair (pf_state_handler f))) (\<lambda>_.
      and_then (ignore_result (prepare_sliders ?f SubgraphRight)) (\<lambda>_. ret ?f)) d"
    using le by (simp add: left_completed_def and_then_lift par_builder_track_def Let_def result_states_count_def
        handle_subgraph_end_def)
  then have 1: "update_ctx_states (left_pair (pf_state_handler f)) d = (Ok (), d1)"
      "prepare_sliders ?f SubgraphRight d1 = (q, d')" and f': "f' = ?f"
    using assms u p by (cases r; cases q; simp add: and_then_def ignore_result_def)+
  from f' show "f' = ?f" by simp
  show "same_traces d d'" "same_maps d d'" "result_trace d' = result_trace d"
    using update_ctx_states_frame [OF 1(1)] prepare_sliders_frame [OF 1(2)]
    by (auto simp: same_traces_def same_maps_def)
qed

section \<open>Properties\<close>

text \<open>
  C20. A par, from start to end. When the automaton has started, whatever the two subgraphs do
  to the sliders and however many states \<open>L\<close> and \<open>R\<close> they append to the result trace, also
  when they stop early because of an error caught by xor: at the end both sliders stand exactly
  behind the states of the par they were given, with the rest of their windows, and the result
  trace got the par state with the sizes of \<open>L\<close> and \<open>R\<close> in front of them.
\<close>

theorem par_automaton_completes:
  assumes "keeper_in_trace d" "length (result_trace d) < u32_bound"
    and "from_left_started ing d = (Ok f, d1)"
    and "same_traces d1 d2" "result_trace d2 = result_trace d1 @ L"
    and "left_completed f d2 = (Ok f', d3)"
    and "same_traces d3 d4" "result_trace d4 = result_trace d3 @ R"
    and "p = (case prev_par ing of None \<Rightarrow> par_result_default | Some p \<Rightarrow> p)"
    and "c = (case current_par ing of None \<Rightarrow> par_result_default | Some p \<Rightarrow> p)"
  shows "\<exists>d5. right_completed f' d4 = (Ok (), d5)
    \<and> result_trace d5 = result_trace d @ executed_state_par (length L) (length R) # L @ R
    \<and> shows_window (par_len p) (window_len (prev_slider d)) (prev_slider d) (prev_slider d5)
    \<and> shows_window (par_len c) (window_len (current_slider d)) (current_slider d) (current_slider d5)"
proof -
  have fits: "par_fits p (prev_slider d)" "par_fits c (current_slider d)"
    using par_start_fits [OF assms(1-3)] assms(9,10) by auto
  from par_start [OF assms(1,2,9,10) fits] assms(3)
  have f: "par_started p c d f" "result_trace d1 = result_trace d @ [executed_state_par 0 0]"
      "saved_states_count (pf_par_builder f) = Suc (length (result_trace d))" "same_traces d d1"
    by (auto simp: both_show_def shows_window_def same_traces_def)
  note left = left_completed_frame [OF assms(6)]
  have f': "par_started p c d f'" "saved_states_count (pf_par_builder f') = Suc (length (result_trace d)) + length L"
      "left_subgraph_size (pf_par_builder f') = length L"
    using f left(5) assms(5) by (auto simp: par_started_def)
  have "same_traces d d4"
    using f(4) assms(4) left(1) assms(7) by (blast intro: same_traces_trans)
  from par_right [OF assms(1) f'(1) this] show ?thesis
    using f' assms(2,5,8) f(2) left(3) by (auto simp: both_show_def)
qed

text \<open>A keeper that has just read a par state at the beginning of the previous trace.\<close>

definition example_par :: par_result where
  "example_par = \<lparr>left_size = 2, right_size = 1\<rparr>"

definition example_calls :: "executed_state list" where
  "example_calls = [Call (Failed ''x''), Call (Failed ''y''), Call (Failed ''z'')]"

definition example_par_keeper :: "executed_state list \<Rightarrow> (trace_pos \<Rightarrow> trace_pos option) data_keeper" where
  "example_par_keeper rest = snd (try_merge_next_state_as_par (example_keeper (Par example_par # example_calls @ rest) []))"

definition example_ingredients :: merger_par_result where
  "example_ingredients = \<lparr>prev_par = Some example_par, current_par = None\<rparr>"

lemma example_par_keeper:
  assumes "length rest < 1000"
  shows "keeper_in_trace (example_par_keeper rest)" "result_trace (example_par_keeper rest) = []"
    "remaining (prev_slider (example_par_keeper rest)) = example_calls @ rest"
    "remaining (current_slider (example_par_keeper rest)) = []"
    "ts_position (prev_slider (example_par_keeper rest)) = 1"
    "ts_trace (prev_slider (example_par_keeper rest)) = Par example_par # example_calls @ rest"
    "ts_trace (current_slider (example_par_keeper rest)) = []" "ts_position (current_slider (example_par_keeper rest)) = 0"
proof -
  let ?t = "Par example_par # example_calls @ rest"
  have len: "length ?t < u32_bound" "length ([] :: executed_state list) < u32_bound"
    using assms by (simp_all add: example_calls_def)
  note k = example_keeper_wf [OF len] and e = example_slider_wf [OF len(1)] and e0 = example_slider_wf [OF len(2)]
  have eq: "example_par_keeper rest = step_sliders (example_keeper ?t [])"
    using k by (simp add: example_par_keeper_def try_merge_par_eq)
  have wf: "slider_wf (example_slider ?t)" "remaining (example_slider ?t) = Par example_par # (example_calls @ rest)"
    using e by (simp_all add: slider_in_trace_def)
  note adv = advanced_wf [OF wf]
  have st: "step_slider (example_slider ?t) = advanced (example_slider ?t)" "step_slider (example_slider []) = example_slider []"
    using wf e0 by (simp_all add: step_slider_def)
  show "keeper_in_trace (example_par_keeper rest)"
    using adv e0 by (simp add: eq keeper_in_trace_def k st slider_in_trace_def)
  show "result_trace (example_par_keeper rest) = []"
    by (simp add: eq k)
  show "remaining (prev_slider (example_par_keeper rest)) = example_calls @ rest"
    "remaining (current_slider (example_par_keeper rest)) = []"
    using adv e0 by (simp_all add: eq k st)
  show "ts_position (prev_slider (example_par_keeper rest)) = 1"
    "ts_trace (prev_slider (example_par_keeper rest)) = ?t" "ts_trace (current_slider (example_par_keeper rest)) = []"
    "ts_position (current_slider (example_par_keeper rest)) = 0"
    by (simp_all add: eq k st) (simp_all add: advanced_def example_slider_def)
qed

lemma example_par_fits:
  assumes "length rest < 1000"
  shows "par_fits example_par (prev_slider (example_par_keeper rest))"
    "par_fits par_result_default (current_slider (example_par_keeper rest))"
proof -
  note k = example_par_keeper [OF assms]
  have "slider_wf (prev_slider (example_par_keeper rest))"
    using k(1) by (simp add: keeper_in_trace_def slider_in_trace_wf)
  from length_remaining [OF this] show "par_fits example_par (prev_slider (example_par_keeper rest))"
    using k(3) by (simp add: par_fits_def example_par_def example_calls_def)
  show "par_fits par_result_default (current_slider (example_par_keeper rest))"
    by (simp add: par_fits_def par_result_default_def)
qed

lemma par_automaton_completes_witness:
  "\<exists>f d1 f' d3 d5. from_left_started example_ingredients (example_par_keeper []) = (Ok f, d1)
     \<and> left_completed f (d1\<lparr>result_trace := result_trace d1 @ [Call (Failed ''x''), Call (Failed ''y'')],
          prev_ctx := \<lparr>slider = (prev_slider d1)\<lparr>ts_position := 3\<rparr>\<rparr>\<rparr>) = (Ok f', d3)
     \<and> right_completed f' d3 = (Ok (), d5)
     \<and> result_trace d5 = [executed_state_par 2 0, Call (Failed ''x''), Call (Failed ''y'')]"
proof -
  let ?d = "example_par_keeper []" and ?L = "[Call (Failed ''x''), Call (Failed ''y'')]"
  note k = example_par_keeper [of "[]", simplified] and fits = example_par_fits [of "[]", simplified]
  obtain f d1 where s: "from_left_started example_ingredients ?d = (Ok f, d1)" "par_started example_par par_result_default ?d f"
      "result_trace d1 = result_trace ?d @ [executed_state_par 0 0]"
      "saved_states_count (pf_par_builder f) = Suc (length (result_trace ?d))"
      "both_show (0, unat (left_size example_par)) (0, unat (left_size par_result_default)) ?d d1"
    using par_start [OF k(1) _ _ _ fits, of example_ingredients] k(2) by (auto simp: example_ingredients_def)
  let ?d2 = "d1\<lparr>result_trace := result_trace d1 @ ?L, prev_ctx := \<lparr>slider = (prev_slider d1)\<lparr>ts_position := 3\<rparr>\<rparr>\<rparr>"
  have tr: "same_traces d1 ?d2" "same_traces ?d d1"
    using s(5) by (auto simp: same_traces_def both_show_def shows_window_def)
  then have tr2: "same_traces ?d ?d2" by (simp add: same_traces_def)
  have "\<exists>f' d3. left_completed f ?d2 = (Ok f', d3)"
    using par_left [OF k(1) s(2) tr2] k s(3,4)
    by (auto simp: example_calls_def left_handled_def example_par_def par_result_default_def)
  then obtain f' d3 where l: "left_completed f ?d2 = (Ok f', d3)" by blast
  have "\<exists>d5. right_completed f' d3 = (Ok (), d5)
      \<and> result_trace d5 = result_trace ?d @ executed_state_par (length ?L) (length []) # ?L @ []"
    using par_automaton_completes [OF k(1) _ s(1) tr(1) _ l, of ?L d3 "[]" example_par par_result_default] k(2)
    by (auto simp: same_traces_def example_ingredients_def)
  with s(1) l k(2) show ?thesis by (auto simp: numeral_2_eq_2)
qed

text \<open>
  The right subgraph gets its own states: after \<^verbatim>\<open>left_completed\<close> both sliders show exactly the
  \<^verbatim>\<open>right_size\<close> states behind the left subgraph, provided that each slider either has room for
  another \<^verbatim>\<open>left_size\<close> states behind the left subgraph or was moved by the subgraph to its end.
  The traces are assumed shorter than $2^{31}$ states, so that no sum of lengths overflows.
\<close>

theorem par_right_window:
  assumes "keeper_in_trace d" "length (result_trace d) < u32_bound"
    and "from_left_started ing d = (Ok f, d1)"
    and "same_traces d1 d2" "result_trace d2 = result_trace d1 @ L"
    and "p = (case prev_par ing of None \<Rightarrow> par_result_default | Some p \<Rightarrow> p)"
    and "c = (case current_par ing of None \<Rightarrow> par_result_default | Some p \<Rightarrow> p)"
    and "2 * length (ts_trace (prev_slider d)) < u32_bound" "2 * length (ts_trace (current_slider d)) < u32_bound"
    and "left_handled p (prev_slider d) (prev_slider d2)" "left_handled c (current_slider d) (current_slider d2)"
  shows "\<exists>f' d3. left_completed f d2 = (Ok f', d3)
    \<and> remaining (prev_slider d3) = take (unat (right_size p)) (drop (unat (left_size p)) (remaining (prev_slider d)))
    \<and> remaining (current_slider d3) = take (unat (right_size c)) (drop (unat (left_size c)) (remaining (current_slider d)))"
proof -
  have fits: "par_fits p (prev_slider d)" "par_fits c (current_slider d)"
    using par_start_fits [OF assms(1-3)] assms(6,7) by auto
  from par_start [OF assms(1,2,6,7) fits] assms(3)
  have f: "par_started p c d f" "result_trace d1 = result_trace d @ [executed_state_par 0 0]"
      "saved_states_count (pf_par_builder f) = Suc (length (result_trace d))" "same_traces d d1"
    by (auto simp: both_show_def shows_window_def same_traces_def)
  from par_left [OF assms(1) f(1) same_traces_trans [OF f(4) assms(4)] assms(8-11)] f(2,3) assms(5)
  show ?thesis by (auto simp: both_show_def shows_window_def)
qed

lemma par_right_window_witness:
  "\<exists>f d1 f' d3. from_left_started example_ingredients (example_par_keeper [Call (Failed ''w'')]) = (Ok f, d1)
     \<and> left_completed f d1 = (Ok f', d3) \<and> remaining (prev_slider d3) = [Call (Failed ''z'')]"
proof -
  let ?d = "example_par_keeper [Call (Failed ''w'')]"
  note k = example_par_keeper [of "[Call (Failed ''w'')]", simplified] and fits = example_par_fits [of "[Call (Failed ''w'')]", simplified]
  obtain f d1 where s: "from_left_started example_ingredients ?d = (Ok f, d1)"
      "both_show (0, unat (left_size example_par)) (0, unat (left_size par_result_default)) ?d d1"
    using par_start [OF k(1) _ _ _ fits, of example_ingredients] k(2) by (auto simp: example_ingredients_def)
  have "\<exists>f' d3. left_completed f d1 = (Ok f', d3)
    \<and> remaining (prev_slider d3) = take (unat (right_size example_par)) (drop (unat (left_size example_par)) (remaining (prev_slider ?d)))"
    using par_right_window [OF k(1) _ s(1), of d1 "[]" example_par par_result_default] k
    by (auto simp: same_traces_def example_ingredients_def example_calls_def left_handled_def example_par_def par_result_default_def)
  with s(1) k(3) show ?thesis
    by (auto simp: example_par_def example_calls_def)
qed

text \<open>
  The condition of the previous property is needed. When the previous trace has no room for
  another \<^verbatim>\<open>left_size\<close> states behind the left subgraph, the update of the slider fails, the error
  is ignored, and the right subgraph is shown states from wherever the left subgraph stopped.
  The witness is the trace par(2, 1), x, y, z with a left subgraph that stops before its first
  state: the right subgraph is shown x instead of z.
\<close>

theorem par_left_stopped_early:
  assumes "keeper_in_trace d" "length (result_trace d) < u32_bound"
    and "from_left_started ing d = (Ok f, d1)"
    and "same_traces d1 d2" "result_trace d2 = result_trace d1 @ L"
    and "p = (case prev_par ing of None \<Rightarrow> par_result_default | Some p \<Rightarrow> p)"
    and "current_par ing = None"
    and "2 * length (ts_trace (prev_slider d)) < u32_bound" "2 * length (ts_trace (current_slider d)) < u32_bound"
    and "length (ts_trace (prev_slider d)) < unat (ts_position (prev_slider d)) + 2 * unat (left_size p)"
    and "unat (ts_position (prev_slider d2)) + unat (right_size p) \<le> length (ts_trace (prev_slider d))"
  shows "\<exists>f' d3. left_completed f d2 = (Ok f', d3)
    \<and> remaining (prev_slider d3)
        = take (unat (right_size p)) (drop (unat (ts_position (prev_slider d2))) (ts_trace (prev_slider d)))"
proof -
  let ?c = par_result_default
  have fits: "par_fits p (prev_slider d)" "par_fits ?c (current_slider d)"
    using par_start_fits [OF assms(1-3)] assms(6,7) by auto
  have sl: "slider_in_trace (prev_slider d)" "slider_in_trace (current_slider d)"
    using assms(1) by (auto simp: keeper_in_trace_def)
  from par_start [OF assms(1,2,6) _ fits] assms(3,7)
  have f: "par_started p ?c d f" "result_trace d1 = result_trace d @ [executed_state_par 0 0]"
      "saved_states_count (pf_par_builder f) = Suc (length (result_trace d))" "same_traces d d1"
    by (auto simp: both_show_def shows_window_def same_traces_def)
  then have h: "par_state_handler_prepare p ?c d = Ok (pf_state_handler f)"
      and f': "pf_prev_par f = p" "pf_current_par f = ?c" "same_traces d d2"
    using assms(4) by (auto simp: par_started_def same_traces_def)
  obtain e where s: "update_ctx_state (prev_state (left_pair (pf_state_handler f))) (prev_slider d2) = (Err e, prev_slider d2)"
    using left_state_ignored [OF sl(1) fits(1) assms(8,10) prepare_OkD(1) [OF h]] f'(3) by (auto simp: same_traces_def)
  obtain q t where t: "update_ctx_state (current_state (left_pair (pf_state_handler f))) (current_slider d2) = (q, t)" "q \<noteq> Panic"
      "ts_trace t = ts_trace (current_slider d)" "unat (ts_position t) = unat (ts_position (current_slider d))"
    using left_state_update [OF sl(2) fits(2) assms(9) prepare_OkD(2) [OF h], of "current_slider d2"] f'(3) sl(2)
    by (auto simp: same_traces_def left_handled_def par_result_default_def slider_in_trace_def)
  obtain s' where s': "set_subtrace_len (right_size p) (prev_slider d2) = (Ok (), s')"
      "remaining s' = take (unat (right_size p)) (drop (unat (ts_position (prev_slider d2))) (ts_trace (prev_slider d)))"
    using set_len_window [of "prev_slider d2" "right_size p"] f'(3) assms(11) window_in_trace [OF sl(1)]
    by (auto simp: same_traces_def)
  obtain t' where "set_subtrace_len (right_size ?c) t = (Ok (), t')"
    using set_len_window [of t "right_size ?c"] t(3,4) window_in_trace [OF sl(2)]
    by (auto simp: par_result_default_def)
  with s' update_ctx_states_eq [OF s _ t(1,2)] show ?thesis
    using f'(1,2) f(2,3) assms(5)
    by (simp add: left_completed_def and_then_lift par_builder_track_def Let_def result_states_count_def
        handle_subgraph_end_def and_then_Ok prepare_sliders_def ignore_result_def map_err_def
        and_then_def prev_slider_mut_eq current_slider_mut_eq)
qed

lemma par_left_stopped_early_witness:
  "\<exists>f d1 f' d3. from_left_started example_ingredients (example_par_keeper []) = (Ok f, d1)
     \<and> left_completed f d1 = (Ok f', d3) \<and> remaining (prev_slider d3) = [Call (Failed ''x'')]"
proof -
  let ?d = "example_par_keeper []"
  note k = example_par_keeper [of "[]", simplified] and fits = example_par_fits [of "[]", simplified]
  obtain f d1 where s: "from_left_started example_ingredients ?d = (Ok f, d1)"
      "both_show (0, unat (left_size example_par)) (0, unat (left_size par_result_default)) ?d d1"
    using par_start [OF k(1) _ _ _ fits, of example_ingredients] k(2) by (auto simp: example_ingredients_def)
  then have pos: "unat (ts_position (prev_slider d1)) = 1"
    using k(5) by (simp add: both_show_def shows_window_def)
  have "\<exists>f' d3. left_completed f d1 = (Ok f', d3)
    \<and> remaining (prev_slider d3) = take 1 (drop 1 (ts_trace (prev_slider ?d)))"
    using par_left_stopped_early [OF k(1) _ s(1), of d1 "[]" example_par] k pos
    by (auto simp: same_traces_def example_ingredients_def example_calls_def example_par_def)
  with s(1) k(6) show ?thesis
    by (auto simp: example_calls_def)
qed

end
