(* ===== verification/Fold_Fsm.thy ===== *)
theory Fold_Fsm
  imports Par_Fsm
begin

text \<open>
  \<^verbatim>\<open>trace-handler/src/state_automata/fold_fsm.rs\<close> with \<^verbatim>\<open>lore_applier.rs\<close>, \<^verbatim>\<open>lore_ctor.rs\<close>,
  \<^verbatim>\<open>lore_ctor_queue.rs\<close> and \<^verbatim>\<open>state_handler.rs\<close>: the automaton of a fold. It keeps a queue with one
  lore constructor per iteration of the current generation; \<^verbatim>\<open>next\<close> walks forward through the
  iterations, the end of \<^verbatim>\<open>next\<close> walks back, and the end of a generation turns the queue into the
  lore of the result. Methods that mutate the automaton and the keeper are computations on the
  pair of both.
\<close>

section \<open>Lore constructor\<close>

record positions_tracker =
  start_pos :: trace_pos
  end_pos :: trace_pos

datatype ctor_state = BeforeStarted | BeforeCompleted | AfterStarted | AfterCompleted

record sub_trace_lore_ctor =
  ctor_value_pos :: trace_pos
  before_tracker :: positions_tracker
  after_tracker :: positions_tracker
  ctor_state :: ctor_state

fun ctor_state_next :: "ctor_state \<Rightarrow> ctor_state" where
  "ctor_state_next BeforeStarted = BeforeCompleted"
| "ctor_state_next BeforeCompleted = AfterStarted"
| "ctor_state_next AfterStarted = AfterCompleted"
| "ctor_state_next AfterCompleted = AfterCompleted"

definition tracker_len :: "positions_tracker \<Rightarrow> (nat, 'e) result" where
  "tracker_len self = res_then (u32_sub (end_pos self) (start_pos self)) (\<lambda>len. Ok (unat len))"

definition from_before_start :: "trace_pos \<Rightarrow> 'bm data_keeper \<Rightarrow> (sub_trace_lore_ctor, state_fsm_error) result" where
  "from_before_start vpos data_keeper =
     res_then (result_trace_next_pos data_keeper) (\<lambda>pos.
     Ok \<lparr>ctor_value_pos = vpos, before_tracker = \<lparr>start_pos = pos, end_pos = 0\<rparr>,
         after_tracker = \<lparr>start_pos = 0, end_pos = 0\<rparr>, ctor_state = BeforeStarted\<rparr>)"

definition before_end ::
    "'bm data_keeper \<Rightarrow> sub_trace_lore_ctor \<Rightarrow> (sub_trace_lore_ctor, state_fsm_error) result" where
  "before_end data_keeper self =
     res_then (result_trace_next_pos data_keeper) (\<lambda>pos.
     Ok (self\<lparr>before_tracker := (before_tracker self)\<lparr>end_pos := pos\<rparr>,
              ctor_state := ctor_state_next (ctor_state self)\<rparr>))"

definition maybe_before_end ::
    "'bm data_keeper \<Rightarrow> sub_trace_lore_ctor \<Rightarrow> (sub_trace_lore_ctor, state_fsm_error) result" where
  "maybe_before_end data_keeper self =
     (if ctor_state self \<noteq> BeforeStarted then Ok self
      else res_then (result_trace_next_pos data_keeper) (\<lambda>pos.
        Ok (self\<lparr>before_tracker := (before_tracker self)\<lparr>end_pos := pos\<rparr>,
                 ctor_state := ctor_state_next (ctor_state self)\<rparr>)))"

definition after_start ::
    "'bm data_keeper \<Rightarrow> sub_trace_lore_ctor \<Rightarrow> (sub_trace_lore_ctor, state_fsm_error) result" where
  "after_start data_keeper self =
     res_then (result_trace_next_pos data_keeper) (\<lambda>pos.
     Ok (self\<lparr>after_tracker := (after_tracker self)\<lparr>start_pos := pos\<rparr>,
              ctor_state := ctor_state_next (ctor_state self)\<rparr>))"

definition after_end ::
    "'bm data_keeper \<Rightarrow> sub_trace_lore_ctor \<Rightarrow> (sub_trace_lore_ctor, state_fsm_error) result" where
  "after_end data_keeper self =
     res_then (result_trace_next_pos data_keeper) (\<lambda>pos.
     Ok (self\<lparr>after_tracker := (after_tracker self)\<lparr>end_pos := pos\<rparr>,
              ctor_state := ctor_state_next (ctor_state self)\<rparr>))"

definition into_subtrace_lore :: "sub_trace_lore_ctor \<Rightarrow> (fold_sub_trace_lore, state_fsm_error) result" where
  "into_subtrace_lore self =
     res_then (tracker_len (before_tracker self)) (\<lambda>bl.
     res_then (tracker_len (after_tracker self)) (\<lambda>al.
     Ok \<lparr>value_pos = ctor_value_pos self, subtraces_desc =
       [\<lparr>begin_pos = start_pos (before_tracker self), desc_subtrace_len = of_nat bl\<rparr>,
        \<lparr>begin_pos = start_pos (after_tracker self), desc_subtrace_len = of_nat al\<rparr>]\<rparr>))"

definition ctor_finish ::
    "'bm data_keeper \<Rightarrow> sub_trace_lore_ctor \<Rightarrow> (sub_trace_lore_ctor, state_fsm_error) result" where
  "ctor_finish data_keeper self =
     (case ctor_state self of
        BeforeStarted \<Rightarrow> res_then (before_end data_keeper self) (\<lambda>self.
          res_then (after_start data_keeper self) (after_end data_keeper))
      | BeforeCompleted \<Rightarrow> res_then (after_start data_keeper self) (after_end data_keeper)
      | AfterStarted \<Rightarrow> after_end data_keeper self
      | AfterCompleted \<Rightarrow> Ok self)"

section \<open>Constructor queue\<close>

record lore_ctor_desc =
  ctor :: sub_trace_lore_ctor
  prev_lore :: "resolved_sub_trace_descs option"
  current_lore :: "resolved_sub_trace_descs option"

record lore_ctor_queue =
  queue :: "lore_ctor_desc list"
  back_traversal_pos :: nat
  back_traversal_started :: bool

definition queue_default :: lore_ctor_queue where
  "queue_default = \<lparr>queue = [], back_traversal_pos = 0, back_traversal_started = False\<rparr>"

definition queue_current :: "lore_ctor_queue \<Rightarrow> (lore_ctor_desc, state_fsm_error) result" where
  "queue_current self =
     (if back_traversal_pos self = 0 then Panic else index_vec (queue self) (back_traversal_pos self - 1))"

text \<open>A method call on the constructor of the current element, through the reference \<^verbatim>\<open>current\<close> returns.\<close>

definition with_current_ctor ::
    "(sub_trace_lore_ctor \<Rightarrow> (sub_trace_lore_ctor, state_fsm_error) result)
       \<Rightarrow> lore_ctor_queue \<Rightarrow> (lore_ctor_queue, state_fsm_error) result" where
  "with_current_ctor f self =
     res_then (queue_current self) (\<lambda>desc.
     res_then (f (ctor desc)) (\<lambda>c.
     Ok (self\<lparr>queue := (queue self)[back_traversal_pos self - 1 := desc\<lparr>ctor := c\<rparr>]\<rparr>)))"

definition add_element ::
    "sub_trace_lore_ctor \<Rightarrow> resolved_sub_trace_descs option \<Rightarrow> resolved_sub_trace_descs option
       \<Rightarrow> lore_ctor_queue \<Rightarrow> lore_ctor_queue" where
  "add_element c p r self = self\<lparr>queue := queue self @ [\<lparr>ctor = c, prev_lore = p, current_lore = r\<rparr>],
     back_traversal_pos := back_traversal_pos self + 1\<rparr>"

definition traverse_back :: "lore_ctor_queue \<Rightarrow> (lore_ctor_queue, state_fsm_error) result" where
  "traverse_back self = (if back_traversal_pos self = 0 then Panic
     else Ok (self\<lparr>back_traversal_pos := back_traversal_pos self - 1\<rparr>))"

definition start_back_traverse :: "lore_ctor_queue \<Rightarrow> lore_ctor_queue" where
  "start_back_traverse self = self\<lparr>back_traversal_started := True\<rparr>"

definition end_back_traverse :: "lore_ctor_queue \<Rightarrow> lore_ctor_queue" where
  "end_back_traverse self = self\<lparr>back_traversal_started := False\<rparr>"

fun try_map :: "('a \<Rightarrow> ('b, 'e) result) \<Rightarrow> 'a list \<Rightarrow> ('b list, 'e) result" where
  "try_map f [] = Ok []"
| "try_map f (x # xs) = res_then (f x) (\<lambda>y. res_then (try_map f xs) (\<lambda>ys. Ok (y # ys)))"

definition transform_to_lore :: "lore_ctor_queue \<Rightarrow> (fold_lore \<times> lore_ctor_queue, state_fsm_error) result" where
  "transform_to_lore self =
     res_then (try_map (\<lambda>l. into_subtrace_lore (ctor l)) (queue self)) (\<lambda>fold_lore.
     Ok (fold_lore, self\<lparr>queue := []\<rparr>))"

definition queue_finish :: "'bm data_keeper \<Rightarrow> lore_ctor_queue \<Rightarrow> (lore_ctor_queue, state_fsm_error) result" where
  "queue_finish data_keeper self =
     res_then (try_map (\<lambda>l. res_then (ctor_finish data_keeper (ctor l)) (\<lambda>c. Ok (l\<lparr>ctor := c\<rparr>))) (queue self))
       (\<lambda>q. Ok (self\<lparr>queue := q, back_traversal_pos := 0\<rparr>))"

section \<open>Applying a lore\<close>

datatype by_next_position = Before | After

definition apply_fold_lore ::
    "resolved_sub_trace_descs option \<Rightarrow> merge_ctx_type \<Rightarrow> by_next_position
       \<Rightarrow> ('bm data_keeper, unit, state_fsm_error) comp" where
  "apply_fold_lore fold_lore ctx_type next_position =
     (let slider_mut = (case ctx_type of CtxPrevious \<Rightarrow> prev_slider_mut | CtxCurrent \<Rightarrow> current_slider_mut) in
      map_err FsmKeeperError (slider_mut (case fold_lore of
          Some fl \<Rightarrow> (case next_position of
             Before \<Rightarrow> set_position_and_len (begin_pos (before_subtrace fl)) (desc_subtrace_len (before_subtrace fl))
           | After \<Rightarrow> set_position_and_len (begin_pos (after_subtrace fl)) (desc_subtrace_len (after_subtrace fl)))
        | None \<Rightarrow> set_subtrace_len 0)))"

definition apply_fold_lore_before ::
    "resolved_sub_trace_descs option \<Rightarrow> resolved_sub_trace_descs option
       \<Rightarrow> ('bm data_keeper, unit, state_fsm_error) comp" where
  "apply_fold_lore_before prev current =
     and_then (apply_fold_lore prev CtxPrevious Before) (\<lambda>_. apply_fold_lore current CtxCurrent Before)"

definition apply_fold_lore_after ::
    "resolved_sub_trace_descs option \<Rightarrow> resolved_sub_trace_descs option
       \<Rightarrow> ('bm data_keeper, unit, state_fsm_error) comp" where
  "apply_fold_lore_after prev current =
     and_then (apply_fold_lore prev CtxPrevious After) (\<lambda>_. apply_fold_lore current CtxCurrent After)"

definition fold_compute_new_state ::
    "resolved_fold \<Rightarrow> 'bm data_keeper \<Rightarrow> merge_ctx_type \<Rightarrow> (ctx_state, state_fsm_error) result" where
  "fold_compute_new_state rf data_keeper ctx_type =
     (let sl = (case ctx_type of CtxPrevious \<Rightarrow> prev_slider data_keeper | CtxCurrent \<Rightarrow> current_slider data_keeper);
          current_position = ts_position sl in
      res_then (ok_or (FoldPosOverflow rf current_position ctx_type)
          (checked_add current_position (rf_fold_states_count rf))) (\<lambda>pos.
      res_then (slider_subtrace_len sl) (\<lambda>current_len.
      res_then (ok_or (FoldLenUnderflow rf current_position ctx_type)
          (checked_sub current_len (rf_fold_states_count rf))) (\<lambda>subtrace_len.
      Ok (ctx_state_new pos subtrace_len)))))"

definition fold_state_handler_prepare ::
    "resolved_fold \<Rightarrow> resolved_fold \<Rightarrow> 'bm data_keeper \<Rightarrow> (ctx_states_pair, state_fsm_error) result" where
  "fold_state_handler_prepare prev_fold current_fold data_keeper =
     res_then (fold_compute_new_state prev_fold data_keeper CtxPrevious) (\<lambda>p.
     res_then (fold_compute_new_state current_fold data_keeper CtxCurrent) (\<lambda>c.
     Ok \<lparr>prev_state = p, current_state = c\<rparr>))"

section \<open>Fold automaton\<close>

record fold_fsm =
  ff_prev_fold :: resolved_fold
  ff_current_fold :: resolved_fold
  ff_state_inserter :: state_inserter
  ff_ctor_queue :: lore_ctor_queue
  ff_result_lore :: fold_lore
  ff_state_handler :: ctx_states_pair

type_synonym ('bm, 'a) fold_comp = "(fold_fsm \<times> 'bm data_keeper, 'a, state_fsm_error) comp"

definition on_keeper :: "('bm data_keeper, 'a, state_fsm_error) comp \<Rightarrow> ('bm, 'a) fold_comp" where
  "on_keeper m = zoom snd apsnd m"

definition on_queue ::
    "('bm data_keeper \<Rightarrow> lore_ctor_queue \<Rightarrow> (lore_ctor_queue, state_fsm_error) result) \<Rightarrow> ('bm, unit) fold_comp" where
  "on_queue f =
     and_then (gets id) (\<lambda>(self, data_keeper).
     and_then (lift (f data_keeper (ff_ctor_queue self))) (\<lambda>q.
     modify (apfst (ff_ctor_queue_update (\<lambda>_. q)))))"

definition from_fold_start :: "merger_fold_result \<Rightarrow> ('bm data_keeper, fold_fsm, state_fsm_error) comp" where
  "from_fold_start fold_result =
     and_then state_inserter_from_keeper (\<lambda>inserter.
     and_then (gets id) (\<lambda>data_keeper.
     and_then (lift (fold_state_handler_prepare (prev_fold_lore fold_result) (current_fold_lore fold_result) data_keeper)) (\<lambda>handler.
     ret \<lparr>ff_prev_fold = prev_fold_lore fold_result, ff_current_fold = current_fold_lore fold_result,
          ff_state_inserter = inserter, ff_ctor_queue = queue_default, ff_result_lore = [],
          ff_state_handler = handler\<rparr>)))"

definition fold_prepare ::
    "resolved_sub_trace_descs option \<Rightarrow> resolved_sub_trace_descs option \<Rightarrow> trace_pos \<Rightarrow> ('bm, unit) fold_comp" where
  "fold_prepare prev current vpos =
     and_then (on_keeper (apply_fold_lore_before prev current)) (\<lambda>_.
     on_queue (\<lambda>data_keeper q.
       res_then (from_before_start vpos data_keeper) (\<lambda>c.
       Ok (add_element c prev current q))))"

text \<open>\<^verbatim>\<open>pos.and_then(|pos| lore.remove(pos))\<close>\<close>

definition take_lore :: "trace_pos option \<Rightarrow> resolved_fold \<Rightarrow> resolved_sub_trace_descs option \<times> resolved_fold" where
  "take_lore pos rf = (case pos of
     None \<Rightarrow> (None, rf)
   | Some p \<Rightarrow> (rf_lore rf p, rf\<lparr>rf_lore := (rf_lore rf)(p := None)\<rparr>))"

definition fold_meet_iteration_start :: "'bm bimap_ops \<Rightarrow> trace_pos \<Rightarrow> ('bm, unit) fold_comp" where
  "fold_meet_iteration_start B vpos =
     and_then (gets id) (\<lambda>(self, data_keeper).
     let prev_pos = bm_get_by_left B (new_to_prev_pos data_keeper) vpos;
         current_pos = bm_get_by_left B (new_to_current_pos data_keeper) vpos;
         (prev, prev_fold) = take_lore prev_pos (ff_prev_fold self);
         (current, current_fold) = take_lore current_pos (ff_current_fold self) in
     and_then (modify (apfst (\<lambda>self. self\<lparr>ff_prev_fold := prev_fold, ff_current_fold := current_fold\<rparr>))) (\<lambda>_.
     fold_prepare prev current vpos))"

definition fold_meet_iteration_end :: "('bm, unit) fold_comp" where
  "fold_meet_iteration_end = on_queue (\<lambda>data_keeper. with_current_ctor (before_end data_keeper))"

definition apply_current_lore_after :: "('bm, unit) fold_comp" where
  "apply_current_lore_after =
     and_then (gets id) (\<lambda>(self, data_keeper).
     and_then (lift (queue_current (ff_ctor_queue self))) (\<lambda>desc.
     on_keeper (apply_fold_lore_after (prev_lore desc) (current_lore desc))))"

definition fold_meet_back_iterator :: "('bm, unit) fold_comp" where
  "fold_meet_back_iterator =
     and_then (gets id) (\<lambda>(self, data_keeper).
     if \<not> back_traversal_started (ff_ctor_queue self) then
       and_then (on_queue (\<lambda>data_keeper. with_current_ctor (maybe_before_end data_keeper))) (\<lambda>_.
       and_then (on_queue (\<lambda>data_keeper. with_current_ctor (after_start data_keeper))) (\<lambda>_.
       and_then apply_current_lore_after (\<lambda>_.
       on_queue (\<lambda>_ q. Ok (start_back_traverse q)))))
     else
       and_then (on_queue (\<lambda>data_keeper. with_current_ctor (after_end data_keeper))) (\<lambda>_.
       and_then (on_queue (\<lambda>_. traverse_back)) (\<lambda>_.
       and_then (on_queue (\<lambda>data_keeper. with_current_ctor (after_start data_keeper))) (\<lambda>_.
       apply_current_lore_after))))"

definition fold_meet_generation_end :: "('bm, unit) fold_comp" where
  "fold_meet_generation_end =
     and_then (on_queue queue_finish) (\<lambda>_.
     and_then (on_queue (\<lambda>_ q. Ok (end_back_traverse q))) (\<lambda>_.
     and_then (gets id) (\<lambda>(self, data_keeper).
     and_then (lift (transform_to_lore (ff_ctor_queue self))) (\<lambda>(fold_lore, q).
     modify (apfst (\<lambda>self. self\<lparr>ff_ctor_queue := q, ff_result_lore := ff_result_lore self @ fold_lore\<rparr>))))))"

definition fold_meet_fold_end :: "fold_fsm \<Rightarrow> ('bm data_keeper, unit, state_fsm_error) comp" where
  "fold_meet_fold_end self =
     and_then (state_inserter_insert (ff_state_inserter self) (Fold \<lparr>lore = ff_result_lore self\<rparr>)) (\<lambda>_.
     update_ctx_states (ff_state_handler self))"

section \<open>Order of the constructor states\<close>

fun ctor_rank :: "ctor_state \<Rightarrow> nat" where
  "ctor_rank BeforeStarted = 0"
| "ctor_rank BeforeCompleted = 1"
| "ctor_rank AfterStarted = 2"
| "ctor_rank AfterCompleted = 3"

instantiation ctor_state :: linorder
begin

definition less_eq_ctor_state :: "ctor_state \<Rightarrow> ctor_state \<Rightarrow> bool" where
  "less_eq_ctor_state a b = (ctor_rank a \<le> ctor_rank b)"

definition less_ctor_state :: "ctor_state \<Rightarrow> ctor_state \<Rightarrow> bool" where
  "less_ctor_state a b = (ctor_rank a < ctor_rank b)"

instance
proof
  fix x y :: ctor_state
  show "x \<le> y \<Longrightarrow> y \<le> x \<Longrightarrow> x = y"
    by (cases x; cases y) (simp_all add: less_eq_ctor_state_def)
qed (auto simp: less_eq_ctor_state_def less_ctor_state_def)

end

lemmas ctor_state_order = less_eq_ctor_state_def less_ctor_state_def

lemma ctor_state_next_mono: "x \<le> ctor_state_next x" "ctor_state_next x = x \<longleftrightarrow> x = AfterCompleted"
  by (cases x; simp add: ctor_state_order)+

section \<open>Invariant of the queue\<close>

definition seg :: "positions_tracker \<Rightarrow> nat" where
  "seg t = unat (end_pos t) - unat (start_pos t)"

definition tracker_ok :: "nat \<Rightarrow> positions_tracker \<Rightarrow> bool" where
  "tracker_ok n t \<longleftrightarrow> unat (start_pos t) \<le> unat (end_pos t) \<and> unat (end_pos t) \<le> n"

text \<open>The positions a constructor has recorded are ordered and lie in a result trace of \<open>n\<close> states.\<close>

definition ctor_ok :: "nat \<Rightarrow> sub_trace_lore_ctor \<Rightarrow> bool" where
  "ctor_ok n c \<longleftrightarrow>
     (ctor_state c = BeforeStarted \<longrightarrow> unat (start_pos (before_tracker c)) \<le> n) \<and>
     (BeforeCompleted \<le> ctor_state c \<longrightarrow> tracker_ok n (before_tracker c)) \<and>
     (ctor_state c = AfterStarted \<longrightarrow> unat (start_pos (after_tracker c)) \<le> n) \<and>
     (ctor_state c = AfterCompleted \<longrightarrow> tracker_ok n (after_tracker c))"

text \<open>The states in its completed parts, and where the part that is still open begins.\<close>

definition closed :: "sub_trace_lore_ctor \<Rightarrow> nat" where
  "closed c = (if BeforeCompleted \<le> ctor_state c then seg (before_tracker c) else 0)
     + (if ctor_state c = AfterCompleted then seg (after_tracker c) else 0)"

definition opened :: "nat \<Rightarrow> sub_trace_lore_ctor \<Rightarrow> nat" where
  "opened n c = (case ctor_state c of
     BeforeStarted \<Rightarrow> unat (start_pos (before_tracker c))
   | AfterStarted \<Rightarrow> unat (start_pos (after_tracker c))
   | _ \<Rightarrow> n)"

definition closed_sum :: "lore_ctor_desc list \<Rightarrow> nat" where
  "closed_sum xs = sum_list (map (\<lambda>x. closed (ctor x)) xs)"

text \<open>
  The queue is empty, or it is split at the current element: the iterations before it wait for
  their after part, those behind it are complete, and all recorded parts are disjoint pieces of
  the result trace from position \<open>m\<close> on.
\<close>

definition queue_at ::
    "nat \<Rightarrow> nat \<Rightarrow> lore_ctor_desc list \<Rightarrow> lore_ctor_desc \<Rightarrow> lore_ctor_desc list \<Rightarrow> lore_ctor_queue \<Rightarrow> bool" where
  "queue_at n m ys x zs q \<longleftrightarrow>
     queue q = ys @ x # zs \<and> back_traversal_pos q = Suc (length ys) \<and>
     (\<forall>y\<in>set ys. ctor_state (ctor y) = BeforeCompleted) \<and>
     (\<forall>z\<in>set zs. ctor_state (ctor z) = AfterCompleted) \<and>
     (\<forall>e\<in>set (queue q). ctor_ok n (ctor e)) \<and>
     m + closed_sum (queue q) \<le> opened n (ctor x)"

definition queue_phase :: "lore_ctor_desc \<Rightarrow> lore_ctor_desc list \<Rightarrow> lore_ctor_queue \<Rightarrow> bool" where
  "queue_phase x zs q \<longleftrightarrow>
     (if back_traversal_started q then ctor_state (ctor x) = AfterStarted
      else zs = [] \<and> ctor_state (ctor x) \<le> BeforeCompleted)"

definition queue_inv :: "nat \<Rightarrow> nat \<Rightarrow> lore_ctor_queue \<Rightarrow> bool" where
  "queue_inv n m q \<longleftrightarrow>
     queue q = [] \<and> back_traversal_pos q = 0 \<and> \<not> back_traversal_started q \<and> m \<le> n
     \<or> (\<exists>ys x zs. queue_at n m ys x zs q \<and> queue_phase x zs q)"

lemma closed_sum_simps [simp]:
  "closed_sum [] = 0" "closed_sum (x # xs) = closed (ctor x) + closed_sum xs"
  "closed_sum (xs @ ys) = closed_sum xs + closed_sum ys"
  by (simp_all add: closed_sum_def)

lemma ctor_ok_mono: "ctor_ok n c \<Longrightarrow> n \<le> k \<Longrightarrow> ctor_ok k c"
  by (auto simp: ctor_ok_def tracker_ok_def)

lemma opened_mono: "n \<le> k \<Longrightarrow> opened n c \<le> opened k c"
  by (cases "ctor_state c") (simp_all add: opened_def)

lemma opened_le: "ctor_ok n c \<Longrightarrow> opened n c \<le> n"
  by (cases "ctor_state c") (auto simp: opened_def ctor_ok_def ctor_state_order)

lemma queue_inv_grow:
  assumes "queue_inv n m q" "n \<le> k"
  shows "queue_inv k m q"
proof -
  have "queue_at k m ys x zs q" if "queue_at n m ys x zs q" for ys x zs
    using that opened_mono [OF assms(2), of "ctor x"]
    by (auto simp: queue_at_def intro: ctor_ok_mono [OF _ assms(2)])
  with assms show ?thesis unfolding queue_inv_def by (meson le_trans)
qed

lemma with_current_ctor_eq:
  assumes "queue q = ys @ x # zs" "back_traversal_pos q = Suc (length ys)"
  shows "with_current_ctor f q = res_then (f (ctor x)) (\<lambda>c. Ok (q\<lparr>queue := ys @ x\<lparr>ctor := c\<rparr> # zs\<rparr>))"
    "queue_current q = Ok x"
  using assms by (simp_all add: with_current_ctor_def queue_current_def index_vec_def)

lemma next_pos: "length (result_trace d) = n \<Longrightarrow> n < u32_bound \<Longrightarrow> 
   result_trace_next_pos d = (Ok (of_nat n) :: (trace_pos, state_fsm_error) result)"
  by (auto simp: result_trace_next_pos_Ok)

lemmas ctor_op_defs = before_end_def maybe_before_end_def after_start_def after_end_def from_before_start_def

lemma queue_inv_add:
  assumes "queue_inv n m q" "length (result_trace d) = n" "n < u32_bound" "\<not> back_traversal_started q"
    and "\<forall>x\<in>set (queue q). ctor_state (ctor x) = BeforeCompleted"
  shows "\<exists>c. from_before_start v d = Ok c \<and> queue_inv n m (add_element c p r q)
    \<and> queue (add_element c p r q) \<noteq> [] \<and> \<not> back_traversal_started (add_element c p r q)"
proof -
  let ?c = "\<lparr>ctor_value_pos = v, before_tracker = \<lparr>start_pos = of_nat n, end_pos = 0\<rparr>,
    after_tracker = \<lparr>start_pos = 0, end_pos = 0\<rparr>, ctor_state = BeforeStarted\<rparr>"
  have c: "from_before_start v d = Ok ?c"
    using next_pos [OF assms(2,3)] by (simp add: from_before_start_def)
  have bt: "back_traversal_pos q = length (queue q)" and ok: "\<forall>e\<in>set (queue q). ctor_ok n (ctor e)"
    and sum: "m + closed_sum (queue q) \<le> n"
    using assms(1,4) opened_le
    by (fastforce simp: queue_inv_def queue_at_def queue_phase_def)+
  have "queue_at n m (queue q) \<lparr>ctor = ?c, prev_lore = p, current_lore = r\<rparr> [] (add_element ?c p r q)"
    using bt ok sum assms(3,5)
    by (simp add: queue_at_def add_element_def ctor_ok_def closed_def opened_def ctor_state_order)
  then have "queue_inv n m (add_element ?c p r q)"
    using assms(4) unfolding queue_inv_def queue_phase_def
    by (intro disjI2 exI conjI) (assumption, simp add: add_element_def ctor_state_order)
  with c show ?thesis using assms(4) by (auto simp: add_element_def)
qed

lemma queue_inv_before_end:
  assumes "queue_inv n m q" "length (result_trace d) = n" "n < u32_bound" "\<not> back_traversal_started q"
    and "queue q \<noteq> []" "ctor_state (ctor (last (queue q))) = BeforeStarted"
  shows "\<exists>q'. with_current_ctor (before_end d) q = Ok q' \<and> queue_inv n m q' \<and> \<not> back_traversal_started q'
    \<and> (\<forall>x\<in>set (queue q'). ctor_state (ctor x) = BeforeCompleted)"
proof -
  obtain ys x where q: "queue_at n m ys x [] q" "ctor_state (ctor x) = BeforeStarted"
    using assms by (auto simp: queue_inv_def queue_phase_def queue_at_def)
  let ?c = "(ctor x)\<lparr>before_tracker := (before_tracker (ctor x))\<lparr>end_pos := of_nat n\<rparr>, ctor_state := BeforeCompleted\<rparr>"
  let ?q = "q\<lparr>queue := ys @ [x\<lparr>ctor := ?c\<rparr>]\<rparr>"
  have "with_current_ctor (before_end d) q = Ok ?q"
    using q next_pos [OF assms(2,3)] with_current_ctor_eq(1) [of q ys x "[]"]
    by (simp add: queue_at_def before_end_def)
  moreover have "queue_at n m ys (x\<lparr>ctor := ?c\<rparr>) [] ?q"
    using q assms(3)
    by (auto simp: queue_at_def ctor_ok_def closed_def opened_def ctor_state_order seg_def tracker_ok_def)
  then have "queue_inv n m ?q"
    using assms(4) unfolding queue_inv_def queue_phase_def
    by (intro disjI2 exI conjI) (assumption, simp add: ctor_state_order)
  ultimately show ?thesis using q assms(4) by (auto simp: queue_at_def)
qed

lemma queue_inv_back_first:
  assumes "queue_inv n m q" "length (result_trace d) = n" "n < u32_bound" "\<not> back_traversal_started q"
    and "queue q \<noteq> []"
  shows "\<exists>q1 q2 e. with_current_ctor (maybe_before_end d) q = Ok q1 \<and> with_current_ctor (after_start d) q1 = Ok q2
    \<and> queue_current q2 = Ok e \<and> queue_inv n m (start_back_traverse q2)"
proof -
  obtain ys x where q: "queue_at n m ys x [] q" "ctor_state (ctor x) \<le> BeforeCompleted"
    using assms by (auto simp: queue_inv_def queue_phase_def queue_at_def)
  let ?b = "if ctor_state (ctor x) = BeforeStarted
    then (ctor x)\<lparr>before_tracker := (before_tracker (ctor x))\<lparr>end_pos := of_nat n\<rparr>, ctor_state := BeforeCompleted\<rparr> else ctor x"
  let ?c = "?b\<lparr>after_tracker := (after_tracker ?b)\<lparr>start_pos := of_nat n\<rparr>, ctor_state := AfterStarted\<rparr>"
  let ?q1 = "q\<lparr>queue := ys @ [x\<lparr>ctor := ?b\<rparr>]\<rparr>" and ?q2 = "q\<lparr>queue := ys @ [x\<lparr>ctor := ?c\<rparr>]\<rparr>"
  have st: "ctor_state (ctor x) = BeforeStarted \<or> ctor_state (ctor x) = BeforeCompleted"
    using q(2) by (cases "ctor_state (ctor x)") (auto simp: ctor_state_order)
  note np = next_pos [OF assms(2,3)]
  have 1: "with_current_ctor (maybe_before_end d) q = Ok ?q1"
    using q(1) np with_current_ctor_eq(1) [of q ys x "[]"]
    by (auto simp: queue_at_def maybe_before_end_def)
  have 2: "with_current_ctor (after_start d) ?q1 = Ok ?q2"
    using q(1) st np with_current_ctor_eq(1) [of ?q1 ys "x\<lparr>ctor := ?b\<rparr>" "[]"]
    by (auto simp: queue_at_def after_start_def)
  have 3: "queue_current ?q2 = Ok (x\<lparr>ctor := ?c\<rparr>)"
    using q(1) by (simp add: queue_at_def with_current_ctor_eq(2))
  have "queue_at n m ys (x\<lparr>ctor := ?c\<rparr>) [] (start_back_traverse ?q2)"
    using q(1) st assms(3)
    by (auto simp: queue_at_def start_back_traverse_def ctor_ok_def closed_def opened_def ctor_state_order
        seg_def tracker_ok_def)
  then have "queue_inv n m (start_back_traverse ?q2)"
    unfolding queue_inv_def queue_phase_def
    by (intro disjI2 exI conjI) (assumption, simp add: start_back_traverse_def)
  with 1 2 3 show ?thesis by blast
qed

lemma queue_inv_back_next:
  assumes "queue_inv n m q" "length (result_trace d) = n" "n < u32_bound" "back_traversal_started q"
    and "2 \<le> back_traversal_pos q"
  shows "\<exists>q1 q2 q3 e. with_current_ctor (after_end d) q = Ok q1 \<and> traverse_back q1 = Ok q2
    \<and> with_current_ctor (after_start d) q2 = Ok q3 \<and> queue_current q3 = Ok e \<and> queue_inv n m q3"
proof -
  obtain ys x zs where q: "queue_at n m ys x zs q" "ctor_state (ctor x) = AfterStarted"
    using assms by (auto simp: queue_inv_def queue_phase_def)
  then obtain vs w where ys: "ys = vs @ [w]"
    using assms(5) by (cases ys rule: rev_cases) (auto simp: queue_at_def)
  have w: "ctor_state (ctor w) = BeforeCompleted" using q(1) ys by (auto simp: queue_at_def)
  let ?x = "x\<lparr>ctor := (ctor x)\<lparr>after_tracker := (after_tracker (ctor x))\<lparr>end_pos := of_nat n\<rparr>, ctor_state := AfterCompleted\<rparr>\<rparr>"
  let ?w = "w\<lparr>ctor := (ctor w)\<lparr>after_tracker := (after_tracker (ctor w))\<lparr>start_pos := of_nat n\<rparr>, ctor_state := AfterStarted\<rparr>\<rparr>"
  let ?q1 = "q\<lparr>queue := ys @ ?x # zs\<rparr>"
  let ?q2 = "q\<lparr>queue := ys @ ?x # zs, back_traversal_pos := Suc (length vs)\<rparr>"
  let ?q3 = "q\<lparr>queue := vs @ ?w # ?x # zs, back_traversal_pos := Suc (length vs)\<rparr>"
  note np = next_pos [OF assms(2,3)]
  have 1: "with_current_ctor (after_end d) q = Ok ?q1"
    using q np with_current_ctor_eq(1) [of q ys x zs] by (simp add: queue_at_def after_end_def)
  have 2: "traverse_back ?q1 = Ok ?q2"
    using q ys by (simp add: queue_at_def traverse_back_def)
  have 3: "with_current_ctor (after_start d) ?q2 = Ok ?q3"
    using np w ys with_current_ctor_eq(1) [of ?q2 vs w "?x # zs"] by (simp add: after_start_def)
  have 4: "queue_current ?q3 = Ok ?w" by (simp add: with_current_ctor_eq(2))
  have "queue_at n m vs ?w (?x # zs) ?q3"
    using q w ys assms(3)
    by (auto simp: queue_at_def ctor_ok_def closed_def opened_def ctor_state_order seg_def tracker_ok_def)
  then have "queue_inv n m ?q3"
    using assms(4) unfolding queue_inv_def queue_phase_def
    by (intro disjI2 exI conjI) (assumption, simp)
  with 1 2 3 4 show ?thesis by blast
qed

section \<open>The end of a generation\<close>

definition lore_len :: "fold_sub_trace_lore \<Rightarrow> nat" where
  "lore_len l = sum_list (map (\<lambda>x. unat (desc_subtrace_len x)) (subtraces_desc l))"

definition lore_total :: "fold_lore \<Rightarrow> nat" where
  "lore_total ls = sum_list (map lore_len ls)"

text \<open>A lore the resolver accepts: two descriptors, each inside a trace of \<open>n\<close> states.\<close>

definition lore_wf :: "nat \<Rightarrow> fold_sub_trace_lore \<Rightarrow> bool" where
  "lore_wf n l \<longleftrightarrow> length (subtraces_desc l) = 2
     \<and> (\<forall>x\<in>set (subtraces_desc l). unat (begin_pos x) + unat (desc_subtrace_len x) \<le> n)"

lemma lore_total_simps [simp]:
  "lore_total [] = 0" "lore_total (l # ls) = lore_len l + lore_total ls"
  "lore_total (ls @ ks) = lore_total ls + lore_total ks"
  by (simp_all add: lore_total_def)

lemma try_map_rel:
  "(\<And>x. x \<in> set xs \<Longrightarrow> \<exists>y. f x = Ok y \<and> R x y) \<Longrightarrow> \<exists>ys. try_map f xs = Ok ys \<and> list_all2 R xs ys"
proof (induction xs)
  case (Cons x xs)
  then obtain y ys where "f x = Ok y" "R x y" "try_map f xs = Ok ys" "list_all2 R xs ys"
    by (metis list.set_intros)
  then show ?case by simp
qed simp

lemma ctor_finish_ok:
  assumes "length (result_trace d) = n" "n < u32_bound" "ctor_ok n c"
  shows "\<exists>c'. ctor_finish d c = Ok c' \<and> ctor_state c' = AfterCompleted \<and> ctor_ok n c'
    \<and> ctor_value_pos c' = ctor_value_pos c \<and> closed c' = closed c + (n - opened n c)"
  using assms next_pos [OF assms(1,2)]
  by (cases "ctor_state c")
    (auto simp: ctor_finish_def before_end_def after_start_def after_end_def ctor_ok_def closed_def opened_def
      ctor_state_order seg_def tracker_ok_def)

lemma into_subtrace_lore_ok:
  assumes "ctor_ok n c" "ctor_state c = AfterCompleted"
  shows "\<exists>l. into_subtrace_lore c = Ok l \<and> lore_wf n l \<and> value_pos l = ctor_value_pos c \<and> lore_len l = closed c"
proof -
  have t: "tracker_len t = (Ok (seg t) :: (nat, state_fsm_error) result)" "seg t < u32_bound" if "tracker_ok n t" for t
    using that by (auto simp: tracker_len_def u32_sub_cases u32_unat tracker_ok_def seg_def less_imp_diff_less)
  show ?thesis
    using assms t [of "before_tracker c"] t [of "after_tracker c"]
    by (auto simp: into_subtrace_lore_def ctor_ok_def closed_def ctor_state_order lore_wf_def lore_len_def
        tracker_ok_def seg_def u32_unat)
qed

definition finished :: "nat \<Rightarrow> lore_ctor_desc \<Rightarrow> lore_ctor_desc \<Rightarrow> bool" where
  "finished n e e' \<longleftrightarrow> ctor_state (ctor e') = AfterCompleted \<and> ctor_ok n (ctor e')
     \<and> ctor_value_pos (ctor e') = ctor_value_pos (ctor e) \<and> closed (ctor e') = closed (ctor e) + (n - opened n (ctor e))"

lemma finished_sum:
  "list_all2 (finished n) xs ys \<Longrightarrow>
     closed_sum ys = closed_sum xs + sum_list (map (\<lambda>e. n - opened n (ctor e)) xs)"
  by (induction rule: list_all2_induct) (auto simp: finished_def)

lemma queue_inv_open_sum:
  assumes "queue_inv n m q"
  shows "m + closed_sum (queue q) + sum_list (map (\<lambda>e. n - opened n (ctor e)) (queue q)) \<le> n"
proof (cases "queue q = []")
  case True
  with assms show ?thesis by (auto simp: queue_inv_def queue_at_def)
next
  case False
  with assms obtain ys x zs where q: "queue_at n m ys x zs q" by (auto simp: queue_inv_def)
  have "opened n (ctor e) = n" if "e \<in> set ys \<or> e \<in> set zs" for e
    using that q by (auto simp: queue_at_def opened_def)
  then have "sum_list (map (\<lambda>e. n - opened n (ctor e)) (queue q)) = n - opened n (ctor x)"
    using q by (simp add: queue_at_def cong: map_cong)
  moreover have "opened n (ctor x) \<le> n" "m + closed_sum (queue q) \<le> opened n (ctor x)"
    using q by (auto simp: queue_at_def intro: opened_le)
  ultimately show ?thesis by linarith
qed

lemma queue_inv_ok: "queue_inv n m q \<Longrightarrow> e \<in> set (queue q) \<Longrightarrow> ctor_ok n (ctor e)"
  by (auto simp: queue_inv_def queue_at_def)

lemma generation_end_lore:
  assumes "queue_inv n m q" "length (result_trace d) = n" "n < u32_bound"
  shows "\<exists>q' ls. queue_finish d q = Ok q' \<and> transform_to_lore (end_back_traverse q') = Ok (ls, queue_default)
    \<and> m + lore_total ls \<le> n \<and> (\<forall>l\<in>set ls. lore_wf n l)
    \<and> map value_pos ls = map (\<lambda>e. ctor_value_pos (ctor e)) (queue q)"
proof -
  obtain xs where xs: "try_map (\<lambda>l. res_then (ctor_finish d (ctor l)) (\<lambda>c. Ok (l\<lparr>ctor := c\<rparr>))) (queue q) = Ok xs"
      "list_all2 (finished n) (queue q) xs"
  proof -
    have "\<exists>y. res_then (ctor_finish d (ctor l)) (\<lambda>c. Ok (l\<lparr>ctor := c\<rparr>)) = Ok y \<and> finished n l y"
      if "l \<in> set (queue q)" for l
      using ctor_finish_ok [OF assms(2,3) queue_inv_ok [OF assms(1) that]] by (auto simp: finished_def)
    then show thesis
      using that try_map_rel [of "queue q" "\<lambda>l. res_then (ctor_finish d (ctor l)) (\<lambda>c. Ok (l\<lparr>ctor := c\<rparr>))" "finished n"]
      by blast
  qed
  have ok: "ctor_ok n (ctor e) \<and> ctor_state (ctor e) = AfterCompleted" if "e \<in> set xs" for e
    using that xs(2) by (metis finished_def in_set_conv_nth list_all2_conv_all_nth)
  obtain ls where ls: "try_map (\<lambda>l. into_subtrace_lore (ctor l)) xs = Ok ls"
      "list_all2 (\<lambda>e l. lore_wf n l \<and> value_pos l = ctor_value_pos (ctor e) \<and> lore_len l = closed (ctor e)) xs ls"
    using try_map_rel [of xs "\<lambda>l. into_subtrace_lore (ctor l)"
      "\<lambda>e l. lore_wf n l \<and> value_pos l = ctor_value_pos (ctor e) \<and> lore_len l = closed (ctor e)"]
      into_subtrace_lore_ok ok by blast
  have "lore_total ls = closed_sum xs" "\<forall>l\<in>set ls. lore_wf n l"
      "map value_pos ls = map (\<lambda>e. ctor_value_pos (ctor e)) xs"
    using ls(2) by (induction rule: list_all2_induct) auto
  moreover have "map (\<lambda>e. ctor_value_pos (ctor e)) xs = map (\<lambda>e. ctor_value_pos (ctor e)) (queue q)"
    using xs(2) by (induction rule: list_all2_induct) (auto simp: finished_def)
  ultimately show ?thesis
    using xs ls(1) finished_sum [OF xs(2)] queue_inv_open_sum [OF assms(1)]
    by (auto simp: queue_finish_def transform_to_lore_def end_back_traverse_def queue_default_def)
qed

section \<open>Runs of the automaton\<close>

lemma on_queue_eq:
  "on_queue g (f, d) = (case g d (ff_ctor_queue f) of
     Ok q \<Rightarrow> (Ok (), (f\<lparr>ff_ctor_queue := q\<rparr>, d)) | Err e \<Rightarrow> (Err e, (f, d)) | Panic \<Rightarrow> (Panic, (f, d)))"
  by (simp add: on_queue_def and_then_lift split: result.splits)

lemma on_keeper_eq: "on_keeper m (f, d) = (case m d of (r, d') \<Rightarrow> (r, (f, d')))"
  by (simp add: on_keeper_def zoom_def split: prod.splits)

lemma apply_fold_lore_frame:
  assumes "apply_fold_lore l c b d = (r, d')"
  shows "result_trace d' = result_trace d \<and> same_traces d d' \<and> same_maps d d'"
  using assms setters_keep_trace
  by (auto simp: apply_fold_lore_def Let_def map_err_def prev_slider_mut_eq current_slider_mut_eq same_traces_def same_maps_def
      split: prod.splits option.splits merge_ctx_type.splits by_next_position.splits)

lemma apply_fold_lore_both_frame:
  "apply_fold_lore_before p c d = (r, d') \<Longrightarrow> result_trace d' = result_trace d \<and> same_traces d d' \<and> same_maps d d'"
  "apply_fold_lore_after p c e = (q, e') \<Longrightarrow> result_trace e' = result_trace e \<and> same_traces e e' \<and> same_maps e e'"
  unfolding apply_fold_lore_before_def apply_fold_lore_after_def and_then_def
  by (auto split: prod.splits result.splits
      dest!: apply_fold_lore_frame simp: same_traces_def same_maps_def)

text \<open>
  The order the comment of \<^verbatim>\<open>FoldFSM\<close> asks for, with the instructions of the fold body in between:
  a new iteration begins after the one before it met its \<^verbatim>\<open>next\<close>, and there are at most as many
  back iterators as iterations.
\<close>

inductive fold_step :: "'bm bimap_ops \<Rightarrow> fold_fsm \<times> 'bm data_keeper \<Rightarrow> fold_fsm \<times> 'bm data_keeper \<Rightarrow> bool" for B where
  body: "length (result_trace d) \<le> length (result_trace d') \<Longrightarrow> length (result_trace d') < u32_bound \<Longrightarrow>
    fold_step B (f, d) (f, d')"
| iteration_start: "\<not> back_traversal_started (ff_ctor_queue f) \<Longrightarrow>
    \<forall>x\<in>set (queue (ff_ctor_queue f)). ctor_state (ctor x) = BeforeCompleted \<Longrightarrow>
    fold_meet_iteration_start B v (f, d) = (Ok (), t) \<Longrightarrow> fold_step B (f, d) t"
| iteration_end: "\<not> back_traversal_started (ff_ctor_queue f) \<Longrightarrow> queue (ff_ctor_queue f) \<noteq> [] \<Longrightarrow>
    ctor_state (ctor (last (queue (ff_ctor_queue f)))) = BeforeStarted \<Longrightarrow>
    fold_meet_iteration_end (f, d) = (r, t) \<Longrightarrow> fold_step B (f, d) t"
| back_iterator: "queue (ff_ctor_queue f) \<noteq> [] \<Longrightarrow>
    back_traversal_started (ff_ctor_queue f) \<longrightarrow> 2 \<le> back_traversal_pos (ff_ctor_queue f) \<Longrightarrow>
    fold_meet_back_iterator (f, d) = (Ok (), t) \<Longrightarrow> fold_step B (f, d) t"
| generation_end: "fold_meet_generation_end (f, d) = (r, t) \<Longrightarrow> fold_step B (f, d) t"

inductive fold_reachable :: "'bm bimap_ops \<Rightarrow> nat \<Rightarrow> fold_fsm \<times> 'bm data_keeper \<Rightarrow> bool" for B where
  fold_begin: "from_fold_start fr d = (Ok f, d') \<Longrightarrow> length (result_trace d') < u32_bound \<Longrightarrow>
    fold_reachable B (length (result_trace d')) (f, d')"
| fold_run: "fold_reachable B n s \<Longrightarrow> fold_step B s t \<Longrightarrow> fold_reachable B n t"

definition fold_inv :: "nat \<Rightarrow> fold_fsm \<times> 'bm data_keeper \<Rightarrow> bool" where
  "fold_inv n s \<longleftrightarrow> (case s of (f, d) \<Rightarrow>
     length (result_trace d) < u32_bound \<and>
     queue_inv (length (result_trace d)) (n + lore_total (ff_result_lore f)) (ff_ctor_queue f) \<and>
     (\<forall>l\<in>set (ff_result_lore f). lore_wf (length (result_trace d)) l))"

lemma lore_wf_mono: "lore_wf n l \<Longrightarrow> n \<le> k \<Longrightarrow> lore_wf k l"
  by (auto simp: lore_wf_def intro: le_trans)

lemma fold_inv_start:
  assumes "fold_inv n (f, d)" "\<not> back_traversal_started (ff_ctor_queue f)"
    and "\<forall>x\<in>set (queue (ff_ctor_queue f)). ctor_state (ctor x) = BeforeCompleted"
    and "fold_meet_iteration_start B v (f, d) = (Ok (), t)"
  shows "fold_inv n t"
proof -
  obtain p pf where p: "take_lore (bm_get_by_left B (new_to_prev_pos d) v) (ff_prev_fold f) = (p, pf)" by fastforce
  obtain c cf where c: "take_lore (bm_get_by_left B (new_to_current_pos d) v) (ff_current_fold f) = (c, cf)" by fastforce
  let ?f = "f\<lparr>ff_prev_fold := pf, ff_current_fold := cf\<rparr>"
  have "fold_prepare p c v (?f, d) = (Ok (), t)"
    using assms(4) p c by (simp add: fold_meet_iteration_start_def Let_def)
  then obtain d' where d': "apply_fold_lore_before p c d = (Ok (), d')"
      and q: "on_queue (\<lambda>data_keeper q. res_then (from_before_start v data_keeper) (\<lambda>c'. Ok (add_element c' p c q))) (?f, d') = (Ok (), t)"
    by (auto simp: fold_prepare_def and_then_def on_keeper_eq split: prod.splits result.splits)
  have rt: "result_trace d' = result_trace d"
    using apply_fold_lore_both_frame(1) [OF d'] by simp
  obtain c' where c': "from_before_start v d' = Ok c'"
      "queue_inv (length (result_trace d)) (n + lore_total (ff_result_lore f)) (add_element c' p c (ff_ctor_queue f))"
    using queue_inv_add [of "length (result_trace d)" "n + lore_total (ff_result_lore f)" "ff_ctor_queue f" d' v p c] assms(1-3) rt
    by (auto simp: fold_inv_def)
  then have "t = (?f\<lparr>ff_ctor_queue := add_element c' p c (ff_ctor_queue f)\<rparr>, d')"
    using q by (simp add: on_queue_eq)
  with c' rt assms(1) show ?thesis by (auto simp: fold_inv_def)
qed

lemma fold_inv_iteration_end:
  assumes "fold_inv n (f, d)" "\<not> back_traversal_started (ff_ctor_queue f)" "queue (ff_ctor_queue f) \<noteq> []"
    and "ctor_state (ctor (last (queue (ff_ctor_queue f)))) = BeforeStarted"
  shows "\<exists>f'. fold_meet_iteration_end (f, d) = (Ok (), (f', d)) \<and> fold_inv n (f', d)"
  using queue_inv_before_end [of "length (result_trace d)" "n + lore_total (ff_result_lore f)" "ff_ctor_queue f" d] assms
  by (auto simp: fold_inv_def fold_meet_iteration_end_def on_queue_eq)

lemma fold_inv_back_iterator:
  assumes "fold_inv n (f, d)" "queue (ff_ctor_queue f) \<noteq> []"
    and "back_traversal_started (ff_ctor_queue f) \<longrightarrow> 2 \<le> back_traversal_pos (ff_ctor_queue f)"
    and "fold_meet_back_iterator (f, d) = (Ok (), t)"
  shows "fold_inv n t"
proof (cases "back_traversal_started (ff_ctor_queue f)")
  case False
  then obtain q1 q2 e where q: "with_current_ctor (maybe_before_end d) (ff_ctor_queue f) = Ok q1"
      "with_current_ctor (after_start d) q1 = Ok q2" "queue_current q2 = Ok e"
      "queue_inv (length (result_trace d)) (n + lore_total (ff_result_lore f)) (start_back_traverse q2)"
    using queue_inv_back_first [of "length (result_trace d)" "n + lore_total (ff_result_lore f)" "ff_ctor_queue f" d] assms(1,2)
    by (auto simp: fold_inv_def)
  obtain r d' where d': "apply_fold_lore_after (prev_lore e) (current_lore e) d = (r, d')" by fastforce
  have "t = (f\<lparr>ff_ctor_queue := start_back_traverse q2\<rparr>, d')"
    using assms(4) False q d'
    by (cases r) (simp_all add: fold_meet_back_iterator_def and_then_def on_queue_eq apply_current_lore_after_def on_keeper_eq)
  with q(4) apply_fold_lore_both_frame(2) [OF d'] assms(1) show ?thesis by (auto simp: fold_inv_def)
next
  case True
  then obtain q1 q2 q3 e where q: "with_current_ctor (after_end d) (ff_ctor_queue f) = Ok q1" "traverse_back q1 = Ok q2"
      "with_current_ctor (after_start d) q2 = Ok q3" "queue_current q3 = Ok e"
      "queue_inv (length (result_trace d)) (n + lore_total (ff_result_lore f)) q3"
    using queue_inv_back_next [of "length (result_trace d)" "n + lore_total (ff_result_lore f)" "ff_ctor_queue f" d] assms(1,3)
    by (auto simp: fold_inv_def)
  obtain r d' where d': "apply_fold_lore_after (prev_lore e) (current_lore e) d = (r, d')" by fastforce
  have "t = (f\<lparr>ff_ctor_queue := q3\<rparr>, d')"
    using assms(4) True q d'
    by (cases r) (simp_all add: fold_meet_back_iterator_def and_then_def on_queue_eq apply_current_lore_after_def on_keeper_eq)
  with q(5) apply_fold_lore_both_frame(2) [OF d'] assms(1) show ?thesis by (auto simp: fold_inv_def)
qed

lemma fold_inv_generation_end:
  assumes "fold_inv n (f, d)"
  shows "\<exists>ls. fold_meet_generation_end (f, d)
      = (Ok (), (f\<lparr>ff_ctor_queue := queue_default, ff_result_lore := ff_result_lore f @ ls\<rparr>, d))
    \<and> fold_inv n (f\<lparr>ff_ctor_queue := queue_default, ff_result_lore := ff_result_lore f @ ls\<rparr>, d)
    \<and> map value_pos ls = map (\<lambda>e. ctor_value_pos (ctor e)) (queue (ff_ctor_queue f))"
proof -
  obtain q ls where q: "queue_finish d (ff_ctor_queue f) = Ok q" "transform_to_lore (end_back_traverse q) = Ok (ls, queue_default)"
      "n + lore_total (ff_result_lore f) + lore_total ls \<le> length (result_trace d)"
      "\<forall>l\<in>set ls. lore_wf (length (result_trace d)) l"
      "map value_pos ls = map (\<lambda>e. ctor_value_pos (ctor e)) (queue (ff_ctor_queue f))"
    using generation_end_lore [of "length (result_trace d)" "n + lore_total (ff_result_lore f)" "ff_ctor_queue f" d] assms
    by (auto simp: fold_inv_def)
  have "fold_meet_generation_end (f, d)
      = (Ok (), (f\<lparr>ff_ctor_queue := queue_default, ff_result_lore := ff_result_lore f @ ls\<rparr>, d))"
    using q(1,2) by (simp add: fold_meet_generation_end_def and_then_def on_queue_eq)
  moreover have "fold_inv n (f\<lparr>ff_ctor_queue := queue_default, ff_result_lore := ff_result_lore f @ ls\<rparr>, d)"
    using q(3,4) assms by (auto simp: fold_inv_def queue_inv_def queue_default_def)
  ultimately show ?thesis using q(5) by blast
qed

lemma fold_step_inv:
  assumes "fold_step B s t" "fold_inv n s"
  shows "fold_inv n t"
  using assms
proof (cases rule: fold_step.cases)
  case (body d d' f)
  then show ?thesis
    using assms(2) by (auto simp: fold_inv_def intro: queue_inv_grow lore_wf_mono)
next
  case (iteration_start f v d)
  with assms(2) fold_inv_start show ?thesis by blast
next
  case (iteration_end f d r)
  with assms(2) fold_inv_iteration_end [of n f d] show ?thesis by auto
next
  case (back_iterator f d)
  with assms(2) fold_inv_back_iterator show ?thesis by blast
next
  case (generation_end f d r)
  with assms(2) fold_inv_generation_end [of n f d] show ?thesis by auto
qed

lemma fold_start_inv:
  assumes "from_fold_start fr d = (Ok f, d')" "length (result_trace d') < u32_bound"
  shows "fold_inv (length (result_trace d')) (f, d')"
proof -
  have "ff_ctor_queue f = queue_default" "ff_result_lore f = []"
    using assms(1) by (auto simp: from_fold_start_def and_then_def split: prod.splits result.splits)
  with assms(2) show ?thesis by (simp add: fold_inv_def queue_inv_def queue_default_def)
qed

lemma fold_reachable_inv: "fold_reachable B n s \<Longrightarrow> fold_inv n s"
  by (induction rule: fold_reachable.induct) (auto intro: fold_start_inv fold_step_inv)

section \<open>The end of a fold\<close>

definition same_handler :: "fold_fsm \<Rightarrow> fold_fsm \<Rightarrow> bool" where
  "same_handler f f' \<longleftrightarrow> ff_state_inserter f' = ff_state_inserter f \<and> ff_state_handler f' = ff_state_handler f"

definition keeps_handler :: "('bm, 'a) fold_comp \<Rightarrow> bool" where
  "keeps_handler m \<longleftrightarrow> (\<forall>s r t. m s = (r, t) \<longrightarrow> same_handler (fst s) (fst t))"

named_theorems handler_rules

lemma keeps_handlerD: "keeps_handler m \<Longrightarrow> m s = (r, t) \<Longrightarrow> same_handler (fst s) (fst t)"
  unfolding keeps_handler_def by blast

lemma keeps_handler_and_then [handler_rules]:
  "keeps_handler m \<Longrightarrow> (\<And>a. keeps_handler (k a)) \<Longrightarrow> keeps_handler (and_then m k)"
  unfolding keeps_handler_def and_then_def same_handler_def
  by (auto split: prod.splits result.splits) (metis fst_conv)+

lemma keeps_handler_basic [handler_rules]:
  "keeps_handler (gets g)" "keeps_handler (lift x)" "keeps_handler (on_queue h)" "keeps_handler (on_keeper n)"
  by (auto simp: keeps_handler_def same_handler_def on_queue_eq on_keeper_eq split: result.splits prod.splits)

lemma keeps_handler_modify [handler_rules]:
  "(\<And>f. same_handler f (g f)) \<Longrightarrow> keeps_handler (modify (apfst g))"
  by (simp add: keeps_handler_def)

lemma keeps_handler_if [handler_rules]: "keeps_handler m \<Longrightarrow> keeps_handler n \<Longrightarrow> keeps_handler (if b then m else n)"
  by simp

lemma keeps_handler_case_prod [handler_rules]: "(\<And>x y. keeps_handler (m x y)) \<Longrightarrow> keeps_handler (case p of (x, y) \<Rightarrow> m x y)"
  by (cases p) simp

lemma fold_operations_keep_handler:
  "keeps_handler (fold_meet_iteration_start B v)" "keeps_handler fold_meet_iteration_end"
  "keeps_handler fold_meet_back_iterator" "keeps_handler fold_meet_generation_end"
  unfolding fold_meet_iteration_start_def fold_prepare_def fold_meet_iteration_end_def Let_def
    fold_meet_back_iterator_def apply_current_lore_after_def fold_meet_generation_end_def
  by (intro handler_rules; simp add: same_handler_def)+

lemma fold_step_handler:
  assumes "fold_step B s t"
  shows "same_handler (fst s) (fst t)"
  using assms
proof (cases rule: fold_step.cases)
  case (body d d' f)
  then show ?thesis by (simp add: same_handler_def)
next
  case (iteration_start f v d)
  from fold_operations_keep_handler(1) [THEN keeps_handlerD, OF iteration_start(4)] show ?thesis
    using iteration_start(1) by simp
next
  case (iteration_end f d r)
  from fold_operations_keep_handler(2) [THEN keeps_handlerD, OF iteration_end(5)] show ?thesis
    using iteration_end(1) by simp
next
  case (back_iterator f d)
  from fold_operations_keep_handler(3) [THEN keeps_handlerD, OF back_iterator(4)] show ?thesis
    using back_iterator(1) by simp
next
  case (generation_end f d r)
  from fold_operations_keep_handler(4) [THEN keeps_handlerD, OF generation_end(2)] show ?thesis
    using generation_end(1) by simp
qed

lemma fold_steps_handler: "(fold_step B)\<^sup>*\<^sup>* s t \<Longrightarrow> same_handler (fst s) (fst t)"
  by (induction rule: rtranclp_induct) (auto simp: same_handler_def dest: fold_step_handler)

lemma fold_new_state:
  assumes "keeper_in_trace d" "fold_compute_new_state rf d c = Ok st"
    and "s = (case c of CtxPrevious \<Rightarrow> prev_slider d | CtxCurrent \<Rightarrow> current_slider d)"
  shows "unat (rf_fold_states_count rf) \<le> window_len s"
    "unat (st_pos st) = unat (ts_position s) + unat (rf_fold_states_count rf)"
    "unat (st_subtrace_len st) = window_len s - unat (rf_fold_states_count rf)"
proof -
  have wf: "slider_wf s"
    using assms(1,3) by (auto simp: keeper_in_trace_def slider_in_trace_wf split: merge_ctx_type.splits)
  then have "unat (rf_fold_states_count rf) \<le> window_len s
      \<and> unat (st_pos st) = unat (ts_position s) + unat (rf_fold_states_count rf)
      \<and> unat (st_subtrace_len st) = window_len s - unat (rf_fold_states_count rf)"
    using assms(2,3)
    by (auto simp: fold_compute_new_state_def Let_def slider_subtrace_len_eq unat_window_len checked_add_def
        checked_sub_def u32_unat ctx_state_new_def split: if_splits merge_ctx_type.splits)
  then show "unat (rf_fold_states_count rf) \<le> window_len s"
    "unat (st_pos st) = unat (ts_position s) + unat (rf_fold_states_count rf)"
    "unat (st_subtrace_len st) = window_len s - unat (rf_fold_states_count rf)" by auto
qed

lemma fold_start_handler:
  assumes "keeper_in_trace d" "length (result_trace d) < u32_bound" "from_fold_start fr d = (Ok f, d1)"
  shows "result_trace d1 = result_trace d @ [executed_state_par 0 0]" "same_traces d d1"
    "unat (si_position (ff_state_inserter f)) = length (result_trace d)"
    "fold_state_handler_prepare (prev_fold_lore fr) (current_fold_lore fr) d = Ok (ff_state_handler f)"
proof -
  let ?d = "d\<lparr>result_trace := result_trace d @ [executed_state_par 0 0]\<rparr>"
  have "state_inserter_from_keeper d = (Ok \<lparr>si_position = of_nat (length (result_trace d))\<rparr>, ?d)"
    using assms(2) by (simp add: state_inserter_from_keeper_def and_then_lift result_trace_next_pos_Ok trace_push_def)
  moreover have "fold_state_handler_prepare p c ?d = fold_state_handler_prepare p c d" for p c
    by (simp add: fold_state_handler_prepare_def fold_compute_new_state_def split: merge_ctx_type.splits)
  ultimately have "d1 = ?d \<and> si_position (ff_state_inserter f) = of_nat (length (result_trace d))
      \<and> fold_state_handler_prepare (prev_fold_lore fr) (current_fold_lore fr) d = Ok (ff_state_handler f)"
    using assms(3) by (auto simp: from_fold_start_def and_then_Ok and_then_lift split: result.splits)
  then show "result_trace d1 = result_trace d @ [executed_state_par 0 0]" "same_traces d d1"
    "unat (si_position (ff_state_inserter f)) = length (result_trace d)"
    "fold_state_handler_prepare (prev_fold_lore fr) (current_fold_lore fr) d = Ok (ff_state_handler f)"
    using assms(2) by (auto simp: same_traces_def)
qed

lemma fold_prepare_OkD:
  assumes "fold_state_handler_prepare p c d = Ok h"
  shows "fold_compute_new_state p d CtxPrevious = Ok (prev_state h)" "fold_compute_new_state c d CtxCurrent = Ok (current_state h)"
  using assms unfolding fold_state_handler_prepare_def
  by (cases "fold_compute_new_state p d CtxPrevious"; cases "fold_compute_new_state c d CtxCurrent"; auto)+

section \<open>Properties\<close>

text \<open>
  C17. The lore a fold leaves behind is one the next run accepts. In every run of the automaton
  that follows the order of its comment, with any instructions in between, and also when the
  fold is left early: the end of a generation succeeds, it appends one lore per iteration in
  order, every lore has two descriptors that lie inside the result trace, and all lengths of
  the fold together are at most the number of states appended since it started, so that neither
  the overflow check of the resolver nor the length check of the state handler can fail on it.
\<close>

theorem fold_lore_sound:
  assumes "fold_reachable B n (f, d)"
  shows "\<exists>ls. fold_meet_generation_end (f, d)
      = (Ok (), (f\<lparr>ff_ctor_queue := queue_default, ff_result_lore := ff_result_lore f @ ls\<rparr>, d))
    \<and> map value_pos ls = map (\<lambda>e. ctor_value_pos (ctor e)) (queue (ff_ctor_queue f))
    \<and> (\<forall>l\<in>set (ff_result_lore f @ ls). lore_wf (length (result_trace d)) l)
    \<and> n + lore_total (ff_result_lore f @ ls) \<le> length (result_trace d)"
proof -
  obtain ls where ls: "fold_meet_generation_end (f, d)
      = (Ok (), (f\<lparr>ff_ctor_queue := queue_default, ff_result_lore := ff_result_lore f @ ls\<rparr>, d))"
    "fold_inv n (f\<lparr>ff_ctor_queue := queue_default, ff_result_lore := ff_result_lore f @ ls\<rparr>, d)"
    "map value_pos ls = map (\<lambda>e. ctor_value_pos (ctor e)) (queue (ff_ctor_queue f))"
    using fold_inv_generation_end [OF fold_reachable_inv [OF assms]] by blast
  then show ?thesis
    by (auto simp: fold_inv_def queue_inv_def queue_default_def queue_at_def)
qed

text \<open>
  C16. A fold, from start to end. Whatever its iterations do to the sliders, after \<^verbatim>\<open>meet_fold_end\<close>
  both sliders stand behind the states of the fold they were given, with the rest of their
  windows, and the position the automaton reserved holds the fold state with the collected lore.
\<close>

theorem fold_automaton_completes:
  assumes "keeper_in_trace d" "length (result_trace d) < u32_bound"
    and "from_fold_start fr d = (Ok f, d1)" "(fold_step B)\<^sup>*\<^sup>* (f, d1) (f', d2)"
    and "same_traces d d2" "length (result_trace d) < length (result_trace d2)"
    and "k = unat (rf_fold_states_count (prev_fold_lore fr))" "l = unat (rf_fold_states_count (current_fold_lore fr))"
  shows "\<exists>d3. fold_meet_fold_end f' d2 = (Ok (), d3)
    \<and> result_trace d3 = (result_trace d2)[length (result_trace d) := Fold \<lparr>lore = ff_result_lore f'\<rparr>]
    \<and> shows_window k (window_len (prev_slider d)) (prev_slider d) (prev_slider d3)
    \<and> shows_window l (window_len (current_slider d)) (current_slider d) (current_slider d3)"
proof -
  note st = fold_start_handler [OF assms(1-3)] and pr = fold_prepare_OkD [OF fold_start_handler(4) [OF assms(1-3)]]
  have h: "ff_state_inserter f' = ff_state_inserter f" "ff_state_handler f' = ff_state_handler f"
    using fold_steps_handler [OF assms(4)] by (auto simp: same_handler_def)
  have sl: "slider_in_trace (prev_slider d)" "slider_in_trace (current_slider d)"
    using assms(1) by (auto simp: keeper_in_trace_def)
  have full: "take (window_len s) (drop j (remaining s)) = drop j (remaining s)" if "slider_in_trace s" for s j
    using length_remaining [OF slider_in_trace_wf [OF that]] by simp
  note p = fold_new_state [OF assms(1) pr(1), of "prev_slider d", simplified]
    and c = fold_new_state [OF assms(1) pr(2), of "current_slider d", simplified]
  obtain s where s: "update_ctx_state (prev_state (ff_state_handler f)) (prev_slider d2) = (Ok (), s)"
      "shows_window k (window_len (prev_slider d)) (prev_slider d) s"
    using state_restores [OF sl(1) p] assms(5,7) full [OF sl(1)] by (auto simp: same_traces_def shows_window_def)
  obtain t where t: "update_ctx_state (current_state (ff_state_handler f)) (current_slider d2) = (Ok (), t)"
      "shows_window l (window_len (current_slider d)) (current_slider d) t"
    using state_restores [OF sl(2) c] assms(5,8) full [OF sl(2)] by (auto simp: same_traces_def shows_window_def)
  let ?d = "d2\<lparr>result_trace := (result_trace d2)[length (result_trace d) := Fold \<lparr>lore = ff_result_lore f'\<rparr>]\<rparr>"
  have "state_inserter_insert (ff_state_inserter f') (Fold \<lparr>lore = ff_result_lore f'\<rparr>) d2 = (Ok (), ?d)"
    using st(3) h assms(6) by (simp add: state_inserter_insert_def and_then_lift trace_index_set_def)
  moreover have "update_ctx_states (ff_state_handler f') ?d
      = (Ok (), ?d\<lparr>prev_ctx := \<lparr>slider = s\<rparr>, current_ctx := \<lparr>slider = t\<rparr>\<rparr>)"
    using s(1) t(1) h by (intro update_ctx_states_eq [where r = "Ok ()" and q = "Ok ()"]) simp_all
  ultimately show ?thesis
    using s(2) t(2) by (simp add: fold_meet_fold_end_def and_then_Ok)
qed

text \<open>A fold over one value, met in a run without any previous data.\<close>

definition example_fold_keeper :: "(trace_pos \<Rightarrow> trace_pos option) data_keeper" where
  "example_fold_keeper = (example_keeper [] [])\<lparr>result_trace := [executed_state_par 0 0]\<rparr>"

definition example_fold :: fold_fsm where
  "example_fold = \<lparr>ff_prev_fold = resolved_fold_default, ff_current_fold = resolved_fold_default,
     ff_state_inserter = \<lparr>si_position = 0\<rparr>, ff_ctor_queue = queue_default, ff_result_lore = [],
     ff_state_handler = \<lparr>prev_state = \<lparr>st_pos = 0, st_subtrace_len = 0\<rparr>, current_state = \<lparr>st_pos = 0, st_subtrace_len = 0\<rparr>\<rparr>\<rparr>"

definition example_fold_iteration :: fold_fsm where
  "example_fold_iteration = example_fold\<lparr>ff_ctor_queue := \<lparr>queue = [\<lparr>ctor = \<lparr>ctor_value_pos = 7,
       before_tracker = \<lparr>start_pos = 1, end_pos = 0\<rparr>, after_tracker = \<lparr>start_pos = 0, end_pos = 0\<rparr>,
       ctor_state = BeforeStarted\<rparr>, prev_lore = None, current_lore = None\<rparr>],
     back_traversal_pos = 1, back_traversal_started = False\<rparr>\<rparr>"

lemma example_fold_started:
  "from_fold_start merger_fold_result_default (example_keeper [] []) = (Ok example_fold, example_fold_keeper)"
  by (simp add: from_fold_start_def state_inserter_from_keeper_def and_then_def result_trace_next_pos_def
      example_keeper_def trace_push_def fold_state_handler_prepare_def fold_compute_new_state_def Let_def
      prev_slider_def current_slider_def example_slider_def merger_fold_result_default_def resolved_fold_default_def
      checked_add_def checked_sub_def slider_subtrace_len_def u32_sub_def ctx_state_new_def
      example_fold_def example_fold_keeper_def)

lemma example_fold_iterated:
  "fold_meet_iteration_start fun_bimap 7 (example_fold, example_fold_keeper)
     = (Ok (), (example_fold_iteration, example_fold_keeper))"
  by (simp add: fold_meet_iteration_start_def fold_prepare_def take_lore_def fun_bimap_def on_queue_eq on_keeper_eq
      and_then_def apply_fold_lore_before_def apply_fold_lore_def Let_def map_err_def prev_slider_mut_eq current_slider_mut_eq
      set_subtrace_len_eq example_fold_keeper_def example_keeper_def prev_slider_def current_slider_def example_slider_def
      from_before_start_def result_trace_next_pos_def add_element_def example_fold_def example_fold_iteration_def
      queue_default_def)

lemma example_fold_reachable: "fold_reachable fun_bimap 1 (example_fold_iteration, example_fold_keeper)"
proof -
  have "fold_reachable fun_bimap (length (result_trace example_fold_keeper)) (example_fold, example_fold_keeper)"
    by (rule fold_begin [OF example_fold_started]) (simp add: example_fold_keeper_def)
  then show ?thesis
    using fold_run [OF _ fold_step.iteration_start [OF _ _ example_fold_iterated]]
    by (simp add: example_fold_keeper_def example_fold_def queue_default_def)
qed

lemma fold_lore_sound_witness:
  "\<exists>ls. fst (fold_meet_generation_end (example_fold_iteration, example_fold_keeper)) = Ok ()
     \<and> map value_pos ls = [7] \<and> (\<forall>l\<in>set ls. lore_wf 1 l) \<and> lore_total ls = 0"
proof -
  obtain ls where "fst (fold_meet_generation_end (example_fold_iteration, example_fold_keeper)) = Ok ()"
      "map value_pos ls = map (\<lambda>e. ctor_value_pos (ctor e)) (queue (ff_ctor_queue example_fold_iteration))"
      "\<forall>l\<in>set (ff_result_lore example_fold_iteration @ ls). lore_wf (length (result_trace example_fold_keeper)) l"
      "1 + lore_total (ff_result_lore example_fold_iteration @ ls) \<le> length (result_trace example_fold_keeper)"
    using fold_lore_sound [OF example_fold_reachable] by (metis fst_conv)
  then show ?thesis
    by (intro exI [of _ ls]) (simp add: example_fold_iteration_def example_fold_def example_fold_keeper_def)
qed

lemma fold_automaton_completes_witness:
  "\<exists>d3. fold_meet_fold_end example_fold_iteration example_fold_keeper = (Ok (), d3)
    \<and> result_trace d3 = [Fold \<lparr>lore = []\<rparr>]"
proof -
  have "fold_step fun_bimap (example_fold, example_fold_keeper) (example_fold_iteration, example_fold_keeper)"
    by (rule fold_step.iteration_start [OF _ _ example_fold_iterated]) (simp_all add: example_fold_def queue_default_def)
  then have steps: "(fold_step fun_bimap)\<^sup>*\<^sup>* (example_fold, example_fold_keeper) (example_fold_iteration, example_fold_keeper)"
    by simp
  have "keeper_in_trace (example_keeper [] [])"
    using example_slider_wf [of "[]"] by (simp add: keeper_in_trace_def example_keeper_wf)
  from fold_automaton_completes [OF this _ example_fold_started steps] show ?thesis
    by (auto simp: example_keeper_wf same_traces_def example_fold_keeper_def example_fold_iteration_def example_fold_def)
qed

end
