(* ===== verification/Trace_Handler.thy ===== *)
theory Trace_Handler
  imports Fold_Fsm
begin

text \<open>
  \<^verbatim>\<open>trace-handler/src/handler.rs\<close>, \<^verbatim>\<open>errors.rs\<close> and \<^verbatim>\<open>state_automata/fsm_queue.rs\<close>: the trace handler, the
  interface the interpreter calls while it executes a script. It keeps the data keeper, a stack
  of par automata and a map of fold automata. The step relation \<open>handler_step\<close> is one call of
  this interface with any arguments and in any order; its invariant is that the input traces
  never change, that both sliders stay well-formed, and that every automaton can still be closed.
\<close>

section \<open>Model\<close>

datatype trace_handler_error =
    ThKeeperError keeper_error
  | ThMergeError merge_error
  | ThStateFSMError state_fsm_error

datatype generation_compactification_error =
    TracePosPointsToNowhere trace_pos
  | TracePosPointsToInvalidState trace_pos executed_state

datatype int_conversion_error = TryIntoTracePosError

record fsm_keeper =
  par_stack :: "par_fsm list"
  fold_map :: "u32 \<rightharpoonup> fold_fsm"

definition fsm_keeper_default :: fsm_keeper where
  "fsm_keeper_default = \<lparr>par_stack = [], fold_map = Map.empty\<rparr>"

definition push_par :: "par_fsm \<Rightarrow> fsm_keeper \<Rightarrow> fsm_keeper" where
  "push_par f self = self\<lparr>par_stack := par_stack self @ [f]\<rparr>"

definition add_fold :: "u32 \<Rightarrow> fold_fsm \<Rightarrow> fsm_keeper \<Rightarrow> fsm_keeper" where
  "add_fold fold_id f self = self\<lparr>fold_map := (fold_map self)(fold_id \<mapsto> f)\<rparr>"

definition last_par :: "fsm_keeper \<Rightarrow> (par_fsm, state_fsm_error) result" where
  "last_par self = (if par_stack self = [] then Err ParQueueIsEmpty else Ok (last (par_stack self)))"

definition pop_par :: "(fsm_keeper, par_fsm, state_fsm_error) comp" where
  "pop_par self = (if par_stack self = [] then (Err ParQueueIsEmpty, self)
     else (Ok (last (par_stack self)), self\<lparr>par_stack := butlast (par_stack self)\<rparr>))"

definition fold_mut :: "u32 \<Rightarrow> fsm_keeper \<Rightarrow> (fold_fsm, state_fsm_error) result" where
  "fold_mut fold_id self = ok_or (FoldFSMNotFound fold_id) (fold_map self fold_id)"

definition extract_fold :: "u32 \<Rightarrow> (fsm_keeper, fold_fsm, state_fsm_error) comp" where
  "extract_fold fold_id self = (case fold_map self fold_id of
     None \<Rightarrow> (Err (FoldFSMNotFound fold_id), self)
   | Some f \<Rightarrow> (Ok f, self\<lparr>fold_map := (fold_map self)(fold_id := None)\<rparr>))"

record 'bm trace_handler =
  data_keeper :: "'bm data_keeper"
  fsm_keeper :: fsm_keeper

type_synonym ('bm, 'a) handler_comp = "('bm trace_handler, 'a, trace_handler_error) comp"

definition handler_from_trace ::
    "'bm bimap_ops \<Rightarrow> execution_trace \<Rightarrow> execution_trace \<Rightarrow> ('bm trace_handler, 'e) result" where
  "handler_from_trace B prev_trace current_trace =
     res_then (data_keeper_from_trace B prev_trace current_trace) (\<lambda>d.
     Ok \<lparr>data_keeper = d, fsm_keeper = fsm_keeper_default\<rparr>)"

definition trace_pos :: "'bm trace_handler \<Rightarrow> (trace_pos, int_conversion_error) result" where
  "trace_pos self = (if length (result_trace (data_keeper self)) < u32_bound
     then Ok (of_nat (length (result_trace (data_keeper self)))) else Err TryIntoTracePosError)"

definition into_result_trace :: "'bm trace_handler \<Rightarrow> execution_trace" where
  "into_result_trace self = result_trace (data_keeper self)"

definition subgraph_sizes :: "'bm trace_handler \<Rightarrow> (trace_len \<times> trace_len, 'e) result" where
  "subgraph_sizes self =
     res_then (slider_subtrace_len (prev_slider (data_keeper self))) (\<lambda>prev_len.
     res_then (slider_subtrace_len (current_slider (data_keeper self))) (\<lambda>current_len.
     Ok (prev_len, current_len)))"

definition set_result_state :: "trace_pos \<Rightarrow> executed_state \<Rightarrow> 'bm trace_handler \<Rightarrow> 'bm trace_handler" where
  "set_result_state pos state self =
     self\<lparr>data_keeper := (data_keeper self)\<lparr>result_trace := (result_trace (data_keeper self))[unat pos := state]\<rparr>\<rparr>"

definition update_generation ::
    "trace_pos \<Rightarrow> generation_idx \<Rightarrow> ('bm trace_handler, unit, generation_compactification_error) comp" where
  "update_generation pos generation =
     and_then (gets id) (\<lambda>self.
     and_then (lift (ok_or (TracePosPointsToNowhere pos) (trace_get (result_trace (data_keeper self)) pos))) (\<lambda>state.
     case state of
       Ap ap \<Rightarrow> modify (set_result_state pos (Ap (ap\<lparr>res_generations := [generation]\<rparr>)))
     | Call (Executed (Stream c call_generation)) \<Rightarrow>
         modify (set_result_state pos (Call (Executed (Stream c generation))))
     | state \<Rightarrow> throw (TracePosPointsToInvalidState pos state)))"

definition on_data_keeper :: "('bm data_keeper, 'a, 'e) comp \<Rightarrow> ('bm trace_handler, 'a, 'e) comp" where
  "on_data_keeper m = zoom data_keeper data_keeper_update m"

definition on_fsm_keeper :: "(fsm_keeper, 'a, 'e) comp \<Rightarrow> ('bm trace_handler, 'a, 'e) comp" where
  "on_fsm_keeper m = zoom fsm_keeper fsm_keeper_update m"

definition push_state :: "executed_state \<Rightarrow> ('bm, unit) handler_comp" where
  "push_state state =
     on_data_keeper (modify (\<lambda>d. d\<lparr>result_trace := trace_push (result_trace d) state\<rparr>))"

definition meet_call_start :: "'bm bimap_ops \<Rightarrow> ('bm, merger_call_result) handler_comp" where
  "meet_call_start B = map_err ThMergeError (on_data_keeper (try_merge_next_state_as_call B))"

definition meet_call_end :: "call_result \<Rightarrow> ('bm, unit) handler_comp" where
  "meet_call_end call_result = push_state (Call call_result)"

definition meet_ap_start :: "'bm bimap_ops \<Rightarrow> ('bm, merger_ap_result) handler_comp" where
  "meet_ap_start B = map_err ThMergeError (on_data_keeper (try_merge_next_state_as_ap B))"

definition meet_ap_end :: "ap_result \<Rightarrow> ('bm, unit) handler_comp" where
  "meet_ap_end ap_result = push_state (Ap ap_result)"

definition meet_canon_start :: "('bm, merger_canon_result) handler_comp" where
  "meet_canon_start = map_err ThMergeError (on_data_keeper try_merge_next_state_as_canon)"

definition meet_canon_end :: "canon_result \<Rightarrow> ('bm, unit) handler_comp" where
  "meet_canon_end canon_result = push_state (Canon canon_result)"

definition meet_par_start :: "('bm, unit) handler_comp" where
  "meet_par_start =
     and_then (map_err ThMergeError (on_data_keeper try_merge_next_state_as_par)) (\<lambda>ingredients.
     and_then (map_err ThStateFSMError (on_data_keeper (from_left_started ingredients))) (\<lambda>f.
     on_fsm_keeper (modify (push_par f))))"

definition meet_par_subgraph_end :: "subgraph_type \<Rightarrow> ('bm, unit) handler_comp" where
  "meet_par_subgraph_end subgraph = map_err ThStateFSMError (case subgraph of
     SubgraphLeft \<Rightarrow>
       and_then (gets id) (\<lambda>self.
       and_then (lift (last_par (fsm_keeper self))) (\<lambda>f.
       and_then (on_data_keeper (left_completed f)) (\<lambda>f'.
       on_fsm_keeper (modify (\<lambda>k. k\<lparr>par_stack := butlast (par_stack k) @ [f']\<rparr>)))))
   | SubgraphRight \<Rightarrow>
       and_then (on_fsm_keeper pop_par) (\<lambda>f.
       on_data_keeper (right_completed f)))"

definition meet_fold_start :: "u32 \<Rightarrow> ('bm, unit) handler_comp" where
  "meet_fold_start fold_id =
     and_then (map_err ThMergeError (on_data_keeper try_merge_next_state_as_fold)) (\<lambda>ingredients.
     and_then (map_err ThStateFSMError (on_data_keeper (from_fold_start ingredients))) (\<lambda>f.
     on_fsm_keeper (modify (add_fold fold_id f))))"

text \<open>A method call on the automaton \<^verbatim>\<open>fold_mut\<close> returns; what it did stays, also after an error.\<close>

definition on_fold :: "u32 \<Rightarrow> ('bm, 'a) fold_comp \<Rightarrow> ('bm, 'a) handler_comp" where
  "on_fold fold_id m = map_err ThStateFSMError (
     and_then (gets id) (\<lambda>self.
     and_then (lift (fold_mut fold_id (fsm_keeper self))) (\<lambda>f th.
     case m (f, data_keeper th) of
       (r, (f', d')) \<Rightarrow> (r, th\<lparr>data_keeper := d', fsm_keeper := add_fold fold_id f' (fsm_keeper th)\<rparr>))))"

definition meet_iteration_start :: "'bm bimap_ops \<Rightarrow> u32 \<Rightarrow> trace_pos \<Rightarrow> ('bm, unit) handler_comp" where
  "meet_iteration_start B fold_id vpos = on_fold fold_id (fold_meet_iteration_start B vpos)"

definition meet_iteration_end :: "u32 \<Rightarrow> ('bm, unit) handler_comp" where
  "meet_iteration_end fold_id = on_fold fold_id fold_meet_iteration_end"

definition meet_back_iterator :: "u32 \<Rightarrow> ('bm, unit) handler_comp" where
  "meet_back_iterator fold_id = on_fold fold_id fold_meet_back_iterator"

definition meet_generation_end :: "u32 \<Rightarrow> ('bm, unit) handler_comp" where
  "meet_generation_end fold_id = on_fold fold_id fold_meet_generation_end"

definition meet_fold_end :: "u32 \<Rightarrow> ('bm, unit) handler_comp" where
  "meet_fold_end fold_id = map_err ThStateFSMError (
     and_then (on_fsm_keeper (extract_fold fold_id)) (\<lambda>f.
     on_data_keeper (fold_meet_fold_end f)))"

section \<open>What the operations keep of the data keeper\<close>

definition keeper_change :: "'bm data_keeper \<Rightarrow> 'bm data_keeper \<Rightarrow> bool" where
  "keeper_change d d' \<longleftrightarrow> keeper_wf d' \<and> same_traces d d' \<and> length (result_trace d) \<le> length (result_trace d')"

definition keeps :: "('s \<Rightarrow> 'bm data_keeper) \<Rightarrow> ('s, 'a, 'e) comp \<Rightarrow> bool" where
  "keeps g m \<longleftrightarrow> (\<forall>s r t. keeper_wf (g s) \<longrightarrow> m s = (r, t) \<longrightarrow> keeper_change (g s) (g t))"

named_theorems keeps_rules \<open>rules to show that an operation keeps the data keeper well-formed\<close>

lemma keepsD: "keeps g m \<Longrightarrow> keeper_wf (g s) \<Longrightarrow> m s = (r, t) \<Longrightarrow> keeper_change (g s) (g t)"
  unfolding keeps_def by blast

lemma keeper_change_refl: "keeper_wf d \<Longrightarrow> keeper_change d d"
  by (simp add: keeper_change_def same_traces_def)

lemma keeper_change_trans: "keeper_change a b \<Longrightarrow> keeper_change b c \<Longrightarrow> keeper_change a c"
  by (auto simp: keeper_change_def same_traces_def)

lemma keeps_and_then [keeps_rules]:
  assumes "keeps g m" "\<And>a. keeps g (k a)"
  shows "keeps g (and_then m k)"
  unfolding keeps_def
proof (intro allI impI)
  fix s r t
  assume wf: "keeper_wf (g s)" and eq: "and_then m k s = (r, t)"
  obtain q u where m: "m s = (q, u)" by fastforce
  note mu = keepsD [OF assms(1) wf m]
  show "keeper_change (g s) (g t)"
  proof (cases q)
    case (Ok a)
    with eq m have "k a u = (r, t)" by (simp add: and_then_def)
    with mu keepsD [OF assms(2) [of a]] show ?thesis
      by (meson keeper_change_def keeper_change_trans)
  qed (use eq m mu in \<open>auto simp: and_then_def\<close>)
qed

lemma keeps_pure [keeps_rules]:
  "keeps g (gets f)" "keeps g (lift x)" "keeps g (ret a)" "keeps g (throw e)" "keeps g panic"
  by (auto simp: keeps_def keeper_change_refl)

lemma keeps_map_err [keeps_rules]: "keeps g m \<Longrightarrow> keeps g (map_err h m)"
  by (auto simp: keeps_def map_err_def split: prod.splits)

lemma keeps_ignore_result [keeps_rules]: "keeps g m \<Longrightarrow> keeps g (ignore_result m)"
  by (auto simp: keeps_def ignore_result_def split: prod.splits result.splits)

lemma keeps_case_prod [keeps_rules]: "(\<And>x y. keeps g (m x y)) \<Longrightarrow> keeps g (case p of (x, y) \<Rightarrow> m x y)"
  by (cases p) simp

lemma keeps_if [keeps_rules]: "keeps g m \<Longrightarrow> keeps g n \<Longrightarrow> keeps g (if b then m else n)"
  by simp

lemma setters_wf:
  assumes "slider_wf s"
  shows "set_position_and_len p n s = (r, t) \<Longrightarrow> slider_wf t" "set_subtrace_len n s = (r, t) \<Longrightarrow> slider_wf t"
  using assms slider_step_wf step_set_position step_set_len by blast+

lemma keeps_prev_slider:
  "(\<And>s r t. m s = (r, t) \<Longrightarrow> slider_wf s \<Longrightarrow> slider_wf t \<and> ts_trace t = ts_trace s) \<Longrightarrow> keeps id (prev_slider_mut m)"
  by (auto simp: keeps_def prev_slider_mut_eq keeper_change_def same_traces_def keeper_wf_def split: prod.splits)

lemma keeps_current_slider:
  "(\<And>s r t. m s = (r, t) \<Longrightarrow> slider_wf s \<Longrightarrow> slider_wf t \<and> ts_trace t = ts_trace s) \<Longrightarrow> keeps id (current_slider_mut m)"
  by (auto simp: keeps_def current_slider_mut_eq keeper_change_def same_traces_def keeper_wf_def split: prod.splits)

lemma keeps_setters [keeps_rules]:
  "keeps id (prev_slider_mut (set_position_and_len p n))" "keeps id (current_slider_mut (set_position_and_len p n))"
  "keeps id (prev_slider_mut (set_subtrace_len n))" "keeps id (current_slider_mut (set_subtrace_len n))"
  "keeps id (prev_slider_mut (update_ctx_state st))" "keeps id (current_slider_mut (update_ctx_state st))"
  by (auto intro!: keeps_prev_slider keeps_current_slider simp: update_ctx_state_def map_err_def
      split: prod.splits dest: setters_wf setters_keep_trace)

lemma keeps_on_keeper [keeps_rules]: "keeps id m \<Longrightarrow> keeps snd (on_keeper m)"
  by (auto simp: keeps_def on_keeper_eq split: prod.splits)

lemma keeps_on_queue [keeps_rules]: "keeps snd (on_queue h)" "keeps snd (modify (apfst f))"
  by (auto simp: keeps_def on_queue_eq keeper_change_refl split: result.splits)

lemma keeps_on_data_keeper [keeps_rules]: "keeps id m \<Longrightarrow> keeps data_keeper (on_data_keeper m)"
  by (auto simp: keeps_def on_data_keeper_def zoom_def split: prod.splits)

lemma keeps_on_fsm_keeper [keeps_rules]: "keeps data_keeper (on_fsm_keeper n)"
  by (auto simp: keeps_def on_fsm_keeper_def zoom_def keeper_change_refl split: prod.splits)

lemma keeps_result_trace [keeps_rules]:
  "(\<And>d. length (result_trace d) \<le> length (f d)) \<Longrightarrow> keeps id (modify (\<lambda>d. d\<lparr>result_trace := f d\<rparr>))"
  by (auto simp: keeps_def keeper_change_def same_traces_def keeper_wf_def)

lemma keeps_state_inserter [keeps_rules]:
  "keeps id state_inserter_from_keeper" "keeps id (state_inserter_insert i state)"
proof -
  show "keeps id state_inserter_from_keeper"
    unfolding state_inserter_from_keeper_def by (intro keeps_rules) (simp add: trace_push_def)
  show "keeps id (state_inserter_insert i state)"
    by (auto simp: keeps_def state_inserter_insert_def and_then_lift trace_index_set_def keeper_change_def
        same_traces_def keeper_wf_def split: result.splits if_splits)
qed

lemma keeps_update_ctx_states [keeps_rules]: "keeps id (update_ctx_states sp)"
  unfolding update_ctx_states_def by (intro keeps_rules)

lemma keeps_par_automaton [keeps_rules]:
  "keeps id (prepare_sliders f g)" "keeps id (from_left_started ing)" "keeps id (left_completed f)" "keeps id (right_completed f)"
proof -
  show p: "keeps id (prepare_sliders f g)" for f g
    unfolding prepare_sliders_def Let_def by (cases g) (simp_all, (intro keeps_rules)+)
  have h: "keeps id (handle_subgraph_end h g)" for h g
    unfolding handle_subgraph_end_def by (cases g) (simp_all add: keeps_update_ctx_states)
  show "keeps id (from_left_started ing)" "keeps id (left_completed f)" "keeps id (right_completed f)"
    unfolding from_left_started_def left_completed_def right_completed_def Let_def
    by (intro keeps_rules p h)+
qed

lemma keeps_apply_fold_lore [keeps_rules]:
  "keeps id (apply_fold_lore l c b)"
  unfolding apply_fold_lore_def Let_def
  by (cases l; cases c; cases b; simp; intro keeps_rules)

lemma keeps_fold_automaton [keeps_rules]:
  "keeps id (from_fold_start fr)" "keeps id (fold_meet_fold_end f)"
  "keeps snd (fold_meet_iteration_start B v)" "keeps snd fold_meet_iteration_end"
  "keeps snd fold_meet_back_iterator" "keeps snd fold_meet_generation_end"
  unfolding from_fold_start_def fold_meet_fold_end_def fold_meet_iteration_start_def fold_prepare_def
    fold_meet_iteration_end_def Let_def fold_meet_back_iterator_def apply_current_lore_after_def
    fold_meet_generation_end_def apply_fold_lore_before_def apply_fold_lore_after_def
  by (intro keeps_rules)+

lemma keeps_next_states: "keeps id next_states"
  by (auto simp: keeps_def next_states_eq step_sliders_def keeper_change_def same_traces_def keeper_wf_def step_slider_wf)

lemma keeps_positions: "keeps id (prepare_positions_mapping B scheme)"
proof -
  have "keeps id (modify (\<lambda>d. d\<lparr>new_to_prev_pos := f d\<rparr>))" "keeps id (modify (\<lambda>d. d\<lparr>new_to_current_pos := f d\<rparr>))" for f
    by (auto simp: keeps_def keeper_change_def same_traces_def keeper_wf_def)
  then show ?thesis
    unfolding prepare_positions_mapping_def by (cases scheme; simp; intro keeps_rules)
qed

lemma keeps_mergers:
  "keeps id (try_merge_next_state_as_call B)" "keeps id (try_merge_next_state_as_ap B)" "keeps id try_merge_next_state_as_canon"
  "keeps id try_merge_next_state_as_par" "keeps id try_merge_next_state_as_fold"
  unfolding try_merge_next_state_as_call_def try_merge_next_state_as_ap_def try_merge_next_state_as_canon_def
    try_merge_next_state_as_par_def try_merge_next_state_as_fold_def prepare_call_result_def prepare_merge_result_def
  by (intro keeps_and_then keeps_next_states; auto intro!: keeps_rules keeps_positions split: option.split executed_state.split)+

section \<open>Automata that can be closed\<close>

definition state_safe :: "execution_trace \<Rightarrow> ctx_state \<Rightarrow> bool" where
  "state_safe t st \<longleftrightarrow> (st_subtrace_len st \<noteq> 0 \<longrightarrow> unat (st_pos st) + unat (st_subtrace_len st) \<le> length t)"

definition pair_safe :: "execution_trace \<Rightarrow> execution_trace \<Rightarrow> ctx_states_pair \<Rightarrow> bool" where
  "pair_safe p c sp \<longleftrightarrow> state_safe p (prev_state sp) \<and> state_safe c (current_state sp)"

text \<open>
  The state a slider gets at the end of a left subgraph: its length is the size of the left subgraph
  again, so that it may reach beyond the end of the trace, but its position and its length alone do not.
\<close>

definition left_safe :: "execution_trace \<Rightarrow> ctx_state \<Rightarrow> bool" where
  "left_safe t st \<longleftrightarrow> unat (st_pos st) \<le> length t \<and> unat (st_subtrace_len st) \<le> length t"

definition left_pair_safe :: "execution_trace \<Rightarrow> execution_trace \<Rightarrow> ctx_states_pair \<Rightarrow> bool" where
  "left_pair_safe p c sp \<longleftrightarrow> left_safe p (prev_state sp) \<and> left_safe c (current_state sp)"

definition par_closable :: "execution_trace \<Rightarrow> execution_trace \<Rightarrow> nat \<Rightarrow> par_fsm \<Rightarrow> bool" where
  "par_closable p c n f \<longleftrightarrow> unat (si_position (pf_state_inserter f)) < n
     \<and> saved_states_count (pf_par_builder f) \<le> n \<and> pair_safe p c (right_pair (pf_state_handler f))
     \<and> left_pair_safe p c (left_pair (pf_state_handler f))"

definition fold_closable :: "execution_trace \<Rightarrow> execution_trace \<Rightarrow> nat \<Rightarrow> fold_fsm \<Rightarrow> bool" where
  "fold_closable p c n f \<longleftrightarrow> unat (si_position (ff_state_inserter f)) < n \<and> pair_safe p c (ff_state_handler f)"

lemma closable_mono:
  "par_closable p c n f \<Longrightarrow> n \<le> k \<Longrightarrow> par_closable p c k f"
  "fold_closable p c n g \<Longrightarrow> n \<le> k \<Longrightarrow> fold_closable p c k g"
  by (auto simp: par_closable_def fold_closable_def)

lemma update_safe:
  assumes "state_safe (ts_trace s) st" "length (ts_trace s) < u32_bound"
  shows "\<exists>s'. update_ctx_state st s = (Ok (), s')"
  using assms by (auto simp: update_ctx_state_def map_err_def set_position_and_len_eq state_safe_def)

lemma update_ctx_states_safe:
  assumes "pair_safe (ts_trace (prev_slider d)) (ts_trace (current_slider d)) sp" "keeper_wf d"
  shows "\<exists>d'. update_ctx_states sp d = (Ok (), d')"
proof -
  obtain s t where "update_ctx_state (prev_state sp) (prev_slider d) = (Ok (), s)"
      "update_ctx_state (current_state sp) (current_slider d) = (Ok (), t)"
    using assms update_safe by (metis keeper_wf_def pair_safe_def slider_wf_def)
  then show ?thesis using update_ctx_states_eq by blast
qed

lemma moved_state_safe:
  assumes "slider_wf s" "checked_add (ts_position s) k = Some (st_pos st)"
    and "checked_sub (ts_subtrace_len s - ts_seen_elements s) k = Some (st_subtrace_len st)"
  shows "state_safe (ts_trace s) st"
proof -
  have p: "unat (st_pos st) = unat (ts_position s) + unat k"
    using assms(2) by (auto simp: checked_add_Some unat_add_u32)
  have l: "unat (st_subtrace_len st) = window_len s - unat k"
    using assms(3) unat_window_len [OF assms(1)] unat_sub_u32 [of k "ts_subtrace_len s - ts_seen_elements s"]
    by (simp add: checked_sub_Some)
  show ?thesis
    unfolding state_safe_def
  proof
    assume "st_subtrace_len st \<noteq> 0"
    then have "0 < unat (st_subtrace_len st)" using u32_eq_0 by (metis gr0I)
    with l have "unat k < window_len s" by simp
    moreover from this have "unat (ts_position s) + window_len s \<le> length (ts_trace s)"
      using assms(1) by (simp add: slider_wf_def)
    ultimately show "unat (st_pos st) + unat (st_subtrace_len st) \<le> length (ts_trace s)"
      using p l by linarith
  qed
qed

lemma right_state_safe:
  assumes "slider_wf s" "par_compute_new_state p SubgraphRight s = Ok st"
  shows "state_safe (ts_trace s) st"
proof -
  obtain k where k: "par_size p = Some k" "checked_add (ts_position s) k = Some (st_pos st)"
      "checked_sub (ts_subtrace_len s - ts_seen_elements s) k = Some (st_subtrace_len st)"
    using assms
    by (cases "par_size p"; cases "checked_add (ts_position s) (the (par_size p))";
        cases "checked_sub (ts_subtrace_len s - ts_seen_elements s) (the (par_size p))")
      (auto simp: par_compute_new_state_def slider_subtrace_len_eq ctx_state_new_def)
  then show ?thesis using moved_state_safe [OF assms(1)] by blast
qed

lemma fold_state_safe:
  assumes "slider_wf s" "s = (case c of CtxPrevious \<Rightarrow> prev_slider d | CtxCurrent \<Rightarrow> current_slider d)"
    and "fold_compute_new_state rf d c = Ok st"
  shows "state_safe (ts_trace s) st"
proof -
  let ?k = "rf_fold_states_count rf"
  have "checked_add (ts_position s) ?k = Some (st_pos st)"
      "checked_sub (ts_subtrace_len s - ts_seen_elements s) ?k = Some (st_subtrace_len st)"
    using assms
    by (cases "checked_add (ts_position s) ?k"; cases "checked_sub (ts_subtrace_len s - ts_seen_elements s) ?k";
        auto simp: fold_compute_new_state_def Let_def slider_subtrace_len_eq ctx_state_new_def)+
  then show ?thesis using moved_state_safe [OF assms(1)] by blast
qed

lemma inserter_position:
  assumes "state_inserter_from_keeper d = (Ok i, d')"
  shows "unat (si_position i) = length (result_trace d)" "d' = d\<lparr>result_trace := result_trace d @ [executed_state_par 0 0]\<rparr>"
  using assms
  by (auto simp: state_inserter_from_keeper_def and_then_lift result_trace_next_pos_def trace_states_count_def
      trace_push_def split: if_splits)

lemma left_state_safe:
  assumes "slider_in_trace s" "par_compute_new_state p SubgraphLeft s = Ok st" "par_compute_new_state p SubgraphRight s = Ok st'"
  shows "left_safe (ts_trace s) st"
proof -
  have fits: "par_fits p s" using new_state_right_Err [OF assms(1)] assms(3) by fastforce
  then show ?thesis
    using new_state_left [OF assms(1) fits] assms(2) window_in_trace(1) [OF assms(1)] by (auto simp: left_safe_def par_fits_def)
qed

lemma prepare_sliders_in_trace:
  assumes "keeper_wf d" "prepare_sliders f g d = (Ok (), d')"
  shows "keeper_in_trace d"
proof -
  have "length (ts_trace (prev_slider d)) < u32_bound" "length (ts_trace (current_slider d)) < u32_bound"
    using assms(1) by (auto simp: keeper_wf_def slider_wf_def)
  then have "unat (ts_position (prev_slider d)) \<le> length (ts_trace (prev_slider d))"
      "unat (ts_position (current_slider d)) \<le> length (ts_trace (current_slider d))"
    using assms(2)
    by (auto simp: prepare_sliders_def Let_def and_then_def map_err_def prev_slider_mut_eq current_slider_mut_eq set_subtrace_len_eq
        split: prod.splits result.splits if_splits)
  with assms(1) show ?thesis by (simp add: keeper_in_trace_def slider_in_trace_def keeper_wf_def)
qed

lemma from_left_started_closable:
  assumes "keeper_wf d" "from_left_started ing d = (Ok f, d')"
  shows "par_closable (ts_trace (prev_slider d)) (ts_trace (current_slider d)) (length (result_trace d')) f"
proof -
  obtain i d1 where i: "state_inserter_from_keeper d = (Ok i, d1)"
    using assms(2) by (auto simp: from_left_started_def Let_def and_then_def split: prod.splits result.splits)
  note d1 = inserter_position [OF i]
  let ?p = "case prev_par ing of None \<Rightarrow> par_result_default | Some p \<Rightarrow> p"
    and ?c = "case current_par ing of None \<Rightarrow> par_result_default | Some p \<Rightarrow> p"
  obtain h where h: "par_state_handler_prepare ?p ?c d1 = Ok h"
    using assms(2) i by (auto simp: from_left_started_def Let_def and_then_Ok and_then_lift split: result.splits)
  let ?f = "\<lparr>pf_prev_par = ?p, pf_current_par = ?c, pf_state_inserter = i, pf_state_handler = h,
    pf_par_builder = par_builder_from_keeper d1\<rparr>"
  have "and_then (prepare_sliders ?f SubgraphLeft) (\<lambda>_. ret ?f) d1 = (Ok f, d')"
    using assms(2) i h by (simp add: from_left_started_def Let_def and_then_Ok and_then_lift)
  then have f: "f = ?f" and r: "result_trace d' = result_trace d1"
    using prepare_sliders_frame(3) by (fastforce simp: and_then_def split: prod.splits result.splits)+
  have "pair_safe (ts_trace (prev_slider d)) (ts_trace (current_slider d)) (right_pair h)"
    using right_state_safe prepare_OkD(3,4) [OF h] assms(1) d1(2) by (auto simp: pair_safe_def keeper_wf_def)
  moreover have "keeper_in_trace d1"
  proof -
    obtain d2 where "prepare_sliders ?f SubgraphLeft d1 = (Ok (), d2)"
      using \<open>and_then _ _ d1 = (Ok f, d')\<close> by (auto simp: and_then_def split: prod.splits result.splits)
    then show ?thesis using prepare_sliders_in_trace [of d1] assms(1) d1(2) by (simp add: keeper_wf_def)
  qed
  then have "left_pair_safe (ts_trace (prev_slider d)) (ts_trace (current_slider d)) (left_pair h)"
    using left_state_safe prepare_OkD [OF h] d1(2) by (fastforce simp: left_pair_safe_def keeper_in_trace_def)
  ultimately show ?thesis
    using f r d1 by (simp add: par_closable_def par_builder_from_keeper_def result_states_count_def)
qed

lemma from_fold_start_closable:
  assumes "keeper_wf d" "from_fold_start fr d = (Ok f, d')"
  shows "fold_closable (ts_trace (prev_slider d)) (ts_trace (current_slider d)) (length (result_trace d')) f"
proof -
  obtain i d1 where i: "state_inserter_from_keeper d = (Ok i, d1)"
    using assms(2) by (auto simp: from_fold_start_def and_then_def split: prod.splits result.splits)
  note d1 = inserter_position [OF i]
  obtain h where h: "fold_state_handler_prepare (prev_fold_lore fr) (current_fold_lore fr) d1 = Ok h"
    and f: "ff_state_inserter f = i" "ff_state_handler f = h" "d' = d1"
    using assms(2) i by (auto simp: from_fold_start_def and_then_Ok and_then_lift split: result.splits)
  have "slider_wf (prev_slider d1)" "slider_wf (current_slider d1)"
    using assms(1) d1(2) by (auto simp: keeper_wf_def)
  then have "pair_safe (ts_trace (prev_slider d1)) (ts_trace (current_slider d1)) h"
    using fold_state_safe [where c = CtxPrevious and d = d1] fold_state_safe [where c = CtxCurrent and d = d1]
      fold_prepare_OkD [OF h] by (auto simp: pair_safe_def)
  then show ?thesis
    using f d1 by (simp add: fold_closable_def)
qed

lemma right_completed_Ok:
  assumes "keeper_wf d" "par_closable (ts_trace (prev_slider d)) (ts_trace (current_slider d)) (length (result_trace d)) f"
  shows "\<exists>d'. right_completed f d = (Ok (), d')"
proof -
  obtain b where b: "par_builder_track (pf_par_builder f) d SubgraphRight = Ok b"
    using assms(2) by (auto simp: par_builder_track_def par_closable_def Let_def result_states_count_def)
  let ?d = "d\<lparr>result_trace := (result_trace d)[unat (si_position (pf_state_inserter f)) := par_builder_build b]\<rparr>"
  have "state_inserter_insert (pf_state_inserter f) (par_builder_build b) d = (Ok (), ?d)"
    using assms(2) by (simp add: state_inserter_insert_def and_then_lift trace_index_set_def par_closable_def)
  moreover obtain d' where "update_ctx_states (right_pair (pf_state_handler f)) ?d = (Ok (), d')"
    using update_ctx_states_safe [of ?d "right_pair (pf_state_handler f)"] assms by (auto simp: par_closable_def keeper_wf_def)
  ultimately show ?thesis
    using b by (simp add: right_completed_def and_then_lift Let_def and_then_Ok handle_subgraph_end_def)
qed

lemma left_update_in_trace:
  assumes "left_safe (ts_trace s) st" "slider_in_trace s" "2 * length (ts_trace s) < u32_bound"
  shows "\<exists>r t. update_ctx_state st s = (r, t) \<and> r \<noteq> Panic \<and> ts_trace t = ts_trace s \<and> unat (ts_position t) \<le> length (ts_trace t)"
  using assms by (auto simp: update_ctx_state_def map_err_def set_position_and_len_eq left_safe_def slider_in_trace_def)

lemma prepare_sliders_no_panic:
  assumes "unat (ts_position (prev_slider d)) \<le> length (ts_trace (prev_slider d))" "length (ts_trace (prev_slider d)) < u32_bound"
    and "unat (ts_position (current_slider d)) \<le> length (ts_trace (current_slider d))" "length (ts_trace (current_slider d)) < u32_bound"
  shows "\<exists>d'. ignore_result (prepare_sliders f g) d = (Ok (), d')"
  using assms
  by (auto simp: ignore_result_def prepare_sliders_def Let_def and_then_def map_err_def prev_slider_mut_eq current_slider_mut_eq
      set_subtrace_len_eq split: prod.splits result.splits subgraph_type.splits if_splits)

lemma left_completed_Ok:
  assumes "keeper_in_trace d" "par_closable (ts_trace (prev_slider d)) (ts_trace (current_slider d)) (length (result_trace d)) f"
    and "2 * length (ts_trace (prev_slider d)) < u32_bound" "2 * length (ts_trace (current_slider d)) < u32_bound"
  shows "\<exists>f' d'. left_completed f d = (Ok f', d')"
proof -
  obtain b where b: "par_builder_track (pf_par_builder f) d SubgraphLeft = Ok b"
    using assms(2) by (auto simp: par_builder_track_def par_closable_def Let_def result_states_count_def)
  let ?sp = "left_pair (pf_state_handler f)"
  have safe: "left_safe (ts_trace (prev_slider d)) (prev_state ?sp)" "left_safe (ts_trace (current_slider d)) (current_state ?sp)"
    and inside: "slider_in_trace (prev_slider d)" "slider_in_trace (current_slider d)"
    using assms(1,2) by (auto simp: par_closable_def left_pair_safe_def keeper_in_trace_def)
  obtain r s q t where u: "update_ctx_state (prev_state ?sp) (prev_slider d) = (r, s)" "r \<noteq> Panic"
      "update_ctx_state (current_state ?sp) (current_slider d) = (q, t)" "q \<noteq> Panic"
    and s: "ts_trace s = ts_trace (prev_slider d)" "unat (ts_position s) \<le> length (ts_trace s)"
    and t: "ts_trace t = ts_trace (current_slider d)" "unat (ts_position t) \<le> length (ts_trace t)"
    using left_update_in_trace [OF safe(1) inside(1) assms(3)] left_update_in_trace [OF safe(2) inside(2) assms(4)] by blast
  let ?d = "d\<lparr>prev_ctx := \<lparr>slider = s\<rparr>, current_ctx := \<lparr>slider = t\<rparr>\<rparr>" and ?f = "f\<lparr>pf_par_builder := b\<rparr>"
  have "handle_subgraph_end (pf_state_handler ?f) SubgraphLeft d = (Ok (), ?d)"
    using update_ctx_states_eq [OF u] by (simp add: handle_subgraph_end_def)
  moreover have "prev_slider ?d = s" "current_slider ?d = t" by (simp_all add: prev_slider_def current_slider_def)
  then obtain d' where "ignore_result (prepare_sliders ?f SubgraphRight) ?d = (Ok () :: (unit, state_fsm_error) result, d')"
    using prepare_sliders_no_panic [of ?d ?f SubgraphRight] s t assms(3,4) by auto
  ultimately show ?thesis using b by (simp add: left_completed_def and_then_lift Let_def and_then_Ok)
qed

lemma left_completed_no_Err: "left_completed f d \<noteq> (Err e, d')"
  by (auto simp: left_completed_def and_then_lift Let_def par_builder_track_def handle_subgraph_end_def update_ctx_states_def
      and_then_def ignore_result_def split: prod.splits result.splits if_splits)

lemma fold_end_Ok:
  assumes "keeper_wf d" "fold_closable (ts_trace (prev_slider d)) (ts_trace (current_slider d)) (length (result_trace d)) f"
  shows "\<exists>d'. fold_meet_fold_end f d = (Ok (), d')"
proof -
  let ?d = "d\<lparr>result_trace := (result_trace d)[unat (si_position (ff_state_inserter f)) := Fold \<lparr>lore = ff_result_lore f\<rparr>]\<rparr>"
  have "state_inserter_insert (ff_state_inserter f) (Fold \<lparr>lore = ff_result_lore f\<rparr>) d = (Ok (), ?d)"
    using assms(2) by (simp add: state_inserter_insert_def and_then_lift trace_index_set_def fold_closable_def)
  moreover obtain d' where "update_ctx_states (ff_state_handler f) ?d = (Ok (), d')"
    using update_ctx_states_safe [of ?d "ff_state_handler f"] assms by (auto simp: fold_closable_def keeper_wf_def)
  ultimately show ?thesis by (simp add: fold_meet_fold_end_def and_then_Ok)
qed

section \<open>Any sequence of calls\<close>

definition fsm_closable :: "execution_trace \<Rightarrow> execution_trace \<Rightarrow> nat \<Rightarrow> fsm_keeper \<Rightarrow> bool" where
  "fsm_closable p c n k \<longleftrightarrow> (\<forall>f\<in>set (par_stack k). par_closable p c n f) \<and> (\<forall>f\<in>ran (fold_map k). fold_closable p c n f)"

definition handler_inv :: "execution_trace \<Rightarrow> execution_trace \<Rightarrow> 'bm trace_handler \<Rightarrow> bool" where
  "handler_inv p c th \<longleftrightarrow> keeper_wf (data_keeper th)
     \<and> ts_trace (prev_slider (data_keeper th)) = p \<and> ts_trace (current_slider (data_keeper th)) = c
     \<and> fsm_closable p c (length (result_trace (data_keeper th))) (fsm_keeper th)"

inductive handler_step :: "'bm bimap_ops \<Rightarrow> 'bm trace_handler \<Rightarrow> 'bm trace_handler \<Rightarrow> bool" for B th where
  call_start: "meet_call_start B th = (r1, t) \<Longrightarrow> handler_step B th t"
| call_end: "meet_call_end cr th = (r2, t) \<Longrightarrow> handler_step B th t"
| ap_start: "meet_ap_start B th = (r3, t) \<Longrightarrow> handler_step B th t"
| ap_end: "meet_ap_end ar th = (r4, t) \<Longrightarrow> handler_step B th t"
| canon_start: "meet_canon_start th = (r5, t) \<Longrightarrow> handler_step B th t"
| canon_end: "meet_canon_end nr th = (r6, t) \<Longrightarrow> handler_step B th t"
| par_start: "meet_par_start th = (r7, t) \<Longrightarrow> handler_step B th t"
| par_end: "meet_par_subgraph_end g th = (r8, t) \<Longrightarrow> handler_step B th t"
| fold_start: "meet_fold_start i th = (r9, t) \<Longrightarrow> handler_step B th t"
| fold_iteration_start: "meet_iteration_start B i v th = (r10, t) \<Longrightarrow> handler_step B th t"
| fold_iteration_end: "meet_iteration_end i th = (r11, t) \<Longrightarrow> handler_step B th t"
| fold_back_iterator: "meet_back_iterator i th = (r12, t) \<Longrightarrow> handler_step B th t"
| fold_generation_end: "meet_generation_end i th = (r13, t) \<Longrightarrow> handler_step B th t"
| fold_end: "meet_fold_end i th = (r14, t) \<Longrightarrow> handler_step B th t"
| generation_update: "update_generation v gen th = (r15, t) \<Longrightarrow> handler_step B th t"

text \<open>Runs of the interface, whatever the calls return.\<close>

inductive handler_reachable ::
    "'bm bimap_ops \<Rightarrow> execution_trace \<Rightarrow> execution_trace \<Rightarrow> 'bm trace_handler \<Rightarrow> bool" for B p c where
  handler_new: "handler_from_trace B p c = (Ok th :: ('bm trace_handler, trace_handler_error) result) \<Longrightarrow>
    handler_reachable B p c th"
| handler_call: "handler_reachable B p c th \<Longrightarrow> handler_step B th t \<Longrightarrow> handler_reachable B p c t"

lemma fsm_closable_mono: "fsm_closable p c n k \<Longrightarrow> n \<le> m \<Longrightarrow> fsm_closable p c m k"
  using closable_mono by (auto simp: fsm_closable_def)

lemma handler_invI:
  assumes "handler_inv p c th" "keeper_change (data_keeper th) (data_keeper t)"
    and "fsm_closable p c (length (result_trace (data_keeper th))) (fsm_keeper th) \<Longrightarrow>
      length (result_trace (data_keeper th)) \<le> length (result_trace (data_keeper t)) \<Longrightarrow>
      fsm_closable p c (length (result_trace (data_keeper t))) (fsm_keeper t)"
  shows "handler_inv p c t"
  using assms by (auto simp: handler_inv_def keeper_change_def same_traces_def)

lemma handler_inv_same_fsm:
  assumes "handler_inv p c th" "keeper_change (data_keeper th) (data_keeper t)" "fsm_keeper t = fsm_keeper th"
  shows "handler_inv p c t"
  using handler_invI [OF assms(1,2)] fsm_closable_mono assms(3) by metis

lemma on_data_keeper_eq:
  "on_data_keeper m th = (case m (data_keeper th) of (r, d) \<Rightarrow> (r, th\<lparr>data_keeper := d\<rparr>))"
  by (simp add: on_data_keeper_def zoom_def split: prod.splits)

lemma on_fsm_keeper_eq:
  "on_fsm_keeper m th = (case m (fsm_keeper th) of (r, k) \<Rightarrow> (r, th\<lparr>fsm_keeper := k\<rparr>))"
  by (simp add: on_fsm_keeper_def zoom_def split: prod.splits)

lemma handler_inv_on_keeper:
  assumes "handler_inv p c th" "keeps id m" "on_data_keeper m th = (r, t)"
  shows "handler_inv p c t"
proof -
  obtain d where m: "m (data_keeper th) = (r, d)" "t = th\<lparr>data_keeper := d\<rparr>"
    using assms(3) by (auto simp: on_data_keeper_eq split: prod.splits)
  with keepsD [OF assms(2), of "data_keeper th" r d] assms(1) show ?thesis
    by (intro handler_inv_same_fsm [OF assms(1)]) (auto simp: handler_inv_def)
qed

lemma push_state_inv: "handler_inv p c th \<Longrightarrow> push_state st th = (r, t) \<Longrightarrow> handler_inv p c t"
  unfolding push_state_def
  by (erule handler_inv_on_keeper) (auto intro!: keeps_result_trace simp: trace_push_def)

lemma map_err_snd: "map_err h m s = (r, t) \<Longrightarrow> \<exists>q. m s = (q, t)"
  by (auto simp: map_err_def split: prod.splits)

lemma meet_par_start_inv:
  assumes "handler_inv p c th" "meet_par_start th = (r, t)"
  shows "handler_inv p c t"
proof -
  obtain q u where m: "on_data_keeper try_merge_next_state_as_par th = (q, u)" by fastforce
  note u = handler_inv_on_keeper [OF assms(1) keeps_mergers(4) m]
  show ?thesis
  proof (cases q)
    case (Ok ing)
    obtain s v where f: "on_data_keeper (from_left_started ing) u = (s, v)" by fastforce
    have v: "handler_inv p c v" "fsm_keeper v = fsm_keeper u"
      using handler_inv_on_keeper [OF u _ f] keeps_par_automaton(2) f
      by (auto simp: on_data_keeper_eq split: prod.splits)
    show ?thesis
    proof (cases s)
      case s: (Ok f)
      have "from_left_started ing (data_keeper u) = (Ok f, data_keeper v)"
        using \<open>on_data_keeper (from_left_started ing) u = (s, v)\<close> s by (auto simp: on_data_keeper_eq split: prod.splits)
      then have "par_closable p c (length (result_trace (data_keeper v))) f"
        using from_left_started_closable u by (fastforce simp: handler_inv_def)
      moreover have "t = v\<lparr>fsm_keeper := push_par f (fsm_keeper v)\<rparr>"
        using assms(2) m Ok \<open>on_data_keeper (from_left_started ing) u = (s, v)\<close> s
        by (simp add: meet_par_start_def and_then_def map_err_def on_fsm_keeper_eq)
      ultimately show ?thesis using v by (auto simp: handler_inv_def fsm_closable_def push_par_def)
    qed (use assms(2) m Ok f v in \<open>auto simp: meet_par_start_def and_then_def map_err_def\<close>)
  qed (use assms(2) m u in \<open>auto simp: meet_par_start_def and_then_def map_err_def\<close>)
qed

lemma meet_fold_start_inv:
  assumes "handler_inv p c th" "meet_fold_start i th = (r, t)"
  shows "handler_inv p c t"
proof -
  obtain q u where m: "on_data_keeper try_merge_next_state_as_fold th = (q, u)" by fastforce
  note u = handler_inv_on_keeper [OF assms(1) keeps_mergers(5) m]
  show ?thesis
  proof (cases q)
    case (Ok ing)
    obtain s v where f: "on_data_keeper (from_fold_start ing) u = (s, v)" by fastforce
    have v: "handler_inv p c v" "fsm_keeper v = fsm_keeper u"
      using handler_inv_on_keeper [OF u _ f] keeps_fold_automaton(1) f
      by (auto simp: on_data_keeper_eq split: prod.splits)
    show ?thesis
    proof (cases s)
      case s: (Ok g)
      have "from_fold_start ing (data_keeper u) = (Ok g, data_keeper v)"
        using f s by (auto simp: on_data_keeper_eq split: prod.splits)
      then have "fold_closable p c (length (result_trace (data_keeper v))) g"
        using from_fold_start_closable u by (fastforce simp: handler_inv_def)
      moreover have "t = v\<lparr>fsm_keeper := add_fold i g (fsm_keeper v)\<rparr>"
        using assms(2) m Ok f s by (simp add: meet_fold_start_def and_then_def map_err_def on_fsm_keeper_eq)
      ultimately show ?thesis
        using v by (auto simp: handler_inv_def fsm_closable_def add_fold_def ran_def split: if_splits)
    qed (use assms(2) m Ok f v in \<open>auto simp: meet_fold_start_def and_then_def map_err_def\<close>)
  qed (use assms(2) m u in \<open>auto simp: meet_fold_start_def and_then_def map_err_def\<close>)
qed

lemma left_completed_closable:
  assumes "left_completed f d = (Ok f', d')" "par_closable p c (length (result_trace d)) f"
  shows "par_closable p c (length (result_trace d')) f'"
  using left_completed_frame(3,5) [OF assms(1)] assms(2) by (simp add: par_closable_def)

lemma meet_par_left_inv:
  assumes "handler_inv p c th" "meet_par_subgraph_end SubgraphLeft th = (r, t)"
  shows "handler_inv p c t"
proof (cases "par_stack (fsm_keeper th) = []")
  case True
  with assms show ?thesis by (simp add: meet_par_subgraph_end_def map_err_def last_par_def and_then_lift)
next
  case False
  let ?f = "last (par_stack (fsm_keeper th))"
  obtain s v where f: "on_data_keeper (left_completed ?f) th = (s, v)" by fastforce
  have v: "handler_inv p c v" "fsm_keeper v = fsm_keeper th"
    using handler_inv_on_keeper [OF assms(1) _ f] keeps_par_automaton(3) f by (auto simp: on_data_keeper_eq split: prod.splits)
  show ?thesis
  proof (cases s)
    case (Ok f')
    have "left_completed ?f (data_keeper th) = (Ok f', data_keeper v)"
      using f Ok by (auto simp: on_data_keeper_eq split: prod.splits)
    moreover have "par_closable p c (length (result_trace (data_keeper th))) ?f"
      using assms(1) False by (simp add: handler_inv_def fsm_closable_def)
    ultimately have "par_closable p c (length (result_trace (data_keeper v))) f'"
      by (rule left_completed_closable)
    moreover have "t = v\<lparr>fsm_keeper := (fsm_keeper v)\<lparr>par_stack := butlast (par_stack (fsm_keeper v)) @ [f']\<rparr>\<rparr>"
      using assms(2) False f Ok
      by (simp add: meet_par_subgraph_end_def map_err_def last_par_def and_then_lift and_then_def on_fsm_keeper_eq)
    ultimately show ?thesis
      using v by (auto simp: handler_inv_def fsm_closable_def dest: in_set_butlastD)
  qed (use assms(2) False f v in \<open>auto simp: meet_par_subgraph_end_def map_err_def last_par_def and_then_lift and_then_def\<close>)
qed

lemma fsm_closable_pop:
  "fsm_closable p c n k \<Longrightarrow> fsm_closable p c n (k\<lparr>par_stack := butlast (par_stack k)\<rparr>)"
  "fsm_closable p c n k \<Longrightarrow> fsm_closable p c n (k\<lparr>fold_map := (fold_map k)(i := None)\<rparr>)"
  by (auto simp: fsm_closable_def ran_def dest: in_set_butlastD split: if_splits)

lemma handler_inv_fsm:
  "handler_inv p c th \<Longrightarrow> fsm_closable p c (length (result_trace (data_keeper th))) k \<Longrightarrow> handler_inv p c (th\<lparr>fsm_keeper := k\<rparr>)"
  by (simp add: handler_inv_def)

lemma meet_par_right_inv:
  assumes "handler_inv p c th" "meet_par_subgraph_end SubgraphRight th = (r, t)"
  shows "handler_inv p c t" "par_stack (fsm_keeper th) \<noteq> [] \<Longrightarrow> r = Ok ()"
proof -
  let ?k = "(fsm_keeper th)\<lparr>par_stack := butlast (par_stack (fsm_keeper th))\<rparr>"
  let ?f = "last (par_stack (fsm_keeper th))"
  have k: "handler_inv p c (th\<lparr>fsm_keeper := ?k\<rparr>)"
    using assms(1) by (intro handler_inv_fsm fsm_closable_pop) (auto simp: handler_inv_def)
  have "handler_inv p c t \<and> (par_stack (fsm_keeper th) \<noteq> [] \<longrightarrow> r = Ok ())"
  proof (cases "par_stack (fsm_keeper th) = []")
    case True
    with assms show ?thesis
      by (auto simp: meet_par_subgraph_end_def map_err_def and_then_def on_fsm_keeper_eq pop_par_def)
  next
    case False
    obtain s where f: "on_data_keeper (right_completed ?f) (th\<lparr>fsm_keeper := ?k\<rparr>) = (s, t)" "r = res_map_err ThStateFSMError s"
      using assms(2) False
      by (auto simp: meet_par_subgraph_end_def map_err_def and_then_def on_fsm_keeper_eq pop_par_def split: prod.splits)
    have "par_closable p c (length (result_trace (data_keeper th))) ?f"
      using assms(1) False by (simp add: handler_inv_def fsm_closable_def)
    then obtain d' where "right_completed ?f (data_keeper th) = (Ok (), d')"
      using right_completed_Ok [of "data_keeper th" ?f] assms(1) by (auto simp: handler_inv_def)
    then have "r = Ok ()" using f by (auto simp: on_data_keeper_eq)
    with handler_inv_on_keeper [OF k _ f(1)] keeps_par_automaton(4) show ?thesis by blast
  qed
  then show "handler_inv p c t" "par_stack (fsm_keeper th) \<noteq> [] \<Longrightarrow> r = Ok ()" by auto
qed

lemma on_fold_inv:
  assumes "handler_inv p c th" "on_fold i m th = (r, t)" "keeps snd m" "keeps_handler m"
  shows "handler_inv p c t"
proof (cases "fold_map (fsm_keeper th) i")
  case None
  with assms(1,2) show ?thesis by (simp add: on_fold_def map_err_def fold_mut_def and_then_lift)
next
  case (Some f)
  obtain q f' d' where m: "m (f, data_keeper th) = (q, (f', d'))" by (metis prod.exhaust)
  have t: "t = th\<lparr>data_keeper := d', fsm_keeper := add_fold i f' (fsm_keeper th)\<rparr>"
    using assms(2) Some m by (simp add: on_fold_def map_err_def fold_mut_def and_then_lift)
  have kc: "keeper_change (data_keeper th) d'"
    using keepsD [OF assms(3) _ m] assms(1) by (simp add: handler_inv_def)
  have "same_handler f f'" using keeps_handlerD [OF assms(4) m] by simp
  moreover have "fold_closable p c (length (result_trace (data_keeper th))) f"
    using assms(1) Some by (auto simp: handler_inv_def fsm_closable_def ran_def)
  ultimately have f': "fold_closable p c (length (result_trace d')) f'"
    using kc by (auto simp: fold_closable_def same_handler_def keeper_change_def)
  have "fsm_closable p c (length (result_trace d')) (fsm_keeper th)"
    using assms(1) kc fsm_closable_mono by (auto simp: handler_inv_def keeper_change_def)
  with f' have "fsm_closable p c (length (result_trace d')) (add_fold i f' (fsm_keeper th))"
    by (auto simp: fsm_closable_def add_fold_def ran_def split: if_splits)
  then show ?thesis
    using kc t by (intro handler_invI [OF assms(1)]) auto
qed

lemma meet_fold_end_inv:
  assumes "handler_inv p c th" "meet_fold_end i th = (r, t)"
  shows "handler_inv p c t" "fold_map (fsm_keeper th) i \<noteq> None \<Longrightarrow> r = Ok ()"
proof -
  let ?k = "(fsm_keeper th)\<lparr>fold_map := (fold_map (fsm_keeper th))(i := None)\<rparr>"
  have k: "handler_inv p c (th\<lparr>fsm_keeper := ?k\<rparr>)"
    using assms(1) by (intro handler_inv_fsm fsm_closable_pop) (auto simp: handler_inv_def)
  have "handler_inv p c t \<and> (fold_map (fsm_keeper th) i \<noteq> None \<longrightarrow> r = Ok ())"
  proof (cases "fold_map (fsm_keeper th) i")
    case None
    with assms show ?thesis
      by (auto simp: meet_fold_end_def map_err_def and_then_def on_fsm_keeper_eq extract_fold_def)
  next
    case (Some f)
    obtain s where f: "on_data_keeper (fold_meet_fold_end f) (th\<lparr>fsm_keeper := ?k\<rparr>) = (s, t)" "r = res_map_err ThStateFSMError s"
      using assms(2) Some
      by (auto simp: meet_fold_end_def map_err_def and_then_def on_fsm_keeper_eq extract_fold_def split: prod.splits)
    have "fold_closable p c (length (result_trace (data_keeper th))) f"
      using assms(1) Some by (auto simp: handler_inv_def fsm_closable_def ran_def)
    then obtain d' where "fold_meet_fold_end f (data_keeper th) = (Ok (), d')"
      using fold_end_Ok [of "data_keeper th" f] assms(1) by (auto simp: handler_inv_def)
    then have "r = Ok ()" using f by (auto simp: on_data_keeper_eq)
    with handler_inv_on_keeper [OF k _ f(1)] keeps_fold_automaton(2) show ?thesis by blast
  qed
  then show "handler_inv p c t" "fold_map (fsm_keeper th) i \<noteq> None \<Longrightarrow> r = Ok ()" by auto
qed

lemma set_result_state_inv: "handler_inv p c th \<Longrightarrow> handler_inv p c (set_result_state v st th)"
  by (simp add: handler_inv_def set_result_state_def keeper_wf_def)

lemma update_generation_inv:
  assumes "handler_inv p c th" "update_generation v g th = (r, t)"
  shows "handler_inv p c t"
  using assms set_result_state_inv [OF assms(1)]
  by (auto simp: update_generation_def and_then_lift
      split: result.splits executed_state.splits call_result.splits value_ref.splits)

lemma handler_step_inv:
  assumes "handler_step B th t" "handler_inv p c th"
  shows "handler_inv p c t"
  using assms(1)
proof (cases rule: handler_step.cases)
  case (par_end g r)
  then show ?thesis using assms(2) meet_par_left_inv meet_par_right_inv(1) by (cases g) blast+
qed (use assms(2) in \<open>auto simp: meet_call_start_def meet_ap_start_def meet_canon_start_def meet_call_end_def
    meet_ap_end_def meet_canon_end_def meet_iteration_start_def meet_iteration_end_def meet_back_iterator_def
    meet_generation_end_def fold_operations_keep_handler
    dest!: map_err_snd intro: handler_inv_on_keeper keeps_mergers push_state_inv meet_par_start_inv meet_fold_start_inv
    on_fold_inv keeps_fold_automaton meet_fold_end_inv(1) update_generation_inv\<close>)

lemma handler_new_inv:
  assumes "handler_from_trace B p c = Ok th"
  shows "handler_inv p c th"
proof -
  obtain d where "data_keeper_from_trace B p c = (Ok d :: (_, unit) result)" "th = \<lparr>data_keeper = d, fsm_keeper = fsm_keeper_default\<rparr>"
    using assms
    by (auto simp: handler_from_trace_def data_keeper_from_trace_def merge_ctx_from_trace_def slider_new_def
        trace_states_count_def split: if_splits)
  with data_keeper_from_trace_wf [of B p c d] show ?thesis
    by (auto simp: handler_inv_def fsm_closable_def fsm_keeper_default_def)
qed

lemma handler_reachable_inv: "handler_reachable B p c th \<Longrightarrow> handler_inv p c th"
  by (induction rule: handler_reachable.induct) (auto intro: handler_new_inv handler_step_inv)

lemma left_end_outcome:
  assumes inv: "handler_inv p c th" and open_par: "par_stack (fsm_keeper th) \<noteq> []"
  shows "meet_par_subgraph_end SubgraphLeft th \<noteq> (Err e, t)"
    and "2 * length p < u32_bound \<Longrightarrow> 2 * length c < u32_bound \<Longrightarrow> keeper_in_trace (data_keeper th) \<Longrightarrow>
      \<exists>t. meet_par_subgraph_end SubgraphLeft th = (Ok (), t)"
proof -
  let ?f = "last (par_stack (fsm_keeper th))"
  obtain r d where l: "left_completed ?f (data_keeper th) = (r, d)" by fastforce
  have outcome: "meet_par_subgraph_end SubgraphLeft th = (case r of
      Ok f' \<Rightarrow> (Ok (), th\<lparr>data_keeper := d, fsm_keeper := (fsm_keeper th)\<lparr>par_stack := butlast (par_stack (fsm_keeper th)) @ [f']\<rparr>\<rparr>)
    | Err e \<Rightarrow> (Err (ThStateFSMError e), th\<lparr>data_keeper := d\<rparr>) | Panic \<Rightarrow> (Panic, th\<lparr>data_keeper := d\<rparr>))"
    using open_par l
    by (simp add: meet_par_subgraph_end_def map_err_def last_par_def and_then_lift and_then_def on_data_keeper_eq on_fsm_keeper_eq
        split: result.splits)
  with l left_completed_no_Err show "meet_par_subgraph_end SubgraphLeft th \<noteq> (Err e, t)" by (cases r) auto
  show "\<exists>t. meet_par_subgraph_end SubgraphLeft th = (Ok (), t)"
    if small: "2 * length p < u32_bound" "2 * length c < u32_bound" and inside: "keeper_in_trace (data_keeper th)"
  proof -
    have "par_closable p c (length (result_trace (data_keeper th))) ?f"
      using inv open_par by (simp add: handler_inv_def fsm_closable_def)
    then obtain f' where "r = Ok f'"
      using left_completed_Ok [of "data_keeper th" ?f] small inside inv l by (auto simp: handler_inv_def)
    with outcome show ?thesis by simp
  qed
qed

lemma closing_succeeds:
  assumes inv: "handler_inv p c th"
  shows "par_stack (fsm_keeper th) \<noteq> [] \<Longrightarrow> \<exists>t. meet_par_subgraph_end SubgraphRight th = (Ok (), t)"
    and "fold_map (fsm_keeper th) i \<noteq> None \<Longrightarrow> \<exists>t. meet_fold_end i th = (Ok (), t)"
  using meet_par_right_inv(2) [OF inv] meet_fold_end_inv(2) [OF inv] by (metis prod.exhaust)+

section \<open>Properties\<close>

text \<open>
  C3. Closing. Take any sequence of calls of the trace handler, in any order, with any arguments and
  whatever errors occurred on the way. The input traces are unchanged and the windows of both sliders
  lie inside them unless they are empty. The right subgraph of the last par that was started can be
  ended, and so can every fold that was started: these calls return successfully and do not panic. The
  end of the left subgraph of the last par never returns an error; it returns successfully when the
  traces are shorter than $2^{31}$ states and both sliders stand inside their traces. A slider with an
  empty window may stand outside, after an iteration of a fold whose lore gives an empty subtrace
  there; \<^verbatim>\<open>set_subtrace_len\<close> may panic then.
\<close>

theorem handler_closing_never_fails:
  assumes "handler_reachable B p c th"
  shows "ts_trace (prev_slider (data_keeper th)) = p \<and> ts_trace (current_slider (data_keeper th)) = c
    \<and> keeper_wf (data_keeper th)
    \<and> (par_stack (fsm_keeper th) \<noteq> [] \<longrightarrow>
        (\<exists>t. meet_par_subgraph_end SubgraphRight th = (Ok (), t))
        \<and> (\<forall>e t. meet_par_subgraph_end SubgraphLeft th \<noteq> (Err e, t))
        \<and> (2 * length p < u32_bound \<and> 2 * length c < u32_bound \<and> keeper_in_trace (data_keeper th) \<longrightarrow>
            (\<exists>t. meet_par_subgraph_end SubgraphLeft th = (Ok (), t))))
    \<and> (fold_map (fsm_keeper th) i \<noteq> None \<longrightarrow> (\<exists>t. meet_fold_end i th = (Ok (), t)))"
proof -
  note inv = handler_reachable_inv [OF assms]
  show ?thesis using inv closing_succeeds [OF inv] left_end_outcome [OF inv] by (simp add: handler_inv_def)
qed

definition example_handler :: "execution_trace \<Rightarrow> execution_trace \<Rightarrow> (trace_pos \<Rightarrow> trace_pos option) trace_handler" where
  "example_handler p c = \<lparr>data_keeper = example_keeper p c, fsm_keeper = fsm_keeper_default\<rparr>"

lemma example_handler_new:
  "length p < u32_bound \<Longrightarrow> length c < u32_bound \<Longrightarrow> handler_from_trace fun_bimap p c = Ok (example_handler p c)"
  by (simp add: handler_from_trace_def data_keeper_from_trace_def merge_ctx_from_trace_def slider_new_def
      example_handler_def example_keeper_def example_slider_def)

lemma example_par_start:
  "\<exists>f d. meet_par_start (example_handler [] []) = (Ok (), \<lparr>data_keeper = d, fsm_keeper = push_par f fsm_keeper_default\<rparr>)"
proof -
  have k: "keeper_in_trace (example_keeper [] [])" "result_trace (example_keeper [] []) = []"
      "try_merge_next_state_as_par (example_keeper [] [])
        = (Ok \<lparr>prev_par = None, current_par = None\<rparr>, step_sliders (example_keeper [] []))"
      "step_sliders (example_keeper [] []) = example_keeper [] []"
    using example_slider_wf [of "[]"]
    by (simp_all add: keeper_in_trace_def example_keeper_wf try_merge_par_eq step_sliders_def step_slider_def)
      (simp add: example_keeper_def)
  obtain f d1 where "from_left_started \<lparr>prev_par = None, current_par = None\<rparr> (example_keeper [] []) = (Ok f, d1)"
    using Par_Fsm.par_start [OF k(1), of par_result_default "\<lparr>prev_par = None, current_par = None\<rparr>" par_result_default] k(2)
    by (auto simp: par_fits_def par_result_default_def)
  then show ?thesis
    using k(3,4)
    by (intro exI [of _ f] exI [of _ d1])
      (simp add: meet_par_start_def and_then_def map_err_def on_data_keeper_eq on_fsm_keeper_eq example_handler_def)
qed

lemma handler_closing_never_fails_witness:
  "\<exists>th t. handler_reachable fun_bimap [] [] th \<and> par_stack (fsm_keeper th) \<noteq> []
     \<and> meet_par_subgraph_end SubgraphRight th = (Ok (), t) \<and> (\<forall>e u. meet_par_subgraph_end SubgraphLeft th \<noteq> (Err e, u))"
proof -
  obtain f d where t: "meet_par_start (example_handler [] []) = (Ok (), \<lparr>data_keeper = d, fsm_keeper = push_par f fsm_keeper_default\<rparr>)"
    using example_par_start by blast
  let ?t = "\<lparr>data_keeper = d, fsm_keeper = push_par f fsm_keeper_default\<rparr>"
  have "handler_reachable fun_bimap [] [] (example_handler [] [])"
    by (rule handler_new) (simp add: example_handler_new)
  with t have "handler_reachable fun_bimap [] [] ?t"
    by (auto intro: handler_call handler_step.par_start)
  moreover have "par_stack (fsm_keeper ?t) \<noteq> []" by (simp add: push_par_def)
  ultimately show ?thesis using handler_closing_never_fails by blast
qed

lemma update_generation_eq:
  "update_generation v g th =
    (case trace_get (result_trace (data_keeper th)) v of
       None \<Rightarrow> (Err (TracePosPointsToNowhere v), th)
     | Some (Call (Executed (Stream c _))) \<Rightarrow> (Ok (), set_result_state v (Call (Executed (Stream c g))) th)
     | Some (Ap ap) \<Rightarrow> (Ok (), set_result_state v (Ap \<lparr>res_generations = [g]\<rparr>) th)
     | Some state \<Rightarrow> (Err (TracePosPointsToInvalidState v state), th))"
proof -
  have ap: "ap\<lparr>res_generations := [g]\<rparr> = \<lparr>res_generations = [g]\<rparr>" for ap :: ap_result
    by (cases ap) simp
  show ?thesis
    by (auto simp: ap update_generation_def and_then_lift
        split: option.splits executed_state.splits call_result.splits value_ref.splits)
qed

text \<open>
  \<^verbatim>\<open>update_generation\<close> on every branch: it changes the generation of a stream call or of an ap
  and nothing else of the handler, in particular not the CID of the call, and reports a position
  outside the result trace or a state without a generation without changing anything.
\<close>

theorem update_generation_table:
  "update_generation v g th =
    (case trace_get (result_trace (data_keeper th)) v of
       None \<Rightarrow> (Err (TracePosPointsToNowhere v), th)
     | Some (Call (Executed (Stream c _))) \<Rightarrow> (Ok (), set_result_state v (Call (Executed (Stream c g))) th)
     | Some (Ap ap) \<Rightarrow> (Ok (), set_result_state v (Ap \<lparr>res_generations = [g]\<rparr>) th)
     | Some state \<Rightarrow> (Err (TracePosPointsToInvalidState v state), th))"
  by (rule update_generation_eq)

end
