(* ===== verification/Air_Values.thy ===== *)
theory Air_Values
  imports Trace_Handler
begin

text \<open>
  Data of the interpreter: JSON values (\<^verbatim>\<open>interpreter-value\<close>), tetraplets, values with their
  provenance (\<^verbatim>\<open>air/src/execution_step/value_types/scalar.rs\<close>, \<^verbatim>\<open>scalar/values.rs\<close>), the matrices a
  stream is made of (the data of \<^verbatim>\<open>stream/values_matrix.rs\<close> and \<^verbatim>\<open>stream/stream_definition.rs\<close>; the
  operations are in the theory of streams), and the errors of an execution with their codes
  (\<^verbatim>\<open>execution_step/errors\<close>, \<^verbatim>\<open>utils\<close>).

  The numbers of a JSON value are those of the \<^verbatim>\<open>serde_json\<close> package: the type variable \<open>'n\<close>.
  \<^verbatim>\<open>SecurityTetraplet\<close> is a plain record of the \<^verbatim>\<open>marine\<close> package.
\<close>

section \<open>Values\<close>

datatype 'n jvalue =
    JNull
  | JBool bool
  | JNumber 'n
  | JString string
  | JArray "'n jvalue list"
  | JObject "(string \<times> 'n jvalue) list"

text \<open>An object is a \<^verbatim>\<open>BTreeMap\<close>: an association list in the order of its distinct keys.\<close>

fun as_object :: "'n jvalue \<Rightarrow> (string \<times> 'n jvalue) list option" where
  "as_object (JObject m) = Some m"
| "as_object _ = None"

record security_tetraplet =
  peer_pk :: string
  service_id :: string
  function_name :: string
  lens :: string

record resolved_triplet =
  rt_peer_pk :: string
  rt_service_id :: string
  rt_function_name :: string

definition tetraplet_from_triplet :: "resolved_triplet \<Rightarrow> security_tetraplet" where
  "tetraplet_from_triplet triplet = \<lparr>peer_pk = rt_peer_pk triplet, service_id = rt_service_id triplet,
     function_name = rt_function_name triplet, lens = []\<rparr>"

definition literal_tetraplet :: "string \<Rightarrow> security_tetraplet" where
  "literal_tetraplet init_peer_id = \<lparr>peer_pk = init_peer_id, service_id = [], function_name = [], lens = []\<rparr>"

datatype provenance = ProvLiteral | ProvServiceResult cid | ProvCanon cid

record 'n literal_aggregate =
  la_result :: "'n jvalue"
  la_init_peer_id :: string
  la_trace_pos :: trace_pos

record 'n service_result_aggregate =
  sra_result :: "'n jvalue"
  sra_tetraplet :: security_tetraplet
  sra_trace_pos :: trace_pos

record 'n canon_result_aggregate =
  cra_result :: "'n jvalue"
  cra_peer_id :: string
  cra_lambda :: string
  cra_trace_pos :: trace_pos

datatype 'n value_aggregate =
    LiteralValue "'n literal_aggregate"
  | ServiceResultValue "'n service_result_aggregate" cid
  | CanonValue "'n canon_result_aggregate" cid

definition literal_aggregate_new :: "'n jvalue \<Rightarrow> string \<Rightarrow> trace_pos \<Rightarrow> 'n literal_aggregate" where
  "literal_aggregate_new v peer pos = \<lparr>la_result = v, la_init_peer_id = peer, la_trace_pos = pos\<rparr>"

definition literal_get_tetraplet :: "'n literal_aggregate \<Rightarrow> security_tetraplet" where
  "literal_get_tetraplet self = literal_tetraplet (la_init_peer_id self)"

definition service_result_aggregate_new ::
    "'n jvalue \<Rightarrow> security_tetraplet \<Rightarrow> trace_pos \<Rightarrow> 'n service_result_aggregate" where
  "service_result_aggregate_new v tetraplet pos = \<lparr>sra_result = v, sra_tetraplet = tetraplet, sra_trace_pos = pos\<rparr>"

definition canon_result_aggregate_new ::
    "'n jvalue \<Rightarrow> string \<Rightarrow> string \<Rightarrow> trace_pos \<Rightarrow> 'n canon_result_aggregate" where
  "canon_result_aggregate_new v peer lambda pos =
     \<lparr>cra_result = v, cra_peer_id = peer, cra_lambda = lambda, cra_trace_pos = pos\<rparr>"

definition canon_get_tetraplet :: "'n canon_result_aggregate \<Rightarrow> security_tetraplet" where
  "canon_get_tetraplet self =
     \<lparr>peer_pk = cra_peer_id self, service_id = [], function_name = [], lens = cra_lambda self\<rparr>"

fun value_aggregate_new ::
    "'n jvalue \<Rightarrow> security_tetraplet \<Rightarrow> trace_pos \<Rightarrow> provenance \<Rightarrow> 'n value_aggregate" where
  "value_aggregate_new v tetraplet pos ProvLiteral =
     LiteralValue (literal_aggregate_new v (peer_pk tetraplet) pos)"
| "value_aggregate_new v tetraplet pos (ProvServiceResult c) =
     ServiceResultValue (service_result_aggregate_new v tetraplet pos) c"
| "value_aggregate_new v tetraplet pos (ProvCanon c) =
     CanonValue (canon_result_aggregate_new v (peer_pk tetraplet) (lens tetraplet) pos) c"

definition from_literal_result :: "'n literal_aggregate \<Rightarrow> 'n value_aggregate" where
  "from_literal_result literal = LiteralValue literal"

definition from_service_result :: "'n service_result_aggregate \<Rightarrow> cid \<Rightarrow> 'n value_aggregate" where
  "from_service_result r c = ServiceResultValue r c"

definition from_canon_result :: "'n canon_result_aggregate \<Rightarrow> cid \<Rightarrow> 'n value_aggregate" where
  "from_canon_result r c = CanonValue r c"

fun as_inner_parts :: "'n value_aggregate \<Rightarrow> 'n jvalue \<times> security_tetraplet \<times> trace_pos" where
  "as_inner_parts (LiteralValue l) = (la_result l, literal_get_tetraplet l, la_trace_pos l)"
| "as_inner_parts (ServiceResultValue r _) = (sra_result r, sra_tetraplet r, sra_trace_pos r)"
| "as_inner_parts (CanonValue r _) = (cra_result r, canon_get_tetraplet r, cra_trace_pos r)"

fun get_result :: "'n value_aggregate \<Rightarrow> 'n jvalue" where
  "get_result (LiteralValue l) = la_result l"
| "get_result (ServiceResultValue r _) = sra_result r"
| "get_result (CanonValue r _) = cra_result r"

fun get_tetraplet :: "'n value_aggregate \<Rightarrow> security_tetraplet" where
  "get_tetraplet (LiteralValue l) = literal_get_tetraplet l"
| "get_tetraplet (ServiceResultValue r _) = sra_tetraplet r"
| "get_tetraplet (CanonValue r _) = canon_get_tetraplet r"

fun get_provenance :: "'n value_aggregate \<Rightarrow> provenance" where
  "get_provenance (LiteralValue _) = ProvLiteral"
| "get_provenance (ServiceResultValue _ c) = ProvServiceResult c"
| "get_provenance (CanonValue _ c) = ProvCanon c"

fun get_trace_pos :: "'n value_aggregate \<Rightarrow> trace_pos" where
  "get_trace_pos (LiteralValue l) = la_trace_pos l"
| "get_trace_pos (ServiceResultValue r _) = sra_trace_pos r"
| "get_trace_pos (CanonValue r _) = cra_trace_pos r"

fun set_trace_pos :: "trace_pos \<Rightarrow> 'n value_aggregate \<Rightarrow> 'n value_aggregate" where
  "set_trace_pos pos (LiteralValue l) = LiteralValue (l\<lparr>la_trace_pos := pos\<rparr>)"
| "set_trace_pos pos (ServiceResultValue r c) = ServiceResultValue (r\<lparr>sra_trace_pos := pos\<rparr>) c"
| "set_trace_pos pos (CanonValue r c) = CanonValue (r\<lparr>cra_trace_pos := pos\<rparr>) c"

section \<open>Data of streams\<close>

record 'v values_matrix =
  vm_values :: "'v list list"
  vm_size :: nat

text \<open>\<^verbatim>\<open>NewValuesMatrix\<close> is a wrapper of one matrix.\<close>

type_synonym 'v new_values_matrix = "'v values_matrix"

record 'v stream =
  previous_values :: "'v values_matrix"
  current_values :: "'v values_matrix"
  new_values :: "'v new_values_matrix"

datatype generation = GenPrevious generation_idx | GenCurrent generation_idx | GenNew

section \<open>Errors\<close>

datatype 'n lambda_error =
    CanonStreamNotHaveEnoughValues nat nat
  | EmptyStream
  | FieldAccessorAppliedToStream string
  | ArrayAccessorNotMatchValue "'n jvalue" u32
  | ValueNotContainSuchArrayIdx "'n jvalue" u32
  | ValueNotContainSuchField "'n jvalue" string
  | FieldAccessorNotMatchValue "'n jvalue" string
  | IndexAccessNotU32 'n
  | ScalarAccessorHasInvalidType "'n jvalue"
  | StreamAccessorHasInvalidType "'n jvalue"
  | CanonStreamMapAccessorHasInvalidType "'n jvalue"
  | CanonStreamMapAccessorMustNotBeIterable

datatype 'n error_object_error =
    ScalarMustBeObject "'n jvalue"
  | ScalarMustContainField "'n jvalue" string
  | ScalarFieldIsWrongType "'n jvalue" string string
  | ErrorCodeMustBeNonZero

datatype stream_map_error = UnsupportedMapKeyType string
datatype canon_stream_map_error = NoDataToProduceScalar
datatype stream_map_key_error = NotAnObject | ValueFieldIsAbsent | UnsupportedKVPairObjectOrMapKeyType

datatype 'n catchable_error =
    LocalServiceError int string
  | MatchValuesNotEqual
  | MismatchValuesEqual
  | VariableNotFound string
  | IncompatibleJValueType string "'n jvalue" string
  | FoldIteratesOverNonArray "'n jvalue" string
  | UserError "'n jvalue"
  | LambdaApplierError "'n lambda_error"
  | InvalidErrorObjectError "'n error_object_error"
  | VariableWasNotInitializedAfterNew string
  | LengthFunctorAppliedToNotArray "'n jvalue"
  | NonStringValueInTripletResolution string "'n jvalue"
  | CatchableStreamMapError stream_map_error

text \<open>The errors of other packages that some constructors wrap are represented by their messages.\<close>

datatype 'n uncatchable_error =
    TraceError trace_handler_error string
  | GenerationCompactificationError generation_compactification_error
  | IntConversionError int_conversion_error
  | FoldStateNotFound string
  | IterableShadowing string
  | MultipleIterableValues string
  | CallResultNotCorrespondToInstr value_ref
  | ShadowingIsNotAllowed string
  | ScalarsStateCorrupted string nat
  | CidError string
  | ValueForCidNotFound string cid
  | StreamDontHaveSuchGeneration "'n value_aggregate stream" generation
  | MalformedCallServiceFailed string
  | StreamSizeLimitExceeded
  | StreamMapKeyError stream_map_key_error
  | UncatchableStreamMapError stream_map_error
  | CanonStreamMapError canon_stream_map_error
  | InstructionParametersMismatch string string string
  | SigningError string
  | TetrapletSerializationFailed string
  | CallArgumentsSerializationFailed string

datatype 'n execution_error = Catchable "'n catchable_error" | Uncatchable "'n uncatchable_error"

fun is_catchable :: "'n execution_error \<Rightarrow> bool" where
  "is_catchable (Catchable _) = True"
| "is_catchable (Uncatchable _) = False"

fun is_match_or_mismatch :: "'n execution_error \<Rightarrow> bool" where
  "is_match_or_mismatch (Catchable MatchValuesNotEqual) = True"
| "is_match_or_mismatch (Catchable MismatchValuesEqual) = True"
| "is_match_or_mismatch _ = False"

definition trace_to_exec_err :: "string \<Rightarrow> ('s, 'a, trace_handler_error) comp \<Rightarrow> ('s, 'a, 'n execution_error) comp" where
  "trace_to_exec_err instruction m = map_err (\<lambda>e. Uncatchable (TraceError e instruction)) m"

fun catchable_affects_last_error :: "'n catchable_error \<Rightarrow> bool" where
  "catchable_affects_last_error MatchValuesNotEqual = False"
| "catchable_affects_last_error MismatchValuesEqual = False"
| "catchable_affects_last_error _ = True"

fun catchable_is_joinable :: "'n catchable_error \<Rightarrow> bool" where
  "catchable_is_joinable (VariableNotFound _) = True"
| "catchable_is_joinable _ = False"

fun affects_last_error :: "'n execution_error \<Rightarrow> bool" where
  "affects_last_error (Catchable e) = catchable_affects_last_error e"
| "affects_last_error (Uncatchable _) = False"

fun affects_error :: "'n execution_error \<Rightarrow> bool" where
  "affects_error (Catchable _) = True"
| "affects_error (Uncatchable _) = False"

fun is_joinable :: "'n execution_error \<Rightarrow> bool" where
  "is_joinable (Catchable e) = catchable_is_joinable e"
| "is_joinable (Uncatchable _) = False"

section \<open>Error codes\<close>

text \<open>
  \<^verbatim>\<open>generate_to_error_code!\<close> looks the variant of an error up in the list of all variants, in the
  order of the enumeration, and adds its position to the start of the error type's range.
\<close>

definition CATCHABLE_ERRORS_START_ID :: int where
  "CATCHABLE_ERRORS_START_ID = 10000"

definition UNCATCHABLE_ERRORS_START_ID :: int where
  "UNCATCHABLE_ERRORS_START_ID = 20000"

definition FAREWELL_ERRORS_START_ID :: int where
  "FAREWELL_ERRORS_START_ID = 30000"

fun catchable_discriminant :: "'n catchable_error \<Rightarrow> nat" where
  "catchable_discriminant (LocalServiceError _ _) = 0"
| "catchable_discriminant MatchValuesNotEqual = 1"
| "catchable_discriminant MismatchValuesEqual = 2"
| "catchable_discriminant (VariableNotFound _) = 3"
| "catchable_discriminant (IncompatibleJValueType _ _ _) = 4"
| "catchable_discriminant (FoldIteratesOverNonArray _ _) = 5"
| "catchable_discriminant (UserError _) = 6"
| "catchable_discriminant (LambdaApplierError _) = 7"
| "catchable_discriminant (InvalidErrorObjectError _) = 8"
| "catchable_discriminant (VariableWasNotInitializedAfterNew _) = 9"
| "catchable_discriminant (LengthFunctorAppliedToNotArray _) = 10"
| "catchable_discriminant (NonStringValueInTripletResolution _ _) = 11"
| "catchable_discriminant (CatchableStreamMapError _) = 12"

fun uncatchable_discriminant :: "'n uncatchable_error \<Rightarrow> nat" where
  "uncatchable_discriminant (TraceError _ _) = 0"
| "uncatchable_discriminant (GenerationCompactificationError _) = 1"
| "uncatchable_discriminant (IntConversionError _) = 2"
| "uncatchable_discriminant (FoldStateNotFound _) = 3"
| "uncatchable_discriminant (IterableShadowing _) = 4"
| "uncatchable_discriminant (MultipleIterableValues _) = 5"
| "uncatchable_discriminant (CallResultNotCorrespondToInstr _) = 6"
| "uncatchable_discriminant (ShadowingIsNotAllowed _) = 7"
| "uncatchable_discriminant (ScalarsStateCorrupted _ _) = 8"
| "uncatchable_discriminant (CidError _) = 9"
| "uncatchable_discriminant (ValueForCidNotFound _ _) = 10"
| "uncatchable_discriminant (StreamDontHaveSuchGeneration _ _) = 11"
| "uncatchable_discriminant (MalformedCallServiceFailed _) = 12"
| "uncatchable_discriminant StreamSizeLimitExceeded = 13"
| "uncatchable_discriminant (StreamMapKeyError _) = 14"
| "uncatchable_discriminant (UncatchableStreamMapError _) = 15"
| "uncatchable_discriminant (CanonStreamMapError _) = 16"
| "uncatchable_discriminant (InstructionParametersMismatch _ _ _) = 17"
| "uncatchable_discriminant (SigningError _) = 18"
| "uncatchable_discriminant (TetrapletSerializationFailed _) = 19"
| "uncatchable_discriminant (CallArgumentsSerializationFailed _) = 20"

fun to_error_code :: "'n execution_error \<Rightarrow> int" where
  "to_error_code (Catchable e) = CATCHABLE_ERRORS_START_ID + int (catchable_discriminant e)"
| "to_error_code (Uncatchable e) = UNCATCHABLE_ERRORS_START_ID + int (uncatchable_discriminant e)"

section \<open>Lemmas\<close>

lemma value_aggregate_new_parts:
  "get_result (value_aggregate_new v t p q) = v" "get_trace_pos (value_aggregate_new v t p q) = p"
  "get_provenance (value_aggregate_new v t p q) = q"
  by (cases q; simp add: literal_aggregate_new_def service_result_aggregate_new_def canon_result_aggregate_new_def)+

lemma as_inner_parts_eq: "as_inner_parts v = (get_result v, get_tetraplet v, get_trace_pos v)"
  by (cases v) simp_all

text \<open>Rebuilding a value from its parts, as the stream map and the lambda applier do, gives the value.\<close>

lemma value_aggregate_rebuild:
  "value_aggregate_new (get_result v) (get_tetraplet v) (get_trace_pos v) (get_provenance v) = v"
  by (cases v) (simp_all add: literal_get_tetraplet_def literal_tetraplet_def literal_aggregate_new_def
      service_result_aggregate_new_def canon_get_tetraplet_def canon_result_aggregate_new_def)

end
