(* ===== verification/Air_Streams.thy ===== *)
theory Air_Streams
  imports Air_Values "HOL-Library.Multiset"
begin

text \<open>
  Streams (\<^verbatim>\<open>air/src/execution_step/value_types/stream\<close>): the matrix of values by generations
  (\<^verbatim>\<open>values_matrix.rs\<close>), the stream with its previous, current and new values and the
  compactification of generations (\<^verbatim>\<open>stream_definition.rs\<close>), and the cursor of a recursive fold
  (\<^verbatim>\<open>recursive_stream.rs\<close>).

  The values of a stream are generic, as in the code; \<^verbatim>\<open>get_trace_pos\<close> of the trait
  \<^verbatim>\<open>TracePosOperate\<close> is an argument. An iterator is the list of what it yields.
\<close>

section \<open>Matrix of values\<close>

definition values_matrix_new :: "'v values_matrix" where
  "values_matrix_new = \<lparr>vm_values = [], vm_size = 0\<rparr>"

definition remove_empty_generations :: "'v values_matrix \<Rightarrow> 'v values_matrix" where
  "remove_empty_generations self = self\<lparr>vm_values := filter (\<lambda>g. g \<noteq> []) (vm_values self)\<rparr>"

definition generations_count :: "'v values_matrix \<Rightarrow> generation_idx" where
  "generations_count self = generation_from_usize (length (vm_values self))"

definition values_matrix_iter :: "'v values_matrix \<Rightarrow> 'v list" where
  "values_matrix_iter self = concat (vm_values self)"

definition values_matrix_slice_iter :: "generation_idx \<Rightarrow> 'v values_matrix \<Rightarrow> 'v list list" where
  "values_matrix_slice_iter skip self = drop (unat skip) (filter (\<lambda>g. g \<noteq> []) (vm_values self))"

definition get_size :: "'v values_matrix \<Rightarrow> nat" where
  "get_size self = vm_size self"

definition resize :: "nat \<Rightarrow> 'a \<Rightarrow> 'a list \<Rightarrow> 'a list" where
  "resize n x xs = take n xs @ replicate (n - length xs) x"

definition add_value_to_generation :: "'v \<Rightarrow> generation_idx \<Rightarrow> ('v values_matrix, unit, 'e) comp" where
  "add_value_to_generation v generation_idx =
     and_then (gets id) (\<lambda>self.
     and_then (if length (vm_values self) \<le> unat generation_idx
       then and_then (lift (unwrap (generation_checked_add generation_idx 1))) (\<lambda>new_size.
            modify (\<lambda>m. m\<lparr>vm_values := resize (unat new_size) [] (vm_values m)\<rparr>))
       else ret ()) (\<lambda>_.
     modify (\<lambda>m. m\<lparr>vm_values := (vm_values m)[unat generation_idx := vm_values m ! unat generation_idx @ [v]],
                    vm_size := vm_size m + 1\<rparr>)))"

section \<open>Matrix of new values\<close>

definition new_values_matrix_new :: "'v new_values_matrix" where
  "new_values_matrix_new = values_matrix_new"

definition add_new_empty_generation :: "'v new_values_matrix \<Rightarrow> 'v new_values_matrix" where
  "add_new_empty_generation self = self\<lparr>vm_values := vm_values self @ [[]]\<rparr>"

definition remove_last_generation :: "'v new_values_matrix \<Rightarrow> 'v new_values_matrix" where
  "remove_last_generation self = self\<lparr>vm_values := butlast (vm_values self)\<rparr>"

definition last_non_empty_generation_idx :: "'v new_values_matrix \<Rightarrow> generation_idx" where
  "last_non_empty_generation_idx self =
     (if length (vm_values self) = 0 then generation_from_usize 0
      else generation_from_usize (length (vm_values self) - 1))"

definition last_generation_is_empty :: "'v new_values_matrix \<Rightarrow> (bool, 'e) result" where
  "last_generation_is_empty self =
     (if vm_values self = [] then Ok True
      else res_then (index_vec (vm_values self) (unat (last_non_empty_generation_idx self))) (\<lambda>g. Ok (g = [])))"

definition add_to_last_generation :: "'v \<Rightarrow> ('v new_values_matrix, unit, 'e) comp" where
  "add_to_last_generation v =
     and_then (gets last_non_empty_generation_idx) (\<lambda>last_generation_idx.
     add_value_to_generation v last_generation_idx)"

section \<open>Stream\<close>

definition STREAM_MAX_SIZE :: nat where
  "STREAM_MAX_SIZE = 1024"

record stream_cursor =
  previous_start_idx :: generation_idx
  current_start_idx :: generation_idx
  new_start_idx :: generation_idx

definition stream_new :: "'v stream" where
  "stream_new = \<lparr>previous_values = values_matrix_new, current_values = values_matrix_new,
     new_values = new_values_matrix_new\<rparr>"

definition stream_iter :: "'v stream \<Rightarrow> 'v list" where
  "stream_iter self = values_matrix_iter (previous_values self) @ values_matrix_iter (current_values self)
     @ values_matrix_iter (new_values self)"

definition stream_slice_iter :: "stream_cursor \<Rightarrow> 'v stream \<Rightarrow> 'v list list" where
  "stream_slice_iter c self =
     values_matrix_slice_iter (previous_start_idx c) (previous_values self)
     @ values_matrix_slice_iter (current_start_idx c) (current_values self)
     @ values_matrix_slice_iter (new_start_idx c) (new_values self)"

definition stream_cursor_new :: "generation_idx \<Rightarrow> generation_idx \<Rightarrow> generation_idx \<Rightarrow> stream_cursor" where
  "stream_cursor_new p c n = \<lparr>previous_start_idx = p, current_start_idx = c, new_start_idx = n\<rparr>"

definition stream_cursor_empty :: stream_cursor where
  "stream_cursor_empty = \<lparr>previous_start_idx = generation_from_usize 0, current_start_idx = generation_from_usize 0,
     new_start_idx = generation_from_usize 0\<rparr>"

definition cursor_of :: "'v stream \<Rightarrow> stream_cursor" where
  "cursor_of self = stream_cursor_new (generations_count (previous_values self))
     (generations_count (current_values self)) (generations_count (new_values self))"

definition check_stream_size_limit :: "'v stream \<Rightarrow> (unit, 'n execution_error) result" where
  "check_stream_size_limit self =
     (let prev_size = get_size (previous_values self);
          curr_size = get_size (current_values self);
          new_size = get_size (new_values self);
          cumulative_size = prev_size + curr_size + new_size in
      if STREAM_MAX_SIZE \<le> cumulative_size then Err (Uncatchable StreamSizeLimitExceeded) else Ok ())"

definition on_previous :: "('v values_matrix, 'a, 'e) comp \<Rightarrow> ('v stream, 'a, 'e) comp" where
  "on_previous m = zoom previous_values previous_values_update m"

definition on_current :: "('v values_matrix, 'a, 'e) comp \<Rightarrow> ('v stream, 'a, 'e) comp" where
  "on_current m = zoom current_values current_values_update m"

definition on_new :: "('v new_values_matrix, 'a, 'e) comp \<Rightarrow> ('v stream, 'a, 'e) comp" where
  "on_new m = zoom new_values new_values_update m"

definition add_value :: "'v \<Rightarrow> generation \<Rightarrow> ('v stream, unit, 'n execution_error) comp" where
  "add_value v g =
     and_then (case g of
         GenPrevious previous_gen \<Rightarrow> on_previous (add_value_to_generation v previous_gen)
       | GenCurrent current_gen \<Rightarrow> on_current (add_value_to_generation v current_gen)
       | GenNew \<Rightarrow> on_new (add_to_last_generation v)) (\<lambda>_.
     and_then (gets id) (\<lambda>self.
     lift (check_stream_size_limit self)))"

definition generation_from_data :: "value_source \<Rightarrow> generation_idx \<Rightarrow> generation" where
  "generation_from_data data_type g = (case data_type of PreviousData \<Rightarrow> GenPrevious g | CurrentData \<Rightarrow> GenCurrent g)"

definition generation_from_met_result :: "met_ap_result \<Rightarrow> generation" where
  "generation_from_met_result r = generation_from_data (mar_value_source r) (mar_generation r)"

section \<open>Compactification\<close>

fun update_generation_values ::
    "('v \<Rightarrow> trace_pos) \<Rightarrow> 'v list \<Rightarrow> generation_idx \<Rightarrow> ('bm trace_handler, unit, 'n execution_error) comp" where
  "update_generation_values pos_of [] g = ret ()"
| "update_generation_values pos_of (v # vs) g =
     and_then (map_err (\<lambda>e. Uncatchable (GenerationCompactificationError e)) (update_generation (pos_of v) g)) (\<lambda>_.
     update_generation_values pos_of vs g)"

text \<open>\<open>position\<close> is the counter of \<^verbatim>\<open>enumerate\<close>.\<close>

fun update_generations_from ::
    "('v \<Rightarrow> trace_pos) \<Rightarrow> nat \<Rightarrow> 'v list list \<Rightarrow> generation_idx \<Rightarrow> ('bm trace_handler, unit, 'n execution_error) comp" where
  "update_generations_from pos_of position [] start_idx = ret ()"
| "update_generations_from pos_of position (vs # rest) start_idx =
     and_then (lift (unwrap (generation_checked_add start_idx (generation_from_usize position)))) (\<lambda>g.
     and_then (update_generation_values pos_of vs g) (\<lambda>_.
     update_generations_from pos_of (Suc position) rest start_idx))"

definition update_generations ::
    "('v \<Rightarrow> trace_pos) \<Rightarrow> 'v list list \<Rightarrow> generation_idx \<Rightarrow> ('bm trace_handler, unit, 'n execution_error) comp" where
  "update_generations pos_of values start_idx = update_generations_from pos_of 0 values start_idx"

definition remove_all_empty_generations :: "'v stream \<Rightarrow> 'v stream" where
  "remove_all_empty_generations self =
     \<lparr>previous_values = remove_empty_generations (previous_values self),
      current_values = remove_empty_generations (current_values self),
      new_values = remove_empty_generations (new_values self)\<rparr>"

text \<open>The computation is on the stream and the trace handler it updates.\<close>

definition compactify ::
    "('v \<Rightarrow> trace_pos) \<Rightarrow> ('v stream \<times> 'bm trace_handler, unit, 'n execution_error) comp" where
  "compactify pos_of =
     and_then (modify (apfst remove_all_empty_generations)) (\<lambda>_.
     and_then (gets fst) (\<lambda>self.
     and_then (zoom snd (\<lambda>f. apsnd f) (update_generations pos_of (values_matrix_slice_iter 0 (previous_values self)) 0)) (\<lambda>_.
     let start_idx = generations_count (previous_values self) in
     and_then (zoom snd (\<lambda>f. apsnd f) (update_generations pos_of (values_matrix_slice_iter 0 (current_values self)) start_idx)) (\<lambda>_.
     and_then (lift (unwrap (generation_checked_add start_idx (generations_count (current_values self))))) (\<lambda>start_idx.
     zoom snd (\<lambda>f. apsnd f) (update_generations pos_of (values_matrix_slice_iter 0 (new_values self)) start_idx))))))"

section \<open>Recursive cursor\<close>

record recursive_stream_cursor =
  rc_cursor :: stream_cursor

datatype 'v recursive_cursor_state = Continue "'v list list" | Exhausted

definition recursive_cursor_new :: recursive_stream_cursor where
  "recursive_cursor_new = \<lparr>rc_cursor = stream_cursor_empty\<rparr>"

fun from_iterable_values :: "'v list list \<Rightarrow> 'v recursive_cursor_state" where
  "from_iterable_values [] = Exhausted"
| "from_iterable_values vs = Continue vs"

fun should_continue :: "'v recursive_cursor_state \<Rightarrow> bool" where
  "should_continue (Continue _) = True"
| "should_continue Exhausted = False"

definition cursor_state :: "recursive_stream_cursor \<Rightarrow> 'v stream \<Rightarrow> 'v recursive_cursor_state" where
  "cursor_state self s = from_iterable_values (stream_slice_iter (rc_cursor self) s)"

definition met_fold_start ::
    "recursive_stream_cursor \<Rightarrow> 'v stream \<Rightarrow> 'v recursive_cursor_state \<times> recursive_stream_cursor \<times> 'v stream" where
  "met_fold_start self s =
     (let state = cursor_state self s;
          self = \<lparr>rc_cursor = cursor_of s\<rparr>;
          s = (if should_continue state then s\<lparr>new_values := add_new_empty_generation (new_values s)\<rparr> else s)
      in (state, self, s))"

definition remove_last_generation_if_empty :: "'v stream \<Rightarrow> ('v stream, 'e) result" where
  "remove_last_generation_if_empty s =
     res_then (last_generation_is_empty (new_values s)) (\<lambda>empty.
     Ok (if empty then s\<lparr>new_values := remove_last_generation (new_values s)\<rparr> else s))"

definition met_iteration_end ::
    "recursive_stream_cursor \<Rightarrow> 'v stream
       \<Rightarrow> ('v recursive_cursor_state \<times> recursive_stream_cursor \<times> 'v stream, 'e) result" where
  "met_iteration_end self s =
     (let state = cursor_state self s in
      res_then (remove_last_generation_if_empty s) (\<lambda>s.
      Ok (state, \<lparr>rc_cursor = cursor_of s\<rparr>, s\<lparr>new_values := add_new_empty_generation (new_values s)\<rparr>)))"

section \<open>Matrices and streams keep their size\<close>

definition matrix_wf :: "'v values_matrix \<Rightarrow> bool" where
  "matrix_wf m \<longleftrightarrow> vm_size m = length (concat (vm_values m))"

definition stream_wf :: "'v stream \<Rightarrow> bool" where
  "stream_wf s \<longleftrightarrow> matrix_wf (previous_values s) \<and> matrix_wf (current_values s) \<and> matrix_wf (new_values s)
     \<and> length (vm_values (new_values s)) < u32_bound"

definition stream_size :: "'v stream \<Rightarrow> nat" where
  "stream_size s = length (stream_iter s)"

text \<open>What \<^verbatim>\<open>add_value_to_generation\<close> does when it does not panic.\<close>

definition put_value :: "'v \<Rightarrow> nat \<Rightarrow> 'v values_matrix \<Rightarrow> 'v values_matrix" where
  "put_value v i m = (let vs = vm_values m @ replicate (Suc i - length (vm_values m)) []
     in \<lparr>vm_values = vs[i := vs ! i @ [v]], vm_size = Suc (vm_size m)\<rparr>)"

lemma add_value_to_generation_eq:
  "add_value_to_generation v g m =
     (if length (vm_values m) \<le> unat g \<and> unat g = u32_bound - 1 then (Panic, m) else (Ok (), put_value v (unat g) m))"
proof (cases "length (vm_values m) \<le> unat g")
  case True
  have b: "unat g \<le> 4294967295" using unat_lt_u32_bound [of g] by linarith
  have c: "generation_checked_add g 1 = (if unat g = u32_bound - 1 then None else Some (g + 1))"
    using b by (auto simp: generation_checked_add_def checked_add_def)
  have "unat (g + 1) = Suc (unat g)" if "unat g \<noteq> u32_bound - 1"
    using that b by (subst unat_add_u32) auto
  with True c show ?thesis
    by (auto simp: add_value_to_generation_def and_then_lift and_then_def put_value_def resize_def Let_def)
next
  case False
  then show ?thesis
    by (cases m) (simp add: add_value_to_generation_def and_then_def put_value_def Let_def)
qed

lemma mset_concat_update:
  "i < length xs \<Longrightarrow> mset (concat (xs[i := xs ! i @ [v]])) = add_mset v (mset (concat xs))"
proof (induction xs arbitrary: i)
  case (Cons x xs)
  then show ?case by (cases i) simp_all
qed simp

lemma put_value_values:
  "mset (concat (vm_values (put_value v i m))) = add_mset v (mset (concat (vm_values m)))"
  using mset_concat_update [of i "vm_values m @ replicate (Suc i - length (vm_values m)) []" v]
  by (auto simp: put_value_def Let_def)

lemma put_value_wf: "matrix_wf m \<Longrightarrow> matrix_wf (put_value v i m)"
  using arg_cong [OF put_value_values [of v i m], of size]
  by (simp add: matrix_wf_def) (simp add: put_value_def Let_def)

lemma put_value_length: "length (vm_values (put_value v i m)) = max (Suc i) (length (vm_values m))"
  by (simp add: put_value_def Let_def)

lemma put_value_row:
  "vm_values (put_value v i m) ! i = (if i < length (vm_values m) then vm_values m ! i else []) @ [v]"
  "j \<noteq> i \<Longrightarrow> j < length (vm_values m) \<Longrightarrow> vm_values (put_value v i m) ! j = vm_values m ! j"
  by (simp_all add: put_value_def Let_def nth_append)

lemma last_idx: "length (vm_values m) < u32_bound \<Longrightarrow>
    unat (last_non_empty_generation_idx m) = length (vm_values m) - 1"
  by (simp add: last_non_empty_generation_idx_def generation_from_usize_def)

lemma add_to_last_generation_eq:
  "length (vm_values m) < u32_bound \<Longrightarrow> add_to_last_generation v m = (Ok (), put_value v (length (vm_values m) - 1) m)"
  by (simp add: add_to_last_generation_def add_value_to_generation_eq last_idx)

text \<open>The matrix a value goes to, and the row.\<close>

fun put_in_stream :: "'v \<Rightarrow> generation \<Rightarrow> 'v stream \<Rightarrow> 'v stream" where
  "put_in_stream v (GenPrevious g) s = s\<lparr>previous_values := put_value v (unat g) (previous_values s)\<rparr>"
| "put_in_stream v (GenCurrent g) s = s\<lparr>current_values := put_value v (unat g) (current_values s)\<rparr>"
| "put_in_stream v GenNew s = s\<lparr>new_values := put_value v (length (vm_values (new_values s)) - 1) (new_values s)\<rparr>"

fun generation_overflows :: "generation \<Rightarrow> 'v stream \<Rightarrow> bool" where
  "generation_overflows (GenPrevious g) s \<longleftrightarrow> length (vm_values (previous_values s)) \<le> unat g \<and> unat g = u32_bound - 1"
| "generation_overflows (GenCurrent g) s \<longleftrightarrow> length (vm_values (current_values s)) \<le> unat g \<and> unat g = u32_bound - 1"
| "generation_overflows GenNew s \<longleftrightarrow> False"

lemma put_in_stream_wf: "stream_wf s \<Longrightarrow> stream_wf (put_in_stream v g s)"
  by (cases g) (auto simp: stream_wf_def put_value_wf put_value_length)

lemma put_in_stream_values: "mset (stream_iter (put_in_stream v g s)) = add_mset v (mset (stream_iter s))"
  by (cases g) (simp_all add: stream_iter_def values_matrix_iter_def put_value_values)

lemma put_in_stream_size: "stream_size (put_in_stream v g s) = Suc (stream_size s)"
  using arg_cong [OF put_in_stream_values [of v g s], of size] by (simp add: stream_size_def)

lemma check_size_eq:
  "stream_wf s \<Longrightarrow> check_stream_size_limit s
     = (if stream_size s < STREAM_MAX_SIZE then Ok () else Err (Uncatchable StreamSizeLimitExceeded))"
  by (auto simp: check_stream_size_limit_def Let_def stream_wf_def matrix_wf_def get_size_def stream_size_def
      stream_iter_def values_matrix_iter_def)

lemma add_value_eq:
  assumes "stream_wf s"
  shows "add_value v g s = (if generation_overflows g s then (Panic, s)
    else (if Suc (stream_size s) < STREAM_MAX_SIZE then Ok () else Err (Uncatchable StreamSizeLimitExceeded),
          put_in_stream v g s))"
proof -
  note wf = put_in_stream_wf [OF assms, of v g]
  have len: "length (vm_values (new_values s)) < u32_bound" using assms by (simp add: stream_wf_def)
  have "(case g of
         GenPrevious previous_gen \<Rightarrow> on_previous (add_value_to_generation v previous_gen)
       | GenCurrent current_gen \<Rightarrow> on_current (add_value_to_generation v current_gen)
       | GenNew \<Rightarrow> on_new (add_to_last_generation v)) s
    = (if generation_overflows g s then (Panic, s) else (Ok () :: (unit, 'b execution_error) result, put_in_stream v g s))"
    using len by (cases g) (auto simp: on_previous_def on_current_def on_new_def zoom_def add_value_to_generation_eq
        add_to_last_generation_eq)
  then show ?thesis
    by (simp add: add_value_def and_then_def check_size_eq [OF wf] put_in_stream_size)
qed

section \<open>Compactification stamps the generations into the trace\<close>

fun has_generation :: "executed_state \<Rightarrow> bool" where
  "has_generation (Ap _) = True"
| "has_generation (Call (Executed (Stream _ _))) = True"
| "has_generation _ = False"

fun with_generation :: "generation_idx \<Rightarrow> executed_state \<Rightarrow> executed_state" where
  "with_generation g (Ap a) = Ap \<lparr>res_generations = [g]\<rparr>"
| "with_generation g (Call (Executed (Stream c _))) = Call (Executed (Stream c g))"
| "with_generation g s = s"

lemma has_with_generation [simp]: "has_generation (with_generation g s) = has_generation s"
  by (cases s rule: has_generation.cases) simp_all

fun stamp_row :: "generation_idx \<Rightarrow> nat list \<Rightarrow> execution_trace \<Rightarrow> execution_trace" where
  "stamp_row g [] t = t"
| "stamp_row g (i # is) t = stamp_row g is (t[i := with_generation g (t ! i)])"

fun stamp :: "nat \<Rightarrow> nat list list \<Rightarrow> execution_trace \<Rightarrow> execution_trace" where
  "stamp k [] t = t"
| "stamp k (row # rows) t = stamp (Suc k) rows (stamp_row (of_nat k) row t)"

abbreviation valid_positions :: "nat list \<Rightarrow> execution_trace \<Rightarrow> bool" where
  "valid_positions is t \<equiv> \<forall>i \<in> set is. i < length t \<and> has_generation (t ! i)"

lemma stamp_row_length [simp]: "length (stamp_row g is t) = length t"
  by (induction "is" arbitrary: t) simp_all

lemma stamp_length [simp]: "length (stamp k rows t) = length t"
  by (induction rows arbitrary: k t) simp_all

lemma stamp_row_has [simp]: "has_generation (stamp_row g is t ! j) = has_generation (t ! j)"
proof (induction "is" arbitrary: t)
  case (Cons i "is")
  have "has_generation (t[i := with_generation g (t ! i)] ! j) = has_generation (t ! j)"
    by (cases "i < length t") (auto simp: nth_list_update list_update_beyond)
  with Cons.IH show ?case by simp
qed simp

lemma stamp_row_other: "j \<notin> set is \<Longrightarrow> stamp_row g is t ! j = t ! j"
  by (induction "is" arbitrary: t) simp_all

lemma stamp_row_in:
  "j \<in> set is \<Longrightarrow> distinct is \<Longrightarrow> j < length t \<Longrightarrow> stamp_row g is t ! j = with_generation g (t ! j)"
proof (induction "is" arbitrary: t)
  case (Cons i "is")
  then show ?case
    by (cases "j = i") (simp_all add: stamp_row_other nth_list_update_neq)
qed simp

lemma stamp_append: "stamp k (xs @ ys) t = stamp (k + length xs) ys (stamp k xs t)"
  by (induction xs arbitrary: k t) simp_all

lemma stamp_has [simp]: "has_generation (stamp k rows t ! j) = has_generation (t ! j)"
  by (induction rows arbitrary: k t) simp_all

lemma stamp_other: "j \<notin> set (concat rows) \<Longrightarrow> stamp k rows t ! j = t ! j"
  by (induction rows arbitrary: k t) (simp_all add: stamp_row_other)

lemma stamp_in:
  "distinct (concat rows) \<Longrightarrow> i < length rows \<Longrightarrow> j \<in> set (rows ! i) \<Longrightarrow> j < length t
    \<Longrightarrow> stamp k rows t ! j = with_generation (of_nat (k + i)) (t ! j)"
proof (induction rows arbitrary: k t i)
  case (Cons row rows)
  show ?case
  proof (cases i)
    case 0
    with Cons.prems have "j \<in> set row" "j \<notin> set (concat rows)" "distinct row" by auto
    then show ?thesis using 0 Cons.prems by (simp add: stamp_other stamp_row_in)
  next
    case (Suc n)
    with Cons.prems have "j \<notin> set row" "distinct (concat rows)" "n < length rows" "j \<in> set (rows ! n)"
      by (auto simp: distinct_append) (metis IntI UN_I empty_iff nth_mem)
    with Suc Cons.IH [of n "stamp_row (of_nat k) row t" "Suc k"] Cons.prems show ?thesis
      by (simp add: stamp_row_other)
  qed
qed simp

abbreviation set_trace :: "'bm trace_handler \<Rightarrow> execution_trace \<Rightarrow> 'bm trace_handler" where
  "set_trace th t \<equiv> th\<lparr>data_keeper := (data_keeper th)\<lparr>result_trace := t\<rparr>\<rparr>"

lemma update_generation_valid:
  assumes "unat p < length (result_trace (data_keeper th))" "has_generation (result_trace (data_keeper th) ! unat p)"
  shows "update_generation p g th = (Ok (), set_trace th ((result_trace (data_keeper th))
    [unat p := with_generation g (result_trace (data_keeper th) ! unat p)]))"
  using assms(2) by (cases "result_trace (data_keeper th) ! unat p" rule: has_generation.cases)
    (use assms(1) in \<open>simp_all add: update_generation_eq trace_get_def set_result_state_def\<close>)

lemma update_generation_invalid:
  assumes "\<not> (unat p < length (result_trace (data_keeper th)) \<and> has_generation (result_trace (data_keeper th) ! unat p))"
  shows "\<exists>e. update_generation p g th = (Err e, th)"
proof (cases "unat p < length (result_trace (data_keeper th))")
  case True
  with assms show ?thesis
    by (cases "result_trace (data_keeper th) ! unat p" rule: has_generation.cases)
      (simp_all add: update_generation_eq trace_get_def)
qed (simp add: update_generation_eq trace_get_def)

lemma update_generation_values_eq:
  assumes "valid_positions (map (\<lambda>v. unat (pos_of v)) vs) (result_trace (data_keeper th))"
  shows "update_generation_values pos_of vs g th
    = (Ok (), set_trace th (stamp_row g (map (\<lambda>v. unat (pos_of v)) vs) (result_trace (data_keeper th))))"
  using assms
proof (induction vs arbitrary: th)
  case (Cons v vs)
  let ?t = "result_trace (data_keeper th)"
  have u: "update_generation (pos_of v) g th
      = (Ok (), set_trace th (?t[unat (pos_of v) := with_generation g (?t ! unat (pos_of v))]))"
    using Cons.prems by (intro update_generation_valid) auto
  have "valid_positions (map (\<lambda>v. unat (pos_of v)) vs) (?t[unat (pos_of v) := with_generation g (?t ! unat (pos_of v))])"
    using Cons.prems by (auto simp: nth_list_update)
  with Cons.IH [of "set_trace th (?t[unat (pos_of v) := with_generation g (?t ! unat (pos_of v))])"] show ?case
    by (simp add: u and_then_def map_err_def)
qed simp

lemma update_generations_from_eq:
  assumes "valid_positions (map (\<lambda>v. unat (pos_of v)) (concat rows)) (result_trace (data_keeper th))"
    and "unat start + (position + length rows) < u32_bound"
  shows "update_generations_from pos_of position rows start th
    = (Ok (), set_trace th (stamp (unat start + position) (map (map (\<lambda>v. unat (pos_of v))) rows) (result_trace (data_keeper th))))"
  using assms
proof (induction rows arbitrary: th position)
  case (Cons row rows)
  let ?t = "result_trace (data_keeper th)" and ?g = "of_nat (unat start + position) :: generation_idx"
  have g: "generation_checked_add start (generation_from_usize position) = Some ?g"
    using Cons.prems(2) by (simp add: generation_checked_add_def checked_add_def generation_from_usize_def)
  have "valid_positions (map (\<lambda>v. unat (pos_of v)) row) ?t" using Cons.prems(1) by simp
  note u = update_generation_values_eq [OF this, of ?g]
  have "valid_positions (map (\<lambda>v. unat (pos_of v)) (concat rows)) (stamp_row ?g (map (\<lambda>v. unat (pos_of v)) row) ?t)"
    using Cons.prems(1) by simp
  with Cons.IH [of "set_trace th (stamp_row ?g (map (\<lambda>v. unat (pos_of v)) row) ?t)" "Suc position"] Cons.prems(2) show ?case
    by (simp add: g u and_then_def del: of_nat_add)
qed simp

text \<open>The generations of a stream in the order its values are handled in, without the empty ones.\<close>

definition generations :: "'v stream \<Rightarrow> 'v list list" where
  "generations s = filter (\<lambda>g. g \<noteq> []) (vm_values (previous_values s) @ vm_values (current_values s) @ vm_values (new_values s))"

lemma concat_filter_nonempty [simp]: "concat (filter (\<lambda>g. g \<noteq> []) xss) = concat xss"
  by (induction xss) auto

lemma concat_generations: "concat (generations s) = stream_iter s"
proof -
  have "concat (generations s) = concat (vm_values (previous_values s) @ vm_values (current_values s) @ vm_values (new_values s))"
    unfolding generations_def by (rule concat_filter_nonempty)
  then show ?thesis by (simp add: stream_iter_def values_matrix_iter_def)
qed

lemma slice_iter_0: "values_matrix_slice_iter 0 (remove_empty_generations m) = filter (\<lambda>g. g \<noteq> []) (vm_values m)"
  by (simp add: values_matrix_slice_iter_def remove_empty_generations_def)

lemma generations_count_compact:
  "length (filter (\<lambda>g. g \<noteq> []) (vm_values m)) < u32_bound \<Longrightarrow>
     unat (generations_count (remove_empty_generations m)) = length (filter (\<lambda>g. g \<noteq> []) (vm_values m))"
  by (simp add: generations_count_def generation_from_usize_def remove_empty_generations_def)

lemma compactify_eq:
  assumes "valid_positions (map (\<lambda>v. unat (pos_of v)) (stream_iter s)) (result_trace (data_keeper th))"
    and "length (generations s) < u32_bound"
  shows "(compactify pos_of :: (_, unit, 'n execution_error) comp) (s, th) = (Ok (), (remove_all_empty_generations s,
    set_trace th (stamp 0 (map (map (\<lambda>v. unat (pos_of v))) (generations s)) (result_trace (data_keeper th)))))"
proof -
  let ?ne = "filter (\<lambda>g. g \<noteq> [])" and ?f = "map (map (\<lambda>v. unat (pos_of v)))" and ?t = "result_trace (data_keeper th)"
  let ?p = "?ne (vm_values (previous_values s))" and ?c = "?ne (vm_values (current_values s))" and ?n = "?ne (vm_values (new_values s))"
  have len: "length ?p + length ?c + length ?n < u32_bound" using assms(2) by (simp add: generations_def)
  then have cnt: "unat (generations_count (remove_empty_generations (previous_values s))) = length ?p"
      "unat (generations_count (remove_empty_generations (current_values s))) = length ?c"
    using generations_count_compact [of "previous_values s"] generations_count_compact [of "current_values s"] by simp_all
  have add: "generation_checked_add (generations_count (remove_empty_generations (previous_values s)))
      (generations_count (remove_empty_generations (current_values s))) = Some (of_nat (length ?p + length ?c))"
    using len cnt by (simp add: generation_checked_add_def checked_add_def)
      (simp add: generations_count_def generation_from_usize_def remove_empty_generations_def)
  have all: "valid_positions (map (\<lambda>v. unat (pos_of v)) (concat ?p)) ?t" "valid_positions (map (\<lambda>v. unat (pos_of v)) (concat ?c)) ?t"
      "valid_positions (map (\<lambda>v. unat (pos_of v)) (concat ?n)) ?t"
    using assms(1) unfolding concat_filter_nonempty by (simp_all add: stream_iter_def values_matrix_iter_def)
  have p: "(update_generations pos_of ?p 0 :: (_, unit, 'n execution_error) comp) th = (Ok (), set_trace th (stamp 0 (?f ?p) ?t))"
    using update_generations_from_eq [OF all(1), of 0 0] len by (simp add: update_generations_def)
  let ?t1 = "set_trace th (stamp 0 (?f ?p) ?t)"
  have c: "(update_generations pos_of ?c (generations_count (remove_empty_generations (previous_values s))) :: (_, unit, 'n execution_error) comp) ?t1
      = (Ok (), set_trace th (stamp 0 (?f (?p @ ?c)) ?t))"
    using update_generations_from_eq [of pos_of ?c ?t1 "generations_count (remove_empty_generations (previous_values s))" 0]
      all(2) len cnt by (simp add: update_generations_def stamp_append)
  let ?t2 = "set_trace th (stamp 0 (?f (?p @ ?c)) ?t)"
  have n: "(update_generations pos_of ?n (of_nat (length ?p + length ?c)) :: (_, unit, 'n execution_error) comp) ?t2 = (Ok (), set_trace th (stamp 0 (?f (generations s)) ?t))"
    using update_generations_from_eq [of pos_of ?n ?t2 "of_nat (length ?p + length ?c)" 0] all(3) len
    by (simp add: update_generations_def stamp_append generations_def del: of_nat_add)
  have slices: "values_matrix_slice_iter 0 (previous_values (remove_all_empty_generations s)) = ?p"
      "values_matrix_slice_iter 0 (current_values (remove_all_empty_generations s)) = ?c"
      "values_matrix_slice_iter 0 (new_values (remove_all_empty_generations s)) = ?n"
    by (simp_all add: remove_all_empty_generations_def slice_iter_0)
  have "generations_count (previous_values (remove_all_empty_generations s)) = generations_count (remove_empty_generations (previous_values s))"
      "generations_count (current_values (remove_all_empty_generations s)) = generations_count (remove_empty_generations (current_values s))"
    by (simp_all add: remove_all_empty_generations_def)
  with p c n show ?thesis
    by (simp add: compactify_def Let_def and_then_def zoom_def slices add del: of_nat_add)
qed

section \<open>Recursive folds\<close>

fun yielded :: "'v recursive_cursor_state \<Rightarrow> 'v list" where
  "yielded (Continue gs) = concat gs"
| "yielded Exhausted = []"

text \<open>
  A recursive fold over a stream that starts as \<open>s0\<close>: the values the cursor has handed out so
  far, the cursor and the stream. The body of the fold adds new values to the stream at any time.
\<close>

inductive recursive_run ::
    "'v stream \<Rightarrow> 'v list \<Rightarrow> recursive_stream_cursor \<Rightarrow> 'v stream \<Rightarrow> bool" for s0 where
  run_start: "met_fold_start recursive_cursor_new s0 = (st, c, s) \<Longrightarrow> st \<noteq> Exhausted \<Longrightarrow>
    recursive_run s0 (yielded st) c s"
| run_push: "recursive_run s0 ys c s \<Longrightarrow> add_value v GenNew s = (Ok () :: (unit, unit execution_error) result, s') \<Longrightarrow>
    recursive_run s0 ys c s'"
| run_iteration: "recursive_run s0 ys c s \<Longrightarrow>
    met_iteration_end c s = (Ok (st, c', s') :: (_, unit) result) \<Longrightarrow>
    length (vm_values (new_values s')) < u32_bound \<Longrightarrow>
    recursive_run s0 (ys @ yielded st) c' s'"

definition no_gaps :: "'v stream \<Rightarrow> bool" where
  "no_gaps s \<longleftrightarrow> [] \<notin> set (vm_values (previous_values s)) \<and> [] \<notin> set (vm_values (current_values s))
     \<and> [] \<notin> set (vm_values (new_values s))
     \<and> length (vm_values (previous_values s)) < u32_bound \<and> length (vm_values (current_values s)) < u32_bound
     \<and> Suc (length (vm_values (new_values s))) < u32_bound"

text \<open>Between two steps only the last generation of the new values can be empty, and the cursor points to it.\<close>

definition cursor_inv :: "recursive_stream_cursor \<Rightarrow> 'v stream \<Rightarrow> bool" where
  "cursor_inv c s \<longleftrightarrow> stream_wf s
     \<and> [] \<notin> set (vm_values (previous_values s)) \<and> [] \<notin> set (vm_values (current_values s))
     \<and> unat (previous_start_idx (rc_cursor c)) = length (vm_values (previous_values s))
     \<and> unat (current_start_idx (rc_cursor c)) = length (vm_values (current_values s))
     \<and> (\<exists>front final. vm_values (new_values s) = front @ [final] \<and> [] \<notin> set front
          \<and> unat (new_start_idx (rc_cursor c)) = length front)"

lemma filter_no_empty: "[] \<notin> set xss \<Longrightarrow> filter (\<lambda>g. g \<noteq> []) xss = xss"
  by (induction xss) auto

lemma cursor_inv_pending:
  assumes "cursor_inv c s" "vm_values (new_values s) = front @ [final]"
  shows "stream_slice_iter (rc_cursor c) s = (if final = [] then [] else [final])"
  using assms
  by (auto simp: cursor_inv_def stream_slice_iter_def values_matrix_slice_iter_def filter_no_empty)

lemma cursor_inv_iter:
  assumes "cursor_inv c s" "vm_values (new_values s) = front @ [final]"
  shows "stream_iter s = values_matrix_iter (previous_values s) @ values_matrix_iter (current_values s) @ concat front @ final"
  using assms(2) by (simp add: stream_iter_def values_matrix_iter_def)

lemma met_fold_start_inv:
  assumes "met_fold_start recursive_cursor_new s0 = (st, c, s)" "st \<noteq> Exhausted" "stream_wf s0" "no_gaps s0"
  shows "cursor_inv c s \<and> stream_iter s = yielded st \<and> stream_slice_iter (rc_cursor c) s = []"
proof -
  have slice: "stream_slice_iter stream_cursor_empty s0 = generations s0"
    by (simp add: stream_slice_iter_def stream_cursor_empty_def generation_from_usize_def values_matrix_slice_iter_def
        generations_def)
  have st: "st = from_iterable_values (generations s0)" "should_continue st"
    using assms(1,2) by (auto simp: met_fold_start_def Let_def cursor_state_def recursive_cursor_new_def slice)
      (metis recursive_cursor_state.exhaust should_continue.simps(1))
  then have y: "yielded st = stream_iter s0"
    using concat_generations [of s0] by (cases "generations s0") auto
  have c: "c = \<lparr>rc_cursor = cursor_of s0\<rparr>" "s = s0\<lparr>new_values := add_new_empty_generation (new_values s0)\<rparr>"
    using assms(1) st by (auto simp: met_fold_start_def Let_def cursor_state_def recursive_cursor_new_def slice)
  then have new: "vm_values (new_values s) = vm_values (new_values s0) @ [[]]"
    by (simp add: add_new_empty_generation_def)
  have inv: "cursor_inv c s"
    using assms(3,4) c
    by (auto simp: cursor_inv_def no_gaps_def stream_wf_def matrix_wf_def cursor_of_def stream_cursor_new_def
        generations_count_def generation_from_usize_def add_new_empty_generation_def)
  have "stream_iter s = stream_iter s0"
    using c by (simp add: stream_iter_def values_matrix_iter_def add_new_empty_generation_def)
  with inv y cursor_inv_pending [OF inv new] show ?thesis by simp
qed

lemma push_inv:
  assumes "cursor_inv c s" "add_value v GenNew s = (Ok () :: (unit, 'n execution_error) result, s')"
  shows "cursor_inv c s' \<and> stream_iter s' = stream_iter s @ [v]
    \<and> concat (stream_slice_iter (rc_cursor c) s') = concat (stream_slice_iter (rc_cursor c) s) @ [v]"
proof -
  obtain front final where new: "vm_values (new_values s) = front @ [final]" "[] \<notin> set front"
    using assms(1) by (auto simp: cursor_inv_def)
  have wf: "stream_wf s" using assms(1) by (simp add: cursor_inv_def)
  then have s': "s' = put_in_stream v GenNew s"
    using assms(2) by (simp add: add_value_eq)
  then have new': "vm_values (new_values s') = front @ [final @ [v]]"
    using new by (simp add: put_value_def Let_def)
  have inv: "cursor_inv c s'"
    using assms(1) s' new new' put_in_stream_wf [OF wf, of v GenNew] by (auto simp: cursor_inv_def)
  show ?thesis
    using cursor_inv_iter [OF assms(1) new(1)] cursor_inv_iter [OF inv new'] cursor_inv_pending [OF assms(1) new(1)]
      cursor_inv_pending [OF inv new'] inv s'
    by simp
qed

lemma last_generation_is_empty_eq:
  "length (vm_values m) < u32_bound \<Longrightarrow> vm_values m = front @ [final] \<Longrightarrow> last_generation_is_empty m = Ok (final = [])"
  by (simp add: last_generation_is_empty_def last_idx index_vec_def)

lemma met_iteration_end_inv:
  assumes "cursor_inv c s" "met_iteration_end c s = Ok (st, c', s')" "length (vm_values (new_values s')) < u32_bound"
  shows "cursor_inv c' s' \<and> stream_iter s' = stream_iter s \<and> yielded st = concat (stream_slice_iter (rc_cursor c) s)
    \<and> stream_slice_iter (rc_cursor c') s' = []"
proof -
  obtain front final where new: "vm_values (new_values s) = front @ [final]" "[] \<notin> set front"
    using assms(1) by (auto simp: cursor_inv_def)
  have wf: "stream_wf s" "length (vm_values (new_values s)) < u32_bound"
    using assms(1) by (auto simp: cursor_inv_def stream_wf_def)
  define s1 where "s1 = (if final = [] then s\<lparr>new_values := remove_last_generation (new_values s)\<rparr> else s)"
  have r: "remove_last_generation_if_empty s = (Ok s1 :: (_, 'b) result)"
    by (simp add: remove_last_generation_if_empty_def s1_def last_generation_is_empty_eq [OF wf(2) new(1)])
  have out: "st = cursor_state c s" "c' = \<lparr>rc_cursor = cursor_of s1\<rparr>"
      "s' = s1\<lparr>new_values := add_new_empty_generation (new_values s1)\<rparr>"
    using assms(2) by (auto simp: met_iteration_end_def Let_def r)
  have s1: "vm_values (new_values s1) = (if final = [] then front else front @ [final])" "stream_iter s1 = stream_iter s"
      "previous_values s1 = previous_values s" "current_values s1 = current_values s"
      "vm_size (new_values s1) = vm_size (new_values s)"
    using new(1) by (auto simp: s1_def remove_last_generation_def stream_iter_def values_matrix_iter_def)
  have new': "vm_values (new_values s') = vm_values (new_values s1) @ [[]]" and it: "stream_iter s' = stream_iter s1"
    using out(3) by (simp_all add: add_new_empty_generation_def stream_iter_def values_matrix_iter_def)
  have "length (vm_values (previous_values s)) < u32_bound" "length (vm_values (current_values s)) < u32_bound"
    using assms(1) by (metis cursor_inv_def unat_lt_u32_bound)+
  then have inv: "cursor_inv c' s'"
    using assms(1,3) new new' out s1 wf
    by (auto simp: cursor_inv_def stream_wf_def matrix_wf_def cursor_of_def stream_cursor_new_def generations_count_def
        generation_from_usize_def add_new_empty_generation_def split: if_splits)
  have "yielded st = concat (stream_slice_iter (rc_cursor c) s)"
    using out(1) by (cases "stream_slice_iter (rc_cursor c) s") (simp_all add: cursor_state_def)
  with inv cursor_inv_pending [OF inv new'] it s1(2) show ?thesis by simp
qed

lemma recursive_run_inv:
  assumes "recursive_run s0 ys c s" "stream_wf s0" "no_gaps s0"
  shows "cursor_inv c s \<and> stream_iter s = ys @ concat (stream_slice_iter (rc_cursor c) s)"
  using assms(1)
proof (induction rule: recursive_run.induct)
  case (run_start st c s)
  then show ?case using met_fold_start_inv [OF run_start assms(2,3)] by simp
next
  case (run_push ys c s v s')
  then show ?case using push_inv [of c s v s'] by auto
next
  case (run_iteration ys c s st c' s')
  then show ?case using met_iteration_end_inv [of c s st c' s'] by auto
qed

section \<open>Properties\<close>

text \<open>
  C25. \<^verbatim>\<open>Stream::add_value\<close> on every branch: it panics exactly on a generation number of
  \<^verbatim>\<open>u32::MAX\<close> that the stream does not have; otherwise exactly the given value is added, to the end
  of the requested generation, the counters stay right, and the call fails exactly when the
  stream then holds \<^verbatim>\<open>STREAM_MAX_SIZE\<close> values or more. The value stays in the stream also then.
\<close>

theorem add_value_outcome:
  assumes "stream_wf s" and "add_value v g s = (r :: (unit, 'n execution_error) result, s')"
  shows "(r = Panic \<longleftrightarrow> generation_overflows g s)
    \<and> (r = Panic \<longrightarrow> s' = s)
    \<and> (r \<noteq> Panic \<longrightarrow> s' = put_in_stream v g s \<and> stream_wf s'
        \<and> mset (stream_iter s') = add_mset v (mset (stream_iter s))
        \<and> (r = Ok () \<longleftrightarrow> stream_size s' < STREAM_MAX_SIZE)
        \<and> (r \<noteq> Ok () \<longrightarrow> r = Err (Uncatchable StreamSizeLimitExceeded)))"
  using assms(2) put_in_stream_wf [OF assms(1), of v g] put_in_stream_values [of v g s] put_in_stream_size [of v g s]
  by (auto simp: add_value_eq [OF assms(1)] split: if_splits)

lemma add_value_outcome_witness:
  "\<exists>s'. add_value (7 :: nat) (GenPrevious 2) stream_new = (Ok () :: (unit, unit execution_error) result, s')
     \<and> mset (stream_iter s') = {#7#}"
proof -
  have wf: "stream_wf (stream_new :: nat stream)"
    by (simp add: stream_wf_def stream_new_def matrix_wf_def values_matrix_new_def new_values_matrix_new_def)
  obtain r s' where a: "add_value (7 :: nat) (GenPrevious 2) stream_new = (r :: (unit, unit execution_error) result, s')"
    by fastforce
  have "\<not> generation_overflows (GenPrevious 2) (stream_new :: nat stream)" by simp
  moreover have "stream_iter (stream_new :: nat stream) = []"
    by (simp add: stream_iter_def values_matrix_iter_def stream_new_def values_matrix_new_def new_values_matrix_new_def)
  moreover note add_value_outcome [OF wf a]
  ultimately have "mset (stream_iter s') = {#7#}" "r = Ok () \<longleftrightarrow> stream_size s' < STREAM_MAX_SIZE" by auto
  moreover from this(1) have "stream_iter s' = [7]" by simp
  ultimately show ?thesis using a by (simp add: stream_size_def STREAM_MAX_SIZE_def)
qed

text \<open>
  C22. Compactification. When every value of the stream points to a state of the result trace that
  has a generation, no two to the same, \<^verbatim>\<open>compactify\<close> succeeds: the values and their order stay,
  no generation is empty any more, and every value's state in the trace has the number of the
  value's generation, counted over previous, current and new values; nothing else of the
  handler changes.
\<close>

theorem compactify_correct:
  assumes "\<forall>v \<in> set (stream_iter s). unat (pos_of v) < length (result_trace (data_keeper th))
      \<and> has_generation (result_trace (data_keeper th) ! unat (pos_of v))"
    and "distinct (map pos_of (stream_iter s))"
    and "length (generations s) < u32_bound"
  shows "\<exists>s' t. (compactify pos_of :: (_, unit, 'n execution_error) comp) (s, th) = (Ok (), (s', set_trace th t))
    \<and> stream_iter s' = stream_iter s
    \<and> [] \<notin> set (vm_values (previous_values s') @ vm_values (current_values s') @ vm_values (new_values s'))
    \<and> length t = length (result_trace (data_keeper th))
    \<and> (\<forall>i < length (generations s'). \<forall>v \<in> set (generations s' ! i).
        t ! unat (pos_of v) = with_generation (of_nat i) (result_trace (data_keeper th) ! unat (pos_of v)))
    \<and> (\<forall>j. j \<notin> (\<lambda>v. unat (pos_of v)) ` set (stream_iter s) \<longrightarrow> t ! j = result_trace (data_keeper th) ! j)"
proof -
  let ?t = "result_trace (data_keeper th)" and ?rows = "map (map (\<lambda>v. unat (pos_of v))) (generations s)"
  let ?s = "remove_all_empty_generations s"
  have rows: "concat ?rows = map (\<lambda>v. unat (pos_of v)) (stream_iter s)"
    by (simp add: map_concat [symmetric] concat_generations)
  have "inj_on (unat :: trace_pos \<Rightarrow> nat) A" for A by (rule inj_onI) (simp add: word_unat_eq_iff)
  then have "distinct (map unat (map pos_of (stream_iter s)))"
    using assms(2) by (simp only: distinct_map [of unat])
  then have dist: "distinct (concat ?rows)"
    unfolding rows by (simp add: comp_def)
  have gens: "generations ?s = generations s"
    by (simp add: generations_def remove_all_empty_generations_def remove_empty_generations_def)
  have in_row: "v \<in> set (stream_iter s)" if "i < length (generations s)" "v \<in> set (generations s ! i)" for i v
    using that by (auto simp: concat_generations [symmetric])
  have "stamp 0 ?rows ?t ! unat (pos_of v) = with_generation (of_nat i) (?t ! unat (pos_of v))"
    if "i < length (generations s)" "v \<in> set (generations s ! i)" for i v
    using stamp_in [OF dist, of i "unat (pos_of v)" ?t 0] that in_row [OF that] assms(1) by auto
  moreover have "stamp 0 ?rows ?t ! j = ?t ! j" if "j \<notin> (\<lambda>v. unat (pos_of v)) ` set (stream_iter s)" for j
    using that stamp_other [of j ?rows 0 ?t] rows by (metis set_map)
  moreover have "stream_iter ?s = stream_iter s"
    using gens by (simp add: concat_generations [symmetric])
  moreover have "[] \<notin> set (vm_values (previous_values ?s) @ vm_values (current_values ?s) @ vm_values (new_values ?s))"
    by (simp add: remove_all_empty_generations_def remove_empty_generations_def)
  ultimately show ?thesis
    using compactify_eq [of pos_of s th] assms(1,3) gens
    by (intro exI [of _ ?s] exI [of _ "stamp 0 ?rows ?t"]) auto
qed

definition gap_stream :: "trace_pos stream" where
  "gap_stream = \<lparr>previous_values = \<lparr>vm_values = [[], [1], []], vm_size = 1\<rparr>, current_values = values_matrix_new,
     new_values = \<lparr>vm_values = [[0]], vm_size = 1\<rparr>\<rparr>"

definition gap_handler :: "(trace_pos \<Rightarrow> trace_pos option) trace_handler" where
  "gap_handler = set_trace (example_handler [] []) [Ap \<lparr>res_generations = [9]\<rparr>, Ap \<lparr>res_generations = [9]\<rparr>]"

lemma compactify_correct_witness:
  "\<exists>s' t. (compactify id :: (_, unit, unit execution_error) comp) (gap_stream, gap_handler) = (Ok (), (s', set_trace gap_handler t))
    \<and> t ! 1 = Ap \<lparr>res_generations = [0]\<rparr>"
proof -
  have it: "stream_iter gap_stream = [1, 0]" and gens: "length (generations gap_stream) = 2"
      and tr: "result_trace (data_keeper gap_handler) = [Ap \<lparr>res_generations = [9]\<rparr>, Ap \<lparr>res_generations = [9]\<rparr>]"
    by (simp_all add: gap_stream_def gap_handler_def stream_iter_def values_matrix_iter_def values_matrix_new_def generations_def)
  obtain s' t where c: "(compactify id :: (_, unit, unit execution_error) comp) (gap_stream, gap_handler) = (Ok (), (s', set_trace gap_handler t))"
      "stream_iter s' = [1, 0]"
      "\<forall>i < length (generations s'). \<forall>v \<in> set (generations s' ! i).
        t ! unat (id v) = with_generation (of_nat i) (result_trace (data_keeper gap_handler) ! unat (id v))"
    using compactify_correct [of gap_stream id gap_handler, where ?'n = unit, unfolded it gens tr] tr it by auto
  have "concat (generations s') = [1, 0]" "[] \<notin> set (generations s')"
    using c(2) concat_generations [of s'] by (auto simp: generations_def)
  then have "0 < length (generations s') \<and> 1 \<in> set (generations s' ! 0)"
    by (cases "generations s'"; cases "hd (generations s')") auto
  with c(3) have "t ! unat (id (1 :: trace_pos)) = with_generation (of_nat 0) (result_trace (data_keeper gap_handler) ! unat (id (1 :: trace_pos)))"
    by blast
  with c(1) tr show ?thesis by auto
qed

text \<open>
  C23. A recursive fold sees every value of its stream once, in order: whatever new values its body
  adds, the values handed out so far followed by those that wait for the next iteration are
  the values of the stream. So when an iteration ends with nothing to hand out, every value has
  been handed out. The stream starts without empty generations.
\<close>

theorem recursive_fold_sees_all:
  assumes "recursive_run s0 ys c s" "stream_wf s0" "no_gaps s0"
  shows "stream_iter s = ys @ concat (stream_slice_iter (rc_cursor c) s)
    \<and> (cursor_state c s = Exhausted \<longleftrightarrow> ys = stream_iter s)"
proof -
  note inv = recursive_run_inv [OF assms]
  then obtain front final where new: "vm_values (new_values s) = front @ [final]" by (auto simp: cursor_inv_def)
  have "stream_slice_iter (rc_cursor c) s = [] \<longleftrightarrow> concat (stream_slice_iter (rc_cursor c) s) = []"
    using cursor_inv_pending [OF conjunct1 [OF inv] new] by simp
  with inv show ?thesis
    by (cases "stream_slice_iter (rc_cursor c) s") (auto simp: cursor_state_def)
qed

definition example_stream :: "nat list \<Rightarrow> nat list list \<Rightarrow> nat stream" where
  "example_stream p n = \<lparr>previous_values = \<lparr>vm_values = [p], vm_size = length p\<rparr>, current_values = values_matrix_new,
     new_values = \<lparr>vm_values = n, vm_size = length (concat n)\<rparr>\<rparr>"

lemma recursive_fold_sees_all_witness:
  "\<exists>c s. recursive_run (example_stream [1, 2] []) [1, 2] c s
     \<and> stream_iter s = [1, 2, 3] \<and> cursor_state c s \<noteq> Exhausted"
proof -
  let ?s0 = "example_stream [1, 2] []" and ?s1 = "example_stream [1, 2] [[]]"
  have wf: "stream_wf ?s0" "no_gaps ?s0" "stream_wf ?s1" "stream_size ?s1 = 2"
    by (simp_all add: stream_wf_def matrix_wf_def no_gaps_def example_stream_def values_matrix_new_def stream_size_def
        stream_iter_def values_matrix_iter_def)
  have "stream_slice_iter stream_cursor_empty ?s0 = [[1, 2]]"
    by (simp add: stream_slice_iter_def stream_cursor_empty_def generation_from_usize_def values_matrix_slice_iter_def
        example_stream_def values_matrix_new_def)
  then have "met_fold_start recursive_cursor_new ?s0 = (Continue [[1, 2]], \<lparr>rc_cursor = cursor_of ?s0\<rparr>, ?s1)"
    by (simp add: met_fold_start_def cursor_state_def recursive_cursor_new_def)
      (simp add: example_stream_def add_new_empty_generation_def)
  from run_start [OF this] have r1: "recursive_run ?s0 [1, 2] \<lparr>rc_cursor = cursor_of ?s0\<rparr> ?s1" by simp
  have "add_value 3 GenNew ?s1 = (Ok () :: (unit, unit execution_error) result, put_in_stream 3 GenNew ?s1)"
    unfolding add_value_eq [OF wf(3)] wf(4) by (simp add: STREAM_MAX_SIZE_def)
  from run_push [OF r1 this] have r2: "recursive_run ?s0 [1, 2] \<lparr>rc_cursor = cursor_of ?s0\<rparr> (put_in_stream 3 GenNew ?s1)" .
  moreover have "stream_iter (put_in_stream 3 GenNew ?s1) = [1, 2, 3]"
    by (simp add: example_stream_def stream_iter_def values_matrix_iter_def values_matrix_new_def put_value_def)
  moreover from this have "cursor_state \<lparr>rc_cursor = cursor_of ?s0\<rparr> (put_in_stream 3 GenNew ?s1) \<noteq> Exhausted"
    using recursive_fold_sees_all [OF r2 wf(1,2)] by simp
  ultimately show ?thesis by blast
qed

text \<open>
  C24. Without that condition values are missed. A cursor counts all generations of a matrix,
  \<^verbatim>\<open>slice_iter\<close> skips that many non-empty ones: when the previous values have an empty generation,
  a value that the next generation gets during the fold is not handed out.
\<close>

theorem cursor_skips_after_gap:
  assumes "stream_wf s" "k = length (vm_values (previous_values s))" "Suc k < u32_bound"
    and "[] \<in> set (vm_values (previous_values s))"
    and "Suc (stream_size s) < STREAM_MAX_SIZE"
  shows "\<exists>s'. add_value v (GenPrevious (of_nat k)) s = (Ok () :: (unit, 'n execution_error) result, s')
    \<and> mset (stream_iter s') = add_mset v (mset (stream_iter s))
    \<and> values_matrix_slice_iter (previous_start_idx (cursor_of s)) (previous_values s') = []"
proof -
  let ?s' = "put_in_stream v (GenPrevious (of_nat k)) s"
  have k: "unat (of_nat k :: u32) = k" using assms(3) by simp
  have "add_value v (GenPrevious (of_nat k)) s = (Ok () :: (unit, 'n execution_error) result, ?s')"
    using assms(3,5) k by (simp add: add_value_eq [OF assms(1)])
  moreover have "length (filter (\<lambda>g. g \<noteq> []) (vm_values (previous_values s))) < k"
    using length_filter_less [OF assms(4), of "\<lambda>g. g \<noteq> []"] assms(2) by simp
  then have "values_matrix_slice_iter (previous_start_idx (cursor_of s)) (previous_values ?s') = []"
    using assms(2) k
    by (simp add: values_matrix_slice_iter_def cursor_of_def stream_cursor_new_def generations_count_def
        generation_from_usize_def put_value_def Let_def)
  ultimately show ?thesis using put_in_stream_values [of v "GenPrevious (of_nat k)" s] by blast
qed

lemma cursor_skips_after_gap_witness:
  "\<exists>s'. add_value 5 (GenPrevious 1) (example_stream [] []) = (Ok () :: (unit, unit execution_error) result, s')
    \<and> mset (stream_iter s') = {#5#}
    \<and> values_matrix_slice_iter (previous_start_idx (cursor_of (example_stream [] []))) (previous_values s') = []"
  using cursor_skips_after_gap [of "example_stream [] []" 1 5, where ?'n = unit]
  by (simp add: stream_wf_def matrix_wf_def example_stream_def values_matrix_new_def stream_size_def stream_iter_def
      values_matrix_iter_def STREAM_MAX_SIZE_def)

end
