(* ===== verification/Stream_Variables.thy ===== *)
theory Stream_Variables
  imports Air_Streams
begin

text \<open>
  The streams of an execution (\<^verbatim>\<open>air/src/execution_step/execution_context/streams_variables.rs\<close>,
  \<^verbatim>\<open>streams_variables/stream_descriptor.rs\<close>, \<^verbatim>\<open>streams_variables/stream_value_descriptor.rs\<close>; \<^verbatim>\<open>Span\<close>
  of \<^verbatim>\<open>air-parser/src/parser/span.rs\<close>): every name has a stack of streams, one for each \<^verbatim>\<open>new\<close> that is
  open and at most one global, and a position of the script selects the innermost scope that
  contains it.

  A \<^verbatim>\<open>HashMap\<close> is a map; where the code iterates over it, the order is an argument. A reference
  \<^verbatim>\<open>&mut Stream\<close> into a vector is the index of the descriptor it points to. \<^verbatim>\<open>usize\<close> is that of the
  32 bit WebAssembly target.
\<close>

section \<open>Descriptors\<close>

type_synonym air_pos = nat

record air_span =
  span_left :: air_pos
  span_right :: air_pos

definition contains_position :: "air_span \<Rightarrow> air_pos \<Rightarrow> bool" where
  "contains_position self position \<longleftrightarrow> span_left self < position \<and> position < span_right self"

definition contains_span :: "air_span \<Rightarrow> air_span \<Rightarrow> bool" where
  "contains_span self s \<longleftrightarrow> contains_position self (span_left s) \<and> contains_position self (span_right s)"

definition USIZE_MAX :: nat where
  "USIZE_MAX = 4294967295"

record 'o descriptor =
  desc_span :: air_span
  desc_object :: 'o

definition descriptor_global :: "'o \<Rightarrow> 'o descriptor" where
  "descriptor_global object = \<lparr>desc_span = \<lparr>span_left = 0, span_right = USIZE_MAX\<rparr>, desc_object = object\<rparr>"

definition descriptor_restricted :: "'o \<Rightarrow> air_span \<Rightarrow> 'o descriptor" where
  "descriptor_restricted object span = \<lparr>desc_span = span, desc_object = object\<rparr>"

definition find_closest :: "'o descriptor list \<Rightarrow> air_pos \<Rightarrow> 'o option" where
  "find_closest descriptors position =
     map_option desc_object (List.find (\<lambda>d. contains_position (desc_span d) position) (rev descriptors))"

definition find_closest_mut :: "'o descriptor list \<Rightarrow> air_pos \<Rightarrow> nat option" where
  "find_closest_mut descriptors position =
     List.find (\<lambda>i. contains_position (desc_span (descriptors ! i)) position) (rev [0..<length descriptors])"

section \<open>Streams\<close>

record 'v streams =
  streams_by_name :: "string \<rightharpoonup> 'v stream descriptor list"

record 'v stream_value_descriptor =
  svd_value :: 'v
  svd_name :: string
  svd_generation :: generation
  svd_position :: air_pos

definition streams_new :: "'v streams" where
  "streams_new = \<lparr>streams_by_name = Map.empty\<rparr>"

definition streams_get :: "string \<Rightarrow> air_pos \<Rightarrow> 'v streams \<Rightarrow> 'v stream option" where
  "streams_get name position self =
     Option.bind (streams_by_name self name) (\<lambda>descriptors. find_closest descriptors position)"

definition streams_get_mut :: "string \<Rightarrow> air_pos \<Rightarrow> 'v streams \<Rightarrow> nat option" where
  "streams_get_mut name position self =
     Option.bind (streams_by_name self name) (\<lambda>descriptors. find_closest_mut descriptors position)"

text \<open>A method call on the stream that \<open>streams_get_mut\<close> returned.\<close>

definition on_stream :: "string \<Rightarrow> nat \<Rightarrow> ('v stream, 'a, 'e) comp \<Rightarrow> ('v streams, 'a, 'e) comp" where
  "on_stream name i m self = (case streams_by_name self name of
     None \<Rightarrow> (Panic, self)
   | Some ds \<Rightarrow> (case m (desc_object (ds ! i)) of (r, s) \<Rightarrow>
       (r, self\<lparr>streams_by_name := (streams_by_name self)(name \<mapsto> ds[i := (ds ! i)\<lparr>desc_object := s\<rparr>])\<rparr>)))"

definition add_stream_value :: "'v stream_value_descriptor \<Rightarrow> ('v streams, unit, 'n execution_error) comp" where
  "add_stream_value d =
     and_then (gets (streams_get_mut (svd_name d) (svd_position d))) (\<lambda>found.
     case found of
       Some i \<Rightarrow> on_stream (svd_name d) i (add_value (svd_value d) (svd_generation d))
     | None \<Rightarrow> (case add_value (svd_value d) (svd_generation d) stream_new of
         (r, s) \<Rightarrow> and_then (lift r) (\<lambda>_.
         modify (\<lambda>self. self\<lparr>streams_by_name := (streams_by_name self)(svd_name d \<mapsto> [descriptor_global s])\<rparr>))))"

definition meet_scope_start :: "string \<Rightarrow> air_span \<Rightarrow> 'v streams \<Rightarrow> 'v streams" where
  "meet_scope_start name span self =
     (let new_descriptor = descriptor_restricted stream_new span in
      case streams_by_name self name of
        Some ds \<Rightarrow> self\<lparr>streams_by_name := (streams_by_name self)(name \<mapsto> ds @ [new_descriptor])\<rparr>
      | None \<Rightarrow> self\<lparr>streams_by_name := (streams_by_name self)(name \<mapsto> [new_descriptor])\<rparr>)"

definition meet_scope_end ::
    "('v \<Rightarrow> trace_pos) \<Rightarrow> string \<Rightarrow> ('v streams \<times> 'bm trace_handler, unit, 'n execution_error) comp" where
  "meet_scope_end pos_of name =
     and_then (gets fst) (\<lambda>self.
     and_then (lift (unwrap (streams_by_name self name))) (\<lambda>stream_descriptors.
     and_then (lift (unwrap (if stream_descriptors = [] then None else Some (last stream_descriptors)))) (\<lambda>last_descriptor.
     let stream_descriptors = butlast stream_descriptors in
     and_then (modify (apfst (\<lambda>self. self\<lparr>streams_by_name :=
       (if stream_descriptors = [] then (streams_by_name self)(name := None)
        else (streams_by_name self)(name \<mapsto> stream_descriptors))\<rparr>))) (\<lambda>_.
     zoom snd (\<lambda>f. apsnd f) (\<lambda>th. case compactify pos_of (desc_object last_descriptor, th) of
       (r, (_, th')) \<Rightarrow> (r, th'))))))"

fun compactify_descriptors ::
    "('v \<Rightarrow> trace_pos) \<Rightarrow> 'v stream descriptor list
       \<Rightarrow> ('bm trace_handler, 'v stream descriptor list, 'n execution_error) comp" where
  "compactify_descriptors pos_of [] = ret []"
| "compactify_descriptors pos_of (d # ds) = (\<lambda>th.
     case compactify pos_of (desc_object d, th) of (r, (s, th')) \<Rightarrow>
       and_then (lift r) (\<lambda>_.
       and_then (compactify_descriptors pos_of ds) (\<lambda>ds'.
       ret (d\<lparr>desc_object := s\<rparr> # ds'))) th')"

text \<open>\<open>order\<close> is the order in which the map is iterated.\<close>

fun streams_compactify ::
    "('v \<Rightarrow> trace_pos) \<Rightarrow> string list \<Rightarrow> ('v streams \<times> 'bm trace_handler, unit, 'n execution_error) comp" where
  "streams_compactify pos_of [] = ret ()"
| "streams_compactify pos_of (name # order) =
     and_then (gets fst) (\<lambda>self.
     and_then (zoom snd (\<lambda>f. apsnd f) (compactify_descriptors pos_of
       (case streams_by_name self name of None \<Rightarrow> [] | Some ds \<Rightarrow> ds))) (\<lambda>ds.
     and_then (modify (apfst (\<lambda>self. self\<lparr>streams_by_name := (streams_by_name self)(name \<mapsto> ds)\<rparr>))) (\<lambda>_.
     streams_compactify pos_of order)))"

section \<open>Finding the innermost scope\<close>

lemma find_map_eq: "List.find P (map f xs) = map_option f (List.find (\<lambda>x. P (f x)) xs)"
  by (induction xs) simp_all

lemma find_SomeD: "List.find P xs = Some x \<Longrightarrow> x \<in> set xs \<and> P x"
  by (induction xs) (auto split: if_splits)

lemma find_closest_mut_eq: "find_closest ds p = map_option (\<lambda>i. desc_object (ds ! i)) (find_closest_mut ds p)"
proof -
  have "rev ds = map ((!) ds) (rev [0..<length ds])"
    by (simp add: rev_map [symmetric] map_nth)
  then show ?thesis
    unfolding find_closest_def find_closest_mut_def by (simp only: find_map_eq option.map_comp comp_def)
qed

lemma find_closest_mut_less: "find_closest_mut ds p = Some i \<Longrightarrow> i < length ds \<and> contains_position (desc_span (ds ! i)) p"
  unfolding find_closest_mut_def using find_SomeD [of _ "rev [0..<length ds]" i] by fastforce

lemma find_closest_mut_last:
  "contains_position (desc_span d) p \<Longrightarrow> find_closest_mut (ds @ [d]) p = Some (length ds)"
  by (simp add: find_closest_mut_def)

section \<open>Scopes\<close>

lemma scope_end_eq:
  assumes "streams_by_name self name = Some (ds @ [d])"
  shows "\<exists>r th'. (meet_scope_end pos_of name :: (_, unit, 'n execution_error) comp) (self, th)
      = (r, (self\<lparr>streams_by_name := (streams_by_name self)(name := (if ds = [] then None else Some ds))\<rparr>, th'))
    \<and> compactify pos_of (desc_object d, th) = (r, (fst (snd (compactify pos_of (desc_object d, th) :: (unit, 'n execution_error) result \<times> _)), th'))"
proof -
  obtain r s th' where c: "compactify pos_of (desc_object d, th) = (r :: (unit, 'n execution_error) result, (s, th'))"
    by (metis prod.exhaust)
  show ?thesis
    using assms c by (auto simp: meet_scope_end_def and_then_lift Let_def zoom_def fun_upd_def intro!: exI)
qed

lemma add_stream_value_last:
  assumes "streams_by_name self (svd_name v) = Some (ds @ [d])" "contains_position (desc_span d) (svd_position v)"
    and "add_value (svd_value v) (svd_generation v) (desc_object d) = (r :: (unit, 'n execution_error) result, s)"
  shows "add_stream_value v self
    = (r, self\<lparr>streams_by_name := (streams_by_name self)(svd_name v \<mapsto> ds @ [d\<lparr>desc_object := s\<rparr>])\<rparr>)"
  using assms
  by (simp add: add_stream_value_def streams_get_mut_def find_closest_mut_last on_stream_def)

lemma add_stream_value_None:
  assumes "streams_get_mut (svd_name v) (svd_position v) self = None"
    and "add_value (svd_value v) (svd_generation v) stream_new = (Ok () :: (unit, 'n execution_error) result, s)"
  shows "add_stream_value v self
    = (Ok () :: (unit, 'n execution_error) result,
       self\<lparr>streams_by_name := (streams_by_name self)(svd_name v \<mapsto> [descriptor_global s])\<rparr>)"
  using assms by (simp add: add_stream_value_def and_then_lift)

lemma add_stream_value_other:
  assumes "add_stream_value v self = (r, self')" "name \<noteq> svd_name v"
  shows "streams_by_name self' name = streams_by_name self name"
  using assms
  by (auto simp: add_stream_value_def on_stream_def and_then_def lift_def modify_def
      split: option.splits prod.splits result.splits)

text \<open>
  What the body of an instruction can do to the streams when all its positions lie inside a
  span: add values at such positions, and open and close scopes of \<^verbatim>\<open>new\<close> whose bodies lie inside
  smaller spans. Errors do not stop it, because \<^verbatim>\<open>xor\<close> may catch them.
\<close>

inductive runs_inside ::
    "('v \<Rightarrow> trace_pos) \<Rightarrow> air_span \<Rightarrow> 'v streams \<times> 'bm trace_handler \<Rightarrow> 'v streams \<times> 'bm trace_handler \<Rightarrow> bool"
  for pos_of where
  inside_skip: "runs_inside pos_of sp st st"
| inside_trace: "runs_inside pos_of sp (self, th) (self, th')"
| inside_add: "contains_position sp (svd_position v) \<Longrightarrow>
    add_stream_value v self = (r :: (unit, unit execution_error) result, self') \<Longrightarrow>
    runs_inside pos_of sp (self, th) (self', th)"
| inside_seq: "runs_inside pos_of sp st1 st2 \<Longrightarrow> runs_inside pos_of sp st2 st3 \<Longrightarrow> runs_inside pos_of sp st1 st3"
| inside_new: "contains_span sp sp' \<Longrightarrow>
    runs_inside pos_of sp' (meet_scope_start name sp' self, th) st \<Longrightarrow>
    meet_scope_end pos_of name st = (r :: (unit, unit execution_error) result, st') \<Longrightarrow>
    runs_inside pos_of sp (self, th) st'"

lemma contains_span_position: "contains_span sp sp' \<Longrightarrow> contains_position sp' p \<Longrightarrow> contains_position sp p"
  by (auto simp: contains_span_def contains_position_def)

text \<open>The innermost descriptor of a name whose span covers the body is the only one the body changes.\<close>

lemma runs_inside_keeps:
  assumes "runs_inside pos_of sp st st'"
    and "streams_by_name (fst st) name = Some (ds @ [d])"
    and "\<And>p. contains_position sp p \<Longrightarrow> contains_position (desc_span d) p"
  shows "\<exists>d'. streams_by_name (fst st') name = Some (ds @ [d']) \<and> desc_span d' = desc_span d"
  using assms
proof (induction arbitrary: ds d rule: runs_inside.induct)
  case (inside_add sp v self r self' th)
  show ?case
  proof (cases "svd_name v = name")
    case True
    obtain q s where "add_value (svd_value v) (svd_generation v) (desc_object d) = (q :: (unit, unit execution_error) result, s)"
      by fastforce
    with True inside_add show ?thesis by (auto simp: add_stream_value_last)
  next
    case False
    with inside_add add_stream_value_other [OF inside_add.hyps(2), of name] show ?thesis by auto
  qed
next
  case (inside_seq sp st1 st2 st3)
  obtain d2 where "streams_by_name (fst st2) name = Some (ds @ [d2])" "desc_span d2 = desc_span d"
    using inside_seq.IH(1) [OF inside_seq.prems] by blast
  with inside_seq.IH(2) [of ds d2] inside_seq.prems(2) show ?case by auto
next
  case (inside_new sp sp' name' self th st r st')
  have cov: "\<And>p. contains_position sp' p \<Longrightarrow> contains_position (desc_span d) p"
    using inside_new.hyps(1) inside_new.prems(2) contains_span_position by blast
  show ?case
  proof (cases "name' = name")
    case True
    let ?d2 = "descriptor_restricted stream_new sp'"
    have "streams_by_name (meet_scope_start name sp' self) name = Some ((ds @ [d]) @ [?d2])"
      using inside_new.prems(1) by (simp add: meet_scope_start_def Let_def)
    with inside_new.IH [of "ds @ [d]" ?d2] True
    obtain d2 where "streams_by_name (fst st) name = Some ((ds @ [d]) @ [d2])"
      by (auto simp: descriptor_restricted_def)
    from scope_end_eq [OF this, of pos_of "snd st", where ?'n = unit] inside_new.hyps(3) True show ?thesis by auto
  next
    case False
    have "streams_by_name (meet_scope_start name' sp' self) name = Some (ds @ [d])"
      using inside_new.prems(1) False by (auto simp: meet_scope_start_def Let_def split: option.splits)
    with inside_new.IH [of ds d] cov obtain d2 where d2: "streams_by_name (fst st) name = Some (ds @ [d2])" "desc_span d2 = desc_span d"
      by auto
    have "streams_by_name (fst st') name = streams_by_name (fst st) name"
      using inside_new.hyps(3) False
      by (cases st) (auto simp: meet_scope_end_def and_then_lift and_then_def Let_def zoom_def
          split: option.splits prod.splits result.splits if_splits)
    with d2 show ?thesis by auto
  qed
qed auto

section \<open>The invariant of the streams\<close>

definition streams_wf :: "'v streams \<Rightarrow> bool" where
  "streams_wf self \<longleftrightarrow> (\<forall>name ds. streams_by_name self name = Some ds \<longrightarrow>
     ds \<noteq> [] \<and> (\<forall>d \<in> set ds. stream_wf (desc_object d)))"

lemma stream_new_wf: "stream_wf stream_new" "stream_iter stream_new = []" "stream_size stream_new = 0"
  by (simp_all add: stream_wf_def stream_new_def matrix_wf_def values_matrix_new_def new_values_matrix_new_def
      stream_iter_def values_matrix_iter_def stream_size_def)

lemma add_value_wf:
  "stream_wf s \<Longrightarrow> add_value v g s = (r :: (unit, 'n execution_error) result, s') \<Longrightarrow> stream_wf s'"
  using put_in_stream_wf [of s v g] by (auto simp: add_value_eq split: if_splits)

lemma add_value_OkD:
  assumes "stream_wf s" "add_value v g s = (Ok () :: (unit, 'n execution_error) result, s')"
  shows "mset (stream_iter s') = add_mset v (mset (stream_iter s))"
  using assms put_in_stream_values [of v g s] by (auto simp: add_value_eq split: if_splits)

lemma scope_start_wf: "streams_wf self \<Longrightarrow> streams_wf (meet_scope_start name span self)"
  by (auto simp: streams_wf_def meet_scope_start_def Let_def descriptor_restricted_def stream_new_wf split: option.splits if_splits)

lemma scope_end_wf:
  assumes "streams_wf self" "meet_scope_end pos_of name (self, th) = (r :: (unit, 'n execution_error) result, (self', th'))"
  shows "streams_wf self'"
proof (cases "streams_by_name self name")
  case None
  with assms show ?thesis by (simp add: meet_scope_end_def and_then_lift)
next
  case (Some ds)
  with assms(1) have "ds \<noteq> []" by (auto simp: streams_wf_def)
  then obtain es d where ds: "ds = es @ [d]" by (cases ds rule: rev_cases) auto
  obtain r' th'' where "meet_scope_end pos_of name (self, th)
      = (r' :: (unit, 'n execution_error) result, (self\<lparr>streams_by_name := (streams_by_name self)(name := (if es = [] then None else Some es))\<rparr>, th''))"
    using scope_end_eq [OF Some [unfolded ds], of pos_of th, where ?'n = 'n] by blast
  moreover have "\<forall>d \<in> set es. stream_wf (desc_object d)" using assms(1) Some ds by (auto simp: streams_wf_def)
  ultimately show ?thesis using assms by (auto simp: streams_wf_def split: if_splits)
qed

lemma on_stream_eq:
  assumes "streams_by_name self name = Some ds" "m (desc_object (ds ! i)) = (r, s)"
  shows "on_stream name i m self = (r, self\<lparr>streams_by_name := (streams_by_name self)(name \<mapsto> ds[i := (ds ! i)\<lparr>desc_object := s\<rparr>])\<rparr>)"
  using assms by (simp add: on_stream_def)

lemma add_stream_value_cases:
  assumes "add_stream_value v self = (r :: (unit, 'n execution_error) result, self')"
  obtains (found) ds i s where "streams_by_name self (svd_name v) = Some ds" "find_closest_mut ds (svd_position v) = Some i"
      "i < length ds" "add_value (svd_value v) (svd_generation v) (desc_object (ds ! i)) = (r, s)"
      "self' = self\<lparr>streams_by_name := (streams_by_name self)(svd_name v \<mapsto> ds[i := (ds ! i)\<lparr>desc_object := s\<rparr>])\<rparr>"
    | (created) s where "streams_get_mut (svd_name v) (svd_position v) self = None"
      "add_value (svd_value v) (svd_generation v) stream_new = (r, s)"
      "self' = (if r = Ok () then self\<lparr>streams_by_name := (streams_by_name self)(svd_name v \<mapsto> [descriptor_global s])\<rparr> else self)"
proof (cases "streams_get_mut (svd_name v) (svd_position v) self")
  case None
  obtain q s where q: "add_value (svd_value v) (svd_generation v) stream_new = (q :: (unit, 'n execution_error) result, s)" by fastforce
  with None assms show thesis
    by (intro created [of s]) (cases q; auto simp: add_stream_value_def and_then_lift)+
next
  case (Some i)
  then obtain ds where ds: "streams_by_name self (svd_name v) = Some ds" "find_closest_mut ds (svd_position v) = Some i"
    by (auto simp: streams_get_mut_def split: bind_splits)
  obtain q s where q: "add_value (svd_value v) (svd_generation v) (desc_object (ds ! i)) = (q :: (unit, 'n execution_error) result, s)"
    by fastforce
  from Some assms on_stream_eq [OF ds(1), where m = "add_value (svd_value v) (svd_generation v)", OF q] have "r = q"
      "self' = self\<lparr>streams_by_name := (streams_by_name self)(svd_name v \<mapsto> ds[i := (ds ! i)\<lparr>desc_object := s\<rparr>])\<rparr>"
    by (auto simp: add_stream_value_def)
  with found [OF ds _ _] find_closest_mut_less [OF ds(2)] q show thesis by blast
qed

lemma add_stream_value_wf:
  assumes "streams_wf self" "add_stream_value v self = (r :: (unit, 'n execution_error) result, self')"
  shows "streams_wf self'"
  using assms(2)
proof (cases rule: add_stream_value_cases)
  case (found ds i s)
  have "stream_wf (desc_object (ds ! i))" using assms(1) found(1,3) by (auto simp: streams_wf_def)
  then have "stream_wf s" by (rule add_value_wf [OF _ found(4)])
  with assms(1) found show ?thesis
    by (auto simp: streams_wf_def split: if_splits dest!: subsetD [OF set_update_subset_insert])
next
  case (created s)
  with assms(1) add_value_wf [OF stream_new_wf(1) created(2)] show ?thesis
    by (auto simp: streams_wf_def descriptor_global_def)
qed

section \<open>Properties\<close>

text \<open>
  Streams return what was added: after a value was added under a name at a position, looking
  the name up at that position gives a stream that has this value and the values it had before;
  other names are untouched, and the invariant (no empty stacks, right counters) is kept. The
  position is one inside a script.
\<close>

theorem add_stream_value_get:
  assumes "streams_wf self" "0 < svd_position v" "svd_position v < USIZE_MAX"
    and "add_stream_value v self = (Ok () :: (unit, 'n execution_error) result, self')"
  shows "(\<exists>s'. streams_get (svd_name v) (svd_position v) self' = Some s'
      \<and> mset (stream_iter s') = add_mset (svd_value v)
          (case streams_get (svd_name v) (svd_position v) self of None \<Rightarrow> {#} | Some s \<Rightarrow> mset (stream_iter s)))
    \<and> (\<forall>name p. name \<noteq> svd_name v \<longrightarrow> streams_get name p self' = streams_get name p self)
    \<and> streams_wf self'"
proof -
  have other: "streams_get name p self' = streams_get name p self" if "name \<noteq> svd_name v" for name p
    using add_stream_value_other [OF assms(4) that] by (simp add: streams_get_def)
  have "\<exists>s'. streams_get (svd_name v) (svd_position v) self' = Some s'
      \<and> mset (stream_iter s') = add_mset (svd_value v)
          (case streams_get (svd_name v) (svd_position v) self of None \<Rightarrow> {#} | Some s \<Rightarrow> mset (stream_iter s))"
    using assms(4)
  proof (cases rule: add_stream_value_cases)
    case (found ds i s)
    have "stream_wf (desc_object (ds ! i))" using assms(1) found(1,3) by (auto simp: streams_wf_def)
    then have "mset (stream_iter s) = add_mset (svd_value v) (mset (stream_iter (desc_object (ds ! i))))"
      by (rule add_value_OkD [OF _ found(4)])
    moreover have "find_closest_mut (ds[i := (ds ! i)\<lparr>desc_object := s\<rparr>]) (svd_position v) = Some i"
    proof -
      have "desc_span (ds[i := (ds ! i)\<lparr>desc_object := s\<rparr>] ! j) = desc_span (ds ! j)" if "j < length ds" for j
        using that found(3) by (cases "j = i") simp_all
      then have "List.find (\<lambda>j. contains_position (desc_span (ds[i := (ds ! i)\<lparr>desc_object := s\<rparr>] ! j)) (svd_position v)) (rev [0..<length ds])
          = List.find (\<lambda>j. contains_position (desc_span (ds ! j)) (svd_position v)) (rev [0..<length ds])"
        by (intro find_cong) auto
      with found(2) show ?thesis by (simp add: find_closest_mut_def)
    qed
    ultimately show ?thesis
      using found by (simp add: streams_get_def find_closest_mut_eq)
  next
    case (created s)
    have "streams_get (svd_name v) (svd_position v) self = None"
      using created(1) by (auto simp: streams_get_def streams_get_mut_def find_closest_mut_eq split: bind_splits)
    moreover have "mset (stream_iter s) = {#svd_value v#}"
      using add_value_OkD [OF stream_new_wf(1) created(2)] by (simp add: stream_new_wf(2))
    ultimately show ?thesis
      using created(3) assms(2,3)
      by (simp add: streams_get_def find_closest_def descriptor_global_def contains_position_def)
  qed
  with other add_stream_value_wf [OF assms(1,4)] show ?thesis by blast
qed

definition example_value :: "air_pos \<Rightarrow> nat stream_value_descriptor" where
  "example_value p = \<lparr>svd_value = 7, svd_name = ''$s'', svd_generation = GenNew, svd_position = p\<rparr>"

lemma example_add: "\<exists>s. add_value 7 GenNew stream_new = (Ok () :: (unit, unit execution_error) result, s)"
  by (simp add: add_value_eq stream_new_wf STREAM_MAX_SIZE_def)

lemma add_stream_value_get_witness:
  "\<exists>self' s'. add_stream_value (example_value 5) streams_new = (Ok () :: (unit, unit execution_error) result, self')
     \<and> streams_get ''$s'' 5 self' = Some s' \<and> mset (stream_iter s') = {#7#}"
proof -
  have wf: "streams_wf streams_new" by (simp add: streams_wf_def streams_new_def)
  obtain self' where a: "add_stream_value (example_value 5) streams_new = (Ok () :: (unit, unit execution_error) result, self')"
    using example_add add_stream_value_None [of "example_value 5" streams_new, where ?'n = unit]
    by (auto simp: example_value_def streams_get_mut_def streams_new_def)
  have "streams_get ''$s'' 5 streams_new = (None :: nat stream option)" by (simp add: streams_get_def streams_new_def)
  with add_stream_value_get [OF wf _ _ a] a show ?thesis
    by (auto simp: example_value_def USIZE_MAX_def)
qed

text \<open>
  C26. \<^verbatim>\<open>new\<close> is a scope: when the body of a \<^verbatim>\<open>new\<close> only uses positions inside the span of the \<^verbatim>\<open>new\<close>,
  whatever streams it adds to and whatever scopes it opens and closes, the end of the scope
  finds its own stream (so its unwraps do not panic), compactifies that one, and leaves the
  streams of that name as they were before.
\<close>

theorem new_scope_restores:
  assumes "streams_wf self"
    and "runs_inside pos_of sp (meet_scope_start name sp self, th) (self1, th1)"
  shows "\<exists>s r self2 th2. meet_scope_end pos_of name (self1, th1) = (r :: (unit, 'n execution_error) result, (self2, th2))
    \<and> streams_by_name self1 name
        = Some ((case streams_by_name self name of None \<Rightarrow> [] | Some ds \<Rightarrow> ds) @ [descriptor_restricted s sp])
    \<and> fst (compactify pos_of (s, th1)) = r
    \<and> streams_by_name self2 name = streams_by_name self name
    \<and> (\<forall>other. other \<noteq> name \<longrightarrow> streams_by_name self2 other = streams_by_name self1 other)"
proof -
  let ?ds = "case streams_by_name self name of None \<Rightarrow> [] | Some ds \<Rightarrow> ds"
  have "streams_by_name (meet_scope_start name sp self) name = Some (?ds @ [descriptor_restricted stream_new sp])"
    by (auto simp: meet_scope_start_def Let_def split: option.splits)
  then obtain d where d: "streams_by_name self1 name = Some (?ds @ [d])" "desc_span d = sp"
    using runs_inside_keeps [OF assms(2), of name ?ds "descriptor_restricted stream_new sp"]
    by (auto simp: descriptor_restricted_def)
  have "d = descriptor_restricted (desc_object d) sp"
    using d(2) by (cases d) (simp add: descriptor_restricted_def)
  moreover obtain r th2 where "meet_scope_end pos_of name (self1, th1) = (r :: (unit, 'n execution_error) result,
      (self1\<lparr>streams_by_name := (streams_by_name self1)(name := (if ?ds = [] then None else Some ?ds))\<rparr>, th2))"
      "fst (compactify pos_of (desc_object d, th1)) = r"
    using scope_end_eq [OF d(1), of pos_of th1, where ?'n = 'n] by (metis fst_conv)
  moreover have "(if ?ds = [] then None else Some ?ds) = streams_by_name self name"
    using assms(1) by (auto simp: streams_wf_def split: option.splits)
  ultimately show ?thesis
    using d(1) by (intro exI [of _ "desc_object d"] exI [of _ r]) auto
qed

lemma new_scope_restores_witness:
  "\<exists>self1 r self2 th2. add_stream_value (example_value 5) (meet_scope_start ''$s'' \<lparr>span_left = 1, span_right = 9\<rparr> streams_new)
        = (Ok () :: (unit, unit execution_error) result, self1)
     \<and> meet_scope_end (\<lambda>_. 0) ''$s'' (self1, example_handler [] []) = (r :: (unit, unit execution_error) result, (self2, th2))
     \<and> streams_by_name self2 ''$s'' = None"
proof -
  let ?sp = "\<lparr>span_left = 1, span_right = 9\<rparr>" and ?st = "example_handler [] []"
  let ?self = "meet_scope_start ''$s'' ?sp (streams_new :: nat streams)"
  have wf: "streams_wf (streams_new :: nat streams)" by (simp add: streams_wf_def streams_new_def)
  have cp: "contains_position ?sp (svd_position (example_value 5))" by (simp add: contains_position_def example_value_def)
  have "streams_by_name ?self (svd_name (example_value 5)) = Some ([] @ [descriptor_restricted stream_new ?sp])"
    by (simp add: meet_scope_start_def streams_new_def example_value_def)
  then obtain self1 where a: "add_stream_value (example_value 5) ?self = (Ok () :: (unit, unit execution_error) result, self1)"
    using example_add add_stream_value_last [of ?self "example_value 5" "[]" "descriptor_restricted stream_new ?sp", where ?'n = unit]
    by (auto simp: descriptor_restricted_def contains_position_def example_value_def)
  have "runs_inside (\<lambda>_. 0) ?sp (?self, ?st) (self1, ?st)"
    by (rule inside_add [OF cp a])
  from new_scope_restores [OF wf this, where ?'n = unit] a show ?thesis
    by (auto simp: streams_new_def)
qed

text \<open>
  C27. The condition on the positions is needed, and \<^verbatim>\<open>next\<close> breaks it: it runs the body of a fold
  again from inside of a \<^verbatim>\<open>new\<close>. A value that is added at a position that no open scope of its name
  contains, when there is no global stream of that name yet, replaces all open scopes by a new
  global stream. The end of the innermost \<^verbatim>\<open>new\<close> then drops that global stream with the value, and
  the end of the next enclosing one panics.
\<close>

theorem add_outside_replaces_scopes:
  assumes "streams_by_name self (svd_name v) = Some ds" "find_closest_mut ds (svd_position v) = None"
    and "add_value (svd_value v) (svd_generation v) stream_new = (Ok () :: (unit, 'n execution_error) result, s)"
  shows "\<exists>self1 r self2 th2. add_stream_value v self = (Ok () :: (unit, 'n execution_error) result, self1)
    \<and> streams_by_name self1 (svd_name v) = Some [descriptor_global s]
    \<and> meet_scope_end pos_of (svd_name v) (self1, th) = (r :: (unit, 'n execution_error) result, (self2, th2))
    \<and> streams_by_name self2 (svd_name v) = None
    \<and> fst (meet_scope_end pos_of (svd_name v) (self2, th2) :: (unit, 'n execution_error) result \<times> _) = Panic"
proof -
  let ?self1 = "self\<lparr>streams_by_name := (streams_by_name self)(svd_name v \<mapsto> [descriptor_global s])\<rparr>"
  have a: "add_stream_value v self = (Ok () :: (unit, 'n execution_error) result, ?self1)"
    using assms by (intro add_stream_value_None) (simp_all add: streams_get_mut_def)
  have "streams_by_name ?self1 (svd_name v) = Some ([] @ [descriptor_global s])" by simp
  from scope_end_eq [OF this, of pos_of th, where ?'n = 'n] obtain r th2 where
    e: "meet_scope_end pos_of (svd_name v) (?self1, th) = (r :: (unit, 'n execution_error) result,
        (?self1\<lparr>streams_by_name := (streams_by_name ?self1)(svd_name v := None)\<rparr>, th2))" by auto
  have "fst (meet_scope_end pos_of (svd_name v) (?self1\<lparr>streams_by_name := (streams_by_name ?self1)(svd_name v := None)\<rparr>, th2)
      :: (unit, 'n execution_error) result \<times> _) = Panic"
    by (simp add: meet_scope_end_def and_then_lift)
  with a e show ?thesis
    by (intro exI [of _ ?self1] exI [of _ r]
        exI [of _ "?self1\<lparr>streams_by_name := (streams_by_name ?self1)(svd_name v := None)\<rparr>"] exI [of _ th2]) simp
qed

lemma add_outside_replaces_scopes_witness:
  "\<exists>self1 r self2 th2.
     add_stream_value (example_value 30) (meet_scope_start ''$s'' \<lparr>span_left = 10, span_right = 20\<rparr>
        (meet_scope_start ''$s'' \<lparr>span_left = 10, span_right = 20\<rparr> streams_new)) = (Ok () :: (unit, unit execution_error) result, self1)
     \<and> meet_scope_end (\<lambda>_. 0) ''$s'' (self1, example_handler [] []) = (r :: (unit, unit execution_error) result, (self2, th2))
     \<and> fst (meet_scope_end (\<lambda>_. 0) ''$s'' (self2, th2) :: (unit, unit execution_error) result \<times> _) = Panic"
proof -
  let ?sp = "\<lparr>span_left = 10, span_right = 20\<rparr>"
  let ?self = "meet_scope_start ''$s'' ?sp (meet_scope_start ''$s'' ?sp (streams_new :: nat streams))"
  let ?d = "descriptor_restricted stream_new ?sp"
  have "streams_by_name ?self (svd_name (example_value 30)) = Some [?d, ?d]"
    by (simp add: meet_scope_start_def streams_new_def example_value_def)
  moreover have "find_closest_mut [?d, ?d] (svd_position (example_value 30)) = None"
    by (simp add: find_closest_mut_def descriptor_restricted_def contains_position_def example_value_def)
  moreover obtain s where "add_value (svd_value (example_value 30)) (svd_generation (example_value 30)) stream_new
      = (Ok () :: (unit, unit execution_error) result, s)"
    using example_add by (auto simp: example_value_def)
  moreover have "svd_name (example_value 30) = ''$s''" by (simp add: example_value_def)
  ultimately show ?thesis
    using add_outside_replaces_scopes [of ?self "example_value 30" "[?d, ?d]", where ?'n = unit] by metis
qed

end
