(* ===== verification/Stream_Maps.thy ===== *)
theory Stream_Maps
  imports Stream_Variables "HOL-Library.List_Lexorder" "HOL-Library.Char_ord"
begin

text \<open>
  Stream maps and their canonicalization (\<^verbatim>\<open>air/src/execution_step/value_types/stream_map.rs\<close>,
  \<^verbatim>\<open>canon_stream.rs\<close>, \<^verbatim>\<open>canon_stream_map.rs\<close>, and in \<^verbatim>\<open>execution_context\<close> the files
  \<^verbatim>\<open>stream_maps_variables.rs\<close> and \<^verbatim>\<open>stream_maps_variables/stream_map_key.rs\<close>). A stream map is a stream of
  objects with a key and a value; a canon stream map is an index of these objects by key.

  The functions of \<^verbatim>\<open>serde_json::Number\<close> are the record \<open>number_ops\<close>; \<open>number_documented\<close> is what its
  documentation promises of them. \<^verbatim>\<open>is_i64\<close> is documented as \<^verbatim>\<open>as_i64\<close> returning something, so a
  match guard on it and the unwrap behind it are one case distinction here.
\<close>

section \<open>Keys\<close>

record 'n number_ops =
  as_i64 :: "'n \<Rightarrow> int option"
  as_u64 :: "'n \<Rightarrow> nat option"
  from_i64 :: "int \<Rightarrow> 'n"
  from_u64 :: "nat \<Rightarrow> 'n"

definition is_i64_value :: "int \<Rightarrow> bool" where
  "is_i64_value i \<longleftrightarrow> - (2 ^ 63) \<le> i \<and> i < 2 ^ 63"

definition number_documented :: "'n number_ops \<Rightarrow> bool" where
  "number_documented N \<longleftrightarrow>
     (\<forall>i. is_i64_value i \<longrightarrow> as_i64 N (from_i64 N i) = Some i)
     \<and> (\<forall>n. n < 2 ^ 64 \<longrightarrow> as_u64 N (from_u64 N n) = Some n
          \<and> as_i64 N (from_u64 N n) = (if n < 2 ^ 63 then Some (int n) else None))"

datatype stream_map_key = KeyStr string | KeyU64 nat | KeyI64 int

definition KEY_FIELD_NAME :: string where
  "KEY_FIELD_NAME = ''key''"

definition VALUE_FIELD_NAME :: string where
  "VALUE_FIELD_NAME = ''value''"

fun key_from_value :: "'n number_ops \<Rightarrow> 'n jvalue \<Rightarrow> stream_map_key option" where
  "key_from_value N (JString s) = Some (KeyStr s)"
| "key_from_value N (JNumber n) = (case as_i64 N n of
     Some i \<Rightarrow> Some (KeyI64 i)
   | None \<Rightarrow> map_option KeyU64 (as_u64 N n))"
| "key_from_value N _ = None"

definition key_from_kvpair_owned :: "'n number_ops \<Rightarrow> 'n value_aggregate \<Rightarrow> stream_map_key option" where
  "key_from_kvpair_owned N v =
     Option.bind (as_object (get_result v)) (\<lambda>object.
     Option.bind (map_of object KEY_FIELD_NAME) (key_from_value N))"

text \<open>\<^verbatim>\<open>format!\<close> of an integer.\<close>

definition digit_char :: "nat \<Rightarrow> char" where
  "digit_char d = char_of (48 + d)"

fun show_nat :: "nat \<Rightarrow> string" where
  "show_nat n = (if n < 10 then [digit_char n] else show_nat (n div 10) @ [digit_char (n mod 10)])"

declare show_nat.simps [simp del]

definition show_int :: "int \<Rightarrow> string" where
  "show_int i = (if i < 0 then ''-'' @ show_nat (nat (- i)) else show_nat (nat i))"

fun to_key :: "stream_map_key \<Rightarrow> string" where
  "to_key (KeyStr s) = s"
| "to_key (KeyU64 n) = show_nat n"
| "to_key (KeyI64 i) = show_int i"

definition key_from_u32 :: "u32 \<Rightarrow> stream_map_key" where
  "key_from_u32 n = KeyI64 (int (unat n))"

fun key_into_jvalue :: "'n number_ops \<Rightarrow> stream_map_key \<Rightarrow> 'n jvalue" where
  "key_into_jvalue N (KeyStr s) = JString s"
| "key_into_jvalue N (KeyU64 n) = JNumber (from_u64 N n)"
| "key_into_jvalue N (KeyI64 i) = JNumber (from_i64 N i)"

section \<open>Stream map\<close>

text \<open>\<^verbatim>\<open>BTreeMap::insert\<close> and collecting pairs into a \<^verbatim>\<open>BTreeMap\<close>.\<close>

fun object_insert :: "string \<Rightarrow> 'v \<Rightarrow> (string \<times> 'v) list \<Rightarrow> (string \<times> 'v) list" where
  "object_insert k v [] = [(k, v)]"
| "object_insert k v ((k', v') # m) =
     (if k = k' then (k, v) # m else if k < k' then (k, v) # (k', v') # m else (k', v') # object_insert k v m)"

definition object_collect :: "(string \<times> 'v) list \<Rightarrow> (string \<times> 'v) list" where
  "object_collect kvs = fold (\<lambda>(k, v). object_insert k v) kvs []"

definition from_key_value :: "'n number_ops \<Rightarrow> stream_map_key \<Rightarrow> 'n jvalue \<Rightarrow> 'n jvalue" where
  "from_key_value N key v = JObject (object_collect [(VALUE_FIELD_NAME, v), (KEY_FIELD_NAME, key_into_jvalue N key)])"

record 'n stream_map =
  sm_stream :: "'n value_aggregate stream"

definition stream_map_new :: "'n stream_map" where
  "stream_map_new = \<lparr>sm_stream = stream_new\<rparr>"

definition stream_map_insert ::
    "'n number_ops \<Rightarrow> stream_map_key \<Rightarrow> 'n value_aggregate \<Rightarrow> generation \<Rightarrow> ('n stream_map, unit, 'n execution_error) comp" where
  "stream_map_insert N key v g =
     (let obj = from_key_value N key (get_result v);
          v = value_aggregate_new obj (get_tetraplet v) (get_trace_pos v) (get_provenance v) in
      zoom sm_stream sm_stream_update (add_value v g))"

definition stream_map_compactify :: "('n stream_map \<times> 'bm trace_handler, unit, 'n execution_error) comp" where
  "stream_map_compactify = (\<lambda>(self, th). case compactify get_trace_pos (sm_stream self, th) of
     (r, (s, th')) \<Rightarrow> (r, (self\<lparr>sm_stream := s\<rparr>, th')))"

definition stream_map_iter :: "'n stream_map \<Rightarrow> 'n value_aggregate list" where
  "stream_map_iter self = stream_iter (sm_stream self)"

text \<open>
  The closure of \<^verbatim>\<open>filter_map\<close>, with the set of met keys it captures. The key is inserted into the
  set before the value is looked up.
\<close>

fun unique_key_objects ::
    "'n number_ops \<Rightarrow> string list \<Rightarrow> 'n value_aggregate list \<Rightarrow> (string \<times> 'n jvalue) list" where
  "unique_key_objects N met_keys [] = []"
| "unique_key_objects N met_keys (v # vs) =
     (case as_object (fst (as_inner_parts v)) of
        None \<Rightarrow> unique_key_objects N met_keys vs
      | Some object \<Rightarrow> (case Option.bind (map_of object KEY_FIELD_NAME) (key_from_value N) of
          None \<Rightarrow> unique_key_objects N met_keys vs
        | Some key \<Rightarrow>
            if to_key key \<in> set met_keys then unique_key_objects N met_keys vs
            else (case map_of object VALUE_FIELD_NAME of
                None \<Rightarrow> unique_key_objects N (to_key key # met_keys) vs
              | Some x \<Rightarrow> (to_key key, x) # unique_key_objects N (to_key key # met_keys) vs)))"

definition iter_unique_key_object :: "'n number_ops \<Rightarrow> 'n stream_map \<Rightarrow> (string \<times> 'n jvalue) list" where
  "iter_unique_key_object N self = unique_key_objects N [] (stream_iter (sm_stream self))"

section \<open>Stream maps of an execution\<close>

record 'n stream_maps =
  maps_by_name :: "string \<rightharpoonup> 'n stream_map descriptor list"

record 'n stream_map_value_descriptor =
  smvd_value :: "'n value_aggregate"
  smvd_name :: string
  smvd_generation :: generation
  smvd_position :: air_pos

definition stream_maps_get :: "string \<Rightarrow> air_pos \<Rightarrow> 'n stream_maps \<Rightarrow> 'n stream_map option" where
  "stream_maps_get name position self =
     Option.bind (maps_by_name self name) (\<lambda>descriptors. find_closest descriptors position)"

definition stream_maps_get_mut :: "string \<Rightarrow> air_pos \<Rightarrow> 'n stream_maps \<Rightarrow> nat option" where
  "stream_maps_get_mut name position self =
     Option.bind (maps_by_name self name) (\<lambda>descriptors. find_closest_mut descriptors position)"

definition on_stream_map :: "string \<Rightarrow> nat \<Rightarrow> ('n stream_map, 'a, 'e) comp \<Rightarrow> ('n stream_maps, 'a, 'e) comp" where
  "on_stream_map name i m self = (case maps_by_name self name of
     None \<Rightarrow> (Panic, self)
   | Some ds \<Rightarrow> (case m (desc_object (ds ! i)) of (r, s) \<Rightarrow>
       (r, self\<lparr>maps_by_name := (maps_by_name self)(name \<mapsto> ds[i := (ds ! i)\<lparr>desc_object := s\<rparr>])\<rparr>)))"

definition add_stream_map_value ::
    "'n number_ops \<Rightarrow> stream_map_key \<Rightarrow> 'n stream_map_value_descriptor \<Rightarrow> ('n stream_maps, unit, 'n execution_error) comp" where
  "add_stream_map_value N key d =
     and_then (gets (stream_maps_get_mut (smvd_name d) (smvd_position d))) (\<lambda>found.
     case found of
       Some i \<Rightarrow> on_stream_map (smvd_name d) i (stream_map_insert N key (smvd_value d) (smvd_generation d))
     | None \<Rightarrow> (case stream_map_insert N key (smvd_value d) (smvd_generation d) stream_map_new of
         (r, s) \<Rightarrow> and_then (lift r) (\<lambda>_.
         modify (\<lambda>self. self\<lparr>maps_by_name := (maps_by_name self)(smvd_name d \<mapsto> [descriptor_global s])\<rparr>))))"

definition maps_meet_scope_start :: "string \<Rightarrow> air_span \<Rightarrow> 'n stream_maps \<Rightarrow> 'n stream_maps" where
  "maps_meet_scope_start name span self =
     (let new_descriptor = descriptor_restricted stream_map_new span in
      case maps_by_name self name of
        Some ds \<Rightarrow> self\<lparr>maps_by_name := (maps_by_name self)(name \<mapsto> ds @ [new_descriptor])\<rparr>
      | None \<Rightarrow> self\<lparr>maps_by_name := (maps_by_name self)(name \<mapsto> [new_descriptor])\<rparr>)"

definition maps_meet_scope_end :: "string \<Rightarrow> ('n stream_maps \<times> 'bm trace_handler, unit, 'n execution_error) comp" where
  "maps_meet_scope_end name =
     and_then (gets fst) (\<lambda>self.
     and_then (lift (unwrap (maps_by_name self name))) (\<lambda>descriptors.
     and_then (lift (unwrap (if descriptors = [] then None else Some (last descriptors)))) (\<lambda>last_descriptor.
     let descriptors = butlast descriptors in
     and_then (modify (apfst (\<lambda>self. self\<lparr>maps_by_name :=
       (if descriptors = [] then (maps_by_name self)(name := None)
        else (maps_by_name self)(name \<mapsto> descriptors))\<rparr>))) (\<lambda>_.
     zoom snd (\<lambda>f. apsnd f) (\<lambda>th. case stream_map_compactify (desc_object last_descriptor, th) of
       (r, (_, th')) \<Rightarrow> (r, th'))))))"

fun compactify_map_descriptors ::
    "'n stream_map descriptor list \<Rightarrow> ('bm trace_handler, 'n stream_map descriptor list, 'n execution_error) comp" where
  "compactify_map_descriptors [] = ret []"
| "compactify_map_descriptors (d # ds) = (\<lambda>th.
     case stream_map_compactify (desc_object d, th) of (r, (s, th')) \<Rightarrow>
       and_then (lift r) (\<lambda>_.
       and_then (compactify_map_descriptors ds) (\<lambda>ds'.
       ret (d\<lparr>desc_object := s\<rparr> # ds'))) th')"

fun stream_maps_compactify ::
    "string list \<Rightarrow> ('n stream_maps \<times> 'bm trace_handler, unit, 'n execution_error) comp" where
  "stream_maps_compactify [] = ret ()"
| "stream_maps_compactify (name # order) =
     and_then (gets fst) (\<lambda>self.
     and_then (zoom snd (\<lambda>f. apsnd f) (compactify_map_descriptors
       (case maps_by_name self name of None \<Rightarrow> [] | Some ds \<Rightarrow> ds))) (\<lambda>ds.
     and_then (modify (apfst (\<lambda>self. self\<lparr>maps_by_name := (maps_by_name self)(name \<mapsto> ds)\<rparr>))) (\<lambda>_.
     stream_maps_compactify order)))"

section \<open>Canonicalized streams and stream maps\<close>

record 'n canon_stream =
  cs_values :: "'n value_aggregate list"
  cs_tetraplet :: security_tetraplet

definition canon_stream_new :: "'n value_aggregate list \<Rightarrow> security_tetraplet \<Rightarrow> 'n canon_stream" where
  "canon_stream_new vs tetraplet = \<lparr>cs_values = vs, cs_tetraplet = tetraplet\<rparr>"

definition canon_stream_from_values :: "'n value_aggregate list \<Rightarrow> string \<Rightarrow> 'n canon_stream" where
  "canon_stream_from_values vs peer =
     \<lparr>cs_values = vs, cs_tetraplet = \<lparr>peer_pk = peer, service_id = [], function_name = [], lens = []\<rparr>\<rparr>"

definition canon_stream_as_jvalue :: "'n canon_stream \<Rightarrow> 'n jvalue" where
  "canon_stream_as_jvalue self = JArray (map get_result (cs_values self))"

definition canon_stream_nth :: "nat \<Rightarrow> 'n canon_stream \<Rightarrow> 'n value_aggregate option" where
  "canon_stream_nth idx self = (if idx < length (cs_values self) then Some (cs_values self ! idx) else None)"

definition canon_stream_push :: "'n value_aggregate \<Rightarrow> 'n canon_stream \<Rightarrow> 'n canon_stream" where
  "canon_stream_push v self = self\<lparr>cs_values := cs_values self @ [v]\<rparr>"

record 'n canon_stream_map =
  csm_values :: "'n value_aggregate list"
  csm_map :: "stream_map_key \<rightharpoonup> 'n canon_stream"
  csm_tetraplet :: security_tetraplet

definition get_value_from_obj :: "'n value_aggregate \<Rightarrow> ('n value_aggregate, 'n execution_error) result" where
  "get_value_from_obj v =
     res_then (ok_or (Uncatchable (StreamMapKeyError NotAnObject)) (as_object (get_result v))) (\<lambda>object.
     res_then (ok_or (Uncatchable (StreamMapKeyError ValueFieldIsAbsent)) (map_of object VALUE_FIELD_NAME)) (\<lambda>x.
     Ok (value_aggregate_new x (get_tetraplet v) (get_trace_pos v) (get_provenance v))))"

fun canon_map_loop ::
    "'n number_ops \<Rightarrow> security_tetraplet \<Rightarrow> 'n value_aggregate list \<Rightarrow> (stream_map_key \<rightharpoonup> 'n canon_stream)
       \<Rightarrow> (stream_map_key \<rightharpoonup> 'n canon_stream, 'n execution_error) result" where
  "canon_map_loop N tetraplet [] m = Ok m"
| "canon_map_loop N tetraplet (kvpair_obj # rest) m =
     res_then (ok_or (Uncatchable (StreamMapKeyError UnsupportedKVPairObjectOrMapKeyType))
         (key_from_kvpair_owned N kvpair_obj)) (\<lambda>key.
     res_then (get_value_from_obj kvpair_obj) (\<lambda>v.
     let entry = (case m key of None \<Rightarrow> canon_stream_new [] tetraplet | Some c \<Rightarrow> c) in
     canon_map_loop N tetraplet rest (m(key \<mapsto> canon_stream_push v entry))))"

definition from_canon_stream :: "'n number_ops \<Rightarrow> 'n canon_stream \<Rightarrow> ('n canon_stream_map, 'n execution_error) result" where
  "from_canon_stream N c =
     res_then (canon_map_loop N (cs_tetraplet c) (cs_values c) Map.empty) (\<lambda>m.
     Ok \<lparr>csm_values = cs_values c, csm_map = m, csm_tetraplet = cs_tetraplet c\<rparr>)"

definition canon_map_index :: "stream_map_key \<Rightarrow> 'n canon_stream_map \<Rightarrow> 'n canon_stream option" where
  "canon_map_index key self = csm_map self key"

text \<open>\<open>order\<close> is the order in which the hash map is iterated.\<close>

definition canon_map_as_jvalue :: "stream_map_key list \<Rightarrow> 'n canon_stream_map \<Rightarrow> 'n jvalue" where
  "canon_map_as_jvalue order self = JObject (object_collect
     (List.map_filter (\<lambda>k. map_option (\<lambda>c. (to_key k, canon_stream_as_jvalue c)) (csm_map self k)) order))"

section \<open>Objects\<close>

lemma map_of_object_insert [simp]: "map_of (object_insert k v m) = (map_of m)(k \<mapsto> v)"
  by (induction k v m rule: object_insert.induct) (auto simp: fun_upd_twist)

lemma keys_object_insert: "set (map fst (object_insert k v m)) = insert k (set (map fst m))"
  by (induction k v m rule: object_insert.induct) auto

lemma sorted_object_insert:
  "sorted (map fst m) \<Longrightarrow> distinct (map fst m) \<Longrightarrow>
     sorted (map fst (object_insert k v m)) \<and> distinct (map fst (object_insert k v m))"
proof (induction k v m rule: object_insert.induct)
  case (2 k v k' v' m)
  have "set (map fst (object_insert k v m)) = insert k (set (map fst m))" by (rule keys_object_insert)
  with 2 show ?case by (auto simp: not_less le_less)
qed simp

lemma map_of_object_collect: "map_of (object_collect kvs) = map_of (rev kvs)"
proof -
  have "map_of (fold (\<lambda>(k, v). object_insert k v) kvs m) = map_of (rev kvs @ m)" for m :: "(string \<times> 'a) list"
    by (induction kvs arbitrary: m) (auto simp: map_add_def fun_eq_iff split: option.splits)
  from this [of "[]"] show ?thesis by (simp add: object_collect_def)
qed

lemma sorted_object_collect: "sorted (map fst (object_collect kvs)) \<and> distinct (map fst (object_collect kvs))"
proof -
  have "sorted (map fst (fold (\<lambda>(k, v). object_insert k v) kvs m)) \<and> distinct (map fst (fold (\<lambda>(k, v). object_insert k v) kvs m))"
    if "sorted (map fst m)" "distinct (map fst m)" for m :: "(string \<times> 'a) list"
    using that
  proof (induction kvs arbitrary: m)
    case (Cons x kvs)
    then show ?case using sorted_object_insert [of m "fst x" "snd x"] by (cases x) auto
  qed simp
  then show ?thesis by (simp add: object_collect_def)
qed

lemma object_eqI:
  assumes "map_of (object_collect xs) = map_of (object_collect ys)"
  shows "object_collect xs = object_collect ys"
proof -
  note x = sorted_object_collect [of xs] and y = sorted_object_collect [of ys]
  have eq: "set (object_collect xs) = set (object_collect ys)"
    using assms map_of_inject_set [of "object_collect xs" "object_collect ys"] x y by blast
  moreover have "inj_on fst (set (object_collect xs))" using x by (simp add: distinct_map)
  ultimately show ?thesis
    using x y by (intro map_sorted_distinct_set_unique [of fst]) simp_all
qed

section \<open>Unique keys\<close>

text \<open>The pairs of a stream map with a supported key, in order; the value may be missing.\<close>

definition kv_entry :: "'n number_ops \<Rightarrow> 'n value_aggregate \<Rightarrow> (string \<times> 'n jvalue option) option" where
  "kv_entry N v = Option.bind (as_object (get_result v)) (\<lambda>object.
     Option.bind (map_of object KEY_FIELD_NAME) (\<lambda>k.
     map_option (\<lambda>key. (to_key key, map_of object VALUE_FIELD_NAME)) (key_from_value N k)))"

definition kv_entries :: "'n number_ops \<Rightarrow> 'n value_aggregate list \<Rightarrow> (string \<times> 'n jvalue option) list" where
  "kv_entries N vs = List.map_filter (kv_entry N) vs"

lemma kv_entries_simps [simp]:
  "kv_entries N [] = []"
  "kv_entries N (v # vs) = (case kv_entry N v of None \<Rightarrow> kv_entries N vs | Some e \<Rightarrow> e # kv_entries N vs)"
  by (simp_all add: kv_entries_def map_filter_simps split: option.splits)

lemma unique_key_objects_step:
  "unique_key_objects N met (v # vs) =
     (case kv_entry N v of
        None \<Rightarrow> unique_key_objects N met vs
      | Some (k, x) \<Rightarrow> if k \<in> set met then unique_key_objects N met vs
          else (case x of None \<Rightarrow> [] | Some y \<Rightarrow> [(k, y)]) @ unique_key_objects N (k # met) vs)"
  by (auto simp: kv_entry_def as_inner_parts_eq split: option.splits Option.bind_splits)

declare unique_key_objects.simps(2) [simp del]

lemma unique_key_objects_spec:
  "distinct (map fst (unique_key_objects N met vs))
   \<and> (\<forall>k. map_of (unique_key_objects N met vs) k
        = (if k \<in> set met then None else Option.bind (map_of (kv_entries N vs) k) id))"
proof (induction vs arbitrary: met)
  case (Cons v vs)
  show ?case
  proof (cases "kv_entry N v")
    case None
    then show ?thesis using Cons.IH [of met] by (simp add: unique_key_objects_step)
  next
    case (Some e)
    obtain k x where e: "e = (k, x)" by fastforce
    note IH = Cons.IH [of met] Cons.IH [of "k # met"]
    have "k \<notin> fst ` set (unique_key_objects N (k # met) vs)"
      using IH(2) by (metis list.set_intros(1) map_of_eq_None_iff)
    with IH Some e show ?thesis
      by (cases x) (auto simp: unique_key_objects_step)
  qed
qed simp

section \<open>Canonicalization\<close>

definition kv_ok :: "'n number_ops \<Rightarrow> 'n value_aggregate \<Rightarrow> (stream_map_key \<times> 'n value_aggregate) option" where
  "kv_ok N v = (case (key_from_kvpair_owned N v, get_value_from_obj v) of (Some k, Ok x) \<Rightarrow> Some (k, x) | _ \<Rightarrow> None)"

definition values_of_key :: "'n number_ops \<Rightarrow> stream_map_key \<Rightarrow> 'n value_aggregate list \<Rightarrow> 'n value_aggregate list" where
  "values_of_key N k vs = map snd (filter (\<lambda>(k', _). k' = k) (List.map_filter (kv_ok N) vs))"

lemma get_value_no_panic: "get_value_from_obj v \<noteq> Panic"
  by (cases "as_object (get_result v)"; cases "map_of (the (as_object (get_result v))) VALUE_FIELD_NAME")
    (auto simp: get_value_from_obj_def)

lemma canon_map_loop_Some:
  "kv_ok N v = Some (k, x) \<Longrightarrow> canon_map_loop N t (v # vs) m
     = canon_map_loop N t vs (m(k \<mapsto> canon_stream_push x (case m k of None \<Rightarrow> canon_stream_new [] t | Some c \<Rightarrow> c)))"
  by (cases "key_from_kvpair_owned N v"; cases "get_value_from_obj v") (simp_all add: kv_ok_def Let_def)

lemma canon_map_loop_None: "kv_ok N v = None \<Longrightarrow> \<exists>e. canon_map_loop N t (v # vs) m = Err e"
  using get_value_no_panic [of v]
  by (cases "key_from_kvpair_owned N v"; cases "get_value_from_obj v") (simp_all add: kv_ok_def)

declare canon_map_loop.simps(2) [simp del]

lemma canon_map_loop_Ok:
  assumes "canon_map_loop N t vs m = Ok m'" "\<And>k c. m k = Some c \<Longrightarrow> cs_tetraplet c = t \<and> cs_values c \<noteq> []"
  shows "m' k = (let xs = (case m k of None \<Rightarrow> [] | Some c \<Rightarrow> cs_values c) @ values_of_key N k vs in
    if xs = [] then None else Some \<lparr>cs_values = xs, cs_tetraplet = t\<rparr>)"
  using assms
proof (induction vs arbitrary: m)
  case Nil
  then show ?case by (auto simp: values_of_key_def map_filter_simps Let_def split: option.splits)
next
  case (Cons v vs)
  from Cons.prems(1) obtain k' x where kx: "kv_ok N v = Some (k', x)"
    using canon_map_loop_None [of N v t vs m] by (cases "kv_ok N v") auto
  let ?m = "m(k' \<mapsto> canon_stream_push x (case m k' of None \<Rightarrow> canon_stream_new [] t | Some c \<Rightarrow> c))"
  have "canon_map_loop N t vs ?m = Ok m'" using Cons.prems(1) kx by (simp add: canon_map_loop_Some)
  moreover have "\<And>k c. ?m k = Some c \<Longrightarrow> cs_tetraplet c = t \<and> cs_values c \<noteq> []"
    using Cons.prems(2) by (auto simp: canon_stream_push_def canon_stream_new_def split: if_splits option.splits)
  ultimately have "m' k = (let xs = (case ?m k of None \<Rightarrow> [] | Some c \<Rightarrow> cs_values c) @ values_of_key N k vs in
      if xs = [] then None else Some \<lparr>cs_values = xs, cs_tetraplet = t\<rparr>)"
    by (rule Cons.IH)
  moreover have "values_of_key N k (v # vs) = (if k = k' then [x] else []) @ values_of_key N k vs"
    using kx by (simp add: values_of_key_def map_filter_simps)
  ultimately show ?case
    by (simp add: canon_stream_push_def canon_stream_new_def split: option.splits)
qed

lemma canon_map_loop_Err:
  "canon_map_loop N t vs m \<noteq> Panic \<and> ((\<exists>e. canon_map_loop N t vs m = Err e) \<longleftrightarrow> (\<exists>v \<in> set vs. kv_ok N v = None))"
proof (induction vs arbitrary: m)
  case (Cons v vs)
  show ?case
  proof (cases "kv_ok N v")
    case None
    with canon_map_loop_None [OF None, of t vs m] show ?thesis by auto
  next
    case (Some kx)
    with Cons.IH show ?thesis by (cases kx) (simp add: canon_map_loop_Some)
  qed
qed simp

section \<open>Inserting a pair\<close>

text \<open>The keys that survive a conversion to a JSON number and back: what fits an \<^verbatim>\<open>i64\<close> is one.\<close>

fun canonical_key :: "stream_map_key \<Rightarrow> bool" where
  "canonical_key (KeyStr _) = True"
| "canonical_key (KeyI64 i) = is_i64_value i"
| "canonical_key (KeyU64 n) \<longleftrightarrow> 2 ^ 63 \<le> n \<and> n < 2 ^ 64"

lemma key_roundtrip:
  "number_documented N \<Longrightarrow> canonical_key k \<Longrightarrow> key_from_value N (key_into_jvalue N k) = Some k"
  by (cases k) (auto simp: number_documented_def)

lemma from_key_value_fields:
  "from_key_value N k x = JObject m \<Longrightarrow> map_of m KEY_FIELD_NAME = Some (key_into_jvalue N k) \<and> map_of m VALUE_FIELD_NAME = Some x"
  by (auto simp: from_key_value_def map_of_object_collect KEY_FIELD_NAME_def VALUE_FIELD_NAME_def)

lemma kv_of_inserted:
  assumes "number_documented N" "canonical_key k"
    and "w = value_aggregate_new (from_key_value N k (get_result v)) (get_tetraplet v) (get_trace_pos v) (get_provenance v)"
  shows "key_from_kvpair_owned N w = Some k" "get_value_from_obj w = Ok v"
proof -
  obtain m where m: "from_key_value N k (get_result v) = JObject m"
    by (simp add: from_key_value_def)
  have t: "get_tetraplet w = get_tetraplet v"
    using assms(3) by (cases v) (simp_all add: literal_get_tetraplet_def literal_tetraplet_def literal_aggregate_new_def
        service_result_aggregate_new_def canon_get_tetraplet_def canon_result_aggregate_new_def)
  note f = from_key_value_fields [OF m]
  show "key_from_kvpair_owned N w = Some k"
    using f key_roundtrip [OF assms(1,2)] by (simp add: key_from_kvpair_owned_def assms(3) value_aggregate_new_parts m)
  have "get_value_from_obj w = Ok (value_aggregate_new (get_result v) (get_tetraplet w) (get_trace_pos w) (get_provenance w))"
    using f by (simp add: get_value_from_obj_def assms(3) value_aggregate_new_parts m)
  then show "get_value_from_obj w = Ok v"
    using value_aggregate_rebuild [of v] by (simp add: t) (simp add: assms(3) value_aggregate_new_parts)
qed

section \<open>The JSON value of a canonicalized map\<close>

definition map_entries :: "'n canon_stream_map \<Rightarrow> stream_map_key list \<Rightarrow> (string \<times> 'n jvalue) list" where
  "map_entries m order = List.map_filter (\<lambda>k. map_option (\<lambda>c. (to_key k, canon_stream_as_jvalue c)) (csm_map m k)) order"

lemma canon_map_as_jvalue_eq: "canon_map_as_jvalue order m = JObject (object_collect (map_entries m order))"
  by (simp add: canon_map_as_jvalue_def map_entries_def)

lemma map_entries_simps [simp]:
  "map_entries m [] = []"
  "map_entries m (k # ks) = (case csm_map m k of None \<Rightarrow> map_entries m ks
     | Some c \<Rightarrow> (to_key k, canon_stream_as_jvalue c) # map_entries m ks)"
  "map_entries m (ks @ ls) = map_entries m ks @ map_entries m ls"
  "map_entries m (rev ks) = rev (map_entries m ks)"
proof -
  show c: "map_entries m (k # ks) = (case csm_map m k of None \<Rightarrow> map_entries m ks
     | Some c \<Rightarrow> (to_key k, canon_stream_as_jvalue c) # map_entries m ks)" for k ks
    by (simp add: map_entries_def map_filter_simps split: option.splits)
  show n: "map_entries m [] = []" by (simp add: map_entries_def map_filter_simps)
  show a: "map_entries m (ks @ ls) = map_entries m ks @ map_entries m ls" for ks ls
    by (induction ks) (simp_all add: n c split: option.splits)
  show "map_entries m (rev ks) = rev (map_entries m ks)"
    by (induction ks) (simp_all add: n c a split: option.splits)
qed

lemma map_entries_in: "(s, x) \<in> set (map_entries m order) \<longleftrightarrow>
    (\<exists>k c. k \<in> set order \<and> csm_map m k = Some c \<and> s = to_key k \<and> x = canon_stream_as_jvalue c)"
  by (induction order) (auto split: option.splits)

definition keys_agree :: "'n canon_stream_map \<Rightarrow> bool" where
  "keys_agree m \<longleftrightarrow> (\<forall>k1 k2 c1 c2. csm_map m k1 = Some c1 \<longrightarrow> csm_map m k2 = Some c2 \<longrightarrow>
     to_key k1 = to_key k2 \<longrightarrow> canon_stream_as_jvalue c1 = canon_stream_as_jvalue c2)"

lemma agreeing_entries:
  assumes "keys_agree m" "set o1 = set o2"
  shows "map_of (map_entries m o1) = map_of (map_entries m o2)"
proof
  fix s
  have agree: "x = y" if "(s, x) \<in> set (map_entries m o1)" "(s, y) \<in> set (map_entries m o2)" for x y
    using that assms(1) by (auto simp: map_entries_in keys_agree_def)
  have same: "set (map_entries m o1) = set (map_entries m o2)"
    using assms(2) by (auto simp: map_entries_in)
  show "map_of (map_entries m o1) s = map_of (map_entries m o2) s"
  proof (cases "map_of (map_entries m o1) s")
    case None
    then have "map_of (map_entries m o2) s = None" using same by (simp add: map_of_eq_None_iff)
    with None show ?thesis by simp
  next
    case (Some x)
    then have "s \<in> fst ` set (map_entries m o2)" using map_of_SomeD [OF Some] same by force
    then obtain y where "map_of (map_entries m o2) s = Some y" by (metis map_of_eq_None_iff not_None_eq)
    with Some show ?thesis using agree [of x y] by (auto dest: map_of_SomeD)
  qed
qed

section \<open>Properties\<close>

text \<open>
  C28. Inserting a pair into a stream map and reading it back: the insertion adds one object to the
  stream, the key of that object is the given key, and its value is the given value with its
  tetraplet, position and provenance. The numbers behave as documented, and an integer key that
  fits an \<^verbatim>\<open>i64\<close> is given as one.
\<close>

theorem stream_map_insert_roundtrip:
  assumes "number_documented (N :: 'n number_ops)" "canonical_key k" "stream_wf (sm_stream self)"
    and "stream_map_insert N k v g self = (Ok (), self')"
  shows "\<exists>w. mset (stream_map_iter self') = add_mset w (mset (stream_map_iter self))
    \<and> key_from_kvpair_owned N w = Some k \<and> get_value_from_obj w = Ok v \<and> stream_wf (sm_stream self')"
proof -
  let ?w = "value_aggregate_new (from_key_value N k (get_result v)) (get_tetraplet v) (get_trace_pos v) (get_provenance v)"
  obtain s where s: "add_value ?w g (sm_stream self) = (Ok () :: (unit, 'n execution_error) result, s)" "self' = self\<lparr>sm_stream := s\<rparr>"
    using assms(4) by (auto simp: stream_map_insert_def Let_def zoom_def split: prod.splits)
  with add_value_OkD [OF assms(3) s(1)] add_value_wf [OF assms(3) s(1)] kv_of_inserted [OF assms(1,2) refl, of v]
  show ?thesis by (auto simp: stream_map_iter_def)
qed

text \<open>Integers as the numbers of a witness.\<close>

definition int_numbers :: "int number_ops" where
  "int_numbers = \<lparr>as_i64 = (\<lambda>i. if is_i64_value i then Some i else None),
     as_u64 = (\<lambda>i. if 0 \<le> i \<and> i < 2 ^ 64 then Some (nat i) else None), from_i64 = (\<lambda>i. i), from_u64 = int\<rparr>"

lemma int_numbers_documented: "number_documented int_numbers"
  by (auto simp: number_documented_def int_numbers_def is_i64_value_def)

definition example_literal :: "int jvalue \<Rightarrow> int value_aggregate" where
  "example_literal x = LiteralValue \<lparr>la_result = x, la_init_peer_id = ''p'', la_trace_pos = 0\<rparr>"

lemma stream_map_insert_roundtrip_witness:
  "\<exists>self' w. stream_map_insert int_numbers (KeyI64 42) (example_literal (JBool True)) GenNew stream_map_new = (Ok (), self')
     \<and> mset (stream_map_iter self') = {#w#} \<and> key_from_kvpair_owned int_numbers w = Some (KeyI64 42)"
proof -
  have ck: "canonical_key (KeyI64 42)" by (simp add: is_i64_value_def)
  have wf: "stream_wf (sm_stream (stream_map_new :: int stream_map))" "stream_map_iter (stream_map_new :: int stream_map) = []"
    by (simp_all add: stream_map_new_def stream_new_wf stream_map_iter_def)
  have "\<exists>self'. stream_map_insert int_numbers (KeyI64 42) (example_literal (JBool True)) GenNew stream_map_new = (Ok (), self')"
    by (simp add: stream_map_insert_def Let_def zoom_def stream_map_new_def add_value_eq stream_new_wf STREAM_MAX_SIZE_def)
  then obtain self' where i: "stream_map_insert int_numbers (KeyI64 42) (example_literal (JBool True)) GenNew stream_map_new = (Ok (), self')"
    by blast
  from stream_map_insert_roundtrip [OF int_numbers_documented ck wf(1) i] wf(2) i show ?thesis by auto
qed

text \<open>
  Unique keys: \<^verbatim>\<open>iter_unique_key_object\<close> yields no key twice, and for every key the value of the
  first pair with that key, where keys are compared as strings; when that first pair has no
  value, the key is not yielded at all, also when a later pair has one.
\<close>

theorem unique_keys_first_pair:
  "distinct (map fst (iter_unique_key_object N self))
   \<and> map_of (iter_unique_key_object N self) k
       = Option.bind (map_of (kv_entries N (stream_map_iter self)) k) id"
  using unique_key_objects_spec [of N "[]" "stream_iter (sm_stream self)"]
  by (simp add: iter_unique_key_object_def stream_map_iter_def)

text \<open>
  C29. Canonicalizing a stream map groups it by key: for every key, the index has exactly the values
  of the pairs with that key, in the order of the stream, with the tetraplet of the canonicalized
  stream; it has nothing for a key without pairs. It fails exactly when some element is not a pair
  with a supported key and a value, and never panics.
\<close>

theorem from_canon_stream_groups:
  "from_canon_stream N c \<noteq> Panic
   \<and> ((\<exists>e. from_canon_stream N c = Err e) \<longleftrightarrow> (\<exists>v \<in> set (cs_values c). kv_ok N v = None))
   \<and> (from_canon_stream N c = Ok m \<longrightarrow> csm_values m = cs_values c \<and> csm_tetraplet m = cs_tetraplet c
       \<and> (\<forall>k. canon_map_index k m = (if values_of_key N k (cs_values c) = [] then None
            else Some \<lparr>cs_values = values_of_key N k (cs_values c), cs_tetraplet = cs_tetraplet c\<rparr>)))"
proof -
  note e = canon_map_loop_Err [of N "cs_tetraplet c" "cs_values c" Map.empty]
  show ?thesis
  proof (cases "canon_map_loop N (cs_tetraplet c) (cs_values c) Map.empty")
    case (Ok m')
    with e canon_map_loop_Ok [OF Ok] show ?thesis
      by (auto simp: from_canon_stream_def canon_map_index_def Let_def)
  qed (use e in \<open>auto simp: from_canon_stream_def\<close>)
qed

definition example_pair :: "int jvalue \<Rightarrow> int jvalue \<Rightarrow> int value_aggregate" where
  "example_pair k v = example_literal (JObject [(''key'', k), (''value'', v)])"

definition example_canon :: "int canon_stream" where
  "example_canon = canon_stream_from_values [example_pair (JString ''42'') (JBool True), example_pair (JNumber 42) (JBool False)] ''p''"

lemma example_pair_ok:
  "key_from_value int_numbers k = Some k' \<Longrightarrow> kv_ok int_numbers (example_pair k v) = Some (k', example_literal v)"
  by (simp add: kv_ok_def key_from_kvpair_owned_def get_value_from_obj_def example_pair_def example_literal_def
      KEY_FIELD_NAME_def VALUE_FIELD_NAME_def literal_get_tetraplet_def literal_tetraplet_def literal_aggregate_new_def)

lemma example_keys:
  "key_from_value int_numbers (JString ''42'') = Some (KeyStr ''42'')" "key_from_value int_numbers (JNumber 42) = Some (KeyI64 42)"
  by (simp_all add: int_numbers_def is_i64_value_def)

lemma example_values_of_key:
  "values_of_key int_numbers (KeyStr ''42'') (cs_values example_canon) = [example_literal (JBool True)]"
  "values_of_key int_numbers (KeyI64 42) (cs_values example_canon) = [example_literal (JBool False)]"
  by (simp_all add: values_of_key_def example_canon_def canon_stream_from_values_def map_filter_simps
      example_pair_ok [OF example_keys(1)] example_pair_ok [OF example_keys(2)])

lemma example_canon_Ok: "\<exists>m. from_canon_stream int_numbers example_canon = Ok m"
  by (simp add: from_canon_stream_def example_canon_def canon_stream_from_values_def
      canon_map_loop_Some [OF example_pair_ok [OF example_keys(1)]] canon_map_loop_Some [OF example_pair_ok [OF example_keys(2)]])

lemma from_canon_stream_groups_witness:
  "\<exists>m. from_canon_stream int_numbers example_canon = Ok m
     \<and> canon_map_index (KeyStr ''42'') m = Some (canon_stream_from_values [example_literal (JBool True)] ''p'')"
proof -
  obtain m where m: "from_canon_stream int_numbers example_canon = Ok m" using example_canon_Ok by blast
  with from_canon_stream_groups [of int_numbers example_canon m] show ?thesis
    by (auto simp: example_values_of_key) (simp add: example_canon_def canon_stream_from_values_def)
qed

text \<open>
  The JSON value of a canonicalized map is determined by the map exactly when no two of its
  keys have the same string form and different values: otherwise it depends on the iteration
  order of the hash map. The witness is a map with the keys \<^verbatim>\<open>"42"\<close> and \<^verbatim>\<open>42\<close>.
\<close>

theorem canon_map_as_jvalue_deterministic:
  assumes "finite (dom (csm_map m))"
  shows "(\<forall>o1 o2. distinct o1 \<longrightarrow> distinct o2 \<longrightarrow> set o1 = dom (csm_map m) \<longrightarrow> set o2 = dom (csm_map m) \<longrightarrow>
      canon_map_as_jvalue o1 m = canon_map_as_jvalue o2 m) \<longleftrightarrow> keys_agree m"
proof
  assume "keys_agree m"
  then show "\<forall>o1 o2. distinct o1 \<longrightarrow> distinct o2 \<longrightarrow> set o1 = dom (csm_map m) \<longrightarrow> set o2 = dom (csm_map m) \<longrightarrow>
      canon_map_as_jvalue o1 m = canon_map_as_jvalue o2 m"
    using agreeing_entries [of m]
    by (auto simp: canon_map_as_jvalue_eq map_of_object_collect simp flip: map_entries_simps(4) intro!: object_eqI)
next
  assume det: "\<forall>o1 o2. distinct o1 \<longrightarrow> distinct o2 \<longrightarrow> set o1 = dom (csm_map m) \<longrightarrow> set o2 = dom (csm_map m) \<longrightarrow>
      canon_map_as_jvalue o1 m = canon_map_as_jvalue o2 m"
  show "keys_agree m"
    unfolding keys_agree_def
  proof (intro allI impI)
    fix k1 k2 c1 c2
    assume k: "csm_map m k1 = Some c1" "csm_map m k2 = Some c2" "to_key k1 = to_key k2"
    show "canon_stream_as_jvalue c1 = canon_stream_as_jvalue c2"
    proof (cases "k1 = k2")
      case False
      obtain ks where ks: "set ks = dom (csm_map m) - {k1, k2}" "distinct ks"
        using assms finite_distinct_list [of "dom (csm_map m) - {k1, k2}"] by auto
      have "k1 \<in> dom (csm_map m)" "k2 \<in> dom (csm_map m)" using k by auto
      with ks False have "set (ks @ [k1, k2]) = dom (csm_map m)" "set (ks @ [k2, k1]) = dom (csm_map m)"
          "distinct (ks @ [k1, k2])" "distinct (ks @ [k2, k1])" by auto
      with det have "canon_map_as_jvalue (ks @ [k1, k2]) m = canon_map_as_jvalue (ks @ [k2, k1]) m" by blast
      then have "map_of (object_collect (map_entries m (ks @ [k1, k2]))) (to_key k1)
          = map_of (object_collect (map_entries m (ks @ [k2, k1]))) (to_key k1)"
        by (simp add: canon_map_as_jvalue_eq)
      with k show ?thesis by (simp add: map_of_object_collect)
    qed (use k in simp)
  qed
qed

lemma show_int_42: "show_int 42 = ''42''"
  by code_simp

lemma canon_map_as_jvalue_deterministic_witness:
  "\<exists>m o1 o2. from_canon_stream int_numbers example_canon = Ok m
     \<and> distinct o1 \<and> distinct o2 \<and> set o1 = dom (csm_map m) \<and> set o2 = dom (csm_map m)
     \<and> canon_map_as_jvalue o1 m \<noteq> canon_map_as_jvalue o2 m"
proof -
  obtain m where m: "from_canon_stream int_numbers example_canon = Ok m" using example_canon_Ok by blast
  have fin: "finite (dom (csm_map m))"
    using m by (auto simp: from_canon_stream_def example_canon_def canon_stream_from_values_def
        canon_map_loop_Some [OF example_pair_ok [OF example_keys(1)]] canon_map_loop_Some [OF example_pair_ok [OF example_keys(2)]])
  obtain m' where m': "canon_map_loop int_numbers (cs_tetraplet example_canon) (cs_values example_canon) Map.empty = Ok m'"
      "csm_map m = m'"
    using m by (auto simp: from_canon_stream_def elim!: res_then.elims)
  have "m' k = (if values_of_key int_numbers k (cs_values example_canon) = [] then None
      else Some \<lparr>cs_values = values_of_key int_numbers k (cs_values example_canon), cs_tetraplet = cs_tetraplet example_canon\<rparr>)" for k
    using canon_map_loop_Ok [OF m'(1)] by (simp add: Let_def)
  then have "csm_map m (KeyStr ''42'') = Some \<lparr>cs_values = [example_literal (JBool True)], cs_tetraplet = cs_tetraplet example_canon\<rparr>"
    "csm_map m (KeyI64 42) = Some \<lparr>cs_values = [example_literal (JBool False)], cs_tetraplet = cs_tetraplet example_canon\<rparr>"
    using m'(2) by (simp_all add: example_values_of_key)
  note k = this
  have "\<not> keys_agree m"
  proof
    assume "keys_agree m"
    from this [unfolded keys_agree_def, rule_format, OF k] show False
      by (simp add: canon_stream_as_jvalue_def example_literal_def show_int_42)
  qed
  with canon_map_as_jvalue_deterministic [OF fin] m show ?thesis by blast
qed

end
