(* ===== verification/Air_Ast.thy ===== *)
theory Air_Ast
  imports Stream_Maps
begin

text \<open>
  Scripts as the parser hands them to the interpreter (\<^verbatim>\<open>air-parser/src/ast\<close> with its \<^verbatim>\<open>Display\<close>
  implementations, \<^verbatim>\<open>lambda/ast/src\<close>): lambdas, variables, arguments and instructions.

  The structures of a named variable (\<^verbatim>\<open>Scalar\<close>, \<^verbatim>\<open>Stream\<close>, \<^verbatim>\<open>CanonStream\<close>, \<^verbatim>\<open>CanonStreamMap\<close>,
  \<^verbatim>\<open>StreamMap\<close>) have the same fields and are one record, and so are those with a lambda. The fields of
  an instruction are the arguments of its constructor. A float literal is what the standard library makes
  of it: the JSON value it converts to and its text.
\<close>

section \<open>Lambdas\<close>

datatype length_functor = Length

datatype value_accessor =
    ArrayAccess u32
  | FieldAccessByName string
  | FieldAccessByScalar string
  | AccessorError

datatype lambda_ast = Functor length_functor | ValuePath "value_accessor list"

fun show_functor :: "length_functor \<Rightarrow> string" where
  "show_functor Length = ''length''"

fun show_accessor :: "value_accessor \<Rightarrow> string" where
  "show_accessor (ArrayAccess idx) = ''['' @ show_nat (unat idx) @ '']''"
| "show_accessor (FieldAccessByName field_name) = field_name"
| "show_accessor (FieldAccessByScalar scalar_name) = ''['' @ scalar_name @ '']''"
| "show_accessor AccessorError = ''a parser error occurred while parsing lambda expression''"

text \<open>\<^verbatim>\<open>join\<close> of the \<^verbatim>\<open>itertools\<close> package and of slices of strings.\<close>

fun join_text :: "string \<Rightarrow> string list \<Rightarrow> string" where
  "join_text sep [] = []"
| "join_text sep [x] = x"
| "join_text sep (x # xs) = x @ sep @ join_text sep xs"

fun show_lambda :: "lambda_ast \<Rightarrow> string" where
  "show_lambda (Functor f) = ''.'' @ show_functor f"
| "show_lambda (ValuePath value_path) = ''.$.'' @ join_text ''.'' (map show_accessor value_path)"

section \<open>Variables\<close>

record ast_variable =
  var_name :: string
  var_position :: air_pos

record ast_variable_wl =
  wl_name :: string
  wl_lambda :: lambda_ast
  wl_position :: air_pos

type_synonym ast_scalar = ast_variable
type_synonym ast_stream = ast_variable
type_synonym ast_canon_stream = ast_variable
type_synonym ast_canon_stream_map = ast_variable
type_synonym ast_stream_map = ast_variable
type_synonym ast_scalar_wl = ast_variable_wl
type_synonym ast_canon_stream_wl = ast_variable_wl
type_synonym ast_canon_stream_map_wl = ast_variable_wl

datatype immutable_variable = VarScalar ast_scalar | VarCanonStream ast_canon_stream | VarCanonStreamMap ast_canon_stream_map

datatype immutable_variable_wl =
    VarScalarWl ast_scalar_wl
  | VarCanonStreamWl ast_canon_stream_wl
  | VarCanonStreamMapWl ast_canon_stream_map_wl

record instruction_error_ast =
  error_lens :: "lambda_ast option"

definition show_variable :: "ast_variable \<Rightarrow> string" where
  "show_variable v = var_name v"

definition show_variable_wl :: "ast_variable_wl \<Rightarrow> string" where
  "show_variable_wl v = wl_name v @ show_lambda (wl_lambda v)"

fun show_immutable_variable :: "immutable_variable \<Rightarrow> string" where
  "show_immutable_variable (VarScalar v) = show_variable v"
| "show_immutable_variable (VarCanonStream v) = show_variable v"
| "show_immutable_variable (VarCanonStreamMap v) = show_variable v"

fun show_immutable_variable_wl :: "immutable_variable_wl \<Rightarrow> string" where
  "show_immutable_variable_wl (VarScalarWl v) = show_variable_wl v"
| "show_immutable_variable_wl (VarCanonStreamWl v) = show_variable_wl v"
| "show_immutable_variable_wl (VarCanonStreamMapWl v) = show_variable_wl v"

section \<open>Arguments\<close>

datatype 'n ast_number = NumInt int | NumFloat "'n jvalue" string

datatype peer_id_variable =
    PeerInitPeerId
  | PeerLiteral string
  | PeerScalar ast_scalar
  | PeerScalarWl ast_scalar_wl
  | PeerCanonStreamWl ast_canon_stream_wl
  | PeerCanonStreamMapWl ast_canon_stream_map_wl

datatype string_variable =
    StrLiteral string
  | StrScalar ast_scalar
  | StrScalarWl ast_scalar_wl
  | StrCanonStreamWl ast_canon_stream_wl
  | StrCanonStreamMapWl ast_canon_stream_map_wl

record ast_triplet =
  trip_peer_id :: peer_id_variable
  trip_service_id :: string_variable
  trip_function_name :: string_variable

datatype 'n immutable_value =
    ValInitPeerId
  | ValError instruction_error_ast
  | ValLastError "lambda_ast option"
  | ValTimestamp
  | ValTTL
  | ValLiteral string
  | ValNumber "'n ast_number"
  | ValBoolean bool
  | ValEmptyArray
  | ValVariable immutable_variable
  | ValVariableWl immutable_variable_wl

datatype call_output_value = OutScalar ast_scalar | OutStream ast_stream | OutNone

datatype 'n ap_argument =
    ArgInitPeerId
  | ArgTimestamp
  | ArgTTL
  | ArgError instruction_error_ast
  | ArgLastError "lambda_ast option"
  | ArgLiteral string
  | ArgNumber "'n ast_number"
  | ArgBoolean bool
  | ArgEmptyArray
  | ArgScalar ast_scalar
  | ArgScalarWl ast_scalar_wl
  | ArgCanonStream ast_canon_stream
  | ArgCanonStreamMap ast_canon_stream_map
  | ArgCanonStreamWl ast_canon_stream_wl
  | ArgCanonStreamMapWl ast_canon_stream_map_wl

datatype ap_result_ast = ResScalar ast_scalar | ResStream ast_stream

datatype stream_map_key_clause =
    KeyLiteral string
  | KeyInt int
  | KeyScalar ast_scalar
  | KeyScalarWl ast_scalar_wl
  | KeyCanonStreamWl ast_canon_stream_wl

datatype fold_scalar_iterable =
    IterScalar ast_scalar
  | IterScalarWl ast_scalar_wl
  | IterCanonStream ast_canon_stream
  | IterCanonStreamMap ast_canon_stream_map
  | IterCanonStreamMapWl ast_canon_stream_map_wl
  | IterEmptyArray

datatype new_argument =
    NewScalar ast_scalar
  | NewStream ast_stream
  | NewStreamMap ast_stream_map
  | NewCanonStream ast_canon_stream
  | NewCanonStreamMap ast_canon_stream_map

text \<open>The names \<^verbatim>\<open>LAST_ERROR\<close> and \<^verbatim>\<open>ERROR\<close> of the lexer.\<close>

definition LAST_ERROR :: string where
  "LAST_ERROR = ''%last_error%''"

definition ERROR :: string where
  "ERROR = '':error:''"

definition show_opt_lambda :: "lambda_ast option \<Rightarrow> string" where
  "show_opt_lambda l = (case l of None \<Rightarrow> [] | Some l \<Rightarrow> show_lambda l)"

definition display_last_error :: "lambda_ast option \<Rightarrow> string" where
  "display_last_error l = LAST_ERROR @ show_opt_lambda l"

definition display_error :: "instruction_error_ast \<Rightarrow> string" where
  "display_error e = ERROR @ show_opt_lambda (error_lens e)"

definition show_bool :: "bool \<Rightarrow> string" where
  "show_bool b = (if b then ''true'' else ''false'')"

definition show_literal :: "string \<Rightarrow> string" where
  "show_literal s = CHR 0x22 # s @ [CHR 0x22]"

fun show_number :: "'n ast_number \<Rightarrow> string" where
  "show_number (NumInt i) = show_int i"
| "show_number (NumFloat _ text) = text"

fun number_to_jvalue :: "'n number_ops \<Rightarrow> 'n ast_number \<Rightarrow> 'n jvalue" where
  "number_to_jvalue N (NumInt i) = JNumber (from_i64 N i)"
| "number_to_jvalue N (NumFloat v _) = v"

fun show_peer_id :: "peer_id_variable \<Rightarrow> string" where
  "show_peer_id PeerInitPeerId = ''%init_peer_id%''"
| "show_peer_id (PeerLiteral s) = show_literal s"
| "show_peer_id (PeerScalar v) = show_variable v"
| "show_peer_id (PeerScalarWl v) = show_variable_wl v"
| "show_peer_id (PeerCanonStreamWl v) = show_variable_wl v"
| "show_peer_id (PeerCanonStreamMapWl v) = show_variable_wl v"

fun show_string_variable :: "string_variable \<Rightarrow> string" where
  "show_string_variable (StrLiteral s) = show_literal s"
| "show_string_variable (StrScalar v) = show_variable v"
| "show_string_variable (StrScalarWl v) = show_variable_wl v"
| "show_string_variable (StrCanonStreamWl v) = show_variable_wl v"
| "show_string_variable (StrCanonStreamMapWl v) = show_variable_wl v"

definition show_triplet :: "ast_triplet \<Rightarrow> string" where
  "show_triplet t = show_peer_id (trip_peer_id t) @ '' ('' @ show_string_variable (trip_service_id t) @ '' ''
     @ show_string_variable (trip_function_name t) @ '')''"

fun show_immutable_value :: "'n immutable_value \<Rightarrow> string" where
  "show_immutable_value ValInitPeerId = ''%init_peer_id%''"
| "show_immutable_value (ValError e) = display_error e"
| "show_immutable_value (ValLastError l) = display_last_error l"
| "show_immutable_value (ValLiteral s) = show_literal s"
| "show_immutable_value ValTimestamp = ''%timestamp%''"
| "show_immutable_value ValTTL = ''%ttl%''"
| "show_immutable_value (ValNumber n) = show_number n"
| "show_immutable_value (ValBoolean b) = show_bool b"
| "show_immutable_value ValEmptyArray = ''[]''"
| "show_immutable_value (ValVariable v) = show_immutable_variable v"
| "show_immutable_value (ValVariableWl v) = show_immutable_variable_wl v"

fun show_call_output :: "call_output_value \<Rightarrow> string" where
  "show_call_output (OutScalar v) = show_variable v"
| "show_call_output (OutStream v) = show_variable v"
| "show_call_output OutNone = []"

fun show_ap_argument :: "'n ap_argument \<Rightarrow> string" where
  "show_ap_argument ArgInitPeerId = ''%init_peer_id%''"
| "show_ap_argument (ArgError e) = display_error e"
| "show_ap_argument (ArgLastError l) = display_last_error l"
| "show_ap_argument (ArgLiteral s) = show_literal s"
| "show_ap_argument ArgTimestamp = ''%timestamp%''"
| "show_ap_argument ArgTTL = ''%ttl%''"
| "show_ap_argument (ArgNumber n) = show_number n"
| "show_ap_argument (ArgBoolean b) = show_bool b"
| "show_ap_argument ArgEmptyArray = ''[]''"
| "show_ap_argument (ArgScalar v) = show_variable v"
| "show_ap_argument (ArgScalarWl v) = show_variable_wl v"
| "show_ap_argument (ArgCanonStream v) = show_variable v"
| "show_ap_argument (ArgCanonStreamWl v) = show_variable_wl v"
| "show_ap_argument (ArgCanonStreamMap v) = show_variable v"
| "show_ap_argument (ArgCanonStreamMapWl v) = show_variable_wl v"

fun show_ap_result :: "ap_result_ast \<Rightarrow> string" where
  "show_ap_result (ResScalar v) = show_variable v"
| "show_ap_result (ResStream v) = show_variable v"

fun show_key_clause :: "stream_map_key_clause \<Rightarrow> string" where
  "show_key_clause (KeyLiteral s) = show_literal s"
| "show_key_clause (KeyInt i) = show_int i"
| "show_key_clause (KeyScalar v) = show_variable v"
| "show_key_clause (KeyScalarWl v) = show_variable_wl v"
| "show_key_clause (KeyCanonStreamWl v) = show_variable_wl v"

fun show_fold_iterable :: "fold_scalar_iterable \<Rightarrow> string" where
  "show_fold_iterable (IterScalar v) = show_variable v"
| "show_fold_iterable (IterScalarWl v) = show_variable_wl v"
| "show_fold_iterable (IterCanonStream v) = show_variable v"
| "show_fold_iterable (IterCanonStreamMap v) = show_variable v"
| "show_fold_iterable (IterCanonStreamMapWl v) = show_variable_wl v"
| "show_fold_iterable IterEmptyArray = ''[]''"

fun show_new_argument :: "new_argument \<Rightarrow> string" where
  "show_new_argument (NewScalar v) = show_variable v"
| "show_new_argument (NewStream v) = show_variable v"
| "show_new_argument (NewStreamMap v) = show_variable v"
| "show_new_argument (NewCanonStream v) = show_variable v"
| "show_new_argument (NewCanonStreamMap v) = show_variable v"

section \<open>Instructions\<close>

record 'n call_ast =
  call_triplet :: ast_triplet
  call_args :: "'n immutable_value list"
  call_output :: call_output_value

record 'n ap_ast =
  ap_arg :: "'n ap_argument"
  ap_res :: ap_result_ast

record 'n ap_map_ast =
  am_key :: stream_map_key_clause
  am_value :: "'n ap_argument"
  am_map :: ast_stream_map

record canon_ast =
  can_peer_id :: peer_id_variable
  can_stream :: ast_stream
  can_canon_stream :: ast_canon_stream

record canon_map_ast =
  cm_peer_id :: peer_id_variable
  cm_stream_map :: ast_stream_map
  cm_canon_stream_map :: ast_canon_stream_map

record canon_stream_map_scalar_ast =
  cs_peer_id :: peer_id_variable
  cs_stream_map :: ast_stream_map
  cs_scalar :: ast_scalar

datatype fail_ast =
    FailScalar ast_scalar
  | FailScalarWl ast_scalar_wl
  | FailLiteral int string
  | FailCanonStreamWl ast_canon_stream_wl
  | FailLastError
  | FailError

datatype 'n instruction =
    ICall "'n call_ast"
  | IAp "'n ap_ast"
  | IApMap "'n ap_map_ast"
  | ICanon canon_ast
  | ICanonMap canon_map_ast
  | ICanonStreamMapScalar canon_stream_map_scalar_ast
  | ISeq "'n instruction" "'n instruction"
  | IPar "'n instruction" "'n instruction"
  | IXor "'n instruction" "'n instruction"
  | IMatch "'n immutable_value" "'n immutable_value" "'n instruction"
  | IMisMatch "'n immutable_value" "'n immutable_value" "'n instruction"
  | IFail fail_ast
  | IFoldScalar fold_scalar_iterable ast_scalar "'n instruction" "'n instruction option" air_span
  | IFoldStream ast_stream ast_scalar "'n instruction" "'n instruction option" air_span
  | IFoldStreamMap ast_stream_map ast_scalar "'n instruction" "'n instruction option" air_span
  | INever
  | INew new_argument "'n instruction" air_span
  | INext ast_scalar
  | INull
  | IError

definition show_call :: "'n call_ast \<Rightarrow> string" where
  "show_call c = ''call '' @ show_triplet (call_triplet c) @ '' ['' @ join_text '' '' (map show_immutable_value (call_args c))
     @ ''] '' @ show_call_output (call_output c)"

fun show_fail :: "fail_ast \<Rightarrow> string" where
  "show_fail (FailScalar v) = ''fail '' @ show_variable v"
| "show_fail (FailScalarWl v) = ''fail '' @ show_variable_wl v"
| "show_fail (FailLiteral ret_code msg) = ''fail '' @ show_int ret_code @ '' '' @ show_literal msg"
| "show_fail (FailCanonStreamWl v) = ''fail '' @ show_variable_wl v"
| "show_fail FailLastError = ''fail %last_error%''"
| "show_fail FailError = ''fail :error:''"

fun show_instruction :: "'n instruction \<Rightarrow> string" where
  "show_instruction (ICall c) = show_call c"
| "show_instruction (ICanon c) = ''canon '' @ show_peer_id (can_peer_id c) @ '' '' @ show_variable (can_stream c) @ '' ''
     @ show_variable (can_canon_stream c)"
| "show_instruction (ICanonMap c) = ''canon '' @ show_peer_id (cm_peer_id c) @ '' '' @ show_variable (cm_stream_map c) @ '' ''
     @ show_variable (cm_canon_stream_map c)"
| "show_instruction (ICanonStreamMapScalar c) = ''canon '' @ show_peer_id (cs_peer_id c) @ '' '' @ show_variable (cs_stream_map c)
     @ '' '' @ show_variable (cs_scalar c)"
| "show_instruction (IAp a) = ''ap '' @ show_ap_argument (ap_arg a) @ '' '' @ show_ap_result (ap_res a)"
| "show_instruction (IApMap a) = ''ap ('' @ show_key_clause (am_key a) @ '' '' @ show_ap_argument (am_value a) @ '') ''
     @ show_variable (am_map a)"
| "show_instruction (ISeq _ _) = ''seq''"
| "show_instruction (IPar _ _) = ''par''"
| "show_instruction (IXor _ _) = ''xor''"
| "show_instruction (IMatch l r _) = ''match '' @ show_immutable_value l @ '' '' @ show_immutable_value r"
| "show_instruction (IMisMatch l r _) = ''mismatch '' @ show_immutable_value l @ '' '' @ show_immutable_value r"
| "show_instruction (IFail f) = show_fail f"
| "show_instruction (IFoldScalar it v _ _ _) = ''fold '' @ show_fold_iterable it @ '' '' @ show_variable v"
| "show_instruction (IFoldStream s v _ _ _) = ''fold '' @ show_variable s @ '' '' @ show_variable v"
| "show_instruction (IFoldStreamMap s v _ _ _) = ''fold '' @ show_variable s @ '' '' @ show_variable v"
| "show_instruction INever = ''never''"
| "show_instruction (INext v) = ''next '' @ show_variable v"
| "show_instruction (INew a _ _) = ''new '' @ show_new_argument a"
| "show_instruction INull = ''null''"
| "show_instruction IError = ''error''"

fun log_errors_with_peer_id :: "'n instruction \<Rightarrow> bool" where
  "log_errors_with_peer_id (ICall _) = True"
| "log_errors_with_peer_id (ICanon _) = True"
| "log_errors_with_peer_id (ICanonMap _) = True"
| "log_errors_with_peer_id (ICanonStreamMapScalar _) = True"
| "log_errors_with_peer_id _ = False"

end
