(* ===== verification/Scalar_Variables.thy ===== *)
theory Scalar_Variables
  imports Stream_Maps
begin

text \<open>
  Scalars (\<^verbatim>\<open>air/src/execution_step/execution_context/scalar_variables.rs\<close> and
  \<^verbatim>\<open>scalar_variables/values_sparse_matrix.rs\<close>): a sparse matrix of values by name and by the depth of the
  fold iteration that set them, and the four kinds of variables an execution has.

  A \<^verbatim>\<open>NonEmpty\<close> vector is a list whose \<^verbatim>\<open>pop\<close> gives nothing and changes nothing when it has one element,
  as the \<^verbatim>\<open>non_empty_vec\<close> package documents. The state of a fold is a type variable: only the
  instructions look into it.
\<close>

section \<open>Sparse matrix\<close>

definition GLOBAL_DEPTH :: nat where
  "GLOBAL_DEPTH = 0"

record 'v sparse_cell =
  cell_depth :: nat
  cell_value :: "'v option"

definition cell_from_value :: "nat \<Rightarrow> 'v \<Rightarrow> 'v sparse_cell" where
  "cell_from_value depth v = \<lparr>cell_depth = depth, cell_value = Some v\<rparr>"

definition cell_from_met_new :: "nat \<Rightarrow> 'v sparse_cell" where
  "cell_from_met_new depth = \<lparr>cell_depth = depth, cell_value = None\<rparr>"

record 'v sparse_matrix =
  cells :: "string \<rightharpoonup> 'v sparse_cell list"
  allowed_depths :: "nat set"
  current_depth :: nat

definition ne_pop :: "'a list \<Rightarrow> 'a option \<times> 'a list" where
  "ne_pop xs = (if length xs \<le> 1 then (None, xs) else (Some (last xs), butlast xs))"

definition sparse_matrix_new :: "'v sparse_matrix" where
  "sparse_matrix_new = \<lparr>cells = Map.empty, allowed_depths = {GLOBAL_DEPTH}, current_depth = GLOBAL_DEPTH\<rparr>"

definition shadowing_allowed :: "'v sparse_matrix \<Rightarrow> bool" where
  "shadowing_allowed self \<longleftrightarrow> current_depth self \<noteq> 0"

definition matrix_could_be_set :: "string \<Rightarrow> 'v sparse_matrix \<Rightarrow> bool" where
  "matrix_could_be_set name self =
     (if shadowing_allowed self then True
      else (case cells self name of
          Some vs \<Rightarrow> cell_value (last vs) = None
        | None \<Rightarrow> False))"

definition set_value :: "string \<Rightarrow> 'v \<Rightarrow> ('v sparse_matrix, bool, 'n execution_error) comp" where
  "set_value name v self =
     (let could_be_set = matrix_could_be_set name self in
      case cells self name of
        None \<Rightarrow> (Ok False, self\<lparr>cells := (cells self)(name \<mapsto> [cell_from_value (current_depth self) v])\<rparr>)
      | Some vs \<Rightarrow>
          if \<not> could_be_set then (Err (Uncatchable (ShadowingIsNotAllowed name)), self)
          else if cell_depth (last vs) = current_depth self
            then (Ok True, self\<lparr>cells := (cells self)(name \<mapsto> butlast vs @ [(last vs)\<lparr>cell_value := Some v\<rparr>])\<rparr>)
            else (Ok False, self\<lparr>cells := (cells self)(name \<mapsto> vs @ [cell_from_value (current_depth self) v])\<rparr>))"

definition matrix_get_value :: "string \<Rightarrow> 'v sparse_matrix \<Rightarrow> ('v option, 'n execution_error) result" where
  "matrix_get_value name self =
     ok_or (Catchable (VariableNotFound name))
       (Option.bind (cells self name) (\<lambda>vs.
          if cell_depth (last vs) \<in> allowed_depths self then Some (cell_value (last vs)) else None))"

definition is_global_value :: "nat \<Rightarrow> bool" where
  "is_global_value value_depth \<longleftrightarrow> value_depth = GLOBAL_DEPTH"

definition is_value_obsolete :: "nat \<Rightarrow> nat \<Rightarrow> bool" where
  "is_value_obsolete value_depth current_scope_depth \<longleftrightarrow> current_scope_depth < value_depth"

text \<open>What the loop of \<^verbatim>\<open>cleanup_obsolete_values\<close> does to the cells of one name; nothing is left when the name is deleted.\<close>

definition cleanup_row :: "nat \<Rightarrow> 'v sparse_cell list \<Rightarrow> 'v sparse_cell list option" where
  "cleanup_row depth vs =
     (let value_depth = cell_depth (last vs) in
      if \<not> is_global_value value_depth \<and> is_value_obsolete value_depth depth
      then (case ne_pop vs of (None, _) \<Rightarrow> None | (Some _, vs') \<Rightarrow> Some vs')
      else Some vs)"

definition cleanup_obsolete_values :: "'v sparse_matrix \<Rightarrow> 'v sparse_matrix" where
  "cleanup_obsolete_values self =
     self\<lparr>cells := (\<lambda>name. Option.bind (cells self name) (cleanup_row (current_depth self)))\<rparr>"

definition matrix_fold_start :: "'v sparse_matrix \<Rightarrow> 'v sparse_matrix" where
  "matrix_fold_start self =
     (let self = self\<lparr>current_depth := current_depth self + 1\<rparr> in
      self\<lparr>allowed_depths := insert (current_depth self) (allowed_depths self)\<rparr>)"

definition matrix_next_before :: "'v sparse_matrix \<Rightarrow> 'v sparse_matrix" where
  "matrix_next_before self =
     (let self = self\<lparr>allowed_depths := allowed_depths self - {current_depth self}\<rparr>;
          self = self\<lparr>current_depth := current_depth self + 1\<rparr> in
      self\<lparr>allowed_depths := insert (current_depth self) (allowed_depths self)\<rparr>)"

text \<open>\<^verbatim>\<open>current_depth -= 1\<close> under overflow checks.\<close>

definition decrease_depth :: "'v sparse_matrix \<Rightarrow> ('v sparse_matrix, 'e) result" where
  "decrease_depth self = (if current_depth self = 0 then Panic else Ok (self\<lparr>current_depth := current_depth self - 1\<rparr>))"

definition matrix_next_after :: "'v sparse_matrix \<Rightarrow> ('v sparse_matrix, 'e) result" where
  "matrix_next_after self =
     (let self = self\<lparr>allowed_depths := allowed_depths self - {current_depth self}\<rparr> in
      res_then (decrease_depth self) (\<lambda>self.
      let self = self\<lparr>allowed_depths := insert (current_depth self) (allowed_depths self)\<rparr> in
      Ok (cleanup_obsolete_values self)))"

definition matrix_fold_end :: "'v sparse_matrix \<Rightarrow> ('v sparse_matrix, 'e) result" where
  "matrix_fold_end self =
     (let self = self\<lparr>allowed_depths := allowed_depths self - {current_depth self}\<rparr> in
      res_then (decrease_depth self) (\<lambda>self.
      Ok (cleanup_obsolete_values self)))"

definition matrix_new_start :: "string \<Rightarrow> 'v sparse_matrix \<Rightarrow> 'v sparse_matrix" where
  "matrix_new_start name self =
     (let new_cell = cell_from_met_new (current_depth self) in
      case cells self name of
        None \<Rightarrow> self\<lparr>cells := (cells self)(name \<mapsto> [new_cell])\<rparr>
      | Some vs \<Rightarrow> self\<lparr>cells := (cells self)(name \<mapsto> vs @ [new_cell])\<rparr>)"

definition matrix_new_end :: "string \<Rightarrow> ('v sparse_matrix, unit, 'n execution_error) comp" where
  "matrix_new_end name self =
     (let corrupted = Err (Uncatchable (ScalarsStateCorrupted name (current_depth self))) in
      case cells self name of
        None \<Rightarrow> (corrupted, self)
      | Some vs \<Rightarrow> (case ne_pop vs of
          (Some v, vs') \<Rightarrow>
            let self = self\<lparr>cells := (cells self)(name \<mapsto> vs')\<rparr> in
            if cell_depth v = current_depth self then (Ok (), self) else (corrupted, self)
        | (None, vs') \<Rightarrow>
            if cell_depth (last vs') = current_depth self
            then (Ok (), self\<lparr>cells := (cells self)(name := None)\<rparr>) else (corrupted, self)))"

section \<open>Scalars\<close>

record 'n canon_stream_with_provenance =
  cswp_canon_stream :: "'n canon_stream"
  cswp_cid :: cid

record 'n canon_stream_map_with_provenance =
  csmwp_canon_stream_map :: "'n canon_stream_map"
  csmwp_cid :: cid

datatype ('n, 'f) scalar_ref = ScalarValueRef "'n value_aggregate" | IterableValueRef 'f

record ('n, 'f) scalars =
  non_iterable_variables :: "'n value_aggregate sparse_matrix"
  canon_streams :: "'n canon_stream_with_provenance sparse_matrix"
  canon_maps :: "'n canon_stream_map_with_provenance sparse_matrix"
  iterable_variables :: "string \<rightharpoonup> 'f"

definition scalars_new :: "('n, 'f) scalars" where
  "scalars_new = \<lparr>non_iterable_variables = sparse_matrix_new, canon_streams = sparse_matrix_new,
     canon_maps = sparse_matrix_new, iterable_variables = Map.empty\<rparr>"

definition set_scalar_value :: "string \<Rightarrow> 'n value_aggregate \<Rightarrow> (('n, 'f) scalars, bool, 'n execution_error) comp" where
  "set_scalar_value name v = zoom non_iterable_variables non_iterable_variables_update (set_value name v)"

definition set_canon_value ::
    "string \<Rightarrow> 'n canon_stream_with_provenance \<Rightarrow> (('n, 'f) scalars, bool, 'n execution_error) comp" where
  "set_canon_value name v = zoom canon_streams canon_streams_update (set_value name v)"

definition set_canon_map_value ::
    "string \<Rightarrow> 'n canon_stream_map_with_provenance \<Rightarrow> (('n, 'f) scalars, bool, 'n execution_error) comp" where
  "set_canon_map_value name v = zoom canon_maps canon_maps_update (set_value name v)"

definition set_iterable_value :: "string \<Rightarrow> 'f \<Rightarrow> (('n, 'f) scalars, unit, 'n execution_error) comp" where
  "set_iterable_value name fold_state self =
     (case iterable_variables self name of
        None \<Rightarrow> (Ok (), self\<lparr>iterable_variables := (iterable_variables self)(name \<mapsto> fold_state)\<rparr>)
      | Some _ \<Rightarrow> (Err (Uncatchable (MultipleIterableValues name)), self))"

definition remove_iterable_value :: "string \<Rightarrow> ('n, 'f) scalars \<Rightarrow> ('n, 'f) scalars" where
  "remove_iterable_value name self = self\<lparr>iterable_variables := (iterable_variables self)(name := None)\<rparr>"

definition get_non_iterable_scalar ::
    "string \<Rightarrow> ('n, 'f) scalars \<Rightarrow> ('n value_aggregate option, 'n execution_error) result" where
  "get_non_iterable_scalar name self = matrix_get_value name (non_iterable_variables self)"

definition get_iterable :: "string \<Rightarrow> ('n, 'f) scalars \<Rightarrow> ('f, 'n execution_error) result" where
  "get_iterable name self = ok_or (Uncatchable (FoldStateNotFound name)) (iterable_variables self name)"

definition get_canon_stream ::
    "string \<Rightarrow> ('n, 'f) scalars \<Rightarrow> ('n canon_stream_with_provenance, 'n execution_error) result" where
  "get_canon_stream name self =
     res_then (matrix_get_value name (canon_streams self)) (\<lambda>v.
     ok_or (Catchable (VariableWasNotInitializedAfterNew name)) v)"

definition get_canon_map ::
    "string \<Rightarrow> ('n, 'f) scalars \<Rightarrow> ('n canon_stream_map_with_provenance, 'n execution_error) result" where
  "get_canon_map name self =
     res_then (matrix_get_value name (canon_maps self)) (\<lambda>v.
     ok_or (Catchable (VariableWasNotInitializedAfterNew name)) v)"

definition scalars_get_value :: "string \<Rightarrow> ('n, 'f) scalars \<Rightarrow> (('n, 'f) scalar_ref, 'n execution_error) result" where
  "scalars_get_value name self =
     (case (get_non_iterable_scalar name self, iterable_variables self name) of
        (Err _, None) \<Rightarrow> Err (Catchable (VariableNotFound name))
      | (Ok None, _) \<Rightarrow> Err (Catchable (VariableWasNotInitializedAfterNew name))
      | (Ok (Some v), None) \<Rightarrow> Ok (ScalarValueRef v)
      | (Err _, Some f) \<Rightarrow> Ok (IterableValueRef f)
      | _ \<Rightarrow> Panic)"

definition variable_could_be_set :: "string \<Rightarrow> ('n, 'f) scalars \<Rightarrow> bool" where
  "variable_could_be_set name self \<longleftrightarrow>
     matrix_could_be_set name (non_iterable_variables self) \<or> matrix_could_be_set name (canon_streams self)"

definition scalars_fold_start :: "('n, 'f) scalars \<Rightarrow> ('n, 'f) scalars" where
  "scalars_fold_start self = self\<lparr>non_iterable_variables := matrix_fold_start (non_iterable_variables self),
     canon_streams := matrix_fold_start (canon_streams self), canon_maps := matrix_fold_start (canon_maps self)\<rparr>"

definition scalars_next_before :: "('n, 'f) scalars \<Rightarrow> ('n, 'f) scalars" where
  "scalars_next_before self = self\<lparr>non_iterable_variables := matrix_next_before (non_iterable_variables self),
     canon_streams := matrix_next_before (canon_streams self), canon_maps := matrix_next_before (canon_maps self)\<rparr>"

definition scalars_next_after :: "('n, 'f) scalars \<Rightarrow> (('n, 'f) scalars, 'e) result" where
  "scalars_next_after self =
     res_then (matrix_next_after (non_iterable_variables self)) (\<lambda>n.
     res_then (matrix_next_after (canon_streams self)) (\<lambda>c.
     res_then (matrix_next_after (canon_maps self)) (\<lambda>m.
     Ok (self\<lparr>non_iterable_variables := n, canon_streams := c, canon_maps := m\<rparr>))))"

definition scalars_fold_end :: "('n, 'f) scalars \<Rightarrow> (('n, 'f) scalars, 'e) result" where
  "scalars_fold_end self =
     res_then (matrix_fold_end (non_iterable_variables self)) (\<lambda>n.
     res_then (matrix_fold_end (canon_streams self)) (\<lambda>c.
     res_then (matrix_fold_end (canon_maps self)) (\<lambda>m.
     Ok (self\<lparr>non_iterable_variables := n, canon_streams := c, canon_maps := m\<rparr>))))"

definition new_start_scalar :: "string \<Rightarrow> ('n, 'f) scalars \<Rightarrow> ('n, 'f) scalars" where
  "new_start_scalar name self = self\<lparr>non_iterable_variables := matrix_new_start name (non_iterable_variables self)\<rparr>"

definition new_start_canon_stream :: "string \<Rightarrow> ('n, 'f) scalars \<Rightarrow> ('n, 'f) scalars" where
  "new_start_canon_stream name self = self\<lparr>canon_streams := matrix_new_start name (canon_streams self)\<rparr>"

definition new_start_canon_stream_map :: "string \<Rightarrow> ('n, 'f) scalars \<Rightarrow> ('n, 'f) scalars" where
  "new_start_canon_stream_map name self = self\<lparr>canon_maps := matrix_new_start name (canon_maps self)\<rparr>"

definition new_end_scalar :: "string \<Rightarrow> (('n, 'f) scalars, unit, 'n execution_error) comp" where
  "new_end_scalar name = zoom non_iterable_variables non_iterable_variables_update (matrix_new_end name)"

definition new_end_canon_stream :: "string \<Rightarrow> (('n, 'f) scalars, unit, 'n execution_error) comp" where
  "new_end_canon_stream name = zoom canon_streams canon_streams_update (matrix_new_end name)"

definition new_end_canon_stream_map :: "string \<Rightarrow> (('n, 'f) scalars, unit, 'n execution_error) comp" where
  "new_end_canon_stream_map name = zoom canon_maps canon_maps_update (matrix_new_end name)"

section \<open>The invariant of a matrix\<close>

definition row :: "'v sparse_matrix \<Rightarrow> string \<Rightarrow> 'v sparse_cell list" where
  "row m name = (case cells m name of None \<Rightarrow> [] | Some vs \<Rightarrow> vs)"

text \<open>
  The invariant the comment of \<^verbatim>\<open>Scalars\<close> states, but for the uniqueness of the depths in a row, which
  \<^verbatim>\<open>new\<close> breaks: no row is empty (a \<^verbatim>\<open>NonEmpty\<close>) and its cells are sorted by depth. Furthermore no cell
  is deeper than the current depth, and the current depth is among the allowed ones, which are not
  deeper either.
\<close>

definition sparse_wf :: "'v sparse_matrix \<Rightarrow> bool" where
  "sparse_wf m \<longleftrightarrow> (\<forall>name. cells m name \<noteq> Some [] \<and> sorted (map cell_depth (row m name))
       \<and> (\<forall>c \<in> set (row m name). cell_depth c \<le> current_depth m))
     \<and> current_depth m \<in> allowed_depths m \<and> allowed_depths m \<subseteq> {..current_depth m}"

text \<open>How a row may differ before and after instructions run at a depth: nothing changed, the last cell,
which is of this depth, got a value, or the first cell of this depth was pushed.\<close>

inductive row_step :: "nat \<Rightarrow> 'v sparse_cell list \<Rightarrow> 'v sparse_cell list \<Rightarrow> bool" for d where
  row_same: "row_step d xs xs"
| row_rewritten: "cell_depth c = d \<Longrightarrow> cell_depth c' = d \<Longrightarrow> row_step d (xs @ [c]) (xs @ [c'])"
| row_pushed: "xs = [] \<or> cell_depth (last xs) \<noteq> d \<Longrightarrow> cell_depth c = d \<Longrightarrow> row_step d xs (xs @ [c])"

lemma row_step_trans: "row_step d xs ys \<Longrightarrow> row_step d ys zs \<Longrightarrow> row_step d xs zs"
  by (erule row_step.cases; erule row_step.cases; auto intro: row_step.intros)

text \<open>What instructions of a script do to a matrix: set values (successfully or not), run folds, nexts and
news, each closed after its body, in any nesting. The results of the bodies do not matter.\<close>

inductive scalar_run :: "'v sparse_matrix \<Rightarrow> 'v sparse_matrix \<Rightarrow> bool" where
  run_skip: "scalar_run m m"
| run_set: "set_value name v m = (r :: (bool, unit execution_error) result, m') \<Longrightarrow> scalar_run m m'"
| run_seq: "scalar_run m m' \<Longrightarrow> scalar_run m' m'' \<Longrightarrow> scalar_run m m''"
| run_fold: "scalar_run (matrix_fold_start m) m' \<Longrightarrow>
    matrix_fold_end m' = (Ok m'' :: (_, unit) result) \<Longrightarrow> scalar_run m m''"
| run_next: "scalar_run (matrix_next_before m) m' \<Longrightarrow>
    matrix_next_after m' = (Ok m'' :: (_, unit) result) \<Longrightarrow> scalar_run m m''"
| run_new: "scalar_run (matrix_new_start name m) m' \<Longrightarrow>
    matrix_new_end name m' = (r :: (unit, unit execution_error) result, m'') \<Longrightarrow> scalar_run m m''"

definition scalar_frame :: "'v sparse_matrix \<Rightarrow> 'v sparse_matrix \<Rightarrow> bool" where
  "scalar_frame m m' \<longleftrightarrow> sparse_wf m' \<and> current_depth m' = current_depth m \<and> allowed_depths m' = allowed_depths m
     \<and> (\<forall>name. row_step (current_depth m) (row m name) (row m' name))"

lemma cells_row: "sparse_wf m \<Longrightarrow> cells m name = (if row m name = [] then None else Some (row m name))"
  by (cases "cells m name") (auto simp: row_def sparse_wf_def)

lemma matrix_eqI:
  assumes "sparse_wf m" "sparse_wf m'" "\<And>name. row m name = row m' name"
    and "allowed_depths m = allowed_depths m'" "current_depth m = current_depth m'"
  shows "(m :: 'v sparse_matrix) = m'"
proof -
  have "cells m = cells m'" using cells_row [OF assms(1)] cells_row [OF assms(2)] assms(3) by (intro ext) simp
  with assms(4,5) show ?thesis by simp
qed

lemma sparse_wf_new: "sparse_wf sparse_matrix_new"
  by (simp add: sparse_wf_def sparse_matrix_new_def row_def GLOBAL_DEPTH_def)

lemma row_cleanup: "row (cleanup_obsolete_values m) name
    = (if row m name \<noteq> [] \<and> current_depth m < cell_depth (last (row m name)) then butlast (row m name) else row m name)"
  if "cells m name \<noteq> Some []"
proof (cases "cells m name")
  case (Some vs)
  with that have "vs \<noteq> []" by simp
  then obtain ws c where "vs = ws @ [c]" by (cases vs rule: rev_cases) auto
  with Some show ?thesis
    by (cases ws) (auto simp: row_def cleanup_obsolete_values_def cleanup_row_def Let_def is_global_value_def
        is_value_obsolete_def GLOBAL_DEPTH_def ne_pop_def)
qed (simp add: row_def cleanup_obsolete_values_def)

lemma cleanup_not_empty: "cells m name \<noteq> Some [] \<Longrightarrow> cells (cleanup_obsolete_values m) name \<noteq> Some []"
  by (cases "cells m name") (auto simp: cleanup_obsolete_values_def cleanup_row_def Let_def ne_pop_def
      split: if_splits option.splits prod.splits dest: arg_cong [of _ _ length])

lemma cleanup_depths [simp]:
  "current_depth (cleanup_obsolete_values m) = current_depth m" "allowed_depths (cleanup_obsolete_values m) = allowed_depths m"
  by (simp_all add: cleanup_obsolete_values_def)

section \<open>Scopes restore the matrix\<close>

lemma row_put [simp]: "row (m\<lparr>cells := (cells m)(name \<mapsto> vs)\<rparr>) name' = (if name' = name then vs else row m name')"
  by (simp add: row_def)

lemma row_step_depths: "row_step d xs ys \<Longrightarrow> \<forall>c \<in> set xs. cell_depth c \<le> d \<Longrightarrow> \<forall>c \<in> set ys. cell_depth c \<le> d"
  by (erule row_step.cases) auto

lemma row_step_sorted:
  "row_step d xs ys \<Longrightarrow> \<forall>c \<in> set xs. cell_depth c \<le> d \<Longrightarrow> sorted (map cell_depth xs) \<Longrightarrow> sorted (map cell_depth ys)"
  by (erule row_step.cases) (auto simp: sorted_append)

lemma frame_put:
  assumes "sparse_wf m" "row_step (current_depth m) (row m name) vs" "vs \<noteq> []"
  shows "scalar_frame m (m\<lparr>cells := (cells m)(name \<mapsto> vs)\<rparr>)"
proof -
  have "\<forall>c \<in> set vs. cell_depth c \<le> current_depth m"
    using row_step_depths [OF assms(2)] assms(1) by (simp add: sparse_wf_def)
  moreover have "sorted (map cell_depth vs)"
    using row_step_sorted [OF assms(2)] assms(1) by (simp add: sparse_wf_def)
  ultimately show ?thesis using assms by (simp add: scalar_frame_def sparse_wf_def row_same)
qed

lemma row_not_Nil: "sparse_wf m \<Longrightarrow> cells m name = Some vs \<Longrightarrow> vs = row m name \<and> (\<exists>ws c. vs = ws @ [c])"
  by (cases vs rule: rev_cases) (auto simp: row_def sparse_wf_def)

lemma set_value_frame:
  assumes "sparse_wf m" "set_value name v m = (r :: (bool, 'n execution_error) result, m')"
  shows "scalar_frame m m'"
proof (cases "cells m name")
  case None
  then have "row m name = []" by (simp add: row_def)
  with None assms frame_put [OF assms(1), of name "[cell_from_value (current_depth m) v]"] show ?thesis
    using row_pushed [of "[]" "current_depth m" "cell_from_value (current_depth m) v"]
    by (auto simp: set_value_def cell_from_value_def)
next
  case (Some vs)
  then obtain ws c where vs: "vs = ws @ [c]" "row m name = ws @ [c]" using row_not_Nil [OF assms(1)] by metis
  consider "m' = m"
    | "cell_depth c = current_depth m" "m' = m\<lparr>cells := (cells m)(name \<mapsto> ws @ [c\<lparr>cell_value := Some v\<rparr>])\<rparr>"
    | "cell_depth c \<noteq> current_depth m" "m' = m\<lparr>cells := (cells m)(name \<mapsto> (ws @ [c]) @ [cell_from_value (current_depth m) v])\<rparr>"
    using assms(2) unfolding set_value_def Some vs(1)
    by (cases "matrix_could_be_set name m"; cases "cell_depth c = current_depth m") (simp_all add: eq_commute [of _ m'])
  then show ?thesis
  proof cases
    case 1
    with assms(1) show ?thesis by (simp add: scalar_frame_def row_same)
  next
    case 2
    with frame_put [OF assms(1)] vs(2) row_rewritten [of c "current_depth m" "c\<lparr>cell_value := Some v\<rparr>" ws]
    show ?thesis by simp
  next
    case 3
    with frame_put [OF assms(1)] vs(2) row_pushed [of "ws @ [c]" "current_depth m" "cell_from_value (current_depth m) v"]
    show ?thesis by (simp add: cell_from_value_def)
  qed
qed

lemma frame_refl: "sparse_wf m \<Longrightarrow> scalar_frame m m"
  by (simp add: scalar_frame_def row_same)

lemma frame_trans: "scalar_frame m m' \<Longrightarrow> scalar_frame m' m'' \<Longrightarrow> scalar_frame m m''"
  by (auto simp: scalar_frame_def intro: row_step_trans)

lemma fold_start_wf: "sparse_wf m \<Longrightarrow> sparse_wf (matrix_fold_start m)"
  by (fastforce simp: sparse_wf_def matrix_fold_start_def Let_def row_def)

lemma next_before_wf: "sparse_wf m \<Longrightarrow> sparse_wf (matrix_next_before m)"
  by (fastforce simp: sparse_wf_def matrix_next_before_def Let_def row_def)

text \<open>Instructions that ran one level deeper leave at most one new cell in a row, which the cleanup removes.\<close>

lemma deeper_row_cleanup:
  assumes "row_step (Suc d) xs ys" "\<forall>c \<in> set xs. cell_depth c \<le> d"
  shows "(if ys \<noteq> [] \<and> d < cell_depth (last ys) then butlast ys else ys) = xs"
  using assms by (cases rule: row_step.cases) (use last_in_set [of xs] in \<open>fastforce simp: not_less\<close>)+

lemma cleanup_restores:
  assumes "sparse_wf m" "sparse_wf m'" "\<And>name. row_step (Suc (current_depth m)) (row m name) (row m' name)"
    and "current_depth n = current_depth m" "allowed_depths n = allowed_depths m" "cells n = cells m'"
  shows "cleanup_obsolete_values n = m"
proof -
  have ne: "cells n name \<noteq> Some []" for name using assms(2,6) by (auto simp: sparse_wf_def)
  have rn: "row n = row m'" using assms(6) by (intro ext) (simp add: row_def)
  have "\<forall>c \<in> set (row m name). cell_depth c \<le> current_depth m" for name using assms(1) by (simp add: sparse_wf_def)
  then have rw: "row (cleanup_obsolete_values n) name = row m name" for name
    unfolding row_cleanup [OF ne] rn assms(4) by (rule deeper_row_cleanup [OF assms(3)])
  then have "sparse_wf (cleanup_obsolete_values n)"
    using assms(1,4,5) cleanup_not_empty [OF ne] by (simp add: sparse_wf_def)
  then show ?thesis using rw assms by (intro matrix_eqI) auto
qed

lemma fold_end_restores:
  assumes "sparse_wf m" "scalar_frame (matrix_fold_start m) m'"
  shows "matrix_fold_end m' = (Ok m :: (_, 'e) result)"
proof -
  let ?n = "m'\<lparr>allowed_depths := allowed_depths m' - {current_depth m'}, current_depth := current_depth m' - 1\<rparr>"
  have "Suc (current_depth m) \<notin> allowed_depths m" using assms(1) by (auto simp: sparse_wf_def)
  with assms have "cleanup_obsolete_values ?n = m"
    by (intro cleanup_restores [where m' = m']) (auto simp: scalar_frame_def matrix_fold_start_def Let_def row_def)
  then show ?thesis
    using assms(2) by (simp add: matrix_fold_end_def decrease_depth_def scalar_frame_def matrix_fold_start_def Let_def)
qed

lemma next_after_restores:
  assumes "sparse_wf m" "scalar_frame (matrix_next_before m) m'"
  shows "matrix_next_after m' = (Ok m :: (_, 'e) result)"
proof -
  let ?n = "m'\<lparr>current_depth := current_depth m' - 1, allowed_depths := insert (current_depth m' - 1) (allowed_depths m' - {current_depth m'})\<rparr>"
  have "Suc (current_depth m) \<notin> allowed_depths m" "current_depth m \<in> allowed_depths m"
    using assms(1) by (auto simp: sparse_wf_def)
  with assms have "cleanup_obsolete_values ?n = m"
    by (intro cleanup_restores [where m' = m']) (auto simp: scalar_frame_def matrix_next_before_def Let_def row_def)
  then show ?thesis
    using assms(2) by (auto simp: matrix_next_after_def decrease_depth_def scalar_frame_def matrix_next_before_def Let_def)
qed

lemma row_new_start: "row (matrix_new_start name m) name'
    = row m name' @ (if name' = name then [cell_from_met_new (current_depth m)] else [])"
  by (auto simp: matrix_new_start_def row_def Let_def split: option.splits)

lemma new_start_depths [simp]: "current_depth (matrix_new_start name m) = current_depth m"
    "allowed_depths (matrix_new_start name m) = allowed_depths m"
  by (simp_all add: matrix_new_start_def Let_def split: option.splits)

lemma new_start_wf: "sparse_wf m \<Longrightarrow> sparse_wf (matrix_new_start name m)"
  unfolding sparse_wf_def row_new_start new_start_depths
  by (auto simp: cell_from_met_new_def matrix_new_start_def Let_def sorted_append split: option.splits)

lemma row_step_last_eq:
  "row_step d (xs @ [c]) ys \<Longrightarrow> cell_depth c = d \<Longrightarrow> \<exists>c'. ys = xs @ [c'] \<and> cell_depth c' = d"
  by (erule row_step.cases) auto

text \<open>The end of a \<^verbatim>\<open>new\<close> always succeeds, takes exactly its own cell away and keeps what was set under
other names.\<close>

lemma new_end_restores:
  assumes "sparse_wf m" "scalar_frame (matrix_new_start name m) m'"
  shows "\<exists>m''. matrix_new_end name m' = (Ok () :: (unit, 'n execution_error) result, m'')
    \<and> scalar_frame m m'' \<and> row m'' name = row m name \<and> (\<forall>name'. name' \<noteq> name \<longrightarrow> row m'' name' = row m' name')"
proof -
  have depth: "current_depth m' = current_depth m" and al: "allowed_depths m' = allowed_depths m" and wf: "sparse_wf m'"
    and rows: "\<And>name'. row_step (current_depth m) (row m name' @ (if name' = name then [cell_from_met_new (current_depth m)] else [])) (row m' name')"
    using assms(2) by (simp_all add: scalar_frame_def row_new_start)
  have "row_step (current_depth m) (row m name @ [cell_from_met_new (current_depth m)]) (row m' name)"
    using rows [of name] by simp
  then obtain c where c: "row m' name = row m name @ [c]" "cell_depth c = current_depth m"
    using row_step_last_eq by (fastforce simp: cell_from_met_new_def)
  then have cells: "cells m' name = Some (row m name @ [c])" using cells_row [OF wf, of name] by simp
  let ?m = "m'\<lparr>cells := (cells m')(name := (if row m name = [] then None else Some (row m name)))\<rparr>"
  have rw: "row ?m name' = (if name' = name then row m name else row m' name')" for name' by (simp add: row_def)
  have "matrix_new_end name m' = (Ok (), ?m)"
    using cells c depth by (cases "row m name") (auto simp: matrix_new_end_def Let_def ne_pop_def)
  moreover have "row_step (current_depth m) (row m name') (row ?m name')" for name'
    using rows [of name'] by (auto simp: rw intro: row_same)
  moreover have "sparse_wf ?m"
    using wf depth al assms(1) unfolding sparse_wf_def rw by simp
  ultimately show ?thesis using depth al rw by (auto simp: scalar_frame_def)
qed

lemma scalar_run_frame: "scalar_run m m' \<Longrightarrow> sparse_wf m \<Longrightarrow> scalar_frame m m'"
proof (induction rule: scalar_run.induct)
  case (run_set name v m r m')
  then show ?case by (simp add: set_value_frame)
next
  case (run_seq m m' m'')
  then have "scalar_frame m m'" "sparse_wf m'" by (simp_all add: scalar_frame_def)
  with run_seq.IH(2) show ?case by (blast intro: frame_trans)
next
  case (run_fold m m' m'')
  then show ?case using fold_end_restores [of m m', where ?'e = unit] by (simp add: fold_start_wf frame_refl)
next
  case (run_next m m' m'')
  then show ?case using next_after_restores [of m m', where ?'e = unit] by (simp add: next_before_wf frame_refl)
next
  case (run_new name m m' r m'')
  then show ?case using new_end_restores [of m name m', where ?'n = unit] by (auto simp: new_start_wf)
qed (rule frame_refl)

section \<open>Properties\<close>

text \<open>
  C30. Scopes of scalars are isolated and closing them never fails: whatever the body of a fold or of a
  \<^verbatim>\<open>next\<close> does to a matrix, the end of the fold or of the \<^verbatim>\<open>next\<close> gives back exactly the matrix before
  it; the end of a \<^verbatim>\<open>new\<close> never reports a corrupted state, gives back what its name had before, and
  keeps what its body set under other names.
\<close>

theorem scalar_scopes_restore:
  assumes "sparse_wf m"
  shows "(\<forall>m'. scalar_run (matrix_fold_start m) m' \<longrightarrow> matrix_fold_end m' = (Ok m :: (_, 'e) result))
    \<and> (\<forall>m'. scalar_run (matrix_next_before m) m' \<longrightarrow> matrix_next_after m' = (Ok m :: (_, 'e) result))
    \<and> (\<forall>name m'. scalar_run (matrix_new_start name m) m' \<longrightarrow>
        (\<exists>m''. matrix_new_end name m' = (Ok () :: (unit, 'n execution_error) result, m'')
          \<and> sparse_wf m'' \<and> cells m'' name = cells m name
          \<and> (\<forall>name'. name' \<noteq> name \<longrightarrow> cells m'' name' = cells m' name')))"
proof (intro conjI allI impI)
  fix m' assume "scalar_run (matrix_fold_start m) m'"
  then show "matrix_fold_end m' = (Ok m :: (_, 'e) result)"
    by (intro fold_end_restores assms scalar_run_frame fold_start_wf)
next
  fix m' assume "scalar_run (matrix_next_before m) m'"
  then show "matrix_next_after m' = (Ok m :: (_, 'e) result)"
    by (intro next_after_restores assms scalar_run_frame next_before_wf)
next
  fix name m' assume "scalar_run (matrix_new_start name m) m'"
  then have fr: "scalar_frame (matrix_new_start name m) m'" by (intro assms scalar_run_frame new_start_wf)
  then have "sparse_wf m'" by (simp add: scalar_frame_def)
  with new_end_restores [OF assms fr, where ?'n = 'n] assms
  show "\<exists>m''. matrix_new_end name m' = (Ok () :: (unit, 'n execution_error) result, m'') \<and> sparse_wf m''
      \<and> cells m'' name = cells m name \<and> (\<forall>name'. name' \<noteq> name \<longrightarrow> cells m'' name' = cells m' name')"
    by (force simp: scalar_frame_def cells_row)
qed

theorem scalar_scopes_restore_witness:
  "matrix_fold_end (snd (set_value ''x'' (7 :: nat) (matrix_fold_start sparse_matrix_new) :: (bool, unit execution_error) result \<times> _))
     = (Ok sparse_matrix_new :: (_, unit) result)"
  using scalar_scopes_restore [OF sparse_wf_new, where ?'e = unit and ?'n = unit]
  by (metis run_set prod.collapse)

text \<open>
  C31. Setting a scalar: it fails exactly when the flow is outside of all folds and the name already has a
  value there, with the shadowing error and an unchanged matrix; otherwise the value is read back under
  its name, nothing changes under other names, the invariant is kept, and inside a fold the value is
  not visible in the next iteration.
\<close>

theorem scalar_set_get:
  assumes "sparse_wf m"
  shows "case set_value name v m :: (bool, 'n execution_error) result \<times> _ of
      (Ok _, m') \<Rightarrow> matrix_get_value name m' = (Ok (Some v) :: (_, 'n execution_error) result)
        \<and> (\<forall>name'. name' \<noteq> name \<longrightarrow> cells m' name' = cells m name') \<and> sparse_wf m'
        \<and> (current_depth m = 0 \<longrightarrow> (\<forall>w. matrix_get_value name m \<noteq> (Ok (Some w) :: (_, 'n execution_error) result)))
        \<and> (0 < current_depth m \<longrightarrow> matrix_get_value name (matrix_next_before m')
             = (Err (Catchable (VariableNotFound name)) :: (_, 'n execution_error) result))
    | (Err e, m') \<Rightarrow> e = Uncatchable (ShadowingIsNotAllowed name) \<and> m' = m \<and> current_depth m = 0
        \<and> (\<exists>w. matrix_get_value name m = (Ok (Some w) :: (_, 'n execution_error) result))
    | (Panic, _) \<Rightarrow> False"
proof -
  have al: "current_depth m \<in> allowed_depths m" using assms by (simp add: sparse_wf_def)
  obtain r m' where set: "set_value name v m = (r :: (bool, 'n execution_error) result, m')" by fastforce
  have wf: "sparse_wf m'" using set_value_frame [OF assms set] by (simp add: scalar_frame_def)
  show ?thesis
  proof (cases "cells m name")
    case None
    with set wf al show ?thesis
      by (auto simp: set_value_def matrix_get_value_def matrix_next_before_def cell_from_value_def Let_def)
  next
    case (Some vs)
    have "cell_depth (last vs) \<le> current_depth m"
      using assms row_not_Nil [OF assms Some] Some by (metis (no_types) last_in_set row_def option.simps(5) append_is_Nil_conv not_Cons_self2 sparse_wf_def)
    moreover have "set_value name v m = (if \<not> (0 < current_depth m \<or> cell_value (last vs) = None)
          then (Err (Uncatchable (ShadowingIsNotAllowed name)), m)
        else if cell_depth (last vs) = current_depth m
          then (Ok True, m\<lparr>cells := (cells m)(name \<mapsto> butlast vs @ [(last vs)\<lparr>cell_value := Some v\<rparr>])\<rparr>)
        else (Ok False :: (bool, 'n execution_error) result, m\<lparr>cells := (cells m)(name \<mapsto> vs @ [cell_from_value (current_depth m) v])\<rparr>))"
      by (simp add: set_value_def Some matrix_could_be_set_def shadowing_allowed_def)
    ultimately show ?thesis
      using Some set wf al
      by (auto simp: matrix_get_value_def matrix_next_before_def cell_from_value_def Let_def split: if_splits)
  qed
qed

theorem scalar_set_get_witness:
  "case set_value ''x'' (7 :: nat) sparse_matrix_new :: (bool, unit execution_error) result \<times> _ of
     (Ok b, m') \<Rightarrow> \<not> b \<and> matrix_get_value ''x'' m' = (Ok (Some 7) :: (_, unit execution_error) result)
   | _ \<Rightarrow> False"
  using scalar_set_get [OF sparse_wf_new, where name = "''x''" and v = "7 :: nat" and ?'n = unit]
  by (simp add: set_value_def sparse_matrix_new_def)

end
