(* ===== verification/Cid_Stores.thy ===== *)
theory Cid_Stores
  imports Stream_Maps
begin

text \<open>
  Content identifiers and the stores behind a trace: the verification of a CID against its value (crate
  \<^verbatim>\<open>air-interpreter-cid\<close>), CID stores and trackers (\<^verbatim>\<open>interpreter-data/src/cid_store.rs\<close>), the five stores
  of an interpreter's data with their cross references (\<^verbatim>\<open>cid_info.rs\<close>) and raw values
  (\<^verbatim>\<open>raw_value.rs\<close>).

  Parameters: the functions of the packages \<^verbatim>\<open>cid\<close>, \<^verbatim>\<open>multihash_codetable\<close>, \<^verbatim>\<open>sha2\<close> and
  \<^verbatim>\<open>fluence_blake3\<close> (\<open>cid_ops\<close>) and the JSON serialization of every stored type (\<open>serde_ops\<close>). Bytes are
  characters. A \<^verbatim>\<open>CidStore\<close> is a \<^verbatim>\<open>HashMap\<close>: the list of its entries in the order its iterator gives
  them. A \<^verbatim>\<open>CidTracker\<close>, over which nothing iterates, is a map. What \<^verbatim>\<open>std::any::type_name\<close> says is a
  tag.
\<close>

section \<open>CIDs\<close>

type_synonym bytes = string

datatype multihash_code = Sha2_256 | Blake3_256 | OtherCode

record real_cid =
  codec :: nat
  mhash_code :: nat
  mhash_digest :: bytes

record cid_ops =
  cid_from_str :: "string \<Rightarrow> string + real_cid"
  cid_to_string :: "real_cid \<Rightarrow> string"
  code_try_from :: "nat \<Rightarrow> multihash_code option"
  code_wrap :: "multihash_code \<Rightarrow> bytes \<Rightarrow> (nat \<times> bytes) option"
  sha2_256 :: "bytes \<Rightarrow> bytes"
  blake3_256 :: "bytes \<Rightarrow> bytes"

type_synonym 'v to_json = "'v \<Rightarrow> string + bytes"

fun of_sum :: "'e + 'a \<Rightarrow> ('a, 'e) result" where
  "of_sum (Inl e) = Err e"
| "of_sum (Inr a) = Ok a"

definition JSON_CODEC :: nat where
  "JSON_CODEC = 0x200"

datatype stored_type = RawValueT | SecurityTetrapletT | CanonCidAggregateT | CanonResultCidAggregateT | ServiceResultCidAggregateT

datatype cid_verification_error =
    ValueMismatch stored_type cid
  | InvalidJson string
  | MalformedCid string
  | UnsupportedCidCodec nat
  | UnsupportedHashCode nat

definition value_json_hash :: "(bytes \<Rightarrow> bytes) \<Rightarrow> 'v to_json \<Rightarrow> 'v \<Rightarrow> (bytes, string) result" where
  "value_json_hash digest js v = res_then (of_sum (js v)) (\<lambda>b. Ok (digest b))"

definition raw_value_hash :: "(bytes \<Rightarrow> bytes) \<Rightarrow> bytes \<Rightarrow> bytes" where
  "raw_value_hash digest raw = digest raw"

definition value_to_json_cid :: "cid_ops \<Rightarrow> 'v to_json \<Rightarrow> 'v \<Rightarrow> (cid, string) result" where
  "value_to_json_cid CO js v =
     res_then (value_json_hash (blake3_256 CO) js v) (\<lambda>h.
     res_then (unwrap (code_wrap CO Blake3_256 h)) (\<lambda>(c, d).
     Ok (cid_to_string CO \<lparr>codec = JSON_CODEC, mhash_code = c, mhash_digest = d\<rparr>)))"

definition raw_value_to_json_cid :: "cid_ops \<Rightarrow> bytes \<Rightarrow> (cid, 'e) result" where
  "raw_value_to_json_cid CO raw =
     res_then (unwrap (code_wrap CO Blake3_256 (raw_value_hash (blake3_256 CO) raw))) (\<lambda>(c, d).
     Ok (cid_to_string CO \<lparr>codec = JSON_CODEC, mhash_code = c, mhash_digest = d\<rparr>))"

definition verify_json_value ::
    "cid_ops \<Rightarrow> stored_type \<Rightarrow> 'v to_json \<Rightarrow> real_cid \<Rightarrow> 'v \<Rightarrow> cid \<Rightarrow> (unit, cid_verification_error) result" where
  "verify_json_value CO T js mhash v c =
     (let raw_code = mhash_code mhash in
      res_then (ok_or (UnsupportedHashCode raw_code) (code_try_from CO raw_code)) (\<lambda>code.
      res_then (case code of
          Sha2_256 \<Rightarrow> res_map_err InvalidJson (value_json_hash (sha2_256 CO) js v)
        | Blake3_256 \<Rightarrow> res_map_err InvalidJson (value_json_hash (blake3_256 CO) js v)
        | OtherCode \<Rightarrow> Err (UnsupportedHashCode raw_code)) (\<lambda>expected_hash.
      if expected_hash = mhash_digest mhash then Ok () else Err (ValueMismatch T c))))"

definition verify_value ::
    "cid_ops \<Rightarrow> stored_type \<Rightarrow> 'v to_json \<Rightarrow> cid \<Rightarrow> 'v \<Rightarrow> (unit, cid_verification_error) result" where
  "verify_value CO T js c v =
     res_then (res_map_err MalformedCid (of_sum (cid_from_str CO c))) (\<lambda>real.
     if codec real = JSON_CODEC then verify_json_value CO T js real v c
     else Err (UnsupportedCidCodec (codec real)))"

definition verify_raw_value :: "cid_ops \<Rightarrow> stored_type \<Rightarrow> cid \<Rightarrow> bytes \<Rightarrow> (unit, cid_verification_error) result" where
  "verify_raw_value CO T c raw =
     res_then (res_map_err MalformedCid (of_sum (cid_from_str CO c))) (\<lambda>real.
     if codec real \<noteq> JSON_CODEC then Err (UnsupportedCidCodec (codec real))
     else (let raw_code = mhash_code real in
      res_then (ok_or (UnsupportedHashCode raw_code) (code_try_from CO raw_code)) (\<lambda>code.
      res_then (case code of
          Sha2_256 \<Rightarrow> Ok (sha2_256 CO raw)
        | Blake3_256 \<Rightarrow> Ok (blake3_256 CO raw)
        | OtherCode \<Rightarrow> Err (UnsupportedHashCode raw_code)) (\<lambda>expected_hash.
      if expected_hash = mhash_digest real then Ok () else Err (ValueMismatch T c)))))"

section \<open>Stores and trackers\<close>

type_synonym 'v cid_store = "(cid \<times> 'v) list"

datatype cid_store_verification_error =
    CidVerificationError cid_verification_error
  | MissingReference stored_type stored_type cid

fun for_each :: "('a \<Rightarrow> (unit, 'e) result) \<Rightarrow> 'a list \<Rightarrow> (unit, 'e) result" where
  "for_each f [] = Ok ()"
| "for_each f (x # xs) = res_then (f x) (\<lambda>_. for_each f xs)"

definition store_get :: "'v cid_store \<Rightarrow> cid \<Rightarrow> 'v option" where
  "store_get self c = map_of self c"

definition check_reference ::
    "stored_type \<Rightarrow> stored_type \<Rightarrow> 'v cid_store \<Rightarrow> cid \<Rightarrow> (unit, cid_store_verification_error) result" where
  "check_reference src_type target_type self target_cid =
     res_then (ok_or (MissingReference src_type target_type target_cid) (map_of self target_cid)) (\<lambda>_. Ok ())"

definition store_verify :: "cid_ops \<Rightarrow> stored_type \<Rightarrow> 'v to_json \<Rightarrow> 'v cid_store \<Rightarrow> (unit, cid_store_verification_error) result" where
  "store_verify CO T js self = for_each (\<lambda>(c, v). res_map_err CidVerificationError (verify_value CO T js c v)) self"

record 'n raw_value =
  raw :: string
  parsed :: "'n jvalue option"

definition raw_from_value :: "('n jvalue \<Rightarrow> string) \<Rightarrow> 'n jvalue \<Rightarrow> 'n raw_value" where
  "raw_from_value to_str v = \<lparr>raw = to_str v, parsed = Some v\<rparr>"

text \<open>The cache is filled with a function of the text: later reads give the same value, so only the value is returned.\<close>

definition raw_get_value :: "(string \<Rightarrow> 'n jvalue option) \<Rightarrow> 'n raw_value \<Rightarrow> ('n jvalue, 'e) result" where
  "raw_get_value from_str self = (case parsed self of Some v \<Rightarrow> Ok v | None \<Rightarrow> unwrap (from_str (raw self)))"

definition store_verify_raw_value :: "cid_ops \<Rightarrow> 'n raw_value cid_store \<Rightarrow> (unit, cid_store_verification_error) result" where
  "store_verify_raw_value CO self =
     for_each (\<lambda>(c, v). res_map_err CidVerificationError (verify_raw_value CO RawValueT c (raw v))) self"

record 'v cid_tracker =
  tracked :: "cid \<rightharpoonup> 'v"

definition tracker_new :: "'v cid_tracker" where
  "tracker_new = \<lparr>tracked = Map.empty\<rparr>"

definition from_cid_stores :: "'v cid_store \<Rightarrow> 'v cid_store \<Rightarrow> 'v cid_tracker" where
  "from_cid_stores prev_cid_map current_cid_map =
     \<lparr>tracked = fold (\<lambda>(c, v) cids. cids(c \<mapsto> v)) current_cid_map (map_of prev_cid_map)\<rparr>"

definition tracker_get :: "'v cid_tracker \<Rightarrow> cid \<Rightarrow> 'v option" where
  "tracker_get self c = tracked self c"

definition track_value :: "cid_ops \<Rightarrow> 'v to_json \<Rightarrow> 'v \<Rightarrow> ('v cid_tracker, cid, string) comp" where
  "track_value CO js v =
     and_then (lift (value_to_json_cid CO js v)) (\<lambda>c.
     and_then (modify (\<lambda>self. self\<lparr>tracked := (tracked self)(c \<mapsto> v)\<rparr>)) (\<lambda>_.
     ret c))"

definition track_raw_value :: "cid_ops \<Rightarrow> 'n raw_value \<Rightarrow> ('n raw_value cid_tracker, cid, 'e) comp" where
  "track_raw_value CO v =
     and_then (lift (raw_value_to_json_cid CO (raw v))) (\<lambda>c.
     and_then (modify (\<lambda>self. self\<lparr>tracked := (tracked self)(c \<mapsto> v)\<rparr>)) (\<lambda>_.
     ret c))"

text \<open>A tracker becomes a store, whose iterator takes the entries in some order.\<close>

definition tracker_into_store :: "cid list \<Rightarrow> 'v cid_tracker \<Rightarrow> 'v cid_store" where
  "tracker_into_store order value = List.map_filter (\<lambda>c. map_option (Pair c) (tracked value c)) order"

section \<open>The stores of an interpreter's data\<close>

record service_result_cid_aggregate =
  value_cid :: cid
  argument_hash :: string
  tetraplet_cid :: cid

record canon_result_cid_aggregate =
  crc_tetraplet :: cid
  crc_values :: "cid list"

record canon_cid_aggregate =
  cca_value :: cid
  cca_tetraplet :: cid
  cca_provenance :: provenance

record serde_ops =
  ser_tetraplet :: "security_tetraplet to_json"
  ser_canon_element :: "canon_cid_aggregate to_json"
  ser_canon_result :: "canon_result_cid_aggregate to_json"
  ser_service_result :: "service_result_cid_aggregate to_json"

record 'n cid_info =
  value_store :: "'n raw_value cid_store"
  tetraplet_store :: "security_tetraplet cid_store"
  canon_element_store :: "canon_cid_aggregate cid_store"
  canon_result_store :: "canon_result_cid_aggregate cid_store"
  service_result_store :: "service_result_cid_aggregate cid_store"

definition verify_service_result_store ::
    "cid_ops \<Rightarrow> serde_ops \<Rightarrow> 'n cid_info \<Rightarrow> (unit, cid_store_verification_error) result" where
  "verify_service_result_store CO S self =
     res_then (store_verify CO ServiceResultCidAggregateT (ser_service_result S) (service_result_store self)) (\<lambda>_.
     for_each (\<lambda>(serv_cid, serv_result).
       res_then (check_reference ServiceResultCidAggregateT SecurityTetrapletT (tetraplet_store self) (tetraplet_cid serv_result)) (\<lambda>_.
       check_reference ServiceResultCidAggregateT RawValueT (value_store self) (value_cid serv_result)))
       (service_result_store self))"

definition verify_canon_result_store ::
    "cid_ops \<Rightarrow> serde_ops \<Rightarrow> 'n cid_info \<Rightarrow> (unit, cid_store_verification_error) result" where
  "verify_canon_result_store CO S self =
     res_then (store_verify CO CanonCidAggregateT (ser_canon_element S) (canon_element_store self)) (\<lambda>_.
     res_then (store_verify CO CanonResultCidAggregateT (ser_canon_result S) (canon_result_store self)) (\<lambda>_.
     res_then (for_each (\<lambda>(canon_cid, canon_result).
         res_then (for_each (check_reference CanonResultCidAggregateT CanonCidAggregateT (canon_element_store self))
             (crc_values canon_result)) (\<lambda>_.
         check_reference CanonResultCidAggregateT SecurityTetrapletT (tetraplet_store self) (crc_tetraplet canon_result)))
       (canon_result_store self)) (\<lambda>_.
     for_each (\<lambda>(element_cid, canon_element).
         res_then (check_reference CanonCidAggregateT SecurityTetrapletT (tetraplet_store self) (cca_tetraplet canon_element)) (\<lambda>_.
         res_then (check_reference CanonCidAggregateT RawValueT (value_store self) (cca_value canon_element)) (\<lambda>_.
         case cca_provenance canon_element of
           ProvLiteral \<Rightarrow> Ok ()
         | ProvServiceResult c \<Rightarrow> check_reference CanonCidAggregateT ServiceResultCidAggregateT (service_result_store self) c
         | ProvCanon c \<Rightarrow> check_reference CanonCidAggregateT CanonResultCidAggregateT (canon_result_store self) c)))
       (canon_element_store self))))"

definition cid_info_verify :: "cid_ops \<Rightarrow> serde_ops \<Rightarrow> 'n cid_info \<Rightarrow> (unit, cid_store_verification_error) result" where
  "cid_info_verify CO S self =
     res_then (store_verify_raw_value CO (value_store self)) (\<lambda>_.
     res_then (store_verify CO SecurityTetrapletT (ser_tetraplet S) (tetraplet_store self)) (\<lambda>_.
     res_then (verify_canon_result_store CO S self) (\<lambda>_.
     verify_service_result_store CO S self)))"

section \<open>What the packages document\<close>

text \<open>
  A CID that was printed parses back to itself, and wrapping a BLAKE3 digest gives a multihash with
  that digest and a code the code table knows.
\<close>

definition cid_documented :: "cid_ops \<Rightarrow> bool" where
  "cid_documented CO \<longleftrightarrow> (\<forall>r. cid_from_str CO (cid_to_string CO r) = Inr r)
     \<and> (\<exists>k. code_try_from CO k = Some Blake3_256 \<and> (\<forall>b. code_wrap CO Blake3_256 (blake3_256 CO b) = Some (k, blake3_256 CO b)))"

text \<open>An instance: the numbers of a CID are printed in unary before its digest, and a digest is the data itself.\<close>

definition unary :: "nat \<Rightarrow> string" where
  "unary n = replicate n (CHR ''1'') @ [CHR ''.'']"

definition read_unary :: "string \<Rightarrow> nat \<times> string" where
  "read_unary s = (length (takeWhile (\<lambda>c. c = CHR ''1'') s), drop 1 (dropWhile (\<lambda>c. c = CHR ''1'') s))"

definition plain_cids :: cid_ops where
  "plain_cids = \<lparr>
     cid_from_str = (\<lambda>s. if s = [] then Inl ''empty'' else
       (case read_unary s of (n, s') \<Rightarrow> case read_unary s' of (k, d) \<Rightarrow> Inr \<lparr>codec = n, mhash_code = k, mhash_digest = d\<rparr>)),
     cid_to_string = (\<lambda>r. unary (codec r) @ unary (mhash_code r) @ mhash_digest r),
     code_try_from = (\<lambda>k. if k = 18 then Some Sha2_256 else if k = 30 then Some Blake3_256 else if k = 22 then Some OtherCode else None),
     code_wrap = (\<lambda>c d. if c = Blake3_256 then Some (30, d) else None),
     sha2_256 = rev, blake3_256 = (\<lambda>b. b)\<rparr>"

lemma read_unary: "read_unary (unary n @ s) = (n, s)"
  by (simp add: read_unary_def unary_def takeWhile_append dropWhile_append)

lemma plain_cids_documented: "cid_documented plain_cids"
proof -
  have "cid_from_str plain_cids (cid_to_string plain_cids r) = Inr r" for r
    by (simp add: plain_cids_def read_unary) (simp add: unary_def)
  then show ?thesis by (simp add: cid_documented_def plain_cids_def exI [of _ 30])
qed

definition plain_cid :: "bytes \<Rightarrow> cid" where
  "plain_cid b = cid_to_string plain_cids \<lparr>codec = JSON_CODEC, mhash_code = 30, mhash_digest = b\<rparr>"

fun plain_provenance :: "provenance \<Rightarrow> bytes" where
  "plain_provenance ProvLiteral = ''L''"
| "plain_provenance (ProvServiceResult c) = CHR ''S'' # c"
| "plain_provenance (ProvCanon c) = CHR ''C'' # c"

definition plain_serde :: serde_ops where
  "plain_serde = \<lparr>ser_tetraplet = (\<lambda>t. Inr (concat [peer_pk t, '','', service_id t, '','', function_name t, '','', lens t])),
     ser_canon_element = (\<lambda>e. Inr (concat [cca_value e, '','', cca_tetraplet e, '','', plain_provenance (cca_provenance e)])),
     ser_canon_result = (\<lambda>r. Inr (concat (crc_tetraplet r # crc_values r))),
     ser_service_result = (\<lambda>r. Inr (concat [value_cid r, '','', argument_hash r, '','', tetraplet_cid r]))\<rparr>"

section \<open>What a successful verification means\<close>

text \<open>A CID names bytes when its digest is the digest of the bytes under a hash function the interpreter supports.\<close>

definition names_bytes :: "cid_ops \<Rightarrow> cid \<Rightarrow> bytes \<Rightarrow> bool" where
  "names_bytes CO c b \<longleftrightarrow> (\<exists>r. cid_from_str CO c = Inr r \<and> codec r = JSON_CODEC
     \<and> (code_try_from CO (mhash_code r) = Some Sha2_256 \<and> sha2_256 CO b = mhash_digest r
      \<or> code_try_from CO (mhash_code r) = Some Blake3_256 \<and> blake3_256 CO b = mhash_digest r))"

lemma plain_names_bytes: "names_bytes plain_cids (plain_cid b) b"
  using plain_cids_documented by (simp add: names_bytes_def plain_cid_def cid_documented_def) (simp add: plain_cids_def)

definition store_genuine :: "cid_ops \<Rightarrow> ('v \<Rightarrow> string + bytes) \<Rightarrow> 'v cid_store \<Rightarrow> bool" where
  "store_genuine CO js st \<longleftrightarrow> (\<forall>(c, v) \<in> set st. \<exists>b. js v = Inr b \<and> names_bytes CO c b)"

definition references_closed :: "'n cid_info \<Rightarrow> bool" where
  "references_closed I \<longleftrightarrow>
     (\<forall>s \<in> snd ` set (service_result_store I).
        tetraplet_cid s \<in> fst ` set (tetraplet_store I) \<and> value_cid s \<in> fst ` set (value_store I))
   \<and> (\<forall>r \<in> snd ` set (canon_result_store I).
        set (crc_values r) \<subseteq> fst ` set (canon_element_store I) \<and> crc_tetraplet r \<in> fst ` set (tetraplet_store I))
   \<and> (\<forall>e \<in> snd ` set (canon_element_store I).
        cca_tetraplet e \<in> fst ` set (tetraplet_store I) \<and> cca_value e \<in> fst ` set (value_store I)
      \<and> (case cca_provenance e of ProvLiteral \<Rightarrow> True
         | ProvServiceResult c \<Rightarrow> c \<in> fst ` set (service_result_store I)
         | ProvCanon c \<Rightarrow> c \<in> fst ` set (canon_result_store I)))"

definition cid_info_genuine :: "cid_ops \<Rightarrow> serde_ops \<Rightarrow> 'n cid_info \<Rightarrow> bool" where
  "cid_info_genuine CO S I \<longleftrightarrow> store_genuine CO (\<lambda>v. Inr (raw v)) (value_store I)
     \<and> store_genuine CO (ser_tetraplet S) (tetraplet_store I)
     \<and> store_genuine CO (ser_canon_element S) (canon_element_store I)
     \<and> store_genuine CO (ser_canon_result S) (canon_result_store I)
     \<and> store_genuine CO (ser_service_result S) (service_result_store I)"

lemma of_sum_eqs [result_simps]: "of_sum x = Ok a \<longleftrightarrow> x = Inr a" "of_sum x = Panic \<longleftrightarrow> False"
  by (cases x; simp)+

lemma and_then_ok_or [result_simps]: "and_then (lift (ok_or e x)) f s = (case x of None \<Rightarrow> (Err e, s) | Some a \<Rightarrow> f a s)"
  by (cases x) (simp_all add: and_then_lift)

lemma for_each_Ok [result_simps]: "for_each f xs = Ok () \<longleftrightarrow> (\<forall>x \<in> set xs. f x = Ok ())"
  by (induction xs) (auto simp: res_then_Ok)

lemma for_each_no_Panic: "(\<And>x. x \<in> set xs \<Longrightarrow> f x \<noteq> Panic) \<Longrightarrow> for_each f xs \<noteq> Panic"
  by (induction xs) (auto simp: res_then_Panic)

lemma verify_value_Ok: "verify_value CO T js c v = Ok () \<longleftrightarrow> (\<exists>b. js v = Inr b \<and> names_bytes CO c b)"
  by (cases "js v")
    (auto simp: verify_value_def verify_json_value_def value_json_hash_def names_bytes_def Let_def result_simps
      split: multihash_code.split_asm)

lemma verify_value_no_Panic: "verify_value CO T js c v \<noteq> Panic"
  by (auto simp: verify_value_def verify_json_value_def value_json_hash_def Let_def result_simps
      split: multihash_code.splits if_splits)

lemma verify_raw_value_Ok: "verify_raw_value CO T c b = Ok () \<longleftrightarrow> names_bytes CO c b"
  by (auto simp: verify_raw_value_def names_bytes_def Let_def result_simps split: multihash_code.split_asm)

lemma verify_raw_value_no_Panic: "verify_raw_value CO T c b \<noteq> Panic"
  by (auto simp: verify_raw_value_def Let_def result_simps split: multihash_code.splits if_splits)

lemma store_verify_Ok: "store_verify CO T js st = Ok () \<longleftrightarrow> store_genuine CO js st"
  by (auto simp: store_verify_def store_genuine_def result_simps verify_value_Ok)

lemma store_verify_raw_Ok: "store_verify_raw_value CO st = Ok () \<longleftrightarrow> store_genuine CO (\<lambda>v. Inr (raw v)) st"
  by (auto simp: store_verify_raw_value_def store_genuine_def result_simps verify_raw_value_Ok)

lemma check_reference_Ok [result_simps]: "check_reference A B st c = Ok () \<longleftrightarrow> c \<in> fst ` set st"
proof -
  have "c \<in> fst ` set st \<longleftrightarrow> (\<exists>v. map_of st c = Some v)" using map_of_eq_None_iff [of st c] by (cases "map_of st c") auto
  then show ?thesis by (simp add: check_reference_def result_simps)
qed

lemma check_reference_no_Panic [result_simps]: "check_reference A B st c = Panic \<longleftrightarrow> False"
  by (simp add: check_reference_def result_simps)

lemma store_verify_no_Panic: "store_verify CO T js st \<noteq> Panic" "store_verify_raw_value CO vs \<noteq> Panic"
  unfolding store_verify_def store_verify_raw_value_def
  by (rule for_each_no_Panic; auto simp: result_simps verify_value_no_Panic verify_raw_value_no_Panic)+

lemma verify_results_no_Panic: "verify_service_result_store CO S I \<noteq> Panic" "verify_canon_result_store CO S I \<noteq> Panic"
  unfolding verify_service_result_store_def verify_canon_result_store_def
  by (auto simp: result_simps store_verify_no_Panic dest!: for_each_no_Panic [THEN notE, rotated]
      split: provenance.splits)

lemma cid_info_verify_iff:
  "(cid_info_verify CO S I = Ok () \<longleftrightarrow> cid_info_genuine CO S I \<and> references_closed I)
   \<and> cid_info_verify CO S I \<noteq> Panic"
proof
  show "cid_info_verify CO S I \<noteq> Panic"
    by (simp add: cid_info_verify_def result_simps store_verify_no_Panic verify_results_no_Panic)
  have prov: "(case p of ProvLiteral \<Rightarrow> Ok () | ProvServiceResult c \<Rightarrow> f c | ProvCanon c \<Rightarrow> g c) = Ok ()
      \<longleftrightarrow> (case p of ProvLiteral \<Rightarrow> True | ProvServiceResult c \<Rightarrow> f c = Ok () | ProvCanon c \<Rightarrow> g c = Ok ())"
    for p and f g :: "cid \<Rightarrow> (unit, cid_store_verification_error) result"
    by (simp split: provenance.splits)
  have service: "verify_service_result_store CO S I = Ok () \<longleftrightarrow> store_genuine CO (ser_service_result S) (service_result_store I)
      \<and> (\<forall>s \<in> snd ` set (service_result_store I).
          tetraplet_cid s \<in> fst ` set (tetraplet_store I) \<and> value_cid s \<in> fst ` set (value_store I))"
    by (simp add: verify_service_result_store_def result_simps store_verify_Ok split_beta)
  have canon: "verify_canon_result_store CO S I = Ok () \<longleftrightarrow> store_genuine CO (ser_canon_element S) (canon_element_store I)
      \<and> store_genuine CO (ser_canon_result S) (canon_result_store I)
      \<and> (\<forall>r \<in> snd ` set (canon_result_store I).
          set (crc_values r) \<subseteq> fst ` set (canon_element_store I) \<and> crc_tetraplet r \<in> fst ` set (tetraplet_store I))
      \<and> (\<forall>e \<in> snd ` set (canon_element_store I).
          cca_tetraplet e \<in> fst ` set (tetraplet_store I) \<and> cca_value e \<in> fst ` set (value_store I)
        \<and> (case cca_provenance e of ProvLiteral \<Rightarrow> True
           | ProvServiceResult c \<Rightarrow> c \<in> fst ` set (service_result_store I)
           | ProvCanon c \<Rightarrow> c \<in> fst ` set (canon_result_store I)))"
    by (simp add: verify_canon_result_store_def result_simps store_verify_Ok split_beta prov subset_eq
        cong: provenance.case_cong)
  show "cid_info_verify CO S I = Ok () \<longleftrightarrow> cid_info_genuine CO S I \<and> references_closed I"
    by (simp add: cid_info_verify_def res_then_Ok service canon store_verify_raw_Ok store_verify_Ok
        cid_info_genuine_def references_closed_def) blast
qed

section \<open>Properties\<close>

text \<open>
  C32. The verification of the stores is exact: it succeeds exactly when every value hashes to the CID it
  is stored under and every CID a stored aggregate mentions is in the store it refers to; otherwise it
  returns an error, and it never panics.
\<close>

theorem cid_info_verify_correct:
  "(cid_info_verify CO S I = Ok () \<longleftrightarrow> cid_info_genuine CO S I \<and> references_closed I)
   \<and> cid_info_verify CO S I \<noteq> Panic"
  by (rule cid_info_verify_iff)

text \<open>
  What a tracker tracks can be verified: when a value has a JSON form, tracking it succeeds and gives a
  CID under which the tracker returns the value and the verification of that CID against the value
  succeeds, and nothing else the tracker holds changes; when it has none, the error is returned and
  the tracker is unchanged.
\<close>

theorem tracked_value_verifies:
  assumes "cid_documented CO"
  shows "case js v of
      Inl e \<Rightarrow> track_value CO js v t = (Err e, t)
    | Inr b \<Rightarrow> (\<exists>c t'. track_value CO js v t = (Ok c, t') \<and> tracker_get t' c = Some v
        \<and> verify_value CO T js c v = Ok () \<and> (\<forall>c'. c' \<noteq> c \<longrightarrow> tracker_get t' c' = tracker_get t c'))"
proof (cases "js v")
  case (Inl e)
  then show ?thesis by (simp add: track_value_def value_to_json_cid_def value_json_hash_def and_then_lift)
next
  case (Inr b)
  obtain k where k: "code_try_from CO k = Some Blake3_256" "code_wrap CO Blake3_256 (blake3_256 CO b) = Some (k, blake3_256 CO b)"
    using assms by (auto simp: cid_documented_def)
  let ?c = "cid_to_string CO \<lparr>codec = JSON_CODEC, mhash_code = k, mhash_digest = blake3_256 CO b\<rparr>"
  have "track_value CO js v t = (Ok ?c, t\<lparr>tracked := (tracked t)(?c \<mapsto> v)\<rparr>)"
    using Inr k by (simp add: track_value_def value_to_json_cid_def value_json_hash_def and_then_lift)
  moreover have "names_bytes CO ?c b" using assms k by (simp add: names_bytes_def cid_documented_def)
  ultimately show ?thesis using Inr by (simp add: tracker_get_def verify_value_Ok)
qed

theorem tracked_value_verifies_witness:
  "\<exists>c t'. track_value plain_cids Inr ''42'' tracker_new = (Ok c, t') \<and> verify_value plain_cids RawValueT Inr c ''42'' = Ok ()"
  using tracked_value_verifies [OF plain_cids_documented, of Inr "''42''" tracker_new RawValueT] by auto

end
