(* ===== verification/Data_Verification.thy ===== *)
theory Data_Verification
  imports Cid_Stores "HOL-Library.Multiset"
begin

text \<open>
  Signatures of peers over the CIDs they produced: keys, signature stores and trackers (crate
  \<^verbatim>\<open>air-interpreter-signatures\<close>), the verifier of incoming data
  (\<^verbatim>\<open>interpreter-data/src/interpreter_data/verification.rs\<close>) and the two steps of a run that use them
  (\<^verbatim>\<open>air/src/verification_step.rs\<close>, \<^verbatim>\<open>air/src/signing_step.rs\<close>).

  Parameters: the functions of the packages \<^verbatim>\<open>fluence_keypair\<close>, \<^verbatim>\<open>borsh\<close> and \<^verbatim>\<open>bs58\<close> (\<open>key_ops\<close>). A public
  key and a signature are the bytes they wrap. A \<^verbatim>\<open>HashMap\<close> is a map; a loop over it takes the order
  of its iterator as an argument.
\<close>

section \<open>Keys and signatures\<close>

datatype key_format = Ed25519 | OtherFormat string

record ('pk, 'sg, 'kp) key_ops =
  pk_decode :: "bytes \<Rightarrow> string + 'pk"
  pk_encode :: "'pk \<Rightarrow> bytes"
  pk_format :: "'pk \<Rightarrow> key_format"
  pk_peer_id :: "'pk \<Rightarrow> string"
  pk_verify :: "'pk \<Rightarrow> bytes \<Rightarrow> 'sg \<Rightarrow> string + unit"
  sg_decode :: "bytes \<Rightarrow> string + 'sg"
  sg_encode :: "'sg \<Rightarrow> bytes"
  kp_public :: "'kp \<Rightarrow> 'pk"
  kp_format :: "'kp \<Rightarrow> key_format"
  kp_sign :: "'kp \<Rightarrow> bytes \<Rightarrow> string + 'sg"
  borsh_salted :: "cid list \<Rightarrow> string \<Rightarrow> bytes"
  b58_encode :: "bytes \<Rightarrow> string"

type_synonym public_key = bytes
type_synonym signature = bytes

datatype key_error = AlgorithmNotWhitelisted key_format | InvalidKeyData string
datatype verification_error = InvalidKey string | InvalidSignature string | Verification string

definition validate_with_key_format :: "'v \<Rightarrow> key_format \<Rightarrow> ('v, key_error) result" where
  "validate_with_key_format inner key_format =
     (case key_format of Ed25519 \<Rightarrow> Ok inner | _ \<Rightarrow> Err (AlgorithmNotWhitelisted key_format))"

definition salted_serialize :: "('pk, 'sg, 'kp) key_ops \<Rightarrow> cid list \<Rightarrow> string \<Rightarrow> bytes" where
  "salted_serialize K cids salt = borsh_salted K cids salt"

definition public_key_verify ::
    "('pk, 'sg, 'kp) key_ops \<Rightarrow> public_key \<Rightarrow> cid list \<Rightarrow> string \<Rightarrow> signature \<Rightarrow> (unit, verification_error) result" where
  "public_key_verify K self cids salt sig =
     res_then (res_map_err InvalidKey (of_sum (pk_decode K self))) (\<lambda>pk.
     res_then (res_map_err InvalidSignature (of_sum (sg_decode K sig))) (\<lambda>sg.
     res_map_err Verification (of_sum (pk_verify K pk (salted_serialize K cids salt) sg))))"

definition to_peer_id :: "('pk, 'sg, 'kp) key_ops \<Rightarrow> public_key \<Rightarrow> (string, key_error) result" where
  "to_peer_id K self = res_then (res_map_err InvalidKeyData (of_sum (pk_decode K self))) (\<lambda>pk. Ok (pk_peer_id K pk))"

definition validate_key :: "('pk, 'sg, 'kp) key_ops \<Rightarrow> public_key \<Rightarrow> (unit, key_error) result" where
  "validate_key K self =
     res_then (res_map_err InvalidKeyData (of_sum (pk_decode K self))) (\<lambda>pk.
     validate_with_key_format () (pk_format K pk))"

definition key_pair_new :: "('pk, 'sg, 'kp) key_ops \<Rightarrow> 'kp \<Rightarrow> ('kp, key_error) result" where
  "key_pair_new K inner = res_then (validate_with_key_format () (kp_format K inner)) (\<lambda>_. Ok inner)"

definition key_pair_public :: "('pk, 'sg, 'kp) key_ops \<Rightarrow> 'kp \<Rightarrow> public_key" where
  "key_pair_public K self = pk_encode K (kp_public K self)"

section \<open>Signature stores and trackers\<close>

type_synonym signature_store = "public_key \<rightharpoonup> signature"

definition signature_put :: "public_key \<Rightarrow> signature \<Rightarrow> signature_store \<Rightarrow> signature_store" where
  "signature_put pk sig self = self(pk \<mapsto> sig)"

record peer_cid_tracker =
  current_peer_id :: string
  peer_cids :: "cid list"

definition peer_cid_tracker_new :: "string \<Rightarrow> peer_cid_tracker" where
  "peer_cid_tracker_new peer = \<lparr>current_peer_id = peer, peer_cids = []\<rparr>"

definition register :: "string \<Rightarrow> cid \<Rightarrow> peer_cid_tracker \<Rightarrow> peer_cid_tracker" where
  "register peer c self = (if peer = current_peer_id self then self\<lparr>peer_cids := peer_cids self @ [c]\<rparr> else self)"

definition sign_cids :: "('pk, 'sg, 'kp) key_ops \<Rightarrow> cid list \<Rightarrow> string \<Rightarrow> 'kp \<Rightarrow> ('sg, string) result" where
  "sign_cids K cids salt keypair =
     (let cids = sort cids; serialized_cids = salted_serialize K cids salt in
      of_sum (kp_sign K keypair serialized_cids))"

definition gen_signature :: "('pk, 'sg, 'kp) key_ops \<Rightarrow> string \<Rightarrow> 'kp \<Rightarrow> peer_cid_tracker \<Rightarrow> (signature, string) result" where
  "gen_signature K salt keypair self = res_then (sign_cids K (peer_cids self) salt keypair) (\<lambda>sg. Ok (sg_encode K sg))"

definition sign_produced_cids ::
    "('pk, 'sg, 'kp) key_ops \<Rightarrow> peer_cid_tracker \<Rightarrow> string \<Rightarrow> 'kp \<Rightarrow> (signature_store, unit, 'n execution_error) comp" where
  "sign_produced_cids K signature_tracker salt keypair =
     and_then (lift (res_map_err (\<lambda>e. Uncatchable (SigningError e)) (gen_signature K salt keypair signature_tracker))) (\<lambda>sig.
     let public_key = key_pair_public K keypair in
     modify (signature_put public_key sig))"

section \<open>The verifier\<close>

record 'n interpreter_data =
  data_trace :: execution_trace
  last_call_request_id :: u32
  data_cid_info :: "'n cid_info"
  signatures :: signature_store

datatype data_verifier_error =
    MalformedKey key_error string
  | MalformedSignature string
  | PeerIdNotFound string
  | SignatureMismatch verification_error "cid list" string
  | MergeMismatch string "cid list" "cid list"

record peer_info =
  pi_public_key :: public_key
  pi_signature :: signature
  pi_cids :: "cid list"

definition peer_info_new :: "public_key \<Rightarrow> signature \<Rightarrow> peer_info" where
  "peer_info_new k s = \<lparr>pi_public_key = k, pi_signature = s, pi_cids = []\<rparr>"

record data_verifier =
  grouped_cids :: "string \<rightharpoonup> peer_info"
  verifier_salt :: string

definition expect_peer_id :: "('pk, 'sg, 'kp) key_ops \<Rightarrow> public_key \<Rightarrow> (string, 'e) result" where
  "expect_peer_id K k = (case to_peer_id K k of Ok p \<Rightarrow> Ok p | _ \<Rightarrow> Panic)"

definition try_push_cid :: "string \<Rightarrow> cid \<Rightarrow> (string \<rightharpoonup> peer_info, unit, data_verifier_error) comp" where
  "try_push_cid peer c grouped =
     (case grouped peer of
        Some info \<Rightarrow> (Ok (), grouped(peer \<mapsto> info\<lparr>pi_cids := pi_cids info @ [c]\<rparr>))
      | None \<Rightarrow> (Err (PeerIdNotFound peer), grouped))"

text \<open>One iteration of the loop over the trace.\<close>

definition collect_state :: "'n cid_info \<Rightarrow> executed_state \<Rightarrow> (string \<rightharpoonup> peer_info, unit, data_verifier_error) comp" where
  "collect_state info elt =
     (case elt of
        Call call \<Rightarrow>
          (case call_result_get_cid call of
             Some c \<Rightarrow>
               and_then (lift (unwrap (store_get (service_result_store info) c))) (\<lambda>service_result.
               and_then (lift (unwrap (store_get (tetraplet_store info) (tetraplet_cid service_result)))) (\<lambda>tetraplet.
               try_push_cid (peer_pk tetraplet) c))
           | None \<Rightarrow> ret ())
      | Canon (CanonExecuted c) \<Rightarrow>
          and_then (lift (unwrap (store_get (canon_result_store info) c))) (\<lambda>canon_result.
          and_then (lift (unwrap (store_get (tetraplet_store info) (crc_tetraplet canon_result)))) (\<lambda>tetraplet.
          try_push_cid (peer_pk tetraplet) c))
      | _ \<Rightarrow> ret ())"

fun collect_peers_cids_from_trace ::
    "execution_trace \<Rightarrow> 'n cid_info \<Rightarrow> (string \<rightharpoonup> peer_info, unit, data_verifier_error) comp" where
  "collect_peers_cids_from_trace [] info = ret ()"
| "collect_peers_cids_from_trace (elt # trace) info =
     and_then (collect_state info elt) (\<lambda>_. collect_peers_cids_from_trace trace info)"

text \<open>The \<^verbatim>\<open>map(..).collect()\<close> over the signatures.\<close>

fun group_by_peer ::
    "('pk, 'sg, 'kp) key_ops \<Rightarrow> signature_store \<Rightarrow> public_key list \<Rightarrow> (string \<rightharpoonup> peer_info, unit, data_verifier_error) comp" where
  "group_by_peer K sigs [] = ret ()"
| "group_by_peer K sigs (k # ks) =
     (case sigs k of
        None \<Rightarrow> group_by_peer K sigs ks
      | Some s \<Rightarrow>
          and_then (lift (expect_peer_id K k)) (\<lambda>peer.
          and_then (modify (\<lambda>m. m(peer \<mapsto> peer_info_new k s))) (\<lambda>_.
          group_by_peer K sigs ks)))"

definition data_verifier_new ::
    "('pk, 'sg, 'kp) key_ops \<Rightarrow> public_key list \<Rightarrow> 'n interpreter_data \<Rightarrow> string \<Rightarrow> (data_verifier, data_verifier_error) result" where
  "data_verifier_new K order data salt =
     res_then (for_each (\<lambda>k. res_map_err (\<lambda>e. MalformedKey e (b58_encode K k)) (validate_key K k)) order) (\<lambda>_.
     case and_then (group_by_peer K (signatures data) order)
            (\<lambda>_. collect_peers_cids_from_trace (data_trace data) (data_cid_info data)) Map.empty of
       (r, grouped) \<Rightarrow> res_then r (\<lambda>_.
     let grouped = (\<lambda>peer. map_option (\<lambda>info. info\<lparr>pi_cids := sort (pi_cids info)\<rparr>) (grouped peer)) in
     Ok \<lparr>grouped_cids = grouped, verifier_salt = salt\<rparr>))"

definition verify_peer :: "('pk, 'sg, 'kp) key_ops \<Rightarrow> string \<Rightarrow> peer_info \<Rightarrow> (unit, data_verifier_error) result" where
  "verify_peer K salt info =
     (case public_key_verify K (pi_public_key info) (pi_cids info) salt (pi_signature info) of
        Ok u \<Rightarrow> Ok u
      | Err e \<Rightarrow> res_then (expect_peer_id K (pi_public_key info)) (\<lambda>peer. Err (SignatureMismatch e (pi_cids info) peer))
      | Panic \<Rightarrow> Panic)"

definition data_verifier_verify ::
    "('pk, 'sg, 'kp) key_ops \<Rightarrow> string list \<Rightarrow> data_verifier \<Rightarrow> (unit, data_verifier_error) result" where
  "data_verifier_verify K order self =
     for_each (verify_peer K (verifier_salt self)) (List.map_filter (grouped_cids self) order)"

text \<open>The counters of \<^verbatim>\<open>to_count_map\<close> are below the number of CIDs, which is a \<^verbatim>\<open>usize\<close>.\<close>

fun to_count_map :: "cid list \<Rightarrow> (cid \<rightharpoonup> nat)" where
  "to_count_map cids = fold (\<lambda>c m. m(c \<mapsto> (case m c of None \<Rightarrow> 0 | Some n \<Rightarrow> n) + 1)) cids Map.empty"

definition is_multisubset :: "cid list \<Rightarrow> (cid \<rightharpoonup> nat) \<Rightarrow> (cid \<rightharpoonup> nat) \<Rightarrow> bool" where
  "is_multisubset order larger smaller =
     list_all (\<lambda>c. case smaller c of None \<Rightarrow> True
        | Some smaller_count \<Rightarrow> \<not> (case larger c of None \<Rightarrow> 0 | Some n \<Rightarrow> n) < smaller_count) order"

definition check_cid_multiset_invariant ::
    "('pk, 'sg, 'kp) key_ops \<Rightarrow> (cid set \<Rightarrow> cid list) \<Rightarrow> peer_info \<Rightarrow> peer_info \<Rightarrow> (unit, data_verifier_error) result" where
  "check_cid_multiset_invariant K order larger_pair smaller_pair =
     (let larger_cids = pi_cids larger_pair; smaller_cids = pi_cids smaller_pair;
          larger_count_map = to_count_map larger_cids; smaller_count_map = to_count_map smaller_cids in
      if is_multisubset (order (set smaller_cids)) larger_count_map smaller_count_map then Ok ()
      else res_then (expect_peer_id K (pi_public_key smaller_pair)) (\<lambda>peer.
        Err (MergeMismatch peer larger_cids smaller_cids)))"

text \<open>The loop of \<^verbatim>\<open>merge\<close> over the peers of the other verifier.\<close>

fun merge_peers ::
    "('pk, 'sg, 'kp) key_ops \<Rightarrow> (cid set \<Rightarrow> cid list) \<Rightarrow> (string \<rightharpoonup> peer_info) \<Rightarrow> string list
       \<Rightarrow> (string \<rightharpoonup> peer_info, unit, data_verifier_error) comp" where
  "merge_peers K order other [] = ret ()"
| "merge_peers K order other (peer # peers) =
     (case other peer of
        None \<Rightarrow> merge_peers K order other peers
      | Some other_info \<Rightarrow>
          and_then (gets (\<lambda>ours. ours peer)) (\<lambda>our_info.
          case our_info of
            Some info \<Rightarrow>
              (let (larger, smaller) = (if length (pi_cids info) < length (pi_cids other_info) then (other_info, info) else (info, other_info)) in
               and_then (modify (\<lambda>ours. ours(peer \<mapsto> larger))) (\<lambda>_.
               and_then (lift (check_cid_multiset_invariant K order larger smaller)) (\<lambda>_.
               merge_peers K order other peers)))
          | None \<Rightarrow>
              and_then (modify (\<lambda>ours. ours(peer \<mapsto> other_info))) (\<lambda>_.
              merge_peers K order other peers)))"

definition verifier_merge ::
    "('pk, 'sg, 'kp) key_ops \<Rightarrow> (cid set \<Rightarrow> cid list) \<Rightarrow> string list \<Rightarrow> string list \<Rightarrow> data_verifier \<Rightarrow> data_verifier
       \<Rightarrow> (signature_store, data_verifier_error) result" where
  "verifier_merge K order other_order result_order self other =
     (case merge_peers K order (grouped_cids other) other_order (grouped_cids self) of
        (r, merged) \<Rightarrow> res_then r (\<lambda>_.
          Ok (fold (\<lambda>info. signature_put (pi_public_key info) (pi_signature info)) (List.map_filter merged result_order) Map.empty)))"

section \<open>The verification step\<close>

datatype verification_step_error = CidStoreVerificationError cid_store_verification_error | DataSignatureCheckError data_verifier_error

record iteration_orders =
  prev_keys :: "public_key list"
  current_keys :: "public_key list"
  current_peers :: "string list"
  merged_peers :: "string list"
  counted_cids :: "cid set \<Rightarrow> cid list"

definition verify_step ::
    "cid_ops \<Rightarrow> serde_ops \<Rightarrow> ('pk, 'sg, 'kp) key_ops \<Rightarrow> iteration_orders \<Rightarrow> 'n interpreter_data \<Rightarrow> 'n interpreter_data \<Rightarrow> string
       \<Rightarrow> (signature_store, verification_step_error) result" where
  "verify_step CO S K io prev_data current_data salt =
     res_then (res_map_err CidStoreVerificationError (cid_info_verify CO S (data_cid_info current_data))) (\<lambda>_.
     res_then (res_map_err DataSignatureCheckError (data_verifier_new K (prev_keys io) prev_data salt)) (\<lambda>prev_data_verifier.
     res_then (res_map_err DataSignatureCheckError (data_verifier_new K (current_keys io) current_data salt)) (\<lambda>current_data_verifier.
     res_then (res_map_err DataSignatureCheckError (data_verifier_verify K (current_peers io) current_data_verifier)) (\<lambda>_.
     res_map_err DataSignatureCheckError
       (verifier_merge K (counted_cids io) (current_peers io) (merged_peers io) prev_data_verifier current_data_verifier)))))"

section \<open>Who produced which CIDs\<close>

fun signed_cid :: "executed_state \<Rightarrow> cid option" where
  "signed_cid (Call call) = call_result_get_cid call"
| "signed_cid (Canon (CanonExecuted c)) = Some c"
| "signed_cid _ = None"

text \<open>The peer of the tetraplet behind a state of a trace; nothing when a CID on the way is in no store.\<close>

fun producer :: "'n cid_info \<Rightarrow> executed_state \<Rightarrow> string option" where
  "producer I (Call call) = Option.bind (call_result_get_cid call) (\<lambda>c.
     Option.bind (map_of (service_result_store I) c) (\<lambda>r. map_option peer_pk (map_of (tetraplet_store I) (tetraplet_cid r))))"
| "producer I (Canon (CanonExecuted c)) =
     Option.bind (map_of (canon_result_store I) c) (\<lambda>r. map_option peer_pk (map_of (tetraplet_store I) (crc_tetraplet r)))"
| "producer I _ = None"

definition cids_of_peer :: "'n cid_info \<Rightarrow> execution_trace \<Rightarrow> string \<Rightarrow> cid list" where
  "cids_of_peer I trace peer = List.map_filter (\<lambda>s. if producer I s = Some peer then signed_cid s else None) trace"

definition iterates :: "'a list \<Rightarrow> ('a \<rightharpoonup> 'b) \<Rightarrow> bool" where
  "iterates order m \<longleftrightarrow> distinct order \<and> set order = dom m"

lemma producer_signed: "producer I s = Some peer \<Longrightarrow> \<exists>c. signed_cid s = Some c"
  by (cases "(I, s)" rule: producer.cases) (auto split: bind_splits)

lemma collect_state_eq:
  "collect_state I s g = (case signed_cid s of
     None \<Rightarrow> (Ok (), g)
   | Some c \<Rightarrow> (case producer I s of
       None \<Rightarrow> (Panic, g)
     | Some peer \<Rightarrow> (case g peer of
         None \<Rightarrow> (Err (PeerIdNotFound peer), g)
       | Some info \<Rightarrow> (Ok (), g(peer \<mapsto> info\<lparr>pi_cids := pi_cids info @ [c]\<rparr>)))))"
  by (cases "(I, s)" rule: producer.cases)
    (auto simp: collect_state_def result_simps try_push_cid_def store_get_def split: option.splits bind_splits)

lemma cids_of_peer_simps:
  "cids_of_peer I [] peer = []"
  "cids_of_peer I (s # t) peer = (case signed_cid s of
      Some c \<Rightarrow> if producer I s = Some peer then c # cids_of_peer I t peer else cids_of_peer I t peer
    | None \<Rightarrow> cids_of_peer I t peer)"
  using producer_signed [of I s peer] by (auto simp: cids_of_peer_def map_filter_simps split: option.splits)

lemma collect_trace_outcome:
  "case collect_peers_cids_from_trace trace I g of
     (Ok _, g') \<Rightarrow> (\<forall>s \<in> set trace. signed_cid s \<noteq> None \<longrightarrow> (\<exists>peer. producer I s = Some peer \<and> peer \<in> dom g))
       \<and> g' = (\<lambda>peer. map_option (\<lambda>i. i\<lparr>pi_cids := pi_cids i @ cids_of_peer I trace peer\<rparr>) (g peer))
   | (Err e, _) \<Rightarrow> (\<exists>s \<in> set trace. \<exists>peer. producer I s = Some peer \<and> g peer = None \<and> e = PeerIdNotFound peer)
   | (Panic, _) \<Rightarrow> (\<exists>s \<in> set trace. signed_cid s \<noteq> None \<and> producer I s = None)"
proof (induction trace arbitrary: g)
  case Nil
  have "(\<lambda>peer. map_option (\<lambda>i. i) (g peer)) = g" by (intro ext) (simp add: option.map_ident)
  then show ?case by (simp add: cids_of_peer_simps)
next
  case (Cons s trace)
  show ?case
  proof (cases "\<exists>c peer info. signed_cid s = Some c \<and> producer I s = Some peer \<and> g peer = Some info")
    case False
    with Cons [of g] producer_signed [of I s] show ?thesis
      by (cases "signed_cid s"; cases "producer I s")
        (auto simp: collect_state_eq and_then_def cids_of_peer_simps split: result.splits prod.splits)
  next
    case True
    then obtain c peer info where s: "signed_cid s = Some c" "producer I s = Some peer" "g peer = Some info" by blast
    let ?g = "g(peer \<mapsto> info\<lparr>pi_cids := pi_cids info @ [c]\<rparr>)"
    have step: "collect_peers_cids_from_trace (s # trace) I g = collect_peers_cids_from_trace trace I ?g"
      using s by (simp add: collect_state_eq and_then_def)
    have "dom ?g = dom g" using s by auto
    moreover have "(\<lambda>p. map_option (\<lambda>i. i\<lparr>pi_cids := pi_cids i @ cids_of_peer I trace p\<rparr>) (?g p))
        = (\<lambda>p. map_option (\<lambda>i. i\<lparr>pi_cids := pi_cids i @ cids_of_peer I (s # trace) p\<rparr>) (g p))"
      using s by (intro ext) (simp add: cids_of_peer_simps)
    moreover obtain r g' where rec: "collect_peers_cids_from_trace trace I ?g = (r, g')" by fastforce
    ultimately show ?thesis
      unfolding step rec using Cons [of ?g, unfolded rec] s by (cases r) (simp_all, auto split: if_splits)
  qed
qed

section \<open>The verifier's table\<close>

text \<open>Every peer of a table is the peer of the key its entry holds.\<close>

definition table_wf :: "('pk, 'sg, 'kp) key_ops \<Rightarrow> (string \<rightharpoonup> peer_info) \<Rightarrow> bool" where
  "table_wf K g \<longleftrightarrow> (\<forall>peer info. g peer = Some info \<longrightarrow> to_peer_id K (pi_public_key info) = Ok peer)"

definition keys_of_peer :: "('pk, 'sg, 'kp) key_ops \<Rightarrow> signature_store \<Rightarrow> string \<Rightarrow> public_key set" where
  "keys_of_peer K sigs peer = {k \<in> dom sigs. to_peer_id K k = Ok peer}"

lemma validate_peer_id: "validate_key K k = Ok () \<Longrightarrow> \<exists>peer. to_peer_id K k = Ok peer"
  by (auto simp: validate_key_def to_peer_id_def result_simps)

lemma expect_peer_id_eq: "expect_peer_id K k = Ok p \<longleftrightarrow> to_peer_id K k = Ok p" "expect_peer_id K k \<noteq> Err e"
  by (auto simp: expect_peer_id_def split: result.splits)

lemma group_by_peer_Ok:
  assumes "\<forall>k \<in> set order. \<exists>peer. to_peer_id K k = Ok peer"
  shows "\<exists>g'. group_by_peer K sigs order g = (Ok (), g')
    \<and> (\<forall>peer. if keys_of_peer K sigs peer \<inter> set order = {} then g' peer = g peer
         else \<exists>k \<in> keys_of_peer K sigs peer. g' peer = Some (peer_info_new k (the (sigs k))))"
  using assms
proof (induction order arbitrary: g)
  case (Cons k order)
  show ?case
  proof (cases "sigs k")
    case None
    then have "keys_of_peer K sigs peer \<inter> set (k # order) = keys_of_peer K sigs peer \<inter> set order" for peer
      by (auto simp: keys_of_peer_def)
    with Cons None show ?thesis by simp
  next
    case (Some sg)
    obtain peer where peer: "to_peer_id K k = Ok peer" using Cons.prems by auto
    then have ex: "expect_peer_id K k = (Ok peer :: (string, data_verifier_error) result)" by (simp add: expect_peer_id_eq)
    let ?g = "g(peer \<mapsto> peer_info_new k sg)"
    obtain g' where g': "group_by_peer K sigs order ?g = (Ok (), g')"
      "\<And>p. if keys_of_peer K sigs p \<inter> set order = {} then g' p = ?g p
         else \<exists>k \<in> keys_of_peer K sigs p. g' p = Some (peer_info_new k (the (sigs k)))"
      using Cons.IH [of ?g] Cons.prems by (metis list.set_intros(2))
    have k: "k \<in> keys_of_peer K sigs p \<longleftrightarrow> p = peer" for p using Some peer by (auto simp: keys_of_peer_def)
    have "if keys_of_peer K sigs p \<inter> set (k # order) = {} then g' p = g p
         else \<exists>k \<in> keys_of_peer K sigs p. g' p = Some (peer_info_new k (the (sigs k)))" for p
    proof (cases "p = peer")
      case True
      with g'(2) [of p] k [of p] Some show ?thesis by (auto split: if_splits intro: bexI [of _ k])
    next
      case False
      with g'(2) [of p] k [of p] show ?thesis by (auto split: if_splits)
    qed
    moreover have "group_by_peer K sigs (k # order) g = (Ok (), g')"
      using g'(1) ex by (simp add: Some result_simps del: fun_upd_apply)
    ultimately show ?thesis by blast
  qed
qed simp

text \<open>What \<^verbatim>\<open>DataVerifier::new\<close> builds: the sorted CIDs of the trace by the peer that produced them.\<close>

lemma data_verifier_new_cases:
  assumes "iterates order (signatures data)"
  shows "case data_verifier_new K order data salt of
      Ok v \<Rightarrow> verifier_salt v = salt
        \<and> (\<forall>s \<in> set (data_trace data). signed_cid s \<noteq> None \<longrightarrow>
             (\<exists>peer. producer (data_cid_info data) s = Some peer \<and> peer \<in> dom (grouped_cids v)))
        \<and> (\<forall>peer. case grouped_cids v peer of
              None \<Rightarrow> keys_of_peer K (signatures data) peer = {}
            | Some info \<Rightarrow> pi_public_key info \<in> keys_of_peer K (signatures data) peer
                \<and> signatures data (pi_public_key info) = Some (pi_signature info)
                \<and> pi_cids info = sort (cids_of_peer (data_cid_info data) (data_trace data) peer))
    | Err e \<Rightarrow> (\<exists>k err. k \<in> dom (signatures data) \<and> validate_key K k = Err err \<and> e = MalformedKey err (b58_encode K k))
        \<or> (\<exists>s \<in> set (data_trace data). \<exists>peer. producer (data_cid_info data) s = Some peer
             \<and> keys_of_peer K (signatures data) peer = {} \<and> e = PeerIdNotFound peer)
    | Panic \<Rightarrow> (\<exists>s \<in> set (data_trace data). signed_cid s \<noteq> None \<and> producer (data_cid_info data) s = None)"
proof -
  let ?check = "\<lambda>k. res_map_err (\<lambda>e. MalformedKey e (b58_encode K k)) (validate_key K k)"
  have val: "validate_key K k \<noteq> Panic" for k
    by (auto simp: validate_key_def validate_with_key_format_def result_simps split: key_format.splits)
  consider (bad) e where "for_each ?check order = Err e" | (good) "for_each ?check order = Ok ()"
    using for_each_no_Panic [of order ?check] val by (cases "for_each ?check order") (auto simp: result_simps)
  then show ?thesis
  proof cases
    case bad
    have "\<exists>k \<in> set ks. ?check k = Err e" if "for_each ?check ks = Err e" for ks
      using that
    proof (induction ks)
      case (Cons k ks)
      then show ?case by (cases "?check k") auto
    qed simp
    with bad obtain k where k: "k \<in> set order" "?check k = Err e" by blast
    then obtain err where "validate_key K k = Err err" "e = MalformedKey err (b58_encode K k)"
      by (cases "validate_key K k") auto
    moreover have "k \<in> dom (signatures data)" using k(1) assms by (simp add: iterates_def)
    ultimately show ?thesis using bad by (auto simp: data_verifier_new_def)
  next
    case good
    then have "\<forall>k \<in> set order. \<exists>peer. to_peer_id K k = Ok peer" by (auto simp: result_simps intro: validate_peer_id)
    from group_by_peer_Ok [OF this, of "signatures data" Map.empty] obtain g where g:
      "group_by_peer K (signatures data) order Map.empty = (Ok (), g)"
      "\<And>peer. if keys_of_peer K (signatures data) peer \<inter> set order = {} then g peer = None
         else \<exists>k \<in> keys_of_peer K (signatures data) peer. g peer = Some (peer_info_new k (the (signatures data k)))"
      by auto
    have g2: "if keys_of_peer K (signatures data) peer = {} then g peer = None
         else \<exists>k \<in> keys_of_peer K (signatures data) peer. g peer = Some (peer_info_new k (the (signatures data k)))" for peer
      using g(2) [of peer] assms by (auto simp: iterates_def keys_of_peer_def split: if_splits)
    have dom: "g peer = None \<longleftrightarrow> keys_of_peer K (signatures data) peer = {}" for peer
      using g2 [of peer] by (auto split: if_splits)
    obtain r g' where rec: "collect_peers_cids_from_trace (data_trace data) (data_cid_info data) g = (r, g')" by fastforce
    have new: "data_verifier_new K order data salt = res_then r (\<lambda>_. Ok \<lparr>grouped_cids =
        (\<lambda>peer. map_option (\<lambda>info. info\<lparr>pi_cids := sort (pi_cids info)\<rparr>) (g' peer)), verifier_salt = salt\<rparr>)"
      using good g(1) rec by (simp add: data_verifier_new_def and_then_Ok)
    note col = collect_trace_outcome [of "data_trace data" "data_cid_info data" g, unfolded rec]
    show ?thesis
    proof (cases r)
      case (Ok u)
      have "case map_option (\<lambda>info. info\<lparr>pi_cids := sort (pi_cids info)\<rparr>) (g' peer) of
              None \<Rightarrow> keys_of_peer K (signatures data) peer = {}
            | Some info \<Rightarrow> pi_public_key info \<in> keys_of_peer K (signatures data) peer
                \<and> signatures data (pi_public_key info) = Some (pi_signature info)
                \<and> pi_cids info = sort (cids_of_peer (data_cid_info data) (data_trace data) peer)" for peer
        using col Ok g2 [of peer] by (auto simp: peer_info_new_def keys_of_peer_def split: if_splits)
      with col Ok show ?thesis unfolding new by (auto simp: dom_def)
    next
      case (Err e)
      with col show ?thesis unfolding new by (auto simp: dom)
    next
      case Panic
      with col show ?thesis unfolding new by auto
    qed
  qed
qed

section \<open>Multisets of CIDs\<close>

lemma to_count_map_eq: "to_count_map cids c = (if c \<in> set cids then Some (count (mset cids) c) else None)"
proof -
  let ?step = "\<lambda>c (m :: cid \<rightharpoonup> nat). m(c \<mapsto> (case m c of None \<Rightarrow> 0 | Some n \<Rightarrow> n) + 1)"
  have "fold ?step xs Map.empty c = (if c \<in> set xs then Some (count (mset xs) c) else None)" for xs
    by (induction xs rule: rev_induct) (auto simp: count_eq_zero_iff split: option.splits if_splits)
  then show ?thesis by simp
qed

definition enumerates :: "(cid set \<Rightarrow> cid list) \<Rightarrow> bool" where
  "enumerates order \<longleftrightarrow> (\<forall>A. finite A \<longrightarrow> distinct (order A) \<and> set (order A) = A)"

lemma is_multisubset_eq:
  assumes "enumerates order"
  shows "is_multisubset (order (set ys)) (to_count_map xs) (to_count_map ys) \<longleftrightarrow> mset ys \<subseteq># mset xs"
proof -
  have "set (order (set ys)) = set ys" using assms by (simp add: enumerates_def)
  moreover have "(case to_count_map xs c of None \<Rightarrow> 0 | Some n \<Rightarrow> n) = count (mset xs) c" for c
    by (simp add: to_count_map_eq count_eq_zero_iff del: to_count_map.simps)
  ultimately have "is_multisubset (order (set ys)) (to_count_map xs) (to_count_map ys)
      \<longleftrightarrow> (\<forall>c \<in> set ys. count (mset ys) c \<le> count (mset xs) c)"
    by (simp add: is_multisubset_def list_all_iff to_count_map_eq not_less del: to_count_map.simps)
  then show ?thesis by (auto simp: subseteq_mset_def count_eq_zero_iff) (metis count_eq_zero_iff le0 set_mset_mset)
qed

lemma check_multiset_outcome:
  assumes "enumerates order" "to_peer_id K (pi_public_key b) = Ok peer"
  shows "check_cid_multiset_invariant K order a b
    = (if mset (pi_cids b) \<subseteq># mset (pi_cids a) then Ok () else Err (MergeMismatch peer (pi_cids a) (pi_cids b)))"
  using assms(2) is_multisubset_eq [OF assms(1), of "pi_cids b" "pi_cids a"]
  by (simp add: check_cid_multiset_invariant_def Let_def expect_peer_id_def del: to_count_map.simps)

text \<open>The entry that a merge keeps for a peer, and when the two entries of a peer are consistent.\<close>

definition merged_info :: "peer_info option \<Rightarrow> peer_info option \<Rightarrow> peer_info option" where
  "merged_info ours theirs = (case (ours, theirs) of
     (Some a, Some b) \<Rightarrow> Some (if length (pi_cids a) < length (pi_cids b) then b else a)
   | (None, x) \<Rightarrow> x
   | (x, None) \<Rightarrow> x)"

definition consistent_infos :: "peer_info option \<Rightarrow> peer_info option \<Rightarrow> bool" where
  "consistent_infos ours theirs \<longleftrightarrow> (\<forall>a b. ours = Some a \<and> theirs = Some b \<longrightarrow>
     mset (pi_cids a) \<subseteq># mset (pi_cids b) \<or> mset (pi_cids b) \<subseteq># mset (pi_cids a))"

lemma subset_mset_length: "mset xs \<subseteq># mset ys \<Longrightarrow> length xs \<le> length ys"
  using size_mset_mono [of "mset xs" "mset ys"] by simp

lemma subset_mset_shorter: "mset xs \<subseteq># mset ys \<Longrightarrow> \<not> length xs < length ys \<Longrightarrow> mset ys \<subseteq># mset xs"
  by (metis mset_subset_size not_less_iff_gr_or_eq size_mset subset_mset.le_less subset_mset.order_refl)

lemma check_larger:
  assumes "enumerates order" "to_peer_id K (pi_public_key a) = Ok peer" "to_peer_id K (pi_public_key b) = Ok peer"
    and "(l, s) = (if length (pi_cids a) < length (pi_cids b) then (b, a) else (a, b))"
  shows "check_cid_multiset_invariant K order l s
    = (if consistent_infos (Some a) (Some b) then Ok () else Err (MergeMismatch peer (pi_cids l) (pi_cids s)))"
  using assms subset_mset_length [of "pi_cids a" "pi_cids b"] subset_mset_length [of "pi_cids b" "pi_cids a"]
    subset_mset_shorter [of "pi_cids a" "pi_cids b"]
  by (auto simp: consistent_infos_def check_multiset_outcome split: if_splits)

lemma merge_peers_outcome:
  assumes "enumerates order" "table_wf K ours" "table_wf K theirs" "distinct peers"
  shows "case merge_peers K order theirs peers ours of
      (Ok _, g) \<Rightarrow> (\<forall>peer \<in> set peers. consistent_infos (ours peer) (theirs peer))
         \<and> g = (\<lambda>peer. if peer \<in> set peers then merged_info (ours peer) (theirs peer) else ours peer)
    | (Err e, _) \<Rightarrow> (\<exists>peer \<in> set peers. \<not> consistent_infos (ours peer) (theirs peer)
         \<and> (\<exists>l s. e = MergeMismatch peer l s))
    | (Panic, _) \<Rightarrow> False"
  using assms(2,4)
proof (induction peers arbitrary: ours)
  case (Cons peer peers)
  show ?case
  proof (cases "theirs peer")
    case None
    then have "merged_info (ours peer) None = ours peer" "consistent_infos (ours peer) None"
      by (auto simp: merged_info_def consistent_infos_def split: option.splits)
    with None Cons.IH [of ours] Cons.prems show ?thesis
      by (cases "merge_peers K order theirs peers ours"; cases "fst (merge_peers K order theirs peers ours)") (auto simp: fun_eq_iff)
  next
    case (Some b)
    let ?g = "ours(peer := merged_info (ours peer) (theirs peer))"
    have pk: "to_peer_id K (pi_public_key b) = Ok peer" using assms(3) Some by (simp add: table_wf_def)
    have wf: "table_wf K ?g" using Cons.prems(1) pk Some by (auto simp: table_wf_def merged_info_def split: option.splits)
    have step: "merge_peers K order theirs (peer # peers) ours
        = (if consistent_infos (ours peer) (theirs peer) then merge_peers K order theirs peers ?g
           else (case ours peer of Some a \<Rightarrow> (if length (pi_cids a) < length (pi_cids b)
               then (Err (MergeMismatch peer (pi_cids b) (pi_cids a)), ?g) else (Err (MergeMismatch peer (pi_cids a) (pi_cids b)), ?g))
             | None \<Rightarrow> (Panic, ?g)))"
    proof (cases "ours peer")
      case None
      with Some show ?thesis by (simp add: merged_info_def consistent_infos_def)
    next
      case (Some a)
      have pka: "to_peer_id K (pi_public_key a) = Ok peer" using Cons.prems(1) Some by (simp add: table_wf_def)
      with Some \<open>theirs peer = Some b\<close> show ?thesis
        using check_larger [OF assms(1) pka pk, of b a] check_larger [OF assms(1) pka pk, of a b]
        by (auto simp: merged_info_def result_simps)
    qed
    show ?thesis
    proof (cases "consistent_infos (ours peer) (theirs peer)")
      case True
      obtain r g where rec: "merge_peers K order theirs peers ?g = (r, g)" by fastforce
      have nin: "peer \<notin> set peers" using Cons.prems(2) by simp
      show ?thesis
        using Cons.IH [OF wf] Cons.prems(2) True unfolding step rec
        by (cases r) (fastforce simp: fun_eq_iff split: if_splits)+
    next
      case False
      with step show ?thesis by (auto simp: consistent_infos_def split: option.splits)
    qed
  qed
qed simp

text \<open>The store a merge returns: one signature for every entry, because no two peers share a key.\<close>

lemma fold_put_other:
  "(\<forall>info \<in> set is. pi_public_key info \<noteq> k) \<Longrightarrow>
     fold (\<lambda>info. signature_put (pi_public_key info) (pi_signature info)) is m k = m k"
  by (induction "is" arbitrary: m) (auto simp: signature_put_def)

lemma fold_put_infos:
  assumes "table_wf K g"
  shows "fold (\<lambda>info. signature_put (pi_public_key info) (pi_signature info)) (List.map_filter g order) Map.empty k = Some sg
    \<longleftrightarrow> (\<exists>peer \<in> set order. \<exists>info. g peer = Some info \<and> pi_public_key info = k \<and> pi_signature info = sg)"
proof (induction order rule: rev_induct)
  case (snoc peer order)
  show ?case
  proof (cases "g peer")
    case None
    with snoc show ?thesis by (auto simp: List.map_filter_def)
  next
    case (Some i)
    have "p = peer" if "g p = Some j" "pi_public_key j = pi_public_key i" for p j
      using assms that Some by (metis table_wf_def result.inject(1))
    then have un: "(\<exists>p \<in> set order. \<exists>j. g p = Some j \<and> pi_public_key j = pi_public_key i \<and> pi_signature j = sg) \<Longrightarrow> pi_signature i = sg"
      using Some by auto
    show ?thesis
    proof (cases "k = pi_public_key i")
      case True
      with Some un show ?thesis by (auto simp: List.map_filter_def signature_put_def)
    next
      case False
      with Some snoc show ?thesis by (auto simp: List.map_filter_def signature_put_def)
    qed
  qed
qed (simp add: List.map_filter_def)

section \<open>Documented behaviour of keys\<close>

definition keys_documented :: "('pk, 'sg, 'kp) key_ops \<Rightarrow> bool" where
  "keys_documented K \<longleftrightarrow> (\<forall>pk. pk_decode K (pk_encode K pk) = Inr pk) \<and> (\<forall>sg. sg_decode K (sg_encode K sg) = Inr sg)
     \<and> (\<forall>kp m sg. kp_sign K kp m = Inr sg \<longrightarrow> pk_verify K (kp_public K kp) m sg = Inr ())"

text \<open>An instance: a signature is the name of the signer before the message.\<close>

definition plain_keys :: "(string, string, string) key_ops" where
  "plain_keys = \<lparr>pk_decode = Inr, pk_encode = (\<lambda>k. k), pk_format = (\<lambda>_. Ed25519), pk_peer_id = (\<lambda>k. k),
     pk_verify = (\<lambda>k m sg. if sg = k @ m then Inr () else Inl ''mismatch''), sg_decode = Inr, sg_encode = (\<lambda>sg. sg),
     kp_public = (\<lambda>k. k), kp_format = (\<lambda>_. Ed25519), kp_sign = (\<lambda>k m. Inr (k @ m)),
     borsh_salted = (\<lambda>cids salt. concat cids @ salt), b58_encode = (\<lambda>b. b)\<rparr>"

lemma plain_keys_documented: "keys_documented plain_keys"
  by (simp add: keys_documented_def plain_keys_def)

text \<open>The orders in which the verification step iterates over its tables.\<close>

definition orders_fit :: "('pk, 'sg, 'kp) key_ops \<Rightarrow> iteration_orders \<Rightarrow> 'n interpreter_data \<Rightarrow> string \<Rightarrow> bool" where
  "orders_fit K io current_data salt \<longleftrightarrow> iterates (current_keys io) (signatures current_data)
     \<and> (\<forall>v. data_verifier_new K (current_keys io) current_data salt = Ok v \<longrightarrow> iterates (current_peers io) (grouped_cids v))"

definition empty_info :: "'n cid_info" where
  "empty_info = \<lparr>value_store = [], tetraplet_store = [], canon_element_store = [], canon_result_store = [], service_result_store = []\<rparr>"

definition empty_data :: "'n interpreter_data" where
  "empty_data = \<lparr>data_trace = [], last_call_request_id = 0, data_cid_info = empty_info, signatures = Map.empty\<rparr>"

text \<open>A piece of data with one signed call result.\<close>

definition example_tetraplet :: security_tetraplet where
  "example_tetraplet = \<lparr>peer_pk = ''alice'', service_id = ''s'', function_name = ''f'', lens = []\<rparr>"

definition example_service_result :: service_result_cid_aggregate where
  "example_service_result = \<lparr>value_cid = plain_cid ''1'', argument_hash = ''h'', tetraplet_cid = plain_cid ''alice,s,f,''\<rparr>"

definition example_service_cid :: cid where
  "example_service_cid = plain_cid (concat [plain_cid ''1'', '','', ''h'', '','', plain_cid ''alice,s,f,''])"

definition example_info :: "unit cid_info" where
  "example_info = \<lparr>value_store = [(plain_cid ''1'', \<lparr>raw = ''1'', parsed = None\<rparr>)],
     tetraplet_store = [(plain_cid ''alice,s,f,'', example_tetraplet)], canon_element_store = [], canon_result_store = [],
     service_result_store = [(example_service_cid, example_service_result)]\<rparr>"

definition example_data :: "unit interpreter_data" where
  "example_data = \<lparr>data_trace = [Call (Executed (Scalar example_service_cid))], last_call_request_id = 0,
     data_cid_info = example_info, signatures = [''alice'' \<mapsto> ''alice'' @ example_service_cid @ ''s'']\<rparr>"

definition example_orders :: iteration_orders where
  "example_orders = \<lparr>prev_keys = [], current_keys = [''alice''], current_peers = [''alice''], merged_peers = [''alice''], counted_cids = (\<lambda>_. [])\<rparr>"

lemma example_info_verifies: "cid_info_verify plain_cids plain_serde (data_cid_info example_data) = Ok ()"
  unfolding cid_info_verify_iff [THEN conjunct1]
  using plain_names_bytes [of "''1''"] plain_names_bytes [of "''alice,s,f,''"]
    plain_names_bytes [of "concat [plain_cid ''1'', '','', ''h'', '','', plain_cid ''alice,s,f,'']"]
  by (simp add: example_data_def example_info_def cid_info_genuine_def store_genuine_def references_closed_def plain_serde_def
      example_tetraplet_def example_service_result_def example_service_cid_def)

definition example_table :: "string \<rightharpoonup> peer_info" where
  "example_table = [''alice'' \<mapsto> \<lparr>pi_public_key = ''alice'', pi_signature = ''alice'' @ example_service_cid @ ''s'', pi_cids = [example_service_cid]\<rparr>]"

lemma example_verifier:
  "data_verifier_new plain_keys (current_keys example_orders) example_data ''s'' = Ok \<lparr>grouped_cids = example_table, verifier_salt = ''s''\<rparr>"
  "data_verifier_new plain_keys (prev_keys example_orders) (empty_data :: unit interpreter_data) ''s'' = Ok \<lparr>grouped_cids = Map.empty, verifier_salt = ''s''\<rparr>"
  "data_verifier_verify plain_keys (current_peers example_orders) \<lparr>grouped_cids = example_table, verifier_salt = ''s''\<rparr> = Ok ()"
  by (simp_all add: data_verifier_new_def example_orders_def plain_keys_def validate_key_def validate_with_key_format_def example_data_def
      example_info_def expect_peer_id_def to_peer_id_def and_then_def lift_def modify_def ret_def peer_info_new_def collect_state_eq
      example_service_result_def example_tetraplet_def example_table_def fun_eq_iff empty_data_def data_verifier_verify_def
      List.map_filter_def verify_peer_def public_key_verify_def salted_serialize_def)

lemma example_merge:
  "verifier_merge plain_keys (counted_cids example_orders) (current_peers example_orders) (merged_peers example_orders)
     \<lparr>grouped_cids = Map.empty, verifier_salt = ''s''\<rparr> \<lparr>grouped_cids = example_table, verifier_salt = ''s''\<rparr>
   = Ok [''alice'' \<mapsto> ''alice'' @ example_service_cid @ ''s'']"
  by (simp add: verifier_merge_def example_orders_def example_table_def List.map_filter_def signature_put_def)

section \<open>Properties\<close>

text \<open>
  C33. What the verification step guarantees: when it accepts the data of another peer, all stored values
  hash to their CIDs and all references between the stores resolve, and every state of the trace that
  has a signed CID (a call result in a scalar or a stream, a failed call, a canonicalized stream) is
  covered by a valid signature of the peer that produced it, made with a key of the data's signature
  store over all signed CIDs of the trace this peer produced. The result of a call whose output is not
  used has no signed CID, and nothing is shown for it.
\<close>

theorem verified_data_is_signed:
  assumes "orders_fit K io current_data salt"
    and "verify_step CO S K io prev_data current_data salt = Ok store"
  shows "cid_info_genuine CO S (data_cid_info current_data) \<and> references_closed (data_cid_info current_data)
    \<and> (\<forall>s \<in> set (data_trace current_data). \<forall>c. signed_cid s = Some c \<longrightarrow>
        (\<exists>peer k sg. producer (data_cid_info current_data) s = Some peer
          \<and> k \<in> keys_of_peer K (signatures current_data) peer \<and> signatures current_data k = Some sg
          \<and> c \<in> set (cids_of_peer (data_cid_info current_data) (data_trace current_data) peer)
          \<and> public_key_verify K k (sort (cids_of_peer (data_cid_info current_data) (data_trace current_data) peer)) salt sg = Ok ()))"
proof -
  obtain v where info: "cid_info_verify CO S (data_cid_info current_data) = Ok ()"
    and v: "data_verifier_new K (current_keys io) current_data salt = Ok v"
    and sigs: "data_verifier_verify K (current_peers io) v = Ok ()"
    using assms(2) by (auto simp: verify_step_def result_simps)
  have order: "iterates (current_peers io) (grouped_cids v)" "iterates (current_keys io) (signatures current_data)"
    using assms(1) v by (simp_all add: orders_fit_def)
  note new = data_verifier_new_cases [OF order(2), where K = K and salt = salt, unfolded v, simplified]
  have "\<exists>peer k sg. producer (data_cid_info current_data) s = Some peer
          \<and> k \<in> keys_of_peer K (signatures current_data) peer \<and> signatures current_data k = Some sg
          \<and> c \<in> set (cids_of_peer (data_cid_info current_data) (data_trace current_data) peer)
          \<and> public_key_verify K k (sort (cids_of_peer (data_cid_info current_data) (data_trace current_data) peer)) salt sg = Ok ()"
    if s: "s \<in> set (data_trace current_data)" "signed_cid s = Some c" for s c
  proof -
    obtain peer i where peer: "producer (data_cid_info current_data) s = Some peer" "grouped_cids v peer = Some i"
      using new s by fastforce
    have i: "pi_public_key i \<in> keys_of_peer K (signatures current_data) peer"
        "signatures current_data (pi_public_key i) = Some (pi_signature i)"
        "pi_cids i = sort (cids_of_peer (data_cid_info current_data) (data_trace current_data) peer)"
      using new peer(2) by (auto dest!: spec [of _ peer] simp: all_conj_distrib)
    have "peer \<in> set (current_peers io)" using order(1) peer(2) by (auto simp: iterates_def)
    then have "i \<in> set (List.map_filter (grouped_cids v) (current_peers io))"
      using peer(2) by (force simp: List.map_filter_def)
    with sigs new have "verify_peer K salt i = Ok ()" by (simp add: data_verifier_verify_def result_simps)
    then have "public_key_verify K (pi_public_key i) (pi_cids i) salt (pi_signature i) = Ok ()"
      by (auto simp: verify_peer_def result_simps split: result.splits)
    moreover have "c \<in> set (cids_of_peer (data_cid_info current_data) (data_trace current_data) peer)"
      using s peer(1) by (force simp: cids_of_peer_def List.map_filter_def)
    ultimately show ?thesis using peer(1) i by auto
  qed
  with info cid_info_verify_iff show ?thesis by blast
qed

theorem verified_data_is_signed_witness:
  "\<exists>k sg. signatures example_data k = Some sg \<and> public_key_verify plain_keys k (sort [example_service_cid]) ''s'' sg = Ok ()"
proof -
  have cids: "cids_of_peer (data_cid_info example_data) (data_trace example_data) ''alice'' = [example_service_cid]"
    by (simp add: example_data_def example_info_def cids_of_peer_def List.map_filter_def example_tetraplet_def example_service_result_def)
  have "verify_step plain_cids plain_serde plain_keys example_orders empty_data example_data ''s'' = Ok [''alice'' \<mapsto> ''alice'' @ example_service_cid @ ''s'']"
    by (simp add: verify_step_def example_info_verifies example_verifier example_merge)
  moreover have "orders_fit plain_keys example_orders example_data ''s''"
    using example_verifier(1)
    by (auto simp: orders_fit_def iterates_def example_data_def example_orders_def example_table_def)
  moreover have "Call (Executed (Scalar example_service_cid)) \<in> set (data_trace example_data)"
      "producer (data_cid_info example_data) (Call (Executed (Scalar example_service_cid))) = Some ''alice''"
    by (simp_all add: example_data_def example_info_def example_service_result_def example_tetraplet_def)
  ultimately show ?thesis
    using verified_data_is_signed [of plain_keys example_orders example_data "''s''" plain_cids plain_serde empty_data] cids
    by fastforce
qed

text \<open>
  C34. Merging the signatures of two pieces of data: it succeeds exactly when for every peer that both know
  one multiset of CIDs contains the other, and then holds for every peer the key and the signature of the
  larger multiset (ours, when they have the same size); otherwise it reports such a peer. It never panics.
\<close>

theorem verifier_merge_correct:
  assumes "enumerates order" "table_wf K (grouped_cids self)" "table_wf K (grouped_cids other)"
    and "iterates other_order (grouped_cids other)"
    and "set result_order = dom (grouped_cids self) \<union> dom (grouped_cids other)"
  shows "case verifier_merge K order other_order result_order self other of
      Ok store \<Rightarrow> (\<forall>peer. consistent_infos (grouped_cids self peer) (grouped_cids other peer))
        \<and> (\<forall>k sg. store k = Some sg \<longleftrightarrow> (\<exists>peer info. merged_info (grouped_cids self peer) (grouped_cids other peer) = Some info
             \<and> pi_public_key info = k \<and> pi_signature info = sg))
    | Err e \<Rightarrow> (\<exists>peer larger smaller. \<not> consistent_infos (grouped_cids self peer) (grouped_cids other peer)
        \<and> e = MergeMismatch peer larger smaller)
    | Panic \<Rightarrow> False"
proof -
  obtain r g where rec: "merge_peers K order (grouped_cids other) other_order (grouped_cids self) = (r, g)" by fastforce
  have ord: "distinct other_order" "set other_order = dom (grouped_cids other)" using assms(4) by (simp_all add: iterates_def)
  note out = merge_peers_outcome [OF assms(1-3) ord(1), unfolded rec]
  show ?thesis
  proof (cases r)
    case (Ok u)
    have gm: "g peer = merged_info (grouped_cids self peer) (grouped_cids other peer)" for peer
      using out Ok ord(2) by (cases "grouped_cids other peer") (auto simp: merged_info_def dom_def split: option.splits)
    have cons: "consistent_infos (grouped_cids self peer) (grouped_cids other peer)" for peer
      using out Ok ord(2) by (cases "grouped_cids other peer") (auto simp: consistent_infos_def dom_def)
    have wf: "table_wf K g"
      using assms(2,3) by (auto simp: table_wf_def gm merged_info_def split: option.splits if_splits)
    have dom: "dom g = set result_order" using assms(5) by (auto simp: gm merged_info_def split: option.splits)
    have store: "fold (\<lambda>info. signature_put (pi_public_key info) (pi_signature info)) (List.map_filter g result_order) Map.empty k = Some sg
        \<longleftrightarrow> (\<exists>peer info. g peer = Some info \<and> pi_public_key info = k \<and> pi_signature info = sg)" for k sg
      by (simp add: fold_put_infos [OF wf] dom [symmetric]) blast
    show ?thesis using rec Ok cons gm store by (simp add: verifier_merge_def)
  next
    case (Err e)
    with out rec show ?thesis by (auto simp: verifier_merge_def)
  next
    case Panic
    with out show ?thesis by simp
  qed
qed

theorem verifier_merge_correct_witness:
  "case verifier_merge plain_keys sorted_list_of_set [] [''alice'']
      \<lparr>grouped_cids = [''alice'' \<mapsto> \<lparr>pi_public_key = ''alice'', pi_signature = ''sig'', pi_cids = [''c'']\<rparr>], verifier_salt = []\<rparr>
      \<lparr>grouped_cids = Map.empty, verifier_salt = []\<rparr> of
    Ok store \<Rightarrow> store ''alice'' = Some ''sig'' | _ \<Rightarrow> False"
  using verifier_merge_correct [where K = plain_keys and order = sorted_list_of_set and other_order = "[]" and result_order = "[''alice'']"
      and self = "\<lparr>grouped_cids = [''alice'' \<mapsto> \<lparr>pi_public_key = ''alice'', pi_signature = ''sig'', pi_cids = [''c'']\<rparr>], verifier_salt = []\<rparr>"
      and other = "\<lparr>grouped_cids = Map.empty, verifier_salt = []\<rparr>"]
  by (simp add: enumerates_def table_wf_def plain_keys_def to_peer_id_def iterates_def merged_info_def verifier_merge_def
      List.map_filter_def signature_put_def)

text \<open>
  C35. Signing and verifying fit together: when the interpreter has signed the CIDs it registered for the
  current peer, the signature store holds under its public key a signature that the verification
  accepts for these CIDs in whatever order they are found; other keys keep their signatures.
\<close>

theorem produced_signature_verifies:
  assumes "keys_documented K"
    and "sign_produced_cids K tracker salt keypair sigs = (Ok () :: (unit, 'n execution_error) result, sigs')"
  shows "\<exists>sg. sigs' (key_pair_public K keypair) = Some sg
    \<and> (\<forall>cids. mset cids = mset (peer_cids tracker) \<longrightarrow> public_key_verify K (key_pair_public K keypair) (sort cids) salt sg = Ok ())
    \<and> (\<forall>k. k \<noteq> key_pair_public K keypair \<longrightarrow> sigs' k = sigs k)"
proof -
  obtain sg where sg: "kp_sign K keypair (salted_serialize K (sort (peer_cids tracker)) salt) = Inr sg"
    "sigs' = sigs(key_pair_public K keypair \<mapsto> sg_encode K sg)"
    using assms(2)
    by (cases "kp_sign K keypair (salted_serialize K (sort (peer_cids tracker)) salt)")
      (auto simp: sign_produced_cids_def gen_signature_def sign_cids_def result_simps signature_put_def Let_def)
  have "public_key_verify K (key_pair_public K keypair) (sort cids) salt (sg_encode K sg) = Ok ()"
    if "mset cids = mset (peer_cids tracker)" for cids
  proof -
    have "sort cids = sort (peer_cids tracker)" using that by (metis sorted_list_of_multiset_mset)
    with assms(1) sg(1) show ?thesis
      by (simp add: public_key_verify_def key_pair_public_def keys_documented_def)
  qed
  with sg(2) show ?thesis by simp
qed

theorem produced_signature_verifies_witness:
  "\<exists>sg. public_key_verify plain_keys ''alice'' (sort [''b'', ''a'']) ''salt'' sg = Ok ()"
proof -
  have "sign_produced_cids plain_keys \<lparr>current_peer_id = ''alice'', peer_cids = [''a'', ''b'']\<rparr> ''salt'' ''alice'' Map.empty
      = (Ok () :: (unit, unit execution_error) result, [''alice'' \<mapsto> ''alice'' @ concat (sort [''a'', ''b'']) @ ''salt''])"
    by (simp add: sign_produced_cids_def gen_signature_def sign_cids_def result_simps signature_put_def Let_def
        plain_keys_def salted_serialize_def key_pair_public_def)
  from produced_signature_verifies [OF plain_keys_documented this] show ?thesis
    by (auto simp: key_pair_public_def plain_keys_def dest!: spec [of _ "[''b'', ''a'']"])
qed



end
