(* ===== verification/Execution_Context.thy ===== *)
theory Execution_Context
  imports Air_Ast Scalar_Variables Data_Verification
begin

text \<open>
  The state of an execution: what a fold iterates over (\<^verbatim>\<open>value_types/iterable.rs\<close> and
  \<^verbatim>\<open>value_types/iterable\<close>, \<^verbatim>\<open>instructions/fold/fold_state.rs\<close>), the errors scripts can read
  (\<^verbatim>\<open>execution_context/instruction_error\<close>), the CIDs of an execution (\<^verbatim>\<open>execution_context/cid_state.rs\<close>) and
  the context itself (\<^verbatim>\<open>execution_context/context.rs\<close>).

  Parameters are gathered in the record \<open>air_ops\<close>: the numbers, CIDs and bidirectional maps of the theories
  below, the text and the parser of JSON values, the serializations of the \<^verbatim>\<open>serde\<close> packages (among them the
  derived ones of \<^verbatim>\<open>CallServiceFailed\<close>, to and from a JSON value), the texts
  \<^verbatim>\<open>thiserror\<close> and \<^verbatim>\<open>derive(Debug)\<close> generate, and the order in which a \<^verbatim>\<open>HashMap\<close> of map keys is iterated.
\<close>

section \<open>Parameters\<close>

record ('n, 'bm) air_ops =
  numbers :: "'n number_ops"
  cids :: cid_ops
  serdes :: serde_ops
  bimaps :: "'bm bimap_ops"
  json_text :: "'n jvalue \<Rightarrow> string"
  json_parse :: "string \<Rightarrow> string + 'n jvalue"
  json_value :: "'n jvalue to_json"
  json_values :: "'n jvalue list to_json"
  arguments_repr :: "'n jvalue list \<Rightarrow> string + bytes"
  tetraplets_repr :: "security_tetraplet list list \<Rightarrow> string + bytes"
  key_order :: "stream_map_key set \<Rightarrow> stream_map_key list"
  failed_to_value :: "int \<Rightarrow> string \<Rightarrow> 'n jvalue"
  failed_from_value :: "'n jvalue \<Rightarrow> string + int \<times> string"
  error_text :: "'n execution_error \<Rightarrow> string"
  tetraplet_debug :: "security_tetraplet \<Rightarrow> string"

section \<open>Iterables\<close>

text \<open>\<^verbatim>\<open>SecurityTetraplet::add_lens\<close> of the \<^verbatim>\<open>marine\<close> package appends to the lens.\<close>

definition add_lens :: "string \<Rightarrow> security_tetraplet \<Rightarrow> security_tetraplet" where
  "add_lens l t = t\<lparr>lens := lens t @ l\<rparr>"

datatype 'n iterable_item =
    RefValue "'n jvalue" security_tetraplet trace_pos provenance
  | RcValue "'n jvalue" security_tetraplet trace_pos provenance

fun item_pos :: "'n iterable_item \<Rightarrow> trace_pos" where
  "item_pos (RefValue _ _ pos _) = pos"
| "item_pos (RcValue _ _ pos _) = pos"

fun item_provenance :: "'n iterable_item \<Rightarrow> provenance" where
  "item_provenance (RefValue _ _ _ prov) = prov"
| "item_provenance (RcValue _ _ _ prov) = prov"

fun into_resolved_result :: "'n iterable_item \<Rightarrow> 'n value_aggregate" where
  "into_resolved_result (RefValue v tetraplet pos prov) = value_aggregate_new v tetraplet pos prov"
| "into_resolved_result (RcValue v tetraplet pos prov) = value_aggregate_new v tetraplet pos prov"

text \<open>The implementations of the trait \<^verbatim>\<open>Iterable\<close>; every one has its cursor as the last argument.\<close>

datatype 'n iterable_value =
    ItResolvedCall "'n value_aggregate" nat nat
  | ItLambdaResult "'n jvalue list" security_tetraplet provenance nat
  | ItCanonStream "'n canon_stream" nat
  | ItCanonStreamMap "'n value_aggregate list" nat
  | ItVecResolvedCall "'n value_aggregate list" nat

fun iterable_cursor :: "'n iterable_value \<Rightarrow> nat" where
  "iterable_cursor (ItResolvedCall _ _ cursor) = cursor"
| "iterable_cursor (ItLambdaResult _ _ _ cursor) = cursor"
| "iterable_cursor (ItCanonStream _ cursor) = cursor"
| "iterable_cursor (ItCanonStreamMap _ cursor) = cursor"
| "iterable_cursor (ItVecResolvedCall _ cursor) = cursor"

fun iterable_set_cursor :: "nat \<Rightarrow> 'n iterable_value \<Rightarrow> 'n iterable_value" where
  "iterable_set_cursor c (ItResolvedCall v n _) = ItResolvedCall v n c"
| "iterable_set_cursor c (ItLambdaResult vs t p _) = ItLambdaResult vs t p c"
| "iterable_set_cursor c (ItCanonStream s _) = ItCanonStream s c"
| "iterable_set_cursor c (ItCanonStreamMap vs _) = ItCanonStreamMap vs c"
| "iterable_set_cursor c (ItVecResolvedCall vs _) = ItVecResolvedCall vs c"

text \<open>The length \<^verbatim>\<open>foldable_next!\<close> is given.\<close>

fun iterable_len :: "'n iterable_value \<Rightarrow> nat" where
  "iterable_len (ItResolvedCall _ n _) = n"
| "iterable_len (ItLambdaResult vs _ _ _) = length vs"
| "iterable_len (ItCanonStream s _) = length (cs_values s)"
| "iterable_len (ItCanonStreamMap vs _) = length vs"
| "iterable_len (ItVecResolvedCall vs _) = length vs"

definition iterable_next :: "'n iterable_value \<Rightarrow> bool \<times> 'n iterable_value" where
  "iterable_next self =
     (if iterable_cursor self + 1 < iterable_len self
      then (True, iterable_set_cursor (iterable_cursor self + 1) self) else (False, self))"

definition iterable_prev :: "'n iterable_value \<Rightarrow> bool \<times> 'n iterable_value" where
  "iterable_prev self =
     (if 1 \<le> iterable_cursor self
      then (True, iterable_set_cursor (iterable_cursor self - 1) self) else (False, self))"

definition index_lens :: "nat \<Rightarrow> string" where
  "index_lens cursor = ''.$.['' @ show_nat cursor @ '']''"

definition peek_resolved_call :: "'n value_aggregate \<Rightarrow> nat \<Rightarrow> nat \<Rightarrow> ('n iterable_item option, 'e) result" where
  "peek_resolved_call call_result n cursor =
     (if n = 0 then Ok None else
      let (v, tetraplet, pos) = as_inner_parts call_result; prov = get_provenance call_result in
      case v of
        JArray array \<Rightarrow> res_then (index_vec array cursor) (\<lambda>jvalue.
          Ok (Some (RefValue jvalue (add_lens (index_lens cursor) tetraplet) pos prov)))
      | _ \<Rightarrow> Panic)"

definition peek_lambda_result ::
    "'n jvalue list \<Rightarrow> security_tetraplet \<Rightarrow> provenance \<Rightarrow> nat \<Rightarrow> ('n iterable_item option, 'e) result" where
  "peek_lambda_result jvalues tetraplet prov cursor =
     (if jvalues = [] then Ok None else
      res_then (index_vec jvalues cursor) (\<lambda>jvalue.
      Ok (Some (RefValue jvalue (add_lens (index_lens cursor) tetraplet) 0 prov))))"

definition ref_item :: "'n value_aggregate \<Rightarrow> 'n iterable_item" where
  "ref_item v = RefValue (get_result v) (get_tetraplet v) (get_trace_pos v) (get_provenance v)"

definition peek_canon_stream :: "'n canon_stream \<Rightarrow> nat \<Rightarrow> ('n iterable_item option, 'e) result" where
  "peek_canon_stream s cursor =
     (if cs_values s = [] then Ok None else
      res_then (unwrap (canon_stream_nth cursor s)) (\<lambda>v. Ok (Some (ref_item v))))"

definition peek_canon_stream_map :: "'n value_aggregate list \<Rightarrow> nat \<Rightarrow> ('n iterable_item option, 'e) result" where
  "peek_canon_stream_map vs cursor =
     (if vs = [] then Ok None else res_then (index_vec vs cursor) (\<lambda>v. Ok (Some (ref_item v))))"

definition peek_vec_resolved_call :: "'n value_aggregate list \<Rightarrow> nat \<Rightarrow> ('n iterable_item option, 'e) result" where
  "peek_vec_resolved_call vs cursor =
     (if vs = [] then Ok None else
      res_then (index_vec vs cursor) (\<lambda>v.
      let (jvalue, tetraplet, pos) = as_inner_parts v in
      Ok (Some (RcValue jvalue tetraplet pos (get_provenance v)))))"

fun iterable_peek :: "'n iterable_value \<Rightarrow> ('n iterable_item option, 'e) result" where
  "iterable_peek (ItResolvedCall v n cursor) = peek_resolved_call v n cursor"
| "iterable_peek (ItLambdaResult vs tetraplet prov cursor) = peek_lambda_result vs tetraplet prov cursor"
| "iterable_peek (ItCanonStream s cursor) = peek_canon_stream s cursor"
| "iterable_peek (ItCanonStreamMap vs cursor) = peek_canon_stream_map vs cursor"
| "iterable_peek (ItVecResolvedCall vs cursor) = peek_vec_resolved_call vs cursor"

text \<open>\<^verbatim>\<open>peek().expect(PEEK_ALLOWED_ON_NON_EMPTY)\<close>.\<close>

definition expect_peek :: "'n iterable_value \<Rightarrow> ('n iterable_item, 'e) result" where
  "expect_peek it = res_then (iterable_peek it) unwrap"

datatype iterable_type = ScalarIterable | StreamIterable u32

record 'n fold_state =
  fs_iterable :: "'n iterable_value"
  fs_iterable_type :: iterable_type
  fs_back_iteration_started :: bool
  fs_instr_head :: "'n instruction"
  fs_last_instr_head :: "'n instruction option"

definition from_iterable ::
    "'n iterable_value \<Rightarrow> iterable_type \<Rightarrow> 'n instruction \<Rightarrow> 'n instruction option \<Rightarrow> 'n fold_state" where
  "from_iterable it ty instr_head last_instr_head =
     \<lparr>fs_iterable = it, fs_iterable_type = ty, fs_back_iteration_started = False, fs_instr_head = instr_head,
      fs_last_instr_head = last_instr_head\<rparr>"

section \<open>Instruction errors\<close>

definition ERROR_CODE_FIELD_NAME :: string where "ERROR_CODE_FIELD_NAME = ''error_code''"
definition MESSAGE_FIELD_NAME :: string where "MESSAGE_FIELD_NAME = ''message''"
definition INSTRUCTION_FIELD_NAME :: string where "INSTRUCTION_FIELD_NAME = ''instruction''"
definition PEER_ID_FIELD_NAME :: string where "PEER_ID_FIELD_NAME = ''peer_id''"
definition NO_ERROR_MESSAGE :: string where "NO_ERROR_MESSAGE = []"
definition NO_ERROR_ERROR_CODE :: int where "NO_ERROR_ERROR_CODE = 0"

record 'n instruction_error =
  ie_error :: "'n jvalue"
  ie_tetraplet :: "security_tetraplet option"
  ie_provenance :: provenance
  ie_orig_catchable :: "'n catchable_error option"

definition error_from_raw_fields_w_peerid :: "'n number_ops \<Rightarrow> int \<Rightarrow> string \<Rightarrow> string \<Rightarrow> string \<Rightarrow> 'n jvalue" where
  "error_from_raw_fields_w_peerid N error_code msg instr peer = JObject (object_collect
     [(ERROR_CODE_FIELD_NAME, JNumber (from_i64 N error_code)), (MESSAGE_FIELD_NAME, JString msg),
      (INSTRUCTION_FIELD_NAME, JString instr), (PEER_ID_FIELD_NAME, JString peer)])"

definition error_from_raw_fields :: "'n number_ops \<Rightarrow> int \<Rightarrow> string \<Rightarrow> string \<Rightarrow> 'n jvalue" where
  "error_from_raw_fields N error_code msg instr = JObject (object_collect
     [(ERROR_CODE_FIELD_NAME, JNumber (from_i64 N error_code)), (MESSAGE_FIELD_NAME, JString msg),
      (INSTRUCTION_FIELD_NAME, JString instr)])"

definition no_error_object :: "'n number_ops \<Rightarrow> 'n jvalue" where
  "no_error_object N = JObject (object_collect
     [(ERROR_CODE_FIELD_NAME, JNumber (from_i64 N NO_ERROR_ERROR_CODE)), (MESSAGE_FIELD_NAME, JString NO_ERROR_MESSAGE)])"

definition no_error :: "'n number_ops \<Rightarrow> 'n instruction_error" where
  "no_error N = \<lparr>ie_error = no_error_object N, ie_tetraplet = None, ie_provenance = ProvLiteral, ie_orig_catchable = None\<rparr>"

definition ensure_error_code_is_error :: "int \<Rightarrow> (unit, 'n error_object_error) result" where
  "ensure_error_code_is_error number = (if number = NO_ERROR_ERROR_CODE then Err ErrorCodeMustBeNonZero else Ok ())"

fun ensure_error_code_correct ::
    "'n number_ops \<Rightarrow> 'n jvalue \<Rightarrow> 'n jvalue \<Rightarrow> string \<Rightarrow> (unit, 'n error_object_error) result" where
  "ensure_error_code_correct N scalar (JNumber number) field_name =
     (if as_i64 N number \<noteq> None \<or> as_u64 N number \<noteq> None
      then res_then (unwrap (as_i64 N number)) ensure_error_code_is_error
      else Err (ScalarFieldIsWrongType scalar field_name ''integer''))"
| "ensure_error_code_correct N scalar _ field_name = Err (ScalarFieldIsWrongType scalar field_name ''integer'')"

fun ensure_jvalue_is_string :: "'n jvalue \<Rightarrow> 'n jvalue \<Rightarrow> string \<Rightarrow> (unit, 'n error_object_error) result" where
  "ensure_jvalue_is_string scalar (JString _) field_name = Ok ()"
| "ensure_jvalue_is_string scalar _ field_name = Err (ScalarFieldIsWrongType scalar field_name ''string'')"

fun check_error_object :: "'n number_ops \<Rightarrow> 'n jvalue \<Rightarrow> (unit, 'n error_object_error) result" where
  "check_error_object N (JObject flds) =
     (let scalar = JObject flds;
          check_field = (\<lambda>field_name. ok_or (ScalarMustContainField scalar field_name) (map_of flds field_name)) in
      res_then (check_field ERROR_CODE_FIELD_NAME) (\<lambda>error_code.
      res_then (ensure_error_code_correct N scalar error_code ERROR_CODE_FIELD_NAME) (\<lambda>_.
      res_then (check_field MESSAGE_FIELD_NAME) (\<lambda>msg.
      ensure_jvalue_is_string scalar msg MESSAGE_FIELD_NAME))))"
| "check_error_object N scalar = Err (ScalarMustBeObject scalar)"

definition get_instruction_error_from_error_object ::
    "'n jvalue \<Rightarrow> security_tetraplet option \<Rightarrow> provenance \<Rightarrow> 'n instruction_error" where
  "get_instruction_error_from_error_object error tetraplet prov =
     \<lparr>ie_error = error, ie_tetraplet = tetraplet, ie_provenance = prov, ie_orig_catchable = None\<rparr>"

definition get_instruction_error_from_ingredients ::
    "'n number_ops \<Rightarrow> int \<Rightarrow> string \<Rightarrow> string \<Rightarrow> string option \<Rightarrow> security_tetraplet option \<Rightarrow> provenance \<Rightarrow> 'n instruction_error" where
  "get_instruction_error_from_ingredients N error_code msg instr peer_id_option tetraplet prov =
     (let error_object = (case peer_id_option of
          Some peer \<Rightarrow> error_from_raw_fields_w_peerid N error_code msg instr peer
        | None \<Rightarrow> error_from_raw_fields N error_code msg instr) in
      get_instruction_error_from_error_object error_object tetraplet prov)"

definition get_instruction_error_from_exec_error ::
    "('n, 'bm) air_ops \<Rightarrow> 'n execution_error \<Rightarrow> string \<Rightarrow> string option \<Rightarrow> security_tetraplet option \<Rightarrow> 'n instruction_error" where
  "get_instruction_error_from_exec_error A e instr peer_id_option tetraplet =
     get_instruction_error_from_ingredients (numbers A) (to_error_code e) (error_text A e) instr peer_id_option tetraplet ProvLiteral"

record 'n error_descriptor =
  ed_error :: "'n instruction_error"
  ed_error_can_be_set :: bool

record 'n last_error_descriptor =
  led_error :: "'n instruction_error"
  led_error_can_be_set :: bool

definition error_descriptor_default :: "'n number_ops \<Rightarrow> 'n error_descriptor" where
  "error_descriptor_default N = \<lparr>ed_error = no_error N, ed_error_can_be_set = True\<rparr>"

definition last_error_descriptor_default :: "'n number_ops \<Rightarrow> 'n last_error_descriptor" where
  "last_error_descriptor_default N = \<lparr>led_error = no_error N, led_error_can_be_set = True\<rparr>"

definition try_to_set_error_from_exec_error ::
    "('n, 'bm) air_ops \<Rightarrow> 'n execution_error \<Rightarrow> string \<Rightarrow> string option \<Rightarrow> security_tetraplet option
       \<Rightarrow> 'n error_descriptor \<Rightarrow> 'n error_descriptor" where
  "try_to_set_error_from_exec_error A e instr peer_id_option tetraplet self =
     (if \<not> ed_error_can_be_set self \<or> \<not> affects_error e then self
      else self\<lparr>ed_error := get_instruction_error_from_exec_error A e instr peer_id_option tetraplet\<rparr>)"

definition clear_error_object_if_needed :: "'n number_ops \<Rightarrow> 'n error_descriptor \<Rightarrow> 'n error_descriptor" where
  "clear_error_object_if_needed N self = (if ed_error_can_be_set self then self\<lparr>ed_error := no_error N\<rparr> else self)"

definition set_original_execution_error :: "'n execution_error \<Rightarrow> 'n error_descriptor \<Rightarrow> 'n error_descriptor" where
  "set_original_execution_error e self =
     self\<lparr>ed_error := (ed_error self)\<lparr>ie_orig_catchable := (case e of Catchable err \<Rightarrow> Some err | _ \<Rightarrow> None)\<rparr>\<rparr>"

definition enable_error_setting :: "'n error_descriptor \<Rightarrow> 'n error_descriptor" where
  "enable_error_setting self = self\<lparr>ed_error_can_be_set := True\<rparr>"

definition disable_error_setting :: "'n error_descriptor \<Rightarrow> 'n error_descriptor" where
  "disable_error_setting self = self\<lparr>ed_error_can_be_set := False\<rparr>"

definition try_to_set_last_error_from_exec_error ::
    "('n, 'bm) air_ops \<Rightarrow> 'n execution_error \<Rightarrow> string \<Rightarrow> string option \<Rightarrow> security_tetraplet option
       \<Rightarrow> 'n last_error_descriptor \<Rightarrow> 'n last_error_descriptor" where
  "try_to_set_last_error_from_exec_error A e instr peer_id_option tetraplet self =
     (if \<not> led_error_can_be_set self \<or> \<not> affects_last_error e then self
      else self\<lparr>led_error := get_instruction_error_from_exec_error A e instr peer_id_option tetraplet, led_error_can_be_set := False\<rparr>)"

definition set_from_error_object ::
    "'n jvalue \<Rightarrow> security_tetraplet option \<Rightarrow> provenance \<Rightarrow> 'n last_error_descriptor \<Rightarrow> 'n last_error_descriptor" where
  "set_from_error_object error tetraplet prov self =
     self\<lparr>led_error := get_instruction_error_from_error_object error tetraplet prov, led_error_can_be_set := False\<rparr>"

definition meet_xor_right_branch :: "'n last_error_descriptor \<Rightarrow> 'n last_error_descriptor" where
  "meet_xor_right_branch self = self\<lparr>led_error_can_be_set := True\<rparr>"

definition meet_par_successed_end :: "'n last_error_descriptor \<Rightarrow> 'n last_error_descriptor" where
  "meet_par_successed_end self = self\<lparr>led_error_can_be_set := True\<rparr>"

section \<open>CIDs of an execution\<close>

record 'n execution_cid_state =
  value_tracker :: "'n raw_value cid_tracker"
  tetraplet_tracker :: "security_tetraplet cid_tracker"
  canon_element_tracker :: "canon_cid_aggregate cid_tracker"
  canon_result_tracker :: "canon_result_cid_aggregate cid_tracker"
  service_result_agg_tracker :: "service_result_cid_aggregate cid_tracker"

definition from_cid_info :: "'n cid_info \<Rightarrow> 'n cid_info \<Rightarrow> 'n execution_cid_state" where
  "from_cid_info prev_cid_info current_cid_info =
     \<lparr>value_tracker = from_cid_stores (value_store prev_cid_info) (value_store current_cid_info),
      tetraplet_tracker = from_cid_stores (tetraplet_store prev_cid_info) (tetraplet_store current_cid_info),
      canon_element_tracker = from_cid_stores (canon_element_store prev_cid_info) (canon_element_store current_cid_info),
      canon_result_tracker = from_cid_stores (canon_result_store prev_cid_info) (canon_result_store current_cid_info),
      service_result_agg_tracker = from_cid_stores (service_result_store prev_cid_info) (service_result_store current_cid_info)\<rparr>"

text \<open>\<^verbatim>\<open>UncatchableError::from\<close> of an error of the calculation of a CID.\<close>

definition track_serialized ::
    "('n, 'bm) air_ops \<Rightarrow> 'v to_json \<Rightarrow> 'v \<Rightarrow> ('v cid_tracker, cid, 'n execution_error) comp" where
  "track_serialized A js v = map_err (\<lambda>e. Uncatchable (CidError e)) (track_value (cids A) js v)"

definition track_service_result ::
    "('n, 'bm) air_ops \<Rightarrow> 'n jvalue \<Rightarrow> security_tetraplet \<Rightarrow> string \<Rightarrow> ('n execution_cid_state, cid, 'n execution_error) comp" where
  "track_service_result A v tetraplet arg_hash =
     (let vm_value = raw_from_value (json_text A) v in
      and_then (zoom value_tracker value_tracker_update (track_raw_value (cids A) vm_value)) (\<lambda>v_cid.
      and_then (zoom tetraplet_tracker tetraplet_tracker_update (track_serialized A (ser_tetraplet (serdes A)) tetraplet)) (\<lambda>t_cid.
      let service_result_agg = \<lparr>value_cid = v_cid, argument_hash = arg_hash, tetraplet_cid = t_cid\<rparr> in
      zoom service_result_agg_tracker service_result_agg_tracker_update
        (track_serialized A (ser_service_result (serdes A)) service_result_agg))))"

definition track_canon_value :: "('n, 'bm) air_ops \<Rightarrow> 'n value_aggregate \<Rightarrow> ('n execution_cid_state, cid, 'n execution_error) comp" where
  "track_canon_value A canon_value =
     (let vm_value = raw_from_value (json_text A) (get_result canon_value) in
      and_then (zoom value_tracker value_tracker_update (track_raw_value (cids A) vm_value)) (\<lambda>v_cid.
      and_then (zoom tetraplet_tracker tetraplet_tracker_update
        (track_serialized A (ser_tetraplet (serdes A)) (get_tetraplet canon_value))) (\<lambda>t_cid.
      let canon_value_aggregate = \<lparr>cca_value = v_cid, cca_tetraplet = t_cid, cca_provenance = get_provenance canon_value\<rparr> in
      zoom canon_element_tracker canon_element_tracker_update
        (track_serialized A (ser_canon_element (serdes A)) canon_value_aggregate))))"

definition get_value_by_cid :: "('n, 'bm) air_ops \<Rightarrow> 'n execution_cid_state \<Rightarrow> cid \<Rightarrow> ('n jvalue, 'n execution_error) result" where
  "get_value_by_cid A self c =
     res_then (ok_or (Uncatchable (ValueForCidNotFound ''value'' c)) (tracker_get (value_tracker self) c)) (\<lambda>vm_value.
     raw_get_value (\<lambda>s. case json_parse A s of Inl _ \<Rightarrow> None | Inr v \<Rightarrow> Some v) vm_value)"

definition get_tetraplet_by_cid :: "'n execution_cid_state \<Rightarrow> cid \<Rightarrow> (security_tetraplet, 'n execution_error) result" where
  "get_tetraplet_by_cid self c =
     ok_or (Uncatchable (ValueForCidNotFound ''tetraplet'' c)) (tracker_get (tetraplet_tracker self) c)"

definition get_canon_value_by_cid ::
    "('n, 'bm) air_ops \<Rightarrow> 'n execution_cid_state \<Rightarrow> cid \<Rightarrow> ('n value_aggregate, 'n execution_error) result" where
  "get_canon_value_by_cid A self c =
     res_then (ok_or (Uncatchable (ValueForCidNotFound ''canon aggregate'' c)) (tracker_get (canon_element_tracker self) c)) (\<lambda>canon_aggregate.
     res_then (get_value_by_cid A self (cca_value canon_aggregate)) (\<lambda>v.
     res_then (get_tetraplet_by_cid self (cca_tetraplet canon_aggregate)) (\<lambda>tetraplet.
     let fake_trace_pos = 0 in
     Ok (value_aggregate_new v tetraplet fake_trace_pos (cca_provenance canon_aggregate)))))"

definition get_canon_result_by_cid ::
    "'n execution_cid_state \<Rightarrow> cid \<Rightarrow> (canon_result_cid_aggregate, 'n execution_error) result" where
  "get_canon_result_by_cid self c =
     ok_or (Uncatchable (ValueForCidNotFound ''canon result aggregate'' c)) (tracker_get (canon_result_tracker self) c)"

definition get_service_result_agg_by_cid ::
    "'n execution_cid_state \<Rightarrow> cid \<Rightarrow> (service_result_cid_aggregate, 'n execution_error) result" where
  "get_service_result_agg_by_cid self c =
     ok_or (Uncatchable (ValueForCidNotFound ''service result aggregate'' c)) (tracker_get (service_result_agg_tracker self) c)"

record 'n resolved_service_info =
  rsi_value :: "'n jvalue"
  rsi_tetraplet :: security_tetraplet
  rsi_aggregate :: service_result_cid_aggregate

definition resolve_service_info ::
    "('n, 'bm) air_ops \<Rightarrow> 'n execution_cid_state \<Rightarrow> cid \<Rightarrow> ('n resolved_service_info, 'n execution_error) result" where
  "resolve_service_info A self c =
     res_then (get_service_result_agg_by_cid self c) (\<lambda>agg.
     res_then (get_value_by_cid A self (value_cid agg)) (\<lambda>v.
     res_then (get_tetraplet_by_cid self (tetraplet_cid agg)) (\<lambda>tetraplet.
     Ok \<lparr>rsi_value = v, rsi_tetraplet = tetraplet, rsi_aggregate = agg\<rparr>)))"

text \<open>The stores of the outcome; the orders are those of the hash maps' iterators.\<close>

record store_orders =
  values_order :: "cid list"
  tetraplets_order :: "cid list"
  canon_elements_order :: "cid list"
  canon_results_order :: "cid list"
  service_results_order :: "cid list"

definition cid_state_into_info :: "store_orders \<Rightarrow> 'n execution_cid_state \<Rightarrow> 'n cid_info" where
  "cid_state_into_info so self =
     \<lparr>value_store = tracker_into_store (values_order so) (value_tracker self),
      tetraplet_store = tracker_into_store (tetraplets_order so) (tetraplet_tracker self),
      canon_element_store = tracker_into_store (canon_elements_order so) (canon_element_tracker self),
      canon_result_store = tracker_into_store (canon_results_order so) (canon_result_tracker self),
      service_result_store = tracker_into_store (service_results_order so) (service_result_agg_tracker self)\<rparr>"

section \<open>The context\<close>

text \<open>Of the instruction tracker (\<^verbatim>\<open>execution-info-collector\<close>) the counters the interpreter updates.\<close>

record instruction_tracker =
  call_seen_count :: u32
  seen_stream_count :: u32
  new_executed_count :: "air_pos \<rightharpoonup> u32"

definition instruction_tracker_default :: instruction_tracker where
  "instruction_tracker_default = \<lparr>call_seen_count = 0, seen_stream_count = 0, new_executed_count = Map.empty\<rparr>"

definition meet_call :: "(instruction_tracker, unit, 'e) comp" where
  "meet_call =
     and_then (gets call_seen_count) (\<lambda>n.
     and_then (lift (u32_add n 1)) (\<lambda>n.
     modify (call_seen_count_update (\<lambda>_. n))))"

definition meet_fold_stream :: "(instruction_tracker, u32, 'e) comp" where
  "meet_fold_stream =
     and_then (gets seen_stream_count) (\<lambda>n.
     and_then (lift (u32_add n 1)) (\<lambda>n.
     and_then (modify (seen_stream_count_update (\<lambda>_. n))) (\<lambda>_.
     ret n)))"

definition meet_new :: "air_pos \<Rightarrow> (instruction_tracker, unit, 'e) comp" where
  "meet_new position =
     and_then (gets (\<lambda>t. new_executed_count t position)) (\<lambda>entry.
     case entry of
       Some n \<Rightarrow> and_then (lift (u32_add n 1)) (\<lambda>n. modify (new_executed_count_update (\<lambda>m. m(position \<mapsto> n))))
     | None \<Rightarrow> modify (new_executed_count_update (\<lambda>m. m(position \<mapsto> 1))))"

record run_parameters =
  rp_init_peer_id :: string
  rp_current_peer_id :: string
  rp_salt :: string
  rp_timestamp :: nat
  rp_ttl :: u32

record call_service_result =
  csr_ret_code :: int
  csr_result :: string

record call_request_params =
  crp_service_id :: string
  crp_function_name :: string
  crp_arguments :: bytes
  crp_tetraplets :: bytes

record 'n execution_ctx =
  scalars_of :: "('n, 'n fold_state) scalars"
  streams_of :: "'n value_aggregate streams"
  stream_maps_of :: "'n stream_maps"
  next_peer_pks :: "string list"
  run_params :: run_parameters
  last_error_desc :: "'n last_error_descriptor"
  error_desc :: "'n error_descriptor"
  subgraph_completeness :: bool
  tracker :: instruction_tracker
  last_request_id :: u32
  call_results :: "string \<rightharpoonup> call_service_result"
  call_requests :: "u32 \<rightharpoonup> call_request_params"
  cid_state :: "'n execution_cid_state"
  signatures_of :: signature_store
  cid_tracker :: peer_cid_tracker

record 'n exec_ctx_ingredients =
  ing_last_call_request_id :: u32
  ing_cid_info :: "'n cid_info"

definition execution_ctx_new ::
    "'n number_ops \<Rightarrow> 'n exec_ctx_ingredients \<Rightarrow> 'n exec_ctx_ingredients \<Rightarrow> (string \<rightharpoonup> call_service_result) \<Rightarrow> signature_store
       \<Rightarrow> run_parameters \<Rightarrow> 'n execution_ctx" where
  "execution_ctx_new N prev_ingredients current_ingredients results sigs params =
     \<lparr>scalars_of = scalars_new, streams_of = streams_new, stream_maps_of = \<lparr>maps_by_name = Map.empty\<rparr>, next_peer_pks = [], run_params = params,
      last_error_desc = last_error_descriptor_default N, error_desc = error_descriptor_default N,
      subgraph_completeness = True, tracker = instruction_tracker_default,
      last_request_id = ing_last_call_request_id prev_ingredients, call_results = results, call_requests = Map.empty,
      cid_state = from_cid_info (ing_cid_info prev_ingredients) (ing_cid_info current_ingredients),
      signatures_of = sigs, cid_tracker = peer_cid_tracker_new (rp_current_peer_id params)\<rparr>"

definition last_error :: "'n execution_ctx \<Rightarrow> 'n instruction_error" where
  "last_error self = led_error (last_error_desc self)"

definition ctx_error :: "'n execution_ctx \<Rightarrow> 'n instruction_error" where
  "ctx_error self = ed_error (error_desc self)"

definition next_call_request_id :: "('n execution_ctx, u32, 'e) comp" where
  "next_call_request_id =
     and_then (gets last_request_id) (\<lambda>n.
     and_then (lift (u32_add n 1)) (\<lambda>n.
     and_then (modify (last_request_id_update (\<lambda>_. n))) (\<lambda>_.
     ret n)))"

definition record_call_cid :: "string \<Rightarrow> cid \<Rightarrow> 'n execution_ctx \<Rightarrow> 'n execution_ctx" where
  "record_call_cid peer c self = self\<lparr>cid_tracker := register peer c (cid_tracker self)\<rparr>"

definition record_canon_cid :: "string \<Rightarrow> cid \<Rightarrow> 'n execution_ctx \<Rightarrow> 'n execution_ctx" where
  "record_canon_cid peer c self = self\<lparr>cid_tracker := register peer c (cid_tracker self)\<rparr>"

definition make_subgraph_incomplete :: "'n execution_ctx \<Rightarrow> 'n execution_ctx" where
  "make_subgraph_incomplete self = self\<lparr>subgraph_completeness := False\<rparr>"

definition is_subgraph_complete :: "'n execution_ctx \<Rightarrow> bool" where
  "is_subgraph_complete self = subgraph_completeness self"

definition set_subgraph_completeness :: "bool \<Rightarrow> 'n execution_ctx \<Rightarrow> 'n execution_ctx" where
  "set_subgraph_completeness b self = self\<lparr>subgraph_completeness := b\<rparr>"

definition flush_subgraph_completeness :: "'n execution_ctx \<Rightarrow> 'n execution_ctx" where
  "flush_subgraph_completeness self = self\<lparr>subgraph_completeness := True\<rparr>"

definition set_errors ::
    "('n, 'bm) air_ops \<Rightarrow> 'n execution_error \<Rightarrow> string \<Rightarrow> security_tetraplet option \<Rightarrow> bool \<Rightarrow> 'n execution_ctx \<Rightarrow> 'n execution_ctx" where
  "set_errors A e instr tetraplet use_tetraplet_and_log_peer_id self =
     (let last_error_peer_id = (case tetraplet of
          Some t \<Rightarrow> if use_tetraplet_and_log_peer_id then Some (peer_pk t) else Some (rp_current_peer_id (run_params self))
        | None \<Rightarrow> Some (rp_current_peer_id (run_params self)));
          self = self\<lparr>last_error_desc :=
            try_to_set_last_error_from_exec_error A e instr last_error_peer_id tetraplet (last_error_desc self)\<rparr>;
          peer = (if use_tetraplet_and_log_peer_id then last_error_peer_id else None);
          self = self\<lparr>error_desc := try_to_set_error_from_exec_error A e instr peer tetraplet (error_desc self)\<rparr> in
      self\<lparr>error_desc := disable_error_setting (error_desc self)\<rparr>)"

end
