(* ===== verification/Resolver.thy ===== *)
theory Resolver
  imports Execution_Context
begin

text \<open>
  From arguments of instructions to values: the lambda applier (\<^verbatim>\<open>execution_step/lambda_applier\<close>), values a
  lambda can be applied to (\<^verbatim>\<open>value_types/jvaluable\<close>, \<^verbatim>\<open>value_types/utils.rs\<close>), the resolver
  (\<^verbatim>\<open>execution_step/resolver\<close>) and the resolution of triplets (\<^verbatim>\<open>instructions/call/triplet.rs\<close>).

  The accessors of a value path are a \<^verbatim>\<open>NonEmpty\<close> vector, so the case of an empty one in \<open>split_first\<close> is a
  panic that scripts of the parser do not reach.
\<close>

section \<open>Accessors\<close>

definition lambda_to_execution_error :: "('a, 'n lambda_error) result \<Rightarrow> ('a, 'n execution_error) result" where
  "lambda_to_execution_error r = res_map_err (\<lambda>e. Catchable (LambdaApplierError e)) r"

fun try_jvalue_with_idx :: "'n jvalue \<Rightarrow> u32 \<Rightarrow> ('n jvalue, 'n lambda_error) result" where
  "try_jvalue_with_idx (JArray vs) idx =
     (if unat idx < length vs then Ok (vs ! unat idx) else Err (ValueNotContainSuchArrayIdx (JArray vs) idx))"
| "try_jvalue_with_idx jvalue idx = Err (ArrayAccessorNotMatchValue jvalue idx)"

fun try_jvalue_with_field_name :: "'n jvalue \<Rightarrow> string \<Rightarrow> ('n jvalue, 'n lambda_error) result" where
  "try_jvalue_with_field_name (JObject m) field_name =
     ok_or (ValueNotContainSuchField (JObject m) field_name) (map_of m field_name)"
| "try_jvalue_with_field_name jvalue field_name = Err (FieldAccessorNotMatchValue jvalue field_name)"

definition try_number_to_u32 :: "'n number_ops \<Rightarrow> 'n \<Rightarrow> (u32, 'n lambda_error) result" where
  "try_number_to_u32 N accessor =
     ok_or (IndexAccessNotU32 accessor)
       (Option.bind (as_u64 N accessor) (\<lambda>v. if v < u32_bound then Some (of_nat v) else None))"

fun try_jvalue_as_idx :: "'n number_ops \<Rightarrow> 'n jvalue \<Rightarrow> (u32, 'n lambda_error) result" where
  "try_jvalue_as_idx N (JNumber number) = try_number_to_u32 N number"
| "try_jvalue_as_idx N scalar_accessor = Err (StreamAccessorHasInvalidType scalar_accessor)"

fun select_by_jvalue :: "'n number_ops \<Rightarrow> 'n jvalue \<Rightarrow> 'n jvalue \<Rightarrow> ('n jvalue, 'n lambda_error) result" where
  "select_by_jvalue N v (JString string_accessor) = try_jvalue_with_field_name v string_accessor"
| "select_by_jvalue N v (JNumber number_accessor) =
     res_then (try_number_to_u32 N number_accessor) (\<lambda>idx. try_jvalue_with_idx v idx)"
| "select_by_jvalue N v scalar_accessor = Err (ScalarAccessorHasInvalidType scalar_accessor)"

type_synonym 'n scalar_reference = "('n, 'n fold_state) scalar_ref"

fun select_by_scalar :: "'n number_ops \<Rightarrow> 'n jvalue \<Rightarrow> 'n scalar_reference \<Rightarrow> ('n jvalue, 'n lambda_error) result" where
  "select_by_scalar N v (ScalarValueRef lambda_value) = select_by_jvalue N v (get_result lambda_value)"
| "select_by_scalar N v (IterableValueRef fs) =
     res_then (expect_peek (fs_iterable fs)) (\<lambda>item. select_by_jvalue N v (get_result (into_resolved_result item)))"

fun try_scalar_ref_as_idx :: "'n number_ops \<Rightarrow> 'n scalar_reference \<Rightarrow> (u32, 'n lambda_error) result" where
  "try_scalar_ref_as_idx N (ScalarValueRef accessor) = try_jvalue_as_idx N (get_result accessor)"
| "try_scalar_ref_as_idx N (IterableValueRef fs) =
     res_then (expect_peek (fs_iterable fs)) (\<lambda>item. try_jvalue_as_idx N (get_result (into_resolved_result item)))"

fun try_scalar_ref_as_stream_map_key :: "'n number_ops \<Rightarrow> 'n scalar_reference \<Rightarrow> (stream_map_key, 'n lambda_error) result" where
  "try_scalar_ref_as_stream_map_key N (ScalarValueRef map_accessor) =
     ok_or (CanonStreamMapAccessorHasInvalidType (get_result map_accessor)) (key_from_value N (get_result map_accessor))"
| "try_scalar_ref_as_stream_map_key N (IterableValueRef _) = Err CanonStreamMapAccessorMustNotBeIterable"

section \<open>Applying lambdas\<close>

record 'n lambda_result =
  lr_result :: "'n jvalue"
  lr_tetraplet_idx :: "nat option"

record 'n map_lens_result =
  mlr_result :: "'n jvalue"
  mlr_tetraplet :: security_tetraplet

definition get_ctx_scalar :: "'n execution_ctx \<Rightarrow> string \<Rightarrow> ('n scalar_reference, 'n execution_error) result" where
  "get_ctx_scalar ctx name = scalars_get_value name (scalars_of ctx)"

fun select_by_path_from_scalar ::
    "('n, 'bm) air_ops \<Rightarrow> 'n jvalue \<Rightarrow> value_accessor list \<Rightarrow> 'n execution_ctx \<Rightarrow> ('n jvalue, 'n execution_error) result" where
  "select_by_path_from_scalar A v [] ctx = Ok v"
| "select_by_path_from_scalar A v (accessor # rest) ctx =
     res_then (case accessor of
         ArrayAccess idx \<Rightarrow> lambda_to_execution_error (try_jvalue_with_idx v idx)
       | FieldAccessByName field_name \<Rightarrow> lambda_to_execution_error (try_jvalue_with_field_name v field_name)
       | FieldAccessByScalar scalar_name \<Rightarrow>
           res_then (get_ctx_scalar ctx scalar_name) (\<lambda>scalar.
           lambda_to_execution_error (select_by_scalar (numbers A) v scalar))
       | AccessorError \<Rightarrow> Panic) (\<lambda>v.
     select_by_path_from_scalar A v rest ctx)"

fun select_by_functor_from_scalar :: "('n, 'bm) air_ops \<Rightarrow> 'n jvalue \<Rightarrow> length_functor \<Rightarrow> ('n jvalue, 'n execution_error) result" where
  "select_by_functor_from_scalar A (JArray vs) Length = Ok (JNumber (from_u64 (numbers A) (length vs)))"
| "select_by_functor_from_scalar A v Length = Err (Catchable (LengthFunctorAppliedToNotArray v))"

fun select_by_lambda_from_scalar ::
    "('n, 'bm) air_ops \<Rightarrow> 'n jvalue \<Rightarrow> lambda_ast \<Rightarrow> 'n execution_ctx \<Rightarrow> ('n jvalue, 'n execution_error) result" where
  "select_by_lambda_from_scalar A v (ValuePath value_path) ctx = select_by_path_from_scalar A v value_path ctx"
| "select_by_lambda_from_scalar A v (Functor f) ctx = select_by_functor_from_scalar A v f"

definition split_to_idx ::
    "('n, 'bm) air_ops \<Rightarrow> value_accessor list \<Rightarrow> 'n execution_ctx \<Rightarrow> (nat \<times> value_accessor list, 'n execution_error) result" where
  "split_to_idx A lambda ctx =
     (case lambda of
        [] \<Rightarrow> Panic
      | prefix # body \<Rightarrow>
          res_then (case prefix of
              ArrayAccess idx \<Rightarrow> Ok idx
            | FieldAccessByName field_name \<Rightarrow> lambda_to_execution_error (Err (FieldAccessorAppliedToStream field_name))
            | FieldAccessByScalar scalar_name \<Rightarrow>
                res_then (get_ctx_scalar ctx scalar_name) (\<lambda>scalar.
                lambda_to_execution_error (try_scalar_ref_as_idx (numbers A) scalar))
            | AccessorError \<Rightarrow> Panic) (\<lambda>idx.
          Ok (unat idx, body)))"

definition nth_of :: "nat \<Rightarrow> 'a list \<Rightarrow> ('a, 'n execution_error) result" where
  "nth_of idx stream = lambda_to_execution_error
     (ok_or (CanonStreamNotHaveEnoughValues (length stream) idx) (if idx < length stream then Some (stream ! idx) else None))"

definition select_by_path_from_stream ::
    "('n, 'bm) air_ops \<Rightarrow> 'n jvalue list \<Rightarrow> value_accessor list \<Rightarrow> 'n execution_ctx \<Rightarrow> ('n lambda_result, 'n execution_error) result" where
  "select_by_path_from_stream A stream lambda ctx =
     res_then (split_to_idx A lambda ctx) (\<lambda>(idx, body).
     res_then (nth_of idx stream) (\<lambda>v.
     res_then (select_by_path_from_scalar A v body ctx) (\<lambda>r.
     Ok \<lparr>lr_result = r, lr_tetraplet_idx = Some idx\<rparr>)))"

fun select_by_functor_from_stream :: "('n, 'bm) air_ops \<Rightarrow> 'n jvalue list \<Rightarrow> length_functor \<Rightarrow> 'n lambda_result" where
  "select_by_functor_from_stream A stream Length =
     \<lparr>lr_result = JNumber (from_u64 (numbers A) (length stream)), lr_tetraplet_idx = None\<rparr>"

fun select_by_lambda_from_stream ::
    "('n, 'bm) air_ops \<Rightarrow> 'n jvalue list \<Rightarrow> lambda_ast \<Rightarrow> 'n execution_ctx \<Rightarrow> ('n lambda_result, 'n execution_error) result" where
  "select_by_lambda_from_stream A stream (ValuePath value_path) ctx = select_by_path_from_stream A stream value_path ctx"
| "select_by_lambda_from_stream A stream (Functor f) ctx = Ok (select_by_functor_from_stream A stream f)"

definition update_tetraplet_with_path :: "security_tetraplet \<Rightarrow> string \<Rightarrow> bool \<Rightarrow> security_tetraplet" where
  "update_tetraplet_with_path original_tetraplet original_path prefix_with_path =
     original_tetraplet\<lparr>lens := (if prefix_with_path then lens original_tetraplet @ original_path else original_path)\<rparr>"

definition select_by_path_from_canon_map_stream ::
    "('n, 'bm) air_ops \<Rightarrow> ('n jvalue \<times> security_tetraplet) list \<Rightarrow> value_accessor list \<Rightarrow> 'n execution_ctx
       \<Rightarrow> ('n map_lens_result, 'n execution_error) result" where
  "select_by_path_from_canon_map_stream A stream lambda ctx =
     res_then (split_to_idx A lambda ctx) (\<lambda>(idx, body).
     res_then (nth_of idx stream) (\<lambda>(v, tetraplet).
     if body = [] then Ok \<lparr>mlr_result = v, mlr_tetraplet = tetraplet\<rparr>
     else
       res_then (select_by_path_from_scalar A v body ctx) (\<lambda>r.
       let joined = join_text ''.'' (map show_accessor body);
           lambda_suffix = ''.'' @ joined in
       Ok \<lparr>mlr_result = r, mlr_tetraplet = update_tetraplet_with_path tetraplet lambda_suffix True\<rparr>)))"

definition select_by_path_from_canon_map ::
    "('n, 'bm) air_ops \<Rightarrow> 'n canon_stream_map \<Rightarrow> value_accessor list \<Rightarrow> lambda_ast \<Rightarrow> 'n execution_ctx
       \<Rightarrow> ('n map_lens_result, 'n execution_error) result" where
  "select_by_path_from_canon_map A canon_map lambda original_lambda ctx =
     (case lambda of
        [] \<Rightarrow> Panic
      | prefix # body \<Rightarrow>
          res_then (case prefix of
              ArrayAccess idx \<Rightarrow> Ok (key_from_u32 idx)
            | FieldAccessByName field_name \<Rightarrow> Ok (KeyStr field_name)
            | FieldAccessByScalar scalar_name \<Rightarrow>
                res_then (get_ctx_scalar ctx scalar_name) (\<lambda>scalar.
                lambda_to_execution_error (try_scalar_ref_as_stream_map_key (numbers A) scalar))
            | AccessorError \<Rightarrow> Panic) (\<lambda>key.
          let tetraplet = update_tetraplet_with_path (csm_tetraplet canon_map) (show_lambda original_lambda) False in
          case (body, canon_map_index key canon_map) of
            (_ # _, Some canon_stream) \<Rightarrow>
              select_by_path_from_canon_map_stream A (map (\<lambda>v. (get_result v, get_tetraplet v)) (cs_values canon_stream)) body ctx
          | ([], Some canon_stream) \<Rightarrow> Ok \<lparr>mlr_result = canon_stream_as_jvalue canon_stream, mlr_tetraplet = tetraplet\<rparr>
          | _ \<Rightarrow> Ok \<lparr>mlr_result = canon_stream_as_jvalue (canon_stream_new [] tetraplet), mlr_tetraplet = tetraplet\<rparr>))"

text \<open>\<^verbatim>\<open>SecurityTetraplet::new\<close> of the \<^verbatim>\<open>marine\<close> package.\<close>

definition security_tetraplet_new :: "string \<Rightarrow> string \<Rightarrow> string \<Rightarrow> string \<Rightarrow> security_tetraplet" where
  "security_tetraplet_new peer service function l = \<lparr>peer_pk = peer, service_id = service, function_name = function, lens = l\<rparr>"

fun select_by_functor_from_canon_map ::
    "('n, 'bm) air_ops \<Rightarrow> 'n canon_stream_map \<Rightarrow> 'n execution_ctx \<Rightarrow> length_functor \<Rightarrow> 'n map_lens_result" where
  "select_by_functor_from_canon_map A canon_map ctx Length =
     \<lparr>mlr_result = JNumber (from_u64 (numbers A) (length (csm_values canon_map))),
      mlr_tetraplet = security_tetraplet_new (rp_current_peer_id (run_params ctx)) [] [] (show_functor Length)\<rparr>"

fun select_by_lambda_from_canon_map ::
    "('n, 'bm) air_ops \<Rightarrow> 'n canon_stream_map \<Rightarrow> lambda_ast \<Rightarrow> 'n execution_ctx \<Rightarrow> ('n map_lens_result, 'n execution_error) result" where
  "select_by_lambda_from_canon_map A canon_map (ValuePath value_path) ctx =
     select_by_path_from_canon_map A canon_map value_path (ValuePath value_path) ctx"
| "select_by_lambda_from_canon_map A canon_map (Functor f) ctx = Ok (select_by_functor_from_canon_map A canon_map ctx f)"

section \<open>Values with lambdas\<close>

fun populate_tetraplet_with_lambda :: "security_tetraplet \<Rightarrow> lambda_ast \<Rightarrow> security_tetraplet" where
  "populate_tetraplet_with_lambda tetraplet (ValuePath p) = add_lens (show_lambda (ValuePath p)) tetraplet"
| "populate_tetraplet_with_lambda tetraplet (Functor f) = security_tetraplet_new [] [] [] (show_lambda (Functor f))"

type_synonym 'n resolved = "'n jvalue \<times> security_tetraplet list \<times> provenance"
type_synonym 'n lambda_applied = "'n jvalue \<times> security_tetraplet \<times> provenance"

definition canon_stream_apply_lambda_with_tetraplets ::
    "('n, 'bm) air_ops \<Rightarrow> 'n canon_stream \<Rightarrow> lambda_ast \<Rightarrow> 'n execution_ctx \<Rightarrow> provenance
       \<Rightarrow> ('n lambda_applied, 'n execution_error) result" where
  "canon_stream_apply_lambda_with_tetraplets A self lambda ctx root_provenance =
     res_then (select_by_lambda_from_stream A (map get_result (cs_values self)) lambda ctx) (\<lambda>select_result.
     res_then (case lr_tetraplet_idx select_result of
         Some idx \<Rightarrow> res_then (unwrap (canon_stream_nth idx self)) (\<lambda>resolved_call.
           Ok (get_tetraplet resolved_call, get_provenance resolved_call))
       | None \<Rightarrow> Ok (security_tetraplet_new (rp_current_peer_id (run_params ctx)) (show_lambda lambda) [] [], root_provenance))
       (\<lambda>(tetraplet, prov).
     Ok (lr_result select_result, tetraplet, prov)))"

definition canon_map_apply_lambda ::
    "('n, 'bm) air_ops \<Rightarrow> 'n canon_stream_map \<Rightarrow> lambda_ast \<Rightarrow> 'n execution_ctx \<Rightarrow> ('n jvalue, 'n execution_error) result" where
  "canon_map_apply_lambda A self lambda ctx = res_then (select_by_lambda_from_canon_map A self lambda ctx) (\<lambda>r. Ok (mlr_result r))"

definition canon_map_apply_lambda_with_tetraplets ::
    "('n, 'bm) air_ops \<Rightarrow> 'n canon_stream_map \<Rightarrow> lambda_ast \<Rightarrow> 'n execution_ctx \<Rightarrow> provenance
       \<Rightarrow> ('n lambda_applied, 'n execution_error) result" where
  "canon_map_apply_lambda_with_tetraplets A self lambda ctx root_provenance =
     res_then (select_by_lambda_from_canon_map A self lambda ctx) (\<lambda>r.
     Ok (mlr_result r, mlr_tetraplet r, root_provenance))"

definition iterable_item_parts :: "'n iterable_item \<Rightarrow> 'n jvalue \<times> security_tetraplet \<times> provenance" where
  "iterable_item_parts self = (case self of RefValue v t _ p \<Rightarrow> (v, t, p) | RcValue v t _ p \<Rightarrow> (v, t, p))"

definition iterable_item_apply_lambda ::
    "('n, 'bm) air_ops \<Rightarrow> 'n iterable_item \<Rightarrow> lambda_ast \<Rightarrow> 'n execution_ctx \<Rightarrow> ('n jvalue, 'n execution_error) result" where
  "iterable_item_apply_lambda A self lambda ctx = select_by_lambda_from_scalar A (fst (iterable_item_parts self)) lambda ctx"

definition iterable_item_apply_lambda_with_tetraplets ::
    "('n, 'bm) air_ops \<Rightarrow> 'n iterable_item \<Rightarrow> lambda_ast \<Rightarrow> 'n execution_ctx \<Rightarrow> ('n lambda_applied, 'n execution_error) result" where
  "iterable_item_apply_lambda_with_tetraplets A self lambda ctx =
     (let (v, tetraplet, prov) = iterable_item_parts self in
      res_then (select_by_lambda_from_scalar A v lambda ctx) (\<lambda>selected.
      Ok (selected, populate_tetraplet_with_lambda tetraplet lambda, prov)))"

definition aggregate_apply_lambda_with_tetraplets ::
    "('n, 'bm) air_ops \<Rightarrow> 'n value_aggregate \<Rightarrow> lambda_ast \<Rightarrow> 'n execution_ctx \<Rightarrow> ('n lambda_applied, 'n execution_error) result" where
  "aggregate_apply_lambda_with_tetraplets A self lambda ctx =
     res_then (select_by_lambda_from_scalar A (get_result self) lambda ctx) (\<lambda>selected.
     Ok (selected, populate_tetraplet_with_lambda (get_tetraplet self) lambda, get_provenance self))"

text \<open>\<^verbatim>\<open>ScalarRef::into_jvaluable\<close> followed by \<^verbatim>\<open>as_jvalue\<close> and \<^verbatim>\<open>as_tetraplets\<close>, and by the application of a lambda.\<close>

fun scalar_ref_resolve :: "'n scalar_reference \<Rightarrow> ('n resolved, 'n execution_error) result" where
  "scalar_ref_resolve (ScalarValueRef v) = Ok (get_result v, [get_tetraplet v], get_provenance v)"
| "scalar_ref_resolve (IterableValueRef fs) =
     res_then (expect_peek (fs_iterable fs)) (\<lambda>item.
     let (v, tetraplet, prov) = iterable_item_parts item in
     Ok (v, [tetraplet], prov))"

fun scalar_ref_resolve_wl :: "('n, 'bm) air_ops \<Rightarrow> 'n scalar_reference \<Rightarrow> lambda_ast \<Rightarrow> 'n execution_ctx \<Rightarrow> ('n resolved, 'n execution_error) result" where
  "scalar_ref_resolve_wl A (ScalarValueRef v) lambda ctx =
     res_then (aggregate_apply_lambda_with_tetraplets A v lambda ctx) (\<lambda>(r, t, p). Ok (r, [t], p))"
| "scalar_ref_resolve_wl A (IterableValueRef fs) lambda ctx =
     res_then (expect_peek (fs_iterable fs)) (\<lambda>item.
     res_then (iterable_item_apply_lambda_with_tetraplets A item lambda ctx) (\<lambda>(r, t, p). Ok (r, [t], p)))"

section \<open>The resolver\<close>

definition resolve_const :: "'n jvalue \<Rightarrow> 'n execution_ctx \<Rightarrow> ('n resolved, 'n execution_error) result" where
  "resolve_const jvalue ctx = Ok (jvalue, [literal_tetraplet (rp_init_peer_id (run_params ctx))], ProvLiteral)"

definition resolve_errors ::
    "('n, 'bm) air_ops \<Rightarrow> 'n instruction_error \<Rightarrow> lambda_ast option \<Rightarrow> 'n execution_ctx \<Rightarrow> ('n resolved, 'n execution_error) result" where
  "resolve_errors A instruction_error lens_opt ctx =
     res_then (case lens_opt of
         Some error_accessor \<Rightarrow> select_by_lambda_from_scalar A (ie_error instruction_error) error_accessor ctx
       | None \<Rightarrow> Ok (ie_error instruction_error)) (\<lambda>jvalue.
     let tetraplets = (case ie_tetraplet instruction_error of
         Some tetraplet \<Rightarrow> [tetraplet]
       | None \<Rightarrow> [literal_tetraplet (rp_init_peer_id (run_params ctx))]) in
     Ok (jvalue, tetraplets, ie_provenance instruction_error))"

definition resolve_error_ast ::
    "('n, 'bm) air_ops \<Rightarrow> instruction_error_ast \<Rightarrow> 'n execution_ctx \<Rightarrow> ('n resolved, 'n execution_error) result" where
  "resolve_error_ast A self ctx = resolve_errors A (ctx_error ctx) (error_lens self) ctx"

definition resolve_last_error ::
    "('n, 'bm) air_ops \<Rightarrow> lambda_ast option \<Rightarrow> 'n execution_ctx \<Rightarrow> ('n resolved, 'n execution_error) result" where
  "resolve_last_error A self ctx = resolve_errors A (last_error ctx) self ctx"

definition resolve_scalar :: "ast_scalar \<Rightarrow> 'n execution_ctx \<Rightarrow> ('n resolved, 'n execution_error) result" where
  "resolve_scalar self ctx = res_then (get_ctx_scalar ctx (var_name self)) scalar_ref_resolve"

definition resolve_scalar_wl ::
    "('n, 'bm) air_ops \<Rightarrow> ast_scalar_wl \<Rightarrow> 'n execution_ctx \<Rightarrow> ('n resolved, 'n execution_error) result" where
  "resolve_scalar_wl A self ctx =
     res_then (get_ctx_scalar ctx (wl_name self)) (\<lambda>r. scalar_ref_resolve_wl A r (wl_lambda self) ctx)"

definition resolve_canon_stream :: "ast_canon_stream \<Rightarrow> 'n execution_ctx \<Rightarrow> ('n resolved, 'n execution_error) result" where
  "resolve_canon_stream self ctx =
     res_then (get_canon_stream (var_name self) (scalars_of ctx)) (\<lambda>canon.
     let cs = cswp_canon_stream canon in
     Ok (canon_stream_as_jvalue cs, map get_tetraplet (cs_values cs), ProvCanon (cswp_cid canon)))"

definition resolve_canon_stream_wl ::
    "('n, 'bm) air_ops \<Rightarrow> ast_canon_stream_wl \<Rightarrow> 'n execution_ctx \<Rightarrow> ('n resolved, 'n execution_error) result" where
  "resolve_canon_stream_wl A self ctx =
     res_then (get_canon_stream (wl_name self) (scalars_of ctx)) (\<lambda>canon.
     res_then (canon_stream_apply_lambda_with_tetraplets A (cswp_canon_stream canon) (wl_lambda self) ctx
       (ProvCanon (cswp_cid canon))) (\<lambda>(v, t, p).
     Ok (v, [t], p)))"

definition canon_map_order :: "('n, 'bm) air_ops \<Rightarrow> 'n canon_stream_map \<Rightarrow> stream_map_key list" where
  "canon_map_order A m = key_order A (dom (csm_map m))"

definition resolve_canon_stream_map ::
    "('n, 'bm) air_ops \<Rightarrow> ast_canon_stream_map \<Rightarrow> 'n execution_ctx \<Rightarrow> ('n resolved, 'n execution_error) result" where
  "resolve_canon_stream_map A self ctx =
     res_then (get_canon_map (var_name self) (scalars_of ctx)) (\<lambda>canon.
     let csm = csmwp_canon_stream_map canon in
     Ok (canon_map_as_jvalue (canon_map_order A csm) csm, map get_tetraplet (csm_values csm), ProvCanon (csmwp_cid canon)))"

definition resolve_canon_stream_map_wl ::
    "('n, 'bm) air_ops \<Rightarrow> ast_canon_stream_map_wl \<Rightarrow> 'n execution_ctx \<Rightarrow> ('n resolved, 'n execution_error) result" where
  "resolve_canon_stream_map_wl A self ctx =
     res_then (get_canon_map (wl_name self) (scalars_of ctx)) (\<lambda>canon.
     res_then (canon_map_apply_lambda_with_tetraplets A (csmwp_canon_stream_map canon) (wl_lambda self) ctx
       (ProvCanon (csmwp_cid canon))) (\<lambda>(v, t, p).
     Ok (v, [t], p)))"

fun resolve_variable :: "('n, 'bm) air_ops \<Rightarrow> immutable_variable \<Rightarrow> 'n execution_ctx \<Rightarrow> ('n resolved, 'n execution_error) result" where
  "resolve_variable A (VarScalar v) ctx = resolve_scalar v ctx"
| "resolve_variable A (VarCanonStream v) ctx = resolve_canon_stream v ctx"
| "resolve_variable A (VarCanonStreamMap v) ctx = resolve_canon_stream_map A v ctx"

fun resolve_variable_wl :: "('n, 'bm) air_ops \<Rightarrow> immutable_variable_wl \<Rightarrow> 'n execution_ctx \<Rightarrow> ('n resolved, 'n execution_error) result" where
  "resolve_variable_wl A (VarScalarWl v) ctx = resolve_scalar_wl A v ctx"
| "resolve_variable_wl A (VarCanonStreamWl v) ctx = resolve_canon_stream_wl A v ctx"
| "resolve_variable_wl A (VarCanonStreamMapWl v) ctx = resolve_canon_stream_map_wl A v ctx"

fun resolve_value :: "('n, 'bm) air_ops \<Rightarrow> 'n immutable_value \<Rightarrow> 'n execution_ctx \<Rightarrow> ('n resolved, 'n execution_error) result" where
  "resolve_value A ValInitPeerId ctx = resolve_const (JString (rp_init_peer_id (run_params ctx))) ctx"
| "resolve_value A (ValError e) ctx = resolve_error_ast A e ctx"
| "resolve_value A (ValLastError l) ctx = resolve_last_error A l ctx"
| "resolve_value A (ValLiteral s) ctx = resolve_const (JString s) ctx"
| "resolve_value A ValTimestamp ctx = resolve_const (JNumber (from_u64 (numbers A) (rp_timestamp (run_params ctx)))) ctx"
| "resolve_value A ValTTL ctx = resolve_const (JNumber (from_u64 (numbers A) (unat (rp_ttl (run_params ctx))))) ctx"
| "resolve_value A (ValBoolean b) ctx = resolve_const (JBool b) ctx"
| "resolve_value A (ValNumber n) ctx = resolve_const (number_to_jvalue (numbers A) n) ctx"
| "resolve_value A ValEmptyArray ctx = resolve_const (JArray []) ctx"
| "resolve_value A (ValVariable v) ctx = resolve_variable A v ctx"
| "resolve_value A (ValVariableWl v) ctx = resolve_variable_wl A v ctx"

section \<open>Triplets\<close>

fun try_jvalue_to_string :: "'n jvalue \<Rightarrow> string \<Rightarrow> (string, 'n execution_error) result" where
  "try_jvalue_to_string (JString s) variable_name = Ok s"
| "try_jvalue_to_string jvalue variable_name = Err (Catchable (NonStringValueInTripletResolution variable_name jvalue))"

fun resolve_peer_id_to_string :: "('n, 'bm) air_ops \<Rightarrow> peer_id_variable \<Rightarrow> 'n execution_ctx \<Rightarrow> (string, 'n execution_error) result" where
  "resolve_peer_id_to_string A PeerInitPeerId ctx = Ok (rp_init_peer_id (run_params ctx))"
| "resolve_peer_id_to_string A (PeerLiteral s) ctx = Ok s"
| "resolve_peer_id_to_string A (PeerScalar v) ctx =
     res_then (resolve_scalar v ctx) (\<lambda>(jvalue, _, _). try_jvalue_to_string jvalue (var_name v))"
| "resolve_peer_id_to_string A (PeerScalarWl v) ctx =
     res_then (resolve_scalar_wl A v ctx) (\<lambda>(jvalue, _, _). try_jvalue_to_string jvalue (wl_name v))"
| "resolve_peer_id_to_string A (PeerCanonStreamWl v) ctx =
     res_then (resolve_canon_stream_wl A v ctx) (\<lambda>(jvalue, _, _). try_jvalue_to_string jvalue (wl_name v))"
| "resolve_peer_id_to_string A (PeerCanonStreamMapWl v) ctx =
     res_then (resolve_canon_stream_map_wl A v ctx) (\<lambda>(jvalue, _, _). try_jvalue_to_string jvalue (wl_name v))"

fun resolve_to_string :: "('n, 'bm) air_ops \<Rightarrow> string_variable \<Rightarrow> 'n execution_ctx \<Rightarrow> (string, 'n execution_error) result" where
  "resolve_to_string A (StrLiteral s) ctx = Ok s"
| "resolve_to_string A (StrScalar v) ctx =
     res_then (resolve_scalar v ctx) (\<lambda>(jvalue, _, _). try_jvalue_to_string jvalue (var_name v))"
| "resolve_to_string A (StrScalarWl v) ctx =
     res_then (resolve_scalar_wl A v ctx) (\<lambda>(jvalue, _, _). try_jvalue_to_string jvalue (wl_name v))"
| "resolve_to_string A (StrCanonStreamWl v) ctx =
     res_then (resolve_canon_stream_wl A v ctx) (\<lambda>(jvalue, _, _). try_jvalue_to_string jvalue (wl_name v))"
| "resolve_to_string A (StrCanonStreamMapWl v) ctx =
     res_then (resolve_canon_stream_map_wl A v ctx) (\<lambda>(jvalue, _, _). try_jvalue_to_string jvalue (wl_name v))"

definition resolve_triplet :: "('n, 'bm) air_ops \<Rightarrow> ast_triplet \<Rightarrow> 'n execution_ctx \<Rightarrow> (resolved_triplet, 'n execution_error) result" where
  "resolve_triplet A triplet ctx =
     res_then (resolve_peer_id_to_string A (trip_peer_id triplet) ctx) (\<lambda>peer.
     res_then (resolve_to_string A (trip_service_id triplet) ctx) (\<lambda>service.
     res_then (resolve_to_string A (trip_function_name triplet) ctx) (\<lambda>function.
     Ok \<lparr>rt_peer_pk = peer, rt_service_id = service, rt_function_name = function\<rparr>)))"

end
