(* ===== verification/Instr_Call.thy ===== *)
theory Instr_Call
  imports Resolver
begin

text \<open>
  The instruction \<^verbatim>\<open>call\<close> (\<^verbatim>\<open>execution_step/instructions/call.rs\<close> and \<^verbatim>\<open>instructions/call\<close>), with the vocabulary
  the instructions share: an instruction is a computation on the execution context and the trace handler, and
  the macro \<^verbatim>\<open>joinable!\<close> ends it successfully, with an incomplete subgraph, when an argument is not there yet.
\<close>

section \<open>Computations of instructions\<close>

type_synonym ('n, 'bm) exec_state = "'n execution_ctx \<times> 'bm trace_handler"
type_synonym ('n, 'bm, 'a) exec = "(('n, 'bm) exec_state, 'a, 'n execution_error) comp"

definition on_ctx :: "('n execution_ctx, 'a, 'e) comp \<Rightarrow> (('n, 'bm) exec_state, 'a, 'e) comp" where
  "on_ctx m = zoom fst (\<lambda>f. apfst f) m"

definition on_trace :: "('bm trace_handler, 'a, 'e) comp \<Rightarrow> (('n, 'bm) exec_state, 'a, 'e) comp" where
  "on_trace m = zoom snd (\<lambda>f. apsnd f) m"

definition with_ctx :: "('n execution_ctx \<Rightarrow> ('a, 'e) result) \<Rightarrow> (('n, 'bm) exec_state, 'a, 'e) comp" where
  "with_ctx f = (\<lambda>s. (f (fst s), s))"

definition update_ctx :: "('n execution_ctx \<Rightarrow> 'n execution_ctx) \<Rightarrow> (('n, 'bm) exec_state, unit, 'e) comp" where
  "update_ctx f = modify (apfst f)"

definition on_scalars ::
    "(('n, 'n fold_state) scalars, 'a, 'e) comp \<Rightarrow> (('n, 'bm) exec_state, 'a, 'e) comp" where
  "on_scalars m = on_ctx (zoom scalars_of scalars_of_update m)"

definition on_cid_state :: "('n execution_cid_state, 'a, 'e) comp \<Rightarrow> (('n, 'bm) exec_state, 'a, 'e) comp" where
  "on_cid_state m = on_ctx (zoom cid_state cid_state_update m)"

text \<open>\<^verbatim>\<open>joinable!(m, exec_ctx, ()).map_err(h)?\<close> followed by \<open>k\<close>; \<open>h\<close> updates the context.\<close>

definition joinable_or ::
    "('n execution_error \<Rightarrow> 'n execution_ctx \<Rightarrow> 'n execution_ctx) \<Rightarrow> ('n, 'bm, 'a) exec \<Rightarrow> ('a \<Rightarrow> ('n, 'bm, unit) exec)
       \<Rightarrow> ('n, 'bm, unit) exec" where
  "joinable_or h m k = (\<lambda>s. case m s of
     (Ok a, t) \<Rightarrow> k a t
   | (Err e, t) \<Rightarrow> if is_joinable e then (Ok (), apfst make_subgraph_incomplete t) else (Err e, apfst (h e) t)
   | (Panic, t) \<Rightarrow> (Panic, t))"

definition joinable :: "('n, 'bm, 'a) exec \<Rightarrow> ('a \<Rightarrow> ('n, 'bm, unit) exec) \<Rightarrow> ('n, 'bm, unit) exec" where
  "joinable m k = joinable_or (\<lambda>_ ctx. ctx) m k"

definition current_pos :: "('n, 'bm, trace_pos) exec" where
  "current_pos = (\<lambda>s. (res_map_err (\<lambda>e. Uncatchable (IntConversionError e)) (trace_pos (snd s)), s))"

text \<open>Methods of the trace handler that return nothing.\<close>

definition call_end :: "call_result \<Rightarrow> ('n, 'bm, unit) exec" where
  "call_end r = on_trace (ignore_result (meet_call_end r))"

definition ap_end :: "ap_result \<Rightarrow> ('n, 'bm, unit) exec" where
  "ap_end r = on_trace (ignore_result (meet_ap_end r))"

definition canon_end :: "canon_result \<Rightarrow> ('n, 'bm, unit) exec" where
  "canon_end r = on_trace (ignore_result (meet_canon_end r))"

section \<open>Verifying the parameters of a met call\<close>

definition verify_call ::
    "('n, 'bm) air_ops \<Rightarrow> string \<Rightarrow> security_tetraplet \<Rightarrow> string \<Rightarrow> security_tetraplet \<Rightarrow> (unit, 'n execution_error) result" where
  "verify_call A expected_argument_hash expected_tetraplet stored_argument_hash stored_tetraplet =
     (if expected_argument_hash \<noteq> stored_argument_hash
      then Err (Uncatchable (InstructionParametersMismatch ''call argument_hash'' expected_argument_hash stored_argument_hash))
      else if expected_tetraplet \<noteq> stored_tetraplet
      then Err (Uncatchable (InstructionParametersMismatch ''call tetraplet''
        (tetraplet_debug A expected_tetraplet) (tetraplet_debug A stored_tetraplet)))
      else Ok ())"

section \<open>Setting the result of a call\<close>

definition populate_context_from_peer_service_result ::
    "('n, 'bm) air_ops \<Rightarrow> 'n service_result_aggregate \<Rightarrow> call_output_value \<Rightarrow> security_tetraplet \<Rightarrow> string
       \<Rightarrow> ('n, 'bm, call_result) exec" where
  "populate_context_from_peer_service_result A executed_result output tetraplet arg_hash =
     (case output of
        OutScalar scalar \<Rightarrow>
          and_then (on_cid_state (track_service_result A (sra_result executed_result) tetraplet arg_hash)) (\<lambda>c.
          and_then (on_scalars (set_scalar_value (var_name scalar) (from_service_result executed_result c))) (\<lambda>_.
          and_then (update_ctx (record_call_cid (peer_pk tetraplet) c)) (\<lambda>_.
          ret (executed_scalar c))))
      | OutStream stream \<Rightarrow>
          and_then (on_cid_state (track_service_result A (sra_result executed_result) tetraplet arg_hash)) (\<lambda>c.
          let value_descriptor = \<lparr>svd_value = from_service_result executed_result c, svd_name = var_name stream,
            svd_generation = GenNew, svd_position = var_position stream\<rparr> in
          and_then (on_ctx (zoom streams_of streams_of_update (add_stream_value value_descriptor))) (\<lambda>_.
          and_then (update_ctx (record_call_cid (peer_pk tetraplet) c)) (\<lambda>_.
          ret (executed_stream_stub c))))
      | OutNone \<Rightarrow>
          and_then (lift (res_map_err (\<lambda>e. Uncatchable (CidError e))
            (value_to_json_cid (cids A) (json_value A) (sra_result executed_result)))) (\<lambda>c.
          ret (executed_unused c)))"

definition resolve_met_value ::
    "('n, 'bm) air_ops \<Rightarrow> string \<Rightarrow> security_tetraplet \<Rightarrow> trace_pos \<Rightarrow> cid \<Rightarrow> ('n, 'bm, 'n value_aggregate) exec" where
  "resolve_met_value A arg_hash tetraplet pos c =
     and_then (with_ctx (\<lambda>ctx. resolve_service_info A (cid_state ctx) c)) (\<lambda>info.
     and_then (lift (verify_call A arg_hash tetraplet (argument_hash (rsi_aggregate info)) (rsi_tetraplet info))) (\<lambda>_.
     let r = service_result_aggregate_new (rsi_value info) tetraplet pos in
     ret (from_service_result r c)))"

definition populate_context_from_data ::
    "('n, 'bm) air_ops \<Rightarrow> value_ref \<Rightarrow> string \<Rightarrow> security_tetraplet \<Rightarrow> trace_pos \<Rightarrow> value_source \<Rightarrow> call_output_value
       \<Rightarrow> ('n, 'bm, unit) exec" where
  "populate_context_from_data A v arg_hash tetraplet pos source output =
     (case (output, v) of
        (OutScalar scalar, Scalar c) \<Rightarrow>
          and_then (resolve_met_value A arg_hash tetraplet pos c) (\<lambda>r.
          and_then (on_scalars (set_scalar_value (var_name scalar) r)) (\<lambda>_. ret ()))
      | (OutStream stream, Stream c generation) \<Rightarrow>
          and_then (resolve_met_value A arg_hash tetraplet pos c) (\<lambda>r.
          let value_descriptor = \<lparr>svd_value = r, svd_name = var_name stream,
            svd_generation = generation_from_data source generation, svd_position = var_position stream\<rparr> in
          on_ctx (zoom streams_of streams_of_update (add_stream_value value_descriptor)))
      | (OutNone, Unused _) \<Rightarrow> ret ()
      | (_, v) \<Rightarrow> throw (Uncatchable (CallResultNotCorrespondToInstr v)))"

definition handle_remote_call :: "string \<Rightarrow> ('n, 'bm, unit) exec" where
  "handle_remote_call peer =
     and_then (update_ctx (\<lambda>ctx. ctx\<lparr>next_peer_pks := next_peer_pks ctx @ [peer]\<rparr>)) (\<lambda>_.
     and_then (update_ctx make_subgraph_incomplete) (\<lambda>_.
     and_then (gets (\<lambda>s. sent_peer_id (rp_current_peer_id (run_params (fst s))))) (\<lambda>new_call_result.
     call_end new_call_result)))"

section \<open>Handling the state of a met call\<close>

record state_descriptor =
  should_execute :: bool
  prev_state :: "call_result option"

definition descriptor_executed :: state_descriptor where
  "descriptor_executed = \<lparr>should_execute = False, prev_state = None\<rparr>"

definition descriptor_not_ready :: "call_result \<Rightarrow> state_descriptor" where
  "descriptor_not_ready r = \<lparr>should_execute = False, prev_state = Some r\<rparr>"

definition descriptor_can_execute_now :: "call_result \<Rightarrow> state_descriptor" where
  "descriptor_can_execute_now r = \<lparr>should_execute = True, prev_state = Some r\<rparr>"

definition descriptor_cant_execute_now :: "call_result \<Rightarrow> state_descriptor" where
  "descriptor_cant_execute_now r = \<lparr>should_execute = False, prev_state = Some r\<rparr>"

definition descriptor_no_previous_state :: state_descriptor where
  "descriptor_no_previous_state = \<lparr>should_execute = True, prev_state = None\<rparr>"

definition maybe_set_prev_state :: "state_descriptor \<Rightarrow> ('n, 'bm, unit) exec" where
  "maybe_set_prev_state self = (case prev_state self of Some r \<Rightarrow> call_end r | None \<Rightarrow> ret ())"

definition CALL_SERVICE_SUCCESS :: int where
  "CALL_SERVICE_SUCCESS = 0"

definition I32_MAX :: int where
  "I32_MAX = 2147483647"

definition handle_service_error ::
    "('n, 'bm) air_ops \<Rightarrow> call_service_result \<Rightarrow> string \<Rightarrow> security_tetraplet \<Rightarrow> ('n, 'bm, call_service_result) exec" where
  "handle_service_error A service_result arg_hash tetraplet =
     (if csr_ret_code service_result = CALL_SERVICE_SUCCESS then ret service_result
      else
        let error_message = csr_result service_result;
            error = LocalServiceError (csr_ret_code service_result) error_message;
            failed_value = failed_to_value A (csr_ret_code service_result) error_message in
        and_then (on_cid_state (track_service_result A failed_value tetraplet arg_hash)) (\<lambda>c.
        and_then (update_ctx (record_call_cid (peer_pk tetraplet) c)) (\<lambda>_.
        and_then (call_end (Failed c)) (\<lambda>_.
        throw (Catchable error)))))"

definition show_call_service_result :: "call_service_result \<Rightarrow> string" where
  "show_call_service_result self =
     ''ret_code: '' @ show_int (csr_ret_code self) @ '', result: '' @ CHR 0x27 # csr_result self @ [CHR 0x27]"

definition try_to_service_result ::
    "('n, 'bm) air_ops \<Rightarrow> call_service_result \<Rightarrow> string \<Rightarrow> security_tetraplet \<Rightarrow> ('n, 'bm, 'n jvalue) exec" where
  "try_to_service_result A service_result arg_hash tetraplet =
     (case json_parse A (csr_result service_result) of
        Inr r \<Rightarrow> ret r
      | Inl e \<Rightarrow>
          let error_msg = ''call_service result '' @ CHR 0x27 # show_call_service_result service_result @ CHR 0x27 #
                '' can'' @ CHR 0x27 # ''t be serialized or deserialized with an error: '' @ e;
              failed_value = failed_to_value A I32_MAX error_msg in
          and_then (on_cid_state (track_service_result A failed_value tetraplet arg_hash)) (\<lambda>c.
          and_then (call_end (call_failed c)) (\<lambda>_.
          throw (Catchable (LocalServiceError I32_MAX error_msg)))))"

definition update_state_with_service_result ::
    "('n, 'bm) air_ops \<Rightarrow> security_tetraplet \<Rightarrow> string \<Rightarrow> call_output_value \<Rightarrow> call_service_result \<Rightarrow> ('n, 'bm, unit) exec" where
  "update_state_with_service_result A tetraplet arg_hash output service_result =
     and_then (handle_service_error A service_result arg_hash tetraplet) (\<lambda>service_result.
     and_then (try_to_service_result A service_result arg_hash tetraplet) (\<lambda>r.
     and_then current_pos (\<lambda>pos.
     let executed_result = service_result_aggregate_new r tetraplet pos in
     and_then (populate_context_from_peer_service_result A executed_result output tetraplet arg_hash) (\<lambda>new_call_result.
     call_end new_call_result))))"

definition request_sent_by_other ::
    "met_call_result \<Rightarrow> security_tetraplet \<Rightarrow> string \<Rightarrow> ('n, 'bm, state_descriptor) exec" where
  "request_sent_by_other met_result tetraplet current_peer =
     (if peer_pk tetraplet = current_peer then ret (descriptor_can_execute_now (mcr_result met_result))
      else
        and_then (update_ctx make_subgraph_incomplete) (\<lambda>_.
        ret (descriptor_cant_execute_now (mcr_result met_result))))"

text \<open>The hash of the arguments is there unless an argument is not; the code unwraps it.\<close>

definition handle_prev_state ::
    "('n, 'bm) air_ops \<Rightarrow> met_call_result \<Rightarrow> security_tetraplet \<Rightarrow> string option \<Rightarrow> call_output_value
       \<Rightarrow> ('n, 'bm, state_descriptor) exec" where
  "handle_prev_state A met_result tetraplet arg_hash output =
     and_then (gets (\<lambda>s. rp_current_peer_id (run_params (fst s)))) (\<lambda>current_peer.
     case mcr_result met_result of
       Failed failed_cid \<Rightarrow>
         and_then (with_ctx (\<lambda>ctx. resolve_service_info A (cid_state ctx) failed_cid)) (\<lambda>info.
         and_then (lift (unwrap arg_hash)) (\<lambda>arg_hash.
         and_then (lift (verify_call A arg_hash tetraplet (argument_hash (rsi_aggregate info)) (rsi_tetraplet info))) (\<lambda>_.
         and_then (lift (res_map_err (\<lambda>e. Uncatchable (MalformedCallServiceFailed e))
           (of_sum (failed_from_value A (rsi_value info))))) (\<lambda>(ret_code, err_msg).
         and_then (update_ctx make_subgraph_incomplete) (\<lambda>_.
         and_then (update_ctx (record_call_cid (peer_pk tetraplet) failed_cid)) (\<lambda>_.
         and_then (call_end (mcr_result met_result)) (\<lambda>_.
         throw (Catchable (LocalServiceError ret_code err_msg)))))))))
     | RequestSentBy sender \<Rightarrow>
         (case sender of
            PeerIdWithCallId sender_peer request_id \<Rightarrow>
              if sender_peer = current_peer then
                let request_key = show_nat (unat request_id) in
                and_then (gets (\<lambda>s. call_results (fst s) request_key)) (\<lambda>removed.
                and_then (update_ctx (call_results_update (\<lambda>m. m(request_key := None)))) (\<lambda>_.
                case removed of
                  Some service_result \<Rightarrow>
                    and_then (lift (unwrap arg_hash)) (\<lambda>arg_hash.
                    and_then (update_state_with_service_result A tetraplet arg_hash output service_result) (\<lambda>_.
                    ret descriptor_executed))
                | None \<Rightarrow>
                    and_then (update_ctx make_subgraph_incomplete) (\<lambda>_.
                    ret (descriptor_not_ready (mcr_result met_result)))))
              else request_sent_by_other met_result tetraplet current_peer
          | PeerId _ \<Rightarrow> request_sent_by_other met_result tetraplet current_peer)
     | Executed v \<Rightarrow>
         and_then (lift (unwrap arg_hash)) (\<lambda>arg_hash.
         and_then (populate_context_from_data A v arg_hash tetraplet (mcr_trace_pos met_result) (mcr_source met_result) output) (\<lambda>_.
         and_then (case v of
             Unused _ \<Rightarrow> ret ()
           | Scalar c \<Rightarrow> update_ctx (record_call_cid (peer_pk tetraplet) c)
           | Stream c _ \<Rightarrow> update_ctx (record_call_cid (peer_pk tetraplet) c)) (\<lambda>_.
         and_then (call_end (Executed v)) (\<lambda>_.
         ret descriptor_executed)))))"

section \<open>The instruction\<close>

record 'n resolved_call =
  rc_tetraplet :: security_tetraplet
  rc_function_arg_paths :: "'n immutable_value list"
  rc_output :: call_output_value

definition check_output_name :: "call_output_value \<Rightarrow> 'n execution_ctx \<Rightarrow> (unit, 'n execution_error) result" where
  "check_output_name output ctx =
     (case output of
        OutScalar scalar \<Rightarrow>
          (case get_ctx_scalar ctx (var_name scalar) of
             Ok (ScalarValueRef _) \<Rightarrow>
               if variable_could_be_set (var_name scalar) (scalars_of ctx) then Ok ()
               else Err (Uncatchable (ShadowingIsNotAllowed (var_name scalar)))
           | Ok (IterableValueRef _) \<Rightarrow> Err (Uncatchable (IterableShadowing (var_name scalar)))
           | Err _ \<Rightarrow> Ok ()
           | Panic \<Rightarrow> Panic)
      | _ \<Rightarrow> Ok ())"

definition resolved_call_new ::
    "('n, 'bm) air_ops \<Rightarrow> 'n call_ast \<Rightarrow> 'n execution_ctx \<Rightarrow> ('n resolved_call, 'n execution_error) result" where
  "resolved_call_new A raw_call ctx =
     res_then (resolve_triplet A (call_triplet raw_call) ctx) (\<lambda>triplet.
     let tetraplet = tetraplet_from_triplet triplet in
     res_then (check_output_name (call_output raw_call) ctx) (\<lambda>_.
     Ok \<lparr>rc_tetraplet = tetraplet, rc_function_arg_paths = call_args raw_call, rc_output = call_output raw_call\<rparr>))"

fun collect_args ::
    "('n, 'bm) air_ops \<Rightarrow> 'n immutable_value list \<Rightarrow> 'n execution_ctx
       \<Rightarrow> ('n jvalue list \<times> security_tetraplet list list, 'n execution_error) result" where
  "collect_args A [] ctx = Ok ([], [])"
| "collect_args A (instruction_value # rest) ctx =
     res_then (resolve_value A instruction_value ctx) (\<lambda>(arg, tetraplet, _).
     res_then (collect_args A rest ctx) (\<lambda>(args, tetraplets).
     Ok (arg # args, tetraplet # tetraplets)))"

datatype ('n, 't) check_args_result = CheckOk 't | CheckJoinable "'n execution_error"

fun check_args_result_new :: "('t, 'n execution_error) result \<Rightarrow> (('n, 't) check_args_result, 'n execution_error) result" where
  "check_args_result_new (Ok nested) = Ok (CheckOk nested)"
| "check_args_result_new (Err err) = (if is_joinable err then Ok (CheckJoinable err) else Err err)"
| "check_args_result_new Panic = Panic"

definition check_args ::
    "('n, 'bm) air_ops \<Rightarrow> 'n resolved_call \<Rightarrow> 'n execution_ctx \<Rightarrow> (('n, 'n jvalue list) check_args_result, 'n execution_error) result" where
  "check_args A self ctx =
     check_args_result_new (res_then (collect_args A (rc_function_arg_paths self) ctx) (\<lambda>vs. Ok (fst vs)))"

definition resolve_args ::
    "('n, 'bm) air_ops \<Rightarrow> 'n resolved_call \<Rightarrow> 'n execution_ctx \<Rightarrow> (bytes \<times> security_tetraplet list list, 'n execution_error) result" where
  "resolve_args A self ctx =
     res_then (collect_args A (rc_function_arg_paths self) ctx) (\<lambda>(call_arguments, tetraplets).
     res_then (res_map_err (\<lambda>e. Uncatchable (CallArgumentsSerializationFailed e)) (of_sum (arguments_repr A call_arguments))) (\<lambda>call_arguments.
     Ok (call_arguments, tetraplets)))"

definition prepare_request_params ::
    "('n, 'bm) air_ops \<Rightarrow> 'n resolved_call \<Rightarrow> 'n execution_ctx \<Rightarrow> security_tetraplet \<Rightarrow> (call_request_params, 'n execution_error) result" where
  "prepare_request_params A self ctx tetraplet =
     res_then (resolve_args A self ctx) (\<lambda>(call_arguments, tetraplets).
     res_then (res_map_err (\<lambda>e. Uncatchable (TetrapletSerializationFailed e)) (of_sum (tetraplets_repr A tetraplets))) (\<lambda>serialized_tetraplets.
     Ok \<lparr>crp_service_id = service_id tetraplet, crp_function_name = function_name tetraplet, crp_arguments = call_arguments,
         crp_tetraplets = serialized_tetraplets\<rparr>))"

definition prepare_current_executed_state ::
    "('n, 'bm) air_ops \<Rightarrow> 'n resolved_call \<Rightarrow> 'n call_ast \<Rightarrow> string option \<Rightarrow> ('n, 'bm, state_descriptor) exec" where
  "prepare_current_executed_state A self raw_call arg_hash =
     and_then (on_trace (trace_to_exec_err (show_call raw_call) (meet_call_start (bimaps A)))) (\<lambda>prev_result.
     case prev_result of
       CallMet r \<Rightarrow> handle_prev_state A r (rc_tetraplet self) arg_hash (rc_output self)
     | CallNotMet \<Rightarrow> ret descriptor_no_previous_state)"

text \<open>\<^verbatim>\<open>value_to_json_cid(&args).expect(..)\<close>\<close>

definition hash_args :: "('n, 'bm) air_ops \<Rightarrow> ('n, 'n jvalue list) check_args_result \<Rightarrow> (string option, 'e) result" where
  "hash_args A checked =
     (case checked of
        CheckOk args \<Rightarrow> (case value_to_json_cid (cids A) (json_values A) args of Ok c \<Rightarrow> Ok (Some c) | _ \<Rightarrow> Panic)
      | CheckJoinable _ \<Rightarrow> Ok None)"

definition send_request :: "('n, 'bm) air_ops \<Rightarrow> 'n resolved_call \<Rightarrow> state_descriptor \<Rightarrow> ('n, 'bm, unit) exec" where
  "send_request A self state =
     and_then (gets (\<lambda>s. prepare_request_params A self (fst s) (rc_tetraplet self))) (\<lambda>r.
     case r of
       Err e \<Rightarrow> and_then (if is_joinable e then maybe_set_prev_state state else ret ()) (\<lambda>_. throw e)
     | Panic \<Rightarrow> panic
     | Ok request_params \<Rightarrow>
         and_then (on_ctx next_call_request_id) (\<lambda>request_id.
         and_then (update_ctx (call_requests_update (\<lambda>m. m(request_id \<mapsto> request_params)))) (\<lambda>_.
         and_then (update_ctx make_subgraph_incomplete) (\<lambda>_.
         and_then (gets (\<lambda>s. rp_current_peer_id (run_params (fst s)))) (\<lambda>current_peer.
         call_end (sent_peer_id_with_call_id current_peer request_id))))))"

definition resolved_call_execute :: "('n, 'bm) air_ops \<Rightarrow> 'n resolved_call \<Rightarrow> 'n call_ast \<Rightarrow> ('n, 'bm, unit) exec" where
  "resolved_call_execute A self raw_call =
     and_then (with_ctx (check_args A self)) (\<lambda>checked.
     and_then (lift (hash_args A checked)) (\<lambda>arg_hash.
     and_then (prepare_current_executed_state A self raw_call arg_hash) (\<lambda>state.
     if \<not> should_execute state then maybe_set_prev_state state
     else
       and_then (gets (\<lambda>s. rp_current_peer_id (run_params (fst s)))) (\<lambda>current_peer.
       if peer_pk (rc_tetraplet self) \<noteq> current_peer then handle_remote_call (peer_pk (rc_tetraplet self))
       else send_request A self state))))"

definition call_set_errors ::
    "('n, 'bm) air_ops \<Rightarrow> 'n call_ast \<Rightarrow> security_tetraplet option \<Rightarrow> 'n execution_error \<Rightarrow> 'n execution_ctx \<Rightarrow> 'n execution_ctx" where
  "call_set_errors A call tetraplet e ctx =
     (case e of
        Catchable _ \<Rightarrow> set_errors A e (show_call call) tetraplet (log_errors_with_peer_id (ICall call)) ctx
      | Uncatchable _ \<Rightarrow> ctx)"

definition execute_call :: "('n, 'bm) air_ops \<Rightarrow> 'n call_ast \<Rightarrow> ('n, 'bm, unit) exec" where
  "execute_call A self =
     and_then (on_ctx (zoom tracker tracker_update meet_call)) (\<lambda>_.
     joinable_or (call_set_errors A self None) (with_ctx (resolved_call_new A self)) (\<lambda>rc.
     joinable_or (call_set_errors A self (Some (rc_tetraplet rc))) (resolved_call_execute A rc self) ret))"

end
