(* ===== verification/Instr_Canon.thy ===== *)
theory Instr_Canon
  imports Instr_Call
begin

text \<open>
  The canonicalizing instructions (\<^verbatim>\<open>execution_step/instructions/canon.rs\<close>, \<^verbatim>\<open>canon_map.rs\<close>,
  \<^verbatim>\<open>canon_stream_map_scalar.rs\<close> and \<^verbatim>\<open>canon_utils\<close>). The closures they pass to the shared functions are function
  arguments: the \<^emph>\<open>producer\<close> makes a canon stream of the current values, the \<^emph>\<open>epilog\<close> stores it under its name and
  ends the instruction.
\<close>

type_synonym ('n, 'bm) canon_epilog = "'n canon_stream \<Rightarrow> cid \<Rightarrow> ('n, 'bm, unit) exec"
type_synonym 'n canon_producer = "'n execution_ctx \<Rightarrow> string \<Rightarrow> 'n canon_stream"

definition verify_canon ::
    "('n, 'bm) air_ops \<Rightarrow> security_tetraplet \<Rightarrow> security_tetraplet \<Rightarrow> (unit, 'n execution_error) result" where
  "verify_canon A expected_tetraplet stored_tetraplet =
     (if expected_tetraplet \<noteq> stored_tetraplet
      then Err (Uncatchable (InstructionParametersMismatch ''canon tetraplet''
        (tetraplet_debug A expected_tetraplet) (tetraplet_debug A stored_tetraplet)))
      else Ok ())"

text \<open>Collecting the results of a method called on every element; the first error ends it.\<close>

fun collect_comp :: "('a \<Rightarrow> ('s, 'b, 'e) comp) \<Rightarrow> 'a list \<Rightarrow> ('s, 'b list, 'e) comp" where
  "collect_comp f [] = ret []"
| "collect_comp f (x # xs) =
     and_then (f x) (\<lambda>y.
     and_then (collect_comp f xs) (\<lambda>ys.
     ret (y # ys)))"

fun collect_results :: "('a \<Rightarrow> ('b, 'e) result) \<Rightarrow> 'a list \<Rightarrow> ('b list, 'e) result" where
  "collect_results f [] = Ok []"
| "collect_results f (x # xs) = res_then (f x) (\<lambda>y. res_then (collect_results f xs) (\<lambda>ys. Ok (y # ys)))"

definition populate_unseen_cid_context :: "('n, 'bm) air_ops \<Rightarrow> 'n canon_stream \<Rightarrow> ('n, 'bm, cid) exec" where
  "populate_unseen_cid_context A canon_stream =
     and_then (on_cid_state (collect_comp (track_canon_value A) (cs_values canon_stream))) (\<lambda>value_cids.
     and_then (on_cid_state (zoom tetraplet_tracker tetraplet_tracker_update
       (track_serialized A (ser_tetraplet (serdes A)) (cs_tetraplet canon_stream)))) (\<lambda>t_cid.
     let canon_result = \<lparr>crc_tetraplet = t_cid, crc_values = value_cids\<rparr> in
     and_then (on_cid_state (zoom canon_result_tracker canon_result_tracker_update
       (track_serialized A (ser_canon_result (serdes A)) canon_result))) (\<lambda>canon_result_cid.
     and_then (update_ctx (record_canon_cid (peer_pk (cs_tetraplet canon_stream)) canon_result_cid)) (\<lambda>_.
     ret canon_result_cid))))"

definition create_canon_stream_for_first_time ::
    "('n, 'bm) air_ops \<Rightarrow> ('n, 'bm) canon_epilog \<Rightarrow> 'n canon_producer \<Rightarrow> string \<Rightarrow> ('n, 'bm, unit) exec" where
  "create_canon_stream_for_first_time A epilog create_canon_stream peer =
     and_then (gets (\<lambda>s. create_canon_stream (fst s) peer)) (\<lambda>canon_stream.
     and_then (populate_unseen_cid_context A canon_stream) (\<lambda>canon_result_cid.
     epilog canon_stream canon_result_cid))"

definition handle_canon_request_sent_by ::
    "('n, 'bm) air_ops \<Rightarrow> ('n, 'bm) canon_epilog \<Rightarrow> 'n canon_producer \<Rightarrow> peer_id_variable \<Rightarrow> canon_result \<Rightarrow> ('n, 'bm, unit) exec" where
  "handle_canon_request_sent_by A epilog create_canon_stream peer_id_var canon_result =
     and_then (with_ctx (resolve_peer_id_to_string A peer_id_var)) (\<lambda>peer.
     and_then (gets (\<lambda>s. rp_current_peer_id (run_params (fst s)))) (\<lambda>current_peer.
     if current_peer \<noteq> peer then
       and_then (update_ctx make_subgraph_incomplete) (\<lambda>_.
       canon_end canon_result)
     else create_canon_stream_for_first_time A epilog create_canon_stream peer))"

definition handle_canon_executed ::
    "('n, 'bm) air_ops \<Rightarrow> peer_id_variable \<Rightarrow> ('n, 'bm) canon_epilog \<Rightarrow> cid \<Rightarrow> ('n, 'bm, unit) exec" where
  "handle_canon_executed A peer_id_var epilog canon_result_cid =
     and_then (with_ctx (resolve_peer_id_to_string A peer_id_var)) (\<lambda>peer.
     let expected_tetraplet = security_tetraplet_new peer [] [] [] in
     and_then (with_ctx (\<lambda>ctx. get_canon_result_by_cid (cid_state ctx) canon_result_cid)) (\<lambda>canon_result_agg.
     and_then (with_ctx (\<lambda>ctx. get_tetraplet_by_cid (cid_state ctx) (crc_tetraplet canon_result_agg))) (\<lambda>tetraplet.
     and_then (lift (verify_canon A expected_tetraplet tetraplet)) (\<lambda>_.
     and_then (with_ctx (\<lambda>ctx. collect_results (get_canon_value_by_cid A (cid_state ctx)) (crc_values canon_result_agg))) (\<lambda>values.
     and_then (update_ctx (record_canon_cid (peer_pk tetraplet) canon_result_cid)) (\<lambda>_.
     epilog (canon_stream_new values tetraplet) canon_result_cid))))))"

definition handle_seen_canon ::
    "('n, 'bm) air_ops \<Rightarrow> peer_id_variable \<Rightarrow> ('n, 'bm) canon_epilog \<Rightarrow> 'n canon_producer \<Rightarrow> canon_result \<Rightarrow> ('n, 'bm, unit) exec" where
  "handle_seen_canon A peer_id_var epilog create_canon_stream canon_result =
     (case canon_result of
        CanonRequestSentBy _ \<Rightarrow> handle_canon_request_sent_by A epilog create_canon_stream peer_id_var canon_result
      | CanonExecuted canon_result_cid \<Rightarrow> handle_canon_executed A peer_id_var epilog canon_result_cid)"

definition handle_unseen_canon ::
    "('n, 'bm) air_ops \<Rightarrow> ('n, 'bm) canon_epilog \<Rightarrow> 'n canon_producer \<Rightarrow> peer_id_variable \<Rightarrow> ('n, 'bm, unit) exec" where
  "handle_unseen_canon A epilog create_canon_stream peer_id_var =
     joinable (with_ctx (resolve_peer_id_to_string A peer_id_var)) (\<lambda>peer.
     and_then (gets (\<lambda>s. rp_current_peer_id (run_params (fst s)))) (\<lambda>current_peer.
     if current_peer \<noteq> peer then
       and_then (update_ctx make_subgraph_incomplete) (\<lambda>_.
       and_then (update_ctx (\<lambda>ctx. ctx\<lparr>next_peer_pks := next_peer_pks ctx @ [peer]\<rparr>)) (\<lambda>_.
       canon_end (CanonRequestSentBy current_peer)))
     else create_canon_stream_for_first_time A epilog create_canon_stream peer))"

definition execute_canon_with ::
    "('n, 'bm) air_ops \<Rightarrow> string \<Rightarrow> peer_id_variable \<Rightarrow> ('n, 'bm) canon_epilog \<Rightarrow> 'n canon_producer \<Rightarrow> ('n, 'bm, unit) exec" where
  "execute_canon_with A instr peer_id_var epilog create_canon_producer =
     and_then (on_trace (trace_to_exec_err instr meet_canon_start)) (\<lambda>met.
     case met of
       CanonResult r \<Rightarrow> handle_seen_canon A peer_id_var epilog create_canon_producer r
     | CanonEmpty \<Rightarrow> handle_unseen_canon A epilog create_canon_producer peer_id_var)"

section \<open>\<open>canon\<close>\<close>

definition canon_epilog :: "string \<Rightarrow> ('n, 'bm) canon_epilog" where
  "canon_epilog name canon_stream canon_result_cid =
     (let v = \<lparr>cswp_canon_stream = canon_stream, cswp_cid = canon_result_cid\<rparr> in
      and_then (on_scalars (set_canon_value name v)) (\<lambda>_.
      canon_end (CanonExecuted canon_result_cid)))"

definition canon_producer :: "string \<Rightarrow> air_pos \<Rightarrow> 'n canon_producer" where
  "canon_producer stream_name position ctx peer =
     (let stream = (case streams_get stream_name position (streams_of ctx) of Some s \<Rightarrow> s | None \<Rightarrow> stream_new) in
      canon_stream_from_values (stream_iter stream) peer)"

definition execute_canon :: "('n, 'bm) air_ops \<Rightarrow> canon_ast \<Rightarrow> ('n, 'bm, unit) exec" where
  "execute_canon A self =
     execute_canon_with A (show_instruction (ICanon self :: 'n instruction)) (can_peer_id self)
       (canon_epilog (var_name (can_canon_stream self)))
       (canon_producer (var_name (can_stream self)) (var_position (can_stream self)))"

section \<open>\<open>canon\<close> of a stream map\<close>

definition canon_map_epilog :: "('n, 'bm) air_ops \<Rightarrow> string \<Rightarrow> ('n, 'bm) canon_epilog" where
  "canon_map_epilog A name canon_stream canon_result_cid =
     and_then (lift (from_canon_stream (numbers A) canon_stream)) (\<lambda>canon_stream_map.
     let v = \<lparr>csmwp_canon_stream_map = canon_stream_map, csmwp_cid = canon_result_cid\<rparr> in
     and_then (on_scalars (set_canon_map_value name v)) (\<lambda>_.
     canon_end (CanonExecuted canon_result_cid)))"

definition stream_map_or_default :: "string \<Rightarrow> air_pos \<Rightarrow> 'n execution_ctx \<Rightarrow> 'n stream_map" where
  "stream_map_or_default name position ctx =
     (case stream_maps_get name position (stream_maps_of ctx) of Some m \<Rightarrow> m | None \<Rightarrow> stream_map_new)"

definition canon_map_producer :: "string \<Rightarrow> air_pos \<Rightarrow> 'n canon_producer" where
  "canon_map_producer name position ctx peer =
     canon_stream_from_values (stream_map_iter (stream_map_or_default name position ctx)) peer"

definition execute_canon_map :: "('n, 'bm) air_ops \<Rightarrow> canon_map_ast \<Rightarrow> ('n, 'bm, unit) exec" where
  "execute_canon_map A self =
     execute_canon_with A (show_instruction (ICanonMap self :: 'n instruction)) (cm_peer_id self)
       (canon_map_epilog A (var_name (cm_canon_stream_map self)))
       (canon_map_producer (var_name (cm_stream_map self)) (var_position (cm_stream_map self)))"

section \<open>\<open>canon\<close> of a stream map to a scalar\<close>

definition canon_scalar_epilog :: "string \<Rightarrow> ('n, 'bm) canon_epilog" where
  "canon_scalar_epilog name canon_stream canon_result_cid =
     (let tetraplet = cs_tetraplet canon_stream in
      and_then (lift (ok_or (Uncatchable (CanonStreamMapError NoDataToProduceScalar))
        (case cs_values canon_stream of [] \<Rightarrow> None | v # _ \<Rightarrow> Some (get_result v)))) (\<lambda>v.
      and_then current_pos (\<lambda>position.
      let r = canon_result_aggregate_new v (peer_pk tetraplet) (lens tetraplet) position in
      and_then (on_scalars (set_scalar_value name (from_canon_result r canon_result_cid))) (\<lambda>_.
      canon_end (CanonExecuted canon_result_cid)))))"

definition canon_scalar_producer :: "('n, 'bm) air_ops \<Rightarrow> string \<Rightarrow> air_pos \<Rightarrow> 'n canon_producer" where
  "canon_scalar_producer A name position ctx peer =
     (let pairs = iter_unique_key_object (numbers A) (stream_map_or_default name position ctx);
          v = from_literal_result (literal_aggregate_new (JObject (object_collect pairs)) peer 0) in
      canon_stream_from_values [v] peer)"

definition execute_canon_stream_map_scalar :: "('n, 'bm) air_ops \<Rightarrow> canon_stream_map_scalar_ast \<Rightarrow> ('n, 'bm, unit) exec" where
  "execute_canon_stream_map_scalar A self =
     execute_canon_with A (show_instruction (ICanonStreamMapScalar self :: 'n instruction)) (cs_peer_id self)
       (canon_scalar_epilog (var_name (cs_scalar self)))
       (canon_scalar_producer A (var_name (cs_stream_map self)) (var_position (cs_stream_map self)))"

end
