(* ===== verification/Instr_Ap.thy ===== *)
theory Instr_Ap
  imports Instr_Canon
begin

text \<open>
  The instructions that only move values: \<^verbatim>\<open>ap\<close> to scalars and streams (\<^verbatim>\<open>execution_step/instructions/ap.rs\<close>,
  \<^verbatim>\<open>ap/apply_to_arguments.rs\<close>, \<^verbatim>\<open>ap/utils.rs\<close>), \<^verbatim>\<open>ap\<close> to stream maps (\<^verbatim>\<open>ap_map.rs\<close>), \<^verbatim>\<open>fail\<close> (\<^verbatim>\<open>fail.rs\<close>) and
  the comparison behind \<^verbatim>\<open>match\<close> and \<^verbatim>\<open>mismatch\<close> (\<^verbatim>\<open>compare_matchable\<close>).
\<close>

section \<open>Arguments of \<open>ap\<close>\<close>

text \<open>\<^verbatim>\<open>remove(0)\<close> of a vector, which panics on an empty one.\<close>

definition remove_first :: "'a list \<Rightarrow> ('a, 'e) result" where
  "remove_first xs = index_vec xs 0"

definition apply_const :: "'n jvalue \<Rightarrow> ('n, 'bm, 'n value_aggregate) exec" where
  "apply_const v =
     and_then current_pos (\<lambda>position.
     and_then (gets (\<lambda>s. rp_init_peer_id (run_params (fst s)))) (\<lambda>init_peer.
     ret (from_literal_result (literal_aggregate_new v init_peer position))))"

text \<open>\<^verbatim>\<open>apply_error\<close>, \<^verbatim>\<open>apply_last_error\<close> and \<^verbatim>\<open>apply_scalar_wl\<close> differ in what they resolve, and in whether
they take the tetraplet before or after the position.\<close>

definition apply_error :: "('n execution_ctx \<Rightarrow> ('n resolved, 'n execution_error) result) \<Rightarrow> ('n, 'bm, 'n value_aggregate) exec" where
  "apply_error resolve =
     and_then (with_ctx resolve) (\<lambda>(v, tetraplets, prov).
     and_then (lift (remove_first tetraplets)) (\<lambda>tetraplet.
     and_then current_pos (\<lambda>position.
     ret (value_aggregate_new v tetraplet position prov))))"

definition apply_scalar :: "ast_scalar \<Rightarrow> bool \<Rightarrow> ('n, 'bm, 'n value_aggregate) exec" where
  "apply_scalar scalar should_touch_trace =
     and_then (with_ctx (\<lambda>ctx. get_ctx_scalar ctx (var_name scalar))) (\<lambda>r.
     and_then (lift (case r of
         ScalarValueRef v \<Rightarrow> Ok v
       | IterableValueRef fs \<Rightarrow> res_then (expect_peek (fs_iterable fs)) (\<lambda>item. Ok (into_resolved_result item)))) (\<lambda>v.
     if should_touch_trace then
       and_then current_pos (\<lambda>position.
       ret (set_trace_pos position v))
     else ret v))"

definition apply_scalar_wl :: "('n, 'bm) air_ops \<Rightarrow> ast_scalar_wl \<Rightarrow> ('n, 'bm, 'n value_aggregate) exec" where
  "apply_scalar_wl A scalar =
     and_then (with_ctx (resolve_scalar_wl A scalar)) (\<lambda>(v, tetraplets, prov).
     and_then current_pos (\<lambda>position.
     and_then (lift (remove_first tetraplets)) (\<lambda>tetraplet.
     ret (value_aggregate_new v tetraplet position prov))))"

definition apply_canon_stream :: "ast_canon_stream \<Rightarrow> ('n, 'bm, 'n value_aggregate) exec" where
  "apply_canon_stream stream =
     and_then (with_ctx (\<lambda>ctx. get_canon_stream (var_name stream) (scalars_of ctx))) (\<lambda>canon.
     let v = canon_stream_as_jvalue (cswp_canon_stream canon);
         tetraplet = cs_tetraplet (cswp_canon_stream canon) in
     and_then current_pos (\<lambda>position.
     ret (from_canon_result (canon_result_aggregate_new v (peer_pk tetraplet) (lens tetraplet) position) (cswp_cid canon))))"

definition apply_canon_stream_wl :: "('n, 'bm) air_ops \<Rightarrow> ast_canon_stream_wl \<Rightarrow> ('n, 'bm, 'n value_aggregate) exec" where
  "apply_canon_stream_wl A stream =
     and_then (with_ctx (\<lambda>ctx. get_canon_stream (wl_name stream) (scalars_of ctx))) (\<lambda>canon.
     and_then (with_ctx (\<lambda>ctx. canon_stream_apply_lambda_with_tetraplets A (cswp_canon_stream canon) (wl_lambda stream) ctx
       (ProvCanon (cswp_cid canon)))) (\<lambda>(v, tetraplet, prov).
     and_then current_pos (\<lambda>position.
     ret (value_aggregate_new v tetraplet position prov))))"

definition apply_canon_stream_map :: "('n, 'bm) air_ops \<Rightarrow> ast_canon_stream_map \<Rightarrow> ('n, 'bm, 'n value_aggregate) exec" where
  "apply_canon_stream_map A stream_map =
     and_then (with_ctx (\<lambda>ctx. get_canon_map (var_name stream_map) (scalars_of ctx))) (\<lambda>canon.
     let csm = csmwp_canon_stream_map canon;
         v = canon_map_as_jvalue (canon_map_order A csm) csm;
         tetraplet = csm_tetraplet csm in
     and_then current_pos (\<lambda>position.
     ret (from_canon_result (canon_result_aggregate_new v (peer_pk tetraplet) (lens tetraplet) position) (csmwp_cid canon))))"

definition apply_canon_stream_map_wl ::
    "('n, 'bm) air_ops \<Rightarrow> ast_canon_stream_map_wl \<Rightarrow> ('n, 'bm, 'n value_aggregate) exec" where
  "apply_canon_stream_map_wl A stream_map =
     and_then (with_ctx (\<lambda>ctx. get_canon_map (wl_name stream_map) (scalars_of ctx))) (\<lambda>canon.
     and_then (with_ctx (\<lambda>ctx. canon_map_apply_lambda_with_tetraplets A (csmwp_canon_stream_map canon) (wl_lambda stream_map) ctx
       (ProvCanon (csmwp_cid canon)))) (\<lambda>(v, tetraplet, prov).
     and_then current_pos (\<lambda>position.
     ret (value_aggregate_new v tetraplet position prov))))"

fun apply_to_arg :: "('n, 'bm) air_ops \<Rightarrow> 'n ap_argument \<Rightarrow> bool \<Rightarrow> ('n, 'bm, 'n value_aggregate) exec" where
  "apply_to_arg A ArgInitPeerId t =
     and_then (gets (\<lambda>s. rp_init_peer_id (run_params (fst s)))) (\<lambda>p. apply_const (JString p))"
| "apply_to_arg A (ArgError e) t = apply_error (resolve_error_ast A e)"
| "apply_to_arg A (ArgLastError l) t = apply_error (resolve_last_error A l)"
| "apply_to_arg A (ArgLiteral s) t = apply_const (JString s)"
| "apply_to_arg A ArgTimestamp t =
     and_then (gets (\<lambda>s. rp_timestamp (run_params (fst s)))) (\<lambda>n. apply_const (JNumber (from_u64 (numbers A) n)))"
| "apply_to_arg A ArgTTL t =
     and_then (gets (\<lambda>s. rp_ttl (run_params (fst s)))) (\<lambda>n. apply_const (JNumber (from_u64 (numbers A) (unat n))))"
| "apply_to_arg A (ArgNumber n) t = apply_const (number_to_jvalue (numbers A) n)"
| "apply_to_arg A (ArgBoolean b) t = apply_const (JBool b)"
| "apply_to_arg A ArgEmptyArray t = apply_const (JArray [])"
| "apply_to_arg A (ArgScalar v) t = apply_scalar v t"
| "apply_to_arg A (ArgScalarWl v) t = apply_scalar_wl A v"
| "apply_to_arg A (ArgCanonStream v) t = apply_canon_stream v"
| "apply_to_arg A (ArgCanonStreamWl v) t = apply_canon_stream_wl A v"
| "apply_to_arg A (ArgCanonStreamMap v) t = apply_canon_stream_map A v"
| "apply_to_arg A (ArgCanonStreamMapWl v) t = apply_canon_stream_map_wl A v"

section \<open>\<open>ap\<close>\<close>

fun should_touch_trace :: "'n ap_ast \<Rightarrow> bool" where
  "should_touch_trace ap = (case ap_res ap of ResStream _ \<Rightarrow> True | ResScalar _ \<Rightarrow> False)"

definition to_merger_ap_result :: "('n, 'bm) air_ops \<Rightarrow> 'n ap_ast \<Rightarrow> ('n, 'bm, merger_ap_result) exec" where
  "to_merger_ap_result A instr =
     (case ap_res instr of
        ResScalar _ \<Rightarrow> ret ApNotMet
      | ResStream _ \<Rightarrow> on_trace (trace_to_exec_err (show_instruction (IAp instr)) (meet_ap_start (bimaps A))))"

definition met_generation :: "merger_ap_result \<Rightarrow> generation" where
  "met_generation ap_result = (case ap_result of ApNotMet \<Rightarrow> GenNew | ApMet met_result \<Rightarrow> generation_from_met_result met_result)"

definition generate_value_descriptor ::
    "'n value_aggregate \<Rightarrow> ast_stream \<Rightarrow> merger_ap_result \<Rightarrow> 'n value_aggregate stream_value_descriptor" where
  "generate_value_descriptor v stream ap_result =
     \<lparr>svd_value = v, svd_name = var_name stream, svd_generation = met_generation ap_result, svd_position = var_position stream\<rparr>"

definition generate_map_value_descriptor ::
    "'n value_aggregate \<Rightarrow> ast_stream_map \<Rightarrow> merger_ap_result \<Rightarrow> 'n stream_map_value_descriptor" where
  "generate_map_value_descriptor v stream ap_result =
     \<lparr>smvd_value = v, smvd_name = var_name stream, smvd_generation = met_generation ap_result, smvd_position = var_position stream\<rparr>"

definition ap_populate_context :: "ap_result_ast \<Rightarrow> merger_ap_result \<Rightarrow> 'n value_aggregate \<Rightarrow> ('n, 'bm, unit) exec" where
  "ap_populate_context ap_result merger_ap_result r =
     (case ap_result of
        ResScalar scalar \<Rightarrow> and_then (on_scalars (set_scalar_value (var_name scalar) r)) (\<lambda>_. ret ())
      | ResStream stream \<Rightarrow>
          on_ctx (zoom streams_of streams_of_update (add_stream_value (generate_value_descriptor r stream merger_ap_result))))"

definition execute_ap :: "('n, 'bm) air_ops \<Rightarrow> 'n ap_ast \<Rightarrow> ('n, 'bm, unit) exec" where
  "execute_ap A self =
     joinable (apply_to_arg A (ap_arg self) (should_touch_trace self)) (\<lambda>r.
     and_then (to_merger_ap_result A self) (\<lambda>merger_ap_result.
     and_then (ap_populate_context (ap_res self) merger_ap_result r) (\<lambda>_.
     if should_touch_trace self then ap_end ap_result_stub else ret ())))"

section \<open>\<open>ap\<close> to a stream map\<close>

definition resolve_key :: "('n, 'bm) air_ops \<Rightarrow> ('n resolved, 'n execution_error) result \<Rightarrow> string \<Rightarrow> (stream_map_key, 'n execution_error) result" where
  "resolve_key A resolved map_name =
     res_then resolved (\<lambda>(v, _, _).
     ok_or (Catchable (CatchableStreamMapError (UnsupportedMapKeyType map_name))) (key_from_value (numbers A) v))"

fun resolve_key_if_needed ::
    "('n, 'bm) air_ops \<Rightarrow> stream_map_key_clause \<Rightarrow> string \<Rightarrow> 'n execution_ctx \<Rightarrow> (stream_map_key, 'n execution_error) result" where
  "resolve_key_if_needed A (KeyLiteral s) map_name ctx = Ok (KeyStr s)"
| "resolve_key_if_needed A (KeyInt i) map_name ctx = Ok (KeyI64 i)"
| "resolve_key_if_needed A (KeyScalar v) map_name ctx = resolve_key A (resolve_scalar v ctx) map_name"
| "resolve_key_if_needed A (KeyScalarWl v) map_name ctx = resolve_key A (resolve_scalar_wl A v ctx) map_name"
| "resolve_key_if_needed A (KeyCanonStreamWl v) map_name ctx = resolve_key A (resolve_canon_stream_wl A v ctx) map_name"

definition ap_map_populate_context ::
    "('n, 'bm) air_ops \<Rightarrow> stream_map_key \<Rightarrow> ast_stream_map \<Rightarrow> merger_ap_result \<Rightarrow> 'n value_aggregate \<Rightarrow> ('n, 'bm, unit) exec" where
  "ap_map_populate_context A key ap_map_result merger_ap_result r =
     on_ctx (zoom stream_maps_of stream_maps_of_update
       (add_stream_map_value (numbers A) key (generate_map_value_descriptor r ap_map_result merger_ap_result)))"

definition execute_ap_map :: "('n, 'bm) air_ops \<Rightarrow> 'n ap_map_ast \<Rightarrow> ('n, 'bm, unit) exec" where
  "execute_ap_map A self =
     joinable (apply_to_arg A (am_value self) True) (\<lambda>r.
     and_then (on_trace (trace_to_exec_err (show_instruction (IApMap self)) (meet_ap_start (bimaps A)))) (\<lambda>merger_ap_result.
     joinable (with_ctx (resolve_key_if_needed A (am_key self) (var_name (am_map self)))) (\<lambda>key.
     and_then (ap_map_populate_context A key (am_map self) merger_ap_result r) (\<lambda>_.
     ap_end ap_result_stub))))"

section \<open>\<open>fail\<close>\<close>

definition fail_with_error_object ::
    "'n jvalue \<Rightarrow> security_tetraplet option \<Rightarrow> provenance \<Rightarrow> ('n, 'bm, unit) exec" where
  "fail_with_error_object error tetraplet prov =
     and_then (update_ctx (last_error_desc_update (set_from_error_object error tetraplet prov))) (\<lambda>_.
     and_then (update_ctx make_subgraph_incomplete) (\<lambda>_.
     throw (Catchable (UserError error))))"

definition check_error :: "('n, 'bm) air_ops \<Rightarrow> 'n jvalue \<Rightarrow> ('n, 'bm, unit) exec" where
  "check_error A error = lift (res_map_err (\<lambda>e. Catchable (InvalidErrorObjectError e)) (check_error_object (numbers A) error))"

text \<open>\<^verbatim>\<open>fail_with_scalar\<close> and \<^verbatim>\<open>fail_with_scalar_wl\<close>; the one for canon streams takes the tetraplet after the check.\<close>

definition fail_with_scalar ::
    "('n, 'bm) air_ops \<Rightarrow> ('n execution_ctx \<Rightarrow> ('n resolved, 'n execution_error) result) \<Rightarrow> ('n, 'bm, unit) exec" where
  "fail_with_scalar A resolve =
     and_then (with_ctx resolve) (\<lambda>(v, tetraplets, prov).
     and_then (lift (remove_first tetraplets)) (\<lambda>tetraplet.
     and_then (check_error A v) (\<lambda>_.
     fail_with_error_object v (Some tetraplet) prov)))"

definition fail_with_literals :: "('n, 'bm) air_ops \<Rightarrow> int \<Rightarrow> string \<Rightarrow> fail_ast \<Rightarrow> ('n, 'bm, unit) exec" where
  "fail_with_literals A error_code error_message self =
     and_then (gets (\<lambda>s. rp_init_peer_id (run_params (fst s)))) (\<lambda>init_peer.
     let error_object = error_from_raw_fields_w_peerid (numbers A) error_code error_message (show_fail self) init_peer in
     fail_with_error_object error_object (Some (literal_tetraplet init_peer)) ProvLiteral)"

definition fail_with_canon_stream :: "('n, 'bm) air_ops \<Rightarrow> ast_canon_stream_wl \<Rightarrow> ('n, 'bm, unit) exec" where
  "fail_with_canon_stream A canon =
     and_then (with_ctx (resolve_canon_stream_wl A canon)) (\<lambda>(v, tetraplets, prov).
     and_then (check_error A v) (\<lambda>_.
     and_then (lift (remove_first tetraplets)) (\<lambda>tetraplet.
     fail_with_error_object v (Some tetraplet) prov)))"

definition fail_with_last_error :: "('n, 'bm) air_ops \<Rightarrow> ('n, 'bm, unit) exec" where
  "fail_with_last_error A =
     and_then (gets (\<lambda>s. last_error (fst s))) (\<lambda>error.
     and_then (check_error A (ie_error error)) (\<lambda>_.
     fail_with_error_object (ie_error error) (ie_tetraplet error) (ie_provenance error)))"

definition fail_with_error :: "('n, 'bm) air_ops \<Rightarrow> ('n, 'bm, unit) exec" where
  "fail_with_error A =
     and_then (gets (\<lambda>s. ctx_error (fst s))) (\<lambda>error.
     and_then (check_error A (ie_error error)) (\<lambda>_.
     let failing = fail_with_error_object (ie_error error) (ie_tetraplet error) (ie_provenance error);
         disable = update_ctx (error_desc_update disable_error_setting) in
     case ie_orig_catchable error of
       Some catchable_to_return \<Rightarrow>
         and_then (ignore_result failing) (\<lambda>_.
         and_then disable (\<lambda>_.
         throw (Catchable catchable_to_return)))
     | None \<Rightarrow> (\<lambda>s. case failing s of (r, t) \<Rightarrow> and_then disable (\<lambda>_. lift r) t)))"

fun execute_fail :: "('n, 'bm) air_ops \<Rightarrow> fail_ast \<Rightarrow> ('n, 'bm, unit) exec" where
  "execute_fail A (FailScalar v) = fail_with_scalar A (resolve_scalar v)"
| "execute_fail A (FailScalarWl v) = fail_with_scalar A (resolve_scalar_wl A v)"
| "execute_fail A (FailLiteral ret_code msg) = fail_with_literals A ret_code msg (FailLiteral ret_code msg)"
| "execute_fail A (FailCanonStreamWl v) = fail_with_canon_stream A v"
| "execute_fail A FailLastError = fail_with_last_error A"
| "execute_fail A FailError = fail_with_error A"

section \<open>Comparing values\<close>

definition are_matchable_eq ::
    "('n, 'bm) air_ops \<Rightarrow> 'n immutable_value \<Rightarrow> 'n immutable_value \<Rightarrow> 'n execution_ctx \<Rightarrow> (bool, 'n execution_error) result" where
  "are_matchable_eq A left right ctx =
     res_then (resolve_value A left ctx) (\<lambda>(left_value, _, _).
     res_then (resolve_value A right ctx) (\<lambda>(right_value, _, _).
     Ok (left_value = right_value)))"

end
