(* ===== verification/Executor.thy ===== *)
theory Executor
  imports Instr_Ap
begin

text \<open>
  The instructions that run other instructions (\<^verbatim>\<open>execution_step/instructions\<close>: \<^verbatim>\<open>seq\<close>, \<^verbatim>\<open>par\<close>, \<^verbatim>\<open>xor\<close>, \<^verbatim>\<open>match\<close>,
  \<^verbatim>\<open>mismatch\<close>, \<^verbatim>\<open>new\<close>, \<^verbatim>\<open>next\<close> and the folds) and the dispatch with the macro \<^verbatim>\<open>execute!\<close> (\<^verbatim>\<open>mod.rs\<close>).

  \<^verbatim>\<open>next\<close> runs the body of the fold it belongs to, which the fold stored in the context, so the recursion is not
  structural. \<open>execute\<close> has fuel for its nesting and for the rounds of a fold over a stream; running out of it is
  the extra outcome \<open>OutOfFuel\<close>, which no instruction catches. Each instruction is a definition that takes
  the executor of the inner instructions as an argument.
\<close>

datatype 'n exec_stop = Stop "'n execution_error" | OutOfFuel

type_synonym ('n, 'bm, 'a) run = "(('n, 'bm) exec_state, 'a, 'n exec_stop) comp"
type_synonym ('n, 'bm) runner = "'n instruction \<Rightarrow> ('n, 'bm, unit) run"

definition leaf :: "('n, 'bm, 'a) exec \<Rightarrow> ('n, 'bm, 'a) run" where
  "leaf m = map_err Stop m"

definition traced :: "string \<Rightarrow> ('bm, 'a) handler_comp \<Rightarrow> ('n, 'bm, 'a) run" where
  "traced instr m = leaf (on_trace (trace_to_exec_err instr m))"

text \<open>\<^verbatim>\<open>joinable!(m, exec_ctx, ())?\<close> followed by \<open>k\<close>, as in \<open>joinable\<close>.\<close>

definition joinable_run :: "('n, 'bm, 'a) exec \<Rightarrow> ('a \<Rightarrow> ('n, 'bm, unit) run) \<Rightarrow> ('n, 'bm, unit) run" where
  "joinable_run m k = (\<lambda>s. case m s of
     (Ok a, t) \<Rightarrow> k a t
   | (Err e, t) \<Rightarrow> if is_joinable e then (Ok (), apfst make_subgraph_incomplete t) else (Err (Stop e), t)
   | (Panic, t) \<Rightarrow> (Panic, t))"

text \<open>A call whose result is looked at later, as a value, and giving such a result back.\<close>

definition attempt :: "('n, 'bm, 'a) run \<Rightarrow> ('n, 'bm, ('a, 'n execution_error) result) run" where
  "attempt m = (\<lambda>s. case m s of
     (Ok a, t) \<Rightarrow> (Ok (Ok a), t)
   | (Err (Stop e), t) \<Rightarrow> (Ok (Err e), t)
   | (Err OutOfFuel, t) \<Rightarrow> (Err OutOfFuel, t)
   | (Panic, t) \<Rightarrow> (Panic, t))"

definition give :: "('a, 'n execution_error) result \<Rightarrow> ('n, 'bm, 'a) run" where
  "give r = lift (res_map_err Stop r)"

section \<open>\<open>seq\<close> and \<open>xor\<close>\<close>

definition execute_seq :: "('n, 'bm) runner \<Rightarrow> 'n instruction \<Rightarrow> 'n instruction \<Rightarrow> ('n, 'bm, unit) run" where
  "execute_seq exec l r =
     and_then (update_ctx flush_subgraph_completeness) (\<lambda>_.
     and_then (exec l) (\<lambda>_.
     and_then (gets (\<lambda>s. is_subgraph_complete (fst s))) (\<lambda>complete.
     if complete then exec r else ret ())))"

definition xor_right :: "'n number_ops \<Rightarrow> ('n, 'bm) runner \<Rightarrow> 'n execution_error \<Rightarrow> 'n instruction \<Rightarrow> ('n, 'bm, unit) run" where
  "xor_right N exec e r =
     and_then (update_ctx flush_subgraph_completeness) (\<lambda>_.
     and_then (update_ctx (last_error_desc_update meet_xor_right_branch)) (\<lambda>_.
     and_then (update_ctx (error_desc_update (set_original_execution_error e))) (\<lambda>_.
     and_then (update_ctx (error_desc_update enable_error_setting)) (\<lambda>_.
     and_then (attempt (exec r)) (\<lambda>right_subgraph_result.
     and_then (update_ctx (error_desc_update (clear_error_object_if_needed N))) (\<lambda>_.
     and_then (case right_subgraph_result of
         Ok _ \<Rightarrow> update_ctx (error_desc_update enable_error_setting)
       | _ \<Rightarrow> ret ()) (\<lambda>_.
     give right_subgraph_result)))))))"

definition execute_xor :: "'n number_ops \<Rightarrow> ('n, 'bm) runner \<Rightarrow> 'n instruction \<Rightarrow> 'n instruction \<Rightarrow> ('n, 'bm, unit) run" where
  "execute_xor N exec l r =
     and_then (update_ctx flush_subgraph_completeness) (\<lambda>_.
     and_then (attempt (exec l)) (\<lambda>res.
     case res of
       Err e \<Rightarrow> if is_catchable e then xor_right N exec e r else give res
     | _ \<Rightarrow> give res))"

section \<open>\<open>par\<close>\<close>

record par_completeness_updater =
  left_subgraph_complete :: bool
  right_subgraph_complete :: bool

definition par_completeness_updater_new :: par_completeness_updater where
  "par_completeness_updater_new = \<lparr>left_subgraph_complete = False, right_subgraph_complete = False\<rparr>"

definition par_observe_completeness ::
    "'n execution_ctx \<Rightarrow> subgraph_type \<Rightarrow> par_completeness_updater \<Rightarrow> par_completeness_updater" where
  "par_observe_completeness ctx subgraph self =
     (case subgraph of
        SubgraphLeft \<Rightarrow> self\<lparr>left_subgraph_complete := is_subgraph_complete ctx\<rparr>
      | SubgraphRight \<Rightarrow> self\<lparr>right_subgraph_complete := is_subgraph_complete ctx\<rparr>)"

definition par_set_completeness :: "par_completeness_updater \<Rightarrow> 'n execution_ctx \<Rightarrow> 'n execution_ctx" where
  "par_set_completeness self ctx =
     set_subgraph_completeness (left_subgraph_complete self \<or> right_subgraph_complete self) ctx"

datatype 'n subgraph_result = SubgraphSucceeded | SubgraphFailed "'n execution_error"

fun determine_subgraph_complete :: "'n instruction \<Rightarrow> bool" where
  "determine_subgraph_complete (INext _) = False"
| "determine_subgraph_complete _ = True"

definition execute_subgraph ::
    "('n, 'bm) runner \<Rightarrow> 'n instruction \<Rightarrow> subgraph_type \<Rightarrow> par_completeness_updater
       \<Rightarrow> ('n, 'bm, 'n subgraph_result \<times> par_completeness_updater) run" where
  "execute_subgraph exec subgraph subgraph_type updater =
     and_then (update_ctx (set_subgraph_completeness (determine_subgraph_complete subgraph))) (\<lambda>_.
     and_then (attempt (exec subgraph)) (\<lambda>res.
     and_then (case res of
         Err e \<Rightarrow>
           if is_catchable e then
             and_then (update_ctx make_subgraph_incomplete) (\<lambda>_.
             and_then (traced ''par'' (meet_par_subgraph_end subgraph_type)) (\<lambda>_.
             ret (SubgraphFailed e)))
           else
             and_then (update_ctx make_subgraph_incomplete) (\<lambda>_.
             throw (Stop e))
       | _ \<Rightarrow>
           and_then (traced ''par'' (meet_par_subgraph_end subgraph_type)) (\<lambda>_.
           ret SubgraphSucceeded)) (\<lambda>subgraph_result.
     and_then (gets (\<lambda>s. par_observe_completeness (fst s) subgraph_type updater)) (\<lambda>updater.
     ret (subgraph_result, updater)))))"

fun prepare_par_result :: "'n subgraph_result \<Rightarrow> 'n subgraph_result \<Rightarrow> ('n, 'bm, unit) run" where
  "prepare_par_result (SubgraphFailed _) (SubgraphFailed err) = throw (Stop err)"
| "prepare_par_result _ _ = update_ctx (last_error_desc_update meet_par_successed_end)"

definition execute_par :: "('n, 'bm) runner \<Rightarrow> 'n instruction \<Rightarrow> 'n instruction \<Rightarrow> ('n, 'bm, unit) run" where
  "execute_par exec l r =
     and_then (traced ''par'' meet_par_start) (\<lambda>_.
     and_then (execute_subgraph exec l SubgraphLeft par_completeness_updater_new) (\<lambda>(left_result, updater).
     and_then (execute_subgraph exec r SubgraphRight updater) (\<lambda>(right_result, updater).
     and_then (update_ctx (par_set_completeness updater)) (\<lambda>_.
     prepare_par_result left_result right_result))))"

section \<open>\<open>match\<close>, \<open>mismatch\<close>, \<open>never\<close> and \<open>null\<close>\<close>

definition execute_match ::
    "('n, 'bm) air_ops \<Rightarrow> ('n, 'bm) runner \<Rightarrow> 'n immutable_value \<Rightarrow> 'n immutable_value \<Rightarrow> 'n instruction \<Rightarrow> ('n, 'bm, unit) run" where
  "execute_match A exec left right instr =
     joinable_run (with_ctx (are_matchable_eq A left right)) (\<lambda>are_values_equal.
     if \<not> are_values_equal then throw (Stop (Catchable MatchValuesNotEqual)) else exec instr)"

definition execute_mismatch ::
    "('n, 'bm) air_ops \<Rightarrow> ('n, 'bm) runner \<Rightarrow> 'n immutable_value \<Rightarrow> 'n immutable_value \<Rightarrow> 'n instruction \<Rightarrow> ('n, 'bm, unit) run" where
  "execute_mismatch A exec left right instr =
     joinable_run (with_ctx (are_matchable_eq A left right)) (\<lambda>are_values_equal.
     if are_values_equal then throw (Stop (Catchable MismatchValuesEqual)) else exec instr)"

definition execute_never :: "('n, 'bm, unit) run" where
  "execute_never = update_ctx make_subgraph_incomplete"

definition execute_null :: "('n, 'bm, unit) run" where
  "execute_null = ret ()"

section \<open>\<open>new\<close>\<close>

fun new_scope_start :: "new_argument \<Rightarrow> air_span \<Rightarrow> 'n execution_ctx \<Rightarrow> 'n execution_ctx" where
  "new_scope_start (NewStream v) span ctx = ctx\<lparr>streams_of := meet_scope_start (var_name v) span (streams_of ctx)\<rparr>"
| "new_scope_start (NewStreamMap v) span ctx = ctx\<lparr>stream_maps_of := maps_meet_scope_start (var_name v) span (stream_maps_of ctx)\<rparr>"
| "new_scope_start (NewScalar v) span ctx = ctx\<lparr>scalars_of := new_start_scalar (var_name v) (scalars_of ctx)\<rparr>"
| "new_scope_start (NewCanonStream v) span ctx = ctx\<lparr>scalars_of := new_start_canon_stream (var_name v) (scalars_of ctx)\<rparr>"
| "new_scope_start (NewCanonStreamMap v) span ctx = ctx\<lparr>scalars_of := new_start_canon_stream_map (var_name v) (scalars_of ctx)\<rparr>"

definition new_prolog :: "new_argument \<Rightarrow> air_span \<Rightarrow> ('n, 'bm, unit) run" where
  "new_prolog argument span =
     and_then (update_ctx (new_scope_start argument span)) (\<lambda>_.
     on_ctx (zoom tracker tracker_update (meet_new (span_left span))))"

text \<open>The ends of scopes of streams take the trace handler too.\<close>

definition zoom_with_trace ::
    "('n execution_ctx \<Rightarrow> 't) \<Rightarrow> (('t \<Rightarrow> 't) \<Rightarrow> 'n execution_ctx \<Rightarrow> 'n execution_ctx)
       \<Rightarrow> ('t \<times> 'bm trace_handler, 'a, 'e) comp \<Rightarrow> (('n, 'bm) exec_state, 'a, 'e) comp" where
  "zoom_with_trace g u m = (\<lambda>(ctx, th). case m (g ctx, th) of (r, (x, th')) \<Rightarrow> (r, (u (\<lambda>_. x) ctx, th')))"

fun new_epilog :: "new_argument \<Rightarrow> ('n, 'bm, unit) exec" where
  "new_epilog (NewStream v) = zoom_with_trace streams_of streams_of_update (meet_scope_end get_trace_pos (var_name v))"
| "new_epilog (NewStreamMap v) = zoom_with_trace stream_maps_of stream_maps_of_update (maps_meet_scope_end (var_name v))"
| "new_epilog (NewScalar v) = on_scalars (new_end_scalar (var_name v))"
| "new_epilog (NewCanonStream v) = on_scalars (new_end_canon_stream (var_name v))"
| "new_epilog (NewCanonStreamMap v) = on_scalars (new_end_canon_stream_map (var_name v))"

definition execute_new :: "('n, 'bm) runner \<Rightarrow> new_argument \<Rightarrow> 'n instruction \<Rightarrow> air_span \<Rightarrow> ('n, 'bm, unit) run" where
  "execute_new exec argument instr span =
     and_then (new_prolog argument span) (\<lambda>_.
     and_then (attempt (exec instr)) (\<lambda>instruction_result.
     and_then (attempt (leaf (new_epilog argument))) (\<lambda>epilog_result.
     case (instruction_result, epilog_result) of
       (Ok _, Ok _) \<Rightarrow> ret ()
     | (Err e, _) \<Rightarrow> throw (Stop e)
     | (_, r) \<Rightarrow> give r)))"

section \<open>Folds over scalars\<close>

datatype 'n fold_iterable_scalar = FoldEmpty | ScalarBased "'n iterable_value"

definition fold_from_value :: "'n value_aggregate \<Rightarrow> string \<Rightarrow> ('n fold_iterable_scalar, 'n execution_error) result" where
  "fold_from_value call_result variable_name =
     (case get_result call_result of
        JArray array \<Rightarrow> if array = [] then Ok FoldEmpty else Ok (ScalarBased (ItResolvedCall call_result (length array) 0))
      | v \<Rightarrow> Err (Catchable (FoldIteratesOverNonArray v variable_name)))"

definition fold_from_jvalue ::
    "'n jvalue \<Rightarrow> security_tetraplet \<Rightarrow> provenance \<Rightarrow> lambda_ast \<Rightarrow> ('n fold_iterable_scalar, 'n execution_error) result" where
  "fold_from_jvalue jvalue tetraplet prov lambda =
     (let tetraplet = populate_tetraplet_with_lambda tetraplet lambda in
      case jvalue of
        JArray iterable \<Rightarrow> if iterable = [] then Ok FoldEmpty else Ok (ScalarBased (ItLambdaResult iterable tetraplet prov 0))
      | _ \<Rightarrow> Err (Catchable (FoldIteratesOverNonArray jvalue (show_lambda lambda))))"

definition create_scalar_iterable :: "string \<Rightarrow> 'n execution_ctx \<Rightarrow> ('n fold_iterable_scalar, 'n execution_error) result" where
  "create_scalar_iterable variable_name ctx =
     res_then (get_ctx_scalar ctx variable_name) (\<lambda>r.
     case r of
       ScalarValueRef call_result \<Rightarrow> fold_from_value call_result variable_name
     | IterableValueRef fs \<Rightarrow>
         res_then (expect_peek (fs_iterable fs)) (\<lambda>item.
         fold_from_value (into_resolved_result item) variable_name))"

definition create_scalar_wl_iterable ::
    "('n, 'bm) air_ops \<Rightarrow> ast_scalar_wl \<Rightarrow> 'n execution_ctx \<Rightarrow> ('n fold_iterable_scalar, 'n execution_error) result" where
  "create_scalar_wl_iterable A scalar ctx =
     res_then (get_ctx_scalar ctx (wl_name scalar)) (\<lambda>r.
     case r of
       ScalarValueRef v \<Rightarrow>
         res_then (select_by_lambda_from_scalar A (get_result v) (wl_lambda scalar) ctx) (\<lambda>jvalues.
         fold_from_jvalue jvalues (get_tetraplet v) (get_provenance v) (wl_lambda scalar))
     | IterableValueRef fs \<Rightarrow>
         res_then (expect_peek (fs_iterable fs)) (\<lambda>item.
         res_then (iterable_item_apply_lambda A item (wl_lambda scalar) ctx) (\<lambda>jvalue.
         let (_, tetraplet, prov) = iterable_item_parts item in
         fold_from_jvalue jvalue tetraplet prov (wl_lambda scalar))))"

definition create_canon_stream_iterable_value ::
    "ast_canon_stream \<Rightarrow> 'n execution_ctx \<Rightarrow> ('n fold_iterable_scalar, 'n execution_error) result" where
  "create_canon_stream_iterable_value v ctx =
     res_then (get_canon_stream (var_name v) (scalars_of ctx)) (\<lambda>canon.
     if cs_values (cswp_canon_stream canon) = [] then Ok FoldEmpty
     else Ok (ScalarBased (ItCanonStream (cswp_canon_stream canon) 0)))"

definition create_canon_stream_map_iterable_value ::
    "ast_canon_stream_map \<Rightarrow> 'n execution_ctx \<Rightarrow> ('n fold_iterable_scalar, 'n execution_error) result" where
  "create_canon_stream_map_iterable_value v ctx =
     res_then (get_canon_map (var_name v) (scalars_of ctx)) (\<lambda>canon.
     if csm_values (csmwp_canon_stream_map canon) = [] then Ok FoldEmpty
     else Ok (ScalarBased (ItCanonStreamMap (csm_values (csmwp_canon_stream_map canon)) 0)))"

definition create_canon_stream_map_wl_iterable_value ::
    "('n, 'bm) air_ops \<Rightarrow> ast_canon_stream_map_wl \<Rightarrow> 'n execution_ctx \<Rightarrow> ('n fold_iterable_scalar, 'n execution_error) result" where
  "create_canon_stream_map_wl_iterable_value A v ctx =
     res_then (get_canon_map (wl_name v) (scalars_of ctx)) (\<lambda>canon.
     let csm = csmwp_canon_stream_map canon in
     if csm_values csm = [] then Ok FoldEmpty
     else
       res_then (canon_map_apply_lambda A csm (wl_lambda v) ctx) (\<lambda>jvalues.
       fold_from_jvalue jvalues (csm_tetraplet csm) (ProvCanon (csmwp_cid canon)) (wl_lambda v)))"

definition execute_fold ::
    "('n, 'bm) runner \<Rightarrow> 'n iterable_value \<Rightarrow> iterable_type \<Rightarrow> string \<Rightarrow> 'n instruction \<Rightarrow> 'n instruction option \<Rightarrow> ('n, 'bm, unit) run" where
  "execute_fold exec iterable iterable_type iterator instr last_instr =
     (let fold_state = from_iterable iterable iterable_type instr last_instr in
      and_then (update_ctx (scalars_of_update scalars_fold_start)) (\<lambda>_.
      and_then (leaf (on_scalars (set_iterable_value iterator fold_state))) (\<lambda>_.
      and_then (attempt (exec instr)) (\<lambda>res.
      and_then (update_ctx (scalars_of_update (remove_iterable_value iterator))) (\<lambda>_.
      and_then (with_ctx (\<lambda>ctx. scalars_fold_end (scalars_of ctx))) (\<lambda>sc.
      and_then (update_ctx (scalars_of_update (\<lambda>_. sc))) (\<lambda>_.
      give res)))))))"

fun scalar_iterable ::
    "('n, 'bm) air_ops \<Rightarrow> fold_scalar_iterable \<Rightarrow> 'n execution_ctx \<Rightarrow> ('n fold_iterable_scalar, 'n execution_error) result" where
  "scalar_iterable A (IterScalar v) ctx = create_scalar_iterable (var_name v) ctx"
| "scalar_iterable A (IterScalarWl v) ctx = create_scalar_wl_iterable A v ctx"
| "scalar_iterable A (IterCanonStream v) ctx = create_canon_stream_iterable_value v ctx"
| "scalar_iterable A (IterCanonStreamMap v) ctx = create_canon_stream_map_iterable_value v ctx"
| "scalar_iterable A (IterCanonStreamMapWl v) ctx = create_canon_stream_map_wl_iterable_value A v ctx"
| "scalar_iterable A IterEmptyArray ctx = Ok FoldEmpty"

definition execute_fold_scalar ::
    "('n, 'bm) air_ops \<Rightarrow> ('n, 'bm) runner \<Rightarrow> fold_scalar_iterable \<Rightarrow> ast_scalar \<Rightarrow> 'n instruction \<Rightarrow> 'n instruction option
       \<Rightarrow> ('n, 'bm, unit) run" where
  "execute_fold_scalar A exec iterable iterator instr last_instr =
     joinable_run (with_ctx (scalar_iterable A iterable)) (\<lambda>it.
     case it of
       FoldEmpty \<Rightarrow> ret ()
     | ScalarBased it \<Rightarrow> execute_fold exec it ScalarIterable (var_name iterator) instr last_instr)"

section \<open>Folds over streams\<close>

text \<open>\<^verbatim>\<open>FoldGenerationObserver\<close> is its one field.\<close>

definition observe_generation :: "bool \<Rightarrow> bool \<Rightarrow> bool" where
  "observe_generation completeness observed \<longleftrightarrow> observed \<or> completeness"

definition throw_error_if_not_catchable :: "(unit, 'n execution_error) result \<Rightarrow> (unit, 'n execution_error) result" where
  "throw_error_if_not_catchable r = (case r of Err e \<Rightarrow> if is_catchable e then Ok () else Err e | _ \<Rightarrow> r)"

text \<open>Values of a generation as an iterable, from \<^verbatim>\<open>RecursiveStreamCursor\<close>.\<close>

definition generation_iterable :: "'n value_aggregate list \<Rightarrow> 'n iterable_value" where
  "generation_iterable vs = ItVecResolvedCall vs 0"

fun execute_iterations ::
    "('n, 'bm) air_ops \<Rightarrow> ('n, 'bm) runner \<Rightarrow> string \<Rightarrow> string \<Rightarrow> 'n instruction \<Rightarrow> 'n instruction option \<Rightarrow> u32
       \<Rightarrow> 'n iterable_value list \<Rightarrow> bool \<Rightarrow> ('n, 'bm, bool) run" where
  "execute_iterations A exec fold_to_string iterator instr last_instr fold_id [] observer = ret observer"
| "execute_iterations A exec fold_to_string iterator instr last_instr fold_id (iterable # rest) observer =
     and_then (lift (iterable_peek iterable)) (\<lambda>item.
     case item of
       None \<Rightarrow> execute_iterations A exec fold_to_string iterator instr last_instr fold_id rest observer
     | Some v \<Rightarrow>
         and_then (traced fold_to_string (meet_iteration_start (bimaps A) fold_id (item_pos v))) (\<lambda>_.
         and_then (attempt (execute_fold exec iterable (StreamIterable fold_id) iterator instr last_instr)) (\<lambda>res.
         and_then (give (throw_error_if_not_catchable res)) (\<lambda>_.
         and_then (traced fold_to_string (meet_generation_end fold_id)) (\<lambda>_.
         and_then (gets (\<lambda>s. observe_generation (is_subgraph_complete (fst s)) observer)) (\<lambda>observer.
         execute_iterations A exec fold_to_string iterator instr last_instr fold_id rest observer))))))"

text \<open>
  \<^verbatim>\<open>get_mut_stream\<close> of the two folds: a computation on the stream of the context. The streams are there, the
  folds check it, and no instruction takes them away.
\<close>

type_synonym ('n, 'bm) on_mut_stream =
  "('n value_aggregate stream, 'n value_aggregate recursive_cursor_state \<times> recursive_stream_cursor, 'n exec_stop) comp
     \<Rightarrow> ('n, 'bm, 'n value_aggregate recursive_cursor_state \<times> recursive_stream_cursor) run"

definition on_mut_stream :: "ast_stream \<Rightarrow> ('n, 'bm) on_mut_stream" where
  "on_mut_stream v m =
     and_then (gets (\<lambda>s. streams_get_mut (var_name v) (var_position v) (streams_of (fst s)))) (\<lambda>found.
     and_then (lift (unwrap found)) (\<lambda>i.
     on_ctx (zoom streams_of streams_of_update (on_stream (var_name v) i m))))"

definition on_mut_stream_map :: "ast_stream_map \<Rightarrow> ('n, 'bm) on_mut_stream" where
  "on_mut_stream_map v m =
     and_then (gets (\<lambda>s. stream_maps_get_mut (var_name v) (var_position v) (stream_maps_of (fst s)))) (\<lambda>found.
     and_then (lift (unwrap found)) (\<lambda>i.
     on_ctx (zoom stream_maps_of stream_maps_of_update (on_stream_map (var_name v) i (zoom sm_stream sm_stream_update m)))))"

definition cursor_fold_start ::
    "recursive_stream_cursor \<Rightarrow> ('v stream, 'v recursive_cursor_state \<times> recursive_stream_cursor, 'e) comp" where
  "cursor_fold_start cursor s = (case met_fold_start cursor s of (state, cursor, s) \<Rightarrow> (Ok (state, cursor), s))"

definition cursor_iteration_end ::
    "recursive_stream_cursor \<Rightarrow> ('v stream, 'v recursive_cursor_state \<times> recursive_stream_cursor, 'e) comp" where
  "cursor_iteration_end cursor s = (case met_iteration_end cursor s of
     Ok (state, cursor, s) \<Rightarrow> (Ok (state, cursor), s)
   | Err e \<Rightarrow> (Err e, s)
   | Panic \<Rightarrow> (Panic, s))"

text \<open>The \<^verbatim>\<open>while let\<close> over the cursor; the first argument is its fuel.\<close>

fun stream_rounds ::
    "nat \<Rightarrow> ('n, 'bm) air_ops \<Rightarrow> ('n, 'bm) runner \<Rightarrow> ('n, 'bm) on_mut_stream \<Rightarrow> string \<Rightarrow> string \<Rightarrow> 'n instruction
       \<Rightarrow> 'n instruction option \<Rightarrow> u32 \<Rightarrow> 'n value_aggregate recursive_cursor_state \<Rightarrow> recursive_stream_cursor \<Rightarrow> bool
       \<Rightarrow> ('n, 'bm, bool) run" where
  "stream_rounds n A exec on_mut fold_to_string iterator instr last_instr fold_id Exhausted cursor observer = ret observer"
| "stream_rounds 0 A exec on_mut fold_to_string iterator instr last_instr fold_id (Continue iterables) cursor observer = throw OutOfFuel"
| "stream_rounds (Suc n) A exec on_mut fold_to_string iterator instr last_instr fold_id (Continue iterables) cursor observer =
     and_then (execute_iterations A exec fold_to_string iterator instr last_instr fold_id
       (map generation_iterable iterables) observer) (\<lambda>observer.
     and_then (on_mut (cursor_iteration_end cursor)) (\<lambda>(state, cursor).
     stream_rounds n A exec on_mut fold_to_string iterator instr last_instr fold_id state cursor observer))"

definition execute_with_stream ::
    "nat \<Rightarrow> ('n, 'bm) air_ops \<Rightarrow> ('n, 'bm) runner \<Rightarrow> ('n, 'bm) on_mut_stream \<Rightarrow> string \<Rightarrow> string \<Rightarrow> 'n instruction
       \<Rightarrow> 'n instruction option \<Rightarrow> ('n, 'bm, unit) run" where
  "execute_with_stream n A exec on_mut fold_to_string iterator instr last_instr =
     and_then (on_ctx (zoom tracker tracker_update meet_fold_stream)) (\<lambda>fold_id.
     and_then (traced fold_to_string (meet_fold_start fold_id)) (\<lambda>_.
     and_then (on_mut (cursor_fold_start recursive_cursor_new)) (\<lambda>(state, cursor).
     and_then (stream_rounds n A exec on_mut fold_to_string iterator instr last_instr fold_id state cursor False) (\<lambda>observer.
     and_then (update_ctx (set_subgraph_completeness observer)) (\<lambda>_.
     traced fold_to_string (meet_fold_end fold_id))))))"

definition execute_fold_stream ::
    "nat \<Rightarrow> ('n, 'bm) air_ops \<Rightarrow> ('n, 'bm) runner \<Rightarrow> ast_stream \<Rightarrow> ast_scalar \<Rightarrow> 'n instruction \<Rightarrow> 'n instruction option
       \<Rightarrow> string \<Rightarrow> ('n, 'bm, unit) run" where
  "execute_fold_stream n A exec iterable iterator instr last_instr fold_to_string =
     and_then (gets (\<lambda>s. streams_get (var_name iterable) (var_position iterable) (streams_of (fst s)))) (\<lambda>stream.
     if stream = None then update_ctx make_subgraph_incomplete
     else execute_with_stream n A exec (on_mut_stream iterable) fold_to_string (var_name iterator) instr last_instr)"

definition execute_fold_stream_map ::
    "nat \<Rightarrow> ('n, 'bm) air_ops \<Rightarrow> ('n, 'bm) runner \<Rightarrow> ast_stream_map \<Rightarrow> ast_scalar \<Rightarrow> 'n instruction \<Rightarrow> 'n instruction option
       \<Rightarrow> string \<Rightarrow> ('n, 'bm, unit) run" where
  "execute_fold_stream_map n A exec iterable iterator instr last_instr fold_to_string =
     and_then (gets (\<lambda>s. stream_maps_get (var_name iterable) (var_position iterable) (stream_maps_of (fst s)))) (\<lambda>stream_map.
     if stream_map = None then update_ctx make_subgraph_incomplete
     else execute_with_stream n A exec (on_mut_stream_map iterable) fold_to_string (var_name iterator) instr last_instr)"

section \<open>\<open>next\<close>\<close>

definition get_fold_state :: "string \<Rightarrow> ('n, 'bm, 'n fold_state) run" where
  "get_fold_state name = leaf (with_ctx (\<lambda>ctx. get_iterable name (scalars_of ctx)))"

text \<open>An update of the fold state that \<^verbatim>\<open>get_iterable_mut\<close> returned.\<close>

definition set_fold_state :: "string \<Rightarrow> 'n fold_state \<Rightarrow> ('n, 'bm, unit) run" where
  "set_fold_state name fs =
     update_ctx (scalars_of_update (iterable_variables_update (\<lambda>m. m(name \<mapsto> fs))))"

definition maybe_meet_iteration_start :: "('n, 'bm) air_ops \<Rightarrow> string \<Rightarrow> 'n fold_state \<Rightarrow> ('n, 'bm, unit) run" where
  "maybe_meet_iteration_start A instr fs =
     (case fs_iterable_type fs of
        StreamIterable fold_id \<Rightarrow>
          and_then (lift (expect_peek (fs_iterable fs))) (\<lambda>item.
          traced instr (meet_iteration_start (bimaps A) fold_id (item_pos item)))
      | ScalarIterable \<Rightarrow> ret ())"

definition maybe_meet_iteration_end :: "string \<Rightarrow> 'n fold_state \<Rightarrow> ('n, 'bm, unit) run" where
  "maybe_meet_iteration_end instr fs =
     (case fs_iterable_type fs of
        StreamIterable fold_id \<Rightarrow> traced instr (meet_iteration_end fold_id)
      | ScalarIterable \<Rightarrow> ret ())"

definition maybe_meet_back_iterator :: "string \<Rightarrow> 'n fold_state \<Rightarrow> ('n, 'bm, unit) run" where
  "maybe_meet_back_iterator instr fs =
     (case fs_iterable_type fs of
        StreamIterable fold_id \<Rightarrow> traced instr (meet_back_iterator fold_id)
      | ScalarIterable \<Rightarrow> ret ())"

text \<open>The iterator is exhausted.\<close>

definition next_last :: "('n, 'bm) runner \<Rightarrow> string \<Rightarrow> ('n, 'bm, unit) run" where
  "next_last exec name =
     and_then (get_fold_state name) (\<lambda>fs.
     case fs_last_instr_head fs of
       Some last_instr \<Rightarrow>
         and_then (update_ctx flush_subgraph_completeness) (\<lambda>_.
         exec last_instr)
     | None \<Rightarrow>
         if \<not> fs_back_iteration_started fs \<and> fs_iterable_type fs \<noteq> ScalarIterable then
           and_then (set_fold_state name (fs\<lparr>fs_back_iteration_started := True\<rparr>)) (\<lambda>_.
           update_ctx make_subgraph_incomplete)
         else ret ())"

definition execute_next :: "('n, 'bm) air_ops \<Rightarrow> ('n, 'bm) runner \<Rightarrow> ast_scalar \<Rightarrow> ('n, 'bm, unit) run" where
  "execute_next A exec iterator =
     (let name = var_name iterator; instr = show_instruction (INext iterator :: 'n instruction) in
      and_then (get_fold_state name) (\<lambda>fs.
      and_then (maybe_meet_iteration_end instr fs) (\<lambda>_.
      case iterable_next (fs_iterable fs) of
        (False, _) \<Rightarrow>
          and_then (maybe_meet_back_iterator instr fs) (\<lambda>_.
          next_last exec name)
      | (True, it) \<Rightarrow>
          let fs = fs\<lparr>fs_iterable := it\<rparr> in
          and_then (set_fold_state name fs) (\<lambda>_.
          and_then (maybe_meet_iteration_start A instr fs) (\<lambda>_.
          and_then (update_ctx (scalars_of_update scalars_next_before)) (\<lambda>_.
          and_then (attempt (exec (fs_instr_head fs))) (\<lambda>res.
          and_then (with_ctx (\<lambda>ctx. scalars_next_after (scalars_of ctx))) (\<lambda>sc.
          and_then (update_ctx (scalars_of_update (\<lambda>_. sc))) (\<lambda>_.
          and_then (give res) (\<lambda>_.
          and_then (get_fold_state name) (\<lambda>fs.
          let fs = fs\<lparr>fs_iterable := snd (iterable_prev (fs_iterable fs))\<rparr> in
          and_then (set_fold_state name fs) (\<lambda>_.
          maybe_meet_back_iterator instr fs))))))))))))"

section \<open>Executing an instruction\<close>

text \<open>The macro \<^verbatim>\<open>execute!\<close>.\<close>

definition with_errors :: "('n, 'bm) air_ops \<Rightarrow> 'n instruction \<Rightarrow> ('n, 'bm, unit) run \<Rightarrow> ('n, 'bm, unit) run" where
  "with_errors A instr m = (\<lambda>s. case m s of
     (Err (Stop e), t) \<Rightarrow> (Err (Stop e), apfst (set_errors A e (show_instruction instr) None (log_errors_with_peer_id instr)) t)
   | r \<Rightarrow> r)"

fun execute_body :: "nat \<Rightarrow> ('n, 'bm) air_ops \<Rightarrow> ('n, 'bm) runner \<Rightarrow> ('n, 'bm) runner" where
  "execute_body n A exec (ICall c) = leaf (execute_call A c)"
| "execute_body n A exec (ICanon c) = leaf (execute_canon A c)"
| "execute_body n A exec (ICanonMap c) = leaf (execute_canon_map A c)"
| "execute_body n A exec (ICanonStreamMapScalar c) = leaf (execute_canon_stream_map_scalar A c)"
| "execute_body n A exec (IAp a) = leaf (execute_ap A a)"
| "execute_body n A exec (IApMap a) = leaf (execute_ap_map A a)"
| "execute_body n A exec (IFail f) = leaf (execute_fail A f)"
| "execute_body n A exec (IFoldScalar it v i l span) = execute_fold_scalar A exec it v i l"
| "execute_body n A exec (IFoldStream it v i l span) =
     execute_fold_stream n A exec it v i l (show_instruction (IFoldStream it v i l span))"
| "execute_body n A exec (IFoldStreamMap it v i l span) =
     execute_fold_stream_map n A exec it v i l (show_instruction (IFoldStreamMap it v i l span))"
| "execute_body n A exec INever = execute_never"
| "execute_body n A exec (INew a i span) = execute_new exec a i span"
| "execute_body n A exec (INext v) = execute_next A exec v"
| "execute_body n A exec INull = execute_null"
| "execute_body n A exec (IPar l r) = execute_par exec l r"
| "execute_body n A exec (ISeq l r) = execute_seq exec l r"
| "execute_body n A exec (IXor l r) = execute_xor (numbers A) exec l r"
| "execute_body n A exec (IMatch l r i) = execute_match A exec l r i"
| "execute_body n A exec (IMisMatch l r i) = execute_mismatch A exec l r i"
| "execute_body n A exec IError = panic"

definition execute_instruction :: "nat \<Rightarrow> ('n, 'bm) air_ops \<Rightarrow> ('n, 'bm) runner \<Rightarrow> ('n, 'bm) runner" where
  "execute_instruction n A exec instr =
     (case instr of
        ICall c \<Rightarrow> execute_body n A exec instr
      | _ \<Rightarrow> with_errors A instr (execute_body n A exec instr))"

fun execute :: "nat \<Rightarrow> ('n, 'bm) air_ops \<Rightarrow> ('n, 'bm) runner" where
  "execute 0 A instr = throw OutOfFuel"
| "execute (Suc n) A instr = execute_instruction n A (execute n A) instr"

end
