(* ===== verification/Exec_Relations.thy ===== *)
theory Exec_Relations
  imports Executor
begin

text \<open>
  What holds of every execution, whatever the script: a relation between the states before and after an instruction
  holds of all instructions if it holds of the steps instructions are made of. The locale \<open>comp_relation\<close> has the
  rules for computations, \<open>leaf_relation\<close> the contract of the steps and its consequence for the instructions without
  a body, and \<open>run_relation\<close> adds what instructions with a body need and gives the relation for \<open>execute\<close>.

  The argument \<open>C\<close> says after which errors the relation is claimed: a relation that instructions restore only when
  they get to their end does not hold after an uncatchable error.
\<close>

section \<open>Relations of computations\<close>

fun settled :: "('e \<Rightarrow> bool) \<Rightarrow> ('a, 'e) result \<Rightarrow> bool" where
  "settled C (Ok _) = True"
| "settled C (Err e) = C e"
| "settled C Panic = False"

definition preserves :: "('e \<Rightarrow> bool) \<Rightarrow> ('s \<Rightarrow> 's \<Rightarrow> bool) \<Rightarrow> ('s, 'a, 'e) comp \<Rightarrow> bool" where
  "preserves C R m \<longleftrightarrow> (\<forall>s r t. m s = (r, t) \<longrightarrow> settled C r \<longrightarrow> R s t)"

text \<open>A computation that ends with an error the relation is not claimed after.\<close>

definition unsettled :: "('e \<Rightarrow> bool) \<Rightarrow> ('s, 'a, 'e) comp \<Rightarrow> bool" where
  "unsettled C m \<longleftrightarrow> (\<forall>s r t. m s = (r, t) \<longrightarrow> \<not> settled C r)"

lemma preservesD: "preserves C R m \<Longrightarrow> m s = (r, t) \<Longrightarrow> settled C r \<Longrightarrow> R s t"
  unfolding preserves_def by blast

lemma preservesI: "(\<And>s r t. m s = (r, t) \<Longrightarrow> settled C r \<Longrightarrow> R s t) \<Longrightarrow> preserves C R m"
  unfolding preserves_def by blast

lemma unsettled_preserves: "unsettled C m \<Longrightarrow> preserves C R m"
  unfolding preserves_def unsettled_def by blast

lemma preserves_state: "(\<And>s. R s (snd (m s))) \<Longrightarrow> preserves C R m"
  unfolding preserves_def by (metis snd_conv)

lemma settled_map_err: "settled C (res_map_err h r) = settled (\<lambda>e. C (h e)) r"
  by (cases r) simp_all

lemma preserves_map_err: "preserves (\<lambda>e. C (h e)) R m \<Longrightarrow> preserves C R (map_err h m)"
  by (auto simp: preserves_def map_err_def settled_map_err split: prod.splits)

lemma preserves_leaf: "preserves (\<lambda>e. C (Stop e)) R m \<Longrightarrow> preserves C R (leaf m)"
  unfolding leaf_def by (rule preserves_map_err)

lemma preserves_case_prod: "(\<And>x y. preserves C R (m x y)) \<Longrightarrow> preserves C R (case p of (x, y) \<Rightarrow> m x y)"
  by (cases p) simp

lemma preserves_if: "(b \<Longrightarrow> preserves C R m) \<Longrightarrow> (\<not> b \<Longrightarrow> preserves C R n) \<Longrightarrow> preserves C R (if b then m else n)"
  by simp

lemma preserves_case_option:
  "preserves C R m \<Longrightarrow> (\<And>a. preserves C R (f a)) \<Longrightarrow> preserves C R (case x of None \<Rightarrow> m | Some a \<Rightarrow> f a)"
  by (cases x) simp_all

lemmas preserves_split = preserves_if preserves_case_prod preserves_case_option

locale comp_relation =
  fixes R :: "'s \<Rightarrow> 's \<Rightarrow> bool"
  assumes R_refl: "R s s" and R_trans: "R s t \<Longrightarrow> R t u \<Longrightarrow> R s u"
begin

lemma preserves_pure: "preserves C R (ret a)" "preserves C R (throw e)" "preserves C R panic" "preserves C R (lift r)"
    "preserves C R (gets f)"
  by (simp_all add: preserves_def R_refl)

lemma preserves_and_then: "preserves C R m \<Longrightarrow> (\<And>a. preserves C R (k a)) \<Longrightarrow> preserves C R (and_then m k)"
proof (intro preservesI)
  fix s r t
  assume m: "preserves C R m" "\<And>a. preserves C R (k a)" and eq: "and_then m k s = (r, t)" and c: "settled C r"
  obtain q u where u: "m s = (q, u)" by fastforce
  show "R s t"
  proof (cases q)
    case (Ok a)
    with eq u have "k a u = (r, t)" by (simp add: and_then_def)
    then show ?thesis using Ok R_trans preservesD [OF m(1) u] preservesD [OF m(2)] c by (metis settled.simps(1))
  qed (use eq u c preservesD [OF m(1) u] in \<open>auto simp: and_then_def\<close>)
qed

lemma preserves_collect_comp: "(\<And>x. preserves C R (f x)) \<Longrightarrow> preserves C R (collect_comp f xs)"
  by (induction xs) (auto intro!: preserves_and_then preserves_pure)

end

section \<open>Executions\<close>

fun stop_in :: "('n execution_error \<Rightarrow> bool) \<Rightarrow> 'n exec_stop \<Rightarrow> bool" where
  "stop_in C (Stop e) = C e"
| "stop_in C OutOfFuel = False"

lemma unsettled_and_then:
  assumes "\<And>s e t. m s = (Err e, t) \<Longrightarrow> \<not> C e" "\<And>a. unsettled C (k a)"
  shows "unsettled C (and_then m k)"
  unfolding unsettled_def
proof (intro allI impI)
  fix s r t
  assume eq: "and_then m k s = (r, t)"
  obtain q u where u: "m s = (q, u)" by fastforce
  show "\<not> settled C r"
  proof (cases q)
    case (Ok a)
    with eq u have "k a u = (r, t)" by (simp add: and_then_def)
    with assms(2) show ?thesis unfolding unsettled_def by blast
  qed (use eq u assms(1) in \<open>auto simp: and_then_def\<close>)
qed

lemma unsettled_give: "\<not> C e \<Longrightarrow> unsettled (stop_in C) (give (Err e))" "\<not> C e \<Longrightarrow> unsettled (stop_in C) (throw (Stop e))"
  by (simp_all add: unsettled_def give_def)

lemma unsettled_first: "unsettled C m \<Longrightarrow> unsettled C (and_then m k)"
  unfolding unsettled_def and_then_def
  by (auto split: result.splits prod.splits) (metis settled.simps(1), metis settled.simps(2))

lemma no_stop: "update_ctx f s = (Err e, t) \<Longrightarrow> \<not> D e" "gets g s = (Err e, t) \<Longrightarrow> \<not> D e" "ret a s = (Err e, t) \<Longrightarrow> \<not> D e"
    "attempt m s2 = (Err e2, t2) \<Longrightarrow> \<not> stop_in C e2"
  by (auto simp: update_ctx_def attempt_def split: prod.splits result.splits exec_stop.splits)

locale exec_relation = comp_relation R
  for R :: "('n, 'bm) exec_state \<Rightarrow> ('n, 'bm) exec_state \<Rightarrow> bool"
begin

lemma preserves_give: "preserves C R (give r)"
  by (simp add: preserves_def give_def R_refl)

text \<open>
  What follows an attempt sees the errors the relation is claimed after; after the others it must not get to a result
  the relation is claimed for.
\<close>

lemma preserves_attempt:
  assumes "preserves (stop_in C) R m" "\<And>a. preserves (stop_in C) R (k (Ok a))" "\<And>e. C e \<Longrightarrow> preserves (stop_in C) R (k (Err e))"
    and "\<And>e. \<not> C e \<Longrightarrow> unsettled (stop_in C) (k (Err e))"
  shows "preserves (stop_in C) R (and_then (attempt m) k)"
proof (intro preservesI)
  fix s r t
  assume eq: "and_then (attempt m) k s = (r, t)" and c: "settled (stop_in C) r"
  obtain q u where u: "m s = (q, u)" by (cases "m s")
  consider a where "q = Ok a" | e where "q = Err (Stop e)" "C e" | e where "q = Err (Stop e)" "\<not> C e" | "q = Err OutOfFuel" | "q = Panic"
    by (metis exec_stop.exhaust result.exhaust)
  then show "R s t"
  proof cases
    case (1 a)
    with eq u have "k (Ok a) u = (r, t)" by (simp add: and_then_def attempt_def)
    then show ?thesis using 1 R_trans preservesD [OF assms(1) u] preservesD [OF assms(2)] c by (metis settled.simps(1))
  next
    case (2 e)
    with eq u have "k (Err e) u = (r, t)" by (simp add: and_then_def attempt_def)
    then show ?thesis using R_trans preservesD [OF assms(1) u] preservesD [OF assms(3) [OF 2(2)]] c 2 by (metis settled.simps(2) stop_in.simps(1))
  next
    case (3 e)
    with eq u have "k (Err e) u = (r, t)" by (simp add: and_then_def attempt_def)
    then show ?thesis using assms(4) [OF 3(2)] c unfolding unsettled_def by blast
  qed (use eq u c in \<open>auto simp: and_then_def attempt_def\<close>)
qed

end

section \<open>Instructions without a body\<close>

lemma joinable_or_eq:
  "joinable_or h m k s = (case m s of
     (Ok a, t) \<Rightarrow> k a t
   | (Err e, t) \<Rightarrow> if is_joinable e then (Ok (), apfst make_subgraph_incomplete t) else (Err e, apfst (h e) t)
   | (Panic, t) \<Rightarrow> (Panic, t))"
  by (simp add: joinable_or_def)

lemma joinable_run_eq: "joinable_run m k s = (case m s of
     (Ok a, t) \<Rightarrow> k a t
   | (Err e, t) \<Rightarrow> if is_joinable e then (Ok (), apfst make_subgraph_incomplete t) else (Err (Stop e), t)
   | (Panic, t) \<Rightarrow> (Panic, t))"
  by (simp add: joinable_run_def)

lemma ctx_updates:
  "last_error_desc_update f ctx = ctx\<lparr>last_error_desc := f (last_error_desc ctx)\<rparr>"
  "error_desc_update g ctx = ctx\<lparr>error_desc := g (error_desc ctx)\<rparr>"
  "call_results_update h ctx = ctx\<lparr>call_results := h (call_results ctx)\<rparr>"
  for ctx :: "'n execution_ctx"
  by (cases ctx, simp)+

locale leaf_relation = exec_relation R
  for R :: "('n, 'bm) exec_state \<Rightarrow> ('n, 'bm) exec_state \<Rightarrow> bool" +
  fixes C :: "'n execution_error \<Rightarrow> bool" and A :: "('n, 'bm) air_ops"
  assumes C_catchable: "is_catchable e \<Longrightarrow> C e"
    and R_peers: "R (ctx, th) (ctx\<lparr>next_peer_pks := peers\<rparr>, th)"
    and R_completeness: "R (ctx, th) (ctx\<lparr>subgraph_completeness := b\<rparr>, th)"
    and R_last_error: "R (ctx, th) (ctx\<lparr>last_error_desc := led\<rparr>, th)"
    and R_error: "R (ctx, th) (ctx\<lparr>error_desc := ed\<rparr>, th)"
    and R_tracker: "R (ctx, th) (ctx\<lparr>tracker := tr\<rparr>, th)"
    and R_cid_state: "R (ctx, th) (ctx\<lparr>cid_state := cs\<rparr>, th)"
    and R_record: "R (ctx, th) (ctx\<lparr>cid_tracker := register peer c (cid_tracker ctx)\<rparr>, th)"
    and R_results: "R (ctx, th) (ctx\<lparr>call_results := (call_results ctx)(key := None)\<rparr>, th)"
    and R_request: "u32_add (last_request_id ctx) 1 = (Ok i :: (u32, unit) result) \<Longrightarrow>
      R (ctx, th) (ctx\<lparr>last_request_id := i, call_requests := (call_requests ctx)(i \<mapsto> params)\<rparr>, th)"
    and R_set_scalar: "preserves C R (on_scalars (set_scalar_value name v))"
    and R_set_canon: "preserves C R (on_scalars (set_canon_value name cv))"
    and R_set_canon_map: "preserves C R (on_scalars (set_canon_map_value name mv))"
    and R_add_stream: "preserves C R (on_ctx (zoom streams_of streams_of_update (add_stream_value d)))"
    and R_add_stream_map:
      "preserves C R (on_ctx (zoom stream_maps_of stream_maps_of_update (add_stream_map_value (numbers A) map_key smd)))"
    and R_call_start: "preserves C R (on_trace (trace_to_exec_err instr (meet_call_start (bimaps A))))"
    and R_ap_start: "preserves C R (on_trace (trace_to_exec_err instr (meet_ap_start (bimaps A))))"
    and R_canon_start: "preserves C R (on_trace (trace_to_exec_err instr meet_canon_start))"
    and R_call_end: "preserves C R (call_end cr)"
    and R_ap_end: "preserves C R (ap_end ar)"
    and R_canon_end: "preserves C R (canon_end nr)"
begin

lemma C_joinable: "is_joinable e \<Longrightarrow> C e"
  using C_catchable by (cases e) simp_all

lemma preserves_with_ctx: "preserves C R (with_ctx f)"
  by (simp add: preserves_def with_ctx_def R_refl)

lemma preserves_update: "(\<And>ctx th. R (ctx, th) (f ctx, th)) \<Longrightarrow> preserves C R (update_ctx f)"
  by (auto simp: preserves_def update_ctx_def)

lemma R_incomplete: "R (ctx, th) (make_subgraph_incomplete ctx, th)"
  by (simp add: make_subgraph_incomplete_def R_completeness)

lemma R_set_errors: "R (ctx, th) (set_errors A e instr tetraplet b ctx, th)"
  unfolding set_errors_def Let_def
  by (rule R_trans [OF R_last_error], rule R_trans [OF R_error]) (rule R_error)

lemma preserves_updates: "preserves C R (update_ctx make_subgraph_incomplete)"
    "preserves C R (update_ctx (record_call_cid peer c))" "preserves C R (update_ctx (record_canon_cid peer c))"
    "preserves C R (update_ctx (\<lambda>ctx. ctx\<lparr>next_peer_pks := next_peer_pks ctx @ [peer]\<rparr>))"
    "preserves C R (update_ctx (call_results_update (\<lambda>m. m(key := None))))"
    "preserves C R (update_ctx (last_error_desc_update f))" "preserves C R (update_ctx (error_desc_update g))"
proof -
  show "preserves C R (update_ctx (last_error_desc_update f))" "preserves C R (update_ctx (error_desc_update g))"
    "preserves C R (update_ctx (call_results_update (\<lambda>m. m(key := None))))"
    by (rule preserves_update, subst ctx_updates, simp only: R_last_error R_error R_results)+
qed (rule preserves_update; simp add: R_incomplete R_record R_peers record_call_cid_def record_canon_cid_def)+

lemma preserves_on_cid_state: "preserves C R (on_cid_state m)"
  by (auto simp: preserves_def on_cid_state_def on_ctx_def zoom_def apfst_def map_prod_def R_cid_state split: prod.splits)

lemma preserves_meet_call: "preserves C R (on_ctx (zoom tracker tracker_update n))"
  by (auto simp: preserves_def on_ctx_def zoom_def apfst_def map_prod_def R_tracker split: prod.splits)

lemma preserves_joinable_or:
  assumes m: "preserves C R m" and k: "\<And>a. preserves C R (k a)" and h: "\<And>e ctx th. R (ctx, th) (h e ctx, th)"
  shows "preserves C R (joinable_or h m k)"
proof (intro preservesI)
  fix s r t
  assume eq: "joinable_or h m k s = (r, t)" and c: "settled C r"
  obtain q ctx th where u: "m s = (q, (ctx, th))" by (metis prod.exhaust)
  show "R s t"
  proof (cases q)
    case (Ok a)
    with eq u have "k a (ctx, th) = (r, t)" by (simp add: joinable_or_eq)
    then show ?thesis using Ok R_trans preservesD [OF m u] preservesD [OF k] c by (metis settled.simps(1))
  next
    case (Err e)
    show ?thesis
    proof (cases "is_joinable e")
      case True
      with Err eq u have "t = (make_subgraph_incomplete ctx, th)" by (simp add: joinable_or_eq)
      with True Err C_joinable preservesD [OF m u] show ?thesis using R_trans R_incomplete by simp
    next
      case False
      with Err eq u have "t = (h e ctx, th)" "r = Err e" by (simp_all add: joinable_or_eq)
      with Err c preservesD [OF m u] show ?thesis using R_trans h by simp
    qed
  qed (use eq u c in \<open>simp add: joinable_or_eq\<close>)
qed

lemma preserves_joinable: "preserves C R m \<Longrightarrow> (\<And>a. preserves C R (k a)) \<Longrightarrow> preserves C R (joinable m k)"
  unfolding joinable_def by (rule preserves_joinable_or) (simp_all add: R_refl)

lemma preserves_current_pos: "preserves C R current_pos"
  by (simp add: preserves_def current_pos_def R_refl)

lemmas steps = preserves_pure preserves_and_then preserves_with_ctx preserves_updates preserves_on_cid_state preserves_meet_call
  preserves_joinable preserves_current_pos preserves_split R_set_scalar R_set_canon R_set_canon_map R_add_stream R_add_stream_map
  R_call_start R_ap_start R_canon_start R_call_end R_ap_end R_canon_end

lemma preserves_peer_result: "preserves C R (populate_context_from_peer_service_result A er out tetraplet h)"
  unfolding populate_context_from_peer_service_result_def Let_def by (cases out) (simp_all, (intro steps)+)

lemma preserves_from_data: "preserves C R (populate_context_from_data A v h tetraplet pos source out)"
  unfolding populate_context_from_data_def resolve_met_value_def Let_def
  by (cases out; cases v) (simp_all, (intro steps)+)

lemma preserves_update_state: "preserves C R (update_state_with_service_result A tetraplet h out sr)"
  unfolding update_state_with_service_result_def handle_service_error_def try_to_service_result_def Let_def
  by (intro steps preserves_peer_result; cases "json_parse A (csr_result sr)")
    (auto split: sum.splits intro!: steps)

lemma preserves_other_sender: "preserves C R (request_sent_by_other met tetraplet current_peer)"
  unfolding request_sent_by_other_def by (intro steps)

lemma preserves_prev_state: "preserves C R (handle_prev_state A met tetraplet h out)"
  unfolding handle_prev_state_def Let_def
  by (intro steps; cases "mcr_result met"; simp)
    (auto intro!: steps preserves_from_data preserves_update_state preserves_other_sender
      split: sender.splits value_ref.splits if_splits option.splits)

lemma preserves_next_request:
  "preserves C R (and_then (on_ctx next_call_request_id) (\<lambda>i.
     and_then (update_ctx (call_requests_update (\<lambda>m. m(i \<mapsto> params)))) (\<lambda>_. k i)))"
  if k: "\<And>i. preserves C R (k i)"
proof (intro preservesI)
  fix s r t
  assume eq: "and_then (on_ctx next_call_request_id) (\<lambda>i.
     and_then (update_ctx (call_requests_update (\<lambda>m. m(i \<mapsto> params)))) (\<lambda>_. k i)) s = (r, t)" and c: "settled C r"
  obtain ctx th where s: "s = (ctx, th)" by fastforce
  show "R s t"
  proof (cases "u32_add (last_request_id ctx) 1 :: (u32, unit) result")
    case (Ok i)
    then have "u32_add (last_request_id ctx) 1 = (Ok i :: (u32, 'n execution_error) result)"
      by (simp add: u32_add_cases split: if_splits)
    then have k': "k i (call_requests_update (\<lambda>m. m(i \<mapsto> params)) (ctx\<lparr>last_request_id := i\<rparr>), th) = (r, t)"
      using eq by (simp add: s and_then_def on_ctx_def zoom_def next_call_request_id_def update_ctx_def)
    have "call_requests_update (\<lambda>m. m(i \<mapsto> params)) (ctx\<lparr>last_request_id := i\<rparr>)
        = ctx\<lparr>last_request_id := i, call_requests := (call_requests ctx)(i \<mapsto> params)\<rparr>"
      by (cases ctx) simp
    note k' = k' [unfolded this]
    show ?thesis unfolding s using R_trans [OF R_request [OF Ok]] preservesD [OF k k' c] by blast
  next
    case Panic
    then have "u32_add (last_request_id ctx) 1 = (Panic :: (u32, 'n execution_error) result)"
      by (simp add: u32_add_cases split: if_splits)
    with eq c show ?thesis by (simp add: s and_then_def on_ctx_def zoom_def next_call_request_id_def)
  qed (simp add: u32_add_cases split: if_splits)
qed

lemma preserves_send_request: "preserves C R (send_request A rc st)"
proof -
  have "preserves C R (case req of
       Err e \<Rightarrow> and_then (if is_joinable e then maybe_set_prev_state st else ret ()) (\<lambda>_. throw e)
     | Panic \<Rightarrow> panic
     | Ok request_params \<Rightarrow>
         and_then (on_ctx next_call_request_id) (\<lambda>request_id.
         and_then (update_ctx (call_requests_update (\<lambda>m. m(request_id \<mapsto> request_params)))) (\<lambda>_.
         and_then (update_ctx make_subgraph_incomplete) (\<lambda>_.
         and_then (gets (\<lambda>s. rp_current_peer_id (run_params (fst s)))) (\<lambda>current_peer.
         call_end (sent_peer_id_with_call_id current_peer request_id))))))" for req
  proof (cases req)
    case (Ok params)
    then show ?thesis by (simp, intro preserves_next_request steps)
  qed (auto simp: maybe_set_prev_state_def intro!: steps)
  then show ?thesis
    unfolding send_request_def by (intro preserves_and_then preserves_pure) auto
qed

lemma preserves_resolved_call: "preserves C R (resolved_call_execute A rc raw_call)"
  unfolding resolved_call_execute_def prepare_current_executed_state_def maybe_set_prev_state_def handle_remote_call_def
  by (intro steps preserves_send_request) (auto intro!: steps preserves_prev_state split: merger_call_result.splits)

lemma R_call_set_errors: "R (ctx, th) (call_set_errors A call tetraplet e ctx, th)"
  by (simp add: call_set_errors_def R_set_errors R_refl split: execution_error.splits)

lemma preserves_call: "preserves C R (execute_call A call)"
  unfolding execute_call_def
  by (intro steps preserves_joinable_or preserves_resolved_call R_call_set_errors)

lemma preserves_canon_with:
  assumes "\<And>cs c. preserves C R (epilog cs c)"
  shows "preserves C R (execute_canon_with A instr peer_var epilog create)"
proof -
  have "preserves C R (create_canon_stream_for_first_time A epilog create peer)" for peer
    unfolding create_canon_stream_for_first_time_def populate_unseen_cid_context_def Let_def by (intro steps assms)
  then show ?thesis
    unfolding execute_canon_with_def handle_seen_canon_def handle_canon_request_sent_by_def handle_canon_executed_def
      handle_unseen_canon_def Let_def
    by (intro steps) (auto intro!: steps assms split: merger_canon_result.splits canon_result.splits)
qed

lemma preserves_canons: "preserves C R (execute_canon A c)" "preserves C R (execute_canon_map A cm)"
    "preserves C R (execute_canon_stream_map_scalar A cs)"
  unfolding execute_canon_def execute_canon_map_def execute_canon_stream_map_scalar_def
  by (rule preserves_canon_with; simp add: canon_epilog_def canon_map_epilog_def canon_scalar_epilog_def Let_def; intro steps)+

lemma preserves_apply: "preserves C R (apply_to_arg A arg touch)"
  by (cases arg) (auto intro!: steps simp: apply_const_def apply_error_def apply_scalar_def apply_scalar_wl_def
      apply_canon_stream_def apply_canon_stream_wl_def apply_canon_stream_map_def apply_canon_stream_map_wl_def Let_def)

lemma preserves_ap: "preserves C R (execute_ap A ap)" "preserves C R (execute_ap_map A am)"
  unfolding execute_ap_def execute_ap_map_def to_merger_ap_result_def ap_populate_context_def ap_map_populate_context_def
  by (cases "ap_res ap"; simp) (intro steps preserves_apply)+

lemma preserves_fail_object: "preserves C R (fail_with_error_object error tetraplet prov)"
  unfolding fail_with_error_object_def by (intro steps)

lemma preserves_fail: "preserves C R (execute_fail A f)"
proof -
  have d: "R (ctx, th) (error_desc_update disable_error_setting (make_subgraph_incomplete (last_error_desc_update g ctx)), th)"
    for ctx th g
  proof (rule R_trans, rule R_trans)
    show "R (ctx, th) (last_error_desc_update g ctx, th)" by (subst ctx_updates) (rule R_last_error)
    show "R (last_error_desc_update g ctx, th) (make_subgraph_incomplete (last_error_desc_update g ctx), th)"
      by (rule R_incomplete)
  qed (subst ctx_updates, rule R_error)
  have "preserves C R (fail_with_error A)"
  proof (intro preservesI)
    fix s r t
    assume eq: "fail_with_error A s = (r, t)" and c: "settled C r"
    show "R s t"
      using eq c d R_refl
      by (cases s; cases "check_error_object (numbers A) (ie_error (ctx_error (fst s)))"; cases "ie_orig_catchable (ctx_error (fst s))")
        (auto simp: fail_with_error_def check_error_def fail_with_error_object_def Let_def and_then_lift update_ctx_def
          ignore_result_def and_then_def)
  qed
  then show ?thesis
    by (cases f) (auto intro!: steps preserves_fail_object simp: fail_with_scalar_def fail_with_literals_def
        fail_with_canon_stream_def fail_with_last_error_def check_error_def Let_def)
qed

end

section \<open>Instructions with a body\<close>

locale run_relation = leaf_relation R C A
  for R :: "('n, 'bm) exec_state \<Rightarrow> ('n, 'bm) exec_state \<Rightarrow> bool" and C A +
  assumes R_fold: "(\<And>i. preserves (stop_in C) R (exec i)) \<Longrightarrow> preserves (stop_in C) R (execute_fold exec it ty name instr last_instr)"
    and R_next: "(\<And>i. preserves (stop_in C) R (exec i)) \<Longrightarrow> preserves (stop_in C) R (execute_next A exec v)"
    and R_new: "(\<And>i. preserves (stop_in C) R (exec i)) \<Longrightarrow> preserves (stop_in C) R (execute_new exec arg i span)"
    and R_par_start: "preserves (stop_in C) R (traced text meet_par_start)"
    and R_par_end: "preserves (stop_in C) R (traced text (meet_par_subgraph_end g))"
    and R_fold_start: "preserves (stop_in C) R (traced text (meet_fold_start fold_id))"
    and R_iteration_start: "preserves (stop_in C) R (traced text (meet_iteration_start (bimaps A) fold_id pos))"
    and R_generation_end: "preserves (stop_in C) R (traced text (meet_generation_end fold_id))"
    and R_fold_end: "preserves (stop_in C) R (traced text (meet_fold_end fold_id))"
    and R_cursor: "preserves (stop_in C) R (on_mut_stream v (cursor_fold_start rc))"
      "preserves (stop_in C) R (on_mut_stream v (cursor_iteration_end rc))"
      "preserves (stop_in C) R (on_mut_stream_map v (cursor_fold_start rc))"
      "preserves (stop_in C) R (on_mut_stream_map v (cursor_iteration_end rc))"
begin

abbreviation kept :: "('n, 'bm, 'a) run \<Rightarrow> bool" where
  "kept m \<equiv> preserves (stop_in C) R m"

lemma kept_leaf: "preserves C R m \<Longrightarrow> kept (leaf m)"
  by (rule preserves_leaf) simp

lemma kept_updates: "kept (update_ctx flush_subgraph_completeness)" "kept (update_ctx make_subgraph_incomplete)"
    "kept (update_ctx (set_subgraph_completeness b))" "kept (update_ctx (par_set_completeness pu))"
    "kept (update_ctx (last_error_desc_update f))" "kept (update_ctx (error_desc_update g))"
proof -
  show "kept (update_ctx (last_error_desc_update f))" "kept (update_ctx (error_desc_update g))"
    using preserves_updates(6,7) by (auto simp: preserves_def update_ctx_def)
qed (auto simp: preserves_def update_ctx_def flush_subgraph_completeness_def R_incomplete set_subgraph_completeness_def
    par_set_completeness_def R_completeness)

lemma kept_joinable_run:
  assumes m: "preserves C R m" and k: "\<And>a. kept (k a)"
  shows "kept (joinable_run m k)"
proof (intro preservesI)
  fix s r t
  assume eq: "joinable_run m k s = (r, t)" and c: "settled (stop_in C) r"
  obtain q ctx th where u: "m s = (q, (ctx, th))" by (metis prod.exhaust)
  show "R s t"
  proof (cases q)
    case (Ok a)
    with eq u have "k a (ctx, th) = (r, t)" by (simp add: joinable_run_eq)
    then show ?thesis using Ok R_trans preservesD [OF m u] preservesD [OF k] c by (metis settled.simps(1))
  next
    case (Err e)
    show ?thesis
    proof (cases "is_joinable e")
      case True
      with Err eq u have "t = (make_subgraph_incomplete ctx, th)" by (simp add: joinable_run_eq)
      with True Err C_joinable preservesD [OF m u] show ?thesis using R_trans R_incomplete by simp
    next
      case False
      with Err eq u c preservesD [OF m u] show ?thesis by (auto simp: joinable_run_eq)
    qed
  qed (use eq u c in \<open>simp add: joinable_run_eq\<close>)
qed

lemma kept_with_errors: "kept m \<Longrightarrow> kept (with_errors A instr m)"
proof (intro preservesI)
  fix s r t
  assume m: "kept m" and eq: "with_errors A instr m s = (r, t)" and c: "settled (stop_in C) r"
  obtain q ctx th where u: "m s = (q, (ctx, th))" by (metis prod.exhaust)
  show "R s t"
  proof (cases "\<exists>e. q = Err (Stop e)")
    case True
    with eq u have "t = (set_errors A (SOME e. q = Err (Stop e)) (show_instruction instr) None (log_errors_with_peer_id instr) ctx, th)"
        "r = q"
      by (auto simp: with_errors_def)
    then show ?thesis using R_trans [OF preservesD [OF m u]] R_set_errors c by blast
  next
    case False
    with eq u have "(q, (ctx, th)) = (r, t)"
      by (auto simp: with_errors_def split: result.splits exec_stop.splits)
    with preservesD [OF m u] c show ?thesis by auto
  qed
qed

lemmas kept_steps = preserves_pure preserves_give preserves_and_then preserves_split kept_updates R_par_start R_par_end R_fold_start
  R_iteration_start R_generation_end R_fold_end R_cursor

lemma kept_seq: "(\<And>i. kept (exec i)) \<Longrightarrow> kept (execute_seq exec l r)"
  unfolding execute_seq_def by (intro kept_steps) auto

lemma kept_xor_right: "(\<And>i. kept (exec i)) \<Longrightarrow> kept (xor_right N exec e r)"
  unfolding xor_right_def
  by (intro kept_steps preserves_attempt) (auto intro!: kept_steps unsettled_and_then unsettled_give dest: no_stop)

lemma kept_xor: "(\<And>i. kept (exec i)) \<Longrightarrow> kept (execute_xor N exec l r)"
  unfolding execute_xor_def
  by (intro kept_steps preserves_attempt)
    (auto intro!: kept_steps kept_xor_right unsettled_give simp: C_catchable)

lemma kept_subgraph:
  assumes "\<And>i. kept (exec i)"
  shows "kept (execute_subgraph exec i g updater)"
  unfolding execute_subgraph_def
proof (rule preserves_and_then, intro kept_steps, rule preserves_attempt)
  fix e :: "'n execution_error"
  assume e: "\<not> C e"
  then have "unsettled (stop_in C) (and_then (update_ctx make_subgraph_incomplete) (\<lambda>_. throw (Stop e) :: ('n, 'bm, 'n subgraph_result) run))"
    by (intro unsettled_and_then unsettled_give) (auto dest: no_stop)
  then show "unsettled (stop_in C) (and_then
      (case Err e :: (unit, 'n execution_error) result of
         Err e \<Rightarrow> if is_catchable e then and_then (update_ctx make_subgraph_incomplete)
             (\<lambda>_. and_then (traced ''par'' (meet_par_subgraph_end g)) (\<lambda>_. ret (SubgraphFailed e)))
           else and_then (update_ctx make_subgraph_incomplete) (\<lambda>_. throw (Stop e))
       | _ \<Rightarrow> and_then (traced ''par'' (meet_par_subgraph_end g)) (\<lambda>_. ret SubgraphSucceeded))
      (\<lambda>res. and_then (gets (\<lambda>s. par_observe_completeness (fst s) g updater)) (\<lambda>updater. ret (res, updater)))
      :: ('n, 'bm, 'n subgraph_result \<times> par_completeness_updater) run)"
    using e C_catchable by (cases "is_catchable e"; simp) (rule unsettled_first)
qed (use assms in \<open>auto intro!: kept_steps\<close>)

lemma kept_par: "(\<And>i. kept (exec i)) \<Longrightarrow> kept (execute_par exec l r)"
  unfolding execute_par_def
proof (intro kept_steps kept_subgraph; assumption?)
  fix lr rr :: "'n subgraph_result"
  show "kept (prepare_par_result lr rr)" by (cases "(lr, rr)" rule: prepare_par_result.cases) (auto intro!: kept_steps)
qed

lemma kept_match: "(\<And>i. kept (exec i)) \<Longrightarrow> kept (execute_match A exec l r i)" "(\<And>i. kept (exec i)) \<Longrightarrow> kept (execute_mismatch A exec l r i)"
  unfolding execute_match_def execute_mismatch_def by (intro kept_joinable_run preserves_with_ctx kept_steps; simp)+

lemma kept_fold_scalar: "(\<And>i. kept (exec i)) \<Longrightarrow> kept (execute_fold_scalar A exec it v i l)"
  unfolding execute_fold_scalar_def
  by (intro kept_joinable_run preserves_with_ctx) (auto intro!: kept_steps R_fold split: fold_iterable_scalar.splits)

lemma kept_iterations:
  assumes "\<And>i. kept (exec i)"
  shows "kept (execute_iterations A exec text name i l fold_id its observer)"
proof (induction its arbitrary: observer)
  case (Cons it its)
  have r: "\<not> C e \<Longrightarrow> unsettled (stop_in C) (and_then (give (throw_error_if_not_catchable (Err e))) k)"
    for e and k :: "unit \<Rightarrow> ('n, 'bm, bool) run"
    using C_catchable by (intro unsettled_first) (auto simp: throw_error_if_not_catchable_def intro: unsettled_give)
  show ?case
    by (simp, intro kept_steps Cons.IH preserves_attempt R_fold assms r) auto
qed (simp add: preserves_pure)

lemma kept_rounds:
  assumes "\<And>i. kept (exec i)" "\<And>rc. kept (on_mut (cursor_iteration_end rc))"
  shows "kept (stream_rounds n A exec on_mut text name i l fold_id st rc observer)"
proof (induction n arbitrary: st rc observer)
  case 0
  then show ?case by (cases st) (simp_all add: preserves_def R_refl)
next
  case (Suc n)
  then show ?case
  proof (cases st)
    case Exhausted
    then show ?thesis by (simp add: preserves_def R_refl)
  qed (auto intro!: kept_steps kept_iterations assms)
qed

lemma kept_with_stream:
  assumes "\<And>i. kept (exec i)" "\<And>rc. kept (on_mut (cursor_iteration_end rc))" "\<And>rc. kept (on_mut (cursor_fold_start rc))"
  shows "kept (execute_with_stream n A exec on_mut text name i l)"
proof -
  have "kept (on_ctx (zoom tracker tracker_update meet_fold_stream))"
    using preserves_meet_call by (auto simp: preserves_def on_ctx_def zoom_def apfst_def map_prod_def R_tracker split: prod.splits)
  then show ?thesis
    unfolding execute_with_stream_def by (intro kept_steps kept_rounds assms) auto
qed

lemma kept_fold_streams: "(\<And>i. kept (exec i)) \<Longrightarrow> kept (execute_fold_stream n A exec it v i l text)"
    "(\<And>i. kept (exec i)) \<Longrightarrow> kept (execute_fold_stream_map n A exec it v i l text)"
  unfolding execute_fold_stream_def execute_fold_stream_map_def by (intro kept_steps kept_with_stream; simp)+

lemma kept_body: "(\<And>i. kept (exec i)) \<Longrightarrow> kept (execute_body n A exec instr)"
  by (cases instr)
    (auto intro!: kept_leaf preserves_call preserves_canons preserves_ap preserves_fail kept_seq kept_xor kept_par kept_match
      kept_fold_scalar kept_fold_streams R_next R_new simp: execute_never_def execute_null_def kept_updates preserves_pure)

lemma kept_execute: "kept (execute n A instr)"
proof (induction n arbitrary: instr)
  case 0
  then show ?case by (simp add: preserves_def R_refl)
next
  case (Suc n)
  then show ?case
    using kept_body [of "execute n A" n instr] kept_with_errors [of "execute_body n A (execute n A) instr"]
    unfolding execute.simps execute_instruction_def by (simp only: split: instruction.split) blast
qed

lemma execute_related: "execute n A instr s = (r, t) \<Longrightarrow> settled (stop_in C) r \<Longrightarrow> R s t"
  by (rule preservesD [OF kept_execute])

end

end
