(* ===== verification/Exec_Footprint.thy ===== *)
theory Exec_Footprint
  imports Exec_Relations
begin

text \<open>
  What an execution does to the parts of the state that outlive it: the trace handler, the call requests and results
  and the CIDs the peer signs. The locale \<open>footprint_relation\<close> is the contract of a relation on those parts, five laws,
  one per kind of change; every script keeps such a relation whatever its result is, errors and panics of an inner
  instruction apart. Its interpretations give the properties of requests, of consumed results, of tracked
  CIDs and of the trace handler.
\<close>

section \<open>Runs of the trace handler\<close>

abbreviation handler_run :: "'bm bimap_ops \<Rightarrow> 'bm trace_handler \<Rightarrow> 'bm trace_handler \<Rightarrow> bool" where
  "handler_run B \<equiv> (handler_step B)\<^sup>*\<^sup>*"

interpretation hr: comp_relation "handler_run B" for B
  by unfold_locales auto

interpretation hr2: comp_relation "\<lambda>s t. handler_run B (snd s) (snd t)" for B
  by unfold_locales auto

lemma run_update_generations: "preserves C (handler_run B) (update_generations pos_of rows start)"
proof -
  have "preserves D (handler_run B) (update_generation p g)" for D p g
    by (intro preservesI) (metis handler_step.generation_update r_into_rtranclp)
  then have v: "preserves C (handler_run B) (update_generation_values pos_of vs g)" for pos_of vs g
    by (induction vs) (simp add: preserves_def, unfold update_generation_values.simps, (intro hr.preserves_and_then preserves_map_err; simp))
  have "preserves C (handler_run B) (update_generations_from pos_of n rows start)" for n
    by (induction rows arbitrary: n)
      (simp add: preserves_def, unfold update_generations_from.simps, (intro hr.preserves_and_then hr.preserves_pure v; simp))
  then show ?thesis by (simp add: update_generations_def)
qed

lemma run_zoom_snd:
  "preserves C (handler_run B) m \<Longrightarrow> preserves C (\<lambda>s t. handler_run B (snd s) (snd t)) (zoom snd (\<lambda>f. apsnd f) m)"
  by (auto simp: preserves_def zoom_def split: prod.splits)

lemma run_modify_fst: "preserves C (\<lambda>s t. handler_run B (snd s) (snd t)) (modify (apfst f))"
  by (auto simp: preserves_def)

lemma run_compactify: "preserves C (\<lambda>s t. handler_run B (snd s) (snd t)) (compactify pos_of)"
  unfolding compactify_def Let_def
  by (intro hr2.preserves_and_then hr2.preserves_pure run_modify_fst run_zoom_snd run_update_generations)

lemma run_scope_ends: "preserves C (\<lambda>s t. handler_run B (snd s) (snd t)) (meet_scope_end pos_of name)"
    "preserves C (\<lambda>s t. handler_run B (snd s) (snd t)) (maps_meet_scope_end name)"
proof -
  have c: "preserves C (handler_run B) (\<lambda>th. case compactify pos_of (x, th) of (r, (_, th')) \<Rightarrow> (r, th'))" for x pos_of
    using run_compactify [of C B pos_of] by (fastforce simp: preserves_def split: prod.splits)
  have m: "preserves C (handler_run B) (\<lambda>th. case stream_map_compactify (x, th) of (r, (_, th')) \<Rightarrow> (r, th'))" for x
    using run_compactify [of C B get_trace_pos]
    by (fastforce simp: preserves_def stream_map_compactify_def split: prod.splits)
  show "preserves C (\<lambda>s t. handler_run B (snd s) (snd t)) (meet_scope_end pos_of name)"
    "preserves C (\<lambda>s t. handler_run B (snd s) (snd t)) (maps_meet_scope_end name)"
    unfolding meet_scope_end_def maps_meet_scope_end_def Let_def
    by (intro hr2.preserves_and_then hr2.preserves_pure run_modify_fst run_zoom_snd c m)+
qed

section \<open>The contract\<close>

text \<open>Contexts that agree on what the relations are about.\<close>

definition same_footprint :: "'n execution_ctx \<Rightarrow> 'n execution_ctx \<Rightarrow> bool" where
  "same_footprint ctx ctx' \<longleftrightarrow> run_params ctx' = run_params ctx \<and> last_request_id ctx' = last_request_id ctx
     \<and> call_results ctx' = call_results ctx \<and> call_requests ctx' = call_requests ctx \<and> cid_tracker ctx' = cid_tracker ctx
     \<and> signatures_of ctx' = signatures_of ctx"

locale footprint_relation = exec_relation R
  for R :: "('n, 'bm) exec_state \<Rightarrow> ('n, 'bm) exec_state \<Rightarrow> bool" +
  fixes A :: "('n, 'bm) air_ops"
  assumes F_rest: "same_footprint ctx ctx' \<Longrightarrow> R (ctx, th) (ctx', th)"
    and F_record: "R (ctx, th) (ctx\<lparr>cid_tracker := register peer c (cid_tracker ctx)\<rparr>, th)"
    and F_results: "R (ctx, th) (ctx\<lparr>call_results := (call_results ctx)(key := None)\<rparr>, th)"
    and F_request: "u32_add (last_request_id ctx) 1 = (Ok i :: (u32, unit) result) \<Longrightarrow>
      R (ctx, th) (ctx\<lparr>last_request_id := i, call_requests := (call_requests ctx)(i \<mapsto> params)\<rparr>, th)"
    and F_handler: "handler_step (bimaps A) th t \<Longrightarrow> R (ctx, th) (ctx, t)"
begin

lemma F_run: "handler_run (bimaps A) th t \<Longrightarrow> R (ctx, th) (ctx, t)"
  by (induction rule: rtranclp_induct) (auto intro: R_refl R_trans F_handler)

lemma keeps_trace: "(\<And>th r t. m th = (r, t) \<Longrightarrow> handler_step (bimaps A) th t) \<Longrightarrow> preserves C R (on_trace m)"
  by (auto simp: preserves_def on_trace_def zoom_def intro!: F_handler split: prod.splits)

lemma keeps_errors: "(\<And>r t. m th = (r, t) \<Longrightarrow> P t) \<Longrightarrow> trace_to_exec_err instr m th = (q, u) \<Longrightarrow> P u"
    "(\<And>r t. m th = (r, t) \<Longrightarrow> P t) \<Longrightarrow> ignore_result m th = (q2, u) \<Longrightarrow> P u"
  by (auto simp: trace_to_exec_err_def map_err_def ignore_result_def split: prod.splits result.splits)

lemma keeps_traced: "(\<And>th r t. m th = (r, t) \<Longrightarrow> handler_step (bimaps A) th t) \<Longrightarrow> preserves C R (traced text m)"
  unfolding traced_def by (intro preserves_leaf keeps_trace) (rule keeps_errors(1))

lemma keeps_on_ctx: "(\<And>ctx r ctx'. m ctx = (r, ctx') \<Longrightarrow> same_footprint ctx ctx') \<Longrightarrow> preserves C R (on_ctx m)"
  by (auto simp: preserves_def on_ctx_def zoom_def intro!: F_rest split: prod.splits)

lemma keeps_update: "(\<And>ctx. same_footprint ctx (f ctx)) \<Longrightarrow> preserves C R (update_ctx f)"
  by (auto simp: preserves_def update_ctx_def intro!: F_rest)

lemma keeps_zoom:
  "preserves C R (on_ctx (zoom scalars_of scalars_of_update m1))"
  "preserves C R (on_ctx (zoom streams_of streams_of_update m2))"
  "preserves C R (on_ctx (zoom stream_maps_of stream_maps_of_update m3))"
  "preserves C R (on_ctx (zoom tracker tracker_update m4))"
  "preserves C R (on_scalars m5)"
  unfolding on_scalars_def by (rule keeps_on_ctx, auto simp: zoom_def same_footprint_def split: prod.splits)+

lemma keeps_with_trace:
  assumes "\<And>ctx f. same_footprint ctx (u f ctx)" "\<And>D. preserves D (\<lambda>s t. handler_run (bimaps A) (snd s) (snd t)) m"
  shows "preserves C R (zoom_with_trace g u m)"
proof (intro preservesI)
  fix s r t
  assume eq: "zoom_with_trace g u m s = (r, t)" and c: "settled C r"
  obtain ctx th q x th' where m: "s = (ctx, th)" "m (g ctx, th) = (q, (x, th'))" by (metis prod.exhaust)
  with eq have t: "t = (u (\<lambda>_. x) ctx, th')" "q = r" by (auto simp: zoom_with_trace_def)
  with preservesD [OF assms(2) m(2)] c have "handler_run (bimaps A) th th'" by simp
  then show "R s t" using m t R_trans F_run F_rest assms(1) by metis
qed

abbreviation fkept :: "('n, 'bm, 'a) run \<Rightarrow> bool" where
  "fkept m \<equiv> preserves (stop_in (\<lambda>_. True)) R m"

lemma keeps_scalars: "preserves C R (update_ctx (scalars_of_update f))" "preserves C R (with_ctx g)"
  by (rule keeps_update, simp add: same_footprint_def) (simp add: preserves_def with_ctx_def R_refl)

lemma fkept_fold:
  assumes "\<And>i. fkept (exec i)"
  shows "fkept (execute_fold exec it ty name instr last_instr)"
  unfolding execute_fold_def Let_def
  by (intro preserves_and_then preserves_leaf keeps_scalars keeps_zoom preserves_attempt assms preserves_pure preserves_give) auto

lemma keeps_handler_calls:
  "preserves C R (traced text meet_par_start)" "preserves C R (traced text (meet_par_subgraph_end g))"
  "preserves C R (traced text (meet_fold_start i))" "preserves C R (traced text (meet_iteration_start (bimaps A) i v))"
  "preserves C R (traced text (meet_iteration_end i))" "preserves C R (traced text (meet_back_iterator i))"
  "preserves C R (traced text (meet_generation_end i))" "preserves C R (traced text (meet_fold_end i))"
  by (rule keeps_traced, rule handler_step.intros, assumption)+

lemma fkept_fold_state: "fkept (get_fold_state name)" "fkept (set_fold_state name fs)"
    "fkept (maybe_meet_iteration_start A text fs)" "fkept (maybe_meet_iteration_end text fs)"
    "fkept (maybe_meet_back_iterator text fs)"
  unfolding get_fold_state_def set_fold_state_def maybe_meet_iteration_start_def maybe_meet_iteration_end_def
    maybe_meet_back_iterator_def
  by (intro preserves_leaf keeps_scalars)+
    (auto intro!: preserves_and_then preserves_pure keeps_handler_calls split: iterable_type.splits)

lemma keeps_completeness: "preserves C R (update_ctx flush_subgraph_completeness)"
    "preserves C R (update_ctx make_subgraph_incomplete)"
  by (rule keeps_update, simp add: flush_subgraph_completeness_def make_subgraph_incomplete_def same_footprint_def)+

lemma fkept_next:
  assumes "\<And>i. fkept (exec i)"
  shows "fkept (execute_next A exec v)"
proof -
  have l: "fkept (next_last exec name)" for name
    unfolding next_last_def
    by (intro preserves_and_then fkept_fold_state)
      (auto intro!: preserves_and_then preserves_pure fkept_fold_state keeps_completeness assms split: option.split)
  show ?thesis
    unfolding execute_next_def Let_def
    by (intro preserves_and_then preserves_case_prod fkept_fold_state, rename_tac b it, case_tac b; simp)
      (intro preserves_and_then preserves_attempt keeps_scalars fkept_fold_state l assms preserves_pure preserves_give; simp)+
qed

lemma keeps_new: "preserves C R (new_prolog arg span)" "preserves D R (new_epilog arg)"
proof -
  have "same_footprint ctx (new_scope_start arg span ctx)" for ctx :: "'n execution_ctx"
    by (cases arg) (simp_all add: same_footprint_def)
  then show "preserves C R (new_prolog arg span)"
    unfolding new_prolog_def by (intro preserves_and_then keeps_zoom keeps_update)
  show "preserves D R (new_epilog arg)"
    by (cases arg) (auto intro!: keeps_zoom keeps_with_trace run_scope_ends simp: same_footprint_def)
qed

lemma fkept_new:
  assumes "\<And>i. fkept (exec i)"
  shows "fkept (execute_new exec arg i span)"
  unfolding execute_new_def
  by (intro preserves_and_then keeps_new preserves_attempt assms preserves_leaf)
    (auto intro: preserves_pure preserves_give split: result.split)

text \<open>A script keeps the relation.\<close>

sublocale run_relation R "\<lambda>_. True" A
proof unfold_locales
  show "preserves (\<lambda>_. True) R (on_trace (trace_to_exec_err instr (meet_call_start (bimaps A))))"
      "preserves (\<lambda>_. True) R (on_trace (trace_to_exec_err instr (meet_ap_start (bimaps A))))"
      "preserves (\<lambda>_. True) R (on_trace (trace_to_exec_err instr meet_canon_start))" for instr
    by (rule keeps_trace, erule keeps_errors(1) [rotated], rule handler_step.intros, assumption)+
  show "preserves (\<lambda>_. True) R (call_end cr)" "preserves (\<lambda>_. True) R (ap_end ar)" "preserves (\<lambda>_. True) R (canon_end nr)" for cr ar nr
    unfolding call_end_def ap_end_def canon_end_def
    by (rule keeps_trace, erule keeps_errors(2) [rotated], rule handler_step.intros, assumption)+
  have m: "fkept (on_mut_stream v m)" "fkept (on_mut_stream_map v2 m)" for v v2 m
    unfolding on_mut_stream_def on_mut_stream_map_def by (intro preserves_and_then preserves_pure keeps_zoom)+
  show "fkept (on_mut_stream v (cursor_fold_start rc))" "fkept (on_mut_stream v (cursor_iteration_end rc))"
      "fkept (on_mut_stream_map v2 (cursor_fold_start rc))" "fkept (on_mut_stream_map v2 (cursor_iteration_end rc))" for v v2 rc
    by (rule m)+
qed (auto intro!: F_rest F_record F_results F_request keeps_zoom keeps_handler_calls fkept_fold fkept_next fkept_new
    simp: same_footprint_def)

end

end
