(* ===== verification/Exec_Scalars.thy ===== *)
theory Exec_Scalars
  imports Exec_Relations
begin

text \<open>
  Scopes of scalars across an execution: after any instruction that succeeds or fails with a catchable error the three
  matrices of scalars are those before it up to values set at the current depth, and the states of the running folds
  are the same but for their cursors, which are not behind. The interpretation \<open>scopes\<close> of \<open>run_relation\<close> is
  for catchable errors: an uncatchable one leaves scopes open.
\<close>

section \<open>The relation\<close>

definition remaining_items :: "'n iterable_value \<Rightarrow> nat" where
  "remaining_items it = iterable_len it - iterable_cursor it"

lemma cursor_simps [simp]: "iterable_cursor (iterable_set_cursor n it) = n" "iterable_len (iterable_set_cursor n it) = iterable_len it"
  by (cases it; simp)+

lemma next_remaining: "iterable_next it = (True, it') \<Longrightarrow> Suc (remaining_items it') = remaining_items it"
  by (auto simp: iterable_next_def remaining_items_def split: if_splits)

lemma prev_remaining: "remaining_items (snd (iterable_prev it)) \<le> Suc (remaining_items it)"
  by (auto simp: iterable_prev_def remaining_items_def)

definition fold_kept :: "'n fold_state \<Rightarrow> 'n fold_state \<Rightarrow> bool" where
  "fold_kept fs fs' \<longleftrightarrow> fs_instr_head fs' = fs_instr_head fs \<and> fs_last_instr_head fs' = fs_last_instr_head fs
     \<and> fs_iterable_type fs' = fs_iterable_type fs
     \<and> remaining_items (fs_iterable fs') \<le> remaining_items (fs_iterable fs)"

definition scalars_wf :: "('n, 'f) scalars \<Rightarrow> bool" where
  "scalars_wf sc \<longleftrightarrow> sparse_wf (non_iterable_variables sc) \<and> sparse_wf (canon_streams sc) \<and> sparse_wf (canon_maps sc)"

definition matrices_frame :: "('n, 'f) scalars \<Rightarrow> ('n, 'f) scalars \<Rightarrow> bool" where
  "matrices_frame sc sc' \<longleftrightarrow> scalar_frame (non_iterable_variables sc) (non_iterable_variables sc')
     \<and> scalar_frame (canon_streams sc) (canon_streams sc') \<and> scalar_frame (canon_maps sc) (canon_maps sc')"

definition scalars_frame :: "('n, 'n fold_state) scalars \<Rightarrow> ('n, 'n fold_state) scalars \<Rightarrow> bool" where
  "scalars_frame sc sc' \<longleftrightarrow> matrices_frame sc sc'
     \<and> (\<forall>name. rel_option fold_kept (iterable_variables sc name) (iterable_variables sc' name))"

definition scalars_kept :: "('n, 'bm) exec_state \<Rightarrow> ('n, 'bm) exec_state \<Rightarrow> bool" where
  "scalars_kept s t \<longleftrightarrow> (scalars_wf (scalars_of (fst s)) \<longrightarrow> scalars_frame (scalars_of (fst s)) (scalars_of (fst t)))"

lemma fold_kept_refl: "fold_kept fs fs"
  by (simp add: fold_kept_def)

lemma matrices_frame_refl: "scalars_wf sc \<Longrightarrow> matrices_frame sc sc"
  by (simp add: matrices_frame_def scalars_wf_def frame_refl)

lemma matrices_frame_wf: "matrices_frame sc sc' \<Longrightarrow> scalars_wf sc'"
  by (simp add: matrices_frame_def scalars_wf_def scalar_frame_def)

lemma matrices_frame_trans: "matrices_frame sc sc' \<Longrightarrow> matrices_frame sc' sc'' \<Longrightarrow> matrices_frame sc sc''"
  by (auto simp: matrices_frame_def intro: frame_trans)

lemma folds_kept_trans:
  "rel_option fold_kept x y \<Longrightarrow> rel_option fold_kept y z \<Longrightarrow> rel_option fold_kept x z"
  by (cases x; cases y; cases z) (auto simp: fold_kept_def)

lemma scalars_frame_refl: "scalars_wf sc \<Longrightarrow> scalars_frame sc sc"
  by (simp add: scalars_frame_def matrices_frame_refl option.rel_refl fold_kept_refl)

lemma scalars_frame_trans: "scalars_frame sc sc' \<Longrightarrow> scalars_frame sc' sc'' \<Longrightarrow> scalars_frame sc sc''"
  unfolding scalars_frame_def using matrices_frame_trans folds_kept_trans by blast

lemma scalars_kept_trans: "scalars_kept s t \<Longrightarrow> scalars_kept t u \<Longrightarrow> scalars_kept s u"
  unfolding scalars_kept_def using scalars_frame_trans matrices_frame_wf scalars_frame_def by blast

lemma scalars_kept_same: "scalars_of (fst t) = scalars_of (fst s) \<Longrightarrow> scalars_kept s t"
  by (simp add: scalars_kept_def scalars_frame_refl)

interpretation sk: exec_relation scalars_kept
  by unfold_locales (auto intro: scalars_kept_same scalars_kept_trans)

section \<open>Scopes\<close>

lemma fold_start_scalars_wf: "scalars_wf sc \<Longrightarrow> scalars_wf (scalars_fold_start sc)"
  by (simp add: scalars_wf_def scalars_fold_start_def fold_start_wf)

lemma next_before_scalars_wf: "scalars_wf sc \<Longrightarrow> scalars_wf (scalars_next_before sc)"
  by (simp add: scalars_wf_def scalars_next_before_def next_before_wf)

lemma scalars_fold_end_restores:
  assumes "scalars_wf sc" "matrices_frame (scalars_fold_start sc) sc'"
  shows "scalars_fold_end sc' = (Ok (sc\<lparr>iterable_variables := iterable_variables sc'\<rparr>) :: (_, 'e) result)"
  using assms fold_end_restores [of "non_iterable_variables sc" "non_iterable_variables sc'", where ?'e = 'e]
    fold_end_restores [of "canon_streams sc" "canon_streams sc'", where ?'e = 'e] fold_end_restores [of "canon_maps sc" "canon_maps sc'", where ?'e = 'e]
  by (simp add: scalars_wf_def matrices_frame_def scalars_fold_end_def scalars_fold_start_def)

lemma scalars_next_after_restores:
  assumes "scalars_wf sc" "matrices_frame (scalars_next_before sc) sc'"
  shows "scalars_next_after sc' = (Ok (sc\<lparr>iterable_variables := iterable_variables sc'\<rparr>) :: (_, 'e) result)"
  using assms next_after_restores [of "non_iterable_variables sc" "non_iterable_variables sc'", where ?'e = 'e]
    next_after_restores [of "canon_streams sc" "canon_streams sc'", where ?'e = 'e] next_after_restores [of "canon_maps sc" "canon_maps sc'", where ?'e = 'e]
  by (simp add: scalars_wf_def matrices_frame_def scalars_next_after_def scalars_next_before_def)

lemma fold_start_iterables [simp]: "iterable_variables (scalars_fold_start sc) = iterable_variables sc"
    "iterable_variables (scalars_next_before sc) = iterable_variables sc"
  by (simp_all add: scalars_fold_start_def scalars_next_before_def)

lemma scope_ends_no_Err: "scalars_fold_end sc \<noteq> Err e" "scalars_next_after sc \<noteq> Err e"
  by (simp_all add: scalars_fold_end_def scalars_next_after_def matrix_fold_end_def matrix_next_after_def decrease_depth_def Let_def)

lemma scalars_fold_end_Ok:
  "scalars_fold_end sc = (Ok sc' :: (_, 'e) result) \<longleftrightarrow> scalars_fold_end sc = (Ok sc' :: (_, 'f) result)"
  "scalars_next_after sc = (Ok sc' :: (_, 'e) result) \<longleftrightarrow> scalars_next_after sc = (Ok sc' :: (_, 'f) result)"
  by (simp_all add: scalars_fold_end_def scalars_next_after_def matrix_fold_end_def matrix_next_after_def decrease_depth_def Let_def)

text \<open>The successful paths through a fold.\<close>

lemma execute_fold_settled:
  fixes exec :: "('n, 'bm) runner"
  assumes "execute_fold exec it ty name i l (ctx, th) = (r, t)" "settled (stop_in C) r"
    and "\<not> C (Uncatchable (MultipleIterableValues name))"
  obtains ctx' th' sc' where "iterable_variables (scalars_of ctx) name = None"
    and "exec i (ctx\<lparr>scalars_of := (scalars_fold_start (scalars_of ctx))\<lparr>iterable_variables :=
        (iterable_variables (scalars_of ctx))(name \<mapsto> from_iterable it ty i l)\<rparr>\<rparr>, th) = (r, (ctx', th'))"
    and "scalars_fold_end (remove_iterable_value name (scalars_of ctx')) = (Ok sc' :: (_, 'n exec_stop) result)"
    and "t = (ctx'\<lparr>scalars_of := sc'\<rparr>, th')"
proof -
  have none: "iterable_variables (scalars_of ctx) name = None"
    using assms by (cases "iterable_variables (scalars_of ctx) name")
      (auto simp: execute_fold_def update_ctx_def and_then_def leaf_def map_err_def on_scalars_def on_ctx_def zoom_def set_iterable_value_def)
  let ?s = "(ctx\<lparr>scalars_of := (scalars_fold_start (scalars_of ctx))\<lparr>iterable_variables :=
        (iterable_variables (scalars_of ctx))(name \<mapsto> from_iterable it ty i l)\<rparr>\<rparr>, th)"
  obtain q ctx' th' where e: "exec i ?s = (q, (ctx', th'))" by (metis prod.exhaust)
  let ?sc = "scalars_fold_end (remove_iterable_value name (scalars_of ctx')) :: (_, 'n exec_stop) result"
  have run: "execute_fold exec it ty name i l (ctx, th) = and_then (\<lambda>_. attempt (exec i) ?s) (\<lambda>res.
      and_then (update_ctx (scalars_of_update (remove_iterable_value name))) (\<lambda>_.
      and_then (with_ctx (\<lambda>ctx. scalars_fold_end (scalars_of ctx))) (\<lambda>sc.
      and_then (update_ctx (scalars_of_update (\<lambda>_. sc))) (\<lambda>_. give res)))) ?s"
    using none by (simp add: execute_fold_def update_ctx_def leaf_def map_err_def on_scalars_def on_ctx_def zoom_def
        set_iterable_value_def and_then_def Let_def)
  have "q = r \<and> (\<exists>sc'. ?sc = Ok sc' \<and> t = (ctx'\<lparr>scalars_of := sc'\<rparr>, th'))"
    using run assms(1,2) e
    by (cases q rule: result.exhaust; cases ?sc)
      (auto simp: and_then_def attempt_def update_ctx_def with_ctx_def give_def scope_ends_no_Err split: exec_stop.splits)
  with none e that show thesis by blast
qed

lemma scopes_fold:
  assumes "\<And>i. preserves (stop_in is_catchable) scalars_kept (exec i)"
  shows "preserves (stop_in is_catchable) scalars_kept (execute_fold exec it ty name i l)"
proof (intro preservesI)
  fix s r t
  assume eq: "execute_fold exec it ty name i l s = (r, t)" and c: "settled (stop_in is_catchable) r"
  obtain ctx th where s: "s = (ctx, th)" by (cases s)
  let ?sc = "scalars_of ctx"
  from eq s have "execute_fold exec it ty name i l (ctx, th) = (r, t)" by simp
  then obtain ctx' th' sc' where none: "iterable_variables ?sc name = None"
    and body: "exec i (ctx\<lparr>scalars_of := (scalars_fold_start ?sc)\<lparr>iterable_variables :=
        (iterable_variables ?sc)(name \<mapsto> from_iterable it ty i l)\<rparr>\<rparr>, th) = (r, (ctx', th'))"
    and e: "scalars_fold_end (remove_iterable_value name (scalars_of ctx')) = (Ok sc' :: (_, 'a exec_stop) result)"
    and t: "t = (ctx'\<lparr>scalars_of := sc'\<rparr>, th')"
    by (rule execute_fold_settled [OF _ c]) simp_all
  show "scalars_kept s t"
    unfolding scalars_kept_def
  proof
    assume "scalars_wf (scalars_of (fst s))"
    then have wf: "scalars_wf ?sc" using s by simp
    have "scalars_frame ((scalars_fold_start ?sc)\<lparr>iterable_variables := (iterable_variables ?sc)(name \<mapsto> from_iterable it ty i l)\<rparr>)
        (scalars_of ctx')"
      using preservesD [OF assms body c] fold_start_scalars_wf [OF wf] by (simp add: scalars_kept_def scalars_wf_def)
    then have "matrices_frame (scalars_fold_start ?sc) (remove_iterable_value name (scalars_of ctx'))"
      and f: "\<And>n. rel_option fold_kept (((iterable_variables ?sc)(name \<mapsto> from_iterable it ty i l)) n) (iterable_variables (scalars_of ctx') n)"
      by (simp_all add: scalars_frame_def matrices_frame_def remove_iterable_value_def)
    from scalars_fold_end_restores [OF wf this(1), where ?'e = "'a exec_stop"]
    have "sc' = ?sc\<lparr>iterable_variables := (iterable_variables (scalars_of ctx'))(name := None)\<rparr>"
      using e by (simp add: remove_iterable_value_def)
    moreover have "rel_option fold_kept (iterable_variables ?sc n) (((iterable_variables (scalars_of ctx'))(name := None)) n)" for n
      using f [of n] none by (auto split: if_splits)
    ultimately show "scalars_frame (scalars_of (fst s)) (scalars_of (fst t))"
      using matrices_frame_refl [OF wf] s t by (simp add: scalars_frame_def matrices_frame_def)
  qed
qed

text \<open>Computations that leave the scalars alone.\<close>

definition scalars_same :: "('n, 'bm, 'a) run \<Rightarrow> bool" where
  "scalars_same m \<longleftrightarrow> (\<forall>s r t. m s = (r, t) \<longrightarrow> scalars_of (fst t) = scalars_of (fst s))"

lemma scalars_sameD: "scalars_same m \<Longrightarrow> m s = (r, t) \<Longrightarrow> scalars_of (fst t) = scalars_of (fst s)"
  unfolding scalars_same_def by blast

lemma scalars_same_steps: "scalars_same (traced text m)" "scalars_same (ret x)" "scalars_same (lift y)"
  by (auto simp: scalars_same_def traced_def leaf_def map_err_def on_trace_def zoom_def split: prod.splits)

lemma scalars_same_and_then: "scalars_same m \<Longrightarrow> (\<And>a. scalars_same (k a)) \<Longrightarrow> scalars_same (and_then m k)"
  by (auto simp: scalars_same_def and_then_def split: prod.splits result.splits) metis+

lemma scalars_same_meets: "scalars_same (maybe_meet_iteration_start A text fs)" "scalars_same (maybe_meet_iteration_end text fs)"
    "scalars_same (maybe_meet_back_iterator text fs)"
  unfolding maybe_meet_iteration_start_def maybe_meet_iteration_end_def maybe_meet_back_iterator_def
  by (auto intro!: scalars_same_and_then scalars_same_steps split: iterable_type.split)

text \<open>The body of a fold run by \<^verbatim>\<open>next\<close>, in its scope.\<close>

definition next_scope :: "('n, 'bm) runner \<Rightarrow> 'n instruction \<Rightarrow> ('n, 'bm, unit) run" where
  "next_scope exec i =
     and_then (update_ctx (scalars_of_update scalars_next_before)) (\<lambda>_.
     and_then (attempt (exec i)) (\<lambda>res.
     and_then (with_ctx (\<lambda>ctx. scalars_next_after (scalars_of ctx))) (\<lambda>sc.
     and_then (update_ctx (scalars_of_update (\<lambda>_. sc))) (\<lambda>_.
     give res))))"

lemma next_scope_settled:
  fixes exec :: "('n, 'bm) runner"
  assumes "next_scope exec i (ctx, th) = (r, t)" "settled (stop_in C) r"
  obtains ctx' th' sc' where "exec i (ctx\<lparr>scalars_of := scalars_next_before (scalars_of ctx)\<rparr>, th) = (r, (ctx', th'))"
    and "scalars_next_after (scalars_of ctx') = (Ok sc' :: (_, 'n exec_stop) result)" "t = (ctx'\<lparr>scalars_of := sc'\<rparr>, th')"
proof -
  obtain q ctx' th' where e: "exec i (ctx\<lparr>scalars_of := scalars_next_before (scalars_of ctx)\<rparr>, th) = (q, (ctx', th'))"
    by (metis prod.exhaust)
  let ?sc = "scalars_next_after (scalars_of ctx') :: (_, 'n exec_stop) result"
  have u: "update_ctx (scalars_of_update scalars_next_before) (ctx, th) =
      (Ok () :: (unit, 'n exec_stop) result, (ctx\<lparr>scalars_of := scalars_next_before (scalars_of ctx)\<rparr>, th))"
    by (cases ctx) (simp add: update_ctx_def)
  have "next_scope exec i (ctx, th) = and_then (attempt (exec i)) (\<lambda>res.
     and_then (with_ctx (\<lambda>ctx. scalars_next_after (scalars_of ctx))) (\<lambda>sc.
     and_then (update_ctx (scalars_of_update (\<lambda>_. sc))) (\<lambda>_.
     give res))) (ctx\<lparr>scalars_of := scalars_next_before (scalars_of ctx)\<rparr>, th)"
    unfolding next_scope_def by (rule and_then_Ok) (rule u)
  then have "q = r \<and> (\<exists>sc'. ?sc = Ok sc' \<and> t = (ctx'\<lparr>scalars_of := sc'\<rparr>, th'))"
    using assms e
    by (cases q rule: result.exhaust; cases ?sc)
      (auto simp: and_then_def attempt_def update_ctx_def with_ctx_def give_def scope_ends_no_Err
        split: exec_stop.splits)
  with e that show thesis by blast
qed

lemma scopes_next_scope:
  assumes "preserves (stop_in is_catchable) scalars_kept (exec i)"
  shows "preserves (stop_in is_catchable) scalars_kept (next_scope exec i)"
proof (intro preservesI)
  fix s r t
  assume eq: "next_scope exec i s = (r, t)" and c: "settled (stop_in is_catchable) r"
  obtain ctx th where s: "s = (ctx, th)" by (cases s)
  let ?sc = "scalars_of ctx"
  from eq s have "next_scope exec i (ctx, th) = (r, t)" by simp
  then obtain ctx' th' sc' where body: "exec i (ctx\<lparr>scalars_of := scalars_next_before ?sc\<rparr>, th) = (r, (ctx', th'))"
    and e: "scalars_next_after (scalars_of ctx') = (Ok sc' :: (_, 'a exec_stop) result)"
    and t: "t = (ctx'\<lparr>scalars_of := sc'\<rparr>, th')"
    by (rule next_scope_settled [OF _ c])
  show "scalars_kept s t"
    unfolding scalars_kept_def
  proof
    assume "scalars_wf (scalars_of (fst s))"
    then have wf: "scalars_wf ?sc" using s by simp
    have fr: "scalars_frame (scalars_next_before ?sc) (scalars_of ctx')"
      using preservesD [OF assms body c] next_before_scalars_wf [OF wf] by (simp add: scalars_kept_def)
    then have "sc' = ?sc\<lparr>iterable_variables := iterable_variables (scalars_of ctx')\<rparr>"
      using scalars_next_after_restores [OF wf, where ?'e = "'a exec_stop"] e by (simp add: scalars_frame_def)
    with fr show "scalars_frame (scalars_of (fst s)) (scalars_of (fst t))"
      using matrices_frame_refl [OF wf] s t by (simp add: scalars_frame_def matrices_frame_def)
  qed
qed

text \<open>\<^verbatim>\<open>next\<close> on an iterator that has another item.\<close>

definition next_after_body :: "string \<Rightarrow> string \<Rightarrow> ('n, 'bm, unit) run" where
  "next_after_body name text =
     and_then (get_fold_state name) (\<lambda>fs.
     let fs = fs\<lparr>fs_iterable := snd (iterable_prev (fs_iterable fs))\<rparr> in
     and_then (set_fold_state name fs) (\<lambda>_.
     maybe_meet_back_iterator text fs))"

definition next_iteration :: "('n, 'bm) air_ops \<Rightarrow> ('n, 'bm) runner \<Rightarrow> string \<Rightarrow> string \<Rightarrow> 'n fold_state \<Rightarrow> ('n, 'bm, unit) run" where
  "next_iteration A exec name text fs =
     and_then (set_fold_state name fs) (\<lambda>_.
     and_then (maybe_meet_iteration_start A text fs) (\<lambda>_.
     and_then (next_scope exec (fs_instr_head fs)) (\<lambda>_.
     next_after_body name text)))"

lemma and_then_assoc: "and_then (and_then m f) g = and_then m (\<lambda>a. and_then (f a) g)"
  by (auto simp: and_then_def split: prod.split result.split)

lemma execute_next_eq:
  "execute_next A exec v =
     and_then (get_fold_state (var_name v)) (\<lambda>fs.
     and_then (maybe_meet_iteration_end (show_instruction (INext v :: 'n instruction)) fs) (\<lambda>_.
     case iterable_next (fs_iterable fs) of
       (False, _) \<Rightarrow> and_then (maybe_meet_back_iterator (show_instruction (INext v :: 'n instruction)) fs) (\<lambda>_. next_last exec (var_name v))
     | (True, it) \<Rightarrow> next_iteration A exec (var_name v) (show_instruction (INext v :: 'n instruction)) (fs\<lparr>fs_iterable := it\<rparr>)))"
  for A :: "('n, 'bm) air_ops"
  unfolding execute_next_def next_iteration_def next_scope_def next_after_body_def and_then_assoc Let_def by (rule refl)

lemma get_fold_state_Ok:
  "get_fold_state name s = (r, t) \<Longrightarrow> t = s \<and> (\<forall>fs. r = Ok fs \<longrightarrow> iterable_variables (scalars_of (fst s)) name = Some fs)"
  by (cases "iterable_variables (scalars_of (fst s)) name")
    (auto simp: get_fold_state_def leaf_def map_err_def with_ctx_def get_iterable_def)

lemma set_fold_state_eq:
  fixes ctx :: "'n execution_ctx"
  shows
  "set_fold_state name fs (ctx, th) =
     (Ok (), (ctx\<lparr>scalars_of := (scalars_of ctx)\<lparr>iterable_variables := (iterable_variables (scalars_of ctx))(name \<mapsto> fs)\<rparr>\<rparr>, th))"
proof -
  have a: "scalars_of_update g ctx = ctx\<lparr>scalars_of := g (scalars_of ctx)\<rparr>" for g by (cases ctx) simp
  have b: "iterable_variables_update h sc = sc\<lparr>iterable_variables := h (iterable_variables sc)\<rparr>" for h and sc :: "('n, 'n fold_state) scalars"
    by (cases sc) simp
  have "scalars_of_update (iterable_variables_update (\<lambda>m. m(name \<mapsto> fs))) ctx =
      ctx\<lparr>scalars_of := (scalars_of ctx)\<lparr>iterable_variables := (iterable_variables (scalars_of ctx))(name \<mapsto> fs)\<rparr>\<rparr>"
    by (subst a, subst b) (rule refl)
  then show ?thesis by (simp add: set_fold_state_def update_ctx_def)
qed

lemma scalars_kept_fold_state:
  assumes "iterable_variables (scalars_of (fst s)) name = Some fs0" "fold_kept fs0 fs" "set_fold_state name fs s = (r, t)"
  shows "scalars_kept s t"
  using assms
  by (cases s) (auto simp: set_fold_state_eq scalars_kept_def scalars_frame_def matrices_frame_def scalars_wf_def frame_refl
      option.rel_refl fold_kept_refl)

lemma scalars_kept_same_run: "scalars_same m \<Longrightarrow> m s = (r, t) \<Longrightarrow> scalars_kept s t"
  by (intro scalars_kept_same) (rule scalars_sameD)

lemma preserves_scalars_same: "scalars_same m \<Longrightarrow> preserves C scalars_kept m"
  by (intro preservesI) (rule scalars_kept_same_run)

lemma fold_of_kept:
  assumes "scalars_frame sc sc'" "iterable_variables sc name = Some fs"
  obtains fs' where "iterable_variables sc' name = Some fs'" "fold_kept fs fs'"
  using assms unfolding scalars_frame_def by (metis option.rel_cases option.distinct(1) option.inject)

text \<open>Going back after the body: one item more remains than after it, which is not more than before.\<close>

lemma next_after_body_kept:
  assumes "next_after_body name text s = (r, t)" "scalars_kept s0 s" "scalars_wf (scalars_of (fst s0))"
    and "iterable_variables (scalars_of (fst s0)) name = Some fs0"
    and "fold_kept fs1 fs0" "Suc (remaining_items (fs_iterable fs0)) = remaining_items (fs_iterable fs1)"
  shows "\<exists>fs. iterable_variables (scalars_of (fst t)) name = Some fs \<and> fold_kept fs1 fs
    \<and> matrices_frame (scalars_of (fst s0)) (scalars_of (fst t))
    \<and> (\<forall>n. n \<noteq> name \<longrightarrow> rel_option fold_kept (iterable_variables (scalars_of (fst s0)) n) (iterable_variables (scalars_of (fst t)) n))"
proof -
  have fr: "scalars_frame (scalars_of (fst s0)) (scalars_of (fst s))" using assms(2,3) by (simp add: scalars_kept_def)
  then obtain fs where fs: "iterable_variables (scalars_of (fst s)) name = Some fs" "fold_kept fs0 fs"
    using fold_of_kept assms(4) by blast
  obtain ctx th where s: "s = (ctx, th)" by (cases s)
  let ?fs = "fs\<lparr>fs_iterable := snd (iterable_prev (fs_iterable fs))\<rparr>"
  let ?u = "(ctx\<lparr>scalars_of := (scalars_of ctx)\<lparr>iterable_variables := (iterable_variables (scalars_of ctx))(name \<mapsto> ?fs)\<rparr>\<rparr>, th)"
  have "get_fold_state name s = (Ok fs, s)"
    using fs by (simp add: get_fold_state_def leaf_def map_err_def with_ctx_def get_iterable_def)
  then have "maybe_meet_back_iterator text ?fs ?u = (r, t)"
    using assms(1) s by (simp add: next_after_body_def and_then_def set_fold_state_eq Let_def)
  then have sc: "scalars_of (fst t) = (scalars_of ctx)\<lparr>iterable_variables := (iterable_variables (scalars_of ctx))(name \<mapsto> ?fs)\<rparr>"
    using scalars_sameD [OF scalars_same_meets(3)] by fastforce
  have "fold_kept fs1 ?fs"
    using prev_remaining [of "fs_iterable fs"] fs(2) assms(5,6) by (simp add: fold_kept_def)
  with sc fr s show ?thesis by (simp add: scalars_frame_def matrices_frame_def)
qed

lemma next_iteration_kept:
  assumes exec: "\<And>i. preserves (stop_in is_catchable) scalars_kept (exec i)"
    and run: "next_iteration A exec name text (fs\<lparr>fs_iterable := it\<rparr>) s = (r, t)" and c: "settled (stop_in is_catchable) r"
    and fs: "iterable_variables (scalars_of (fst s)) name = Some fs" "iterable_next (fs_iterable fs) = (True, it)"
  shows "scalars_kept s t"
proof -
  let ?fs = "fs\<lparr>fs_iterable := it\<rparr>"
  have it: "Suc (remaining_items it) = remaining_items (fs_iterable fs)" using next_remaining [OF fs(2)] .
  then have fk: "fold_kept fs ?fs" by (simp add: fold_kept_def)
  obtain s1 where s1: "set_fold_state name ?fs s = (Ok (), s1)" by (cases s) (simp add: set_fold_state_eq)
  note k1 = scalars_kept_fold_state [OF fs(1) fk s1]
  have fs1: "iterable_variables (scalars_of (fst s1)) name = Some ?fs"
    "matrices_frame (scalars_of (fst s)) (scalars_of (fst s1)) = matrices_frame (scalars_of (fst s)) (scalars_of (fst s))"
    "\<And>n. n \<noteq> name \<Longrightarrow> iterable_variables (scalars_of (fst s1)) n = iterable_variables (scalars_of (fst s)) n"
    using s1 by (cases s, auto simp: set_fold_state_eq matrices_frame_def)+
  obtain r2 s2 where s2: "maybe_meet_iteration_start A text ?fs s1 = (r2, s2)" by (meson surj_pair)
  have sc2: "scalars_of (fst s2) = scalars_of (fst s1)" using scalars_sameD [OF scalars_same_meets(1) s2] .
  have k2: "scalars_kept s s2" using k1 sc2 by (simp add: scalars_kept_def)
  obtain r3 s3 where s3: "next_scope exec (fs_instr_head ?fs) s2 = (r3, s3)" by (meson surj_pair)
  have run': "next_iteration A exec name text ?fs s = (case r2 of
      Ok _ \<Rightarrow> (case r3 of Ok _ \<Rightarrow> next_after_body name text s3 | Err e \<Rightarrow> (Err e, s3) | Panic \<Rightarrow> (Panic, s3))
    | Err e \<Rightarrow> (Err e, s2) | Panic \<Rightarrow> (Panic, s2))"
    using s1 s2 s3 by (simp add: next_iteration_def and_then_def split: result.split)
  show ?thesis
  proof (cases "r2 = Ok ()")
    case False
    with run run' c k2 show ?thesis by (cases r2) auto
  next
    case r2: True
    show ?thesis
    proof (cases "r3 = Ok ()")
      case False
      with run run' r2 c have "r3 = r" "s3 = t" by (cases r3; auto)+
      with preservesD [OF scopes_next_scope [OF exec] s3] c k2 show ?thesis using scalars_kept_trans by blast
    next
      case True
      then have "scalars_kept s2 s3" using preservesD [OF scopes_next_scope [OF exec] s3] by simp
      moreover have "next_after_body name text s3 = (r, t)" using run run' r2 True by simp
      ultimately show ?thesis
        unfolding scalars_kept_def
      proof (intro impI)
        assume wf: "scalars_wf (scalars_of (fst s))"
          and k3: "scalars_wf (scalars_of (fst s2)) \<longrightarrow> scalars_frame (scalars_of (fst s2)) (scalars_of (fst s3))"
        have fr: "matrices_frame (scalars_of (fst s)) (scalars_of (fst s2))" using fs1(2) matrices_frame_refl [OF wf] sc2 by simp
        have wf2: "scalars_wf (scalars_of (fst s2))" using matrices_frame_wf [OF fr] .
        obtain fs' where "iterable_variables (scalars_of (fst t)) name = Some fs'" "fold_kept fs fs'"
          "matrices_frame (scalars_of (fst s2)) (scalars_of (fst t))"
          "\<forall>n. n \<noteq> name \<longrightarrow> rel_option fold_kept (iterable_variables (scalars_of (fst s2)) n) (iterable_variables (scalars_of (fst t)) n)"
          using next_after_body_kept [OF \<open>next_after_body name text s3 = (r, t)\<close> _ wf2 _ fk] k3 fs1(1) sc2 it
          by (auto simp: scalars_kept_def)
        then have "rel_option fold_kept (iterable_variables (scalars_of (fst s)) n) (iterable_variables (scalars_of (fst t)) n)" for n
          using fs(1) fs1(3) sc2 by (cases "n = name") auto
        then show "scalars_frame (scalars_of (fst s)) (scalars_of (fst t))"
          using matrices_frame_trans [OF fr] \<open>matrices_frame (scalars_of (fst s2)) (scalars_of (fst t))\<close>
          by (simp add: scalars_frame_def)
      qed
    qed
  qed
qed

lemma scalars_same_completeness: "scalars_same (update_ctx flush_subgraph_completeness)" "scalars_same (update_ctx make_subgraph_incomplete)"
  by (auto simp: scalars_same_def update_ctx_def flush_subgraph_completeness_def make_subgraph_incomplete_def)

lemma next_last_kept:
  assumes "\<And>i. preserves (stop_in is_catchable) scalars_kept (exec i)"
  shows "preserves (stop_in is_catchable) scalars_kept (next_last exec name)"
proof (intro preservesI)
  fix s r t
  assume eq: "next_last exec name s = (r, t)" and c: "settled (stop_in is_catchable) r"
  obtain q u where g: "get_fold_state name s = (q, u)" by (meson surj_pair)
  note u = get_fold_state_Ok [OF g]
  show "scalars_kept s t"
  proof (cases q)
    case (Ok fs)
    with u have fs: "iterable_variables (scalars_of (fst s)) name = Some fs" and "u = s" by auto
    show ?thesis
    proof (cases "fs_last_instr_head fs")
      case (Some l)
      then have "and_then (update_ctx flush_subgraph_completeness) (\<lambda>_. exec l) s = (r, t)"
        using eq g Ok \<open>u = s\<close> by (simp add: next_last_def and_then_def)
      moreover have "preserves (stop_in is_catchable) scalars_kept (and_then (update_ctx flush_subgraph_completeness) (\<lambda>_. exec l))"
        by (intro sk.preserves_and_then preserves_scalars_same scalars_same_completeness assms)
      ultimately show ?thesis by (rule preservesD [rotated, OF _ c])
    next
      case None
      have fk: "fold_kept fs (fs\<lparr>fs_back_iteration_started := True\<rparr>)" by (simp add: fold_kept_def)
      obtain s1 where s1: "set_fold_state name (fs\<lparr>fs_back_iteration_started := True\<rparr>) s = (Ok (), s1)"
        by (cases s) (simp add: set_fold_state_eq)
      note k1 = scalars_kept_fold_state [OF fs fk s1]
      let ?s2 = "apfst make_subgraph_incomplete s1"
      have "scalars_kept s1 ?s2" by (rule scalars_kept_same) (simp add: make_subgraph_incomplete_def)
      moreover have "t = ?s2 \<or> t = s"
        using eq g Ok None \<open>u = s\<close> s1 by (auto simp: next_last_def and_then_def update_ctx_def split: if_splits result.splits)
      ultimately show ?thesis using k1 scalars_kept_trans scalars_kept_same by blast
    qed
  qed (use eq g u in \<open>auto simp: next_last_def and_then_def intro: scalars_kept_same\<close>)
qed

lemma scopes_next:
  assumes "\<And>i. preserves (stop_in is_catchable) scalars_kept (exec i)"
  shows "preserves (stop_in is_catchable) scalars_kept (execute_next A exec v)"
proof (intro preservesI)
  fix s r t
  assume eq: "execute_next A exec v s = (r, t)" and c: "settled (stop_in is_catchable) r"
  let ?text = "show_instruction (INext v :: 'a instruction)"
  obtain q u where g: "get_fold_state (var_name v) s = (q, u)" by (meson surj_pair)
  note u = get_fold_state_Ok [OF g]
  show "scalars_kept s t"
  proof (cases q)
    case (Ok fs)
    with u have fs: "iterable_variables (scalars_of (fst s)) (var_name v) = Some fs" and "u = s" by auto
    obtain r1 s1 where s1: "maybe_meet_iteration_end ?text fs s = (r1, s1)" by (meson surj_pair)
    have sc1: "scalars_of (fst s1) = scalars_of (fst s)" using scalars_sameD [OF scalars_same_meets(2) s1] .
    obtain b it where it: "iterable_next (fs_iterable fs) = (b, it)" by fastforce
    have run: "execute_next A exec v s = (case r1 of
        Ok _ \<Rightarrow> (if b then next_iteration A exec (var_name v) ?text (fs\<lparr>fs_iterable := it\<rparr>)
          else and_then (maybe_meet_back_iterator ?text fs) (\<lambda>_. next_last exec (var_name v))) s1
      | Err e \<Rightarrow> (Err e, s1) | Panic \<Rightarrow> (Panic, s1))"
      using g Ok \<open>u = s\<close> s1 it unfolding execute_next_eq by (cases b) (auto simp: and_then_def split: result.splits)
    have "scalars_kept s1 t" if "r1 = Ok ()"
    proof (cases b)
      case True
      with run eq that have "next_iteration A exec (var_name v) ?text (fs\<lparr>fs_iterable := it\<rparr>) s1 = (r, t)" by simp
      from next_iteration_kept [OF assms this c] fs sc1 it True show ?thesis by simp
    next
      case False
      with run eq that have "and_then (maybe_meet_back_iterator ?text fs) (\<lambda>_. next_last exec (var_name v)) s1 = (r, t)" by simp
      moreover have "preserves (stop_in is_catchable) scalars_kept (and_then (maybe_meet_back_iterator ?text fs) (\<lambda>_. next_last exec (var_name v)))"
        by (intro sk.preserves_and_then preserves_scalars_same scalars_same_meets next_last_kept assms)
      ultimately show ?thesis by (rule preservesD [rotated, OF _ c])
    qed
    moreover have "scalars_kept s s1" using sc1 by (rule scalars_kept_same)
    moreover have "t = s1" if "r1 \<noteq> Ok ()" using run eq that by (cases r1) auto
    ultimately show ?thesis using scalars_kept_trans by blast
  qed (use eq g u in \<open>auto simp: execute_next_def Let_def and_then_def intro: scalars_kept_same\<close>)
qed

text \<open>\<^verbatim>\<open>new\<close>: the scope of one matrix is closed after the body.\<close>

lemma new_scope_wf: "scalars_wf (scalars_of ctx) \<Longrightarrow> scalars_wf (scalars_of (new_scope_start arg span ctx))"
  by (cases arg) (simp_all add: scalars_wf_def new_start_scalar_def new_start_canon_stream_def new_start_canon_stream_map_def new_start_wf)

lemma new_scope_closed:
  assumes "scalars_wf (scalars_of ctx)" "scalars_frame (scalars_of (new_scope_start arg span ctx)) (scalars_of ctx')"
    and "new_epilog arg (ctx', th) = (r, (ctx'', th''))"
  shows "scalars_frame (scalars_of ctx) (scalars_of ctx'')"
proof (cases arg)
  case (NewScalar v)
  with assms new_end_restores [of "non_iterable_variables (scalars_of ctx)" "var_name v" "non_iterable_variables (scalars_of ctx')", where ?'n = 'a]
  show ?thesis
    by (auto simp: scalars_wf_def scalars_frame_def matrices_frame_def new_start_scalar_def on_scalars_def on_ctx_def zoom_def new_end_scalar_def)
next
  case (NewCanonStream v)
  with assms new_end_restores [of "canon_streams (scalars_of ctx)" "var_name v" "canon_streams (scalars_of ctx')", where ?'n = 'a]
  show ?thesis
    by (auto simp: scalars_wf_def scalars_frame_def matrices_frame_def new_start_canon_stream_def on_scalars_def on_ctx_def zoom_def
        new_end_canon_stream_def)
next
  case (NewCanonStreamMap v)
  with assms new_end_restores [of "canon_maps (scalars_of ctx)" "var_name v" "canon_maps (scalars_of ctx')", where ?'n = 'a]
  show ?thesis
    by (auto simp: scalars_wf_def scalars_frame_def matrices_frame_def new_start_canon_stream_map_def on_scalars_def on_ctx_def zoom_def
        new_end_canon_stream_map_def)
qed (use assms in \<open>auto simp: zoom_with_trace_def split: prod.splits\<close>)

lemma new_prolog_eq:
  "new_prolog arg span (ctx, th) = (r, t) \<Longrightarrow> scalars_of (fst t) = scalars_of (new_scope_start arg span ctx)"
  by (auto simp: new_prolog_def update_ctx_def on_ctx_def zoom_def and_then_def split: prod.splits)

lemma new_prolog_no_Err: "new_prolog arg span s \<noteq> (Err e, t)"
  by (cases s) (auto simp: new_prolog_def update_ctx_def on_ctx_def zoom_def and_then_def meet_new_def u32_add_cases
      split: prod.splits option.splits if_splits)

lemma scopes_new:
  assumes "\<And>i. preserves (stop_in is_catchable) scalars_kept (exec i)"
  shows "preserves (stop_in is_catchable) scalars_kept (execute_new exec arg i span)"
proof (intro preservesI)
  fix s r t
  assume eq: "execute_new exec arg i span s = (r, t)" and c: "settled (stop_in is_catchable) r"
  obtain ctx th where s: "s = (ctx, th)" by (cases s)
  obtain p0 s1 where p0: "new_prolog arg span s = (p0 :: (_, 'a exec_stop) result, s1)" by (meson surj_pair)
  with eq c have "p0 = Ok ()" by (cases p0) (auto simp: execute_new_def and_then_def new_prolog_no_Err)
  with p0 have s1: "new_prolog arg span s = (Ok (), s1)" by simp
  obtain q ctx2 th2 where s2: "exec i s1 = (q, (ctx2, th2))" by (metis prod.exhaust)
  obtain p ctx3 th3 where s3: "new_epilog arg (ctx2, th2) = (p, (ctx3, th3))" by (metis prod.exhaust)
  have "settled (stop_in is_catchable) q \<and> t = (ctx3, th3)"
    using eq c s1 s2 s3
    by (cases q; cases p)
      (auto simp: execute_new_def and_then_def attempt_def leaf_def map_err_def give_def split: exec_stop.splits)
  then have q: "settled (stop_in is_catchable) q" and t: "t = (ctx3, th3)" by auto
  show "scalars_kept s t"
    unfolding scalars_kept_def
  proof
    assume "scalars_wf (scalars_of (fst s))"
    then have wf: "scalars_wf (scalars_of ctx)" using s by simp
    have sc1: "scalars_of (fst s1) = scalars_of (new_scope_start arg span ctx)" using new_prolog_eq s1 s by blast
    then have "scalars_frame (scalars_of (new_scope_start arg span ctx)) (scalars_of ctx2)"
      using preservesD [OF assms s2 q] new_scope_wf [OF wf, of arg span] by (simp add: scalars_kept_def)
    from new_scope_closed [OF wf this s3] show "scalars_frame (scalars_of (fst s)) (scalars_of (fst t))"
      using s t by simp
  qed
qed

section \<open>Every execution\<close>

lemma set_value_kept:
  "preserves C scalars_kept (on_scalars (set_scalar_value name v))"
  "preserves C scalars_kept (on_scalars (set_canon_value name2 w))"
  "preserves C scalars_kept (on_scalars (set_canon_map_value name3 x))"
  by (auto simp: preserves_def on_scalars_def on_ctx_def zoom_def set_scalar_value_def set_canon_value_def set_canon_map_value_def
      scalars_kept_def scalars_frame_def matrices_frame_def scalars_wf_def frame_refl option.rel_refl fold_kept_refl
      intro: set_value_frame split: prod.splits)

lemma preserves_on_trace: "preserves C scalars_kept (on_trace m)"
  by (auto simp: preserves_def on_trace_def zoom_def intro!: scalars_kept_same split: prod.splits)

interpretation scopes: run_relation scalars_kept is_catchable A for A
proof unfold_locales
  show "preserves is_catchable scalars_kept (on_scalars (set_scalar_value name v))"
      "preserves is_catchable scalars_kept (on_scalars (set_canon_value name cv))"
      "preserves is_catchable scalars_kept (on_scalars (set_canon_map_value name mv))" for name v cv mv
    by (rule set_value_kept)+
  show "preserves is_catchable scalars_kept (on_ctx (zoom streams_of streams_of_update (add_stream_value d)))"
      "preserves is_catchable scalars_kept (on_ctx (zoom stream_maps_of stream_maps_of_update (add_stream_map_value (numbers A) k e)))"
      for d k e
    by (auto simp: preserves_def on_ctx_def on_trace_def zoom_def intro!: scalars_kept_same split: prod.splits)
  show "preserves is_catchable scalars_kept (call_end cr)" "preserves is_catchable scalars_kept (ap_end ar)"
      "preserves is_catchable scalars_kept (canon_end nr)" for cr ar nr
    unfolding call_end_def ap_end_def canon_end_def
    by (auto simp: preserves_def on_trace_def zoom_def intro!: scalars_kept_same split: prod.splits)
  have m: "scalars_same (on_mut_stream w m)" "scalars_same (on_mut_stream_map w2 m)" for w w2 m
    by (auto simp: scalars_same_def on_mut_stream_def on_mut_stream_map_def and_then_def on_ctx_def zoom_def split: prod.splits result.splits)
  show "preserves (stop_in is_catchable) scalars_kept (on_mut_stream w (cursor_fold_start rc))"
    "preserves (stop_in is_catchable) scalars_kept (on_mut_stream w (cursor_iteration_end rc))"
    "preserves (stop_in is_catchable) scalars_kept (on_mut_stream_map w2 (cursor_fold_start rc))"
    "preserves (stop_in is_catchable) scalars_kept (on_mut_stream_map w2 (cursor_iteration_end rc))" for w w2 rc
    by (rule preserves_scalars_same, rule m)+
  show "preserves (stop_in is_catchable) scalars_kept (execute_fold exec it ty name instr last_instr)"
      "preserves (stop_in is_catchable) scalars_kept (execute_next A exec v)"
      "preserves (stop_in is_catchable) scalars_kept (execute_new exec arg i span)"
    if "\<And>i. preserves (stop_in is_catchable) scalars_kept (exec i)" for exec it ty name instr last_instr v arg i span
    using that by (intro scopes_fold scopes_next scopes_new; simp)+
qed (auto intro!: preserves_scalars_same scalars_same_steps scalars_kept_same simp: preserves_on_trace)

end
