(* ===== verification/Exec_Fuel.thy ===== *)
theory Exec_Fuel
  imports Exec_Scalars
begin

text \<open>
  The fuel of \<open>execute\<close>: more fuel does not change a result, and a script without folds over streams whose
  \<^verbatim>\<open>next\<close> instructions are where the validator of scripts wants them has enough of it, so \<open>OutOfFuel\<close> is not an
  outcome of the program.
\<close>

section \<open>More fuel does not change a result\<close>

definition agrees :: "('n, 'bm, 'a) run \<Rightarrow> ('n, 'bm, 'a) run \<Rightarrow> bool" where
  "agrees m m' \<longleftrightarrow> (\<forall>s r t. m s = (r, t) \<longrightarrow> r \<noteq> Err OutOfFuel \<longrightarrow> m' s = (r, t))"

lemma agreesD: "agrees m m' \<Longrightarrow> m s = (r, t) \<Longrightarrow> r \<noteq> Err OutOfFuel \<Longrightarrow> m' s = (r, t)"
  unfolding agrees_def by blast

lemma agreesI: "(\<And>s r t. m s = (r, t) \<Longrightarrow> r \<noteq> Err OutOfFuel \<Longrightarrow> m' s = (r, t)) \<Longrightarrow> agrees m m'"
  unfolding agrees_def by blast

lemma agrees_refl: "agrees m m"
  by (simp add: agrees_def)

lemma agrees_trans: "agrees m m' \<Longrightarrow> agrees m' m'' \<Longrightarrow> agrees m m''"
  by (simp add: agrees_def)

lemma agrees_out_of_fuel: "agrees (throw OutOfFuel) m"
  by (simp add: agrees_def)

lemma agrees_and_then: "agrees m m' \<Longrightarrow> (\<And>a. agrees (k a) (k' a)) \<Longrightarrow> agrees (and_then m k) (and_then m' k')"
proof (intro agreesI)
  fix s r t
  assume a: "agrees m m'" "\<And>a. agrees (k a) (k' a)" and eq: "and_then m k s = (r, t)" "r \<noteq> Err OutOfFuel"
  obtain q u where q: "m s = (q, u)" by (meson surj_pair)
  then have "q \<noteq> Err OutOfFuel" using eq by (auto simp: and_then_def)
  with agreesD [OF a(1) q] have "m' s = (q, u)" .
  then show "and_then m' k' s = (r, t)"
    using eq q agreesD [OF a(2)] by (cases q) (auto simp: and_then_def)
qed

lemma agrees_attempt: "agrees m m' \<Longrightarrow> agrees (attempt m) (attempt m')"
proof (intro agreesI)
  fix s r t
  assume a: "agrees m m'" and eq: "attempt m s = (r, t)" "r \<noteq> Err OutOfFuel"
  obtain q u where q: "m s = (q, u)" by (meson surj_pair)
  then have "q \<noteq> Err OutOfFuel" using eq by (auto simp: attempt_def)
  with agreesD [OF a q] have "m' s = (q, u)" .
  then show "attempt m' s = (r, t)" using eq q by (simp add: attempt_def)
qed

lemma agrees_joinable_run: "(\<And>a. agrees (k a) (k' a)) \<Longrightarrow> agrees (joinable_run m k) (joinable_run m k')"
  by (intro agreesI) (auto simp: joinable_run_eq agrees_def split: prod.splits result.splits if_splits)

lemma agrees_with_errors: "agrees m m' \<Longrightarrow> agrees (with_errors A i m) (with_errors A i m')"
proof (intro agreesI)
  fix s r t
  assume a: "agrees m m'" and eq: "with_errors A i m s = (r, t)" "r \<noteq> Err OutOfFuel"
  obtain q u where q: "m s = (q, u)" by (meson surj_pair)
  then have "q \<noteq> Err OutOfFuel" using eq by (auto simp: with_errors_def)
  with agreesD [OF a q] have "m' s = (q, u)" .
  then show "with_errors A i m' s = (r, t)" using eq q by (simp add: with_errors_def)
qed

lemma agrees_if: "agrees m m' \<Longrightarrow> agrees n n' \<Longrightarrow> agrees (if b then m else n) (if b then m' else n')"
  by simp

lemma agrees_case_option:
  "agrees m m' \<Longrightarrow> (\<And>a. agrees (f a) (f' a)) \<Longrightarrow> agrees (case x of None \<Rightarrow> m | Some a \<Rightarrow> f a) (case x of None \<Rightarrow> m' | Some a \<Rightarrow> f' a)"
  by (cases x) simp_all

lemma agrees_case_prod: "(\<And>x y. agrees (f x y) (f' x y)) \<Longrightarrow> agrees (case p of (x, y) \<Rightarrow> f x y) (case p of (x, y) \<Rightarrow> f' x y)"
  by (cases p) simp

lemma agrees_case_result:
  "(\<And>a. agrees (f a) (f' a)) \<Longrightarrow> (\<And>e. agrees (g e) (g' e)) \<Longrightarrow> agrees h h' \<Longrightarrow>
   agrees (case x of Ok a \<Rightarrow> f a | Err e \<Rightarrow> g e | Panic \<Rightarrow> h) (case x of Ok a \<Rightarrow> f' a | Err e \<Rightarrow> g' e | Panic \<Rightarrow> h')"
  by (cases x) simp_all

lemmas agrees_rules = agrees_and_then agrees_attempt agrees_joinable_run agrees_with_errors agrees_if agrees_case_option
  agrees_case_prod agrees_case_result

definition runs_more :: "('n, 'bm) runner \<Rightarrow> ('n, 'bm) runner \<Rightarrow> bool" where
  "runs_more exec exec' \<longleftrightarrow> (\<forall>i. agrees (exec i) (exec' i))"

lemma agrees_exec: "runs_more exec exec' \<Longrightarrow> agrees (exec i) (exec' i)"
  by (simp add: runs_more_def)

text \<open>Each instruction, for an executor of its parts that has more fuel.\<close>

lemma agrees_seq:
  assumes "runs_more exec exec'"
  shows "agrees (execute_seq exec l r) (execute_seq exec' l r)"
  unfolding execute_seq_def by (intro agrees_rules agrees_exec [OF assms] agrees_refl)

lemma agrees_xor:
  assumes "runs_more exec exec'"
  shows "agrees (execute_xor N exec l r) (execute_xor N exec' l r)"
  unfolding execute_xor_def xor_right_def by (intro agrees_rules agrees_exec [OF assms] agrees_refl)

lemma agrees_par:
  assumes "runs_more exec exec'"
  shows "agrees (execute_par exec l r) (execute_par exec' l r)"
  unfolding execute_par_def execute_subgraph_def by (intro agrees_rules agrees_exec [OF assms] agrees_refl)

lemma agrees_matches:
  assumes "runs_more exec exec'"
  shows "agrees (execute_match A exec l r i) (execute_match A exec' l r i)"
    and "agrees (execute_mismatch A exec l r i) (execute_mismatch A exec' l r i)"
  unfolding execute_match_def execute_mismatch_def by (intro agrees_rules agrees_exec [OF assms] agrees_refl)+

lemma agrees_new:
  assumes "runs_more exec exec'"
  shows "agrees (execute_new exec a i sp) (execute_new exec' a i sp)"
  unfolding execute_new_def by (intro agrees_rules agrees_exec [OF assms] agrees_refl)

lemma agrees_fold:
  assumes "runs_more exec exec'"
  shows "agrees (execute_fold exec it ty v i l) (execute_fold exec' it ty v i l)"
  unfolding execute_fold_def Let_def by (intro agrees_rules agrees_exec [OF assms] agrees_refl)

lemma agrees_fold_scalar: "runs_more exec exec' \<Longrightarrow> agrees (execute_fold_scalar A exec it v i l) (execute_fold_scalar A exec' it v i l)"
  unfolding execute_fold_scalar_def
  by (intro agrees_rules) (auto intro: agrees_refl agrees_fold split: fold_iterable_scalar.split)

lemma agrees_case_bool: "agrees m m' \<Longrightarrow> agrees n n' \<Longrightarrow> agrees (case b of True \<Rightarrow> m | False \<Rightarrow> n) (case b of True \<Rightarrow> m' | False \<Rightarrow> n')"
  by (cases b) simp_all

lemma agrees_next:
  assumes "runs_more exec exec'"
  shows "agrees (execute_next A exec v) (execute_next A exec' v)"
  unfolding execute_next_def next_last_def Let_def
  by (intro agrees_rules agrees_case_bool agrees_exec [OF assms] agrees_refl)

lemma agrees_iterations:
  "runs_more exec exec' \<Longrightarrow> agrees (execute_iterations A exec text v i l fid its obs) (execute_iterations A exec' text v i l fid its obs)"
  by (induction its arbitrary: obs) (auto intro!: agrees_rules agrees_fold agrees_refl)

lemma agrees_rounds:
  "runs_more exec exec' \<Longrightarrow> n \<le> n' \<Longrightarrow>
   agrees (stream_rounds n A exec on_mut text v i l fid st rc obs) (stream_rounds n' A exec' on_mut text v i l fid st rc obs)"
proof (induction n arbitrary: n' st rc obs)
  case 0
  then show ?case by (cases st; cases n') (auto intro: agrees_refl agrees_out_of_fuel simp: agrees_def)
next
  case (Suc n)
  then obtain m where "n' = Suc m" "n \<le> m" by (cases n') auto
  show ?case
  proof (cases st)
    case (Continue its)
    then show ?thesis
      unfolding \<open>n' = Suc m\<close> by (simp, intro agrees_rules agrees_iterations agrees_refl Suc.IH Suc.prems(1) \<open>n \<le> m\<close>)
  qed (simp add: agrees_def \<open>n' = Suc m\<close>)
qed

lemma agrees_fold_streams:
  "runs_more exec exec' \<Longrightarrow> n \<le> n' \<Longrightarrow> agrees (execute_fold_stream n A exec it v i l text) (execute_fold_stream n' A exec' it v i l text)"
  "runs_more exec exec' \<Longrightarrow> n \<le> n' \<Longrightarrow> agrees (execute_fold_stream_map n A exec it2 v i l text) (execute_fold_stream_map n' A exec' it2 v i l text)"
  unfolding execute_fold_stream_def execute_fold_stream_map_def execute_with_stream_def
  by (intro agrees_rules agrees_rounds agrees_refl; assumption)+

lemma agrees_body: "runs_more exec exec' \<Longrightarrow> n \<le> n' \<Longrightarrow> agrees (execute_body n A exec i) (execute_body n' A exec' i)"
  by (cases i) (auto intro: agrees_refl agrees_seq agrees_xor agrees_par agrees_matches agrees_new agrees_fold_scalar agrees_next
      agrees_fold_streams)

lemma execute_instruction_eq:
  "execute_instruction n A exec i =
     (if \<exists>c. i = ICall c then execute_body n A exec i else with_errors A i (execute_body n A exec i))"
  by (cases i) (simp_all add: execute_instruction_def)

lemma more_fuel: "n \<le> n' \<Longrightarrow> agrees (execute n A i) (execute n' A i)"
proof (induction n arbitrary: n' i)
  case 0
  then show ?case by (simp add: agrees_def)
next
  case (Suc n)
  then obtain m where m: "n' = Suc m" "n \<le> m" by (cases n') auto
  with Suc.IH have "runs_more (execute n A) (execute m A)" by (simp add: runs_more_def)
  from agrees_body [OF this m(2)] show ?case
    unfolding m(1) execute.simps execute_instruction_eq by (simp add: agrees_with_errors)
qed

end
