(* ===== verification/Exec_Termination.thy ===== *)
theory Exec_Termination
  imports Exec_Fuel
begin

text \<open>
  Termination of executions. A computation with fuel halts on a state if from some amount of fuel on it has one and the
  same result, which is not \<open>OutOfFuel\<close>. Scripts without folds over streams halt when a \<^verbatim>\<open>next\<close> is only inside of
  the fold of its iterator and, should the body of the fold have one, not in its last instruction.
\<close>

section \<open>Computations that halt\<close>

definition halts :: "(nat \<Rightarrow> ('n, 'bm, 'a) run) \<Rightarrow> ('n, 'bm) exec_state \<Rightarrow> bool" where
  "halts M s \<longleftrightarrow> (\<exists>r t n. r \<noteq> Err OutOfFuel \<and> (\<forall>m \<ge> n. M m s = (r, t)))"

definition fuelless :: "('n, 'bm, 'a) run \<Rightarrow> bool" where
  "fuelless m \<longleftrightarrow> (\<forall>s t. m s \<noteq> (Err OutOfFuel, t))"

lemma halts_const: "fuelless m \<Longrightarrow> halts (\<lambda>_. m) s"
  unfolding halts_def fuelless_def by (metis surj_pair)

lemma halts_and_then:
  assumes "halts M s" "\<And>n a t. M n s = (Ok a, t) \<Longrightarrow> halts (K a) t"
  shows "halts (\<lambda>n. and_then (M n) (\<lambda>a. K a n)) s"
proof -
  obtain r t n where M: "r \<noteq> Err OutOfFuel" "\<And>m. n \<le> m \<Longrightarrow> M m s = (r, t)" using assms(1) unfolding halts_def by blast
  show ?thesis
  proof (cases "\<exists>a. r = Ok a")
    case True
    then obtain a where r: "r = Ok a" ..
    then have "halts (K a) t" using assms(2) M(2) [of n] by simp
    then obtain r' t' n' where K: "r' \<noteq> Err OutOfFuel" "\<And>m. n' \<le> m \<Longrightarrow> K a m t = (r', t')" unfolding halts_def by blast
    have "and_then (M m) (\<lambda>a. K a m) s = (r', t')" if "max n n' \<le> m" for m
      using M(2) [of m] K(2) [of m] that r by (simp add: and_then_def)
    with K(1) show ?thesis unfolding halts_def by blast
  next
    case False
    then have "\<exists>q. q \<noteq> Err OutOfFuel \<and> (\<forall>m \<ge> n. and_then (M m) (\<lambda>a. K a m) s = (q, t))"
      using M by (cases r) (auto simp: and_then_def)
    then show ?thesis unfolding halts_def by blast
  qed
qed

lemma halts_const_and_then:
  assumes "fuelless m" "\<And>a t. m s = (Ok a, t) \<Longrightarrow> halts (K a) t"
  shows "halts (\<lambda>n. and_then m (\<lambda>a. K a n)) s"
  by (rule halts_and_then [OF halts_const [OF assms(1)] assms(2)])

lemma halts_attempt:
  assumes "halts M s"
  shows "halts (\<lambda>n. attempt (M n)) s"
proof -
  obtain r t n where M: "r \<noteq> Err OutOfFuel" "\<And>m. n \<le> m \<Longrightarrow> M m s = (r, t)" using assms unfolding halts_def by blast
  then have "\<exists>q. q \<noteq> Err OutOfFuel \<and> (\<forall>m \<ge> n. attempt (M m) s = (q, t))"
    by (cases r) (auto simp: attempt_def split: exec_stop.split)
  then show ?thesis unfolding halts_def by blast
qed

lemma attempt_Ok: "attempt m s = (Ok a, t) \<longleftrightarrow> (\<exists>v. a = Ok v \<and> m s = (Ok v, t)) \<or> (\<exists>e. a = Err e \<and> m s = (Err (Stop e), t))"
  by (auto simp: attempt_def split: prod.splits result.splits exec_stop.splits)

lemma halts_attempt_and_then:
  assumes "halts M s" "\<And>n v t. M n s = (Ok v, t) \<Longrightarrow> halts (K (Ok v)) t" "\<And>n e t. M n s = (Err (Stop e), t) \<Longrightarrow> halts (K (Err e)) t"
  shows "halts (\<lambda>n. and_then (attempt (M n)) (\<lambda>a. K a n)) s"
  using assms(2,3) by (intro halts_and_then halts_attempt assms(1)) (auto simp: attempt_Ok)

lemma halts_with_errors: "halts M s \<Longrightarrow> halts (\<lambda>n. with_errors A i (M n)) s"
proof -
  assume "halts M s"
  then obtain r t n where M: "r \<noteq> Err OutOfFuel" "\<And>m. n \<le> m \<Longrightarrow> M m s = (r, t)" unfolding halts_def by blast
  then have "\<exists>q u. q \<noteq> Err OutOfFuel \<and> (\<forall>m \<ge> n. with_errors A i (M m) s = (q, u))"
  proof (cases r)
    case (Err e)
    with M show ?thesis by (cases e) (auto simp: with_errors_def)
  qed (use M in \<open>auto simp: with_errors_def\<close>)
  then show ?thesis unfolding halts_def by blast
qed

lemma halts_joinable_run:
  assumes "\<And>a t. m s = (Ok a, t) \<Longrightarrow> halts (K a) t"
  shows "halts (\<lambda>n. joinable_run m (\<lambda>a. K a n)) s"
proof -
  obtain r t where m: "m s = (r, t)" by (meson surj_pair)
  show ?thesis
  proof (cases r)
    case (Ok a)
    with assms m show ?thesis by (simp add: halts_def joinable_run_eq)
  qed (use m in \<open>auto simp: halts_def joinable_run_eq\<close>)
qed

lemma res_map_err_Stop: "res_map_err Stop r \<noteq> Err OutOfFuel"
  by (cases r) simp_all

lemma fuelless_steps: "fuelless (leaf m)" "fuelless (traced text m2)" "fuelless (give r)" "fuelless (update_ctx f)" "fuelless (gets g)"
    "fuelless (ret a)" "fuelless (throw (Stop e))" "fuelless panic" "fuelless (get_fold_state name)" "fuelless (set_fold_state name fs)"
  by (auto simp: fuelless_def traced_def leaf_def map_err_def give_def update_ctx_def get_fold_state_def set_fold_state_def
      res_map_err_Stop split: prod.splits)

definition no_err :: "('a, 'e) result \<Rightarrow> bool" where
  "no_err r \<longleftrightarrow> (\<forall>e. r \<noteq> Err e)"

lemma no_err_rules: "no_err (Ok a)" "no_err Panic" "no_err (index_vec xs i)" "no_err (unwrap x)"
    "no_err r \<Longrightarrow> (\<And>a. no_err (f a)) \<Longrightarrow> no_err (res_then r f)"
  by (cases x; cases r; simp add: no_err_def index_vec_def)+

lemma no_err_peek: "no_err (iterable_peek it)"
  by (cases it) (auto simp: peek_resolved_call_def peek_lambda_result_def peek_canon_stream_def peek_canon_stream_map_def
      peek_vec_resolved_call_def Let_def split: jvalue.split prod.split intro!: no_err_rules)

lemma fuelless_lift: "no_err r \<Longrightarrow> fuelless (lift r)"
  by (auto simp: fuelless_def no_err_def)

lemma fuelless_and_then: "fuelless m \<Longrightarrow> (\<And>a. fuelless (k a)) \<Longrightarrow> fuelless (and_then m k)"
  by (auto simp: fuelless_def and_then_def split: prod.splits result.splits)

lemma fuelless_meets: "fuelless (maybe_meet_iteration_start A text fs)" "fuelless (maybe_meet_iteration_end text fs)"
    "fuelless (maybe_meet_back_iterator text fs)"
  unfolding maybe_meet_iteration_start_def maybe_meet_iteration_end_def maybe_meet_back_iterator_def
  by (auto intro!: fuelless_and_then fuelless_steps fuelless_lift no_err_rules no_err_peek
      simp: expect_peek_def split: iterable_type.split)

lemma fuelless_scopes: "fuelless (with_ctx (\<lambda>ctx. scalars_fold_end (scalars_of ctx)))"
    "fuelless (with_ctx (\<lambda>ctx. scalars_next_after (scalars_of ctx)))" "fuelless (new_prolog arg span)"
  by (auto simp: fuelless_def with_ctx_def scope_ends_no_Err new_prolog_no_Err)

lemma fuelless_par_result: "fuelless (prepare_par_result l r)"
  by (cases "(l, r)" rule: prepare_par_result.cases) (auto intro: fuelless_steps)

lemmas fuelless_rules = fuelless_steps fuelless_meets fuelless_scopes fuelless_par_result

section \<open>Where next may be\<close>

text \<open>
  The iterators an instruction may step: the last instruction of a fold only runs on behalf of a \<^verbatim>\<open>next\<close> in the body.
\<close>

fun free_nexts :: "'n instruction \<Rightarrow> string set" where
  "free_nexts (INext v) = {var_name v}"
| "free_nexts (ISeq l r) = free_nexts l \<union> free_nexts r"
| "free_nexts (IPar l r) = free_nexts l \<union> free_nexts r"
| "free_nexts (IXor l r) = free_nexts l \<union> free_nexts r"
| "free_nexts (IMatch _ _ i) = free_nexts i"
| "free_nexts (IMisMatch _ _ i) = free_nexts i"
| "free_nexts (INew _ i _) = free_nexts i"
| "free_nexts (IFoldScalar _ v i l _) =
     (free_nexts i \<union> (case l of Some l \<Rightarrow> if var_name v \<in> free_nexts i then free_nexts l else {} | None \<Rightarrow> {})) - {var_name v}"
| "free_nexts _ = {}"

fun nexts_ok :: "'n instruction \<Rightarrow> bool" where
  "nexts_ok (ISeq l r) = (nexts_ok l \<and> nexts_ok r)"
| "nexts_ok (IPar l r) = (nexts_ok l \<and> nexts_ok r)"
| "nexts_ok (IXor l r) = (nexts_ok l \<and> nexts_ok r)"
| "nexts_ok (IMatch _ _ i) = nexts_ok i"
| "nexts_ok (IMisMatch _ _ i) = nexts_ok i"
| "nexts_ok (INew _ i _) = nexts_ok i"
| "nexts_ok (IFoldScalar _ v i l _) =
     (nexts_ok i \<and> (case l of
        Some l \<Rightarrow> nexts_ok l \<and> (var_name v \<in> free_nexts i \<longrightarrow> var_name v \<notin> free_nexts l)
      | None \<Rightarrow> True))"
| "nexts_ok (IFoldStream _ _ _ _ _) = False"
| "nexts_ok (IFoldStreamMap _ _ _ _ _) = False"
| "nexts_ok _ = True"

fun fold_names :: "'n instruction \<Rightarrow> string set" where
  "fold_names (ISeq l r) = fold_names l \<union> fold_names r"
| "fold_names (IPar l r) = fold_names l \<union> fold_names r"
| "fold_names (IXor l r) = fold_names l \<union> fold_names r"
| "fold_names (IMatch _ _ i) = fold_names i"
| "fold_names (IMisMatch _ _ i) = fold_names i"
| "fold_names (INew _ i _) = fold_names i"
| "fold_names (IFoldScalar _ v i l _) =
     insert (var_name v) (fold_names i \<union> (case l of Some l \<Rightarrow> fold_names l | None \<Rightarrow> {}))"
| "fold_names _ = {}"

lemma finite_fold_names: "finite (fold_names i)"
  by (induction i rule: fold_names.induct) (auto split: option.split)

section \<open>The measure\<close>

text \<open>The body and the last instruction of each running fold.\<close>

type_synonym 'n heads = "string \<rightharpoonup> 'n instruction \<times> 'n instruction option"

definition heads :: "(string \<rightharpoonup> 'n fold_state) \<Rightarrow> 'n heads" where
  "heads fs = (\<lambda>y. map_option (\<lambda>st. (fs_instr_head st, fs_last_instr_head st)) (fs y))"

text \<open>The iterators that the body of their fold steps.\<close>

definition active :: "'n heads \<Rightarrow> string set" where
  "active hs = {y. \<exists>b l. hs y = Some (b, l) \<and> y \<in> free_nexts b}"

definition instr_ok :: "string set \<Rightarrow> 'n heads \<Rightarrow> 'n instruction \<Rightarrow> bool" where
  "instr_ok N hs i \<longleftrightarrow> nexts_ok i \<and> fold_names i \<subseteq> N \<and> free_nexts i \<subseteq> active hs"

definition heads_ok :: "string set \<Rightarrow> (string \<Rightarrow> nat) \<Rightarrow> 'n heads \<Rightarrow> bool" where
  "heads_ok N rank hs \<longleftrightarrow> finite N \<and> dom hs \<subseteq> N \<and> (\<forall>y b last. hs y = Some (b, last) \<longrightarrow>
     instr_ok N hs b \<and> (\<forall>l. y \<in> free_nexts b \<longrightarrow> last = Some l \<longrightarrow> instr_ok N hs l \<and> (\<forall>x \<in> free_nexts l. rank x < rank y)))"

definition items_left :: "(string \<rightharpoonup> 'n fold_state) \<Rightarrow> nat" where
  "items_left fs = (\<Sum>y \<in> dom fs. remaining_items (fs_iterable (the (fs y))))"

definition top_rank :: "(string \<Rightarrow> nat) \<Rightarrow> string set \<Rightarrow> nat" where
  "top_rank rank X = (if X = {} then 0 else Suc (Max (rank ` X)))"

definition work :: "string set \<Rightarrow> (string \<Rightarrow> nat) \<Rightarrow> (string \<rightharpoonup> 'n fold_state) \<Rightarrow> 'n instruction \<Rightarrow> nat \<times> nat \<times> nat \<times> nat" where
  "work N rank fs i = (card (N - dom fs), items_left fs, top_rank rank (free_nexts i), size i)"

abbreviation work_order :: "((nat \<times> nat \<times> nat \<times> nat) \<times> (nat \<times> nat \<times> nat \<times> nat)) set" where
  "work_order \<equiv> less_than <*lex*> less_than <*lex*> less_than <*lex*> less_than"

lemma wf_work_order: "wf work_order"
  by (intro wf_lex_prod wf_less_than)

definition folds_advanced :: "(string \<rightharpoonup> 'n fold_state) \<Rightarrow> (string \<rightharpoonup> 'n fold_state) \<Rightarrow> bool" where
  "folds_advanced fs fs' \<longleftrightarrow> (\<forall>y. rel_option fold_kept (fs y) (fs' y))"

lemma folds_advanced_heads: "folds_advanced fs fs' \<Longrightarrow> heads fs' = heads fs"
proof
  fix y
  assume "folds_advanced fs fs'"
  then show "heads fs' y = heads fs y"
    by (cases "fs y"; cases "fs' y") (auto simp: folds_advanced_def heads_def fold_kept_def dest!: spec [of _ y])
qed

lemma dom_heads [simp]: "dom (heads fs) = dom fs"
  by (auto simp: heads_def)

lemma folds_advanced_dom: "folds_advanced fs fs' \<Longrightarrow> dom fs' = dom fs"
  using dom_heads folds_advanced_heads by metis

lemma items_left_advanced:
  assumes "folds_advanced fs fs'"
  shows "items_left fs' \<le> items_left fs"
proof -
  have "remaining_items (fs_iterable (the (fs' y))) \<le> remaining_items (fs_iterable (the (fs y)))" if "y \<in> dom fs" for y
    using assms that by (cases "fs' y") (auto simp: folds_advanced_def fold_kept_def dest!: spec [of _ y])
  then show ?thesis
    unfolding items_left_def folds_advanced_dom [OF assms] by (rule sum_mono)
qed

lemma top_rank_mono: "X \<subseteq> Y \<Longrightarrow> finite Y \<Longrightarrow> top_rank rank X \<le> top_rank rank Y"
  by (auto simp: top_rank_def intro!: Max_mono)

lemma free_nexts_finite: "finite (free_nexts i)"
  by (induction i rule: free_nexts.induct) (auto split: option.split)

text \<open>A part of an instruction, after other parts of it.\<close>

lemma work_part:
  assumes "folds_advanced fs fs'" "free_nexts i' \<subseteq> free_nexts i" "size i' < size i"
  shows "(work N rank fs' i', work N rank fs i) \<in> work_order"
  using items_left_advanced [OF assms(1)] top_rank_mono [OF assms(2) free_nexts_finite, of rank] assms(3) folds_advanced_dom [OF assms(1)]
  by (auto simp: work_def)

section \<open>Instructions halt if their parts do\<close>

lemma halts_execute:
  assumes "halts (\<lambda>n. execute_body n A (execute n A) i) s"
  shows "halts (\<lambda>n. execute n A i) s"
proof -
  have "halts (\<lambda>n. execute (Suc n) A i) s"
    using assms halts_with_errors [OF assms, of A i] by (cases "\<exists>c. i = ICall c") (simp_all add: execute_instruction_eq)
  then obtain r t n where e: "r \<noteq> Err OutOfFuel" "\<And>m. n \<le> m \<Longrightarrow> execute (Suc m) A i s = (r, t)" unfolding halts_def by blast
  then have "execute m A i s = (r, t)" if "Suc n \<le> m" for m using that by (cases m) auto
  with e(1) show ?thesis unfolding halts_def by blast
qed

text \<open>The parts halt on every state that has at most moved the iterators on.\<close>

definition parts_halt :: "('n, 'bm) air_ops \<Rightarrow> ('n, 'bm) exec_state \<Rightarrow> 'n instruction set \<Rightarrow> bool" where
  "parts_halt A s I \<longleftrightarrow> (\<forall>i t. i \<in> I \<longrightarrow> scalars_kept s t \<longrightarrow> halts (\<lambda>n. execute n A i) t)"

lemma parts_haltD: "parts_halt A s I \<Longrightarrow> i \<in> I \<Longrightarrow> scalars_kept s t \<Longrightarrow> halts (\<lambda>n. execute n A i) t"
  unfolding parts_halt_def by blast

lemma kept_after:
  assumes "scalars_kept s t" "m t = (r, u)" "scalars_same m"
  shows "scalars_kept s u"
  using scalars_kept_trans [OF assms(1)] scalars_kept_same_run [OF assms(3,2)] by blast

lemma kept_executed:
  assumes "scalars_kept s t" "execute n A i t = (r, u)" "settled (stop_in is_catchable) r"
  shows "scalars_kept s u"
  using scalars_kept_trans [OF assms(1)] scopes.execute_related [OF assms(2,3)] by blast

lemma scalars_same_updates: "(\<And>ctx. scalars_of (f ctx) = scalars_of ctx) \<Longrightarrow> scalars_same (update_ctx f)"
    "scalars_same (gets g)"
  by (auto simp: scalars_same_def update_ctx_def)

lemma same_ctx_updates [simp]:
  "scalars_of (flush_subgraph_completeness ctx) = scalars_of ctx" "scalars_of (make_subgraph_incomplete ctx) = scalars_of ctx"
  "scalars_of (set_subgraph_completeness b ctx) = scalars_of ctx" "scalars_of (par_set_completeness pu ctx) = scalars_of ctx"
  by (simp_all add: flush_subgraph_completeness_def make_subgraph_incomplete_def set_subgraph_completeness_def par_set_completeness_def)

text \<open>Halting on all these states, with rules for the steps of an instruction.\<close>

definition halts_from :: "('n, 'bm) exec_state \<Rightarrow> (nat \<Rightarrow> ('n, 'bm, 'a) run) \<Rightarrow> bool" where
  "halts_from s M \<longleftrightarrow> (\<forall>t. scalars_kept s t \<longrightarrow> halts M t)"

lemma halts_fromI: "(\<And>t. scalars_kept s t \<Longrightarrow> halts M t) \<Longrightarrow> halts_from s M"
  unfolding halts_from_def by blast

lemma halts_fromD: "halts_from s M \<Longrightarrow> scalars_kept s t \<Longrightarrow> halts M t"
  unfolding halts_from_def by blast

lemma from_self: "halts_from s M \<Longrightarrow> halts M s"
  by (erule halts_fromD) (simp add: scalars_kept_same)

lemma from_const: "fuelless m \<Longrightarrow> halts_from s (\<lambda>_. m)"
  by (intro halts_fromI halts_const)

lemma from_same:
  "fuelless m \<Longrightarrow> scalars_same m \<Longrightarrow> (\<And>a. halts_from s (K a)) \<Longrightarrow> halts_from s (\<lambda>n. and_then m (\<lambda>a. K a n))"
  by (intro halts_fromI halts_const_and_then) (auto intro: halts_fromD kept_after)

lemma from_exec: "parts_halt A s I \<Longrightarrow> i \<in> I \<Longrightarrow> halts_from s (\<lambda>n. execute n A i)"
  by (intro halts_fromI parts_haltD)

lemma from_exec_and_then:
  assumes "parts_halt A s I" "i \<in> I" "\<And>a. halts_from s (K a)"
  shows "halts_from s (\<lambda>n. and_then (execute n A i) (\<lambda>a. K a n))"
proof (intro halts_fromI halts_and_then)
  fix t assume t: "scalars_kept s t"
  then show "halts (\<lambda>n. execute n A i) t" by (rule parts_haltD [OF assms(1,2)])
  show "halts (K a) u" if "execute n A i t = (Ok a, u)" for n a u
    using kept_executed [OF t that] by (intro halts_fromD [OF assms(3)]) simp
qed

lemma from_attempt:
  assumes "parts_halt A s I" "i \<in> I" "\<And>a. halts_from s (K (Ok a))" "\<And>e. is_catchable e \<Longrightarrow> halts_from s (K (Err e))"
    and "\<And>e t. \<not> is_catchable e \<Longrightarrow> halts (K (Err e)) t"
  shows "halts_from s (\<lambda>n. and_then (attempt (execute n A i)) (\<lambda>r. K r n))"
proof (intro halts_fromI halts_attempt_and_then)
  fix t assume t: "scalars_kept s t"
  then show "halts (\<lambda>n. execute n A i) t" by (rule parts_haltD [OF assms(1,2)])
  fix n u
  show "halts (K (Ok v)) u" if "execute n A i t = (Ok v, u)" for v
    using kept_executed [OF t that] by (intro halts_fromD [OF assms(3)]) simp
  show "halts (K (Err e)) u" if "execute n A i t = (Err (Stop e), u)" for e
    using kept_executed [OF t that] halts_fromD [OF assms(4)] assms(5) by (cases "is_catchable e") simp_all
qed

lemma from_if: "halts_from s M \<Longrightarrow> halts_from s M' \<Longrightarrow> halts_from s (\<lambda>n. if b then M n else M' n)"
  by (cases b) simp_all

lemma from_case_prod: "(\<And>x y. halts_from s (M x y)) \<Longrightarrow> halts_from s (\<lambda>n. case p of (x, y) \<Rightarrow> M x y n)"
  by (cases p) simp

lemma halts_seq:
  assumes "parts_halt A s {l, r}"
  shows "halts (\<lambda>n. execute_seq (execute n A) l r) s"
proof (rule from_self)
  show "halts_from s (\<lambda>n. execute_seq (execute n A) l r)"
    unfolding execute_seq_def
    by (intro from_same from_exec_and_then [OF assms] from_exec [OF assms] from_if from_const fuelless_rules scalars_same_updates) simp_all
qed

lemma halts_xor:
  assumes "parts_halt A s {l, r}"
  shows "halts (\<lambda>n. execute_xor N (execute n A) l r) s"
proof (rule from_self)
  have right: "halts_from s (\<lambda>n. xor_right N (execute n A) e r)" for e
    unfolding xor_right_def
    by (intro from_same from_attempt [OF assms] from_const fuelless_rules scalars_same_updates)
      (auto intro!: halts_const fuelless_and_then fuelless_rules scalars_same_updates scalars_same_steps)
  show "halts_from s (\<lambda>n. execute_xor N (execute n A) l r)"
    unfolding execute_xor_def
    by (intro from_same from_attempt [OF assms] fuelless_rules scalars_same_updates)
      (auto intro!: from_const halts_const fuelless_rules right)
qed

lemma from_and_then:
  assumes "halts_from s M" "\<And>n. preserves (stop_in is_catchable) scalars_kept (M n)" "\<And>a. halts_from s (K a)"
  shows "halts_from s (\<lambda>n. and_then (M n) (\<lambda>a. K a n))"
proof (intro halts_fromI halts_and_then)
  fix t assume t: "scalars_kept s t"
  then show "halts M t" by (rule halts_fromD [OF assms(1)])
  show "halts (K a) u" if "M n t = (Ok a, u)" for n a u
    using preservesD [OF assms(2) that] scalars_kept_trans [OF t] by (intro halts_fromD [OF assms(3)]) simp
qed

lemma halts_par:
  assumes "parts_halt A s {l, r}"
  shows "halts (\<lambda>n. execute_par (execute n A) l r) s"
proof (rule from_self)
  have sub: "halts_from s (\<lambda>n. execute_subgraph (execute n A) i g pu)" if "i \<in> {l, r}" for i g pu
    unfolding execute_subgraph_def
    by (intro from_same from_attempt [OF assms that] fuelless_rules scalars_same_updates)
      (auto intro!: from_const halts_const fuelless_and_then fuelless_rules scalars_same_updates scalars_same_and_then scalars_same_steps)
  show "halts_from s (\<lambda>n. execute_par (execute n A) l r)"
    unfolding execute_par_def
    by (intro from_same from_and_then from_case_prod from_const sub fuelless_rules scalars_same_updates scalars_same_steps
        scopes.kept_subgraph scopes.kept_execute) simp_all
qed

lemma halts_if: "halts M s \<Longrightarrow> halts M' s \<Longrightarrow> halts (\<lambda>n. if b then M n else M' n) s"
  by (cases b) simp_all

lemma halts_matches:
  assumes "parts_halt A s {i}"
  shows "halts (\<lambda>n. execute_match A (execute n A) x y i) s" "halts (\<lambda>n. execute_mismatch A (execute n A) x y i) s"
proof -
  have e: "halts (\<lambda>n. execute n A i) s" using parts_haltD [OF assms] by (simp add: scalars_kept_same)
  show "halts (\<lambda>n. execute_match A (execute n A) x y i) s" "halts (\<lambda>n. execute_mismatch A (execute n A) x y i) s"
    unfolding execute_match_def execute_mismatch_def
    by (rule halts_joinable_run, rule halts_if, auto simp: with_ctx_def intro!: halts_const fuelless_rules e)+
qed

lemma fuelless_attempt: "fuelless m \<Longrightarrow> fuelless (attempt m)"
  by (auto simp: fuelless_def attempt_def split: prod.splits result.splits exec_stop.splits)

lemma halts_new:
  fixes A :: "('n, 'bm) air_ops"
  assumes "\<And>t. new_prolog arg span s = (Ok () :: (_, 'n exec_stop) result, t) \<Longrightarrow> halts (\<lambda>n. execute n A i) t"
  shows "halts (\<lambda>n. execute_new (execute n A) arg i span) s"
  unfolding execute_new_def
  by (intro halts_const_and_then halts_and_then halts_attempt fuelless_rules)
    (auto intro!: assms halts_const fuelless_attempt fuelless_and_then fuelless_rules split: result.split)

lemma halts_fold:
  assumes "iterable_variables (scalars_of (fst s)) name = None \<Longrightarrow>
      halts (\<lambda>n. execute n A i) ((fst s)\<lparr>scalars_of := (scalars_fold_start (scalars_of (fst s)))\<lparr>iterable_variables :=
        (iterable_variables (scalars_of (fst s)))(name \<mapsto> from_iterable it ty i l)\<rparr>\<rparr>, snd s)"
  shows "halts (\<lambda>n. execute_fold (execute n A) it ty name i l) s"
proof -
  obtain ctx th where s: "s = (ctx, th)" by (cases s)
  have u: "scalars_of_update scalars_fold_start ctx = ctx\<lparr>scalars_of := scalars_fold_start (scalars_of ctx)\<rparr>" by (cases ctx) simp
  show ?thesis
    unfolding execute_fold_def Let_def
  proof (intro halts_const_and_then halts_and_then halts_attempt fuelless_rules)
    fix a t b u'
    assume "update_ctx (scalars_of_update scalars_fold_start) s = (Ok a :: (unit, 'a exec_stop) result, t)"
      and "leaf (on_scalars (set_iterable_value name (from_iterable it ty i l))) t = (Ok b, u')"
    then have "iterable_variables (scalars_of ctx) name = None"
        "u' = (ctx\<lparr>scalars_of := (scalars_fold_start (scalars_of ctx))\<lparr>iterable_variables :=
          (iterable_variables (scalars_of ctx))(name \<mapsto> from_iterable it ty i l)\<rparr>\<rparr>, th)"
      using s u by (auto simp: update_ctx_def leaf_def map_err_def on_scalars_def on_ctx_def zoom_def set_iterable_value_def
          split: option.splits)
    with assms s show "halts (\<lambda>n. execute n A i) u'" by simp
  qed (auto intro!: halts_const fuelless_and_then fuelless_rules)
qed

lemma halts_fold_scalar:
  assumes "\<And>v'. halts (\<lambda>n. execute_fold (execute n A) v' ScalarIterable (var_name v) i l) s"
  shows "halts (\<lambda>n. execute_fold_scalar A (execute n A) it v i l) s"
  unfolding execute_fold_scalar_def
proof (rule halts_joinable_run)
  fix a t assume "with_ctx (scalar_iterable A it) s = (Ok a, t)"
  then have "t = s" by (simp add: with_ctx_def)
  with assms show "halts (\<lambda>n. case a of FoldEmpty \<Rightarrow> ret () | ScalarBased it \<Rightarrow> execute_fold (execute n A) it ScalarIterable (var_name v) i l) t"
    by (cases a) (auto intro!: halts_const fuelless_rules)
qed

lemma fuelless_next_after: "fuelless (next_after_body name text)"
  unfolding next_after_body_def Let_def by (intro fuelless_and_then fuelless_rules)

text \<open>\<^verbatim>\<open>next\<close>: its body is run with the iterator moved on, the last instruction with the iterator where it is.\<close>

lemma halts_next:
  assumes "\<And>fs it t. iterable_variables (scalars_of (fst s)) (var_name v) = Some fs \<Longrightarrow> iterable_next (fs_iterable fs) = (True, it) \<Longrightarrow>
      scalars_of (fst t) = scalars_next_before ((scalars_of (fst s))\<lparr>iterable_variables :=
        (iterable_variables (scalars_of (fst s)))(var_name v \<mapsto> fs\<lparr>fs_iterable := it\<rparr>)\<rparr>) \<Longrightarrow>
      halts (\<lambda>n. execute n A (fs_instr_head fs)) t"
    and "\<And>fs l t. iterable_variables (scalars_of (fst s)) (var_name v) = Some fs \<Longrightarrow> fs_last_instr_head fs = Some l \<Longrightarrow>
      scalars_of (fst t) = scalars_of (fst s) \<Longrightarrow> halts (\<lambda>n. execute n A l) t"
  shows "halts (\<lambda>n. execute_next A (execute n A) v) s"
  unfolding execute_next_eq
proof (intro halts_const_and_then fuelless_rules)
  fix fs t a u
  let ?text = "show_instruction (INext v :: 'a instruction)"
  assume "get_fold_state (var_name v) s = (Ok fs, t)" and u: "maybe_meet_iteration_end ?text fs t = (Ok a, u)"
  then have fs: "iterable_variables (scalars_of (fst s)) (var_name v) = Some fs" and t: "t = s" using get_fold_state_Ok by blast+
  have sc: "scalars_of (fst u) = scalars_of (fst s)" using scalars_sameD [OF scalars_same_meets(2) u] t by simp
  obtain b it where it: "iterable_next (fs_iterable fs) = (b, it)" by fastforce
  show "halts (\<lambda>n. case iterable_next (fs_iterable fs) of
      (True, it) \<Rightarrow> next_iteration A (execute n A) (var_name v) ?text (fs\<lparr>fs_iterable := it\<rparr>)
    | (False, _) \<Rightarrow> and_then (maybe_meet_back_iterator ?text fs) (\<lambda>_. next_last (execute n A) (var_name v))) u"
  proof (cases b)
    case True
    have "halts (\<lambda>n. next_iteration A (execute n A) (var_name v) ?text (fs\<lparr>fs_iterable := it\<rparr>)) u"
      unfolding next_iteration_def next_scope_def and_then_assoc
    proof (intro halts_const_and_then halts_and_then halts_attempt fuelless_rules)
      fix a1 t1 a2 t2 a3 t3
      assume t1: "set_fold_state (var_name v) (fs\<lparr>fs_iterable := it\<rparr>) u = (Ok a1, t1)"
        and t2: "maybe_meet_iteration_start A ?text (fs\<lparr>fs_iterable := it\<rparr>) t1 = (Ok a2, t2)"
        and t3: "update_ctx (scalars_of_update scalars_next_before) t2 = (Ok a3 :: (unit, 'a exec_stop) result, t3)"
      have "scalars_of (fst t1) = (scalars_of (fst s))\<lparr>iterable_variables :=
          (iterable_variables (scalars_of (fst s)))(var_name v \<mapsto> fs\<lparr>fs_iterable := it\<rparr>)\<rparr>"
        using t1 sc by (cases u) (auto simp: set_fold_state_eq)
      moreover have "scalars_of (fst t3) = scalars_next_before (scalars_of (fst t2))" using t3 by (auto simp: update_ctx_def)
      ultimately have "scalars_of (fst t3) = scalars_next_before ((scalars_of (fst s))\<lparr>iterable_variables :=
          (iterable_variables (scalars_of (fst s)))(var_name v \<mapsto> fs\<lparr>fs_iterable := it\<rparr>)\<rparr>)"
        using scalars_sameD [OF scalars_same_meets(1) t2] by simp
      then show "halts (\<lambda>n. execute n A (fs_instr_head (fs\<lparr>fs_iterable := it\<rparr>))) t3" using assms(1) fs it True by simp
    qed (auto intro!: halts_const fuelless_and_then fuelless_next_after fuelless_rules)
    with it True show ?thesis by simp
  next
    case False
    have "halts (\<lambda>n. and_then (maybe_meet_back_iterator ?text fs) (\<lambda>_. next_last (execute n A) (var_name v))) u"
      unfolding next_last_def
    proof (intro halts_const_and_then fuelless_rules)
      fix a1 t1 fs2 t2
      assume t1: "maybe_meet_back_iterator ?text fs u = (Ok a1, t1)" and t2: "get_fold_state (var_name v) t1 = (Ok fs2, t2)"
      have sc1: "scalars_of (fst t1) = scalars_of (fst s)" using scalars_sameD [OF scalars_same_meets(3) t1] sc by simp
      then have "fs2 = fs" and "t2 = t1" using get_fold_state_Ok [OF t2] fs by auto
      show "halts (\<lambda>n. case fs_last_instr_head fs2 of
            None \<Rightarrow> if \<not> fs_back_iteration_started fs2 \<and> fs_iterable_type fs2 \<noteq> ScalarIterable
              then and_then (set_fold_state (var_name v) (fs2\<lparr>fs_back_iteration_started := True\<rparr>)) (\<lambda>_. update_ctx make_subgraph_incomplete)
              else ret ()
          | Some l \<Rightarrow> and_then (update_ctx flush_subgraph_completeness) (\<lambda>_. execute n A l)) t2"
      proof (cases "fs_last_instr_head fs")
        case (Some l)
        then show ?thesis
          unfolding \<open>fs2 = fs\<close> \<open>t2 = t1\<close> option.case
          by (simp, intro halts_const_and_then fuelless_rules assms(2) [OF fs Some])
            (use sc1 in \<open>cases t1, auto simp: update_ctx_def\<close>)
      qed (auto simp: \<open>fs2 = fs\<close> intro!: halts_const fuelless_and_then fuelless_rules)
    qed
    with it False show ?thesis by simp
  qed
qed

section \<open>Scripts halt\<close>

abbreviation running_folds :: "('n, 'bm) exec_state \<Rightarrow> string \<rightharpoonup> 'n fold_state" where
  "running_folds s \<equiv> iterable_variables (scalars_of (fst s))"

definition ready :: "string set \<Rightarrow> (string \<Rightarrow> nat) \<Rightarrow> ('n, 'bm) exec_state \<Rightarrow> 'n instruction \<Rightarrow> bool" where
  "ready N rank s i \<longleftrightarrow> scalars_wf (scalars_of (fst s)) \<and> heads_ok N rank (heads (running_folds s)) \<and> instr_ok N (heads (running_folds s)) i"

lemma ready_part:
  assumes "ready N rank s i" "scalars_kept s t"
    and "nexts_ok i'" "fold_names i' \<subseteq> fold_names i" "free_nexts i' \<subseteq> free_nexts i" "size i' < size i"
  shows "ready N rank t i'" "(work N rank (running_folds t) i', work N rank (running_folds s) i) \<in> work_order"
proof -
  have fr: "scalars_frame (scalars_of (fst s)) (scalars_of (fst t))" using assms(1,2) by (simp add: ready_def scalars_kept_def)
  then have adv: "folds_advanced (running_folds s) (running_folds t)" by (simp add: scalars_frame_def folds_advanced_def)
  have "scalars_wf (scalars_of (fst t))" using fr matrices_frame_wf by (auto simp: scalars_frame_def)
  with assms show "ready N rank t i'" by (auto simp: ready_def instr_ok_def folds_advanced_heads [OF adv])
  show "(work N rank (running_folds t) i', work N rank (running_folds s) i) \<in> work_order"
    using work_part [OF adv assms(5,6)] .
qed

text \<open>The start of a fold: its iterator gets the highest rank.\<close>

lemma ready_fold:
  assumes "ready N rank s (IFoldScalar src v i l sp)" "running_folds s (var_name v) = None"
    and "scalars_of (fst t) = (scalars_fold_start (scalars_of (fst s)))\<lparr>iterable_variables :=
        (running_folds s)(var_name v \<mapsto> from_iterable it ty i l)\<rparr>"
  shows "\<exists>rank'. ready N rank' t i" "(work N rank' (running_folds t) i, work N rank (running_folds s) (IFoldScalar src v i l sp)) \<in> work_order"
proof -
  let ?v = "var_name v" and ?hs = "heads (running_folds s)" and ?ht = "heads (running_folds t)"
  have rt: "running_folds t = (running_folds s)(?v \<mapsto> from_iterable it ty i l)" using assms(3) by simp
  then have ht: "?ht = ?hs(?v \<mapsto> (i, l))" by (auto simp: heads_def from_iterable_def)
  have hv: "?hs ?v = None" using assms(2) by (simp add: heads_def)
  have ok: "heads_ok N rank ?hs" "instr_ok N ?hs (IFoldScalar src v i l sp)" "scalars_wf (scalars_of (fst s))"
    using assms(1) by (simp_all add: ready_def)
  then have fin: "finite N" and dom: "dom ?hs \<subseteq> N" and vN: "?v \<in> N" by (auto simp: heads_ok_def instr_ok_def)
  have act: "active ?ht = active ?hs \<union> (if ?v \<in> free_nexts i then {?v} else {})"
    using hv unfolding ht by (auto simp: active_def split: if_splits)
  define rk' where "rk' = rank(?v := Suc (Max (insert 0 (rank ` N))))"
  have higher: "rk' x < rk' ?v" if "x \<in> N" "x \<noteq> ?v" for x
    using that fin by (simp add: rk'_def less_Suc_eq_le Max_ge)
  have "active ?hs \<subseteq> dom ?hs" by (auto simp only: active_def dom_def)
  moreover have "?v \<notin> active ?hs" using hv by (simp add: active_def)
  ultimately have actN: "active ?hs \<subseteq> N - {?v}" using dom by blast
  have mono: "instr_ok N ?ht j" if "instr_ok N ?hs j" for j using that act by (auto simp: instr_ok_def)
  have body: "instr_ok N ?ht i" using ok(2) act by (auto simp: instr_ok_def)
  have last: "instr_ok N ?ht l' \<and> (\<forall>x \<in> free_nexts l'. rk' x < rk' ?v)" if "l = Some l'" "?v \<in> free_nexts i" for l'
  proof -
    have "nexts_ok l'" "fold_names l' \<subseteq> N" "free_nexts l' \<subseteq> active ?hs"
      using ok(2) that by (auto simp: instr_ok_def)
    with act actN higher show ?thesis by (fastforce simp: instr_ok_def)
  qed
  have "heads_ok N rk' ?ht"
    unfolding heads_ok_def
  proof (intro conjI allI impI)
    fix y b lst
    assume y: "?ht y = Some (b, lst)"
    show "instr_ok N ?ht b" using y ok(1) mono body by (auto simp: ht heads_ok_def split: if_splits)
    fix l' assume b: "y \<in> free_nexts b" "lst = Some l'"
    have "instr_ok N ?ht l' \<and> (\<forall>x \<in> free_nexts l'. rk' x < rk' y)"
    proof (cases "y = ?v")
      case True
      with y b last show ?thesis by (auto simp: ht)
    next
      case False
      with y have "?hs y = Some (b, lst)" by (simp add: ht)
      with ok(1) b have l': "instr_ok N ?hs l'" "\<forall>x \<in> free_nexts l'. rank x < rank y" by (auto simp: heads_ok_def)
      then have "?v \<notin> free_nexts l'" using actN by (auto simp: instr_ok_def)
      with l' mono False show ?thesis by (auto simp: rk'_def)
    qed
    then show "instr_ok N ?ht l'" "\<forall>x \<in> free_nexts l'. rk' x < rk' y" by auto
  qed (use fin dom vN in \<open>auto simp: ht\<close>)
  moreover have "scalars_wf (scalars_of (fst t))"
    using assms(3) fold_start_scalars_wf [OF ok(3)] by (simp add: scalars_wf_def)
  ultimately show "\<exists>rank'. ready N rank' t i" using body by (auto simp: ready_def)
  have "N - dom (running_folds t) \<subset> N - dom (running_folds s)" using rt vN assms(2) by auto
  then have "card (N - dom (running_folds t)) < card (N - dom (running_folds s))" using fin by (intro psubset_card_mono) auto
  then show "(work N rank' (running_folds t) i, work N rank (running_folds s) (IFoldScalar src v i l sp)) \<in> work_order"
    by (simp add: work_def)
qed

text \<open>The next iteration: an item less is left. The last instruction: the iterators it may step are of lower rank.\<close>

lemma ready_next:
  assumes "ready N rank s (INext v)" "running_folds s (var_name v) = Some fs" "iterable_next (fs_iterable fs) = (True, it)"
    and "scalars_of (fst t) = scalars_next_before ((scalars_of (fst s))\<lparr>iterable_variables :=
        (running_folds s)(var_name v \<mapsto> fs\<lparr>fs_iterable := it\<rparr>)\<rparr>)"
  shows "ready N rank t (fs_instr_head fs)" "(work N rank (running_folds t) (fs_instr_head fs), work N rank (running_folds s) (INext v)) \<in> work_order"
proof -
  let ?v = "var_name v"
  have rt: "running_folds t = (running_folds s)(?v \<mapsto> fs\<lparr>fs_iterable := it\<rparr>)" using assms(4) by simp
  then have ht: "heads (running_folds t) = heads (running_folds s)" using assms(2) by (auto simp: heads_def)
  have "scalars_wf (scalars_of (fst t))"
    using assms(1,4) next_before_scalars_wf by (auto simp: ready_def scalars_wf_def scalars_next_before_def next_before_wf)
  moreover have "heads (running_folds s) ?v = Some (fs_instr_head fs, fs_last_instr_head fs)" using assms(2) by (simp add: heads_def)
  ultimately show "ready N rank t (fs_instr_head fs)"
    using assms(1) unfolding ready_def ht by (auto simp: heads_ok_def)
  have fin: "finite (dom (running_folds s))"
    using assms(1) finite_subset by (auto simp: ready_def heads_ok_def)
  have "items_left (running_folds t) < items_left (running_folds s)"
    unfolding items_left_def
  proof -
    have dom: "dom (running_folds t) = dom (running_folds s)" using rt assms(2) by auto
    show "(\<Sum>y \<in> dom (running_folds t). remaining_items (fs_iterable (the (running_folds t y))))
        < (\<Sum>y \<in> dom (running_folds s). remaining_items (fs_iterable (the (running_folds s y))))"
      unfolding dom
      by (rule sum_strict_mono_ex1 [OF fin]) (use rt assms(2) next_remaining [OF assms(3)] in \<open>auto intro!: bexI [of _ ?v]\<close>)
  qed
  moreover have "dom (running_folds t) = dom (running_folds s)" using rt assms(2) by auto
  ultimately show "(work N rank (running_folds t) (fs_instr_head fs), work N rank (running_folds s) (INext v)) \<in> work_order"
    by (simp add: work_def)
qed

lemma ready_last:
  assumes "ready N rank s (INext v)" "running_folds s (var_name v) = Some fs" "fs_last_instr_head fs = Some l"
    and "scalars_of (fst t) = scalars_of (fst s)"
  shows "ready N rank t l" "(work N rank (running_folds t) l, work N rank (running_folds s) (INext v)) \<in> work_order"
proof -
  let ?hs = "heads (running_folds s)"
  have hv: "?hs (var_name v) = Some (fs_instr_head fs, Some l)" using assms(2,3) by (simp add: heads_def)
  moreover have "var_name v \<in> active ?hs" using assms(1) by (simp add: ready_def instr_ok_def)
  ultimately have "var_name v \<in> free_nexts (fs_instr_head fs)" by (simp add: active_def)
  with hv assms(1) have l: "instr_ok N ?hs l" "\<forall>x \<in> free_nexts l. rank x < rank (var_name v)"
    by (auto simp: ready_def heads_ok_def)
  with assms(1,4) show "ready N rank t l" by (simp add: ready_def)
  have "top_rank rank (free_nexts l) < top_rank rank {var_name v}"
    using l(2) free_nexts_finite [of l] by (auto simp: top_rank_def)
  with assms(4) show "(work N rank (running_folds t) l, work N rank (running_folds s) (INext v)) \<in> work_order"
    by (simp add: work_def)
qed

lemma script_halts: "ready N rank s i \<Longrightarrow> halts (\<lambda>n. execute n A i) s"
proof (induction "work N rank (running_folds s) i" arbitrary: rank s i rule: wf_induct_rule [OF wf_work_order])
  case 1
  note IH = "1.hyps" and rdy = "1.prems"
  have part: "parts_halt A s I" if "\<And>i'. i' \<in> I \<Longrightarrow> nexts_ok i' \<and> fold_names i' \<subseteq> fold_names i \<and> free_nexts i' \<subseteq> free_nexts i \<and> size i' < size i" for I
    unfolding parts_halt_def
  proof (intro allI impI)
    fix i' t assume i': "i' \<in> I" and t: "scalars_kept s t"
    from that [OF i'] ready_part [OF rdy t, of i'] show "halts (\<lambda>n. execute n A i') t" by (intro IH) auto
  qed
  have ok: "nexts_ok i" using rdy by (simp add: ready_def instr_ok_def)
  have "halts (\<lambda>n. execute_body n A (execute n A) i) s"
  proof (cases i)
    case (ISeq l r)
    with ok show ?thesis by (simp, intro halts_seq part) auto
  next
    case (IPar l r)
    with ok show ?thesis by (simp, intro halts_par part) auto
  next
    case (IXor l r)
    with ok show ?thesis by (simp, intro halts_xor part) auto
  next
    case (IMatch x y j)
    with ok show ?thesis by (simp, intro halts_matches part) auto
  next
    case (IMisMatch x y j)
    with ok show ?thesis by (simp, intro halts_matches part) auto
  next
    case (INew arg j sp)
    have "halts (\<lambda>n. execute n A j) t" if p: "new_prolog arg sp s = (Ok () :: (_, 'a exec_stop) result, t)" for t
    proof (rule IH [of rank])
      obtain ctx th where s: "s = (ctx, th)" by (cases s)
      have sc: "scalars_of (fst t) = scalars_of (new_scope_start arg sp ctx)" using new_prolog_eq p s by blast
      then have rt: "running_folds t = running_folds s"
        using s by (cases arg) (simp_all add: new_start_scalar_def new_start_canon_stream_def new_start_canon_stream_map_def)
      have "scalars_wf (scalars_of (fst t))" using sc new_scope_wf [of ctx arg sp] rdy s by (simp add: ready_def)
      with rdy INew rt show "ready N rank t j" by (simp add: ready_def instr_ok_def)
      show "(work N rank (running_folds t) j, work N rank (running_folds s) i) \<in> work_order"
        unfolding rt using INew by (simp add: work_def)
    qed
    with INew show ?thesis by (simp add: halts_new)
  next
    case (IFoldScalar src v j l sp)
    have "halts (\<lambda>n. execute_fold (execute n A) it ScalarIterable (var_name v) j l) s" for it
    proof (rule halts_fold)
      assume none: "running_folds s (var_name v) = None"
      let ?t = "((fst s)\<lparr>scalars_of := (scalars_fold_start (scalars_of (fst s)))\<lparr>iterable_variables :=
        (running_folds s)(var_name v \<mapsto> from_iterable it ScalarIterable j l)\<rparr>\<rparr>, snd s)"
      obtain rank' where "ready N rank' ?t j"
        using ready_fold(1) [OF rdy [unfolded IFoldScalar] none, of ?t it ScalarIterable] by auto
      moreover have "(work N rank' (running_folds ?t) j, work N rank (running_folds s) i) \<in> work_order"
        unfolding IFoldScalar by (rule ready_fold(2) [OF rdy [unfolded IFoldScalar] none]) simp
      ultimately show "halts (\<lambda>n. execute n A j) ?t" using IH by blast
    qed
    with IFoldScalar show ?thesis by (simp add: halts_fold_scalar)
  next
    case (INext v)
    have "halts (\<lambda>n. execute_next A (execute n A) v) s"
    proof (rule halts_next)
      fix fs it and t :: "('a, 'b) exec_state"
      assume a: "running_folds s (var_name v) = Some fs" "iterable_next (fs_iterable fs) = (True, it)"
        "scalars_of (fst t) = scalars_next_before ((scalars_of (fst s))\<lparr>iterable_variables := (running_folds s)(var_name v \<mapsto> fs\<lparr>fs_iterable := it\<rparr>)\<rparr>)"
      show "halts (\<lambda>n. execute n A (fs_instr_head fs)) t"
        using IH ready_next [OF rdy [unfolded INext] a] INext by blast
    next
      fix fs l and t :: "('a, 'b) exec_state"
      assume a: "running_folds s (var_name v) = Some fs" "fs_last_instr_head fs = Some l" "scalars_of (fst t) = scalars_of (fst s)"
      show "halts (\<lambda>n. execute n A l) t"
        using IH ready_last [OF rdy [unfolded INext] a] INext by blast
    qed
    with INext show ?thesis by simp
  qed (use ok in \<open>auto intro!: halts_const fuelless_rules simp: execute_never_def execute_null_def\<close>)
  then show ?case by (rule halts_execute)
qed

end
