(* ===== verification/Trace_Replay.thy ===== *)
theory Trace_Replay
  imports Trace_Handler
begin

text \<open>
  Merging whole traces. A trace of calls, aps, canons and pars is the flattening of a forest:
  a par state carries the sizes of its two subgraphs, which follow it. The relation
  \<open>merges_forest\<close> is the specification of a merge of two such forests, which are the data two
  peers have for the same script: instructions correspond by their place, one of the peers may
  not have got as far as the other, leaves merge as their kind of state does, and subgraphs
  merge one by one. An ap is recorded with the stub generation, which the compactification of streams
  overwrites later. \<open>replay_forest\<close> drives the trace handler the way the interpreter does when it takes
  over what the data knows, with the calls of \<^verbatim>\<open>handler.rs\<close> only; the theorem of this theory is that the handler, with
  its sliders, automata and placeholders, computes the specified merge.
\<close>

section \<open>Forests\<close>

datatype node = Leaf executed_state | Fork "node list" "node list"

fun flat :: "node \<Rightarrow> execution_trace" and flats :: "node list \<Rightarrow> execution_trace" where
  "flat (Leaf s) = [s]"
| "flat (Fork l r) = executed_state_par (length (flats l)) (length (flats r)) # flats l @ flats r"
| "flats [] = []"
| "flats (x # xs) = flat x @ flats xs"

fun flat_opt :: "node option \<Rightarrow> execution_trace" where
  "flat_opt None = []"
| "flat_opt (Some x) = flat x"

fun lefts :: "node option \<Rightarrow> node list" where
  "lefts (Some (Fork l r)) = l"
| "lefts _ = []"

fun rights :: "node option \<Rightarrow> node list" where
  "rights (Some (Fork l r)) = r"
| "rights _ = []"

fun is_fork_or_none :: "node option \<Rightarrow> bool" where
  "is_fork_or_none (Some (Leaf s)) = False"
| "is_fork_or_none _ = True"

inductive merges_node :: "node option \<Rightarrow> node option \<Rightarrow> node \<Rightarrow> bool"
  and merges_forest :: "node list \<Rightarrow> node list \<Rightarrow> node list \<Rightarrow> bool" where
  call_prev: "merges_node (Some (Leaf (Call a))) None (Leaf (Call a))"
| call_current: "merges_node None (Some (Leaf (Call b))) (Leaf (Call b))"
| call_both: "merged_call a b = Some c \<Longrightarrow>
    merges_node (Some (Leaf (Call a))) (Some (Leaf (Call b))) (Leaf (Call c))"
| ap_prev: "merges_node (Some (Leaf (Ap \<lparr>res_generations = [g]\<rparr>))) None (Leaf (Ap ap_result_stub))"
| ap_current: "merges_node None (Some (Leaf (Ap \<lparr>res_generations = [g]\<rparr>))) (Leaf (Ap ap_result_stub))"
| ap_both: "merges_node (Some (Leaf (Ap \<lparr>res_generations = [g]\<rparr>))) (Some (Leaf (Ap \<lparr>res_generations = [h]\<rparr>))) (Leaf (Ap ap_result_stub))"
| canon_prev: "merges_node (Some (Leaf (Canon a))) None (Leaf (Canon a))"
| canon_current: "merges_node None (Some (Leaf (Canon b))) (Leaf (Canon b))"
| canon_both: "merged_canon a b = Some c \<Longrightarrow>
    merges_node (Some (Leaf (Canon a))) (Some (Leaf (Canon b))) (Leaf (Canon c))"
| fork: "is_fork_or_none p \<Longrightarrow> is_fork_or_none c \<Longrightarrow> p \<noteq> None \<or> c \<noteq> None \<Longrightarrow>
    merges_forest (lefts p) (lefts c) l \<Longrightarrow> merges_forest (rights p) (rights c) r \<Longrightarrow>
    merges_node p c (Fork l r)"
| forest_Nil: "merges_forest [] [] []"
| forest_Cons: "xs \<noteq> [] \<or> ys \<noteq> [] \<Longrightarrow> merges_node (head xs) (head ys) z \<Longrightarrow>
    merges_forest (tl xs) (tl ys) zs \<Longrightarrow> merges_forest xs ys (z # zs)"

section \<open>Driving the handler\<close>

fun replay_node :: "'bm bimap_ops \<Rightarrow> node \<Rightarrow> ('bm, unit) handler_comp"
  and replay_forest :: "'bm bimap_ops \<Rightarrow> node list \<Rightarrow> ('bm, unit) handler_comp" where
  "replay_node B (Leaf (Call _)) = and_then (meet_call_start B) (\<lambda>met.
     case met of CallMet m \<Rightarrow> meet_call_end (mcr_result m) | CallNotMet \<Rightarrow> panic)"
| "replay_node B (Leaf (Ap _)) = and_then (meet_ap_start B) (\<lambda>met.
     case met of ApMet _ \<Rightarrow> meet_ap_end ap_result_stub | ApNotMet \<Rightarrow> panic)"
| "replay_node B (Leaf (Canon _)) = and_then meet_canon_start (\<lambda>met.
     case met of CanonResult c \<Rightarrow> meet_canon_end c | CanonEmpty \<Rightarrow> panic)"
| "replay_node B (Leaf _) = panic"
| "replay_node B (Fork l r) =
     and_then meet_par_start (\<lambda>_.
     and_then (replay_forest B l) (\<lambda>_.
     and_then (meet_par_subgraph_end SubgraphLeft) (\<lambda>_.
     and_then (replay_forest B r) (\<lambda>_.
     meet_par_subgraph_end SubgraphRight))))"
| "replay_forest B [] = ret ()"
| "replay_forest B (x # xs) = and_then (replay_node B x) (\<lambda>_. replay_forest B xs)"

section \<open>What a replayed instruction does to a slider\<close>

text \<open>\<open>k\<close> states were read off the window of \<open>s\<close>.\<close>

definition consumed :: "nat \<Rightarrow> trace_slider \<Rightarrow> trace_slider \<Rightarrow> bool" where
  "consumed k s s' \<longleftrightarrow> slider_in_trace s' \<and> ts_trace s' = ts_trace s
     \<and> unat (ts_position s') = unat (ts_position s) + k \<and> remaining s' = drop k (remaining s)"

definition both_consumed :: "nat \<Rightarrow> nat \<Rightarrow> 'bm data_keeper \<Rightarrow> 'bm data_keeper \<Rightarrow> bool" where
  "both_consumed k l d d' \<longleftrightarrow> consumed k (prev_slider d) (prev_slider d') \<and> consumed l (current_slider d) (current_slider d')"

lemma consumed_0: "slider_in_trace s \<Longrightarrow> consumed 0 s s"
  by (simp add: consumed_def)

lemma consumed_trans: "consumed k s t \<Longrightarrow> consumed l t u \<Longrightarrow> consumed (k + l) s u"
  by (auto simp: consumed_def add.commute)

lemma both_consumed_trans: "both_consumed k l d e \<Longrightarrow> both_consumed m n e f \<Longrightarrow> both_consumed (k + m) (l + n) d f"
  by (auto simp: both_consumed_def intro: consumed_trans)

lemma both_consumed_in_trace: "both_consumed k l d e \<Longrightarrow> keeper_in_trace e"
  by (simp add: both_consumed_def consumed_def keeper_in_trace_def)

lemma consumed_step:
  assumes "slider_in_trace s" "k = (if remaining s = [] then 0 else 1)"
  shows "consumed k s (step_slider s)"
proof (cases "remaining s")
  case Nil
  with assms show ?thesis by (simp add: consumed_def step_slider_def)
next
  case (Cons x xs)
  with assms advanced_wf [OF slider_in_trace_wf [OF assms(1)] Cons] show ?thesis
    by (simp add: consumed_def step_slider_def slider_in_trace_def)
qed

lemma step_sliders_consumed:
  assumes "keeper_in_trace d" "stepped d d'"
    and "k = (if remaining (prev_slider d) = [] then 0 else 1)" "l = (if remaining (current_slider d) = [] then 0 else 1)"
  shows "both_consumed k l d d'"
  using assms consumed_step by (simp add: both_consumed_def keeper_in_trace_def stepped_def)

lemma window_remaining: "slider_in_trace s \<Longrightarrow> window_len s = length (remaining s)"
  by (simp add: length_remaining slider_in_trace_wf)

lemma length_remaining_trace: "slider_in_trace s \<Longrightarrow> length (remaining s) \<le> length (ts_trace s)"
  using window_in_trace(1) [of s] by (simp add: window_remaining)

section \<open>Leaves\<close>

definition keeper_small :: "'bm data_keeper \<Rightarrow> bool" where
  "keeper_small d \<longleftrightarrow> 2 * length (ts_trace (prev_slider d)) < u32_bound \<and> 2 * length (ts_trace (current_slider d)) < u32_bound"

text \<open>The handler in front of two optional instructions, of which at least the windows end where they do.\<close>

definition in_front_of :: "'bm trace_handler \<Rightarrow> node option \<Rightarrow> node option \<Rightarrow> bool" where
  "in_front_of th p c \<longleftrightarrow> keeper_in_trace (data_keeper th) \<and> keeper_small (data_keeper th)
     \<and> (\<exists>rest. remaining (prev_slider (data_keeper th)) = flat_opt p @ rest \<and> (p = None \<longrightarrow> rest = []))
     \<and> (\<exists>rest. remaining (current_slider (data_keeper th)) = flat_opt c @ rest \<and> (c = None \<longrightarrow> rest = []))"

definition replays :: "('bm, unit) handler_comp \<Rightarrow> nat \<Rightarrow> nat \<Rightarrow> execution_trace \<Rightarrow> 'bm trace_handler \<Rightarrow> bool" where
  "replays m k l states th \<longleftrightarrow> (\<exists>t. m th = (Ok (), t) \<and> fsm_keeper t = fsm_keeper th
     \<and> result_trace (data_keeper t) = result_trace (data_keeper th) @ states
     \<and> both_consumed k l (data_keeper th) (data_keeper t))"

lemma flat_nonempty [simp]: "flat x \<noteq> []"
  by (cases x) simp_all

lemma head_append: "xs \<noteq> [] \<Longrightarrow> head (xs @ ys) = head xs"
  by (cases xs) simp_all

lemma head_flat_opt:
  assumes "s = flat_opt q @ rest" "q = None \<longrightarrow> rest = []"
  shows "head s = head (flat_opt q)"
  using assms by (cases q) (simp_all add: head_append)

lemma in_front_heads:
  assumes "in_front_of th p c"
  shows "head (remaining (prev_slider (data_keeper th))) = head (flat_opt p)"
    "head (remaining (current_slider (data_keeper th))) = head (flat_opt c)"
  using assms head_flat_opt unfolding in_front_of_def by blast+

lemma leaf_replays:
  assumes "in_front_of th p c" "length (flat_opt p) \<le> 1" "length (flat_opt c) \<le> 1"
    and "stepped (data_keeper th) d'"
    and "m th = (Ok (), th\<lparr>data_keeper := d'\<lparr>result_trace := result_trace d' @ states\<rparr>\<rparr>)"
  shows "replays m (length (flat_opt p)) (length (flat_opt c)) states th"
proof -
  have "length (flat_opt q) = (if s = [] then 0 else 1)"
    if "length (flat_opt q) \<le> 1" "s = flat_opt q @ rest" "q = None \<longrightarrow> rest = []" for q rest and s :: execution_trace
    using that by (cases "flat_opt q"; cases q) auto
  then have "length (flat_opt p) = (if remaining (prev_slider (data_keeper th)) = [] then 0 else 1)"
    "length (flat_opt c) = (if remaining (current_slider (data_keeper th)) = [] then 0 else 1)"
    using assms(1-3) unfolding in_front_of_def by blast+
  then have "both_consumed (length (flat_opt p)) (length (flat_opt c)) (data_keeper th) d'"
    using step_sliders_consumed [OF _ assms(4)] assms(1) by (simp add: in_front_of_def)
  with assms(4,5) show ?thesis
    by (auto simp: replays_def both_consumed_def stepped_def)
qed

lemma call_leaf_replays:
  assumes "in_front_of th p c" "length (flat_opt p) \<le> 1" "length (flat_opt c) \<le> 1"
    and "try_merge_next_state_as_call B (data_keeper th) = (Ok (CallMet m), d')" "stepped (data_keeper th) d'"
  shows "replays (replay_node B (Leaf (Call x))) (length (flat_opt p)) (length (flat_opt c)) [Call (mcr_result m)] th"
  using assms
  by (intro leaf_replays [OF assms(1-3,5)])
    (simp add: meet_call_start_def meet_call_end_def push_state_def and_then_def map_err_def on_data_keeper_eq trace_push_def)

lemma ap_leaf_replays:
  assumes "in_front_of th p c" "length (flat_opt p) \<le> 1" "length (flat_opt c) \<le> 1"
    and "try_merge_next_state_as_ap B (data_keeper th) = (Ok (ApMet m), d')" "stepped (data_keeper th) d'"
  shows "replays (replay_node B (Leaf (Ap x))) (length (flat_opt p)) (length (flat_opt c)) [Ap ap_result_stub] th"
  using assms
  by (intro leaf_replays [OF assms(1-3,5)])
    (simp add: meet_ap_start_def meet_ap_end_def push_state_def and_then_def map_err_def on_data_keeper_eq trace_push_def)

lemma canon_leaf_replays:
  assumes "in_front_of th p c" "length (flat_opt p) \<le> 1" "length (flat_opt c) \<le> 1"
    and "try_merge_next_state_as_canon (data_keeper th) = (Ok (CanonResult r), d')" "stepped (data_keeper th) d'"
  shows "replays (replay_node B (Leaf (Canon x))) (length (flat_opt p)) (length (flat_opt c)) [Canon r] th"
  using assms
  by (intro leaf_replays [OF assms(1-3,5)])
    (simp add: meet_canon_start_def meet_canon_end_def push_state_def and_then_def map_err_def on_data_keeper_eq trace_push_def)

text \<open>The mergers on two optional leaves.\<close>

lemma merged_leaves:
  assumes "keeper_wf d" "length (result_trace d) < u32_bound"
    and "head (remaining (prev_slider d)) = head (flat_opt p)" "head (remaining (current_slider d)) = head (flat_opt c)"
  shows "merges_node p c (Leaf (Call r)) \<Longrightarrow>
      \<exists>m d'. try_merge_next_state_as_call B d = (Ok (CallMet m), d') \<and> mcr_result m = r \<and> stepped d d'"
    "merges_node p c (Leaf (Ap ar)) \<Longrightarrow>
      \<exists>m d'. try_merge_next_state_as_ap B d = (Ok (ApMet m), d') \<and> ar = ap_result_stub \<and> stepped d d'"
    "merges_node p c (Leaf (Canon cr)) \<Longrightarrow>
      \<exists>d'. try_merge_next_state_as_canon d = (Ok (CanonResult cr), d') \<and> stepped d d'"
proof -
  obtain rc dc where rc: "try_merge_next_state_as_call B d = (rc, dc)" by fastforce
  note oc = call_merger_cases [OF assms(1,2) rc refl]
  show "\<exists>m d'. try_merge_next_state_as_call B d = (Ok (CallMet m), d') \<and> mcr_result m = r \<and> stepped d d'"
    if "merges_node p c (Leaf (Call r))"
    using that by (cases rule: merges_node.cases) (use oc rc assms(3,4) in auto)
  show "\<exists>m d'. try_merge_next_state_as_ap B d = (Ok (ApMet m), d') \<and> ar = ap_result_stub \<and> stepped d d'"
    if "merges_node p c (Leaf (Ap ar))"
    using that
    by (cases rule: merges_node.cases)
      (use try_merge_ap_eq [OF assms(1), of B] assms in \<open>auto simp: prepare_merge_result_eq scheme_ok_heads\<close>)
  show "\<exists>d'. try_merge_next_state_as_canon d = (Ok (CanonResult cr), d') \<and> stepped d d'"
    if "merges_node p c (Leaf (Canon cr))"
    using that
  proof (cases rule: merges_node.cases)
    case (canon_both a b)
    then have "prepare_both_canon_result a b = Ok (CanonResult cr)"
      by (cases "merge_canon_results a b") (auto simp: merged_canon_def prepare_both_canon_result_def prepare_single_canon_result_def)
    with canon_both show ?thesis
      using try_merge_canon_eq [OF assms(1)] assms(3,4) by auto
  qed (use try_merge_canon_eq [OF assms(1)] assms(3,4) in auto)
qed

section \<open>Pars\<close>

fun par_of :: "node option \<Rightarrow> par_result" where
  "par_of (Some (Fork l r)) = \<lparr>left_size = of_nat (length (flats l)), right_size = of_nat (length (flats r))\<rparr>"
| "par_of _ = par_result_default"

definition in_front_of_forests :: "'bm trace_handler \<Rightarrow> node list \<Rightarrow> node list \<Rightarrow> bool" where
  "in_front_of_forests th xs ys \<longleftrightarrow> keeper_in_trace (data_keeper th) \<and> keeper_small (data_keeper th)
     \<and> remaining (prev_slider (data_keeper th)) = flats xs \<and> remaining (current_slider (data_keeper th)) = flats ys"

text \<open>A slider behind the par state of an optional fork, in front of its two subgraphs.\<close>

definition at_subgraphs :: "node option \<Rightarrow> trace_slider \<Rightarrow> bool" where
  "at_subgraphs p s \<longleftrightarrow> slider_in_trace s \<and> 2 * length (ts_trace s) < u32_bound
     \<and> (\<exists>rest. remaining s = flats (lefts p) @ flats (rights p) @ rest)"

lemma at_subgraphs_sizes:
  assumes "at_subgraphs p s" "is_fork_or_none p"
  shows "unat (left_size (par_of p)) = length (flats (lefts p))" "unat (right_size (par_of p)) = length (flats (rights p))"
    "par_fits (par_of p) s"
    "take (length (flats (lefts p))) (remaining s) = flats (lefts p)"
    "take (length (flats (rights p))) (drop (length (flats (lefts p))) (remaining s)) = flats (rights p)"
proof -
  obtain rest where r: "remaining s = flats (lefts p) @ flats (rights p) @ rest" "slider_in_trace s"
      "2 * length (ts_trace s) < u32_bound"
    using assms(1) by (auto simp: at_subgraphs_def)
  have len: "length (flats (lefts p)) + length (flats (rights p)) < u32_bound"
      "length (flats (lefts p)) + length (flats (rights p)) \<le> window_len s"
    using r length_remaining_trace [OF r(2)] window_remaining [OF r(2)] by auto
  show sizes: "unat (left_size (par_of p)) = length (flats (lefts p))" "unat (right_size (par_of p)) = length (flats (rights p))"
    using assms(2) len(1) by (cases p rule: par_of.cases; auto simp: par_result_default_def)+
  show "par_fits (par_of p) s" using len(2) by (simp add: par_fits_def sizes)
  show "take (length (flats (lefts p))) (remaining s) = flats (lefts p)"
    "take (length (flats (rights p))) (drop (length (flats (lefts p))) (remaining s)) = flats (rights p)"
    using r(1) by simp_all
qed

lemma consumed_at_subgraphs:
  assumes "consumed (if p = None then 0 else 1) s s'" "remaining s = flat_opt p @ rest" "p = None \<longrightarrow> rest = []"
    and "is_fork_or_none p" "2 * length (ts_trace s) < u32_bound"
  shows "at_subgraphs p s'"
  using assms by (cases p rule: par_of.cases) (auto simp: at_subgraphs_def consumed_def)

lemma par_merge_ingredients:
  assumes "in_front_of th p c" "is_fork_or_none p" "is_fork_or_none c"
  shows "\<exists>ing. try_merge_next_state_as_par (data_keeper th) = (Ok ing, step_sliders (data_keeper th))
    \<and> (case prev_par ing of None \<Rightarrow> par_result_default | Some x \<Rightarrow> x) = par_of p
    \<and> (case current_par ing of None \<Rightarrow> par_result_default | Some x \<Rightarrow> x) = par_of c"
proof -
  have wf: "keeper_wf (data_keeper th)" using assms(1) by (simp add: in_front_of_def keeper_in_trace_wf)
  show ?thesis
    using assms(2,3) in_front_heads [OF assms(1)]
    by (cases p rule: par_of.cases; cases c rule: par_of.cases)
      (auto simp: try_merge_par_eq [OF wf] executed_state_par_def)
qed

lemma par_start_replays:
  assumes "in_front_of th p c" "is_fork_or_none p" "is_fork_or_none c" "length (result_trace (data_keeper th)) < u32_bound"
  shows "\<exists>f d1 d2. meet_par_start th = (Ok (), th\<lparr>data_keeper := d2, fsm_keeper := push_par f (fsm_keeper th)\<rparr>)
    \<and> both_consumed (if p = None then 0 else 1) (if c = None then 0 else 1) (data_keeper th) d1
    \<and> result_trace d1 = result_trace (data_keeper th) \<and> par_started (par_of p) (par_of c) d1 f
    \<and> pf_par_builder f = \<lparr>saved_states_count = Suc (length (result_trace d1)), left_subgraph_size = 0, right_subgraph_size = 0\<rparr>
    \<and> result_trace d2 = result_trace d1 @ [executed_state_par 0 0]
    \<and> both_show (0, length (flats (lefts p))) (0, length (flats (lefts c))) d1 d2
    \<and> at_subgraphs p (prev_slider d1) \<and> at_subgraphs c (current_slider d1)"
proof -
  let ?d = "data_keeper th" and ?d1 = "step_sliders (data_keeper th)"
  obtain ing where ing: "try_merge_next_state_as_par ?d = (Ok ing, ?d1)"
      "(case prev_par ing of None \<Rightarrow> par_result_default | Some x \<Rightarrow> x) = par_of p"
      "(case current_par ing of None \<Rightarrow> par_result_default | Some x \<Rightarrow> x) = par_of c"
    using par_merge_ingredients [OF assms(1-3)] by blast
  have empty: "remaining (prev_slider ?d) = [] \<longleftrightarrow> p = None" "remaining (current_slider ?d) = [] \<longleftrightarrow> c = None"
    using assms(1) by (cases p; cases c; auto simp: in_front_of_def)+
  have con: "both_consumed (if p = None then 0 else 1) (if c = None then 0 else 1) ?d ?d1"
    using assms(1) by (intro step_sliders_consumed) (simp_all add: in_front_of_def empty)
  have at: "at_subgraphs p (prev_slider ?d1)" "at_subgraphs c (current_slider ?d1)"
    using consumed_at_subgraphs [of p "prev_slider ?d" "prev_slider ?d1"] consumed_at_subgraphs [of c "current_slider ?d" "current_slider ?d1"]
      con assms(1-3) by (auto simp: both_consumed_def in_front_of_def keeper_small_def)
  note sp = at_subgraphs_sizes [OF at(1) assms(2)] and sc = at_subgraphs_sizes [OF at(2) assms(3)]
  have "\<exists>f d2. from_left_started ing ?d1 = (Ok f, d2) \<and> par_started (par_of p) (par_of c) ?d1 f
    \<and> pf_par_builder f = \<lparr>saved_states_count = Suc (length (result_trace ?d1)), left_subgraph_size = 0, right_subgraph_size = 0\<rparr>
    \<and> result_trace d2 = result_trace ?d1 @ [executed_state_par 0 0]
    \<and> both_show (0, length (flats (lefts p))) (0, length (flats (lefts c))) ?d1 d2"
    using Par_Fsm.par_start [OF both_consumed_in_trace [OF con] _ ing(2) [symmetric] ing(3) [symmetric] sp(3) sc(3)]
      assms(4) sp(1) sc(1) by auto
  then obtain f d2 where f: "from_left_started ing ?d1 = (Ok f, d2)" "par_started (par_of p) (par_of c) ?d1 f"
      "pf_par_builder f = \<lparr>saved_states_count = Suc (length (result_trace ?d1)), left_subgraph_size = 0, right_subgraph_size = 0\<rparr>"
      "result_trace d2 = result_trace ?d1 @ [executed_state_par 0 0]"
      "both_show (0, length (flats (lefts p))) (0, length (flats (lefts c))) ?d1 d2" by blast
  have "meet_par_start th = (Ok (), th\<lparr>data_keeper := d2, fsm_keeper := push_par f (fsm_keeper th)\<rparr>)"
    using ing(1) f(1) by (simp add: meet_par_start_def and_then_def map_err_def on_data_keeper_eq on_fsm_keeper_eq)
  with con f at show ?thesis
    by (intro exI [of _ f] exI [of _ ?d1] exI [of _ d2]) simp
qed


text \<open>The bookkeeping of the stack of par automata around the two subgraph ends.\<close>

lemma left_end_eq:
  assumes "fsm_keeper th = push_par f k" "left_completed f (data_keeper th) = (Ok f', d)"
  shows "meet_par_subgraph_end SubgraphLeft th = (Ok (), th\<lparr>data_keeper := d, fsm_keeper := push_par f' k\<rparr>)"
  using assms
  by (simp add: meet_par_subgraph_end_def map_err_def and_then_lift last_par_def push_par_def and_then_def
      on_data_keeper_eq on_fsm_keeper_eq)

lemma right_end_eq:
  assumes "fsm_keeper th = push_par f k" "right_completed f (data_keeper th) = (Ok (), d)"
  shows "meet_par_subgraph_end SubgraphRight th = (Ok (), th\<lparr>data_keeper := d, fsm_keeper := k\<rparr>)"
  using assms
  by (simp add: meet_par_subgraph_end_def map_err_def pop_par_def push_par_def and_then_def
      on_data_keeper_eq on_fsm_keeper_eq)

lemma shown_forests:
  assumes "both_show (k, m) (l, n) d (data_keeper th)" "keeper_small d"
    and "take m (drop k (remaining (prev_slider d))) = flats xs" "take n (drop l (remaining (current_slider d))) = flats ys"
  shows "in_front_of_forests th xs ys"
  using assms by (simp add: in_front_of_forests_def both_show_def shows_window_def keeper_in_trace_def keeper_small_def)

lemma both_consumed_shown:
  assumes "both_show (k, m) (l, n) d d1" "both_consumed i j d1 d2"
  shows "same_traces d d2" "unat (ts_position (prev_slider d2)) = unat (ts_position (prev_slider d)) + k + i"
    "unat (ts_position (current_slider d2)) = unat (ts_position (current_slider d)) + l + j"
  using assms by (simp_all add: both_show_def shows_window_def both_consumed_def consumed_def same_traces_def)

lemma keeper_small_same: "keeper_small d \<Longrightarrow> same_traces d d' \<Longrightarrow> keeper_small d'"
  by (simp add: keeper_small_def same_traces_def)

lemma both_consumed_same: "both_consumed k l d d' \<Longrightarrow> same_traces d d'"
  by (simp add: both_consumed_def consumed_def same_traces_def)

lemma length_flat_fork:
  "is_fork_or_none p \<Longrightarrow> length (flat_opt p) = (if p = None then 0 else 1) + length (flats (lefts p)) + length (flats (rights p))"
  by (cases p rule: par_of.cases) simp_all

lemma fork_replays:
  assumes "in_front_of th p c" "is_fork_or_none p" "is_fork_or_none c"
    and "length (result_trace (data_keeper th)) + length (flat (Fork l r)) < u32_bound"
    and left: "\<And>th. in_front_of_forests th (lefts p) (lefts c) \<Longrightarrow> length (result_trace (data_keeper th)) + length (flats l) < u32_bound
      \<Longrightarrow> replays (replay_forest B l) (length (flats (lefts p))) (length (flats (lefts c))) (flats l) th"
    and right: "\<And>th. in_front_of_forests th (rights p) (rights c) \<Longrightarrow> length (result_trace (data_keeper th)) + length (flats r) < u32_bound
      \<Longrightarrow> replays (replay_forest B r) (length (flats (rights p))) (length (flats (rights c))) (flats r) th"
  shows "replays (replay_node B (Fork l r)) (length (flat_opt p)) (length (flat_opt c)) (flat (Fork l r)) th"
proof -
  let ?d = "data_keeper th" and ?R = "result_trace (data_keeper th)"
  obtain f d1 d2 where s: "meet_par_start th = (Ok (), th\<lparr>data_keeper := d2, fsm_keeper := push_par f (fsm_keeper th)\<rparr>)"
      and con: "both_consumed (if p = None then 0 else 1) (if c = None then 0 else 1) ?d d1"
      and d1: "result_trace d1 = ?R" "par_started (par_of p) (par_of c) d1 f"
        "pf_par_builder f = \<lparr>saved_states_count = Suc (length (result_trace d1)), left_subgraph_size = 0, right_subgraph_size = 0\<rparr>"
      and d2: "result_trace d2 = result_trace d1 @ [executed_state_par 0 0]"
        "both_show (0, length (flats (lefts p))) (0, length (flats (lefts c))) d1 d2"
      and at: "at_subgraphs p (prev_slider d1)" "at_subgraphs c (current_slider d1)"
    using par_start_replays [OF assms(1-3)] assms(4) by auto
  note sp = at_subgraphs_sizes [OF at(1) assms(2)] and sc = at_subgraphs_sizes [OF at(2) assms(3)]
  have small: "keeper_small d1" and wf1: "keeper_in_trace d1"
    using at by (simp_all add: at_subgraphs_def keeper_small_def keeper_in_trace_def)
  let ?t2 = "th\<lparr>data_keeper := d2, fsm_keeper := push_par f (fsm_keeper th)\<rparr>"
  have "in_front_of_forests ?t2 (lefts p) (lefts c)"
    by (rule shown_forests [of 0 "length (flats (lefts p))" 0 "length (flats (lefts c))" d1])
      (use d2(2) small sp(4) sc(4) in simp_all)
  with left [of ?t2] obtain t3 where t3: "replay_forest B l ?t2 = (Ok (), t3)" "fsm_keeper t3 = push_par f (fsm_keeper th)"
      "result_trace (data_keeper t3) = ?R @ executed_state_par 0 0 # flats l"
      "both_consumed (length (flats (lefts p))) (length (flats (lefts c))) d2 (data_keeper t3)"
    using d1(1) d2(1) assms(4) by (auto simp: replays_def)
  note c3 = both_consumed_shown [OF d2(2) t3(4)]
  let ?f4 = "f\<lparr>pf_par_builder := \<lparr>saved_states_count = Suc (length ?R + length (flats l)),
      left_subgraph_size = length (flats l), right_subgraph_size = 0\<rparr>\<rparr>"
  have "left_handled (par_of p) (prev_slider d1) (prev_slider (data_keeper t3))"
      "left_handled (par_of c) (current_slider d1) (current_slider (data_keeper t3))"
    using c3(2,3) sp(1) sc(1) by (simp_all add: left_handled_def)
  then obtain d4 where d4: "left_completed f (data_keeper t3) = (Ok ?f4, d4)" "result_trace d4 = result_trace (data_keeper t3)"
      "both_show (length (flats (lefts p)), length (flats (rights p))) (length (flats (lefts c)), length (flats (rights c))) d1 d4"
    using par_left [OF wf1 d1(2) c3(1)] small d1(1,3) t3(3) sp(1,2) sc(1,2) by (auto simp: keeper_small_def)
  let ?t4 = "t3\<lparr>data_keeper := d4, fsm_keeper := push_par ?f4 (fsm_keeper th)\<rparr>"
  have "in_front_of_forests ?t4 (rights p) (rights c)"
    by (rule shown_forests [of "length (flats (lefts p))" "length (flats (rights p))" "length (flats (lefts c))" "length (flats (rights c))" d1])
      (use d4(3) small sp(5) sc(5) in simp_all)
  with right [of ?t4] obtain t5 where t5: "replay_forest B r ?t4 = (Ok (), t5)" "fsm_keeper t5 = push_par ?f4 (fsm_keeper th)"
      "result_trace (data_keeper t5) = ?R @ executed_state_par 0 0 # flats l @ flats r"
      "both_consumed (length (flats (rights p))) (length (flats (rights c))) d4 (data_keeper t5)"
    using t3(3) d4(2) assms(4) by (auto simp: replays_def)
  note c5 = both_consumed_shown [OF d4(3) t5(4)]
  have "par_started (par_of p) (par_of c) d1 ?f4"
    using d1(2) by (simp add: par_started_def)
  then obtain d6 where d6: "right_completed ?f4 (data_keeper t5) = (Ok (), d6)"
      "result_trace d6 = ?R @ executed_state_par (length (flats l)) (length (flats r)) # flats l @ flats r"
      "both_show (par_len (par_of p), window_len (prev_slider d1)) (par_len (par_of c), window_len (current_slider d1)) d1 d6"
    using par_right [OF wf1 _ c5(1), of "par_of p" "par_of c" ?f4] t5(3) d1(1) assms(4) by auto
  have all: "take (window_len s) (drop k (remaining s)) = drop k (remaining s)" if "slider_in_trace s" for s k
    using window_remaining [OF that] by simp
  have "both_consumed (length (flats (lefts p)) + length (flats (rights p))) (length (flats (lefts c)) + length (flats (rights c))) d1 d6"
    using d6(3) wf1 sp(1,2) sc(1,2) by (simp add: both_consumed_def consumed_def both_show_def shows_window_def keeper_in_trace_def all)
  from both_consumed_trans [OF con this]
  have "both_consumed (length (flat_opt p)) (length (flat_opt c)) ?d d6"
    by (simp add: length_flat_fork assms(2,3) add.assoc)
  then show ?thesis
    using s t3(1) left_end_eq [OF t3(2) d4(1)] t5(1) right_end_eq [OF t5(2) d6(1)] d6(2)
    by (simp add: replays_def and_then_Ok)
qed

section \<open>Replaying a forest\<close>

lemma replays_Cons:
  assumes "replays (replay_node B x) k l s th"
    and "\<And>t. both_consumed k l (data_keeper th) (data_keeper t) \<Longrightarrow> result_trace (data_keeper t) = result_trace (data_keeper th) @ s
      \<Longrightarrow> replays (replay_forest B xs) m n s' t"
  shows "replays (replay_forest B (x # xs)) (k + m) (l + n) (s @ s') th"
proof -
  obtain t where t: "replay_node B x th = (Ok (), t)" "fsm_keeper t = fsm_keeper th"
      "result_trace (data_keeper t) = result_trace (data_keeper th) @ s" "both_consumed k l (data_keeper th) (data_keeper t)"
    using assms(1) by (auto simp: replays_def)
  with assms(2) [OF t(4,3)] show ?thesis
    by (auto simp: replays_def and_then_Ok intro: both_consumed_trans)
qed

lemma flats_head_tl: "flats xs = flat_opt (head xs) @ flats (tl xs)"
  by (cases xs) simp_all

lemma in_front_of_head: "in_front_of_forests th xs ys \<Longrightarrow> in_front_of th (head xs) (head ys)"
  by (cases xs; cases ys) (auto simp: in_front_of_forests_def in_front_of_def)

lemma in_front_of_tl:
  assumes "in_front_of_forests th xs ys"
    and "both_consumed (length (flat_opt (head xs))) (length (flat_opt (head ys))) (data_keeper th) (data_keeper t)"
  shows "in_front_of_forests t (tl xs) (tl ys)"
  using assms both_consumed_in_trace [OF assms(2)] keeper_small_same [OF _ both_consumed_same [OF assms(2)]]
  by (simp add: in_front_of_forests_def both_consumed_def consumed_def flats_head_tl [of xs] flats_head_tl [of ys])

lemma leaf_node_replays:
  assumes "in_front_of th p c" "length (result_trace (data_keeper th)) < u32_bound" "merges_node p c (Leaf x)"
  shows "replays (replay_node B (Leaf x)) (length (flat_opt p)) (length (flat_opt c)) (flat (Leaf x)) th"
proof -
  have len: "length (flat_opt p) \<le> 1" "length (flat_opt c) \<le> 1"
    using assms(3) by (cases rule: merges_node.cases; simp)+
  have wf: "keeper_wf (data_keeper th)" using assms(1) by (simp add: in_front_of_def keeper_in_trace_wf)
  note m = merged_leaves [OF wf assms(2) in_front_heads [OF assms(1)]]
  show ?thesis
  proof (cases x)
    case (Call r)
    with m(1) [of r B] assms(3) call_leaf_replays [OF assms(1) len] show ?thesis by fastforce
  next
    case (Ap r)
    with m(2) [of r B] assms(3) ap_leaf_replays [OF assms(1) len] show ?thesis by fastforce
  next
    case (Canon r)
    with m(3) [of r] assms(3) canon_leaf_replays [OF assms(1) len] show ?thesis by fastforce
  qed (use assms(3) in \<open>auto elim: merges_node.cases\<close>)
qed

lemmas leaf_rules = leaf_node_replays [OF _ _ merges_node_merges_forest.intros(1)]
  leaf_node_replays [OF _ _ merges_node_merges_forest.intros(2)] leaf_node_replays [OF _ _ merges_node_merges_forest.intros(3)]
  leaf_node_replays [OF _ _ merges_node_merges_forest.intros(4)] leaf_node_replays [OF _ _ merges_node_merges_forest.intros(5)]
  leaf_node_replays [OF _ _ merges_node_merges_forest.intros(6)] leaf_node_replays [OF _ _ merges_node_merges_forest.intros(7)]
  leaf_node_replays [OF _ _ merges_node_merges_forest.intros(8)] leaf_node_replays [OF _ _ merges_node_merges_forest.intros(9)]

lemma merges_replays:
  "merges_node p c z \<Longrightarrow> in_front_of th p c \<Longrightarrow> length (result_trace (data_keeper th)) + length (flat z) < u32_bound
    \<Longrightarrow> replays (replay_node B z) (length (flat_opt p)) (length (flat_opt c)) (flat z) th"
  "merges_forest xs ys zs \<Longrightarrow> in_front_of_forests th xs ys \<Longrightarrow> length (result_trace (data_keeper th)) + length (flats zs) < u32_bound
    \<Longrightarrow> replays (replay_forest B zs) (length (flats xs)) (length (flats ys)) (flats zs) th"
proof (induction arbitrary: th and th rule: merges_node_merges_forest.inducts)
  case (fork p c l r)
  then show ?case by (intro fork_replays) simp_all
next
  case forest_Nil
  then show ?case
    by (auto simp: replays_def both_consumed_def in_front_of_forests_def keeper_in_trace_def intro: consumed_0)
next
  case (forest_Cons xs ys z zs)
  have "replays (replay_node B z) (length (flat_opt (head xs))) (length (flat_opt (head ys))) (flat z) th"
    using forest_Cons by (simp add: in_front_of_head)
  then have "replays (replay_forest B (z # zs)) (length (flat_opt (head xs)) + length (flats (tl xs)))
      (length (flat_opt (head ys)) + length (flats (tl ys))) (flat z @ flats zs) th"
    by (rule replays_Cons)
      (rule forest_Cons.IH(2), use forest_Cons.prems in \<open>auto intro: in_front_of_tl\<close>)
  then show ?case by (simp add: flats_head_tl [of xs] flats_head_tl [of ys])
qed (rule leaf_rules; simp; fail)+

section \<open>The merge relation\<close>

text \<open>
  What peers may disagree on after they have seen the same data: who sent a pending request, and
  the generations of stream values, which are local to a peer.
\<close>

fun forget :: "executed_state \<Rightarrow> executed_state" where
  "forget (Call (RequestSentBy _)) = Call (RequestSentBy (PeerId []))"
| "forget (Call (Executed (Stream c _))) = Call (Executed (Stream c 0))"
| "forget (Ap a) = Ap (a\<lparr>res_generations := map (\<lambda>_. 0) (res_generations a)\<rparr>)"
| "forget (Canon (CanonRequestSentBy _)) = Canon (CanonRequestSentBy [])"
| "forget s = s"

lemma forget_call: "call_info a = call_info b \<Longrightarrow> forget (Call a) = forget (Call b)"
  by (cases a rule: call_info_cases; cases b rule: call_info_cases) simp_all

lemma forget_canon: "canon_info a = canon_info b \<Longrightarrow> forget (Canon a) = forget (Canon b)"
  by (cases a; cases b) simp_all

lemma merges_length:
  "merges_node p c z \<Longrightarrow> length (flat z) \<le> length (flat_opt p) + length (flat_opt c)"
  "merges_forest xs ys zs \<Longrightarrow> length (flats zs) \<le> length (flats xs) + length (flats ys)"
proof (induction rule: merges_node_merges_forest.inducts)
  case (fork p c l r)
  then show ?case by (auto simp: length_flat_fork)
next
  case (forest_Cons xs ys z zs)
  then show ?case by (simp add: flats_head_tl [of xs] flats_head_tl [of ys])
qed simp_all

text \<open>
  The compactification of streams, which follows an execution, writes the generations of aps and of
  stream values into the trace, see \<open>update_generation\<close>. Two forests have the same blank form when
  they differ in these generations only.
\<close>

fun ungenerated :: "executed_state \<Rightarrow> executed_state" where
  "ungenerated (Call (Executed (Stream c _))) = Call (executed_stream_stub c)"
| "ungenerated (Ap a) = Ap \<lparr>res_generations = map (\<lambda>_. GENERATION_STUB) (res_generations a)\<rparr>"
| "ungenerated s = s"

fun blank :: "node \<Rightarrow> node" and blanks :: "node list \<Rightarrow> node list" where
  "blank (Leaf s) = Leaf (ungenerated s)"
| "blank (Fork l r) = Fork (blanks l) (blanks r)"
| "blanks [] = []"
| "blanks (x # xs) = blank x # blanks xs"

lemma blank_eqs:
  "blank z = Leaf y \<longleftrightarrow> (\<exists>x. z = Leaf x \<and> ungenerated x = y)"
  "blank z = Fork l r \<longleftrightarrow> (\<exists>l' r'. z = Fork l' r' \<and> blanks l' = l \<and> blanks r' = r)"
  by (cases z; auto)+

lemma blanks_eqs:
  "blanks zs = [] \<longleftrightarrow> zs = []"
  "blanks zs = y # ys \<longleftrightarrow> (\<exists>x xs. zs = x # xs \<and> blank x = y \<and> blanks xs = ys)"
  by (cases zs; auto)+

lemma blank_length: "length (flat (blank z)) = length (flat z)" "length (flats (blanks zs)) = length (flats zs)"
  by (induction z and zs rule: flat_flats.induct) simp_all

lemma flat_blank: "flat (blank z) = map ungenerated (flat z)" "flats (blanks zs) = map ungenerated (flats zs)"
  by (induction z and zs rule: flat_flats.induct) (simp_all add: executed_state_par_def)

lemma ungenerated_kinds:
  "ungenerated x = ungenerated (Call a) \<Longrightarrow> \<exists>b. x = Call b \<and> call_info b = call_info a"
  "ungenerated x = Ap ap_result_stub \<Longrightarrow> \<exists>g. x = Ap \<lparr>res_generations = [g]\<rparr>"
  "ungenerated x = Canon a' \<Longrightarrow> x = Canon a'"
proof -
  show "ungenerated x = ungenerated (Call a) \<Longrightarrow> \<exists>b. x = Call b \<and> call_info b = call_info a"
    by (cases x rule: ungenerated.cases; cases a rule: call_info_cases; simp add: executed_stream_stub_def)
  show "\<exists>g. x = Ap \<lparr>res_generations = [g]\<rparr>" if "ungenerated x = Ap ap_result_stub"
  proof (cases x rule: ungenerated.cases)
    case (2 a)
    with that obtain g where "res_generations a = [g]" by (auto simp: ap_result_stub_def map_eq_Cons_conv)
    with 2 show ?thesis by (intro exI [of _ g]) (cases a; simp)
  qed (use that in simp_all)
  show "ungenerated x = Canon a' \<Longrightarrow> x = Canon a'"
    by (cases x rule: ungenerated.cases) simp_all
qed

lemma ungenerated_stub [simp]: "ungenerated (Ap ap_result_stub) = Ap ap_result_stub"
  by (simp add: ap_result_stub_def)

lemma replay_blank: "replay_node B (blank z) = replay_node B z" "replay_forest B (blanks zs) = replay_forest B zs"
proof (induction z and zs rule: flat_flats.induct)
  case (1 x)
  show ?case by (cases x rule: ungenerated.cases) (simp_all add: executed_stream_stub_def)
qed simp_all

context flat_merge
begin

lemma merge_same_obs: "merge a b = Some c \<Longrightarrow> obs d = obs c \<Longrightarrow> merge d a = Some d \<and> merge d b = Some d"
  by (cases "obs a"; cases "obs b") (auto simp: merge_eq agree_def split: if_splits)

end

lemma leaf_absorbs:
  "blank z' = blank (Leaf (Call c)) \<Longrightarrow> q = None \<or> (\<exists>b. q = Some (Leaf (Call b)) \<and> merged_call c b = Some c)
     \<Longrightarrow> \<exists>w. merges_node (Some z') q w \<and> blank w = blank (Leaf (Call c))"
  "blank z' = blank (Leaf (Ap ap_result_stub)) \<Longrightarrow> q = None \<or> (\<exists>g. q = Some (Leaf (Ap \<lparr>res_generations = [g]\<rparr>)))
     \<Longrightarrow> \<exists>w. merges_node (Some z') q w \<and> blank w = blank (Leaf (Ap ap_result_stub))"
  "blank z' = blank (Leaf (Canon a)) \<Longrightarrow> q = None \<or> (\<exists>b. q = Some (Leaf (Canon b)) \<and> merged_canon a b = Some a)
     \<Longrightarrow> \<exists>w. merges_node (Some z') q w \<and> blank w = blank (Leaf (Canon a))"
proof -
  assume b: "blank z' = blank (Leaf (Call c))" and q: "q = None \<or> (\<exists>b. q = Some (Leaf (Call b)) \<and> merged_call c b = Some c)"
  then obtain d where d: "z' = Leaf (Call d)" "call_info d = call_info c"
    using ungenerated_kinds(1) [of _ c] by (auto simp: blank_eqs)
  then have "merges_node (Some z') q z'"
    using q call_merge.merge_same_obs [of c _ c d] by (auto intro: merges_node_merges_forest.intros)
  with b show "\<exists>w. merges_node (Some z') q w \<and> blank w = blank (Leaf (Call c))" by blast
next
  assume b: "blank z' = blank (Leaf (Ap ap_result_stub))" and q: "q = None \<or> (\<exists>g. q = Some (Leaf (Ap \<lparr>res_generations = [g]\<rparr>)))"
  then obtain h where "z' = Leaf (Ap \<lparr>res_generations = [h]\<rparr>)"
    using ungenerated_kinds(2) by (auto simp: blank_eqs simp del: ungenerated.simps)
  then have "merges_node (Some z') q (Leaf (Ap ap_result_stub))" using q by (auto intro: merges_node_merges_forest.intros)
  then show "\<exists>w. merges_node (Some z') q w \<and> blank w = blank (Leaf (Ap ap_result_stub))" by blast
next
  assume b: "blank z' = blank (Leaf (Canon a))" and q: "q = None \<or> (\<exists>b. q = Some (Leaf (Canon b)) \<and> merged_canon a b = Some a)"
  then have "z' = Leaf (Canon a)" using ungenerated_kinds(3) by (auto simp: blank_eqs)
  then have "merges_node (Some z') q z'" using q by (auto intro: merges_node_merges_forest.intros)
  with b show "\<exists>w. merges_node (Some z') q w \<and> blank w = blank (Leaf (Canon a))" by blast
qed

lemma merges_absorbs:
  "merges_node p c z \<Longrightarrow> blank z' = blank z \<Longrightarrow>
     (\<exists>w. merges_node (Some z') p w \<and> blank w = blank z) \<and> (\<exists>w. merges_node (Some z') c w \<and> blank w = blank z)"
  "merges_forest xs ys zs \<Longrightarrow> blanks zs' = blanks zs \<Longrightarrow>
     (\<exists>ws. merges_forest zs' xs ws \<and> blanks ws = blanks zs) \<and> (\<exists>ws. merges_forest zs' ys ws \<and> blanks ws = blanks zs)"
proof (induction arbitrary: z' and zs' rule: merges_node_merges_forest.inducts)
  case (fork p c l r)
  then obtain l' r' where z': "z' = Fork l' r'" "blanks l' = blanks l" "blanks r' = blanks r" by (auto simp: blank_eqs)
  have "\<exists>w. merges_node (Some z') q w \<and> blank w = blank (Fork l r)"
    if "is_fork_or_none q" "merges_forest l' (lefts q) lw" "blanks lw = blanks l" "merges_forest r' (rights q) rw" "blanks rw = blanks r"
    for q lw rw
    using that z'(1) by (intro exI [of _ "Fork lw rw"]) (auto intro: merges_node_merges_forest.fork)
  with fork.IH(1) [OF z'(2)] fork.IH(2) [OF z'(3)] fork.hyps(1,2) show ?case by blast
next
  case (forest_Cons xs ys z zs)
  then obtain x' xs' where z': "zs' = x' # xs'" "blank x' = blank z" "blanks xs' = blanks zs" by (auto simp: blanks_eqs)
  have "\<exists>ws. merges_forest zs' us ws \<and> blanks ws = blanks (z # zs)"
    if "merges_node (Some x') (head us) w" "blank w = blank z" "merges_forest xs' (tl us) ws" "blanks ws = blanks zs" for us w ws
    using that z'(1) by (intro exI [of _ "w # ws"]) (auto intro: merges_node_merges_forest.forest_Cons)
  with forest_Cons.IH(1) [OF z'(2)] forest_Cons.IH(2) [OF z'(3)] show ?case by blast
next
  case forest_Nil
  then have "zs' = []" by (simp add: blanks_eqs)
  then show ?case using merges_node_merges_forest.forest_Nil by blast
next
  case (call_both a b c)
  then show ?case using leaf_absorbs(1) [OF call_both(2)] call_merge.merge_absorb [OF call_both(1)] by blast
next
  case (canon_both a b c)
  then show ?case using leaf_absorbs(3) [OF canon_both(2)] canon_merge.merge_absorb [OF canon_both(1)] by blast
next
  case (call_prev a)
  then show ?case using leaf_absorbs(1) [OF call_prev] call_merge.merge_idem by metis
next
  case (call_current b)
  then show ?case using leaf_absorbs(1) [OF call_current] call_merge.merge_idem by metis
next
  case (ap_prev g)
  then show ?case using leaf_absorbs(2) [OF ap_prev] by blast
next
  case (ap_current g)
  then show ?case using leaf_absorbs(2) [OF ap_current] by blast
next
  case (ap_both g h)
  then show ?case using leaf_absorbs(2) [OF ap_both] by blast
next
  case (canon_prev a)
  then show ?case using leaf_absorbs(3) [OF canon_prev] canon_merge.merge_idem by metis
next
  case (canon_current b)
  then show ?case using leaf_absorbs(3) [OF canon_current] canon_merge.merge_idem by metis
qed

lemma merges_swap:
  "merges_node p c z \<Longrightarrow> \<exists>z'. merges_node c p z' \<and> map forget (flat z') = map forget (flat z)"
  "merges_forest xs ys zs \<Longrightarrow> \<exists>zs'. merges_forest ys xs zs' \<and> map forget (flats zs') = map forget (flats zs)"
proof (induction rule: merges_node_merges_forest.inducts)
  case (call_both a b c)
  with call_merge.merge_comm [of a b c] obtain c' where "merged_call b a = Some c'" "call_info c' = call_info c" by blast
  then show ?case by (intro exI [of _ "Leaf (Call c')"]) (auto intro: merges_node_merges_forest.intros forget_call)
next
  case (canon_both a b c)
  with canon_merge.merge_comm [of a b c] obtain c' where "merged_canon b a = Some c'" "canon_info c' = canon_info c" by blast
  then show ?case by (intro exI [of _ "Leaf (Canon c')"]) (auto intro: merges_node_merges_forest.intros forget_canon)
next
  case (ap_both g h)
  show ?case
    by (intro exI [of _ "Leaf (Ap ap_result_stub)"]) (auto intro: merges_node_merges_forest.intros)
next
  case (fork p c l r)
  then obtain l' r' where "merges_forest (lefts c) (lefts p) l'" "map forget (flats l') = map forget (flats l)"
      "merges_forest (rights c) (rights p) r'" "map forget (flats r') = map forget (flats r)" by blast
  with fork show ?case
    by (intro exI [of _ "Fork l' r'"])
      (auto intro: merges_node_merges_forest.fork simp: executed_state_par_def dest: map_eq_imp_length_eq)
next
  case (forest_Cons xs ys z zs)
  then obtain z' zs' where "merges_node (head ys) (head xs) z'" "map forget (flat z') = map forget (flat z)"
      "merges_forest (tl ys) (tl xs) zs'" "map forget (flats zs') = map forget (flats zs)" by blast
  with forest_Cons show ?case
    by (intro exI [of _ "z' # zs'"]) (auto intro: merges_node_merges_forest.forest_Cons)
next
  case forest_Nil
  show ?case by (intro exI [of _ "[]"]) (simp add: merges_node_merges_forest.forest_Nil)
qed (blast intro: merges_node_merges_forest.intros)+

section \<open>Properties\<close>

text \<open>A run of the handler from its construction on two traces to its result trace.\<close>

definition replay_result ::
    "'bm bimap_ops \<Rightarrow> execution_trace \<Rightarrow> execution_trace \<Rightarrow> node list \<Rightarrow> (execution_trace, trace_handler_error) result" where
  "replay_result B prev current zs = res_then (handler_from_trace B prev current) (\<lambda>th.
     case replay_forest B zs th of (r, t) \<Rightarrow> res_then r (\<lambda>_. Ok (into_result_trace t)))"

lemma fresh_handler_in_front:
  assumes "2 * length (flats xs) < u32_bound" "2 * length (flats ys) < u32_bound"
  shows "\<exists>th. handler_from_trace B (flats xs) (flats ys) = (Ok th :: (_, trace_handler_error) result)
    \<and> in_front_of_forests th xs ys \<and> result_trace (data_keeper th) = []"
proof -
  have "\<exists>d. data_keeper_from_trace B (flats xs) (flats ys) = (Ok d :: (_, trace_handler_error) result)
      \<and> ts_position (prev_slider d) = 0 \<and> ts_position (current_slider d) = 0"
    using assms by (auto simp: data_keeper_from_trace_def merge_ctx_from_trace_def slider_new_def trace_states_count_def
        prev_slider_def current_slider_def)
  then obtain d where d: "data_keeper_from_trace B (flats xs) (flats ys) = (Ok d :: (_, trace_handler_error) result)"
      "ts_position (prev_slider d) = 0" "ts_position (current_slider d) = 0" by blast
  with data_keeper_from_trace_wf [OF d(1)] assms show ?thesis
    by (auto simp: handler_from_trace_def in_front_of_forests_def keeper_small_def keeper_in_trace_def
        keeper_wf_def slider_in_trace_def)
qed

lemma replay_result_merged:
  assumes "merges_forest xs ys zs" "2 * length (flats xs) < u32_bound" "2 * length (flats ys) < u32_bound"
  shows "replay_result B (flats xs) (flats ys) zs = Ok (flats zs)"
proof -
  obtain th where th: "handler_from_trace B (flats xs) (flats ys) = (Ok th :: (_, trace_handler_error) result)"
      "in_front_of_forests th xs ys" "result_trace (data_keeper th) = []"
    using fresh_handler_in_front [OF assms(2,3)] by blast
  with merges_replays(2) [OF assms(1) th(2), of B] merges_length(2) [OF assms(1)] assms(2,3)
  obtain t where "replay_forest B zs th = (Ok (), t)" "result_trace (data_keeper t) = flats zs"
    by (auto simp: replays_def)
  with th show ?thesis by (simp add: replay_result_def into_result_trace_def)
qed

text \<open>
  C1. The trace handler merges whole traces. Take traces of calls, aps, canons and pars, nested to any
  depth but without folds, that two peers have of the same script, each peer having got as far as it did,
  such that the states that correspond can be merged. The calls of the handler that the interpreter makes
  for instructions whose states it takes over (a call and a canon end with the merged result, an ap with
  the stub generation) all succeed, and the result trace is the specified merge: calls and canons with
  the merged results, aps with the stub that the compactification of streams overwrites, pars with the
  sizes of their subgraphs filled in. The traces are shorter than $2^{31}$ states.
\<close>

theorem replay_merges_traces:
  assumes "merges_forest xs ys zs"
    and "2 * length (flats xs) < u32_bound" "2 * length (flats ys) < u32_bound"
  shows "replay_result B (flats xs) (flats ys) zs = Ok (flats zs)"
  by (rule replay_result_merged [OF assms])

definition example_prev :: "node list" where
  "example_prev = [Fork [Leaf (Call (Executed (Scalar ''a'')))] [Leaf (Ap \<lparr>res_generations = [3]\<rparr>), Leaf (Call (RequestSentBy (PeerId ''p'')))]]"

definition example_current :: "node list" where
  "example_current = [Fork [] [Leaf (Ap \<lparr>res_generations = [1]\<rparr>), Leaf (Call (Executed (Scalar ''b'')))], Leaf (Canon (CanonExecuted ''c''))]"

definition example_merged :: "node list" where
  "example_merged = [Fork [Leaf (Call (Executed (Scalar ''a'')))] [Leaf (Ap ap_result_stub), Leaf (Call (Executed (Scalar ''b'')))],
     Leaf (Canon (CanonExecuted ''c''))]"

lemma example_merges: "merges_forest example_prev example_current example_merged"
proof -
  have "merged_call (RequestSentBy (PeerId ''p'')) (Executed (Scalar ''b'')) = Some (Executed (Scalar ''b''))"
    by (simp add: call_merge.merge_eq agree_def)
  then show ?thesis
    unfolding example_prev_def example_current_def example_merged_def
    by (auto intro!: merges_node_merges_forest.intros)
qed

lemma replay_merges_traces_witness:
  "replay_result fun_bimap
     [executed_state_par 1 2, Call (Executed (Scalar ''a'')), Ap \<lparr>res_generations = [3]\<rparr>, Call (RequestSentBy (PeerId ''p''))]
     [executed_state_par 0 2, Ap \<lparr>res_generations = [1]\<rparr>, Call (Executed (Scalar ''b'')), Canon (CanonExecuted ''c'')] example_merged
   = Ok [executed_state_par 1 2, Call (Executed (Scalar ''a'')), Ap ap_result_stub, Call (Executed (Scalar ''b'')), Canon (CanonExecuted ''c'')]"
  using replay_merges_traces [OF example_merges, of fun_bimap]
  by (simp add: example_prev_def example_current_def example_merged_def numeral_2_eq_2)

text \<open>
  C2. Replicas converge. Take two traces without folds as above, whose corresponding states can be
  merged, shorter than $2^{30}$ states. Whichever of the two peers merges the other's trace into its own,
  the result traces are the same up to the senders of pending requests and the generations of stream
  values. And when a peer stores the merged trace, with whatever generations the compactification of
  streams has written into it, merging the trace of either peer into it again gives the merged trace up
  to these generations.
\<close>

theorem replay_converges:
  assumes "merges_forest xs ys zs"
    and "4 * length (flats xs) < u32_bound" "4 * length (flats ys) < u32_bound"
  shows "\<exists>zs'. replay_result B (flats ys) (flats xs) zs' = Ok (flats zs')
    \<and> replay_result B (flats xs) (flats ys) zs = Ok (flats zs)
    \<and> map forget (flats zs') = map forget (flats zs)
    \<and> (\<forall>stored. blanks stored = blanks zs \<longrightarrow> (\<forall>us \<in> {xs, ys}. \<exists>t.
        replay_result B (flats stored) (flats us) zs = Ok t \<and> map ungenerated t = map ungenerated (flats zs)))"
proof -
  obtain zs' where zs': "merges_forest ys xs zs'" "map forget (flats zs') = map forget (flats zs)"
    using merges_swap(2) [OF assms(1)] by blast
  have len: "2 * length (flats xs) < u32_bound" "2 * length (flats ys) < u32_bound" "2 * length (flats zs) < u32_bound"
    using merges_length(2) [OF assms(1)] assms(2,3) by simp_all
  have "\<exists>t. replay_result B (flats stored) (flats us) zs = Ok t \<and> map ungenerated t = map ungenerated (flats zs)"
    if stored: "blanks stored = blanks zs" and us: "us \<in> {xs, ys}" for stored us
  proof -
    obtain ws where ws: "merges_forest stored us ws" "blanks ws = blanks zs"
      using merges_absorbs(2) [OF assms(1) stored] us by blast
    have "length (flats stored) = length (flats zs)" using blank_length(2) stored by metis
    then have "replay_result B (flats stored) (flats us) ws = Ok (flats ws)"
      using replay_result_merged [OF ws(1)] len us by auto
    moreover have "replay_forest B ws = replay_forest B zs" using replay_blank(2) ws(2) by metis
    ultimately show ?thesis using flat_blank(2) ws(2) by (metis replay_result_def)
  qed
  with replay_result_merged [OF zs'(1) len(2,1)] replay_result_merged [OF assms(1) len(1,2)] zs'(2) show ?thesis by blast
qed

lemma replay_converges_witness:
  "\<exists>t. replay_result fun_bimap (flats example_merged) (flats example_prev) example_merged = Ok t
    \<and> map ungenerated t = map ungenerated (flats example_merged)"
proof -
  have "4 * length (flats example_prev) < u32_bound" "4 * length (flats example_current) < u32_bound"
    by (simp_all add: example_prev_def example_current_def)
  from replay_converges [OF example_merges this, of fun_bimap] show ?thesis by blast
qed

end
