(* ===== verification/Rust_Text.thy ===== *)
theory Rust_Text
  imports Prelude
begin

text \<open>
  What the lexers use of the standard library on text. A \<^verbatim>\<open>&str\<close> is its UTF-8 bytes (a \<open>string\<close>), a
  \<^verbatim>\<open>char\<close> its code point, \<^verbatim>\<open>char_indices\<close> the code points with their byte offsets. A slice outside
  the text or not on a character boundary panics. Of the Unicode tables, white space is written out; which code points above
  ASCII are alphabetic or numeric is the parameter \<open>char_ops\<close>.
\<close>

section \<open>Characters\<close>

type_synonym code_point = nat

record char_ops =
  unicode_alphanumeric :: "code_point \<Rightarrow> bool"
  unicode_numeric :: "code_point \<Rightarrow> bool"

abbreviation cp :: "char \<Rightarrow> code_point" where
  "cp c \<equiv> of_char c"

definition ascii_digit :: "code_point \<Rightarrow> bool" where
  "ascii_digit c \<longleftrightarrow> 48 \<le> c \<and> c \<le> 57"

definition ascii_letter :: "code_point \<Rightarrow> bool" where
  "ascii_letter c \<longleftrightarrow> 65 \<le> c \<and> c \<le> 90 \<or> 97 \<le> c \<and> c \<le> 122"

definition is_alphanumeric :: "char_ops \<Rightarrow> code_point \<Rightarrow> bool" where
  "is_alphanumeric U c \<longleftrightarrow> (if c < 128 then ascii_digit c \<or> ascii_letter c else unicode_alphanumeric U c)"

definition is_numeric :: "char_ops \<Rightarrow> code_point \<Rightarrow> bool" where
  "is_numeric U c \<longleftrightarrow> (if c < 128 then ascii_digit c else unicode_numeric U c)"

definition is_whitespace :: "code_point \<Rightarrow> bool" where
  "is_whitespace c \<longleftrightarrow> 9 \<le> c \<and> c \<le> 13 \<or> 0x2000 \<le> c \<and> c \<le> 0x200A
     \<or> c \<in> {32, 0x85, 0xA0, 0x1680, 0x2028, 0x2029, 0x202F, 0x205F, 0x3000}"

section \<open>UTF-8\<close>

definition utf8_width :: "nat \<Rightarrow> nat" where
  "utf8_width b = (if b < 0x80 then 1 else if b < 0xE0 then 2 else if b < 0xF0 then 3 else 4)"

definition utf8_lead :: "nat \<Rightarrow> nat" where
  "utf8_lead b = (if b < 0x80 then b else if b < 0xE0 then b mod 0x20 else if b < 0xF0 then b mod 0x10 else b mod 8)"

definition utf8_code :: "char \<Rightarrow> string \<Rightarrow> code_point" where
  "utf8_code c rest = foldl (\<lambda>acc b. acc * 64 + of_char b mod 64) (utf8_lead (of_char c)) rest"

type_synonym char_iter = "(nat \<times> code_point) list"

function char_indices_from :: "nat \<Rightarrow> string \<Rightarrow> char_iter" where
  "char_indices_from pos [] = []"
| "char_indices_from pos (c # cs) =
     (let w = utf8_width (of_char c) in
      (pos, utf8_code c (take (w - 1) cs)) # char_indices_from (pos + w) (drop (w - 1) cs))"
  by pat_completeness auto
termination
  by (relation "measure (\<lambda>(_, s). length s)") auto

declare char_indices_from.simps [simp del]

definition char_indices :: "string \<Rightarrow> char_iter" where
  "char_indices s = char_indices_from 0 s"

definition is_continuation :: "char \<Rightarrow> bool" where
  "is_continuation c \<longleftrightarrow> 0x80 \<le> (of_char c :: nat) \<and> (of_char c :: nat) < 0xC0"

definition is_char_boundary :: "string \<Rightarrow> nat \<Rightarrow> bool" where
  "is_char_boundary s i \<longleftrightarrow> i = length s \<or> i < length s \<and> \<not> is_continuation (s ! i)"

definition str_slice :: "string \<Rightarrow> nat \<Rightarrow> nat \<Rightarrow> (string, 'e) result" where
  "str_slice s a b = (if a \<le> b \<and> b \<le> length s \<and> is_char_boundary s a \<and> is_char_boundary s b
     then Ok (take (b - a) (drop a s)) else Panic)"

text \<open>The invariant of \<^verbatim>\<open>&str\<close> the slices rely on: a character has all its bytes, and only the first of them is not a
  continuation byte.\<close>

fun str_wf :: "nat \<Rightarrow> string \<Rightarrow> bool" where
  "str_wf k [] = (k = 0)"
| "str_wf 0 (c # cs) = (\<not> is_continuation c \<and> str_wf (utf8_width (of_char c) - 1) cs)"
| "str_wf (Suc k) (c # cs) = (is_continuation c \<and> str_wf k cs)"

abbreviation valid_str :: "string \<Rightarrow> bool" where
  "valid_str \<equiv> str_wf 0"

section \<open>Numbers\<close>

datatype int_error_kind = IntEmpty | IntInvalidDigit | IntPosOverflow | IntNegOverflow

definition byte_digit :: "char \<Rightarrow> bool" where
  "byte_digit c \<longleftrightarrow> ascii_digit (of_char c)"

text \<open>The digits are read from the left; the first that is not one or that leads above the limit decides the error.\<close>

fun read_digits :: "nat \<Rightarrow> int_error_kind \<Rightarrow> nat \<Rightarrow> string \<Rightarrow> (nat, int_error_kind) result" where
  "read_digits limit overflow n [] = Ok n"
| "read_digits limit overflow n (c # cs) =
     (if \<not> byte_digit c then Err IntInvalidDigit
      else let m = n * 10 + (of_char c - 48) in
        if limit < m then Err overflow else read_digits limit overflow m cs)"

text \<open>\<^verbatim>\<open>parse::<u32>\<close> and \<^verbatim>\<open>parse::<i64>\<close>.\<close>

definition parse_u32 :: "string \<Rightarrow> (u32, int_error_kind) result" where
  "parse_u32 s =
     (if s = [] then Err IntEmpty
      else if s = ''+'' \<or> s = ''-'' then Err IntInvalidDigit
      else res_then (read_digits 4294967295 IntPosOverflow 0 (if hd s = CHR ''+'' then tl s else s)) (\<lambda>n. Ok (of_nat n)))"

definition parse_i64 :: "string \<Rightarrow> (int, int_error_kind) result" where
  "parse_i64 s =
     (if s = [] then Err IntEmpty
      else if s = ''+'' \<or> s = ''-'' then Err IntInvalidDigit
      else if hd s = CHR ''-'' then res_then (read_digits 9223372036854775808 IntNegOverflow 0 (tl s)) (\<lambda>n. Ok (- int n))
      else res_then (read_digits 9223372036854775807 IntPosOverflow 0 (if hd s = CHR ''+'' then tl s else s)) (\<lambda>n. Ok (int n)))"

section \<open>ASCII text\<close>

definition ascii :: "string \<Rightarrow> bool" where
  "ascii s \<longleftrightarrow> list_all (\<lambda>c. (of_char c :: nat) < 128) s"

lemma ascii_simps [simp]: "ascii []" "ascii (c # s) \<longleftrightarrow> (of_char c :: nat) < 128 \<and> ascii s" "ascii (s @ t) \<longleftrightarrow> ascii s \<and> ascii t"
  by (simp_all add: ascii_def)

primrec ascii_iter :: "nat \<Rightarrow> string \<Rightarrow> char_iter" where
  "ascii_iter p [] = []"
| "ascii_iter p (c # s) = (p, of_char c) # ascii_iter (Suc p) s"

lemma char_indices_ascii_append: "ascii s \<Longrightarrow> char_indices_from p (s @ t) = ascii_iter p s @ char_indices_from (p + length s) t"
  by (induction s arbitrary: p) (simp_all add: char_indices_from.simps utf8_width_def utf8_code_def utf8_lead_def)

lemma char_indices_ascii: "ascii s \<Longrightarrow> char_indices_from p s = ascii_iter p s"
  using char_indices_ascii_append [of s p "[]"] by (simp add: char_indices_from.simps)

lemma ascii_iter_append [simp]: "ascii_iter p (s @ t) = ascii_iter p s @ ascii_iter (p + length s) t"
  by (induction s arbitrary: p) simp_all

lemma length_ascii_iter [simp]: "length (ascii_iter p s) = length s"
  by (induction s arbitrary: p) simp_all

lemma ascii_boundary: "ascii s \<Longrightarrow> i \<le> length s \<Longrightarrow> is_char_boundary s i"
  by (cases "i < length s") (auto simp: is_char_boundary_def is_continuation_def ascii_def list_all_length linorder_not_le)

lemma str_slice_ascii: "ascii (pre @ s @ post) \<Longrightarrow> str_slice (pre @ s @ post) (length pre) (length pre + length s) = Ok s"
  by (simp add: str_slice_def ascii_boundary)

section \<open>Numbers\<close>

lemma read_digits_append:
  "read_digits limit k n (s @ t) = res_then (read_digits limit k n s) (\<lambda>m. read_digits limit k m t)"
  by (induction s arbitrary: n) (simp_all add: Let_def)

end
