(* ===== verification/Lambda_Parser.thy ===== *)
theory Lambda_Parser
  imports Air_Ast Rust_Text
begin

text \<open>
  The parser of lambdas (\<^verbatim>\<open>lambda/parser/src\<close>): the lexer and the productions of \<^verbatim>\<open>va_lambda.lalrpop\<close>.

  The parser is generated from the grammar; what the code relies on is that it accepts the token sequences the productions derive.
  On any other sequence an error is recorded or returned, and the function \<^verbatim>\<open>parse\<close> returns an error. The lexer is asked
  for tokens until it fails: an error ends the parse, also one behind a syntax error, which the recovery steps over. The text of an error is left out.
\<close>

section \<open>Tokens\<close>

datatype lambda_token =
    LengthFunctorTok
  | ValuePathStarter
  | ValuePathSelector
  | LOpenSquareBracket
  | LCloseSquareBracket
  | NumberAccessor u32
  | StringAccessor string
  | FlatteningSign

datatype lambda_lexer_error = UnexpectedSymbol nat nat | LambdaParseIntError nat nat int_error_kind

type_synonym lambda_spanned = "(nat \<times> lambda_token \<times> nat, lambda_lexer_error) result"

definition is_air_alphanumeric :: "char_ops \<Rightarrow> code_point \<Rightarrow> bool" where
  "is_air_alphanumeric U c \<longleftrightarrow> is_alphanumeric U c \<or> c = cp CHR ''_'' \<or> c = cp CHR ''-''"

definition LENGTH_FUNCTOR :: string where
  "LENGTH_FUNCTOR = ''.length''"

definition VALUE_PATH_STARTER :: string where
  "VALUE_PATH_STARTER = ''.$''"

text \<open>The loop of \<^verbatim>\<open>tokenize_until\<close>: the offset of the last character taken, and the characters left.\<close>

fun until_loop :: "(code_point \<Rightarrow> bool) \<Rightarrow> nat \<Rightarrow> char_iter \<Rightarrow> nat \<times> char_iter" where
  "until_loop condition end_offset [] = (end_offset, [])"
| "until_loop condition end_offset ((pos, c) # chars) =
     (if \<not> condition c then (end_offset, (pos, c) # chars) else until_loop condition pos chars)"

definition tokenize_until :: "string \<Rightarrow> nat \<Rightarrow> (code_point \<Rightarrow> bool) \<Rightarrow> char_iter \<Rightarrow> (string, 'e) result \<times> char_iter" where
  "tokenize_until input start_offset condition chars =
     (case until_loop condition start_offset chars of (end_offset, chars) \<Rightarrow> (str_slice input start_offset (end_offset + 1), chars))"

definition tokenize_arrays_idx :: "string \<Rightarrow> nat \<Rightarrow> char_iter \<Rightarrow> lambda_spanned \<times> char_iter" where
  "tokenize_arrays_idx input start_offset chars =
     (case tokenize_until input start_offset ascii_digit chars of (r, chars) \<Rightarrow>
       (res_then r (\<lambda>array_idx.
        res_then (res_map_err (LambdaParseIntError start_offset (start_offset + length array_idx)) (parse_u32 array_idx)) (\<lambda>idx.
        Ok (start_offset, NumberAccessor idx, start_offset + length array_idx))), chars))"

definition tokenize_field_name :: "char_ops \<Rightarrow> string \<Rightarrow> nat \<Rightarrow> char_iter \<Rightarrow> lambda_spanned \<times> char_iter" where
  "tokenize_field_name U input start_offset chars =
     (case tokenize_until input start_offset (is_air_alphanumeric U) chars of (r, chars) \<Rightarrow>
       (res_then r (\<lambda>field_name. Ok (start_offset, StringAccessor field_name, start_offset + length field_name)), chars))"

definition lambda_char_token :: "char_ops \<Rightarrow> string \<Rightarrow> nat \<Rightarrow> code_point \<Rightarrow> char_iter \<Rightarrow> lambda_spanned \<times> char_iter" where
  "lambda_char_token U input start_offset c chars =
     (if c = cp CHR ''['' then (Ok (start_offset, LOpenSquareBracket, start_offset + 1), chars)
      else if c = cp CHR '']'' then (Ok (start_offset, LCloseSquareBracket, start_offset + 1), chars)
      else if c = cp CHR ''.'' then (Ok (start_offset, ValuePathSelector, start_offset + 1), chars)
      else if ascii_digit c then tokenize_arrays_idx input start_offset chars
      else if is_air_alphanumeric U c then tokenize_field_name U input start_offset chars
      else if c = cp CHR ''!'' then (Ok (start_offset, FlatteningSign, start_offset + 1), chars)
      else (Err (UnexpectedSymbol start_offset (start_offset + 1)), chars))"

definition starts_with :: "string \<Rightarrow> string \<Rightarrow> bool" where
  "starts_with s p \<longleftrightarrow> take (length p) s = p"

text \<open>\<^verbatim>\<open>try_parse_first_token\<close>; \<^verbatim>\<open>advance_by\<close> drops as many characters as the token has bytes.\<close>

definition try_parse_first_token :: "string \<Rightarrow> char_iter \<Rightarrow> lambda_spanned \<times> char_iter" where
  "try_parse_first_token input chars =
     (if input = LENGTH_FUNCTOR then (Ok (0, LengthFunctorTok, length LENGTH_FUNCTOR), drop (length LENGTH_FUNCTOR) chars)
      else if starts_with input VALUE_PATH_STARTER
      then (Ok (0, ValuePathStarter, length VALUE_PATH_STARTER), drop (length VALUE_PATH_STARTER) chars)
      else (Err (UnexpectedSymbol 0 (length input)), chars))"

section \<open>The token sequence\<close>

lemma until_loop_shorter: "length (snd (until_loop condition end_offset chars)) \<le> length chars"
  by (induction condition end_offset chars rule: until_loop.induct) auto

lemma lambda_char_token_shorter: "length (snd (lambda_char_token U input start c chars)) \<le> length chars"
  using until_loop_shorter [of ascii_digit start chars] until_loop_shorter [of "is_air_alphanumeric U" start chars]
  by (auto simp: lambda_char_token_def tokenize_arrays_idx_def tokenize_field_name_def tokenize_until_def split: prod.splits)

text \<open>The tokens after the first one, up to the first failure.\<close>

function lambda_tokens_rest :: "char_ops \<Rightarrow> string \<Rightarrow> char_iter \<Rightarrow> (lambda_token list, lambda_lexer_error) result" where
  "lambda_tokens_rest U input [] = Ok []"
| "lambda_tokens_rest U input ((start, c) # chars) =
     (case lambda_char_token U input start c chars of
        (Ok (_, token, _), chars') \<Rightarrow> res_then (lambda_tokens_rest U input chars') (\<lambda>ts. Ok (token # ts))
      | (Err e, _) \<Rightarrow> Err e
      | (Panic, _) \<Rightarrow> Panic)"
  by pat_completeness auto
termination
  by (relation "measure (\<lambda>(_, _, chars). length chars)")
    (auto dest!: arg_cong [where f = snd] simp: less_Suc_eq_le intro: order.trans [OF _ lambda_char_token_shorter])

definition lambda_tokens :: "char_ops \<Rightarrow> string \<Rightarrow> (lambda_token list, lambda_lexer_error) result" where
  "lambda_tokens U input =
     (if input = [] then Ok []
      else case try_parse_first_token input (char_indices input) of
        (Ok (_, token, _), chars) \<Rightarrow> res_then (lambda_tokens_rest U input chars) (\<lambda>ts. Ok (token # ts))
      | (Err e, _) \<Rightarrow> Err e
      | (Panic, _) \<Rightarrow> Panic)"

section \<open>The grammar\<close>

fun maybe_flatten_sign :: "lambda_token list \<Rightarrow> lambda_token list" where
  "maybe_flatten_sign (FlatteningSign # ts) = ts"
| "maybe_flatten_sign ts = ts"

lemma maybe_flatten_sign_shorter: "length ts < n \<Longrightarrow> length (maybe_flatten_sign ts) < n"
  by (cases ts rule: maybe_flatten_sign.cases) auto

fun maybe_dot_selector :: "lambda_token list \<Rightarrow> lambda_token list" where
  "maybe_dot_selector (ValuePathSelector # ts) = ts"
| "maybe_dot_selector ts = ts"

lemma maybe_dot_selector_shorter: "length (maybe_dot_selector ts) \<le> length ts"
  by (cases ts rule: maybe_dot_selector.cases) auto

text \<open>One \<^verbatim>\<open>ValueAccessor\<close> and the tokens behind it.\<close>

definition parse_value_accessor :: "lambda_token list \<Rightarrow> (value_accessor \<times> lambda_token list) option" where
  "parse_value_accessor ts =
     (case maybe_dot_selector ts of
        LOpenSquareBracket # NumberAccessor idx # LCloseSquareBracket # ts' \<Rightarrow> Some (ArrayAccess idx, maybe_flatten_sign ts')
      | LOpenSquareBracket # StringAccessor scalar_name # LCloseSquareBracket # ts' \<Rightarrow>
          Some (FieldAccessByScalar scalar_name, maybe_flatten_sign ts')
      | StringAccessor field_name # ts' \<Rightarrow>
          if ts = ValuePathSelector # StringAccessor field_name # ts' then Some (FieldAccessByName field_name, maybe_flatten_sign ts') else None
      | _ \<Rightarrow> None)"

lemma parse_value_accessor_shorter:
  assumes "parse_value_accessor ts = Some (a, ts')"
  shows "length ts' < length ts"
  using assms maybe_dot_selector_shorter [of ts]
  by (auto simp del: maybe_flatten_sign.simps simp: parse_value_accessor_def intro!: maybe_flatten_sign_shorter
      split: list.splits lambda_token.splits if_splits)

function parse_value_accessors :: "lambda_token list \<Rightarrow> value_accessor list option" where
  "parse_value_accessors ts =
     (if ts = [] then Some []
      else case parse_value_accessor ts of
        None \<Rightarrow> None
      | Some (a, ts') \<Rightarrow> map_option ((#) a) (parse_value_accessors ts'))"
  by pat_completeness auto
termination
  by (relation "measure length") (auto dest: parse_value_accessor_shorter)

declare parse_value_accessors.simps [simp del]

datatype raw_lambda_ast = RawFunctor length_functor | RawValuePath "value_accessor list"

fun parse_raw_lambda :: "lambda_token list \<Rightarrow> raw_lambda_ast option" where
  "parse_raw_lambda (ValuePathStarter # ts) = map_option RawValuePath (parse_value_accessors ts)"
| "parse_raw_lambda [LengthFunctorTok] = Some (RawFunctor Length)"
| "parse_raw_lambda _ = None"

datatype lambda_parser_error = LambdaLexerError lambda_lexer_error | LambdaSyntaxError | EmptyLambda

definition try_from_accessors :: "value_accessor list \<Rightarrow> (lambda_ast, lambda_parser_error) result" where
  "try_from_accessors accessors = (if accessors = [] then Err EmptyLambda else Ok (ValuePath accessors))"

fun try_from_raw :: "raw_lambda_ast \<Rightarrow> (lambda_ast, lambda_parser_error) result" where
  "try_from_raw (RawValuePath accessors) = try_from_accessors accessors"
| "try_from_raw (RawFunctor f) = Ok (Functor f)"

definition parse_lambda :: "char_ops \<Rightarrow> string \<Rightarrow> (lambda_ast, lambda_parser_error) result" where
  "parse_lambda U lambda =
     res_then (res_map_err LambdaLexerError (lambda_tokens U lambda)) (\<lambda>tokens.
     res_then (ok_or LambdaSyntaxError (parse_raw_lambda tokens)) try_from_raw)"

section \<open>Printed lambdas\<close>

definition ascii_name :: "string \<Rightarrow> bool" where
  "ascii_name s \<longleftrightarrow> s \<noteq> [] \<and> list_all (\<lambda>c. ascii_digit (cp c) \<or> ascii_letter (cp c) \<or> c = CHR ''_'' \<or> c = CHR ''-'') s"

fun printable_accessor :: "value_accessor \<Rightarrow> bool" where
  "printable_accessor (ArrayAccess _) = True"
| "printable_accessor (FieldAccessByName s) = (ascii_name s \<and> \<not> ascii_digit (cp (hd s)))"
| "printable_accessor (FieldAccessByScalar s) = (ascii_name s \<and> \<not> ascii_digit (cp (hd s)))"
| "printable_accessor AccessorError = False"

fun printable_lambda :: "lambda_ast \<Rightarrow> bool" where
  "printable_lambda (Functor _) = True"
| "printable_lambda (ValuePath accessors) = (accessors \<noteq> [] \<and> list_all printable_accessor accessors)"

fun accessor_tokens :: "value_accessor \<Rightarrow> lambda_token list" where
  "accessor_tokens (ArrayAccess idx) = [ValuePathSelector, LOpenSquareBracket, NumberAccessor idx, LCloseSquareBracket]"
| "accessor_tokens (FieldAccessByName s) = [ValuePathSelector, StringAccessor s]"
| "accessor_tokens (FieldAccessByScalar s) = [ValuePathSelector, LOpenSquareBracket, StringAccessor s, LCloseSquareBracket]"
| "accessor_tokens AccessorError = []"

lemma parse_accessor_tokens:
  assumes "a \<noteq> AccessorError" "ts = [] \<or> hd ts = ValuePathSelector"
  shows "parse_value_accessor (accessor_tokens a @ ts) = Some (a, ts)"
proof -
  have "maybe_flatten_sign ts = ts" using assms(2) by (cases ts) auto
  with assms(1) show ?thesis by (cases a) (simp_all add: parse_value_accessor_def)
qed

lemma parse_printed_tokens:
  "list_all printable_accessor accs \<Longrightarrow> parse_value_accessors (concat (map accessor_tokens accs)) = Some accs"
proof (induction accs)
  case (Cons a accs)
  have "concat (map accessor_tokens accs) = [] \<or> hd (concat (map accessor_tokens accs)) = ValuePathSelector"
    using Cons.prems by (cases accs) (auto elim: printable_accessor.elims)
  moreover have "a \<noteq> AccessorError" "accessor_tokens a \<noteq> []" using Cons.prems by (auto elim: printable_accessor.elims)
  ultimately show ?case
    using Cons by (subst parse_value_accessors.simps) (simp add: parse_accessor_tokens)
qed (simp add: parse_value_accessors.simps)

lemma digit_char_code: "d < 10 \<Longrightarrow> (of_char (digit_char d) :: nat) = 48 + d"
  by (simp add: digit_char_def of_char_of)

lemma read_digits_show_nat: "n \<le> limit \<Longrightarrow> read_digits limit k 0 (show_nat n) = Ok n"
proof (induction n rule: less_induct)
  case (less n)
  show ?case
  proof (cases "n < 10")
    case True
    then show ?thesis
      using less.prems by (subst show_nat.simps) (simp add: byte_digit_def ascii_digit_def digit_char_code)
  next
    case False
    then have "read_digits limit k 0 (show_nat (n div 10)) = Ok (n div 10)" using less by simp
    then show ?thesis
      using False less.prems
      by (subst show_nat.simps) (simp add: read_digits_append byte_digit_def ascii_digit_def digit_char_code Let_def)
  qed
qed

lemma show_nat_digits: "list_all (\<lambda>c. ascii_digit (cp c)) (show_nat n)" "show_nat n \<noteq> []"
proof (induction n rule: less_induct)
  case (less n)
  { case 1 show ?case
      using less by (cases "n < 10"; subst show_nat.simps) (simp_all add: ascii_digit_def digit_char_code) }
  { case 2 show ?case by (subst show_nat.simps) simp }
qed

lemma show_nat_ascii: "ascii (show_nat n)"
  using show_nat_digits(1) [of n] by (fastforce simp: ascii_def list_all_iff ascii_digit_def)

lemma parse_u32_show: "parse_u32 (show_nat (unat idx)) = Ok idx"
proof -
  have "hd (show_nat (unat idx)) \<noteq> CHR ''+''" "show_nat (unat idx) \<noteq> ''+''" "show_nat (unat idx) \<noteq> ''-''"
    using show_nat_digits [of "unat idx"] by (cases "show_nat (unat idx)"; auto simp: ascii_digit_def)+
  moreover have "unat idx < u32_bound" by (rule unat_lt_u32_bound)
  then have "read_digits 4294967295 IntPosOverflow 0 (show_nat (unat idx)) = Ok (unat idx)"
    by (intro read_digits_show_nat) linarith
  ultimately show ?thesis by (simp add: parse_u32_def show_nat_digits)
qed

lemma until_loop_name:
  assumes "list_all (\<lambda>c. condition (cp c)) s" "post = [] \<or> \<not> condition (cp (hd post))"
  shows "until_loop condition e (ascii_iter p (s @ post)) = (if s = [] then e else p + length s - 1, ascii_iter (p + length s) post)"
  using assms(1)
proof (induction s arbitrary: e p)
  case Nil
  then show ?case using assms(2) by (cases post) auto
next
  case (Cons c s)
  then show ?case using Cons.IH [of p "Suc p"] by (cases s) auto
qed

lemma tokenize_until_name:
  assumes "ascii (pre @ c # s @ post)" "list_all (\<lambda>c. condition (cp c)) s" "post = [] \<or> \<not> condition (cp (hd post))"
  shows "tokenize_until (pre @ c # s @ post) (length pre) condition (ascii_iter (Suc (length pre)) (s @ post))
    = (Ok (c # s) :: (string, lambda_lexer_error) result, ascii_iter (Suc (length pre) + length s) post)"
proof -
  have "str_slice (pre @ (c # s) @ post) (length pre) (length pre + length (c # s)) = (Ok (c # s) :: (string, lambda_lexer_error) result)" using assms(1) by (intro str_slice_ascii) simp
  then show ?thesis
    using until_loop_name [OF assms(2,3), of "length pre" "Suc (length pre)"]
    by (cases s) (simp_all add: tokenize_until_def del: ascii_iter_append until_loop.simps)
qed

lemma ascii_name_chars:
  assumes "ascii_name s"
  shows "ascii s" "list_all (\<lambda>c. is_air_alphanumeric U (cp c)) s"
  using assms
  by (auto simp: ascii_name_def ascii_def list_all_iff is_air_alphanumeric_def is_alphanumeric_def ascii_digit_def ascii_letter_def)

lemma punctuation_codes [simp]:
  "\<not> is_air_alphanumeric U 91" "\<not> is_air_alphanumeric U 93" "\<not> is_air_alphanumeric U 46"
  "\<not> ascii_digit 91" "\<not> ascii_digit 93" "\<not> ascii_digit 46"
  by (simp_all add: is_air_alphanumeric_def is_alphanumeric_def ascii_digit_def ascii_letter_def)

lemma name_char_codes: "is_air_alphanumeric U c \<Longrightarrow> c \<noteq> 91 \<and> c \<noteq> 93 \<and> c \<noteq> 46"
  using punctuation_codes by metis

lemma digit_char_codes: "ascii_digit c \<Longrightarrow> c \<noteq> 91 \<and> c \<noteq> 93 \<and> c \<noteq> 46"
  by (auto simp: ascii_digit_def)

text \<open>The tokens of one printed accessor, in the middle of a text.\<close>

lemma name_token:
  assumes "ascii (pre @ s @ post)" "ascii_name s" "\<not> ascii_digit (cp (hd s))" "post = [] \<or> \<not> is_air_alphanumeric U (cp (hd post))"
  shows "lambda_tokens_rest U (pre @ s @ post) (ascii_iter (length pre) (s @ post))
    = res_then (lambda_tokens_rest U (pre @ s @ post) (ascii_iter (length pre + length s) post)) (\<lambda>ts. Ok (StringAccessor s # ts))"
proof -
  obtain c t where s: "s = c # t" using assms(2) by (cases s) (auto simp: ascii_name_def)
  have all: "is_air_alphanumeric U (cp c)" "list_all (\<lambda>c. is_air_alphanumeric U (cp c)) t"
    using ascii_name_chars(2) [OF assms(2)] s by simp_all
  have "lambda_char_token U (pre @ s @ post) (length pre) (cp c) (ascii_iter (Suc (length pre)) (t @ post))
    = (Ok (length pre, StringAccessor s, length pre + length s), ascii_iter (length pre + length s) post)"
    using tokenize_until_name [of pre c t post, OF _ all(2) assms(4)] assms(1,3) s name_char_codes [OF all(1)] all(1)
    by (simp add: lambda_char_token_def tokenize_field_name_def)
  then show ?thesis using s by simp
qed

lemma index_token:
  assumes "ascii (pre @ show_nat (unat idx) @ post)" "post = [] \<or> \<not> ascii_digit (cp (hd post))"
  shows "lambda_tokens_rest U (pre @ show_nat (unat idx) @ post) (ascii_iter (length pre) (show_nat (unat idx) @ post))
    = res_then (lambda_tokens_rest U (pre @ show_nat (unat idx) @ post) (ascii_iter (length pre + length (show_nat (unat idx))) post))
        (\<lambda>ts. Ok (NumberAccessor idx # ts))"
proof -
  obtain c t where s: "show_nat (unat idx) = c # t" using show_nat_digits(2) by (cases "show_nat (unat idx)") auto
  have all: "ascii_digit (cp c)" "list_all (\<lambda>c. ascii_digit (cp c)) t" using show_nat_digits(1) [of "unat idx"] s by simp_all
  have "lambda_char_token U (pre @ (c # t) @ post) (length pre) (cp c) (ascii_iter (Suc (length pre)) (t @ post))
    = (Ok (length pre, NumberAccessor idx, length pre + length (c # t)), ascii_iter (length pre + length (c # t)) post)"
    using tokenize_until_name [of pre c t post, OF _ all(2) assms(2)] assms(1) s digit_char_codes [OF all(1)] all(1) parse_u32_show [of idx]
    by (simp add: lambda_char_token_def tokenize_arrays_idx_def)
  then show ?thesis using s by simp
qed

lemma symbol_token [simp]:
  "lambda_char_token U input p 91 chars = (Ok (p, LOpenSquareBracket, p + 1), chars)"
  "lambda_char_token U input p 93 chars = (Ok (p, LCloseSquareBracket, p + 1), chars)"
  "lambda_char_token U input p 46 chars = (Ok (p, ValuePathSelector, p + 1), chars)"
  by (simp_all add: lambda_char_token_def)

lemma res_then_assoc: "res_then (res_then r f) g = res_then r (\<lambda>a. res_then (f a) g)"
  by (cases r) simp_all

definition accessor_text :: "value_accessor \<Rightarrow> string" where
  "accessor_text a = CHR ''.'' # show_accessor a"

lemma accessor_lexed:
  assumes "printable_accessor a" "ascii pre" "ascii post" "post = [] \<or> hd post = CHR ''.''"
  shows "lambda_tokens_rest U (pre @ accessor_text a @ post) (ascii_iter (length pre) (accessor_text a @ post))
    = res_then (lambda_tokens_rest U (pre @ accessor_text a @ post) (ascii_iter (length pre + length (accessor_text a)) post))
        (\<lambda>ts. Ok (accessor_tokens a @ ts))"
proof (cases a)
  case (FieldAccessByName s)
  then have "post = [] \<or> \<not> is_air_alphanumeric U (cp (hd post))" using assms(4) by auto
  with FieldAccessByName show ?thesis
    using assms name_token [of "pre @ ''.''" s post U] ascii_name_chars(1) [of s]
    by (simp add: accessor_text_def res_then_assoc del: ascii_iter_append)
next
  case (FieldAccessByScalar s)
  then show ?thesis
    using assms name_token [of "pre @ ''.[''" s "CHR '']'' # post" U] ascii_name_chars(1) [of s]
    by (simp add: accessor_text_def res_then_assoc del: ascii_iter_append)
next
  case (ArrayAccess idx)
  then show ?thesis
    using assms index_token [of "pre @ ''.[''" idx "CHR '']'' # post" U] show_nat_ascii [of "unat idx"]
    by (simp add: accessor_text_def res_then_assoc del: ascii_iter_append)
qed (use assms in simp)

lemma printed_ascii: "printable_accessor a \<Longrightarrow> ascii (accessor_text a)"
  by (cases a) (simp_all add: accessor_text_def ascii_name_chars(1) show_nat_ascii)

lemma accessors_lexed:
  "list_all printable_accessor accs \<Longrightarrow> ascii pre \<Longrightarrow>
     lambda_tokens_rest U (pre @ concat (map accessor_text accs)) (ascii_iter (length pre) (concat (map accessor_text accs)))
     = Ok (concat (map accessor_tokens accs))"
proof (induction accs arbitrary: pre)
  case (Cons a accs)
  let ?post = "concat (map accessor_text accs)"
  have post: "ascii ?post" "?post = [] \<or> hd ?post = CHR ''.''"
    using Cons.prems(1) printed_ascii
    by (auto simp: ascii_def list_all_iff) (cases accs, auto simp: accessor_text_def)
  have "lambda_tokens_rest U (pre @ accessor_text a @ ?post) (ascii_iter (length pre + length (accessor_text a)) ?post)
      = Ok (concat (map accessor_tokens accs))"
    using Cons.IH [of "pre @ accessor_text a"] Cons.prems printed_ascii by simp
  then show ?case using accessor_lexed [of a pre ?post U] Cons.prems post by simp
qed simp

lemma show_value_path: "accs \<noteq> [] \<Longrightarrow> show_lambda (ValuePath accs) = VALUE_PATH_STARTER @ concat (map accessor_text accs)"
proof -
  have "CHR ''.'' # join_text ''.'' (map show_accessor accs) = concat (map accessor_text accs)" if "accs \<noteq> []" for accs
    using that by (induction accs rule: induct_list012) (simp_all add: accessor_text_def)
  then show "accs \<noteq> [] \<Longrightarrow> ?thesis" by (simp add: VALUE_PATH_STARTER_def)
qed

section \<open>Properties\<close>

text \<open>C37. Parsing the text a lambda prints as gives the lambda back, for every lambda whose field and scalar names are ASCII names that do
  not start with a digit.\<close>

theorem lambda_roundtrip:
  assumes "printable_lambda l"
  shows "parse_lambda U (show_lambda l) = Ok l"
proof (cases l)
  case (Functor f)
  then show ?thesis
    by (cases f) (simp add: parse_lambda_def lambda_tokens_def LENGTH_FUNCTOR_def try_parse_first_token_def char_indices_def char_indices_ascii)
next
  case (ValuePath accs)
  let ?text = "VALUE_PATH_STARTER @ concat (map accessor_text accs)"
  have accs: "accs \<noteq> []" "list_all printable_accessor accs" using assms ValuePath by simp_all
  have "ascii ?text" using accs(2) printed_ascii by (auto simp: VALUE_PATH_STARTER_def ascii_def list_all_iff)
  moreover have "?text \<noteq> LENGTH_FUNCTOR" by (simp add: VALUE_PATH_STARTER_def LENGTH_FUNCTOR_def)
  moreover have "lambda_tokens_rest U ?text (ascii_iter 2 (concat (map accessor_text accs))) = Ok (concat (map accessor_tokens accs))"
    using accessors_lexed [OF accs(2), of VALUE_PATH_STARTER U] by (simp add: VALUE_PATH_STARTER_def numeral_2_eq_2)
  ultimately have "lambda_tokens U ?text = Ok (ValuePathStarter # concat (map accessor_tokens accs))"
    by (simp add: lambda_tokens_def try_parse_first_token_def starts_with_def char_indices_def char_indices_ascii VALUE_PATH_STARTER_def numeral_2_eq_2)
  with accs ValuePath show ?thesis
    by (simp add: parse_lambda_def show_value_path [OF accs(1)] parse_printed_tokens try_from_accessors_def del: show_lambda.simps)
qed

theorem lambda_roundtrip_witness:
  "parse_lambda \<lparr>unicode_alphanumeric = (\<lambda>_. False), unicode_numeric = (\<lambda>_. False)\<rparr>
     (show_lambda (ValuePath [ArrayAccess 10, FieldAccessByName ''field'', FieldAccessByScalar ''idx'']))
   = Ok (ValuePath [ArrayAccess 10, FieldAccessByName ''field'', FieldAccessByScalar ''idx''])"
  by (rule lambda_roundtrip) (simp add: ascii_name_def ascii_letter_def ascii_digit_def)

text \<open>C38. A lambda whose last field name ends in a letter of two bytes aborts the parser: \<^verbatim>\<open>tokenize_until\<close> ends the slice one byte
  behind the start of the last character, inside it.\<close>

theorem two_byte_field_name_panics:
  assumes "unicode_alphanumeric U (utf8_code b [b'])" "128 \<le> utf8_code b [b']"
    and "0xC0 \<le> (of_char b :: nat)" "(of_char b :: nat) < 0xE0" "is_continuation b'"
    and "list_all (\<lambda>c. ascii_letter (cp c)) name"
  shows "parse_lambda U (VALUE_PATH_STARTER @ ''.'' @ name @ [b, b']) = Panic"
proof -
  let ?text = "''.$.'' @ name @ [b, b']" and ?c = "utf8_code b [b']"
  have name: "ascii name" "list_all (\<lambda>c. is_air_alphanumeric U (cp c)) name"
    using assms(6) by (auto simp: ascii_def list_all_iff ascii_letter_def is_air_alphanumeric_def is_alphanumeric_def)
  have c: "is_air_alphanumeric U ?c" "\<not> ascii_digit ?c" using assms(1,2) by (simp_all add: is_air_alphanumeric_def is_alphanumeric_def ascii_digit_def)
  have "char_indices_from 0 ?text = ascii_iter 0 (''.$.'' @ name) @ char_indices_from (3 + length name) [b, b']"
    using char_indices_ascii_append [of "''.$.'' @ name" 0 "[b, b']"] name(1) by (simp add: numeral_3_eq_3)
  then have chars: "drop 2 (char_indices ?text) = (2, 46) # ascii_iter 3 name @ [(3 + length name, ?c)]"
    using assms(3,4) by (simp add: char_indices_def char_indices_from.simps utf8_width_def numeral_eq_Suc)
  have stop: "str_slice ?text 3 (4 + length name) = (Panic :: (string, lambda_lexer_error) result)"
    using assms(5) by (simp add: str_slice_def is_char_boundary_def nth_append numeral_eq_Suc)
  have loop: "until_loop (is_air_alphanumeric U) p (ascii_iter q s @ [(r, ?c)]) = (r, [])"
    if "list_all (\<lambda>c. is_air_alphanumeric U (cp c)) s" for p q r s
    using that c(1) by (induction s arbitrary: p q) simp_all
  have "lambda_tokens_rest U ?text (ascii_iter 3 name @ [(3 + length name, ?c)]) = Panic"
  proof (cases name)
    case Nil
    then show ?thesis
      using c name_char_codes [OF c(1)] stop by (simp add: lambda_char_token_def tokenize_field_name_def tokenize_until_def numeral_eq_Suc)
  next
    case (Cons a s)
    then have "is_air_alphanumeric U (cp a)" "\<not> ascii_digit (cp a)" "list_all (\<lambda>c. is_air_alphanumeric U (cp c)) s"
      using name(2) assms(6) by (auto simp: ascii_letter_def ascii_digit_def)
    then show ?thesis
      using name_char_codes [of U "cp a"] stop Cons loop [of s 3 4 "3 + length name"]
      by (simp add: lambda_char_token_def tokenize_field_name_def tokenize_until_def)
  qed
  then have "lambda_tokens U ?text = Panic"
    using chars by (simp add: lambda_tokens_def try_parse_first_token_def starts_with_def LENGTH_FUNCTOR_def VALUE_PATH_STARTER_def numeral_2_eq_2)
  then show ?thesis by (simp add: parse_lambda_def VALUE_PATH_STARTER_def)
qed

theorem two_byte_field_name_panics_witness:
  "parse_lambda \<lparr>unicode_alphanumeric = (\<lambda>c. c = 0xE9), unicode_numeric = (\<lambda>_. False)\<rparr>
     (VALUE_PATH_STARTER @ ''.'' @ ''caf'' @ [CHR 0xC3, CHR 0xA9]) = Panic"
  by (rule two_byte_field_name_panics) (simp_all add: utf8_code_def utf8_lead_def is_continuation_def ascii_letter_def)

end
