(* ===== verification/Air_Lexer.thy ===== *)
theory Air_Lexer
  imports Lambda_Parser
begin

text \<open>
  The lexer of scripts (\<^verbatim>\<open>air-parser/src/parser/lexer\<close>): the iteration over characters, keywords and literals, and the
  automaton that reads a number or a variable with its tags and its lambda (\<^verbatim>\<open>CallVariableParser\<close>).

  The character iterator of \<^verbatim>\<open>CallVariableParser\<close> is the argument of the loop \<open>parse_chars\<close>, not a field. Parameters, in
  \<open>front_ops\<close>: the Unicode tables, the reading of a float by the standard library (the JSON value it converts to and its text) and the
  text of a lambda error. Bracket counters are unbounded: a text with \<open>2 ^ 63\<close> brackets does not fit into memory.
\<close>

section \<open>Tokens\<close>

record 'n front_ops =
  unicode :: char_ops
  parse_f64 :: "string \<Rightarrow> string + 'n jvalue \<times> string"
  lambda_error_text :: "lambda_parser_error \<Rightarrow> string"

datatype 'n token =
    TOpenRoundBracket
  | TCloseRoundBracket
  | TOpenSquareBracket
  | TCloseSquareBracket
  | TScalar string air_pos
  | TScalarWithLambda string lambda_ast air_pos
  | TStream string air_pos
  | TStreamWithLambda string lambda_ast air_pos
  | TStreamMapWithLambda string lambda_ast air_pos
  | TCanonStream string air_pos
  | TCanonStreamWithLambda string lambda_ast air_pos
  | TStreamMap string air_pos
  | TCanonStreamMap string air_pos
  | TCanonStreamMapWithLambda string lambda_ast air_pos
  | TStringLiteral string
  | TI64 int
  | TF64 "'n jvalue" string
  | TBoolean bool
  | TInitPeerId
  | TLastError
  | TError
  | TLastErrorWithLambda lambda_ast
  | TErrorWithLambda lambda_ast
  | TTimestamp
  | TTTL
  | TCall
  | TCanon
  | TAp
  | TSeq
  | TPar
  | TFail
  | TFold
  | TXor
  | TNever
  | TNew
  | TNext
  | TNull
  | TMatch
  | TMisMatch

datatype lexer_error =
    UnclosedQuote air_span
  | EmptyString air_span
  | IsNotAlphanumeric air_span
  | EmptyTaggedName air_span
  | EmptyCanonName air_span
  | EmptyVariableOrConst air_span
  | InvalidLambda air_span
  | UnallowedCharInNumber air_span
  | LexParseIntError air_span int_error_kind
  | LexParseFloatError air_span string
  | LexLambdaParserError air_span string
  | LastErrorPathError air_span string
  | TooBigFloat air_span
  | LeadingDot air_span

fun lexer_error_span :: "lexer_error \<Rightarrow> air_span" where
  "lexer_error_span (UnclosedQuote span) = span"
| "lexer_error_span (EmptyString span) = span"
| "lexer_error_span (IsNotAlphanumeric span) = span"
| "lexer_error_span (EmptyTaggedName span) = span"
| "lexer_error_span (EmptyCanonName span) = span"
| "lexer_error_span (EmptyVariableOrConst span) = span"
| "lexer_error_span (InvalidLambda span) = span"
| "lexer_error_span (UnallowedCharInNumber span) = span"
| "lexer_error_span (LexParseIntError span _) = span"
| "lexer_error_span (LexParseFloatError span _) = span"
| "lexer_error_span (LexLambdaParserError span _) = span"
| "lexer_error_span (LastErrorPathError span _) = span"
| "lexer_error_span (TooBigFloat span) = span"
| "lexer_error_span (LeadingDot span) = span"

text \<open>A range of positions as a span.\<close>

definition span_of :: "air_pos \<Rightarrow> air_pos \<Rightarrow> air_span" where
  "span_of l r = \<lparr>span_left = l, span_right = r\<rparr>"

definition is_lens_allowed_char :: "char_ops \<Rightarrow> code_point \<Rightarrow> bool" where
  "is_lens_allowed_char U c \<longleftrightarrow> c \<in> set (map cp (''$@[]():?.*,'' @ [CHR 0x22, CHR 0x27])) \<or> is_air_alphanumeric U c"

section \<open>Tags\<close>

datatype met_tag = NoTag | StreamTag | StreamMapTag | CanonTag | CanonStreamTag | CanonStreamMapTag

definition from_tag :: "code_point \<Rightarrow> met_tag" where
  "from_tag c = (if c = cp CHR ''$'' then StreamTag else if c = cp CHR ''#'' then CanonTag
     else if c = cp CHR ''%'' then StreamMapTag else NoTag)"

definition deduce_tag :: "met_tag \<Rightarrow> code_point \<Rightarrow> met_tag" where
  "deduce_tag self c = (if c = cp CHR ''$'' \<and> self = CanonTag then CanonStreamTag
     else if c = cp CHR ''%'' then CanonStreamMapTag else self)"

definition is_canon_type :: "met_tag \<Rightarrow> bool" where
  "is_canon_type self \<longleftrightarrow> self = CanonStreamTag \<or> self = CanonStreamMapTag"

definition is_tag :: "met_tag \<Rightarrow> bool" where
  "is_tag self \<longleftrightarrow> self \<noteq> NoTag"

section \<open>Variables and numbers\<close>

record parser_state =
  first_dot_met_pos :: "nat option"
  non_numeric_met :: bool
  digit_met :: bool
  flattening_met :: bool
  met_tag_of :: met_tag
  is_first_char :: bool
  current_char :: code_point
  current_offset :: nat

record call_variable_parser = parser_state +
  string_to_parse :: string
  start_pos_of :: air_pos

type_synonym 'a cvp = "(call_variable_parser, 'a, lexer_error) comp"

definition pos_in_string_to_parse :: "call_variable_parser \<Rightarrow> air_pos" where
  "pos_in_string_to_parse self = start_pos_of self + current_offset self"

definition error_here :: "(air_span \<Rightarrow> lexer_error) \<Rightarrow> 'a cvp" where
  "error_here e = (\<lambda>self. (Err (e (span_of (pos_in_string_to_parse self) (pos_in_string_to_parse self))), self))"

definition dot_met :: "call_variable_parser \<Rightarrow> bool" where
  "dot_met self \<longleftrightarrow> first_dot_met_pos self \<noteq> None"

definition is_possible_to_parse_as_number :: "call_variable_parser \<Rightarrow> bool" where
  "is_possible_to_parse_as_number self \<longleftrightarrow> \<not> non_numeric_met self"

definition try_parse_as_sign :: "call_variable_parser \<Rightarrow> bool" where
  "try_parse_as_sign self \<longleftrightarrow> is_first_char self \<and> (current_char self = cp CHR ''-'' \<or> current_char self = cp CHR ''+'')"

definition try_parse_as_digit :: "char_ops \<Rightarrow> bool cvp" where
  "try_parse_as_digit U =
     and_then (gets (\<lambda>self. is_numeric U (current_char self))) (\<lambda>numeric.
     if numeric then and_then (modify (digit_met_update (\<lambda>_. True))) (\<lambda>_. ret True) else ret False)"

definition try_parse_first_met_dot :: "bool cvp" where
  "try_parse_first_met_dot = (\<lambda>self.
     if \<not> dot_met self \<and> current_char self = cp CHR ''.'' then
       if current_offset self = 0 then (Err (LeadingDot (span_of (start_pos_of self) (pos_in_string_to_parse self))), self)
       else if is_tag (met_tag_of self) \<and> current_offset self \<le> 2 then
         (let prev_pos = pos_in_string_to_parse self - 1 in (Err (EmptyCanonName (span_of prev_pos prev_pos)), self))
       else (Ok True, self\<lparr>first_dot_met_pos := Some (current_offset self)\<rparr>)
     else (Ok False, self))"

definition try_parse_as_float_dot :: "bool cvp" where
  "try_parse_as_float_dot =
     and_then try_parse_first_met_dot (\<lambda>is_first_dot.
     and_then (gets digit_met) (\<lambda>digit.
     if is_first_dot \<and> \<not> digit then error_here LeadingDot else ret is_first_dot))"

definition try_parse_as_stream :: "bool cvp" where
  "try_parse_as_stream = (\<lambda>self.
     let tag = from_tag (current_char self) in
     if current_offset self = 0 \<and> is_tag tag then
       if length (string_to_parse self) = 1 then error_here EmptyTaggedName self
       else (Ok True, self\<lparr>met_tag_of := tag\<rparr>)
     else (Ok False, self))"

definition try_parse_as_canon :: "bool cvp" where
  "try_parse_as_canon = (\<lambda>self.
     let tag = deduce_tag (met_tag_of self) (current_char self) in
     if current_offset self = 1 \<and> is_canon_type tag then
       if length (string_to_parse self) = 2 \<and> is_tag tag then error_here EmptyCanonName self
       else (Ok True, self\<lparr>met_tag_of := tag\<rparr>)
     else (Ok False, self))"

definition try_parse_as_alphanumeric :: "char_ops \<Rightarrow> unit cvp" where
  "try_parse_as_alphanumeric U = (\<lambda>self.
     if \<not> is_air_alphanumeric U (current_char self) then error_here IsNotAlphanumeric self else (Ok (), self))"

definition is_last_char :: "call_variable_parser \<Rightarrow> bool" where
  "is_last_char self \<longleftrightarrow> current_offset self = length (string_to_parse self) - 1"

definition try_parse_as_flattening :: "bool cvp" where
  "try_parse_as_flattening = (\<lambda>self.
     if is_last_char self \<and> current_char self = cp CHR ''!'' then (Ok True, self\<lparr>flattening_met := True\<rparr>) else (Ok False, self))"

definition try_parse_as_lens :: "char_ops \<Rightarrow> unit cvp" where
  "try_parse_as_lens U =
     and_then (gets (\<lambda>self. is_lens_allowed_char U (current_char self))) (\<lambda>allowed.
     if allowed then ret ()
     else and_then try_parse_as_flattening (\<lambda>flattening. if \<not> flattening then error_here InvalidLambda else ret ()))"

definition try_parse_as_variable :: "char_ops \<Rightarrow> unit cvp" where
  "try_parse_as_variable U =
     and_then try_parse_as_canon (\<lambda>canon.
     if canon then ret () else
     and_then try_parse_as_stream (\<lambda>stream.
     if stream then ret () else
     and_then try_parse_first_met_dot (\<lambda>lens_start.
     if lens_start then ret () else
     and_then (gets dot_met) (\<lambda>lens_started.
     if lens_started then try_parse_as_lens U else try_parse_as_alphanumeric U))))"

definition check_fallback_to_variable :: "unit cvp" where
  "check_fallback_to_variable = (\<lambda>self. if dot_met self then error_here UnallowedCharInNumber self else (Ok (), self))"

definition handle_non_digit :: "char_ops \<Rightarrow> unit cvp" where
  "handle_non_digit U =
     and_then check_fallback_to_variable (\<lambda>_.
     and_then (modify (non_numeric_met_update (\<lambda>_. True))) (\<lambda>_.
     try_parse_as_variable U))"

definition try_parse_as_number :: "char_ops \<Rightarrow> unit cvp" where
  "try_parse_as_number U =
     and_then (gets try_parse_as_sign) (\<lambda>sign.
     if sign then ret () else
     and_then (try_parse_as_digit U) (\<lambda>digit.
     if digit then ret () else
     and_then try_parse_as_float_dot (\<lambda>dot.
     if dot then ret () else handle_non_digit U)))"

definition parse_current_char :: "char_ops \<Rightarrow> unit cvp" where
  "parse_current_char U =
     and_then (gets is_possible_to_parse_as_number) (\<lambda>number.
     if number then try_parse_as_number U else try_parse_as_variable U)"

definition next_char :: "nat \<Rightarrow> code_point \<Rightarrow> call_variable_parser \<Rightarrow> call_variable_parser" where
  "next_char pos ch self = self\<lparr>current_char := ch, current_offset := pos, is_first_char := False\<rparr>"

fun parse_chars :: "char_ops \<Rightarrow> char_iter \<Rightarrow> unit cvp" where
  "parse_chars U [] = parse_current_char U"
| "parse_chars U ((pos, ch) # iter) =
     and_then (parse_current_char U) (\<lambda>_.
     and_then (modify (next_char pos ch)) (\<lambda>_.
     parse_chars U iter))"

definition to_variable_token :: "call_variable_parser \<Rightarrow> string \<Rightarrow> 'n token" where
  "to_variable_token self name =
     (case met_tag_of self of
        NoTag \<Rightarrow> TScalar name (start_pos_of self)
      | StreamTag \<Rightarrow> TStream name (start_pos_of self)
      | CanonStreamTag \<Rightarrow> TCanonStream name (start_pos_of self)
      | CanonTag \<Rightarrow> TCanonStream name (start_pos_of self)
      | CanonStreamMapTag \<Rightarrow> TCanonStreamMap name (start_pos_of self)
      | StreamMapTag \<Rightarrow> TStreamMap name (start_pos_of self))"

definition to_variable_token_with_lambda :: "call_variable_parser \<Rightarrow> string \<Rightarrow> lambda_ast \<Rightarrow> 'n token" where
  "to_variable_token_with_lambda self name lambda =
     (case met_tag_of self of
        NoTag \<Rightarrow> TScalarWithLambda name lambda (start_pos_of self)
      | StreamTag \<Rightarrow> TStreamWithLambda name lambda (start_pos_of self)
      | CanonStreamTag \<Rightarrow> TCanonStreamWithLambda name lambda (start_pos_of self)
      | CanonTag \<Rightarrow> TCanonStreamWithLambda name lambda (start_pos_of self)
      | CanonStreamMapTag \<Rightarrow> TCanonStreamMapWithLambda name lambda (start_pos_of self)
      | StreamMapTag \<Rightarrow> TStreamMapWithLambda name lambda (start_pos_of self))"

definition try_to_variable_and_lambda :: "'n front_ops \<Rightarrow> call_variable_parser \<Rightarrow> nat \<Rightarrow> ('n token, lexer_error) result" where
  "try_to_variable_and_lambda F self lambda_start_offset =
     (let s = string_to_parse self; start = start_pos_of self in
      res_then (str_slice s lambda_start_offset (length s)) (\<lambda>text.
      res_then (res_map_err (\<lambda>e. LexLambdaParserError (span_of (start + lambda_start_offset) (start + length s)) (lambda_error_text F e))
        (parse_lambda (unicode F) text)) (\<lambda>lambda.
      res_then (str_slice s 0 lambda_start_offset) (\<lambda>name.
      Ok (to_variable_token_with_lambda self name lambda)))))"

definition try_to_i64 :: "call_variable_parser \<Rightarrow> ('n token, lexer_error) result" where
  "try_to_i64 self =
     (let s = string_to_parse self; start = start_pos_of self in
      res_then (res_map_err (LexParseIntError (span_of start (start + length s))) (parse_i64 s)) (\<lambda>n. Ok (TI64 n)))"

definition SAFE_FLOAT_SIGNIFICAND_SIZE :: nat where
  "SAFE_FLOAT_SIGNIFICAND_SIZE = 11"

definition try_to_f64 :: "'n front_ops \<Rightarrow> call_variable_parser \<Rightarrow> ('n token, lexer_error) result" where
  "try_to_f64 F self =
     (let s = string_to_parse self; start = start_pos_of self; span = span_of start (start + length s) in
      if SAFE_FLOAT_SIGNIFICAND_SIZE < length s then Err (TooBigFloat span)
      else case parse_f64 F s of Inl e \<Rightarrow> Err (LexParseFloatError span e) | Inr (v, text) \<Rightarrow> Ok (TF64 v text))"

definition to_token :: "'n front_ops \<Rightarrow> call_variable_parser \<Rightarrow> ('n token, lexer_error) result" where
  "to_token F self =
     (case (is_possible_to_parse_as_number self, first_dot_met_pos self) of
        (True, None) \<Rightarrow> try_to_i64 self
      | (True, Some _) \<Rightarrow> try_to_f64 F self
      | (False, None) \<Rightarrow> Ok (to_variable_token self (string_to_parse self))
      | (False, Some lambda_start_offset) \<Rightarrow> try_to_variable_and_lambda F self lambda_start_offset)"

definition parser_new :: "string \<Rightarrow> air_pos \<Rightarrow> nat \<Rightarrow> code_point \<Rightarrow> call_variable_parser" where
  "parser_new s start pos ch = \<lparr>first_dot_met_pos = None, non_numeric_met = False, digit_met = False, flattening_met = False,
     met_tag_of = NoTag, is_first_char = True, current_char = ch, current_offset = pos, string_to_parse = s, start_pos_of = start\<rparr>"

definition try_parse_call_variable :: "'n front_ops \<Rightarrow> string \<Rightarrow> air_pos \<Rightarrow> ('n token, lexer_error) result" where
  "try_parse_call_variable F s start =
     (case char_indices s of
        [] \<Rightarrow> Err (EmptyVariableOrConst (span_of start start))
      | (pos, ch) # iter \<Rightarrow>
          (case parse_chars (unicode F) iter (parser_new s start pos ch) of
             (r, self) \<Rightarrow> res_then r (\<lambda>_. to_token F self)))"

section \<open>Keywords\<close>

definition INIT_PEER_ID :: string where
  "INIT_PEER_ID = ''%init_peer_id%''"

definition TIMESTAMP :: string where
  "TIMESTAMP = ''%timestamp%''"

definition TTL :: string where
  "TTL = ''%ttl%''"

text \<open>The keywords of \<^verbatim>\<open>string_to_token\<close> with their tokens; none of them starts with \<^verbatim>\<open>:error:\<close> or \<^verbatim>\<open>%last_error%\<close>.\<close>

definition keywords_table :: "(string \<times> 'n token) list" where
  "keywords_table = [(''call'', TCall), (''canon'', TCanon), (''ap'', TAp), (''seq'', TSeq), (''par'', TPar), (''fail'', TFail),
     (''fold'', TFold), (''xor'', TXor), (''never'', TNever), (''new'', TNew), (''next'', TNext), (''null'', TNull),
     (''match'', TMatch), (''mismatch'', TMisMatch), (INIT_PEER_ID, TInitPeerId), (TIMESTAMP, TTimestamp), (TTL, TTTL),
     (''true'', TBoolean True), (''false'', TBoolean False)]"

definition parse_error ::
    "'n front_ops \<Rightarrow> string \<Rightarrow> air_pos \<Rightarrow> string \<Rightarrow> 'n token \<Rightarrow> (lambda_ast \<Rightarrow> 'n token) \<Rightarrow> ('n token, lexer_error) result" where
  "parse_error F input start token_str token_wo_lens with_lens =
     (let token_wo_lens_len = length token_str in
      if length input = token_wo_lens_len then Ok token_wo_lens
      else if length input \<le> token_wo_lens_len then
        Err (LexLambdaParserError (span_of (start + token_wo_lens_len) (start + length input))
          ''lambda AST applied to last error has not enough size'')
      else
        res_then (str_slice input token_wo_lens_len (length input)) (\<lambda>text.
        res_then (res_map_err (\<lambda>e. LexLambdaParserError (span_of (start + token_wo_lens_len) (start + length input))
          (lambda_error_text F e)) (parse_lambda (unicode F) text)) (\<lambda>lens.
        Ok (with_lens lens))))"

definition string_to_token :: "'n front_ops \<Rightarrow> string \<Rightarrow> air_pos \<Rightarrow> ('n token, lexer_error) result" where
  "string_to_token F input start =
     (if input = [] then Err (EmptyString (span_of start start))
      else case map_of keywords_table input of
        Some token \<Rightarrow> Ok token
      | None \<Rightarrow>
          if starts_with input ERROR then parse_error F input start ERROR TError TErrorWithLambda
          else if starts_with input LAST_ERROR then parse_error F input start LAST_ERROR TLastError TLastErrorWithLambda
          else try_parse_call_variable F input start)"

section \<open>The lexer\<close>

type_synonym 'n spanned = "air_pos \<times> 'n token \<times> air_pos"

fun skip_comment :: "char_iter \<Rightarrow> char_iter" where
  "skip_comment [] = []"
| "skip_comment ((_, ch) # chars) = (if ch = 10 then chars else skip_comment chars)"

text \<open>The loop of \<^verbatim>\<open>tokenize_string_literal\<close>: the position of the closing quote.\<close>

fun find_quote :: "char_iter \<Rightarrow> nat option \<times> char_iter" where
  "find_quote [] = (None, [])"
| "find_quote ((pos, ch) # chars) = (if ch = 0x22 then (Some pos, chars) else find_quote chars)"

definition tokenize_string_literal ::
    "string \<Rightarrow> air_pos \<Rightarrow> char_iter \<Rightarrow> ('n spanned, lexer_error) result \<times> char_iter" where
  "tokenize_string_literal input start chars =
     (case find_quote chars of
        (Some pos, chars) \<Rightarrow>
          (let string_size = pos - start + 1 in
           (res_then (str_slice input (start + 1) pos) (\<lambda>s. Ok (start, TStringLiteral s, start + string_size)), chars))
      | (None, chars) \<Rightarrow> (Err (UnclosedQuote (span_of start (length input))), chars))"

definition update_brackets_count :: "code_point \<Rightarrow> int \<times> int \<Rightarrow> int \<times> int" where
  "update_brackets_count ch = (\<lambda>(round_brackets_balance, square_brackets_balance).
     if ch = cp CHR ''('' then (round_brackets_balance + 1, square_brackets_balance)
     else if ch = cp CHR '')'' then (round_brackets_balance - 1, square_brackets_balance)
     else if ch = cp CHR ''['' then (round_brackets_balance, square_brackets_balance + 1)
     else if ch = cp CHR '']'' then (round_brackets_balance, square_brackets_balance - 1)
     else (round_brackets_balance, square_brackets_balance))"

definition should_stop :: "code_point \<Rightarrow> int \<times> int \<Rightarrow> bool" where
  "should_stop ch = (\<lambda>(round_brackets_balance, open_square_brackets_balance).
     is_whitespace ch \<or> round_brackets_balance < 0 \<or> open_square_brackets_balance < 0)"

fun token_end_loop :: "nat \<Rightarrow> int \<times> int \<Rightarrow> char_iter \<Rightarrow> nat \<times> char_iter" where
  "token_end_loop end_offset balance [] = (end_offset, [])"
| "token_end_loop end_offset balance ((pos, ch) # chars) =
     (let balance = update_brackets_count ch balance in
      if should_stop ch balance then (pos, (pos, ch) # chars) else token_end_loop pos balance chars)"

definition advance_to_token_end :: "string \<Rightarrow> air_pos \<Rightarrow> bool \<Rightarrow> char_iter \<Rightarrow> air_pos \<times> char_iter" where
  "advance_to_token_end input start square_met chars =
     (case token_end_loop start (0, if square_met then 1 else 0) chars of
        (end_offset, chars) \<Rightarrow> (if chars = [] then length input else end_offset, chars))"

definition tokenize_string ::
    "'n front_ops \<Rightarrow> string \<Rightarrow> air_pos \<Rightarrow> bool \<Rightarrow> char_iter \<Rightarrow> ('n spanned, lexer_error) result \<times> char_iter" where
  "tokenize_string F input start open_square_bracket_met chars =
     (case advance_to_token_end input start open_square_bracket_met chars of
        (end_offset, chars) \<Rightarrow>
          (res_then (str_slice input start end_offset) (\<lambda>token_str.
           res_then (string_to_token F token_str start) (\<lambda>token.
           let token_str_len = end_offset - start in
           Ok (start, token, start + token_str_len))), chars))"

lemma skip_comment_shorter: "length (skip_comment chars) \<le> length chars"
  by (induction chars rule: skip_comment.induct) auto

lemma find_quote_shorter: "length (snd (find_quote chars)) \<le> length chars"
  by (induction chars rule: find_quote.induct) auto

lemma token_end_shorter: "length (snd (token_end_loop e b chars)) \<le> length chars"
  by (induction e b chars rule: token_end_loop.induct) (auto simp: Let_def)

text \<open>What \<^verbatim>\<open>next_token\<close> does with a character that starts a token.\<close>

definition start_token ::
    "'n front_ops \<Rightarrow> string \<Rightarrow> air_pos \<Rightarrow> code_point \<Rightarrow> char_iter \<Rightarrow> ('n spanned, lexer_error) result \<times> char_iter" where
  "start_token F input start ch chars =
     (if ch = cp CHR ''('' then (Ok (start, TOpenRoundBracket, start + 1), chars)
      else if ch = cp CHR '')'' then (Ok (start, TCloseRoundBracket, start + 1), chars)
      else if ch = cp CHR ''['' then (Ok (start, TOpenSquareBracket, start + 1), chars)
      else if ch = cp CHR '']'' then (Ok (start, TCloseSquareBracket, start + 1), chars)
      else if ch = 0x22 then tokenize_string_literal input start chars
      else tokenize_string F input start False chars)"

lemma start_token_shorter: "length (snd (start_token F input start ch chars)) \<le> length chars"
  using find_quote_shorter [of chars] token_end_shorter [of start "(0, 0)" chars]
  by (auto simp: start_token_def tokenize_string_literal_def tokenize_string_def advance_to_token_end_def Let_def
      split: prod.splits option.splits)

text \<open>All tokens, up to the first failure: the parser pulls one after the other.\<close>

function lex_chars :: "'n front_ops \<Rightarrow> string \<Rightarrow> char_iter \<Rightarrow> ('n spanned list, lexer_error) result" where
  "lex_chars F input [] = Ok []"
| "lex_chars F input ((start, ch) # chars) =
     (if ch = cp CHR '';'' then lex_chars F input (skip_comment chars)
      else if is_whitespace ch then lex_chars F input chars
      else case start_token F input start ch chars of
        (Ok t, chars') \<Rightarrow> res_then (lex_chars F input chars') (\<lambda>ts. Ok (t # ts))
      | (Err e, _) \<Rightarrow> Err e
      | (Panic, _) \<Rightarrow> Panic)"
  by pat_completeness auto
termination
  by (relation "measure (\<lambda>(_, _, chars). length chars)")
    (auto dest!: arg_cong [where f = snd] simp: less_Suc_eq_le intro: order.trans [OF _ start_token_shorter] skip_comment_shorter)

definition lex :: "'n front_ops \<Rightarrow> string \<Rightarrow> ('n spanned list, lexer_error) result" where
  "lex F input = lex_chars F input (char_indices input)"

section \<open>Positions\<close>

text \<open>The characters left have increasing offsets from \<open>lo\<close> up to the length \<open>n\<close> of the text.\<close>

fun offsets_from :: "nat \<Rightarrow> nat \<Rightarrow> char_iter \<Rightarrow> bool" where
  "offsets_from lo n [] \<longleftrightarrow> True"
| "offsets_from lo n ((pos, _) # chars) \<longleftrightarrow> lo \<le> pos \<and> pos < n \<and> offsets_from (Suc pos) n chars"

lemma offsets_from_mono: "offsets_from lo n chars \<Longrightarrow> lo' \<le> lo \<Longrightarrow> offsets_from lo' n chars"
  by (cases chars) (auto simp: split_paired_all)

lemma char_indices_offsets: "offsets_from p (p + length s) (char_indices_from p s)"
proof (induction p s rule: char_indices_from.induct)
  case (2 p c cs)
  let ?w = "utf8_width (of_char c)"
  have w: "1 \<le> ?w" by (simp add: utf8_width_def)
  show ?case
  proof (cases "?w - 1 < length cs")
    case True
    then have "p + ?w + length (drop (?w - 1) cs) = p + length (c # cs)" using w by simp
    with 2 w show ?thesis by (simp add: char_indices_from.simps Let_def offsets_from_mono)
  qed (simp add: char_indices_from.simps Let_def)
qed (simp add: char_indices_from.simps)

lemma skip_comment_offsets: "offsets_from lo n chars \<Longrightarrow> offsets_from lo n (skip_comment chars)"
proof (induction chars arbitrary: lo rule: skip_comment.induct)
  case (2 pos ch chars)
  then have "offsets_from lo n chars" by (auto intro: offsets_from_mono)
  with 2 show ?case by simp
qed simp

lemma find_quote_offsets:
  "offsets_from lo n chars \<Longrightarrow> find_quote chars = (Some pos, chars') \<Longrightarrow> lo \<le> pos \<and> pos < n \<and> offsets_from (Suc pos) n chars'"
  by (induction chars arbitrary: lo rule: find_quote.induct) (fastforce split: if_splits)+

lemma token_end_offsets:
  assumes "offsets_from lo n chars" "token_end_loop e b chars = (e', chars')"
  shows "offsets_from lo n chars' \<and> (chars' \<noteq> [] \<longrightarrow> lo \<le> e' \<and> e' < n \<and> offsets_from e' n chars')"
  using assms
proof (induction e b chars arbitrary: lo rule: token_end_loop.induct)
  case (2 e b pos ch chars)
  then have rest: "offsets_from lo n chars" by (auto intro: offsets_from_mono)
  show ?case
  proof (cases "should_stop ch (update_brackets_count ch b)")
    case True
    then show ?thesis using 2(2,3) by (auto simp: Let_def)
  next
    case False
    then show ?thesis using 2(1) [OF refl False rest] 2(3) by (simp add: Let_def)
  qed
qed simp

fun spans_ordered :: "nat \<Rightarrow> nat \<Rightarrow> 'n spanned list \<Rightarrow> bool" where
  "spans_ordered lo n [] \<longleftrightarrow> True"
| "spans_ordered lo n ((l, _, r) # ts) \<longleftrightarrow> lo \<le> l \<and> l < r \<and> r \<le> n \<and> spans_ordered r n ts"

lemma spans_ordered_mono: "spans_ordered lo n ts \<Longrightarrow> lo' \<le> lo \<Longrightarrow> spans_ordered lo' n ts"
  by (cases ts) (auto simp: split_paired_all)

lemma start_token_offsets:
  assumes "start_token F input start ch chars = (Ok (l, t, r), chars')" "offsets_from (Suc start) (length input) chars" "start < length input"
  shows "l = start \<and> start < r \<and> r \<le> length input \<and> offsets_from r (length input) chars'"
proof -
  have literal: ?thesis if "tokenize_string_literal input start chars = (Ok (l, t, r), chars')"
  proof -
    from that obtain pos s where "find_quote chars = (Some pos, chars')" "l = start" "r = start + (pos - start + 1)"
      by (auto simp: tokenize_string_literal_def Let_def str_slice_def split: prod.splits option.splits if_splits)
    then show ?thesis using find_quote_offsets [OF assms(2)] by auto
  qed
  have word: ?thesis if "tokenize_string F input start False chars = (Ok (l, t, r), chars')"
  proof -
    obtain e c where e: "token_end_loop start (0, 0) chars = (e, c)" by (meson surj_pair)
    define e' where "e' = (if c = [] then length input else e)"
    from that e have "c = chars'" "l = start" "r = start + (e' - start)"
      by (auto simp: tokenize_string_def advance_to_token_end_def Let_def e'_def res_then_Ok split: prod.splits if_splits)
    then show ?thesis using token_end_offsets [OF assms(2) e] assms(3) by (auto simp: e'_def intro: offsets_from_mono)
  qed
  show ?thesis
    using assms literal word by (auto simp: start_token_def split: if_splits)
qed

lemma lex_chars_ordered:
  "lex_chars F input chars = Ok ts \<Longrightarrow> offsets_from lo (length input) chars \<Longrightarrow> spans_ordered lo (length input) ts"
proof (induction F input chars arbitrary: lo ts rule: lex_chars.induct)
  case (2 F input start ch chars)
  show ?case
  proof (cases "ch = cp CHR '';'' \<or> is_whitespace ch")
    case True
    have "offsets_from lo (length input) chars" using 2(5) by (auto intro: offsets_from_mono)
    with True show ?thesis using 2(1,2,4) skip_comment_offsets by (cases "ch = cp CHR '';''") simp_all
  next
    case False
    then obtain l t r chars' ts' where s: "start_token F input start ch chars = (Ok (l, t, r), chars')"
      "lex_chars F input chars' = Ok ts'" "ts = (l, t, r) # ts'"
      using 2(4) by (auto simp: res_then_Ok split: prod.splits result.splits)
    have o: "l = start \<and> start < r \<and> r \<le> length input \<and> offsets_from r (length input) chars'"
      using start_token_offsets [OF s(1)] 2(5) by simp
    then have "spans_ordered r (length input) ts'" using 2(3) False s by simp
    with o s(3) 2(5) show ?thesis by simp
  qed
qed simp

section \<open>Names\<close>

lemma name_code_cases: "is_air_alphanumeric U c \<Longrightarrow> c \<noteq> 46 \<and> c \<noteq> 36 \<and> c \<noteq> 37 \<and> c \<noteq> 35"
  by (auto simp: is_air_alphanumeric_def is_alphanumeric_def ascii_digit_def ascii_letter_def)

text \<open>Once the automaton reads a variable and has no dot, characters of a name leave it as it is.\<close>

lemma name_char_kept:
  assumes "non_numeric_met self" "first_dot_met_pos self = None" "is_air_alphanumeric U (current_char self)" "2 \<le> current_offset self"
  shows "parse_current_char U self = (Ok (), self)"
  using assms name_code_cases [OF assms(3)]
  by (simp add: parse_current_char_def is_possible_to_parse_as_number_def try_parse_as_variable_def and_then_def try_parse_as_canon_def
      deduce_tag_def is_canon_type_def try_parse_as_stream_def from_tag_def is_tag_def try_parse_first_met_dot_def dot_met_def
      try_parse_as_alphanumeric_def Let_def)

lemma name_chars_kept:
  assumes "non_numeric_met self" "first_dot_met_pos self = None" "is_air_alphanumeric U (current_char self)" "2 \<le> current_offset self"
    and "list_all (\<lambda>c. is_air_alphanumeric U (cp c)) s" "current_offset self < p"
  shows "\<exists>self'. parse_chars U (ascii_iter p s) self = (Ok (), self') \<and> non_numeric_met self' \<and> first_dot_met_pos self' = None
    \<and> met_tag_of self' = met_tag_of self \<and> string_to_parse self' = string_to_parse self \<and> start_pos_of self' = start_pos_of self"
  using assms
proof (induction s arbitrary: self p)
  case (Cons c s)
  have "\<exists>self'. parse_chars U (ascii_iter (Suc p) s) (next_char p (cp c) self) = (Ok (), self') \<and> non_numeric_met self'
      \<and> first_dot_met_pos self' = None \<and> met_tag_of self' = met_tag_of (next_char p (cp c) self)
      \<and> string_to_parse self' = string_to_parse (next_char p (cp c) self) \<and> start_pos_of self' = start_pos_of (next_char p (cp c) self)"
    using Cons.prems by (intro Cons.IH) (simp_all add: next_char_def)
  then show ?case using name_char_kept [OF Cons.prems(1-4)] by (simp add: and_then_def next_char_def)
qed (simp add: name_char_kept)

section \<open>Examples\<close>

definition example_front :: "int front_ops" where
  "example_front = \<lparr>unicode = \<lparr>unicode_alphanumeric = (\<lambda>c. c = 0xE9), unicode_numeric = (\<lambda>_. False)\<rparr>,
     parse_f64 = (\<lambda>s. Inl ''no floats''), lambda_error_text = (\<lambda>_. ''lambda'')\<rparr>"

lemmas lex_eval = lex_def char_indices_def char_indices_ascii start_token_def tokenize_string_literal_def tokenize_string_def
  advance_to_token_end_def update_brackets_count_def should_stop_def is_whitespace_def str_slice_def is_char_boundary_def
  is_continuation_def string_to_token_def keywords_table_def starts_with_def ERROR_def LAST_ERROR_def INIT_PEER_ID_def TIMESTAMP_def TTL_def
  try_parse_call_variable_def parser_new_def parse_current_char_def is_possible_to_parse_as_number_def try_parse_as_number_def
  try_parse_as_sign_def try_parse_as_digit_def is_numeric_def ascii_digit_def try_parse_as_float_dot_def try_parse_first_met_dot_def
  dot_met_def handle_non_digit_def check_fallback_to_variable_def try_parse_as_variable_def try_parse_as_canon_def deduce_tag_def
  is_canon_type_def try_parse_as_stream_def from_tag_def is_tag_def try_parse_as_alphanumeric_def is_air_alphanumeric_def is_alphanumeric_def
  ascii_letter_def next_char_def to_token_def to_variable_token_def and_then_def Let_def

lemma example_lexed:
  "lex example_front ''(next i)'' = Ok [(0, TOpenRoundBracket, 1), (1, TNext, 5), (6, TScalar ''i'' 6, 7), (7, TCloseRoundBracket, 8)]"
  by (simp add: lex_eval)

section \<open>Properties\<close>

text \<open>C39. The tokens of a script cover parts of its text that follow one another: each ends behind its start and at or before the start
  of the next one, and the last one inside the text.\<close>

theorem lex_positions:
  assumes "lex F input = Ok ts"
  shows "spans_ordered 0 (length input) ts"
  using assms lex_chars_ordered [of F input "char_indices input" ts 0] char_indices_offsets [of 0 input]
  by (simp add: lex_def char_indices_def)

theorem lex_positions_witness:
  "lex example_front ''(next i)'' = Ok [(0, TOpenRoundBracket, 1), (1, TNext, 5), (6, TScalar ''i'' 6, 7), (7, TCloseRoundBracket, 8)]
   \<and> spans_ordered 0 8 [(0, TOpenRoundBracket :: int token, 1), (1, TNext, 5), (6, TScalar ''i'' 6, 7), (7, TCloseRoundBracket, 8)]"
  using lex_positions [OF example_lexed] example_lexed by simp

text \<open>C40. The second character decides the kind of a variable also when the first one is no tag: a name of a letter, a percent sign and
  further characters, with neither a tag nor a canon tag in front, is read as a canonicalized stream map.\<close>

theorem percent_name_is_canon_map:
  assumes "ascii_letter (cp a)" "ascii_name s"
  shows "string_to_token F (a # CHR ''%'' # s) start = Ok (TCanonStreamMap (a # CHR ''%'' # s) start)"
proof -
  let ?t = "a # CHR ''%'' # s" and ?U = "unicode F"
  obtain c s' where s: "s = c # s'" using assms(2) by (cases s) (auto simp: ascii_name_def)
  have chars: "char_indices ?t = ascii_iter 0 ?t"
    using assms ascii_name_chars(1) [OF assms(2)] by (auto simp: char_indices_def char_indices_ascii ascii_letter_def)
  have names: "list_all (\<lambda>c. is_air_alphanumeric ?U (cp c)) s" using ascii_name_chars(2) [OF assms(2)] .
  have a: "is_air_alphanumeric ?U (cp a)" "\<not> is_numeric ?U (cp a)" "cp a \<noteq> 45" "cp a \<noteq> 43"
    using assms(1) by (auto simp: ascii_letter_def is_air_alphanumeric_def is_alphanumeric_def is_numeric_def ascii_digit_def)
  let ?p = "parser_new ?t start 0 (cp a)"
  have 1: "parse_current_char ?U ?p = (Ok (), ?p\<lparr>non_numeric_met := True\<rparr>)"
    using a name_code_cases [OF a(1)]
    by (simp add: parse_current_char_def is_possible_to_parse_as_number_def parser_new_def try_parse_as_number_def and_then_def
        try_parse_as_sign_def try_parse_as_digit_def try_parse_as_float_dot_def try_parse_first_met_dot_def dot_met_def handle_non_digit_def
        check_fallback_to_variable_def try_parse_as_variable_def try_parse_as_canon_def try_parse_as_stream_def from_tag_def is_tag_def
        try_parse_as_alphanumeric_def Let_def)
  let ?q = "next_char 1 37 (?p\<lparr>non_numeric_met := True\<rparr>)"
  have 2: "parse_current_char ?U ?q = (Ok (), ?q\<lparr>met_tag_of := CanonStreamMapTag\<rparr>)"
    using s by (simp add: parse_current_char_def is_possible_to_parse_as_number_def parser_new_def next_char_def and_then_def
        try_parse_as_variable_def try_parse_as_canon_def deduce_tag_def is_canon_type_def is_tag_def Let_def)
  let ?r = "next_char 2 (cp c) (?q\<lparr>met_tag_of := CanonStreamMapTag\<rparr>)"
  obtain self where 3: "parse_chars ?U (ascii_iter 3 s') ?r = (Ok (), self)" "non_numeric_met self" "first_dot_met_pos self = None"
      "met_tag_of self = met_tag_of ?r" "string_to_parse self = string_to_parse ?r" "start_pos_of self = start_pos_of ?r"
    using name_chars_kept [of ?r ?U s' 3] names s by (auto simp: next_char_def parser_new_def)
  have "parse_chars ?U (tl (ascii_iter 0 ?t)) ?p = (Ok (), self)"
    using 1 2 3(1) s by (simp add: and_then_def numeral_eq_Suc)
  then have "try_parse_call_variable F ?t start = Ok (TCanonStreamMap ?t start)"
    using chars 3 by (simp add: try_parse_call_variable_def to_token_def is_possible_to_parse_as_number_def to_variable_token_def
        next_char_def parser_new_def)
  moreover have "map_of (keywords_table :: (string \<times> 'a token) list) ?t = None" "\<not> starts_with ?t ERROR" "\<not> starts_with ?t LAST_ERROR"
    using assms(1) by (auto simp: keywords_table_def INIT_PEER_ID_def TIMESTAMP_def TTL_def starts_with_def ERROR_def LAST_ERROR_def ascii_letter_def)
  ultimately show ?thesis by (simp add: string_to_token_def)
qed

theorem percent_name_is_canon_map_witness:
  "string_to_token example_front ''x%y'' 4 = Ok (TCanonStreamMap ''x%y'' 4)"
  by (rule percent_name_is_canon_map) (simp_all add: ascii_name_def ascii_letter_def)

end
