(* ===== verification/Variable_Validator.thy ===== *)
theory Variable_Validator
  imports Air_Lexer "HOL-Library.AList"
begin

text \<open>
  The validator of scripts (\<^verbatim>\<open>air-parser/src/parser/validator.rs\<close>, \<^verbatim>\<open>span.rs\<close>, \<^verbatim>\<open>errors.rs\<close>): what the actions of
  the grammar record while a script is parsed, the machine that looks for instructions after \<open>next\<close>, and the checks at the end.

  The package \<^verbatim>\<open>multimap\<close> is the parameter \<open>multimap_ops\<close>; what the code relies on of it is \<open>multimap_documented\<close>. Its
  \<^verbatim>\<open>iter\<close> visits each key with the first of its values only, \<^verbatim>\<open>iter_all\<close> with all of them. The order of a hash map is in
  the results of these functions. Spans are sorted by the position they start at: spans of different instructions start at
  different positions, where the order of \<^verbatim>\<open>span.rs\<close> is that of the positions.
\<close>

section \<open>Multimaps\<close>

record 'mm multimap_ops =
  mm_empty :: 'mm
  mm_insert :: "'mm \<Rightarrow> string \<Rightarrow> air_span \<Rightarrow> 'mm"
  mm_get_vec :: "'mm \<Rightarrow> string \<Rightarrow> air_span list option"
  mm_iter :: "'mm \<Rightarrow> (string \<times> air_span) list"
  mm_iter_all :: "'mm \<Rightarrow> (string \<times> air_span list) list"
  mm_update_all :: "(air_span list \<Rightarrow> air_span list) \<Rightarrow> 'mm \<Rightarrow> 'mm"

definition mm_values :: "'mm multimap_ops \<Rightarrow> 'mm \<Rightarrow> string \<Rightarrow> air_span list" where
  "mm_values M m k = (case mm_get_vec M m k of None \<Rightarrow> [] | Some vs \<Rightarrow> vs)"

definition multimap_documented :: "'mm multimap_ops \<Rightarrow> bool" where
  "multimap_documented M \<longleftrightarrow>
     (\<forall>k. mm_get_vec M (mm_empty M) k = None)
     \<and> (\<forall>m k v k'. mm_get_vec M (mm_insert M m k v) k' = (if k' = k then Some (mm_values M m k @ [v]) else mm_get_vec M m k'))
     \<and> (\<forall>m k. mm_get_vec M m k \<noteq> Some [])
     \<and> (\<forall>m. set (mm_iter M m) = {(k, hd vs) | k vs. mm_get_vec M m k = Some vs})
     \<and> (\<forall>m. set (mm_iter_all M m) = {(k, vs). mm_get_vec M m k = Some vs})
     \<and> (\<forall>f m k. (\<forall>vs. vs \<noteq> [] \<longrightarrow> f vs \<noteq> []) \<longrightarrow> mm_get_vec M (mm_update_all M f m) k = map_option f (mm_get_vec M m k))"

text \<open>A multimap as a list of keys with their first value and the further ones.\<close>

type_synonym list_multimap = "(string \<times> air_span \<times> air_span list) list"

definition list_get_vec :: "list_multimap \<Rightarrow> string \<Rightarrow> air_span list option" where
  "list_get_vec m k = map_option (\<lambda>(v, vs). v # vs) (map_of m k)"

definition list_multimap :: "list_multimap multimap_ops" where
  "list_multimap = \<lparr>mm_empty = [],
     mm_insert = (\<lambda>m k v. AList.update k (case map_of m k of None \<Rightarrow> (v, []) | Some (w, ws) \<Rightarrow> (w, ws @ [v])) m),
     mm_get_vec = list_get_vec,
     mm_iter = (\<lambda>m. map (\<lambda>k. (k, hd (the (list_get_vec m k)))) (remdups (map fst m))),
     mm_iter_all = (\<lambda>m. map (\<lambda>k. (k, the (list_get_vec m k))) (remdups (map fst m))),
     mm_update_all = (\<lambda>f. map (\<lambda>(k, v, vs). (k, hd (f (v # vs)), tl (f (v # vs)))))\<rparr>"

lemma list_multimap_update_all:
  assumes "\<And>vs. vs \<noteq> [] \<Longrightarrow> f vs \<noteq> []"
  shows "list_get_vec (map (\<lambda>(k, v, vs). (k, hd (f (v # vs)), tl (f (v # vs)))) m) k = map_option f (list_get_vec m k)"
proof (induction m)
  case (Cons e m)
  obtain k' v vs where "e = (k', v, vs)" by (cases e) auto
  then show ?case using Cons assms [of "v # vs"] by (simp add: list_get_vec_def)
qed (simp add: list_get_vec_def)

lemma list_multimap_keys: "list_get_vec m k \<noteq> None \<longleftrightarrow> k \<in> set (map fst m)"
  by (auto simp: list_get_vec_def map_of_eq_None_iff image_iff dest: map_of_SomeD)

lemma list_multimap_documented: "multimap_documented list_multimap"
proof -
  have "list_get_vec (AList.update k (case map_of m k of None \<Rightarrow> (v, []) | Some (w, ws) \<Rightarrow> (w, ws @ [v])) m) k'
      = (if k' = k then Some ((case list_get_vec m k of None \<Rightarrow> [] | Some vs \<Rightarrow> vs) @ [v]) else list_get_vec m k')" for m k v k'
    by (auto simp: list_get_vec_def update_conv' split: option.split)
  moreover have "list_get_vec m k \<noteq> Some []" for m k by (auto simp: list_get_vec_def)
  moreover have "{(k, f (the (list_get_vec m k))) | k. k \<in> set (map fst m)} = {(k, f vs) | k vs. list_get_vec m k = Some vs}"
    for m and f :: "air_span list \<Rightarrow> 'z"
    unfolding list_multimap_keys [symmetric] by auto
  note this [of hd] this [of "\<lambda>vs. vs"]
  ultimately show ?thesis
    by (simp add: multimap_documented_def list_multimap_def mm_values_def list_multimap_update_all Setcompr_eq_image [symmetric] list_get_vec_def [of "[]"])
qed

section \<open>Spans and errors\<close>

definition span_min :: "air_span \<Rightarrow> air_pos" where
  "span_min s = min (span_left s) (span_right s)"

datatype rust_ordering = Less | Equal | Greater

definition span_cmp :: "air_span \<Rightarrow> air_span \<Rightarrow> rust_ordering" where
  "span_cmp self other = (if span_min self < span_min other then Less else if self = other then Equal else Greater)"

definition span_sort :: "air_span list \<Rightarrow> air_span list" where
  "span_sort = sort_key span_min"

datatype parser_error =
    ParserLexerError lexer_error
  | LambdaAppliedToStream air_span
  | UndefinedVariable air_span string
  | UndefinedIterable air_span string
  | AmbiguousFailLastError air_span
  | IteratorRestrictionNotAllowed air_span string
  | MultipleIterableValuesForOneIterator air_span string
  | MultipleNextInFold air_span string
  | UnsupportedMapKeyType air_span string string
  | UnsupportedLiteralErrCodes air_span
  | FoldHasInstructionAfterNext air_span

fun parser_error_span :: "parser_error \<Rightarrow> air_span" where
  "parser_error_span (ParserLexerError e) = lexer_error_span e"
| "parser_error_span (LambdaAppliedToStream span) = span"
| "parser_error_span (UndefinedVariable span _) = span"
| "parser_error_span (UndefinedIterable span _) = span"
| "parser_error_span (AmbiguousFailLastError span) = span"
| "parser_error_span (IteratorRestrictionNotAllowed span _) = span"
| "parser_error_span (MultipleIterableValuesForOneIterator span _) = span"
| "parser_error_span (MultipleNextInFold span _) = span"
| "parser_error_span (UnsupportedMapKeyType span _ _) = span"
| "parser_error_span (UnsupportedLiteralErrCodes span) = span"
| "parser_error_span (FoldHasInstructionAfterNext span) = span"

text \<open>\<^verbatim>\<open>ErrorRecovery\<close> of a user error: the error and the dropped tokens.\<close>

type_synonym 'n error_recovery = "parser_error \<times> 'n spanned list"

definition add_to_errors :: "air_span \<Rightarrow> 'n token \<Rightarrow> parser_error \<Rightarrow> 'n error_recovery list \<Rightarrow> 'n error_recovery list" where
  "add_to_errors span token error errors = errors @ [(error, [(span_left span, token, span_right span)])]"

section \<open>Instructions after next\<close>

datatype check_instruction_kind =
    PivotalNext string
  | Merging
  | PopStack1
  | PopStack2
  | Replacing
  | ReplacingWithCheck string
  | Xoring
  | PopStack1ReplacingWithCheck string
  | Simple

text \<open>The top of the stack is the last element of the vector.\<close>

record after_next_check_machine =
  machine_stack :: "(check_instruction_kind \<times> air_span) list"
  potentially_malformed_spans :: "string \<rightharpoonup> air_span"
  malformed_spans :: "air_span list"
  is_enabled :: bool

definition machine_default :: after_next_check_machine where
  "machine_default = \<lparr>machine_stack = [], potentially_malformed_spans = Map.empty, malformed_spans = [], is_enabled = True\<rparr>"

definition stack_pop :: "after_next_check_machine \<Rightarrow> (check_instruction_kind \<times> air_span) option \<times> after_next_check_machine" where
  "stack_pop self = (if machine_stack self = [] then (None, self)
     else (Some (last (machine_stack self)), self\<lparr>machine_stack := butlast (machine_stack self)\<rparr>))"

definition stack_push :: "check_instruction_kind \<Rightarrow> air_span \<Rightarrow> after_next_check_machine \<Rightarrow> after_next_check_machine" where
  "stack_push kind span self = self\<lparr>machine_stack := machine_stack self @ [(kind, span)]\<rparr>"

definition machine_disable :: "after_next_check_machine \<Rightarrow> after_next_check_machine" where
  "machine_disable self = self\<lparr>machine_stack := [], is_enabled := False\<rparr>"

definition process_replacing :: "air_span \<Rightarrow> after_next_check_machine \<Rightarrow> after_next_check_machine" where
  "process_replacing span self =
     (case stack_pop self of
        (Some (PivotalNext n, _), self) \<Rightarrow> stack_push (PivotalNext n) span self
      | (Some _, self) \<Rightarrow> stack_push Replacing span self
      | (None, self) \<Rightarrow> machine_disable self)"

text \<open>The two branches on the stack, \<^verbatim>\<open>left_branch.zip(right_branch)\<close>.\<close>

definition pop_branches ::
    "after_next_check_machine \<Rightarrow> (check_instruction_kind \<times> check_instruction_kind) option \<times> after_next_check_machine" where
  "pop_branches self =
     (case stack_pop self of (right_branch, self) \<Rightarrow>
      case stack_pop self of (left_branch, self) \<Rightarrow>
        (case (left_branch, right_branch) of (Some l, Some r) \<Rightarrow> Some (fst l, fst r) | _ \<Rightarrow> None, self))"

definition process_xoring :: "air_span \<Rightarrow> after_next_check_machine \<Rightarrow> after_next_check_machine" where
  "process_xoring span self =
     (case pop_branches self of
        (Some (PivotalNext _, PivotalNext _), self) \<Rightarrow> machine_disable self
      | (Some (PivotalNext n, _), self) \<Rightarrow> stack_push (PivotalNext n) span self
      | (Some (_, PivotalNext n), self) \<Rightarrow> stack_push (PivotalNext n) span self
      | (Some _, self) \<Rightarrow> stack_push Xoring span self
      | (None, self) \<Rightarrow> machine_disable self)"

text \<open>\<^verbatim>\<open>entry(iterator).or_insert(span)\<close>\<close>

definition or_insert :: "string \<Rightarrow> 'a \<Rightarrow> (string \<rightharpoonup> 'a) \<Rightarrow> (string \<rightharpoonup> 'a)" where
  "or_insert k v m = (if m k = None then m(k \<mapsto> v) else m)"

definition process_merging :: "air_span \<Rightarrow> after_next_check_machine \<Rightarrow> after_next_check_machine" where
  "process_merging span self =
     (case pop_branches self of
        (Some (PivotalNext left_iterable, r), self) \<Rightarrow>
          if r = PivotalNext left_iterable then stack_push (PivotalNext left_iterable) span self
          else (stack_push Merging span self)\<lparr>potentially_malformed_spans := or_insert left_iterable span (potentially_malformed_spans self)\<rparr>
      | (Some (_, PivotalNext n), self) \<Rightarrow> stack_push (PivotalNext n) span self
      | (Some _, self) \<Rightarrow> stack_push Merging span self
      | (None, self) \<Rightarrow> machine_disable self)"

definition after_next_check :: "string \<Rightarrow> after_next_check_machine \<Rightarrow> after_next_check_machine" where
  "after_next_check iterable self =
     (case potentially_malformed_spans self iterable of
        Some span \<Rightarrow> self\<lparr>malformed_spans := malformed_spans self @ [span]\<rparr>
      | None \<Rightarrow> self)"

definition replacing_with_check_common ::
    "string \<Rightarrow> air_span \<Rightarrow> check_instruction_kind \<Rightarrow> after_next_check_machine \<Rightarrow> after_next_check_machine" where
  "replacing_with_check_common iterator_name span instr_kind self =
     (case stack_pop self of
        (Some (PivotalNext n, _), self) \<Rightarrow>
          if n = iterator_name then
            (let self = after_next_check iterator_name self in
             stack_push Simple span (self\<lparr>potentially_malformed_spans := (potentially_malformed_spans self)(iterator_name := None)\<rparr>))
          else stack_push (PivotalNext n) span (after_next_check iterator_name self)
      | (Some _, self) \<Rightarrow> stack_push instr_kind span (after_next_check iterator_name self)
      | (None, self) \<Rightarrow> self\<lparr>is_enabled := False\<rparr>)"

definition met_instruction_kind :: "check_instruction_kind \<Rightarrow> air_span \<Rightarrow> after_next_check_machine \<Rightarrow> after_next_check_machine" where
  "met_instruction_kind instr_kind span self =
     (if \<not> is_enabled self then self
      else case instr_kind of
        Replacing \<Rightarrow> process_replacing span self
      | Xoring \<Rightarrow> process_xoring span self
      | Merging \<Rightarrow> process_merging span self
      | ReplacingWithCheck iterator_name \<Rightarrow> replacing_with_check_common iterator_name span instr_kind self
      | PopStack1ReplacingWithCheck iterator_name \<Rightarrow> replacing_with_check_common iterator_name span instr_kind (snd (stack_pop self))
      | PopStack1 \<Rightarrow> stack_push instr_kind span (snd (stack_pop self))
      | PopStack2 \<Rightarrow> stack_push instr_kind span (snd (stack_pop (snd (stack_pop self))))
      | _ \<Rightarrow> stack_push instr_kind span self)"

section \<open>The validator\<close>

record 'mm variable_validator =
  met_variable_definitions :: "string \<rightharpoonup> air_span"
  met_iterator_definitions :: 'mm
  unresolved_variables :: 'mm
  unresolved_iterables :: 'mm
  multiple_next_candidates :: 'mm
  not_iterators_candidates :: "(string \<times> air_span) list"
  unsupported_map_keys :: "(string \<times> string \<times> air_span) list"
  unsupported_literal_errcodes :: "(int \<times> air_span) list"
  after_next_machine :: after_next_check_machine

definition validator_new :: "'mm multimap_ops \<Rightarrow> 'mm variable_validator" where
  "validator_new M = \<lparr>met_variable_definitions = Map.empty, met_iterator_definitions = mm_empty M, unresolved_variables = mm_empty M,
     unresolved_iterables = mm_empty M, multiple_next_candidates = mm_empty M, not_iterators_candidates = [],
     unsupported_map_keys = [], unsupported_literal_errcodes = [], after_next_machine = machine_default\<rparr>"

definition contains_variable :: "'mm multimap_ops \<Rightarrow> 'mm variable_validator \<Rightarrow> string \<Rightarrow> air_span \<Rightarrow> bool" where
  "contains_variable M self key key_span \<longleftrightarrow>
     (case met_variable_definitions self key of Some found_span \<Rightarrow> span_cmp found_span key_span = Less | None \<Rightarrow> False)
     \<or> (case mm_get_vec M (met_iterator_definitions self) key of
          Some found_spans \<Rightarrow> list_ex (\<lambda>s. span_cmp s key_span = Less) found_spans
        | None \<Rightarrow> False)"

type_synonym 'mm met = "'mm variable_validator \<Rightarrow> 'mm variable_validator"

definition met_variable_name :: "'mm multimap_ops \<Rightarrow> string \<Rightarrow> air_span \<Rightarrow> 'mm met" where
  "met_variable_name M name span self =
     (if contains_variable M self name span then self
      else self\<lparr>unresolved_variables := mm_insert M (unresolved_variables self) name span\<rparr>)"

definition met_variable_name_definition :: "string \<Rightarrow> air_span \<Rightarrow> 'mm met" where
  "met_variable_name_definition name span self =
     (case met_variable_definitions self name of
        Some occupied \<Rightarrow>
          if span_cmp occupied span = Greater
          then self\<lparr>met_variable_definitions := (met_variable_definitions self)(name \<mapsto> span)\<rparr> else self
      | None \<Rightarrow> self\<lparr>met_variable_definitions := (met_variable_definitions self)(name \<mapsto> span)\<rparr>)"

definition met_iterator_definition :: "'mm multimap_ops \<Rightarrow> ast_scalar \<Rightarrow> air_span \<Rightarrow> 'mm met" where
  "met_iterator_definition M iterator span self =
     self\<lparr>met_iterator_definitions := mm_insert M (met_iterator_definitions self) (var_name iterator) span\<rparr>"

fun accessor_met :: "'mm multimap_ops \<Rightarrow> air_span \<Rightarrow> value_accessor \<Rightarrow> 'mm met" where
  "accessor_met M span (FieldAccessByScalar scalar_name) self = met_variable_name M scalar_name span self"
| "accessor_met M span _ self = self"

fun met_lambda :: "'mm multimap_ops \<Rightarrow> lambda_ast \<Rightarrow> air_span \<Rightarrow> 'mm met" where
  "met_lambda M (ValuePath accessors) span self = fold (accessor_met M span) accessors self"
| "met_lambda M (Functor _) span self = self"

text \<open>\<^verbatim>\<open>met_scalar\<close>, \<^verbatim>\<open>met_canon_stream\<close> and \<^verbatim>\<open>met_canon_stream_map\<close>, and their forms with a lambda.\<close>

definition met_scalar :: "'mm multimap_ops \<Rightarrow> ast_variable \<Rightarrow> air_span \<Rightarrow> 'mm met" where
  "met_scalar M v span = met_variable_name M (var_name v) span"

definition met_scalar_wl :: "'mm multimap_ops \<Rightarrow> ast_variable_wl \<Rightarrow> air_span \<Rightarrow> 'mm met" where
  "met_scalar_wl M v span self = met_lambda M (wl_lambda v) span (met_variable_name M (wl_name v) span self)"

fun immutable_variable_name :: "immutable_variable \<Rightarrow> string" where
  "immutable_variable_name (VarScalar v) = var_name v"
| "immutable_variable_name (VarCanonStream v) = var_name v"
| "immutable_variable_name (VarCanonStreamMap v) = var_name v"

fun immutable_variable_wl :: "immutable_variable_wl \<Rightarrow> ast_variable_wl" where
  "immutable_variable_wl (VarScalarWl v) = v"
| "immutable_variable_wl (VarCanonStreamWl v) = v"
| "immutable_variable_wl (VarCanonStreamMapWl v) = v"

definition met_variable :: "'mm multimap_ops \<Rightarrow> immutable_variable \<Rightarrow> air_span \<Rightarrow> 'mm met" where
  "met_variable M v span = met_variable_name M (immutable_variable_name v) span"

definition met_variable_wl :: "'mm multimap_ops \<Rightarrow> immutable_variable_wl \<Rightarrow> air_span \<Rightarrow> 'mm met" where
  "met_variable_wl M v span self =
     met_lambda M (wl_lambda (immutable_variable_wl v)) span (met_variable_name M (wl_name (immutable_variable_wl v)) span self)"

fun met_instr_arg_value :: "'mm multimap_ops \<Rightarrow> air_span \<Rightarrow> 'n immutable_value \<Rightarrow> 'mm met" where
  "met_instr_arg_value M span (ValVariable v) self = met_variable M v span self"
| "met_instr_arg_value M span (ValVariableWl v) self = met_variable_wl M v span self"
| "met_instr_arg_value M span _ self = self"

fun met_matchable :: "'mm multimap_ops \<Rightarrow> air_span \<Rightarrow> 'n immutable_value \<Rightarrow> 'mm met" where
  "met_matchable M span (ValVariable v) self = met_variable M v span self"
| "met_matchable M span (ValVariableWl v) self = met_variable_wl M v span self"
| "met_matchable M span _ self = self"

definition met_args :: "'mm multimap_ops \<Rightarrow> 'n immutable_value list \<Rightarrow> air_span \<Rightarrow> 'mm met" where
  "met_args M args span self = fold (met_instr_arg_value M span) args self"

fun met_peer_id_resolvable_value :: "'mm multimap_ops \<Rightarrow> peer_id_variable \<Rightarrow> air_span \<Rightarrow> 'mm met" where
  "met_peer_id_resolvable_value M (PeerScalar v) span self = met_scalar M v span self"
| "met_peer_id_resolvable_value M (PeerScalarWl v) span self = met_scalar_wl M v span self"
| "met_peer_id_resolvable_value M (PeerCanonStreamWl v) span self = met_scalar_wl M v span self"
| "met_peer_id_resolvable_value M (PeerCanonStreamMapWl v) span self = met_scalar_wl M v span self"
| "met_peer_id_resolvable_value M _ span self = self"

fun met_string_resolvable_value :: "'mm multimap_ops \<Rightarrow> string_variable \<Rightarrow> air_span \<Rightarrow> 'mm met" where
  "met_string_resolvable_value M (StrScalar v) span self = met_scalar M v span self"
| "met_string_resolvable_value M (StrScalarWl v) span self = met_scalar_wl M v span self"
| "met_string_resolvable_value M (StrCanonStreamWl v) span self = met_scalar_wl M v span self"
| "met_string_resolvable_value M (StrCanonStreamMapWl v) span self = met_scalar_wl M v span self"
| "met_string_resolvable_value M (StrLiteral _) span self = self"

definition met_kind :: "check_instruction_kind \<Rightarrow> air_span \<Rightarrow> 'mm met" where
  "met_kind kind span self = self\<lparr>after_next_machine := met_instruction_kind kind span (after_next_machine self)\<rparr>"

definition met_simple_instr :: "air_span \<Rightarrow> 'mm met" where
  "met_simple_instr span = met_kind Simple span"

definition met_merging_instr :: "air_span \<Rightarrow> 'mm met" where
  "met_merging_instr span = met_kind Merging span"

definition met_replacing_instr :: "air_span \<Rightarrow> 'mm met" where
  "met_replacing_instr span = met_kind Replacing span"

definition met_xoring_instr :: "air_span \<Rightarrow> 'mm met" where
  "met_xoring_instr span = met_kind Xoring span"

definition met_pivotalnext_instr :: "string \<Rightarrow> air_span \<Rightarrow> 'mm met" where
  "met_pivotalnext_instr iterable_name span = met_kind (PivotalNext iterable_name) span"

definition met_popstack_instr :: "'a option \<Rightarrow> air_span \<Rightarrow> 'mm met" where
  "met_popstack_instr last_instruction span = met_kind (case last_instruction of Some _ \<Rightarrow> PopStack2 | None \<Rightarrow> PopStack1) span"

definition met_popstack_replacing_with_check_instr :: "string \<Rightarrow> air_span \<Rightarrow> 'mm met" where
  "met_popstack_replacing_with_check_instr iterator_name span = met_kind (PopStack1ReplacingWithCheck iterator_name) span"

definition met_replacing_with_check_instr :: "string \<Rightarrow> air_span \<Rightarrow> 'mm met" where
  "met_replacing_with_check_instr iterator_name span = met_kind (ReplacingWithCheck iterator_name) span"

section \<open>What the instructions record\<close>

definition met_call :: "'mm multimap_ops \<Rightarrow> 'n call_ast \<Rightarrow> air_span \<Rightarrow> 'mm met" where
  "met_call M call span self =
     (let self = met_peer_id_resolvable_value M (trip_peer_id (call_triplet call)) span self;
          self = met_string_resolvable_value M (trip_service_id (call_triplet call)) span self;
          self = met_string_resolvable_value M (trip_function_name (call_triplet call)) span self;
          self = met_args M (call_args call) span self;
          self = met_simple_instr span self in
      case call_output call of
        OutScalar v \<Rightarrow> met_variable_name_definition (var_name v) span self
      | OutStream v \<Rightarrow> met_variable_name_definition (var_name v) span self
      | OutNone \<Rightarrow> self)"

definition met_canon :: "canon_ast \<Rightarrow> air_span \<Rightarrow> 'mm met" where
  "met_canon canon span self = met_simple_instr span (met_variable_name_definition (var_name (can_canon_stream canon)) span self)"

definition met_canon_map :: "canon_map_ast \<Rightarrow> air_span \<Rightarrow> 'mm met" where
  "met_canon_map canon span self = met_simple_instr span (met_variable_name_definition (var_name (cm_canon_stream_map canon)) span self)"

definition met_canon_map_scalar :: "canon_stream_map_scalar_ast \<Rightarrow> air_span \<Rightarrow> 'mm met" where
  "met_canon_map_scalar canon span self = met_simple_instr span (met_variable_name_definition (var_name (cs_scalar canon)) span self)"

definition met_match :: "'mm multimap_ops \<Rightarrow> 'n immutable_value \<Rightarrow> 'n immutable_value \<Rightarrow> air_span \<Rightarrow> 'mm met" where
  "met_match M left_value right_value span self =
     met_replacing_instr span (met_matchable M span right_value (met_matchable M span left_value self))"

definition met_fold_scalar :: "'mm multimap_ops \<Rightarrow> fold_scalar_iterable \<Rightarrow> ast_scalar \<Rightarrow> 'a option \<Rightarrow> air_span \<Rightarrow> 'mm met" where
  "met_fold_scalar M iterable iterator last_instruction span self =
     (let self = (case iterable of
          IterScalar v \<Rightarrow> met_scalar M v span self
        | IterScalarWl v \<Rightarrow> met_scalar_wl M v span self
        | IterCanonStream v \<Rightarrow> met_scalar M v span self
        | IterCanonStreamMap v \<Rightarrow> met_scalar M v span self
        | IterCanonStreamMapWl v \<Rightarrow> met_scalar_wl M v span self
        | IterEmptyArray \<Rightarrow> self) in
      met_popstack_instr last_instruction span (met_iterator_definition M iterator span self))"

text \<open>\<^verbatim>\<open>meet_fold_stream\<close> and \<^verbatim>\<open>meet_fold_stream_map\<close>\<close>

definition validator_meet_fold_stream :: "'mm multimap_ops \<Rightarrow> ast_variable \<Rightarrow> ast_scalar \<Rightarrow> 'a option \<Rightarrow> air_span \<Rightarrow> 'mm met" where
  "validator_meet_fold_stream M iterable iterator last_instruction span self =
     (let self = met_variable_name M (var_name iterable) span self;
          self = met_iterator_definition M iterator span self in
      case last_instruction of
        Some _ \<Rightarrow> met_popstack_replacing_with_check_instr (var_name iterator) span self
      | None \<Rightarrow> met_replacing_with_check_instr (var_name iterator) span self)"

fun new_argument_name :: "new_argument \<Rightarrow> string" where
  "new_argument_name (NewScalar v) = var_name v"
| "new_argument_name (NewStream v) = var_name v"
| "new_argument_name (NewStreamMap v) = var_name v"
| "new_argument_name (NewCanonStream v) = var_name v"
| "new_argument_name (NewCanonStreamMap v) = var_name v"

definition met_new :: "new_argument \<Rightarrow> air_span \<Rightarrow> 'mm met" where
  "met_new argument span self =
     (let self = self\<lparr>not_iterators_candidates := not_iterators_candidates self @ [(new_argument_name argument, span)]\<rparr>;
          self = met_variable_name_definition (new_argument_name argument) span self in
      met_replacing_instr span self)"

definition met_next :: "'mm multimap_ops \<Rightarrow> ast_scalar \<Rightarrow> air_span \<Rightarrow> 'mm met" where
  "met_next M iterator span self =
     (let iterable_name = var_name iterator;
          self = self\<lparr>unresolved_iterables := mm_insert M (unresolved_iterables self) iterable_name span\<rparr>;
          self = self\<lparr>multiple_next_candidates := mm_insert M (multiple_next_candidates self) iterable_name span\<rparr> in
      met_pivotalnext_instr iterable_name span self)"

fun ap_result_name :: "ap_result_ast \<Rightarrow> string" where
  "ap_result_name (ResScalar v) = var_name v"
| "ap_result_name (ResStream v) = var_name v"

fun met_ap_argument :: "'mm multimap_ops \<Rightarrow> 'n ap_argument \<Rightarrow> air_span \<Rightarrow> 'mm met" where
  "met_ap_argument M (ArgScalar v) span self = met_scalar M v span self"
| "met_ap_argument M (ArgScalarWl v) span self = met_scalar_wl M v span self"
| "met_ap_argument M (ArgCanonStream v) span self = met_scalar M v span self"
| "met_ap_argument M (ArgCanonStreamWl v) span self = met_scalar_wl M v span self"
| "met_ap_argument M (ArgCanonStreamMap v) span self = met_scalar M v span self"
| "met_ap_argument M (ArgCanonStreamMapWl v) span self = met_scalar_wl M v span self"
| "met_ap_argument M _ span self = self"

definition met_ap :: "'mm multimap_ops \<Rightarrow> 'n ap_ast \<Rightarrow> air_span \<Rightarrow> 'mm met" where
  "met_ap M ap span self =
     met_simple_instr span (met_variable_name_definition (ap_result_name (ap_res ap)) span (met_ap_argument M (ap_arg ap) span self))"

fun met_map_key :: "'mm multimap_ops \<Rightarrow> stream_map_key_clause \<Rightarrow> air_span \<Rightarrow> 'mm met" where
  "met_map_key M (KeyScalar v) span self = met_scalar M v span self"
| "met_map_key M (KeyScalarWl v) span self = met_scalar_wl M v span self"
| "met_map_key M (KeyCanonStreamWl v) span self = met_scalar_wl M v span self"
| "met_map_key M _ span self = self"

definition met_ap_map :: "'mm multimap_ops \<Rightarrow> 'n ap_map_ast \<Rightarrow> air_span \<Rightarrow> 'mm met" where
  "met_ap_map M ap_map span self =
     met_simple_instr span (met_variable_name_definition (var_name (am_map ap_map)) span (met_map_key M (am_key ap_map) span self))"

fun literal_error_code :: "fail_ast \<Rightarrow> air_span \<Rightarrow> 'mm met" where
  "literal_error_code (FailLiteral ret_code _) span self =
     (if ret_code = 0 then self\<lparr>unsupported_literal_errcodes := unsupported_literal_errcodes self @ [(ret_code, span)]\<rparr> else self)"
| "literal_error_code _ span self = self"

definition met_fail_literal :: "fail_ast \<Rightarrow> air_span \<Rightarrow> 'mm met" where
  "met_fail_literal fail span self = met_simple_instr span (literal_error_code fail span self)"

section \<open>The checks at the end\<close>

record ('n, 'mm) validator_error_builder =
  builder_errors :: "'n error_recovery list"
  validator_of :: "'mm variable_validator"

type_synonym ('n, 'mm) check = "('n, 'mm) validator_error_builder \<Rightarrow> ('n, 'mm) validator_error_builder"

definition report :: "air_span \<Rightarrow> 'n token \<Rightarrow> parser_error \<Rightarrow> ('n, 'mm) check" where
  "report span token error self = self\<lparr>builder_errors := add_to_errors span token error (builder_errors self)\<rparr>"

definition sort_iterator_definitions :: "'mm multimap_ops \<Rightarrow> ('n, 'mm) check" where
  "sort_iterator_definitions M self =
     self\<lparr>validator_of := (validator_of self)\<lparr>met_iterator_definitions :=
       mm_update_all M span_sort (met_iterator_definitions (validator_of self))\<rparr>\<rparr>"

definition builder_new :: "'mm multimap_ops \<Rightarrow> 'mm variable_validator \<Rightarrow> ('n, 'mm) validator_error_builder" where
  "builder_new M validator = sort_iterator_definitions M \<lparr>builder_errors = [], validator_of = validator\<rparr>"

definition find_closest_fold_span :: "'mm multimap_ops \<Rightarrow> 'mm variable_validator \<Rightarrow> string \<Rightarrow> air_span \<Rightarrow> air_span option" where
  "find_closest_fold_span M validator key key_span =
     (case mm_get_vec M (met_iterator_definitions validator) key of
        None \<Rightarrow> None
      | Some found_spans \<Rightarrow>
          (let inside = filter (\<lambda>s. contains_span s key_span) found_spans in if inside = [] then None else Some (last inside)))"

definition check_undefined_variables :: "'mm multimap_ops \<Rightarrow> ('n, 'mm) check" where
  "check_undefined_variables M self =
     fold (\<lambda>(name, span) self.
       if \<not> contains_variable M (validator_of self) name span then report span TCall (UndefinedVariable span name) self else self)
       (mm_iter M (unresolved_variables (validator_of self))) self"

definition check_undefined_iterables :: "'mm multimap_ops \<Rightarrow> ('n, 'mm) check" where
  "check_undefined_iterables M self =
     fold (\<lambda>(name, span) self.
       if find_closest_fold_span M (validator_of self) name span = None then report span TNew (UndefinedIterable span name) self else self)
       (mm_iter M (unresolved_iterables (validator_of self))) self"

text \<open>The loop over the \<open>next\<close>s of one name: the closest folds met so far, and the builder.\<close>

definition next_of_fold ::
    "'mm multimap_ops \<Rightarrow> string \<Rightarrow> air_span \<Rightarrow> air_span list \<times> ('n, 'mm) validator_error_builder
       \<Rightarrow> air_span list \<times> ('n, 'mm) validator_error_builder" where
  "next_of_fold M name span = (\<lambda>(collected_fold_spans, self).
     case find_closest_fold_span M (validator_of self) name span of
       None \<Rightarrow> (collected_fold_spans, self)
     | Some current_span \<Rightarrow>
         if current_span \<in> set collected_fold_spans
         then (collected_fold_spans, report span TNext (MultipleNextInFold span name) self)
         else (current_span # collected_fold_spans, self))"

definition check_multiple_next_in_fold :: "'mm multimap_ops \<Rightarrow> ('n, 'mm) check" where
  "check_multiple_next_in_fold M self =
     fold (\<lambda>(name, spans) self. snd (fold (next_of_fold M name) spans ([], self)))
       (mm_iter_all M (multiple_next_candidates (validator_of self))) self"

definition check_new_on_iterators :: "'mm multimap_ops \<Rightarrow> ('n, 'mm) check" where
  "check_new_on_iterators M self =
     fold (\<lambda>(name, span) self.
       if find_closest_fold_span M (validator_of self) name span \<noteq> None
       then report span TNew (IteratorRestrictionNotAllowed span name) self else self)
       (not_iterators_candidates (validator_of self)) self"

definition definition_of_iterator ::
    "string \<Rightarrow> air_span \<Rightarrow> air_span option \<times> ('n, 'mm) validator_error_builder \<Rightarrow> air_span option \<times> ('n, 'mm) validator_error_builder" where
  "definition_of_iterator name span = (\<lambda>(prev_span, self).
     case prev_span of
       Some prev \<Rightarrow>
         if contains_span prev span then (prev_span, report span TFold (MultipleIterableValuesForOneIterator span name) self)
         else (Some span, self)
     | None \<Rightarrow> (Some span, self))"

definition check_iterator_for_multiple_definitions :: "'mm multimap_ops \<Rightarrow> ('n, 'mm) check" where
  "check_iterator_for_multiple_definitions M self =
     (let self = sort_iterator_definitions M self in
      fold (\<lambda>(name, spans) self. snd (fold (definition_of_iterator name) spans (None, self)))
        (mm_iter_all M (met_iterator_definitions (validator_of self))) self)"

definition check_for_unsupported_map_keys :: "('n, 'mm) check" where
  "check_for_unsupported_map_keys self =
     fold (\<lambda>(arg_key_type, name, span). report span TNew (UnsupportedMapKeyType span arg_key_type name))
       (unsupported_map_keys (validator_of self)) self"

definition check_for_unsupported_literal_errcodes :: "('n, 'mm) check" where
  "check_for_unsupported_literal_errcodes self =
     fold (\<lambda>(_, span). report span TNew (UnsupportedLiteralErrCodes span)) (unsupported_literal_errcodes (validator_of self)) self"

definition check_after_next_instr :: "('n, 'mm) check" where
  "check_after_next_instr self =
     fold (\<lambda>span. report span TNext (FoldHasInstructionAfterNext span)) (malformed_spans (after_next_machine (validator_of self))) self"

definition finalize :: "'mm multimap_ops \<Rightarrow> 'mm variable_validator \<Rightarrow> 'n error_recovery list" where
  "finalize M validator =
     builder_errors
       (check_after_next_instr
       (check_for_unsupported_literal_errcodes
       (check_for_unsupported_map_keys
       (check_iterator_for_multiple_definitions M
       (check_new_on_iterators M
       (check_multiple_next_in_fold M
       (check_undefined_iterables M
       (check_undefined_variables M
       (builder_new M validator)))))))))"

section \<open>The actions of the grammar\<close>

text \<open>What the production of an instruction does with the validator when it is reduced, with the span of the instruction.\<close>

fun met_instruction :: "'mm multimap_ops \<Rightarrow> 'n instruction \<Rightarrow> air_span \<Rightarrow> 'mm met" where
  "met_instruction M (ICall call) span = met_call M call span"
| "met_instruction M (IAp ap) span = met_ap M ap span"
| "met_instruction M (IApMap ap_map) span = met_ap_map M ap_map span"
| "met_instruction M (ICanon canon) span = met_canon canon span"
| "met_instruction M (ICanonMap canon) span = met_canon_map canon span"
| "met_instruction M (ICanonStreamMapScalar canon) span = met_canon_map_scalar canon span"
| "met_instruction M (ISeq _ _) span = met_merging_instr span"
| "met_instruction M (IPar _ _) span = met_merging_instr span"
| "met_instruction M (IXor _ _) span = met_xoring_instr span"
| "met_instruction M (IMatch l r _) span = met_match M l r span"
| "met_instruction M (IMisMatch l r _) span = met_match M l r span"
| "met_instruction M (IFail fail) span = met_fail_literal fail span"
| "met_instruction M (IFoldScalar iterable iterator _ last_instruction _) span = met_fold_scalar M iterable iterator last_instruction span"
| "met_instruction M (IFoldStream iterable iterator _ last_instruction _) span = validator_meet_fold_stream M iterable iterator last_instruction span"
| "met_instruction M (IFoldStreamMap iterable iterator _ last_instruction _) span = validator_meet_fold_stream M iterable iterator last_instruction span"
| "met_instruction M INever span = met_simple_instr span"
| "met_instruction M (INew argument _ _) span = met_new argument span"
| "met_instruction M (INext iterator) span = met_next M iterator span"
| "met_instruction M INull span = met_simple_instr span"
| "met_instruction M IError span = id"

end
