(* ===== verification/Air_Parser.thy ===== *)
theory Air_Parser
  imports Variable_Validator "HOL-Library.Monad_Syntax"
begin

text \<open>
  The parser of scripts (\<^verbatim>\<open>air-parser/src/parser\<close>): the productions of \<^verbatim>\<open>air.lalrpop\<close> and the function
  \<^verbatim>\<open>parse\<close>.

  The parser is generated from the grammar by \<^verbatim>\<open>lalrpop\<close>. What the code relies on is that it accepts the token sequences the
  productions derive and runs the action of a production when it is reduced, those of its parts before it and from left to right.
  The functions here follow the productions; a production is chosen by the token that tells it apart. An instruction comes with its
  \<^emph>\<open>reductions\<close>: the instructions in the order in which their actions run, with their spans. After a syntax error the
  generated parser records the error and goes on, and \<^verbatim>\<open>parse\<close> returns an error whatever comes after it; here it fails. The
  fuel of \<open>parse_instr\<close> bounds the depth of a script by the number of its tokens.
\<close>

section \<open>Arguments\<close>

type_synonym 'n tokens = "'n spanned list"

definition variable_of :: "string \<Rightarrow> air_pos \<Rightarrow> ast_variable" where
  "variable_of name pos = \<lparr>var_name = name, var_position = pos\<rparr>"

definition variable_wl_of :: "string \<Rightarrow> lambda_ast \<Rightarrow> air_pos \<Rightarrow> ast_variable_wl" where
  "variable_wl_of name lambda pos = \<lparr>wl_name = name, wl_lambda = lambda, wl_position = pos\<rparr>"

text \<open>A production of one token.\<close>

definition one_token :: "('n token \<Rightarrow> 'a option) \<Rightarrow> 'n tokens \<Rightarrow> ('a \<times> 'n tokens) option" where
  "one_token f ts = (case ts of [] \<Rightarrow> None | (_, t, _) # ts' \<Rightarrow> map_option (\<lambda>a. (a, ts')) (f t))"

definition expect_token :: "'n token \<Rightarrow> 'n tokens \<Rightarrow> 'n tokens option" where
  "expect_token t ts = (case ts of (_, t', _) # ts' \<Rightarrow> if t' = t then Some ts' else None | [] \<Rightarrow> None)"

fun peer_id_of_token :: "'n token \<Rightarrow> peer_id_variable option" where
  "peer_id_of_token TInitPeerId = Some PeerInitPeerId"
| "peer_id_of_token (TStringLiteral literal) = Some (PeerLiteral literal)"
| "peer_id_of_token (TScalar name pos) = Some (PeerScalar (variable_of name pos))"
| "peer_id_of_token (TScalarWithLambda name lambda pos) = Some (PeerScalarWl (variable_wl_of name lambda pos))"
| "peer_id_of_token (TCanonStreamWithLambda name lambda pos) = Some (PeerCanonStreamWl (variable_wl_of name lambda pos))"
| "peer_id_of_token (TCanonStreamMapWithLambda name lambda pos) = Some (PeerCanonStreamMapWl (variable_wl_of name lambda pos))"
| "peer_id_of_token _ = None"

fun string_of_token :: "'n token \<Rightarrow> string_variable option" where
  "string_of_token (TStringLiteral literal) = Some (StrLiteral literal)"
| "string_of_token (TScalar name pos) = Some (StrScalar (variable_of name pos))"
| "string_of_token (TScalarWithLambda name lambda pos) = Some (StrScalarWl (variable_wl_of name lambda pos))"
| "string_of_token (TCanonStreamWithLambda name lambda pos) = Some (StrCanonStreamWl (variable_wl_of name lambda pos))"
| "string_of_token (TCanonStreamMapWithLambda name lambda pos) = Some (StrCanonStreamMapWl (variable_wl_of name lambda pos))"
| "string_of_token _ = None"

fun number_of_token :: "'n token \<Rightarrow> 'n ast_number option" where
  "number_of_token (TI64 integer) = Some (NumInt integer)"
| "number_of_token (TF64 value text) = Some (NumFloat value text)"
| "number_of_token _ = None"

fun value_of_token :: "'n token \<Rightarrow> 'n immutable_value option" where
  "value_of_token TInitPeerId = Some ValInitPeerId"
| "value_of_token TLastError = Some (ValLastError None)"
| "value_of_token (TLastErrorWithLambda le) = Some (ValLastError (Some le))"
| "value_of_token TError = Some (ValError \<lparr>error_lens = None\<rparr>)"
| "value_of_token (TErrorWithLambda le) = Some (ValError \<lparr>error_lens = Some le\<rparr>)"
| "value_of_token (TStringLiteral l) = Some (ValLiteral l)"
| "value_of_token TTimestamp = Some ValTimestamp"
| "value_of_token TTTL = Some ValTTL"
| "value_of_token (TBoolean b) = Some (ValBoolean b)"
| "value_of_token (TScalar name pos) = Some (ValVariable (VarScalar (variable_of name pos)))"
| "value_of_token (TScalarWithLambda name lambda pos) = Some (ValVariableWl (VarScalarWl (variable_wl_of name lambda pos)))"
| "value_of_token (TCanonStream name pos) = Some (ValVariable (VarCanonStream (variable_of name pos)))"
| "value_of_token (TCanonStreamWithLambda name lambda pos) = Some (ValVariableWl (VarCanonStreamWl (variable_wl_of name lambda pos)))"
| "value_of_token (TCanonStreamMap name pos) = Some (ValVariable (VarCanonStreamMap (variable_of name pos)))"
| "value_of_token (TCanonStreamMapWithLambda name lambda pos) = Some (ValVariableWl (VarCanonStreamMapWl (variable_wl_of name lambda pos)))"
| "value_of_token t = map_option ValNumber (number_of_token t)"

fun ap_argument_of_token :: "'n token \<Rightarrow> 'n ap_argument option" where
  "ap_argument_of_token TInitPeerId = Some ArgInitPeerId"
| "ap_argument_of_token TLastError = Some (ArgLastError None)"
| "ap_argument_of_token (TLastErrorWithLambda le) = Some (ArgLastError (Some le))"
| "ap_argument_of_token TError = Some (ArgError \<lparr>error_lens = None\<rparr>)"
| "ap_argument_of_token (TErrorWithLambda le) = Some (ArgError \<lparr>error_lens = Some le\<rparr>)"
| "ap_argument_of_token TTimestamp = Some ArgTimestamp"
| "ap_argument_of_token TTTL = Some ArgTTL"
| "ap_argument_of_token (TStringLiteral l) = Some (ArgLiteral l)"
| "ap_argument_of_token (TBoolean b) = Some (ArgBoolean b)"
| "ap_argument_of_token (TScalar name pos) = Some (ArgScalar (variable_of name pos))"
| "ap_argument_of_token (TScalarWithLambda name lambda pos) = Some (ArgScalarWl (variable_wl_of name lambda pos))"
| "ap_argument_of_token (TCanonStream name pos) = Some (ArgCanonStream (variable_of name pos))"
| "ap_argument_of_token (TCanonStreamWithLambda name lambda pos) = Some (ArgCanonStreamWl (variable_wl_of name lambda pos))"
| "ap_argument_of_token (TCanonStreamMapWithLambda name lambda pos) = Some (ArgCanonStreamMapWl (variable_wl_of name lambda pos))"
| "ap_argument_of_token t = map_option ArgNumber (number_of_token t)"

text \<open>\<^verbatim>\<open>"[" "]"\<close>, or one token.\<close>

definition empty_array_or :: "'a \<Rightarrow> ('n token \<Rightarrow> 'a option) \<Rightarrow> 'n tokens \<Rightarrow> ('a \<times> 'n tokens) option" where
  "empty_array_or empty_array f ts =
     (case ts of
        (_, TOpenSquareBracket, _) # (_, TCloseSquareBracket, _) # ts' \<Rightarrow> Some (empty_array, ts')
      | _ \<Rightarrow> one_token f ts)"

definition parse_value :: "'n tokens \<Rightarrow> ('n immutable_value \<times> 'n tokens) option" where
  "parse_value = empty_array_or ValEmptyArray value_of_token"

definition parse_ap_argument :: "'n tokens \<Rightarrow> ('n ap_argument \<times> 'n tokens) option" where
  "parse_ap_argument = empty_array_or ArgEmptyArray ap_argument_of_token"

fun ap_result_of_token :: "'n token \<Rightarrow> ap_result_ast option" where
  "ap_result_of_token (TScalar name pos) = Some (ResScalar (variable_of name pos))"
| "ap_result_of_token (TStream name pos) = Some (ResStream (variable_of name pos))"
| "ap_result_of_token _ = None"

fun key_of_token :: "'n token \<Rightarrow> stream_map_key_clause option" where
  "key_of_token (TStringLiteral l) = Some (KeyLiteral l)"
| "key_of_token (TI64 integer) = Some (KeyInt integer)"
| "key_of_token (TScalar name pos) = Some (KeyScalar (variable_of name pos))"
| "key_of_token (TScalarWithLambda name lambda pos) = Some (KeyScalarWl (variable_wl_of name lambda pos))"
| "key_of_token (TCanonStreamWithLambda name lambda pos) = Some (KeyCanonStreamWl (variable_wl_of name lambda pos))"
| "key_of_token _ = None"

fun scalar_of_token :: "'n token \<Rightarrow> ast_scalar option" where
  "scalar_of_token (TScalar name pos) = Some (variable_of name pos)"
| "scalar_of_token _ = None"

fun stream_of_token :: "'n token \<Rightarrow> ast_stream option" where
  "stream_of_token (TStream name pos) = Some (variable_of name pos)"
| "stream_of_token _ = None"

fun stream_map_of_token :: "'n token \<Rightarrow> ast_stream_map option" where
  "stream_map_of_token (TStreamMap name pos) = Some (variable_of name pos)"
| "stream_map_of_token _ = None"

fun fold_iterable_of_token :: "'n token \<Rightarrow> fold_scalar_iterable option" where
  "fold_iterable_of_token (TScalar name pos) = Some (IterScalar (variable_of name pos))"
| "fold_iterable_of_token (TScalarWithLambda name lambda pos) = Some (IterScalarWl (variable_wl_of name lambda pos))"
| "fold_iterable_of_token (TCanonStream name pos) = Some (IterCanonStream (variable_of name pos))"
| "fold_iterable_of_token (TCanonStreamMap name pos) = Some (IterCanonStreamMap (variable_of name pos))"
| "fold_iterable_of_token (TCanonStreamMapWithLambda name lambda pos) = Some (IterCanonStreamMapWl (variable_wl_of name lambda pos))"
| "fold_iterable_of_token _ = None"

fun new_argument_of_token :: "'n token \<Rightarrow> new_argument option" where
  "new_argument_of_token (TScalar name pos) = Some (NewScalar (variable_of name pos))"
| "new_argument_of_token (TStream name pos) = Some (NewStream (variable_of name pos))"
| "new_argument_of_token (TStreamMap name pos) = Some (NewStreamMap (variable_of name pos))"
| "new_argument_of_token (TCanonStream name pos) = Some (NewCanonStream (variable_of name pos))"
| "new_argument_of_token (TCanonStreamMap name pos) = Some (NewCanonStreamMap (variable_of name pos))"
| "new_argument_of_token _ = None"

text \<open>A parser of a part hands on a proper end of the tokens it got.\<close>

lemma one_token_rest: "one_token f ts = Some (a, ts') \<Longrightarrow> \<exists>t. ts = t # ts'"
  by (auto simp: one_token_def split: list.splits prod.splits)

lemma empty_array_or_rest: "empty_array_or e f ts = Some (a, ts') \<Longrightarrow> \<exists>pre. pre \<noteq> [] \<and> ts = pre @ ts'"
  by (auto simp: empty_array_or_def split: list.splits prod.splits token.splits dest!: one_token_rest)

text \<open>\<^verbatim>\<open>Args\<close>, behind the opening bracket.\<close>

function parse_args :: "'n tokens \<Rightarrow> ('n immutable_value list \<times> 'n tokens) option" where
  "parse_args ts =
     (case expect_token TCloseSquareBracket ts of
        Some ts' \<Rightarrow> Some ([], ts')
      | None \<Rightarrow>
          (case parse_value ts of
             None \<Rightarrow> None
           | Some (v, ts') \<Rightarrow> map_option (\<lambda>(vs, ts''). (v # vs, ts'')) (parse_args ts')))"
  by pat_completeness auto
termination
  by (relation "measure length") (auto simp: parse_value_def dest!: empty_array_or_rest)

declare parse_args.simps [simp del]

definition parse_triplet :: "'n tokens \<Rightarrow> (ast_triplet \<times> 'n tokens) option" where
  "parse_triplet ts = do {
     (peer_id, ts) \<leftarrow> one_token peer_id_of_token ts;
     ts \<leftarrow> expect_token TOpenRoundBracket ts;
     (service_id, ts) \<leftarrow> one_token string_of_token ts;
     (function_name, ts) \<leftarrow> one_token string_of_token ts;
     ts \<leftarrow> expect_token TCloseRoundBracket ts;
     Some (\<lparr>trip_peer_id = peer_id, trip_service_id = service_id, trip_function_name = function_name\<rparr>, ts) }"

fun call_output_of_token :: "'n token \<Rightarrow> call_output_value option" where
  "call_output_of_token (TScalar name pos) = Some (OutScalar (variable_of name pos))"
| "call_output_of_token (TStream name pos) = Some (OutStream (variable_of name pos))"
| "call_output_of_token _ = None"

definition parse_call_output :: "'n tokens \<Rightarrow> call_output_value \<times> 'n tokens" where
  "parse_call_output ts = (case one_token call_output_of_token ts of Some r \<Rightarrow> r | None \<Rightarrow> (OutNone, ts))"

fun parse_fail_body :: "'n tokens \<Rightarrow> (fail_ast \<times> 'n tokens) option" where
  "parse_fail_body ((_, TScalar name pos, _) # ts) = Some (FailScalar (variable_of name pos), ts)"
| "parse_fail_body ((_, TScalarWithLambda name lambda pos, _) # ts) = Some (FailScalarWl (variable_wl_of name lambda pos), ts)"
| "parse_fail_body ((_, TI64 ret_code, _) # (_, TStringLiteral error_message, _) # ts) = Some (FailLiteral ret_code error_message, ts)"
| "parse_fail_body ((_, TCanonStreamWithLambda name lambda pos, _) # ts) = Some (FailCanonStreamWl (variable_wl_of name lambda pos), ts)"
| "parse_fail_body ((_, TLastError, _) # ts) = Some (FailLastError, ts)"
| "parse_fail_body ((_, TError, _) # ts) = Some (FailError, ts)"
| "parse_fail_body _ = None"

section \<open>Instructions\<close>

type_synonym 'n reductions = "('n instruction \<times> air_span) list"

type_synonym 'n parsed = "'n instruction \<times> 'n reductions \<times> 'n tokens"

text \<open>The closing bracket and the reduction; \<open>left\<close> is the position of the opening bracket, \<open>rs\<close> are the reductions of the parts.\<close>

definition reduce :: "air_pos \<Rightarrow> 'n reductions \<Rightarrow> (air_span \<Rightarrow> 'n instruction) \<Rightarrow> 'n tokens \<Rightarrow> 'n parsed option" where
  "reduce left rs instr ts =
     (case ts of
        (_, TCloseRoundBracket, right) # ts' \<Rightarrow>
          (let span = span_of left right in Some (instr span, rs @ [(instr span, span)], ts'))
      | _ \<Rightarrow> None)"

definition parse_canon :: "air_pos \<Rightarrow> 'n tokens \<Rightarrow> 'n parsed option" where
  "parse_canon left ts = do {
     (peer_id, ts) \<leftarrow> one_token peer_id_of_token ts;
     (case ts of
        (_, TStream name pos, _) # (_, TCanonStream name' pos', _) # ts \<Rightarrow>
          reduce left [] (\<lambda>_. ICanon \<lparr>can_peer_id = peer_id, can_stream = variable_of name pos, can_canon_stream = variable_of name' pos'\<rparr>) ts
      | (_, TStreamMap name pos, _) # (_, TCanonStreamMap name' pos', _) # ts \<Rightarrow>
          reduce left []
            (\<lambda>_. ICanonMap \<lparr>cm_peer_id = peer_id, cm_stream_map = variable_of name pos, cm_canon_stream_map = variable_of name' pos'\<rparr>) ts
      | (_, TStreamMap name pos, _) # (_, TScalar name' pos', _) # ts \<Rightarrow>
          reduce left []
            (\<lambda>_. ICanonStreamMapScalar \<lparr>cs_peer_id = peer_id, cs_stream_map = variable_of name pos, cs_scalar = variable_of name' pos'\<rparr>) ts
      | _ \<Rightarrow> None) }"

definition parse_ap :: "air_pos \<Rightarrow> 'n tokens \<Rightarrow> 'n parsed option" where
  "parse_ap left ts =
     (case expect_token TOpenRoundBracket ts of
        Some ts \<Rightarrow> do {
          (key, ts) \<leftarrow> one_token key_of_token ts;
          (value, ts) \<leftarrow> parse_ap_argument ts;
          ts \<leftarrow> expect_token TCloseRoundBracket ts;
          (map, ts) \<leftarrow> one_token stream_map_of_token ts;
          reduce left [] (\<lambda>_. IApMap \<lparr>am_key = key, am_value = value, am_map = map\<rparr>) ts }
      | None \<Rightarrow> do {
          (arg, ts) \<leftarrow> parse_ap_argument ts;
          (result, ts) \<leftarrow> one_token ap_result_of_token ts;
          reduce left [] (\<lambda>_. IAp \<lparr>ap_arg = arg, ap_res = result\<rparr>) ts })"

definition parse_call :: "air_pos \<Rightarrow> 'n tokens \<Rightarrow> 'n parsed option" where
  "parse_call left ts = do {
     (triplet, ts) \<leftarrow> parse_triplet ts;
     ts \<leftarrow> expect_token TOpenSquareBracket ts;
     (args, ts) \<leftarrow> parse_args ts;
     (case parse_call_output ts of (out, ts) \<Rightarrow>
        reduce left [] (\<lambda>_. ICall \<lparr>call_triplet = triplet, call_args = args, call_output = out\<rparr>) ts) }"

text \<open>The head of a fold: how the instruction is built, and the iterator.\<close>

type_synonym 'n fold_maker = "ast_scalar \<Rightarrow> 'n instruction \<Rightarrow> 'n instruction option \<Rightarrow> air_span \<Rightarrow> 'n instruction"

definition parse_fold_iterable :: "'n tokens \<Rightarrow> ('n fold_maker \<times> 'n tokens) option" where
  "parse_fold_iterable ts =
     (case ts of
        (_, TStream name pos, _) # ts' \<Rightarrow> Some (IFoldStream (variable_of name pos), ts')
      | (_, TStreamMap name pos, _) # ts' \<Rightarrow> Some (IFoldStreamMap (variable_of name pos), ts')
      | _ \<Rightarrow> map_option (\<lambda>(iterable, ts'). (IFoldScalar iterable, ts')) (empty_array_or IterEmptyArray fold_iterable_of_token ts))"

text \<open>\<^verbatim>\<open>Instr?\<close>: an instruction starts with an opening bracket.\<close>

definition parse_last_instruction ::
    "('n tokens \<Rightarrow> 'n parsed option) \<Rightarrow> 'n tokens \<Rightarrow> ('n instruction option \<times> 'n reductions \<times> 'n tokens) option" where
  "parse_last_instruction p ts =
     (case expect_token TOpenRoundBracket ts of
        None \<Rightarrow> Some (None, [], ts)
      | Some _ \<Rightarrow> map_option (\<lambda>(i, rs, ts). (Some i, rs, ts)) (p ts))"

definition parse_two ::
    "('n tokens \<Rightarrow> 'n parsed option) \<Rightarrow> air_pos \<Rightarrow> ('n instruction \<Rightarrow> 'n instruction \<Rightarrow> 'n instruction) \<Rightarrow> 'n tokens \<Rightarrow> 'n parsed option" where
  "parse_two p left instr ts = do {
     (l, rs, ts) \<leftarrow> p ts;
     (r, rs', ts) \<leftarrow> p ts;
     reduce left (rs @ rs') (\<lambda>_. instr l r) ts }"

definition parse_match ::
    "('n tokens \<Rightarrow> 'n parsed option) \<Rightarrow> air_pos \<Rightarrow> ('n immutable_value \<Rightarrow> 'n immutable_value \<Rightarrow> 'n instruction \<Rightarrow> 'n instruction)
       \<Rightarrow> 'n tokens \<Rightarrow> 'n parsed option" where
  "parse_match p left instr ts = do {
     (l, ts) \<leftarrow> parse_value ts;
     (r, ts) \<leftarrow> parse_value ts;
     (i, rs, ts) \<leftarrow> p ts;
     reduce left rs (\<lambda>_. instr l r i) ts }"

definition parse_new :: "('n tokens \<Rightarrow> 'n parsed option) \<Rightarrow> air_pos \<Rightarrow> 'n tokens \<Rightarrow> 'n parsed option" where
  "parse_new p left ts = do {
     (argument, ts) \<leftarrow> one_token new_argument_of_token ts;
     (i, rs, ts) \<leftarrow> p ts;
     reduce left rs (INew argument i) ts }"

definition parse_fold :: "('n tokens \<Rightarrow> 'n parsed option) \<Rightarrow> air_pos \<Rightarrow> 'n tokens \<Rightarrow> 'n parsed option" where
  "parse_fold p left ts = do {
     (fold_of, ts) \<leftarrow> parse_fold_iterable ts;
     (iterator, ts) \<leftarrow> one_token scalar_of_token ts;
     (i, rs, ts) \<leftarrow> p ts;
     (last_instruction, rs', ts) \<leftarrow> parse_last_instruction p ts;
     reduce left (rs @ rs') (fold_of iterator i last_instruction) ts }"

definition parse_fail :: "air_pos \<Rightarrow> 'n tokens \<Rightarrow> 'n parsed option" where
  "parse_fail left ts = do {
     (fail_body, ts) \<leftarrow> parse_fail_body ts;
     reduce left [] (\<lambda>_. IFail fail_body) ts }"

definition parse_next :: "air_pos \<Rightarrow> 'n tokens \<Rightarrow> 'n parsed option" where
  "parse_next left ts = do {
     (iterator, ts) \<leftarrow> one_token scalar_of_token ts;
     reduce left [] (\<lambda>_. INext iterator) ts }"

definition parse_keyword ::
    "('n tokens \<Rightarrow> 'n parsed option) \<Rightarrow> air_pos \<Rightarrow> 'n token \<Rightarrow> 'n tokens \<Rightarrow> 'n parsed option" where
  "parse_keyword p left keyword ts =
     (case keyword of
        TCall \<Rightarrow> parse_call left ts
      | TCanon \<Rightarrow> parse_canon left ts
      | TAp \<Rightarrow> parse_ap left ts
      | TSeq \<Rightarrow> parse_two p left ISeq ts
      | TPar \<Rightarrow> parse_two p left IPar ts
      | TNever \<Rightarrow> reduce left [] (\<lambda>_. INever) ts
      | TNull \<Rightarrow> reduce left [] (\<lambda>_. INull) ts
      | TNew \<Rightarrow> parse_new p left ts
      | TFail \<Rightarrow> parse_fail left ts
      | TFold \<Rightarrow> parse_fold p left ts
      | TNext \<Rightarrow> parse_next left ts
      | TXor \<Rightarrow> parse_two p left IXor ts
      | TMatch \<Rightarrow> parse_match p left IMatch ts
      | TMisMatch \<Rightarrow> parse_match p left IMisMatch ts
      | _ \<Rightarrow> None)"

primrec parse_instr :: "nat \<Rightarrow> 'n tokens \<Rightarrow> 'n parsed option" where
  "parse_instr 0 ts = None"
| "parse_instr (Suc n) ts =
     (case ts of
        (left, TOpenRoundBracket, _) # (_, keyword, _) # ts' \<Rightarrow> parse_keyword (parse_instr n) left keyword ts'
      | _ \<Rightarrow> None)"

section \<open>A script\<close>

datatype 'n parse_failure = LexingFailed lexer_error | SyntaxError | ValidationFailed "'n error_recovery list"

definition run_actions :: "'mm multimap_ops \<Rightarrow> 'n reductions \<Rightarrow> 'mm variable_validator" where
  "run_actions M rs = fold (\<lambda>(i, span). met_instruction M i span) rs (validator_new M)"

definition parse_script ::
    "'n front_ops \<Rightarrow> 'mm multimap_ops \<Rightarrow> string \<Rightarrow> ('n instruction, 'n parse_failure) result" where
  "parse_script F M air_script =
     res_then (res_map_err LexingFailed (lex F air_script)) (\<lambda>ts.
     case parse_instr (length ts) ts of
       Some (i, rs, []) \<Rightarrow>
         (let validator_errors = finalize M (run_actions M rs) in
          if validator_errors = [] then Ok i else Err (ValidationFailed validator_errors))
     | _ \<Rightarrow> Err SyntaxError)"

section \<open>Where the instructions are\<close>

fun children :: "'n instruction \<Rightarrow> 'n instruction list" where
  "children (ISeq l r) = [l, r]"
| "children (IPar l r) = [l, r]"
| "children (IXor l r) = [l, r]"
| "children (IMatch _ _ i) = [i]"
| "children (IMisMatch _ _ i) = [i]"
| "children (INew _ i _) = [i]"
| "children (IFoldScalar _ _ i l _) = i # (case l of Some l \<Rightarrow> [l] | None \<Rightarrow> [])"
| "children (IFoldStream _ _ i l _) = i # (case l of Some l \<Rightarrow> [l] | None \<Rightarrow> [])"
| "children (IFoldStreamMap _ _ i l _) = i # (case l of Some l \<Rightarrow> [l] | None \<Rightarrow> [])"
| "children _ = []"

text \<open>The reductions of an instruction with its span: those of its parts, which lie behind its opening bracket, one after the other, and
  before its closing one, and then its own.\<close>

inductive laid_out :: "'n instruction \<Rightarrow> air_span \<Rightarrow> 'n reductions \<Rightarrow> bool"
  and laid_list :: "nat \<Rightarrow> nat \<Rightarrow> 'n instruction list \<Rightarrow> 'n reductions \<Rightarrow> bool" where
  node: "laid_list (Suc (span_left s)) hi (children i) rs \<Longrightarrow> hi < span_right s \<Longrightarrow> laid_out i s (rs @ [(i, s)])"
| none: "lo \<le> hi \<Longrightarrow> laid_list lo hi [] []"
| more: "laid_out i s rs \<Longrightarrow> lo \<le> span_left s \<Longrightarrow> laid_list (span_right s) hi is rs' \<Longrightarrow> laid_list lo hi (i # is) (rs @ rs')"

definition lays :: "('n tokens \<Rightarrow> 'n parsed option) \<Rightarrow> bool" where
  "lays p \<longleftrightarrow> (\<forall>ts i rs rest lo N. p ts = Some (i, rs, rest) \<longrightarrow> spans_ordered lo N ts
     \<longrightarrow> (\<exists>s. laid_out i s rs \<and> lo \<le> span_left s \<and> spans_ordered (span_right s) N rest))"

lemma laysD:
  assumes "lays p" "p ts = Some (i, rs, rest)" "spans_ordered lo N ts"
  obtains s where "laid_out i s rs" "lo \<le> span_left s" "spans_ordered (span_right s) N rest"
  using assms unfolding lays_def by blast

lemma spans_ordered_append: "spans_ordered lo N (pre @ ts) \<Longrightarrow> spans_ordered lo N ts"
proof (induction pre arbitrary: lo)
  case (Cons t pre)
  obtain l x r where "t = (l, x, r)" by (cases t) auto
  with Cons have "spans_ordered r N ts" "lo \<le> r" by auto
  then show ?case by (rule spans_ordered_mono)
qed simp

lemma spans_ordered_rests:
  "one_token f ts = Some (a, ts') \<Longrightarrow> spans_ordered lo N ts \<Longrightarrow> spans_ordered lo N ts'"
  "empty_array_or e g ts = Some (b, ts') \<Longrightarrow> spans_ordered lo N ts \<Longrightarrow> spans_ordered lo N ts'"
  "expect_token t ts = Some ts' \<Longrightarrow> spans_ordered lo N ts \<Longrightarrow> spans_ordered lo N ts'"
  by (auto dest!: one_token_rest empty_array_or_rest simp: expect_token_def
      intro: spans_ordered_append [of _ _ "[_]", simplified] spans_ordered_append spans_ordered_mono
      split: list.splits if_splits)

lemma reduce_lays:
  assumes "reduce left rs instr ts = Some (i, rs', rest)" "laid_list (Suc left) hi (children i) rs" "spans_ordered hi N ts"
  shows "\<exists>s. laid_out i s rs' \<and> left \<le> span_left s \<and> spans_ordered (span_right s) N rest"
proof -
  obtain l t r where ts: "ts = (l, t, r) # rest" "i = instr (span_of left r)" "rs' = rs @ [(i, span_of left r)]"
    using assms(1) by (auto simp: reduce_def Let_def split: list.splits prod.splits token.splits)
  have "laid_out i (span_of left r) rs'"
    unfolding ts(3) using assms(2,3) ts(1) by (intro node [of _ hi]) (auto simp: span_of_def)
  with assms(3) ts(1) show ?thesis by (auto simp: span_of_def)
qed

text \<open>What a production with the opening bracket at \<open>left\<close> gives.\<close>

definition placed :: "nat \<Rightarrow> nat \<Rightarrow> 'n parsed option \<Rightarrow> bool" where
  "placed left N r \<longleftrightarrow> (\<forall>i rs rest. r = Some (i, rs, rest)
     \<longrightarrow> (\<exists>s. laid_out i s rs \<and> left \<le> span_left s \<and> spans_ordered (span_right s) N rest))"

lemma placed_None [simp]: "placed left N None"
  by (simp add: placed_def)

lemma placed_bind: "(\<And>a. x = Some a \<Longrightarrow> placed left N (f a)) \<Longrightarrow> placed left N (Option.bind x f)"
  by (cases x) simp_all

lemma placed_reduce:
  assumes "laid_list (Suc left) hi cs rs" "\<And>span. children (instr span) = cs" "spans_ordered hi N ts"
  shows "placed left N (reduce left rs instr ts)"
proof -
  have "\<exists>s. laid_out i s rs' \<and> left \<le> span_left s \<and> spans_ordered (span_right s) N rest"
    if r: "reduce left rs instr ts = Some (i, rs', rest)" for i rs' rest
  proof (rule reduce_lays [OF r _ assms(3)])
    have "\<exists>span. i = instr span" using r by (auto simp: reduce_def Let_def split: list.splits prod.splits token.splits)
    with assms(1,2) show "laid_list (Suc left) hi (children i) rs" by auto
  qed
  then show ?thesis by (simp add: placed_def)
qed

lemma placed_leaf:
  "(\<And>span. children (instr span) = []) \<Longrightarrow> spans_ordered (Suc left) N ts \<Longrightarrow> placed left N (reduce left [] instr ts)"
  by (rule placed_reduce [OF none]) auto

lemma parse_args_ordered: "parse_args ts = Some (vs, ts') \<Longrightarrow> spans_ordered lo N ts \<Longrightarrow> spans_ordered lo N ts'"
proof (induction ts arbitrary: vs rule: parse_args.induct)
  case (1 ts)
  show ?case
  proof (cases "expect_token TCloseSquareBracket ts")
    case None
    then obtain v ts1 vs1 where p: "parse_value ts = Some (v, ts1)" "parse_args ts1 = Some (vs1, ts')"
      using 1(2) by (subst (asm) parse_args.simps) (auto split: option.splits)
    have "spans_ordered lo N ts1" by (rule spans_ordered_rests(2) [OF p(1) [unfolded parse_value_def] 1(3)])
    then show ?thesis using 1(1) [OF None p(1) refl p(2)] by blast
  next
    case (Some ts1)
    then have "ts1 = ts'" using 1(2) by (subst (asm) parse_args.simps) simp
    then show ?thesis using spans_ordered_rests(3) [OF Some 1(3)] by simp
  qed
qed

lemma parse_fail_body_ordered: "parse_fail_body ts = Some (b, ts') \<Longrightarrow> spans_ordered lo N ts \<Longrightarrow> spans_ordered lo N ts'"
  by (cases ts rule: parse_fail_body.cases) (auto intro: spans_ordered_mono)

lemma parse_triplet_ordered: "parse_triplet ts = Some (t, ts') \<Longrightarrow> spans_ordered lo N ts \<Longrightarrow> spans_ordered lo N ts'"
  by (clarsimp simp: parse_triplet_def bind_eq_Some_conv) (metis spans_ordered_rests(1,3))

lemma parse_call_output_ordered: "parse_call_output ts = (out, ts') \<Longrightarrow> spans_ordered lo N ts \<Longrightarrow> spans_ordered lo N ts'"
  by (auto simp: parse_call_output_def split: option.splits intro: spans_ordered_rests)

lemma parse_fold_iterable_ordered:
  "parse_fold_iterable ts = Some (m, ts') \<Longrightarrow> spans_ordered lo N ts \<Longrightarrow> spans_ordered lo N ts'"
  by (auto simp: parse_fold_iterable_def split: list.splits prod.splits token.splits intro: spans_ordered_mono spans_ordered_rests)

lemma placed_call:
  assumes "spans_ordered (Suc left) N ts"
  shows "placed left N (parse_call left ts)"
  unfolding parse_call_def
proof (intro placed_bind, clarsimp split: prod.split, intro placed_bind, clarsimp split: prod.split, intro allI impI placed_leaf)
  fix t ts1 ts2 args ts3 out ts4
  assume "parse_triplet ts = Some (t, ts1)" "expect_token TOpenSquareBracket ts1 = Some ts2" "parse_args ts2 = Some (args, ts3)"
    "parse_call_output ts3 = (out, ts4)"
  then show "spans_ordered (Suc left) N ts4"
    using assms parse_triplet_ordered spans_ordered_rests(3) parse_args_ordered parse_call_output_ordered by metis
qed simp

lemma placed_ap:
  assumes "spans_ordered (Suc left) N ts"
  shows "placed left N (parse_ap left ts)"
proof (cases "expect_token TOpenRoundBracket ts")
  case None
  then show ?thesis
    using assms unfolding parse_ap_def
    by (auto simp: parse_ap_argument_def intro!: placed_bind placed_leaf elim!: spans_ordered_rests)
next
  case (Some ts')
  then show ?thesis
    using assms unfolding parse_ap_def
    by (auto simp: parse_ap_argument_def intro!: placed_bind placed_leaf elim!: spans_ordered_rests)
qed

lemma placed_fail_next:
  assumes "spans_ordered (Suc left) N ts"
  shows "placed left N (parse_fail left ts)" "placed left N (parse_next left ts)"
  using assms unfolding parse_fail_def parse_next_def
  by (auto intro!: placed_bind placed_leaf elim!: spans_ordered_rests parse_fail_body_ordered)

lemma placed_canon:
  assumes "spans_ordered (Suc left) N ts"
  shows "placed left N (parse_canon left ts)"
  unfolding parse_canon_def
proof (intro placed_bind, clarify)
  fix peer_id ts'
  assume "one_token peer_id_of_token ts = Some (peer_id, ts')"
  then have "spans_ordered (Suc left) N ts'" using assms spans_ordered_rests(1) by metis
  then show "placed left N (case ts' of
      (_, TStream name pos, _) # (_, TCanonStream name' pos', _) # ts \<Rightarrow>
        reduce left [] (\<lambda>_. ICanon \<lparr>can_peer_id = peer_id, can_stream = variable_of name pos, can_canon_stream = variable_of name' pos'\<rparr>) ts
    | (_, TStreamMap name pos, _) # (_, TCanonStreamMap name' pos', _) # ts \<Rightarrow>
        reduce left []
          (\<lambda>_. ICanonMap \<lparr>cm_peer_id = peer_id, cm_stream_map = variable_of name pos, cm_canon_stream_map = variable_of name' pos'\<rparr>) ts
    | (_, TStreamMap name pos, _) # (_, TScalar name' pos', _) # ts \<Rightarrow>
        reduce left []
          (\<lambda>_. ICanonStreamMapScalar \<lparr>cs_peer_id = peer_id, cs_stream_map = variable_of name pos, cs_scalar = variable_of name' pos'\<rparr>) ts
    | _ \<Rightarrow> None)"
    by (auto split: list.split token.split intro!: placed_leaf intro: spans_ordered_mono)
qed

lemma laid_one: "laid_out i s rs \<Longrightarrow> lo \<le> span_left s \<Longrightarrow> laid_list lo (span_right s) [i] rs"
  using more [OF _ _ none [OF order.refl]] by fastforce

lemma laid_two:
  "laid_out i s rs \<Longrightarrow> lo \<le> span_left s \<Longrightarrow> laid_out j t rs' \<Longrightarrow> span_right s \<le> span_left t
     \<Longrightarrow> laid_list lo (span_right t) [i, j] (rs @ rs')"
  using more [OF _ _ laid_one] .

lemma placed_two:
  assumes p: "lays p" and ts: "spans_ordered (Suc left) N ts" and c: "\<And>l r. children (instr l r) = [l, r]"
  shows "placed left N (parse_two p left instr ts)"
  unfolding parse_two_def
proof (intro placed_bind, clarify, intro placed_bind, clarify)
  fix l rs ts1 r rs' ts2
  assume a: "p ts = Some (l, rs, ts1)" "p ts1 = Some (r, rs', ts2)"
  obtain s where s: "laid_out l s rs" "Suc left \<le> span_left s" "spans_ordered (span_right s) N ts1" using laysD [OF p a(1) ts] .
  obtain t where t: "laid_out r t rs'" "span_right s \<le> span_left t" "spans_ordered (span_right t) N ts2" using laysD [OF p a(2) s(3)] .
  show "placed left N (reduce left (rs @ rs') (\<lambda>_. instr l r) ts2)"
    by (rule placed_reduce [OF laid_two [OF s(1,2) t(1,2)]]) (simp_all add: c t(3))
qed

lemma placed_match:
  assumes p: "lays p" and ts: "spans_ordered (Suc left) N ts" and c: "\<And>l r i. children (instr l r i) = [i]"
  shows "placed left N (parse_match p left instr ts)"
  unfolding parse_match_def parse_value_def
proof (intro placed_bind, clarify, intro placed_bind, clarify, intro placed_bind, clarify)
  fix l ts1 r ts2 i rs ts3
  assume a: "empty_array_or ValEmptyArray value_of_token ts = Some (l, ts1)" "empty_array_or ValEmptyArray value_of_token ts1 = Some (r, ts2)"
    "p ts2 = Some (i, rs, ts3)"
  obtain s where s: "laid_out i s rs" "Suc left \<le> span_left s" "spans_ordered (span_right s) N ts3"
    using laysD [OF p a(3) spans_ordered_rests(2) [OF a(2) spans_ordered_rests(2) [OF a(1) ts]]] .
  show "placed left N (reduce left rs (\<lambda>_. instr l r i) ts3)"
    by (rule placed_reduce [OF laid_one [OF s(1,2)]]) (simp_all add: c s(3))
qed

lemma placed_new:
  assumes p: "lays p" and ts: "spans_ordered (Suc left) N ts"
  shows "placed left N (parse_new p left ts)"
  unfolding parse_new_def
proof (intro placed_bind, clarify, intro placed_bind, clarify)
  fix argument ts1 i rs ts2
  assume a: "one_token new_argument_of_token ts = Some (argument, ts1)" "p ts1 = Some (i, rs, ts2)"
  obtain s where s: "laid_out i s rs" "Suc left \<le> span_left s" "spans_ordered (span_right s) N ts2"
    using laysD [OF p a(2) spans_ordered_rests(1) [OF a(1) ts]] .
  show "placed left N (reduce left rs (INew argument i) ts2)"
    by (rule placed_reduce [OF laid_one [OF s(1,2)]]) (simp_all add: s(3))
qed

lemma fold_children:
  "parse_fold_iterable ts = Some (m, ts') \<Longrightarrow> children (m v i l s) = i # (case l of Some l \<Rightarrow> [l] | None \<Rightarrow> [])"
  by (auto simp: parse_fold_iterable_def split: list.splits prod.splits token.splits)

lemma placed_fold:
  assumes p: "lays p" and ts: "spans_ordered (Suc left) N ts"
  shows "placed left N (parse_fold p left ts)"
  unfolding parse_fold_def
proof (intro placed_bind, clarify, intro placed_bind, clarify, intro placed_bind, clarify, intro placed_bind, clarify)
  fix m ts1 v ts2 i rs ts3 l rs' ts4
  assume a: "parse_fold_iterable ts = Some (m, ts1)" "one_token scalar_of_token ts1 = Some (v, ts2)" "p ts2 = Some (i, rs, ts3)"
    "parse_last_instruction p ts3 = Some (l, rs', ts4)"
  obtain s where s: "laid_out i s rs" "Suc left \<le> span_left s" "spans_ordered (span_right s) N ts3"
    using laysD [OF p a(3) spans_ordered_rests(1) [OF a(2) parse_fold_iterable_ordered [OF a(1) ts]]] .
  show "placed left N (reduce left (rs @ rs') (m v i l) ts4)"
  proof (cases l)
    case None
    then have "ts4 = ts3" "rs' = []" using a(4) by (auto simp: parse_last_instruction_def split: option.splits)
    moreover have "placed left N (reduce left rs (m v i None) ts3)"
      by (rule placed_reduce [OF laid_one [OF s(1,2)]]) (simp_all add: fold_children [OF a(1)] s(3))
    ultimately show ?thesis using None by simp
  next
    case (Some j)
    then have "p ts3 = Some (j, rs', ts4)" using a(4) by (auto simp: parse_last_instruction_def split: option.splits)
    then obtain t where t: "laid_out j t rs'" "span_right s \<le> span_left t" "spans_ordered (span_right t) N ts4" using laysD [OF p _ s(3)] by blast
    show ?thesis
      by (rule placed_reduce [OF laid_two [OF s(1,2) t(1,2)]]) (simp_all add: fold_children [OF a(1)] Some t(3))
  qed
qed

lemma placed_keyword:
  assumes "lays p" "spans_ordered (Suc left) N ts"
  shows "placed left N (parse_keyword p left keyword ts)"
  using assms
  by (auto simp: parse_keyword_def split: token.split
      intro: placed_call placed_ap placed_canon placed_fail_next placed_two placed_match placed_new placed_fold placed_leaf)

lemma lays_parse_instr: "lays (parse_instr n :: 'n tokens \<Rightarrow> 'n parsed option)"
proof (induction n)
  case (Suc n)
  show ?case
    unfolding lays_def
  proof (intro allI impI)
    fix ts rest :: "'n tokens" and i rs lo N
    assume a: "parse_instr (Suc n) ts = Some (i, rs, rest)" "spans_ordered lo N ts"
    then obtain left r0 kl keyword kr ts' where ts: "ts = (left, TOpenRoundBracket, r0) # (kl, keyword, kr) # ts'"
      and k: "parse_keyword (parse_instr n) left keyword ts' = Some (i, rs, rest)"
      by (auto split: list.splits prod.splits token.splits)
    have "spans_ordered (Suc left) N ts'" using a(2) ts by (auto intro: spans_ordered_mono)
    then have "placed left N (parse_keyword (parse_instr n) left keyword ts')" by (rule placed_keyword [OF Suc])
    with k a(2) ts show "\<exists>s. laid_out i s rs \<and> lo \<le> span_left s \<and> spans_ordered (span_right s) N rest"
      unfolding placed_def by fastforce
  qed
qed (simp add: lays_def)

section \<open>The fuel is enough\<close>

lemma one_token_shorter: "one_token f ts = Some (a, ts') \<Longrightarrow> length ts' \<le> length ts"
  by (auto dest: one_token_rest)

lemma empty_array_or_shorter: "empty_array_or e g ts = Some (b, ts') \<Longrightarrow> length ts' \<le> length ts"
  by (auto dest: empty_array_or_rest)

lemma parse_fold_iterable_shorter: "parse_fold_iterable ts = Some (m, ts') \<Longrightarrow> length ts' \<le> length ts"
  by (auto simp: parse_fold_iterable_def dest!: empty_array_or_shorter split: list.splits prod.splits token.splits)

lemma reduce_shorter: "reduce left rs instr ts = Some (i, rs', rest) \<Longrightarrow> length rest \<le> length ts"
  by (auto simp: reduce_def Let_def split: list.splits prod.splits token.splits)

definition shrinks :: "('n tokens \<Rightarrow> 'n parsed option) \<Rightarrow> bool" where
  "shrinks p \<longleftrightarrow> (\<forall>ts i rs rest. p ts = Some (i, rs, rest) \<longrightarrow> length rest \<le> length ts)"

text \<open>Two parsers of the parts that agree on the tokens up to some number agree on a production of so many tokens.\<close>

definition agree_up_to :: "nat \<Rightarrow> ('n tokens \<Rightarrow> 'n parsed option) \<Rightarrow> ('n tokens \<Rightarrow> 'n parsed option) \<Rightarrow> bool" where
  "agree_up_to k p q \<longleftrightarrow> (\<forall>ts x. length ts \<le> k \<longrightarrow> p ts = Some x \<longrightarrow> q ts = Some x)"

lemma agreeD: "agree_up_to k p q \<Longrightarrow> p ts = Some x \<Longrightarrow> length ts \<le> k \<Longrightarrow> q ts = Some x"
  unfolding agree_up_to_def by blast

lemma shrinksD: "shrinks p \<Longrightarrow> p ts = Some (i, rs, rest) \<Longrightarrow> length ts \<le> k \<Longrightarrow> length rest \<le> k"
  unfolding shrinks_def by (meson le_trans)

lemma parse_two_agree:
  assumes "agree_up_to k p q" "shrinks p" "length ts \<le> k" "parse_two p left instr ts = Some x"
  shows "parse_two q left instr ts = Some x"
proof -
  obtain l rs ts1 r rs' ts2 where a: "p ts = Some (l, rs, ts1)" "p ts1 = Some (r, rs', ts2)" "reduce left (rs @ rs') (\<lambda>_. instr l r) ts2 = Some x"
    using assms(4) by (auto simp: parse_two_def bind_eq_Some_conv)
  have "q ts = Some (l, rs, ts1)" "q ts1 = Some (r, rs', ts2)"
    using agreeD [OF assms(1)] a(1,2) assms(3) shrinksD [OF assms(2) a(1) assms(3)] by auto
  with a(3) show ?thesis by (simp add: parse_two_def)
qed

lemma parse_match_agree:
  assumes "agree_up_to k p q" "length ts \<le> k" "parse_match p left instr ts = Some x"
  shows "parse_match q left instr ts = Some x"
proof -
  obtain l ts1 r ts2 i rs ts3 where a: "parse_value ts = Some (l, ts1)" "parse_value ts1 = Some (r, ts2)" "p ts2 = Some (i, rs, ts3)"
      "reduce left rs (\<lambda>_. instr l r i) ts3 = Some x"
    using assms(3) by (auto simp: parse_match_def bind_eq_Some_conv)
  have "length ts2 \<le> k"
    using a(1,2) assms(2) empty_array_or_shorter [of ValEmptyArray value_of_token] unfolding parse_value_def by (meson le_trans)
  then have "q ts2 = Some (i, rs, ts3)" using agreeD [OF assms(1) a(3)] by blast
  with a show ?thesis by (simp add: parse_match_def)
qed

lemma parse_new_agree:
  assumes "agree_up_to k p q" "length ts \<le> k" "parse_new p left ts = Some x"
  shows "parse_new q left ts = Some x"
proof -
  obtain v ts1 i rs ts2 where a: "one_token new_argument_of_token ts = Some (v, ts1)" "p ts1 = Some (i, rs, ts2)" "reduce left rs (INew v i) ts2 = Some x"
    using assms(3) by (auto simp: parse_new_def bind_eq_Some_conv)
  have "length ts1 \<le> k" using one_token_shorter [OF a(1)] assms(2) by simp
  then have "q ts1 = Some (i, rs, ts2)" using agreeD [OF assms(1) a(2)] by blast
  with a show ?thesis by (simp add: parse_new_def)
qed

lemma parse_fold_agree:
  assumes "agree_up_to k p q" "shrinks p" "length ts \<le> k" "parse_fold p left ts = Some x"
  shows "parse_fold q left ts = Some x"
proof -
  obtain m ts1 v ts2 i rs ts3 l rs' ts4 where a: "parse_fold_iterable ts = Some (m, ts1)" "one_token scalar_of_token ts1 = Some (v, ts2)"
      "p ts2 = Some (i, rs, ts3)" "parse_last_instruction p ts3 = Some (l, rs', ts4)" "reduce left (rs @ rs') (m v i l) ts4 = Some x"
    using assms(4) by (auto simp: parse_fold_def bind_eq_Some_conv)
  have k: "length ts2 \<le> k" using parse_fold_iterable_shorter [OF a(1)] one_token_shorter [OF a(2)] assms(3) by simp
  have "parse_last_instruction q ts3 = Some (l, rs', ts4)"
    using a(4) agreeD [OF assms(1) _ shrinksD [OF assms(2) a(3) k]] by (auto simp: parse_last_instruction_def split: option.splits)
  with a agreeD [OF assms(1) a(3) k] show ?thesis by (simp add: parse_fold_def)
qed

lemma parse_keyword_agree:
  "agree_up_to k p q \<Longrightarrow> shrinks p \<Longrightarrow> length ts \<le> k \<Longrightarrow> parse_keyword p left keyword ts = Some x \<Longrightarrow> parse_keyword q left keyword ts = Some x"
  by (cases keyword) (auto simp: parse_keyword_def intro: parse_two_agree parse_match_agree parse_new_agree parse_fold_agree)

lemma expect_token_shorter: "expect_token t ts = Some ts' \<Longrightarrow> length ts' \<le> length ts"
  by (auto simp: expect_token_def split: list.splits if_splits)

lemma parse_args_shorter: "parse_args ts = Some (vs, ts') \<Longrightarrow> length ts' \<le> length ts"
proof (induction ts arbitrary: vs rule: parse_args.induct)
  case (1 ts)
  show ?case
  proof (cases "expect_token TCloseSquareBracket ts")
    case None
    then obtain v ts1 vs1 where p: "parse_value ts = Some (v, ts1)" "parse_args ts1 = Some (vs1, ts')"
      using 1(2) by (subst (asm) parse_args.simps) (auto split: option.splits)
    then show ?thesis
      using 1(1) [OF None p(1) refl p(2)] empty_array_or_shorter [of ValEmptyArray value_of_token ts v ts1] by (simp add: parse_value_def)
  next
    case (Some ts1)
    then show ?thesis using 1(2) expect_token_shorter [OF Some] by (subst (asm) parse_args.simps) simp
  qed
qed

lemmas shorter = one_token_shorter empty_array_or_shorter expect_token_shorter parse_fold_iterable_shorter reduce_shorter parse_args_shorter

lemma parse_fail_body_shorter: "parse_fail_body ts = Some (b, ts') \<Longrightarrow> length ts' \<le> length ts"
  by (cases ts rule: parse_fail_body.cases) auto

lemma parse_triplet_shorter: "parse_triplet ts = Some (t, ts') \<Longrightarrow> length ts' \<le> length ts"
  by (clarsimp simp: parse_triplet_def bind_eq_Some_conv dest!: shorter)

lemma parse_call_output_shorter: "parse_call_output ts = (out, ts') \<Longrightarrow> length ts' \<le> length ts"
  by (auto simp: parse_call_output_def dest: shorter split: option.splits)

text \<open>A production hands on at most \<open>k\<close> tokens.\<close>

definition leaves_at_most :: "nat \<Rightarrow> 'n parsed option \<Rightarrow> bool" where
  "leaves_at_most k r \<longleftrightarrow> (\<forall>i rs rest. r = Some (i, rs, rest) \<longrightarrow> length rest \<le> k)"

lemma leaves_bind: "(\<And>a. x = Some a \<Longrightarrow> leaves_at_most k (f a)) \<Longrightarrow> leaves_at_most k (Option.bind x f)"
  by (cases x) (simp_all add: leaves_at_most_def)

lemma leaves_reduce: "length ts \<le> k \<Longrightarrow> leaves_at_most k (reduce left rs instr ts)"
  by (auto simp: leaves_at_most_def dest: reduce_shorter)

lemma leaves_None [simp]: "leaves_at_most k None"
  by (simp add: leaves_at_most_def)

lemma leaves_canon: "leaves_at_most (length ts) (parse_canon left ts)"
  unfolding parse_canon_def
proof (intro leaves_bind, clarify)
  fix peer_id ts'
  assume "one_token peer_id_of_token ts = Some (peer_id, ts')"
  then have "length ts' \<le> length ts" by (rule one_token_shorter)
  then show "leaves_at_most (length ts) (case ts' of
      (_, TStream name pos, _) # (_, TCanonStream name' pos', _) # ts \<Rightarrow>
        reduce left [] (\<lambda>_. ICanon \<lparr>can_peer_id = peer_id, can_stream = variable_of name pos, can_canon_stream = variable_of name' pos'\<rparr>) ts
    | (_, TStreamMap name pos, _) # (_, TCanonStreamMap name' pos', _) # ts \<Rightarrow>
        reduce left []
          (\<lambda>_. ICanonMap \<lparr>cm_peer_id = peer_id, cm_stream_map = variable_of name pos, cm_canon_stream_map = variable_of name' pos'\<rparr>) ts
    | (_, TStreamMap name pos, _) # (_, TScalar name' pos', _) # ts \<Rightarrow>
        reduce left []
          (\<lambda>_. ICanonStreamMapScalar \<lparr>cs_peer_id = peer_id, cs_stream_map = variable_of name pos, cs_scalar = variable_of name' pos'\<rparr>) ts
    | _ \<Rightarrow> None)"
    by (auto split: list.split token.split intro!: leaves_reduce)
qed

lemma leaves_leaves:
  "leaves_at_most (length ts) (parse_fail left ts)" "leaves_at_most (length ts) (parse_next left ts)"
  "leaves_at_most (length ts) (parse_call left ts)" "leaves_at_most (length ts) (parse_ap left ts)"
  unfolding parse_fail_def parse_next_def parse_call_def parse_ap_def parse_ap_argument_def
  by (auto intro!: leaves_bind leaves_reduce split: option.split prod.split
      dest!: one_token_shorter empty_array_or_shorter expect_token_shorter parse_args_shorter parse_fail_body_shorter
        parse_triplet_shorter parse_call_output_shorter)

lemma leaves_parts:
  assumes "shrinks p"
  shows "leaves_at_most (length ts) (parse_two p left instr ts)" "leaves_at_most (length ts) (parse_match p left instr' ts)"
    "leaves_at_most (length ts) (parse_new p left ts)" "leaves_at_most (length ts) (parse_fold p left ts)"
  unfolding parse_two_def parse_match_def parse_new_def parse_fold_def parse_value_def parse_last_instruction_def
  by (auto intro!: leaves_bind leaves_reduce split: option.splits
      dest!: one_token_shorter empty_array_or_shorter parse_fold_iterable_shorter shrinksD [OF assms _ order.refl])

lemma parse_keyword_shorter: "shrinks p \<Longrightarrow> leaves_at_most (length ts) (parse_keyword p left keyword ts)"
  by (cases keyword) (simp_all add: parse_keyword_def leaves_canon leaves_leaves leaves_parts leaves_reduce)

lemma shrinks_parse_instr: "shrinks (parse_instr n)"
proof (induction n)
  case (Suc n)
  show ?case
    using parse_keyword_shorter [OF Suc] unfolding shrinks_def leaves_at_most_def
    by (fastforce split: list.splits token.splits dest: le_SucI)
qed (simp add: shrinks_def)

lemma parse_instr_agree:
  fixes ts :: "'n tokens"
  assumes "agree_up_to (length ts) (parse_instr n :: 'n tokens \<Rightarrow> 'n parsed option) (parse_instr m)" "parse_instr (Suc n) (t # t' # ts) = Some x"
  shows "parse_instr (Suc m) (t # t' # ts) = Some x"
  using assms(2) parse_keyword_agree [OF assms(1) shrinks_parse_instr order.refl]
  by (auto split: prod.splits token.splits)

lemma parse_instr_tokens: "parse_instr (Suc n) ts = Some x \<Longrightarrow> \<exists>t t' ts'. ts = t # t' # ts'"
  by (auto split: list.splits token.splits)

text \<open>Fuel as many as tokens suffices.\<close>

lemma parse_instr_fuel:
  fixes ts :: "'n tokens"
  shows "parse_instr n ts = Some x \<Longrightarrow> length ts \<le> m \<Longrightarrow> parse_instr m ts = Some x"
proof (induction n arbitrary: m ts x)
  case (Suc n)
  obtain t t' ts' where ts: "ts = t # t' # ts'" using parse_instr_tokens [OF Suc.prems(1)] by blast
  then obtain m' where m: "m = Suc m'" "length ts' \<le> m'" using Suc.prems(2) by (cases m) auto
  have "agree_up_to (length ts') (parse_instr n :: 'n tokens \<Rightarrow> 'n parsed option) (parse_instr m')" using Suc.IH m(2) unfolding agree_up_to_def by (meson le_trans)
  then show ?case using parse_instr_agree Suc.prems(1) unfolding ts m(1) by blast
qed simp

end
