(* ===== verification/Runner.thy ===== *)
theory Runner
  imports Executor Trace_Replay Air_Parser
begin

text \<open>
  One run of the interpreter (\<^verbatim>\<open>air/src/runner.rs\<close>): the size limits and the parsing of data
  (\<^verbatim>\<open>air/src/preparation_step\<close>), the verification step, the execution, and the outcome (\<^verbatim>\<open>air/src/farewell_step\<close>).

  Parameters, in the record \<open>host_ops\<close>: the texts of the reports of the parser, the packages it uses, the binary formats of data, call results
  and call requests, \<^verbatim>\<open>semver\<close> versions, the key packages, the texts of errors, and the orders in which hash maps
  and sets are iterated. The result of a run is \<open>None\<close> when the fuel of the execution is too little.
\<close>

section \<open>Parameters\<close>

record 'ver versions =
  data_version :: 'ver
  interpreter_version :: 'ver

datatype size_limits_exceded = SizeAir nat nat | SizeParticle nat nat | SizeCallResult nat

datatype 'ver preparation_error =
    AIRParseError string
  | DataDeFailed string
  | EnvelopeDeFailed string
  | EnvelopeDeFailedWithVersions string "'ver versions"
  | CallResultsDeFailed string
  | UnsupportedInterpreterVersion 'ver 'ver
  | MalformedKeyPairData key_error
  | PrepCidStoreVerificationError cid_store_verification_error
  | PrepDataSignatureCheckError data_verifier_error
  | SizeLimitsExceded size_limits_exceded

datatype farewell_error = UnprocessedCallResult "string \<rightharpoonup> call_service_result"

record ('n, 'bm, 'mm, 'pk, 'sg, 'kp, 'ver) host_ops =
  air :: "('n, 'bm) air_ops"
  keys :: "('pk, 'sg, 'kp) key_ops"
  front :: "'n front_ops"
  multimaps :: "'mm multimap_ops"
  report_errors :: "'n parse_failure \<Rightarrow> string"
  envelope_decode :: "bytes \<Rightarrow> string + 'ver versions \<times> bytes"
  versions_decode :: "bytes \<Rightarrow> string + 'ver versions"
  envelope_encode :: "'ver versions \<Rightarrow> bytes \<Rightarrow> string + bytes"
  data_decode :: "bytes \<Rightarrow> string + 'n interpreter_data"
  data_encode :: "'n interpreter_data \<Rightarrow> string + bytes"
  call_results_decode :: "bytes \<Rightarrow> string + (string \<times> call_service_result) list"
  call_requests_encode :: "(u32 \<rightharpoonup> call_request_params) \<Rightarrow> string + bytes"
  key_format_decode :: "nat \<Rightarrow> string + key_format"
  kp_from_secret :: "bytes \<Rightarrow> key_format \<Rightarrow> string + 'kp"
  version_less :: "'ver \<Rightarrow> 'ver \<Rightarrow> bool"
  min_supported_version :: 'ver
  own_version :: 'ver
  own_data_version :: 'ver
  preparation_text :: "'ver preparation_error \<Rightarrow> string"
  farewell_text :: "farewell_error \<Rightarrow> string"
  verification_orders :: iteration_orders
  names_order :: "string set \<Rightarrow> string list"
  peers_order :: "string set \<Rightarrow> string list"
  stores_order :: "'n execution_cid_state \<Rightarrow> store_orders"

record soft_limits_triggering =
  slt_air :: bool
  slt_particle :: bool
  slt_call_result :: bool

definition soft_limits_default :: soft_limits_triggering where
  "soft_limits_default = \<lparr>slt_air = False, slt_particle = False, slt_call_result = False\<rparr>"

record host_parameters =
  hp_init_peer_id :: string
  hp_current_peer_id :: string
  hp_timestamp :: nat
  hp_ttl :: u32
  hp_key_format :: nat
  hp_secret_key_bytes :: bytes
  hp_particle_id :: string
  hp_air_size_limit :: nat
  hp_particle_size_limit :: nat
  hp_call_result_size_limit :: nat
  hp_hard_limit_enabled :: bool

record interpreter_outcome =
  out_ret_code :: int
  out_error_message :: string
  out_data :: bytes
  out_next_peer_pks :: "string list"
  out_call_requests :: bytes
  out_air_size_limit_exceeded :: bool
  out_particle_size_limit_exceeded :: bool
  out_call_result_size_limit_exceeded :: bool

definition interpreter_outcome_new ::
    "int \<Rightarrow> string \<Rightarrow> bytes \<Rightarrow> string list \<Rightarrow> bytes \<Rightarrow> soft_limits_triggering \<Rightarrow> interpreter_outcome" where
  "interpreter_outcome_new ret_code msg data peers requests limits =
     \<lparr>out_ret_code = ret_code, out_error_message = msg, out_data = data, out_next_peer_pks = peers, out_call_requests = requests,
      out_air_size_limit_exceeded = slt_air limits, out_particle_size_limit_exceeded = slt_particle limits,
      out_call_result_size_limit_exceeded = slt_call_result limits\<rparr>"

definition INTERPRETER_SUCCESS :: int where
  "INTERPRETER_SUCCESS = 0"

definition PREPARATION_ERROR_START_ID :: int where
  "PREPARATION_ERROR_START_ID = 1"

fun preparation_discriminant :: "'ver preparation_error \<Rightarrow> nat" where
  "preparation_discriminant (AIRParseError _) = 0"
| "preparation_discriminant (DataDeFailed _) = 1"
| "preparation_discriminant (EnvelopeDeFailed _) = 2"
| "preparation_discriminant (EnvelopeDeFailedWithVersions _ _) = 3"
| "preparation_discriminant (CallResultsDeFailed _) = 4"
| "preparation_discriminant (UnsupportedInterpreterVersion _ _) = 5"
| "preparation_discriminant (MalformedKeyPairData _) = 6"
| "preparation_discriminant (PrepCidStoreVerificationError _) = 7"
| "preparation_discriminant (PrepDataSignatureCheckError _) = 8"
| "preparation_discriminant (SizeLimitsExceded _) = 9"

definition preparation_error_code :: "'ver preparation_error \<Rightarrow> int" where
  "preparation_error_code e = PREPARATION_ERROR_START_ID + int (preparation_discriminant e)"

definition farewell_error_code :: "farewell_error \<Rightarrow> int" where
  "farewell_error_code e = FAREWELL_ERRORS_START_ID + 0"

definition signing_error_code :: int where
  "signing_error_code = FAREWELL_ERRORS_START_ID + 1"

section \<open>Preparation\<close>

definition handle_limit_exceeding ::
    "host_parameters \<Rightarrow> 'ver preparation_error \<Rightarrow> (soft_limits_triggering \<Rightarrow> soft_limits_triggering)
       \<Rightarrow> (soft_limits_triggering, unit, 'ver preparation_error) comp" where
  "handle_limit_exceeding params error set_flag =
     and_then (modify set_flag) (\<lambda>_.
     if hp_hard_limit_enabled params then throw error else ret ())"

definition check_against_size_limits ::
    "host_parameters \<Rightarrow> string \<Rightarrow> bytes \<Rightarrow> (soft_limits_triggering, 'ver preparation_error) result" where
  "check_against_size_limits params script raw_current_data =
     (case and_then (if hp_air_size_limit params < length script
         then handle_limit_exceeding params (SizeLimitsExceded (SizeAir (length script) (hp_air_size_limit params)))
                (slt_air_update (\<lambda>_. True))
         else ret ()) (\<lambda>_.
       if hp_particle_size_limit params < length raw_current_data
       then handle_limit_exceeding params
              (SizeLimitsExceded (SizeParticle (length raw_current_data) (hp_particle_size_limit params)))
              (slt_particle_update (\<lambda>_. True))
       else ret ()) soft_limits_default of
     (Ok _, limits) \<Rightarrow> Ok limits
   | (Err e, _) \<Rightarrow> Err e
   | (Panic, _) \<Rightarrow> Panic)"

definition default_data :: "'n interpreter_data" where
  "default_data = \<lparr>data_trace = [], last_call_request_id = 0,
     data_cid_info = \<lparr>value_store = [], tetraplet_store = [], canon_element_store = [], canon_result_store = [],
       service_result_store = []\<rparr>,
     signatures = Map.empty\<rparr>"

text \<open>\<^verbatim>\<open>expect\<close> of a result of a package.\<close>

definition expect :: "'e + 'a \<Rightarrow> ('a, 'f) result" where
  "expect x = (case x of Inl _ \<Rightarrow> Panic | Inr a \<Rightarrow> Ok a)"

definition envelope_new :: "('n, 'bm, 'mm, 'pk, 'sg, 'kp, 'ver) host_ops \<Rightarrow> 'ver \<Rightarrow> ('ver versions \<times> bytes, 'e) result" where
  "envelope_new H ver =
     res_then (expect (data_encode H default_data)) (\<lambda>inner_data.
     Ok (\<lparr>data_version = own_data_version H, interpreter_version = ver\<rparr>, inner_data))"

definition to_envelope_de_error :: "('n, 'bm, 'mm, 'pk, 'sg, 'kp, 'ver) host_ops \<Rightarrow> bytes \<Rightarrow> string \<Rightarrow> 'ver preparation_error" where
  "to_envelope_de_error H raw_bytes de_error =
     (case versions_decode H raw_bytes of
        Inr vs \<Rightarrow> EnvelopeDeFailedWithVersions de_error vs
      | Inl _ \<Rightarrow> EnvelopeDeFailed de_error)"

definition try_to_envelope ::
    "('n, 'bm, 'mm, 'pk, 'sg, 'kp, 'ver) host_ops \<Rightarrow> bytes \<Rightarrow> ('ver versions \<times> bytes, 'ver preparation_error) result" where
  "try_to_envelope H raw_env_data =
     (if raw_env_data = [] then envelope_new H (min_supported_version H)
      else res_map_err (to_envelope_de_error H raw_env_data) (of_sum (envelope_decode H raw_env_data)))"

definition try_to_data ::
    "('n, 'bm, 'mm, 'pk, 'sg, 'kp, 'ver) host_ops \<Rightarrow> bytes \<Rightarrow> ('n interpreter_data, 'ver preparation_error) result" where
  "try_to_data H raw_data = res_map_err DataDeFailed (of_sum (data_decode H raw_data))"

definition check_version_compatibility ::
    "('n, 'bm, 'mm, 'pk, 'sg, 'kp, 'ver) host_ops \<Rightarrow> 'ver versions \<Rightarrow> (unit, 'ver preparation_error) result" where
  "check_version_compatibility H vs =
     (if version_less H (interpreter_version vs) (min_supported_version H)
      then Err (UnsupportedInterpreterVersion (interpreter_version vs) (min_supported_version H)) else Ok ())"

definition parse_data ::
    "('n, 'bm, 'mm, 'pk, 'sg, 'kp, 'ver) host_ops \<Rightarrow> bytes \<Rightarrow> bytes
       \<Rightarrow> ('n interpreter_data \<times> 'n interpreter_data, 'ver preparation_error) result" where
  "parse_data H prev_data current_data =
     res_then (try_to_envelope H prev_data) (\<lambda>prev_envelope.
     res_then (try_to_envelope H current_data) (\<lambda>current_envelope.
     res_then (check_version_compatibility H (fst current_envelope)) (\<lambda>_.
     res_then (try_to_data H (snd prev_envelope)) (\<lambda>prev_data.
     res_then (try_to_data H (snd current_envelope)) (\<lambda>current_data.
     Ok (prev_data, current_data))))))"

definition run_params_of :: "host_parameters \<Rightarrow> run_parameters" where
  "run_params_of p = \<lparr>rp_init_peer_id = hp_init_peer_id p, rp_current_peer_id = hp_current_peer_id p,
     rp_salt = hp_particle_id p, rp_timestamp = hp_timestamp p, rp_ttl = hp_ttl p\<rparr>"

definition make_exec_ctx ::
    "('n, 'bm, 'mm, 'pk, 'sg, 'kp, 'ver) host_ops \<Rightarrow> 'n exec_ctx_ingredients \<Rightarrow> 'n exec_ctx_ingredients \<Rightarrow> bytes \<Rightarrow> signature_store
       \<Rightarrow> host_parameters \<Rightarrow> (soft_limits_triggering, 'n execution_ctx, 'ver preparation_error) comp" where
  "make_exec_ctx H prev_ingredients current_ingredients raw_call_results sigs params =
     and_then (lift (res_map_err CallResultsDeFailed (of_sum (call_results_decode H raw_call_results)))) (\<lambda>results.
     and_then (if list_ex (\<lambda>(_, r). hp_call_result_size_limit params < length (csr_result r)) results
       then handle_limit_exceeding params (SizeLimitsExceded (SizeCallResult (hp_call_result_size_limit params)))
              (slt_call_result_update (\<lambda>_. True))
       else ret ()) (\<lambda>_.
     ret (execution_ctx_new (numbers (air H)) prev_ingredients current_ingredients (map_of results) sigs (run_params_of params))))"

record ('n, 'bm, 'kp) preparation_descriptor =
  pd_exec_ctx :: "'n execution_ctx"
  pd_trace_handler :: "'bm trace_handler"
  pd_air :: "'n instruction"
  pd_keypair :: 'kp

definition ingredients_of :: "'n interpreter_data \<Rightarrow> 'n exec_ctx_ingredients" where
  "ingredients_of d = \<lparr>ing_last_call_request_id = last_call_request_id d, ing_cid_info = data_cid_info d\<rparr>"

text \<open>\<^verbatim>\<open>air_parser::parse\<close>\<close>

definition parse_air :: "('n, 'bm, 'mm, 'pk, 'sg, 'kp, 'ver) host_ops \<Rightarrow> string \<Rightarrow> ('n instruction, string) result" where
  "parse_air H air_script = res_map_err (report_errors H) (parse_script (front H) (multimaps H) air_script)"

definition prepare ::
    "('n, 'bm, 'mm, 'pk, 'sg, 'kp, 'ver) host_ops \<Rightarrow> 'n interpreter_data \<Rightarrow> 'n interpreter_data \<Rightarrow> string \<Rightarrow> bytes \<Rightarrow> host_parameters
       \<Rightarrow> signature_store \<Rightarrow> (soft_limits_triggering, ('n, 'bm, 'kp) preparation_descriptor, 'ver preparation_error) comp" where
  "prepare H prev_data current_data raw_air raw_call_results params sigs =
     and_then (lift (res_map_err AIRParseError (parse_air H raw_air))) (\<lambda>script.
     and_then (make_exec_ctx H (ingredients_of prev_data) (ingredients_of current_data) raw_call_results sigs params) (\<lambda>ctx.
     and_then (lift (handler_from_trace (bimaps (air H)) (data_trace prev_data) (data_trace current_data))) (\<lambda>th.
     and_then (lift (res_map_err (\<lambda>e. MalformedKeyPairData (InvalidKeyData e)) (of_sum (key_format_decode H (hp_key_format params))))) (\<lambda>fmt.
     and_then (lift (res_map_err MalformedKeyPairData
       (res_then (res_map_err InvalidKeyData (of_sum (kp_from_secret H (hp_secret_key_bytes params) fmt))) (key_pair_new (keys H))))) (\<lambda>kp.
     ret \<lparr>pd_exec_ctx = ctx, pd_trace_handler = th, pd_air = script, pd_keypair = kp\<rparr>)))))"

section \<open>Outcomes\<close>

definition from_uncatchable_error ::
    "('n, 'bm, 'mm, 'pk, 'sg, 'kp, 'ver) host_ops \<Rightarrow> bytes \<Rightarrow> int \<Rightarrow> string \<Rightarrow> soft_limits_triggering \<Rightarrow> (interpreter_outcome, 'e) result" where
  "from_uncatchable_error H data code msg limits =
     res_then (expect (call_requests_encode H Map.empty)) (\<lambda>requests.
     Ok (interpreter_outcome_new code msg data [] requests limits))"

definition execution_error_into_outcome ::
    "('n, 'bm, 'mm, 'pk, 'sg, 'kp, 'ver) host_ops \<Rightarrow> 'n execution_error \<Rightarrow> soft_limits_triggering \<Rightarrow> interpreter_outcome" where
  "execution_error_into_outcome H e limits = interpreter_outcome_new (to_error_code e) (error_text (air H) e) [] [] [] limits"

definition signing_error_into_outcome :: "string \<Rightarrow> soft_limits_triggering \<Rightarrow> interpreter_outcome" where
  "signing_error_into_outcome e limits = interpreter_outcome_new signing_error_code e [] [] [] limits"

definition compactify_streams ::
    "('n, 'bm, 'mm, 'pk, 'sg, 'kp, 'ver) host_ops \<Rightarrow> soft_limits_triggering \<Rightarrow> (('n, 'bm) exec_state, unit, interpreter_outcome) comp" where
  "compactify_streams H limits =
     map_err (\<lambda>e. execution_error_into_outcome H e limits)
       (and_then (gets (\<lambda>s. names_order H (dom (streams_by_name (streams_of (fst s)))))) (\<lambda>order.
        and_then (zoom_with_trace streams_of streams_of_update (streams_compactify get_trace_pos order)) (\<lambda>_.
        and_then (gets (\<lambda>s. names_order H (dom (maps_by_name (stream_maps_of (fst s)))))) (\<lambda>order.
        zoom_with_trace stream_maps_of stream_maps_of_update (stream_maps_compactify order)))))"

definition sign_result ::
    "('n, 'bm, 'mm, 'pk, 'sg, 'kp, 'ver) host_ops \<Rightarrow> 'kp \<Rightarrow> soft_limits_triggering \<Rightarrow> (('n, 'bm) exec_state, unit, interpreter_outcome) comp" where
  "sign_result H kp limits =
     and_then (gets fst) (\<lambda>ctx.
     and_then (lift (res_map_err (\<lambda>e. signing_error_into_outcome e limits)
       (gen_signature (keys H) (rp_salt (run_params ctx)) kp (cid_tracker ctx)))) (\<lambda>sig.
     update_ctx (signatures_of_update (signature_put (key_pair_public (keys H) kp) sig))))"

definition from_execution_result ::
    "('n, 'bm, 'mm, 'pk, 'sg, 'kp, 'ver) host_ops \<Rightarrow> ('n, 'bm) exec_state \<Rightarrow> 'n interpreter_data" where
  "from_execution_result H s = \<lparr>data_trace = into_result_trace (snd s), last_call_request_id = last_request_id (fst s),
     data_cid_info = cid_state_into_info (stores_order H (cid_state (fst s))) (cid_state (fst s)),
     signatures = signatures_of (fst s)\<rparr>"

definition populate_outcome_from_contexts ::
    "('n, 'bm, 'mm, 'pk, 'sg, 'kp, 'ver) host_ops \<Rightarrow> int \<Rightarrow> string \<Rightarrow> 'kp \<Rightarrow> soft_limits_triggering \<Rightarrow> ('n, 'bm) exec_state
       \<Rightarrow> (interpreter_outcome, interpreter_outcome) result" where
  "populate_outcome_from_contexts H ret_code msg kp limits s =
     (case and_then (compactify_streams H limits) (\<lambda>_. sign_result H kp limits) s of
        (Panic, _) \<Rightarrow> Panic
      | (Err outcome, _) \<Rightarrow> Ok outcome
      | (Ok _, s) \<Rightarrow>
          res_then (expect (data_encode H (from_execution_result H s))) (\<lambda>inner_data.
          res_then (expect (envelope_encode H \<lparr>data_version = own_data_version H, interpreter_version = own_version H\<rparr> inner_data)) (\<lambda>data.
          res_then (expect (call_requests_encode H (call_requests (fst s)))) (\<lambda>requests.
          Ok (interpreter_outcome_new ret_code msg data (peers_order H (set (next_peer_pks (fst s)))) requests limits)))))"

definition from_success_result ::
    "('n, 'bm, 'mm, 'pk, 'sg, 'kp, 'ver) host_ops \<Rightarrow> 'kp \<Rightarrow> soft_limits_triggering \<Rightarrow> ('n, 'bm) exec_state
       \<Rightarrow> (interpreter_outcome, interpreter_outcome) result" where
  "from_success_result H kp limits s =
     (let (ret_code, msg) = (if dom (call_results (fst s)) = {} then (INTERPRETER_SUCCESS, [])
        else let farewell_error = UnprocessedCallResult (call_results (fst s)) in
          (farewell_error_code farewell_error, farewell_text H farewell_error)) in
      populate_outcome_from_contexts H ret_code msg kp limits s)"

definition from_execution_error ::
    "('n, 'bm, 'mm, 'pk, 'sg, 'kp, 'ver) host_ops \<Rightarrow> 'n execution_error \<Rightarrow> 'kp \<Rightarrow> soft_limits_triggering \<Rightarrow> ('n, 'bm) exec_state
       \<Rightarrow> (interpreter_outcome, interpreter_outcome) result" where
  "from_execution_error H e kp limits s = populate_outcome_from_contexts H (to_error_code e) (error_text (air H) e) kp limits s"

section \<open>A run\<close>

text \<open>\<^verbatim>\<open>Err(outcome)\<close> of an outcome that is computed, or a panic.\<close>

fun as_error :: "('a, 'a) result \<Rightarrow> ('a, 'a) result" where
  "as_error (Ok outcome) = Err outcome"
| "as_error r = r"

type_synonym run_result = "(interpreter_outcome, interpreter_outcome) result option"

text \<open>The macro \<^verbatim>\<open>farewell_if_fail!\<close>, for preparation errors and for the execution errors of the signing step.\<close>

definition farewell_if_fail ::
    "('n, 'bm, 'mm, 'pk, 'sg, 'kp, 'ver) host_ops \<Rightarrow> bytes \<Rightarrow> soft_limits_triggering \<Rightarrow> ('e \<Rightarrow> int \<times> string)
       \<Rightarrow> ('a, 'e) result \<Rightarrow> ('a \<Rightarrow> run_result) \<Rightarrow> run_result" where
  "farewell_if_fail H raw_prev_data limits describe r k =
     (case r of
        Ok a \<Rightarrow> k a
      | Err e \<Rightarrow> (let (code, msg) = describe e in Some (as_error (from_uncatchable_error H raw_prev_data code msg limits)))
      | Panic \<Rightarrow> Some Panic)"

definition describe_preparation ::
    "('n, 'bm, 'mm, 'pk, 'sg, 'kp, 'ver) host_ops \<Rightarrow> 'ver preparation_error \<Rightarrow> int \<times> string" where
  "describe_preparation H e = (preparation_error_code e, preparation_text H e)"

definition describe_execution :: "('n, 'bm, 'mm, 'pk, 'sg, 'kp, 'ver) host_ops \<Rightarrow> 'n execution_error \<Rightarrow> int \<times> string" where
  "describe_execution H e = (to_error_code e, error_text (air H) e)"

fun verification_error_into :: "verification_step_error \<Rightarrow> 'ver preparation_error" where
  "verification_error_into (CidStoreVerificationError e) = PrepCidStoreVerificationError e"
| "verification_error_into (DataSignatureCheckError e) = PrepDataSignatureCheckError e"

definition finish_run ::
    "('n, 'bm, 'mm, 'pk, 'sg, 'kp, 'ver) host_ops \<Rightarrow> bytes \<Rightarrow> 'kp \<Rightarrow> soft_limits_triggering \<Rightarrow> (unit, 'n exec_stop) result
       \<Rightarrow> ('n, 'bm) exec_state \<Rightarrow> run_result" where
  "finish_run H raw_prev_data kp limits exec_result s =
     (case exec_result of
        Ok _ \<Rightarrow> Some (from_success_result H kp limits s)
      | Err (Stop e) \<Rightarrow>
          if is_catchable e then Some (as_error (from_execution_error H e kp limits s))
          else Some (as_error (from_uncatchable_error H raw_prev_data (to_error_code e) (error_text (air H) e) limits))
      | Err OutOfFuel \<Rightarrow> None
      | Panic \<Rightarrow> Some Panic)"

definition execute_and_farewell ::
    "nat \<Rightarrow> ('n, 'bm, 'mm, 'pk, 'sg, 'kp, 'ver) host_ops \<Rightarrow> bytes \<Rightarrow> string \<Rightarrow> ('n, 'bm, 'kp) preparation_descriptor \<Rightarrow> soft_limits_triggering
       \<Rightarrow> run_result" where
  "execute_and_farewell n H raw_prev_data salt pd limits =
     (case execute n (air H) (pd_air pd) (pd_exec_ctx pd, pd_trace_handler pd) of
        (Panic, _) \<Rightarrow> Some Panic
      | (Err OutOfFuel, _) \<Rightarrow> None
      | (exec_result, (ctx, th)) \<Rightarrow>
          (case sign_produced_cids (keys H) (cid_tracker ctx) salt (pd_keypair pd) (signatures_of ctx) of
             (r, sigs) \<Rightarrow> farewell_if_fail H raw_prev_data limits (describe_execution H) r (\<lambda>_.
               finish_run H raw_prev_data (pd_keypair pd) limits exec_result (ctx\<lparr>signatures_of := sigs\<rparr>, th))))"

definition execute_air_impl ::
    "nat \<Rightarrow> ('n, 'bm, 'mm, 'pk, 'sg, 'kp, 'ver) host_ops \<Rightarrow> string \<Rightarrow> bytes \<Rightarrow> bytes \<Rightarrow> host_parameters \<Rightarrow> bytes \<Rightarrow> run_result" where
  "execute_air_impl n H script raw_prev_data raw_current_data params raw_call_results =
     farewell_if_fail H raw_prev_data soft_limits_default (describe_preparation H)
       (check_against_size_limits params script raw_current_data) (\<lambda>limits.
     farewell_if_fail H raw_prev_data limits (describe_preparation H)
       (check_against_size_limits params script raw_current_data) (\<lambda>_.
     farewell_if_fail H raw_prev_data limits (describe_preparation H) (parse_data H raw_prev_data raw_current_data) (\<lambda>(prev_data, current_data).
     let salt = hp_particle_id params in
     farewell_if_fail H raw_prev_data limits (describe_preparation H)
       (res_map_err verification_error_into
         (verify_step (cids (air H)) (serdes (air H)) (keys H) (verification_orders H) prev_data current_data salt)) (\<lambda>sigs.
     case prepare H prev_data current_data script raw_call_results params sigs limits of
       (r, limits) \<Rightarrow> farewell_if_fail H raw_prev_data limits (describe_preparation H) r (\<lambda>pd.
         execute_and_farewell n H raw_prev_data salt pd limits)))))"

text \<open>\<^verbatim>\<open>unwrap_or_else(identity)\<close>\<close>

definition execute_air ::
    "nat \<Rightarrow> ('n, 'bm, 'mm, 'pk, 'sg, 'kp, 'ver) host_ops \<Rightarrow> string \<Rightarrow> bytes \<Rightarrow> bytes \<Rightarrow> host_parameters \<Rightarrow> bytes
       \<Rightarrow> (interpreter_outcome, unit) result option" where
  "execute_air n H script prev_data data params raw_call_results =
     map_option (\<lambda>r. case r of Ok outcome \<Rightarrow> Ok outcome | Err outcome \<Rightarrow> Ok outcome | Panic \<Rightarrow> Panic)
       (execute_air_impl n H script prev_data data params raw_call_results)"

end
