(* ===== verification/Exec_Properties.thy ===== *)
theory Exec_Properties
  imports Exec_Footprint Exec_Termination Runner
begin

text \<open>
  Properties of executions of a script, from the interpretations of \<open>footprint_relation\<close>.
\<close>

section \<open>Requests, results and tracked CIDs\<close>

definition requests_extended :: "('n, 'bm) exec_state \<Rightarrow> ('n, 'bm) exec_state \<Rightarrow> bool" where
  "requests_extended s t \<longleftrightarrow>
     last_request_id (fst s) \<le> last_request_id (fst t)
     \<and> dom (call_requests (fst t)) = dom (call_requests (fst s)) \<union> {last_request_id (fst s)<..last_request_id (fst t)}
     \<and> (\<forall>i \<le> last_request_id (fst s). call_requests (fst t) i = call_requests (fst s) i)"

lemma requests_extended_add:
  assumes "u32_add (last_request_id ctx) 1 = (Ok i :: (u32, unit) result)"
  shows "requests_extended (ctx, th) (ctx\<lparr>last_request_id := i, call_requests := (call_requests ctx)(i \<mapsto> params)\<rparr>, th)"
proof -
  let ?l = "last_request_id ctx"
  have i: "unat i = unat ?l + 1"
    using assms by (auto simp: u32_add_cases unat_add_u32 split: if_splits)
  then have l: "{?l<..i} = {i}" "?l < i" by (auto simp: word_less_nat_alt word_le_nat_alt word_unat_eq_iff)
  then show ?thesis by (auto simp: requests_extended_def)
qed

lemma requests_extended_trans: "requests_extended s t \<Longrightarrow> requests_extended t u \<Longrightarrow> requests_extended s u"
  unfolding requests_extended_def by (auto simp: ivl_disj_un_two dest: order.trans)

interpretation requests: footprint_relation requests_extended A for A
  by unfold_locales
    (erule (1) requests_extended_trans | erule requests_extended_add | simp add: requests_extended_def same_footprint_def)+

text \<open>The other parts: results are only taken, CIDs only added, the rest stays.\<close>

definition records_extended :: "('n, 'bm) exec_state \<Rightarrow> ('n, 'bm) exec_state \<Rightarrow> bool" where
  "records_extended s t \<longleftrightarrow>
     call_results (fst t) \<subseteq>\<^sub>m call_results (fst s)
     \<and> current_peer_id (cid_tracker (fst t)) = current_peer_id (cid_tracker (fst s))
     \<and> (\<exists>cs. peer_cids (cid_tracker (fst t)) = peer_cids (cid_tracker (fst s)) @ cs)
     \<and> run_params (fst t) = run_params (fst s) \<and> signatures_of (fst t) = signatures_of (fst s)"

interpretation records: footprint_relation records_extended A for A
proof unfold_locales
  fix s t u :: "('a, 'b) exec_state"
  assume "records_extended s t" "records_extended t u"
  then show "records_extended s u" unfolding records_extended_def by (auto intro: map_le_trans)
qed (auto simp: records_extended_def same_footprint_def register_def map_le_def dom_def)

definition handler_invariant_kept :: "('n, 'bm) exec_state \<Rightarrow> ('n, 'bm) exec_state \<Rightarrow> bool" where
  "handler_invariant_kept s t \<longleftrightarrow> (\<forall>p c. handler_inv p c (snd s) \<longrightarrow> handler_inv p c (snd t))"

interpretation closable: footprint_relation handler_invariant_kept A for A
  by unfold_locales (auto simp: handler_invariant_kept_def intro: handler_step_inv)

section \<open>Examples\<close>

definition example_air :: "(int, trace_pos \<Rightarrow> trace_pos option) air_ops" where
  "example_air = \<lparr>numbers = int_numbers, cids = plain_cids, serdes = plain_serde, bimaps = fun_bimap,
     json_text = (\<lambda>_. ''json''), json_parse = (\<lambda>s. if s = ''true'' then Inr (JBool True) else Inl ''not json''),
     json_value = (\<lambda>_. Inr ''v''), json_values = (\<lambda>_. Inr ''vs''), arguments_repr = (\<lambda>_. Inr ''args''),
     tetraplets_repr = (\<lambda>_. Inr ''tetraplets''), key_order = (\<lambda>_. []), failed_to_value = (\<lambda>_ _. JNull),
     failed_from_value = (\<lambda>_. Inl ''no''), error_text = (\<lambda>_. ''error''), tetraplet_debug = (\<lambda>_. ''tetraplet'')\<rparr>"

definition example_call :: "string \<Rightarrow> int call_ast" where
  "example_call peer = \<lparr>call_triplet = \<lparr>trip_peer_id = PeerLiteral peer, trip_service_id = StrLiteral ''s'',
     trip_function_name = StrLiteral ''f''\<rparr>, call_args = [], call_output = OutNone\<rparr>"

definition empty_ingredients :: "int exec_ctx_ingredients" where
  "empty_ingredients = \<lparr>ing_last_call_request_id = 0, ing_cid_info = data_cid_info default_data\<rparr>"

definition example_params :: run_parameters where
  "example_params = \<lparr>rp_init_peer_id = ''p'', rp_current_peer_id = ''p'', rp_salt = ''salt'', rp_timestamp = 0, rp_ttl = 0\<rparr>"

definition example_state :: "(int, trace_pos \<Rightarrow> trace_pos option) exec_state" where
  "example_state = (execution_ctx_new int_numbers empty_ingredients empty_ingredients Map.empty Map.empty example_params, example_handler [] [])"

lemma example_call_start: "meet_call_start fun_bimap (example_handler [] []) = (Ok CallNotMet, example_handler [] [])"
proof -
  let ?d = "example_keeper [] [] :: (trace_pos \<Rightarrow> trace_pos option) data_keeper"
  have sl: "prev_slider ?d = example_slider []" "current_slider ?d = example_slider []" "result_trace ?d = []"
    by (simp_all add: example_keeper_def prev_slider_def current_slider_def)
  have "slider_in_trace (example_slider [])" "remaining (example_slider []) = []" using example_slider_wf [of "[]"] by simp_all
  then have "step_sliders ?d = ?d" using sl by (simp add: step_sliders_def step_slider_def) (simp add: example_keeper_def)
  then show ?thesis
    using \<open>remaining (example_slider []) = []\<close> sl
    by (simp add: meet_call_start_def map_err_def on_data_keeper_eq example_handler_def try_merge_call_eq example_keeper_wf)
qed

lemma example_call_runs:
  "\<exists>t. execute 1 example_air (ICall (example_call ''p'')) example_state = (Ok (), t) \<and> last_request_id (fst t) = 1"
  by (simp add: execute_instruction_def leaf_def execute_call_def example_state_def example_call_def
    on_ctx_def zoom_def meet_call_def and_then_def map_err_def joinable_or_eq with_ctx_def resolved_call_new_def resolve_triplet_def
    check_output_name_def Let_def execution_ctx_new_def resolved_call_execute_def check_args_def hash_args_def example_air_def
    prepare_current_executed_state_def on_trace_def trace_to_exec_err_def example_call_start
    send_request_def prepare_request_params_def resolve_args_def next_call_request_id_def update_ctx_def call_end_def ignore_result_def
    example_params_def u32_add_cases instruction_tracker_default_def empty_ingredients_def value_to_json_cid_def plain_cids_def
    tetraplet_from_triplet_def descriptor_no_previous_state_def meet_call_end_def push_state_def on_data_keeper_eq
    make_subgraph_incomplete_def value_json_hash_def)

lemma settled_all: "settled (stop_in (\<lambda>_. True)) r \<longleftrightarrow> r \<noteq> Panic \<and> r \<noteq> Err OutOfFuel"
proof (cases r)
  case (Err x)
  then show ?thesis by (cases x) auto
qed auto

section \<open>What an execution may change\<close>

text \<open>C12. An execution that does not panic, whatever its outcome, only adds call requests: the requests there were stay as they
  were and the new ones have exactly the consecutive numbers after the last one used.\<close>

theorem execution_requests_fresh:
  assumes "execute n A i s = (r, t)" "r \<noteq> Panic" "r \<noteq> Err OutOfFuel"
  shows "last_request_id (fst s) \<le> last_request_id (fst t)
    \<and> dom (call_requests (fst t)) = dom (call_requests (fst s)) \<union> {last_request_id (fst s)<..last_request_id (fst t)}
    \<and> (\<forall>k \<le> last_request_id (fst s). call_requests (fst t) k = call_requests (fst s) k)"
  using requests.execute_related [OF assms(1)] assms(2,3) by (simp add: settled_all requests_extended_def)

theorem execution_requests_fresh_witness:
  "\<exists>t. execute 1 example_air (ICall (example_call ''p'')) example_state = (Ok (), t) \<and> dom (call_requests (fst t)) = {0<..1}"
proof -
  obtain t where t: "execute 1 example_air (ICall (example_call ''p'')) example_state = (Ok (), t)" "last_request_id (fst t) = 1"
    using example_call_runs by blast
  have "last_request_id (fst example_state) = 0" "call_requests (fst example_state) = Map.empty"
    by (simp_all add: example_state_def execution_ctx_new_def empty_ingredients_def)
  then show ?thesis using execution_requests_fresh [OF t(1)] t by auto
qed

text \<open>An execution that does not panic consumes call results and never adds or changes one, appends to the CIDs the peer has
  to sign and removes none, and leaves the parameters of the run and the signatures as they are.\<close>

theorem execution_records_kept:
  assumes "execute n A i s = (r, t)" "r \<noteq> Panic" "r \<noteq> Err OutOfFuel"
  shows "call_results (fst t) \<subseteq>\<^sub>m call_results (fst s)
    \<and> (\<exists>cs. peer_cids (cid_tracker (fst t)) = peer_cids (cid_tracker (fst s)) @ cs)
    \<and> run_params (fst t) = run_params (fst s) \<and> signatures_of (fst t) = signatures_of (fst s)"
  using records.execute_related [OF assms(1)] assms(2,3) by (simp add: settled_all records_extended_def)

theorem execution_records_kept_witness:
  "\<exists>t. execute 1 example_air (ICall (example_call ''p'')) example_state = (Ok (), t) \<and> run_params (fst t) = example_params"
proof -
  obtain t where t: "execute 1 example_air (ICall (example_call ''p'')) example_state = (Ok (), t)" using example_call_runs by blast
  have "run_params (fst example_state) = example_params" by (simp add: example_state_def execution_ctx_new_def)
  then show ?thesis using execution_records_kept [OF t] t by auto
qed

text \<open>C14. An execution that starts with a trace handler over two traces, as the runner makes it, and does not panic, whatever its
  outcome, leaves a handler with both traces intact and windows of the sliders that lie inside the traces unless they are empty. The
  right subgraph of the last par it still has open and every fold it still has open can be ended without an error or a panic. The end
  of the left subgraph of this par returns no error, and returns successfully when the traces are shorter than $2^{31}$ states and both sliders stand
  inside their traces.\<close>

theorem execution_handler_closable:
  assumes "execute n A i s = (r, t)" "r \<noteq> Panic" "r \<noteq> Err OutOfFuel"
    and "handler_from_trace B prev cur = Ok (snd s)"
  shows "ts_trace (prev_slider (data_keeper (snd t))) = prev \<and> ts_trace (current_slider (data_keeper (snd t))) = cur
    \<and> keeper_wf (data_keeper (snd t))
    \<and> (par_stack (fsm_keeper (snd t)) \<noteq> [] \<longrightarrow>
        (\<exists>u. meet_par_subgraph_end SubgraphRight (snd t) = (Ok (), u))
        \<and> (\<forall>e u. meet_par_subgraph_end SubgraphLeft (snd t) \<noteq> (Err e, u))
        \<and> (2 * length prev < u32_bound \<and> 2 * length cur < u32_bound \<and> keeper_in_trace (data_keeper (snd t)) \<longrightarrow>
            (\<exists>u. meet_par_subgraph_end SubgraphLeft (snd t) = (Ok (), u))))
    \<and> (\<forall>f. fold_map (fsm_keeper (snd t)) f \<noteq> None \<longrightarrow> (\<exists>u. meet_fold_end f (snd t) = (Ok (), u)))"
proof -
  have inv: "handler_inv prev cur (snd t)"
    using closable.execute_related [OF assms(1)] assms(2,3) handler_new_inv [OF assms(4)]
    by (simp add: settled_all handler_invariant_kept_def)
  show ?thesis using inv closing_succeeds [OF inv] left_end_outcome [OF inv] by (simp add: handler_inv_def)
qed

text \<open>A par whose left subgraph ends with an uncatchable error stays open.\<close>

definition example_open_par :: "int instruction" where
  "example_open_par = IPar (INext \<lparr>var_name = ''x'', var_position = 0\<rparr>) INull"

lemma example_open_par_runs:
  "\<exists>e t. execute 2 example_air example_open_par example_state = (Err (Stop e), t) \<and> par_stack (fsm_keeper (snd t)) \<noteq> []"
proof -
  obtain f d where "meet_par_start (example_handler [] []) = (Ok (), \<lparr>data_keeper = d, fsm_keeper = push_par f fsm_keeper_default\<rparr>)"
    using example_par_start by blast
  then show ?thesis
    by (simp add: example_open_par_def numeral_2_eq_2 execute_instruction_def execute_par_def traced_def and_then_def example_state_def
        leaf_def map_err_def on_trace_def zoom_def trace_to_exec_err_def execute_subgraph_def update_ctx_def attempt_def execute_next_def
        get_fold_state_def get_iterable_def with_ctx_def Let_def with_errors_def set_subgraph_completeness_def execution_ctx_new_def
        scalars_new_def push_par_def)
qed

theorem execution_handler_closable_witness:
  "\<exists>e t u. execute 2 example_air example_open_par example_state = (Err (Stop e), t) \<and> par_stack (fsm_keeper (snd t)) \<noteq> []
    \<and> meet_par_subgraph_end SubgraphRight (snd t) = (Ok (), u)"
proof -
  obtain e t where t: "execute 2 example_air example_open_par example_state = (Err (Stop e), t)" "par_stack (fsm_keeper (snd t)) \<noteq> []"
    using example_open_par_runs by blast
  have "handler_from_trace fun_bimap [] [] = Ok (snd example_state)" by (simp add: example_state_def example_handler_new)
  then show ?thesis using execution_handler_closable [OF t(1)] t by auto
qed

section \<open>Scopes\<close>

text \<open>C13. An execution that succeeds or fails with a catchable error gives back the scalars, canonicalized streams and maps it
  found: what was visible at an outer depth is still there under the same name with the same value, the depth is the one at the
  start, and the folds that run are those that ran, each with its body and its last instruction, at the item it was or a later one.\<close>

theorem execution_scopes_restored:
  assumes "execute n A i s = (r, t)" "r = Ok () \<or> (\<exists>e. r = Err (Stop e) \<and> is_catchable e)"
    and "scalars_wf (scalars_of (fst s))"
  shows "scalars_frame (scalars_of (fst s)) (scalars_of (fst t))"
  using scopes.execute_related [OF assms(1)] assms(2,3) by (auto simp: scalars_kept_def)

lemma example_state_wf: "scalars_wf (scalars_of (fst example_state))"
  "iterable_variables (scalars_of (fst example_state)) = Map.empty"
  by (simp_all add: example_state_def execution_ctx_new_def scalars_new_def scalars_wf_def sparse_wf_new)

theorem execution_scopes_restored_witness:
  "\<exists>t. execute 1 example_air (ICall (example_call ''p'')) example_state = (Ok (), t)
    \<and> scalars_frame (scalars_of (fst example_state)) (scalars_of (fst t))"
proof -
  obtain t where t: "execute 1 example_air (ICall (example_call ''p'')) example_state = (Ok (), t)" using example_call_runs by blast
  then show ?thesis using execution_scopes_restored [OF t _ example_state_wf(1)] by auto
qed

section \<open>Termination\<close>

text \<open>More fuel never changes an execution that ended.\<close>

theorem more_fuel_same_result:
  assumes "execute n A i s = (r, t)" "r \<noteq> Err OutOfFuel" "n \<le> m"
  shows "execute m A i s = (r, t)"
  using agreesD [OF more_fuel [OF assms(3)] assms(1,2)] .

theorem more_fuel_same_result_witness:
  "fst (execute 5 example_air (ICall (example_call ''p'')) example_state) = Ok ()"
proof -
  obtain t where t: "execute 1 example_air (ICall (example_call ''p'')) example_state = (Ok (), t)" using example_call_runs by blast
  show ?thesis using more_fuel_same_result [OF t, of 5] by simp
qed

lemma fresh_script_halts:
  assumes "nexts_ok i" "free_nexts i = {}"
    and "scalars_wf (scalars_of (fst s))" "iterable_variables (scalars_of (fst s)) = Map.empty"
  shows "halts (\<lambda>n. execute n A i) s"
proof -
  have "ready (fold_names i) rank s i" for rank
    using assms by (simp add: ready_def heads_ok_def instr_ok_def heads_def finite_fold_names)
  then show ?thesis by (rule script_halts)
qed

text \<open>C11. A script ends, from every state with well-formed scopes in which no fold runs: with enough fuel its execution always gives
  the same result. This
  holds for every script that has no folds over streams or stream maps, whose \<open>next\<close>s are all inside a fold over their iterator, and in
  which no fold has a \<open>next\<close> of its iterator both in its body and in its last instruction.\<close>

theorem execution_terminates:
  assumes "nexts_ok i" "free_nexts i = {}"
    and "scalars_wf (scalars_of (fst s))" "iterable_variables (scalars_of (fst s)) = Map.empty"
  shows "\<exists>n r t. r \<noteq> Err OutOfFuel \<and> (\<forall>m \<ge> n. execute m A i s = (r, t))"
  using fresh_script_halts [OF assms] unfolding halts_def by blast

definition example_fold :: "int instruction" where
  "example_fold = (let x = \<lparr>var_name = ''x'', var_position = 0\<rparr> in
     IFoldScalar (IterScalar \<lparr>var_name = ''xs'', var_position = 0\<rparr>) x
       (IPar (ICall (example_call ''p'')) (INext x)) (Some INull) \<lparr>span_left = 0, span_right = 1\<rparr>)"

theorem execution_terminates_witness:
  "\<exists>n r t. r \<noteq> Err OutOfFuel \<and> (\<forall>m \<ge> n. execute m example_air example_fold example_state = (r, t))"
  by (rule execution_terminates [OF _ _ example_state_wf]) (simp_all add: example_fold_def Let_def)

end
