(* ===== verification/Script_Iterators.thy ===== *)
theory Script_Iterators
  imports Air_Parser
begin

text \<open>
  What the checks of the validator for iterators mean for a script: the spans recorded while a script is parsed, sorted and compared
  by \<^verbatim>\<open>check_undefined_iterables\<close>, \<^verbatim>\<open>check_multiple_next_in_fold\<close> and
  \<^verbatim>\<open>check_iterator_for_multiple_definitions\<close>, against a definition by recursion over the instruction.
\<close>

section \<open>Iterators of an instruction\<close>

fun fold_iterator :: "'n instruction \<Rightarrow> string option" where
  "fold_iterator (IFoldScalar _ v _ _ _) = Some (var_name v)"
| "fold_iterator (IFoldStream _ v _ _ _) = Some (var_name v)"
| "fold_iterator (IFoldStreamMap _ v _ _ _) = Some (var_name v)"
| "fold_iterator _ = None"

fun next_iterator :: "'n instruction \<Rightarrow> string option" where
  "next_iterator (INext v) = Some (var_name v)"
| "next_iterator _ = None"

lemma children_smaller [simp, termination_simp]: "c \<in> set (children i) \<Longrightarrow> size c < size i"
  by (cases i) (auto split: option.splits)

lemma next_no_children: "next_iterator i = Some x \<Longrightarrow> children i = [] \<and> fold_iterator i = None"
  by (cases i) auto

text \<open>The iterators of the folds, and those of the \<open>next\<close>s, from left to right.\<close>

function iterators :: "'n instruction \<Rightarrow> string list" where
  "iterators i = (case fold_iterator i of Some x \<Rightarrow> [x] | None \<Rightarrow> []) @ concat (map iterators (children i))"
  by pat_completeness auto
termination
  by (relation "measure size") auto

function next_names :: "'n instruction \<Rightarrow> string list" where
  "next_names i = (case next_iterator i of Some x \<Rightarrow> [x] | None \<Rightarrow> concat (map next_names (children i)))"
  by pat_completeness auto
termination
  by (relation "measure size") auto

text \<open>No fold has another fold over the same iterator inside it, nor two \<open>next\<close>s of its iterator.\<close>

function iterators_ok :: "'n instruction \<Rightarrow> bool" where
  "iterators_ok i \<longleftrightarrow>
     (case fold_iterator i of
        Some x \<Rightarrow> x \<notin> set (concat (map iterators (children i))) \<and> count_list (concat (map next_names (children i))) x \<le> 1
      | None \<Rightarrow> True)
     \<and> (\<forall>c \<in> set (children i). iterators_ok c)"
  by pat_completeness auto
termination
  by (relation "measure size") auto

text \<open>The \<open>next\<close>s from left to right, with whether a fold around it, or around the instruction, has its iterator.\<close>

function next_marks :: "string set \<Rightarrow> 'n instruction \<Rightarrow> (string \<times> bool) list" where
  "next_marks bound i =
     (case next_iterator i of
        Some x \<Rightarrow> [(x, x \<in> bound)]
      | None \<Rightarrow> concat (map (next_marks (bound \<union> set_option (fold_iterator i))) (children i)))"
  by pat_completeness auto
termination
  by (relation "measure (\<lambda>(_, i). size i)") auto

declare iterators.simps [simp del] next_names.simps [simp del] iterators_ok.simps [simp del] next_marks.simps [simp del]

text \<open>The first \<open>next\<close> of every name is inside a fold over it.\<close>

definition first_nexts_bound :: "'n instruction \<Rightarrow> bool" where
  "first_nexts_bound i \<longleftrightarrow> (\<forall>x \<in> set (next_names i). map_of (next_marks {} i) x = Some True)"

section \<open>Iterators of the reductions\<close>

definition folds_of :: "string \<Rightarrow> 'n reductions \<Rightarrow> air_span list" where
  "folds_of x rs = map snd (filter (\<lambda>(i, _). fold_iterator i = Some x) rs)"

definition nexts_of :: "string \<Rightarrow> 'n reductions \<Rightarrow> air_span list" where
  "nexts_of x rs = map snd (filter (\<lambda>(i, _). next_iterator i = Some x) rs)"

lemma folds_of_simps [simp]:
  "folds_of x [] = []" "folds_of x (rs @ rs') = folds_of x rs @ folds_of x rs'"
  "folds_of x [(i, s)] = (if fold_iterator i = Some x then [s] else [])"
  by (simp_all add: folds_of_def)

lemma nexts_of_simps [simp]:
  "nexts_of x [] = []" "nexts_of x (rs @ rs') = nexts_of x rs @ nexts_of x rs'"
  "nexts_of x [(i, s)] = (if next_iterator i = Some x then [s] else [])"
  by (simp_all add: nexts_of_def)

lemma spans_of_reductions: "f \<in> set (folds_of x rs) \<Longrightarrow> f \<in> snd ` set rs" "t \<in> set (nexts_of x rs) \<Longrightarrow> t \<in> snd ` set rs"
  by (auto simp: folds_of_def nexts_of_def)

inductive_cases laid_outE: "laid_out i s rs"

text \<open>The spans of the parts of an instruction are inside its own; those of a list of instructions between its bounds.\<close>

lemma laid_bounds:
  "laid_out i s rs \<Longrightarrow> span_left s < span_right s \<and> (\<forall>t \<in> snd ` set rs. span_left s \<le> span_left t \<and> span_right t \<le> span_right s \<and> span_left t < span_right t)"
  "laid_list lo hi is rs \<Longrightarrow> lo \<le> hi \<and> (\<forall>t \<in> snd ` set rs. lo \<le> span_left t \<and> span_right t \<le> hi \<and> span_left t < span_right t)"
proof (induction rule: laid_out_laid_list.inducts)
  case (node s hi i rs)
  then show ?case by (auto; fastforce)
next
  case (more i s rs lo hi "is" rs')
  then show ?case by (auto; fastforce)
qed auto

lemma contains_iff: "contains_span s t \<longleftrightarrow> span_left s < span_left t \<and> span_left t < span_right s \<and> span_left s < span_right t \<and> span_right t < span_right s"
  by (auto simp: contains_span_def contains_position_def)

text \<open>Spans are nested or apart, and no two start at the same position.\<close>

definition nested_or_apart :: "air_span \<Rightarrow> air_span \<Rightarrow> bool" where
  "nested_or_apart s t \<longleftrightarrow> s = t \<or> contains_span s t \<or> contains_span t s \<or> span_right s \<le> span_left t \<or> span_right t \<le> span_left s"

lemma node_contains:
  assumes "laid_list (Suc (span_left s)) hi is rs" "hi < span_right s" "t \<in> snd ` set rs"
  shows "contains_span s t"
proof -
  have "Suc (span_left s) \<le> span_left t" "span_right t \<le> hi" "span_left t < span_right t" using laid_bounds(2) [OF assms(1)] assms(3) by blast+
  then show ?thesis using assms(2) by (auto simp: contains_iff)
qed

lemma list_apart:
  assumes "laid_out i s rs" "laid_list (span_right s) hi is rs'" "t \<in> snd ` set rs" "u \<in> snd ` set rs'"
  shows "span_right t \<le> span_left u" "\<not> contains_span t u" "\<not> contains_span u t"
proof -
  have "span_left t < span_right t" "span_right t \<le> span_right s" using laid_bounds(1) [OF assms(1)] assms(3) by blast+
  moreover have "span_right s \<le> span_left u" "span_left u < span_right u" using laid_bounds(2) [OF assms(2)] assms(4) by blast+
  ultimately show "span_right t \<le> span_left u" "\<not> contains_span t u" "\<not> contains_span u t" by (auto simp: contains_iff)
qed

lemma laid_nested:
  "laid_out i s rs \<Longrightarrow> (\<forall>t \<in> snd ` set rs. \<forall>u \<in> snd ` set rs. nested_or_apart t u) \<and> distinct (map (span_left \<circ> snd) rs)"
  "laid_list lo hi is rs \<Longrightarrow> (\<forall>t \<in> snd ` set rs. \<forall>u \<in> snd ` set rs. nested_or_apart t u) \<and> distinct (map (span_left \<circ> snd) rs)"
proof (induction rule: laid_out_laid_list.inducts)
  case (node s hi i rs)
  then have in_s: "contains_span s t" if "t \<in> snd ` set rs" for t using node_contains that by blast
  then have "span_left s \<notin> span_left ` snd ` set rs" by (force simp: contains_iff)
  then show ?case using node.IH in_s by (auto simp: nested_or_apart_def image_comp)
next
  case (more i s rs lo hi "is" rs')
  note apart = list_apart [OF more.hyps(1,3)]
  have "span_left t \<noteq> span_left u" if "t \<in> snd ` set rs" "u \<in> snd ` set rs'" for t u
    using apart(1) [OF that] laid_bounds(1) [OF more.hyps(1)] that(1) by (metis leD)
  then have "(span_left \<circ> snd) ` set rs \<inter> (span_left \<circ> snd) ` set rs' = {}" by force
  moreover have "nested_or_apart t u" "nested_or_apart u t" if "t \<in> snd ` set rs" "u \<in> snd ` set rs'" for t u
    using apart(1) [OF that] by (simp_all add: nested_or_apart_def)
  ultimately show ?case using more.IH unfolding set_append image_Un ball_Un map_append distinct_append set_map by blast
qed simp_all

lemma laid_names:
  "laid_out i s rs \<Longrightarrow> length (nexts_of x rs) = count_list (next_names i) x \<and> (folds_of x rs = [] \<longleftrightarrow> x \<notin> set (iterators i))"
  "laid_list lo hi is rs \<Longrightarrow> length (nexts_of x rs) = count_list (concat (map next_names is)) x
    \<and> (folds_of x rs = [] \<longleftrightarrow> x \<notin> set (concat (map iterators is)))"
proof (induction rule: laid_out_laid_list.inducts)
  case (node s hi i rs)
  then show ?case
    using next_no_children [of i] by (subst next_names.simps, subst iterators.simps) (auto split: option.splits)
next
  case (more i s rs lo hi "is" rs')
  then show ?case by auto
qed simp_all

text \<open>What the checks want of the spans: no fold inside another one over the same iterator, and at most one \<open>next\<close> in a fold.\<close>

definition spans_ok :: "string \<Rightarrow> 'n reductions \<Rightarrow> bool" where
  "spans_ok x rs \<longleftrightarrow> (\<forall>f \<in> set (folds_of x rs).
     (\<forall>g \<in> set (folds_of x rs). \<not> contains_span f g) \<and> length (filter (contains_span f) (nexts_of x rs)) \<le> 1)"

lemma spans_ok_node:
  assumes "laid_list (Suc (span_left s)) hi is rs" "hi < span_right s"
  shows "spans_ok x (rs @ [(i, s)]) \<longleftrightarrow> spans_ok x rs \<and> (fold_iterator i = Some x \<longrightarrow> folds_of x rs = [] \<and> length (nexts_of x rs) \<le> 1)"
proof -
  let ?F = "folds_of x rs" and ?N = "nexts_of x rs"
  have in_s: "contains_span s t" if "t \<in> snd ` set rs" for t using node_contains [OF assms that] .
  have out_s: "\<not> contains_span t s" if "t \<in> snd ` set rs" for t using in_s [OF that] by (simp add: contains_iff)
  have F: "contains_span s f" "\<not> contains_span f s" if "f \<in> set ?F" for f
    using in_s out_s spans_of_reductions(1) [OF that] by simp_all
  have N: "filter (contains_span s) ?N = ?N" by (rule filter_True) (simp add: in_s [OF spans_of_reductions(2)])
  have s: "\<not> contains_span s s" by (simp add: contains_iff)
  show ?thesis
  proof (cases "fold_iterator i = Some x")
    case fold: True
    then have "next_iterator i = None" using next_no_children [of i] by (cases "next_iterator i") auto
    with fold have l: "folds_of x (rs @ [(i, s)]) = ?F @ [s]" "nexts_of x (rs @ [(i, s)]) = ?N" by simp_all
    show ?thesis
    proof (cases "?F = []")
      case True
      then show ?thesis unfolding spans_ok_def l using N s fold by simp
    next
      case False
      then obtain f where "f \<in> set ?F" by (meson list.set_sel(1))
      with F fold False show ?thesis unfolding spans_ok_def l by fastforce
    qed
  next
    case False
    have "filter (contains_span f) (nexts_of x (rs @ [(i, s)])) = filter (contains_span f) ?N" if "f \<in> set ?F" for f
      using F that by simp
    with False show ?thesis unfolding spans_ok_def by simp
  qed
qed

lemma spans_ok_append:
  assumes "laid_out i s rs" "laid_list (span_right s) hi is rs'"
  shows "spans_ok x (rs @ rs') \<longleftrightarrow> spans_ok x rs \<and> spans_ok x rs'"
proof -
  note apart = list_apart [OF assms]
  have f: "\<not> contains_span f g" "\<not> contains_span g f" if "f \<in> set (folds_of x rs)" "g \<in> set (folds_of x rs')" for f g
    using apart(2,3) [OF that [THEN spans_of_reductions(1)]] by simp_all
  have "filter (contains_span f) (nexts_of x rs') = []" if "f \<in> set (folds_of x rs)" for f
    by (rule filter_False) (simp add: apart(2) [OF spans_of_reductions(1) [OF that] spans_of_reductions(2)])
  moreover have "filter (contains_span f) (nexts_of x rs) = []" if "f \<in> set (folds_of x rs')" for f
    by (rule filter_False) (simp add: apart(3) [OF spans_of_reductions(2) spans_of_reductions(1) [OF that]])
  ultimately show ?thesis unfolding spans_ok_def using f by (auto simp: ball_Un)
qed

lemma laid_iterators_ok:
  "laid_out i s rs \<Longrightarrow> (\<forall>x. spans_ok x rs) \<longleftrightarrow> iterators_ok i"
  "laid_list lo hi is rs \<Longrightarrow> (\<forall>x. spans_ok x rs) \<longleftrightarrow> (\<forall>i \<in> set is. iterators_ok i)"
proof (induction rule: laid_out_laid_list.inducts)
  case (node s hi i rs)
  note n = laid_names(2) [OF node.hyps(1)]
  have "(\<forall>x. spans_ok x (rs @ [(i, s)]))
      \<longleftrightarrow> (\<forall>x. spans_ok x rs) \<and> (\<forall>x. fold_iterator i = Some x \<longrightarrow> folds_of x rs = [] \<and> length (nexts_of x rs) \<le> 1)"
    unfolding spans_ok_node [OF node.hyps] by blast
  also have "... \<longleftrightarrow> iterators_ok i" unfolding iterators_ok.simps [of i] node.IH using n by (auto split: option.splits)
  finally show ?case .
next
  case (more i s rs lo hi "is" rs')
  then show ?case unfolding spans_ok_append [OF more.hyps(1,3)] by auto
qed (simp_all add: spans_ok_def)

text \<open>Whether a \<open>next\<close> is inside a fold over its iterator, by its marks and by the spans.\<close>

definition marks_of :: "string \<Rightarrow> (string \<times> bool) list \<Rightarrow> bool list" where
  "marks_of x ms = map snd (filter (\<lambda>(y, _). y = x) ms)"

lemma marks_of_simps [simp]: "marks_of x [] = []" "marks_of x (ms @ ms') = marks_of x ms @ marks_of x ms'"
  "marks_of x [(y, b)] = (if y = x then [b] else [])"
  by (simp_all add: marks_of_def)

lemma map_of_marks: "map_of ms x = (case marks_of x ms of [] \<Rightarrow> None | b # _ \<Rightarrow> Some b)"
  by (induction ms) (auto simp: marks_of_def)

definition enclosed :: "string \<Rightarrow> 'n reductions \<Rightarrow> air_span \<Rightarrow> bool" where
  "enclosed x rs t \<longleftrightarrow> (\<exists>f \<in> set (folds_of x rs). contains_span f t)"

lemma laid_marks:
  "laid_out i s rs \<Longrightarrow> marks_of x (next_marks B i) = map (\<lambda>t. x \<in> B \<or> enclosed x rs t) (nexts_of x rs)"
  "laid_list lo hi is rs \<Longrightarrow> marks_of x (concat (map (next_marks B) is)) = map (\<lambda>t. x \<in> B \<or> enclosed x rs t) (nexts_of x rs)"
proof (induction arbitrary: B and B rule: laid_out_laid_list.inducts)
  case (node s hi i rs)
  have in_s: "contains_span s t" if "t \<in> snd ` set rs" for t using node_contains [OF node.hyps that] .
  show ?case
  proof (cases "next_iterator i")
    case (Some y)
    with node.hyps have "rs = []" using next_no_children [OF Some] by (auto elim: laid_list.cases)
    with Some show ?thesis using next_no_children [OF Some] by (subst next_marks.simps) (simp add: enclosed_def)
  next
    case None
    have "(x \<in> B \<union> set_option (fold_iterator i) \<or> enclosed x rs t) \<longleftrightarrow> (x \<in> B \<or> enclosed x (rs @ [(i, s)]) t)"
      if "t \<in> set (nexts_of x rs)" for t
      using in_s [OF spans_of_reductions(2) [OF that]] by (auto simp: enclosed_def)
    with None node.IH [of "B \<union> set_option (fold_iterator i)"] show ?thesis by (subst next_marks.simps) (simp cong: map_cong)
  qed
next
  case (more i s rs lo hi "is" rs')
  note apart = list_apart [OF more.hyps(1,3)]
  have "\<not> contains_span f t" if "t \<in> set (nexts_of x rs)" "f \<in> set (folds_of x rs')" for f t
    by (rule apart(3) [OF that(1) [THEN spans_of_reductions(2)] that(2) [THEN spans_of_reductions(1)]])
  then have "enclosed x (rs @ rs') t \<longleftrightarrow> enclosed x rs t" if "t \<in> set (nexts_of x rs)" for t using that by (auto simp: enclosed_def)
  moreover have "\<not> contains_span f t" if "t \<in> set (nexts_of x rs')" "f \<in> set (folds_of x rs)" for f t
    by (rule apart(2) [OF that(2) [THEN spans_of_reductions(1)] that(1) [THEN spans_of_reductions(2)]])
  then have "enclosed x (rs @ rs') t \<longleftrightarrow> enclosed x rs' t" if "t \<in> set (nexts_of x rs')" for t using that by (auto simp: enclosed_def)
  ultimately show ?case using more.IH by (simp cong: map_cong)
qed simp

lemma laid_first_bound:
  assumes "laid_out i s rs"
  shows "first_nexts_bound i \<longleftrightarrow> (\<forall>x. nexts_of x rs \<noteq> [] \<longrightarrow> enclosed x rs (hd (nexts_of x rs)))"
proof -
  have "x \<in> set (next_names i) \<longleftrightarrow> nexts_of x rs \<noteq> []" for x using laid_names(1) [OF assms, of x] by (metis count_list_0_iff length_0_conv)
  moreover have "map_of (next_marks {} i) x = Some True \<longleftrightarrow> enclosed x rs (hd (nexts_of x rs))" if "nexts_of x rs \<noteq> []" for x
    using that laid_marks(1) [OF assms, of x "{}"] by (cases "nexts_of x rs") (auto simp: map_of_marks)
  ultimately show ?thesis unfolding first_nexts_bound_def by blast
qed

section \<open>What the actions record of iterators\<close>

definition iteration_fields :: "'mm variable_validator \<Rightarrow> 'mm \<times> 'mm \<times> 'mm" where
  "iteration_fields v = (unresolved_iterables v, multiple_next_candidates v, met_iterator_definitions v)"

named_theorems keeps_iteration

lemma updates_keep_iteration [keeps_iteration]:
  "iteration_fields (v\<lparr>met_variable_definitions := a\<rparr>) = iteration_fields v"
  "iteration_fields (v\<lparr>unresolved_variables := b\<rparr>) = iteration_fields v"
  "iteration_fields (v\<lparr>not_iterators_candidates := c\<rparr>) = iteration_fields v"
  "iteration_fields (v\<lparr>unsupported_literal_errcodes := d\<rparr>) = iteration_fields v"
  "iteration_fields (v\<lparr>after_next_machine := e\<rparr>) = iteration_fields v"
  by (simp_all add: iteration_fields_def)

lemma names_keep_iteration [keeps_iteration]:
  "iteration_fields (met_variable_name M name span v) = iteration_fields v"
  "iteration_fields (met_variable_name_definition name span v) = iteration_fields v"
  by (simp_all add: met_variable_name_def met_variable_name_definition_def keeps_iteration split: option.split)

lemma accessor_keeps_iteration [keeps_iteration]: "iteration_fields (accessor_met M span a v) = iteration_fields v"
  by (cases a) (simp_all add: keeps_iteration)

lemma fold_keeps_iteration: "(\<And>x v. iteration_fields (f x v) = iteration_fields v) \<Longrightarrow> iteration_fields (fold f xs v) = iteration_fields v"
  by (induction xs arbitrary: v) simp_all

lemma lambda_keeps_iteration [keeps_iteration]: "iteration_fields (met_lambda M l span v) = iteration_fields v"
  by (cases l) (simp_all add: keeps_iteration fold_keeps_iteration)

lemma variables_keep_iteration [keeps_iteration]:
  "iteration_fields (met_scalar M s span v) = iteration_fields v" "iteration_fields (met_scalar_wl M w span v) = iteration_fields v"
  "iteration_fields (met_variable M i span v) = iteration_fields v" "iteration_fields (met_variable_wl M j span v) = iteration_fields v"
  by (simp_all add: met_scalar_def met_scalar_wl_def met_variable_def met_variable_wl_def keeps_iteration)

lemma arguments_keep_iteration [keeps_iteration]:
  "iteration_fields (met_instr_arg_value M span a v) = iteration_fields v" "iteration_fields (met_matchable M span a v) = iteration_fields v"
  "iteration_fields (met_peer_id_resolvable_value M p span v) = iteration_fields v"
  "iteration_fields (met_string_resolvable_value M s span v) = iteration_fields v"
  "iteration_fields (met_ap_argument M x span v) = iteration_fields v" "iteration_fields (met_map_key M k span v) = iteration_fields v"
  "iteration_fields (literal_error_code f span v) = iteration_fields v"
  subgoal by (cases a) (simp_all add: keeps_iteration)
  subgoal by (cases a) (simp_all add: keeps_iteration)
  subgoal by (cases p) (simp_all add: keeps_iteration)
  subgoal by (cases s) (simp_all add: keeps_iteration)
  subgoal by (cases x) (simp_all add: keeps_iteration)
  subgoal by (cases k) (simp_all add: keeps_iteration)
  subgoal by (cases f) (simp_all add: keeps_iteration)
  done

lemma kinds_keep_iteration [keeps_iteration]:
  "iteration_fields (met_kind k span v) = iteration_fields v" "iteration_fields (met_simple_instr span v) = iteration_fields v"
  "iteration_fields (met_merging_instr span v) = iteration_fields v" "iteration_fields (met_replacing_instr span v) = iteration_fields v"
  "iteration_fields (met_xoring_instr span v) = iteration_fields v" "iteration_fields (met_pivotalnext_instr n span v) = iteration_fields v"
  "iteration_fields (met_popstack_instr l span v) = iteration_fields v"
  "iteration_fields (met_popstack_replacing_with_check_instr n span v) = iteration_fields v"
  "iteration_fields (met_replacing_with_check_instr n span v) = iteration_fields v"
  by (simp_all add: met_simple_instr_def met_merging_instr_def met_replacing_instr_def met_xoring_instr_def met_pivotalnext_instr_def
      met_popstack_instr_def met_popstack_replacing_with_check_instr_def met_replacing_with_check_instr_def met_kind_def keeps_iteration)

lemma args_keep_iteration [keeps_iteration]: "iteration_fields (met_args M args span v) = iteration_fields v"
  unfolding met_args_def by (rule fold_keeps_iteration) (simp add: keeps_iteration)

lemma plain_instructions_keep_iteration [keeps_iteration]:
  "iteration_fields (met_call M call span v) = iteration_fields v"
  "iteration_fields (met_canon canon span v) = iteration_fields v" "iteration_fields (met_canon_map canon_map span v) = iteration_fields v"
  "iteration_fields (met_canon_map_scalar canon_scalar span v) = iteration_fields v"
  "iteration_fields (met_match M l r span v) = iteration_fields v" "iteration_fields (met_new argument span v) = iteration_fields v"
  "iteration_fields (met_ap M ap span v) = iteration_fields v" "iteration_fields (met_ap_map M ap_map span v) = iteration_fields v"
  "iteration_fields (met_fail_literal fail span v) = iteration_fields v"
  by (simp_all add: met_call_def met_canon_def met_canon_map_def met_canon_map_scalar_def met_match_def met_new_def Let_def met_ap_def
      met_ap_map_def met_fail_literal_def keeps_iteration split: call_output_value.split)

text \<open>The spans recorded of a name: of its \<open>next\<close>s, twice, and of the folds over it.\<close>

definition recorded :: "'mm multimap_ops \<Rightarrow> string \<Rightarrow> 'mm \<times> 'mm \<times> 'mm \<Rightarrow> air_span list \<times> air_span list \<times> air_span list" where
  "recorded M x = (\<lambda>(a, b, c). (mm_values M a x, mm_values M b x, mm_values M c x))"

lemma documentedD:
  assumes "multimap_documented M"
  shows "mm_get_vec M (mm_empty M) k = None"
    and "mm_get_vec M (mm_insert M m k v) k' = (if k' = k then Some (mm_values M m k @ [v]) else mm_get_vec M m k')"
    and "mm_get_vec M m k \<noteq> Some []"
    and "set (mm_iter M m) = {(k, hd vs) | k vs. mm_get_vec M m k = Some vs}"
    and "set (mm_iter_all M m) = {(k, vs). mm_get_vec M m k = Some vs}"
    and "(\<And>vs. vs \<noteq> [] \<Longrightarrow> f vs \<noteq> []) \<Longrightarrow> mm_get_vec M (mm_update_all M f m) k = map_option f (mm_get_vec M m k)"
  using assms unfolding multimap_documented_def by simp_all

lemma mm_values_insert:
  "multimap_documented M \<Longrightarrow> mm_values M (mm_insert M m k v) k' = mm_values M m k' @ (if k' = k then [v] else [])"
  by (auto simp: mm_values_def documentedD(2))

lemma records_next:
  assumes "multimap_documented M"
  shows "recorded M x (iteration_fields (met_next M iterator s v))
    = (case recorded M x (iteration_fields v) of (a, b, c) \<Rightarrow>
        if var_name iterator = x then (a @ [s], b @ [s], c) else (a, b, c))"
  using assms by (simp add: met_next_def Let_def keeps_iteration) (auto simp: iteration_fields_def recorded_def mm_values_insert)

lemma records_fold_scalar:
  assumes "multimap_documented M"
  shows "recorded M x (iteration_fields (met_fold_scalar M iterable iterator l s v))
    = (case recorded M x (iteration_fields v) of (a, b, c) \<Rightarrow> (a, b, if var_name iterator = x then c @ [s] else c))"
proof -
  have it: "recorded M x (iteration_fields (met_iterator_definition M iterator s u))
      = (case recorded M x (iteration_fields u) of (a, b, c) \<Rightarrow> (a, b, if var_name iterator = x then c @ [s] else c))" for u
    using assms by (auto simp: met_iterator_definition_def iteration_fields_def recorded_def mm_values_insert)
  show ?thesis by (cases iterable) (simp_all add: met_fold_scalar_def Let_def keeps_iteration it)
qed

lemma records_fold_stream:
  assumes "multimap_documented M"
  shows "recorded M x (iteration_fields (validator_meet_fold_stream M iterable iterator l s v))
    = (case recorded M x (iteration_fields v) of (a, b, c) \<Rightarrow> (a, b, if var_name iterator = x then c @ [s] else c))"
proof -
  have it: "recorded M x (iteration_fields (met_iterator_definition M iterator s u))
      = (case recorded M x (iteration_fields u) of (a, b, c) \<Rightarrow> (a, b, if var_name iterator = x then c @ [s] else c))" for u
    using assms by (auto simp: met_iterator_definition_def iteration_fields_def recorded_def mm_values_insert)
  show ?thesis by (cases l) (simp_all add: validator_meet_fold_stream_def Let_def keeps_iteration it)
qed

lemma records_instruction:
  assumes "multimap_documented M" "recorded M x (iteration_fields v) = (a, b, c)"
  shows "recorded M x (iteration_fields (met_instruction M i s v))
    = (a @ nexts_of x [(i, s)], b @ nexts_of x [(i, s)], c @ folds_of x [(i, s)])"
  using assms by (cases i) (simp_all add: keeps_iteration records_next records_fold_scalar records_fold_stream)

lemma records_actions:
  assumes "multimap_documented M"
  shows "recorded M x (iteration_fields (run_actions M rs)) = (nexts_of x rs, nexts_of x rs, folds_of x rs)"
proof (induction rs rule: rev_induct)
  case Nil
  show ?case using documentedD(1) [OF assms] by (simp add: run_actions_def validator_new_def iteration_fields_def recorded_def mm_values_def)
next
  case (snoc e rs)
  obtain j t where e: "e = (j, t)" by (cases e)
  have "run_actions M (rs @ [e]) = met_instruction M j t (run_actions M rs)" by (simp add: run_actions_def e)
  then show ?case using records_instruction [OF assms snoc, of j t] unfolding e by simp
qed

section \<open>The checks\<close>

text \<open>A check adds errors of the kind \<open>K\<close>, none exactly when \<open>P\<close> holds for the validator, which it keeps.\<close>

definition adds :: "(parser_error \<Rightarrow> bool) \<Rightarrow> ('mm variable_validator \<Rightarrow> bool) \<Rightarrow> ('n, 'mm) check \<Rightarrow> bool" where
  "adds K P c \<longleftrightarrow> (\<forall>b. validator_of (c b) = validator_of b
     \<and> (\<exists>es. builder_errors (c b) = builder_errors b @ es \<and> (es = [] \<longleftrightarrow> P (validator_of b)) \<and> (\<forall>e \<in> set es. K (fst e))))"

lemma addsI:
  assumes "\<And>b. \<exists>es. builder_errors (c b) = builder_errors b @ es \<and> validator_of (c b) = validator_of b
    \<and> (es = [] \<longleftrightarrow> P (validator_of b)) \<and> (\<forall>e \<in> set es. K (fst e))"
  shows "adds K P c"
  unfolding adds_def using assms by metis

lemma adds_seq: "adds K P c \<Longrightarrow> adds K Q d \<Longrightarrow> adds K (\<lambda>v. P v \<and> Q v) (\<lambda>b. d (c b))"
  unfolding adds_def by (smt (verit) Un_iff append.assoc append_is_Nil_conv set_append)

lemma adds_fold_list: "(\<And>x. adds K (P x) (f x)) \<Longrightarrow> adds K (\<lambda>v. \<forall>x \<in> set xs. P x v) (fold f xs)"
proof (induction xs)
  case (Cons x xs)
  then show ?case using adds_seq [of K "P x" "f x" "\<lambda>v. \<forall>x \<in> set xs. P x v" "fold f xs"] by (simp add: fold_Cons comp_def)
qed (simp add: adds_def)

lemma adds_fold:
  assumes "\<And>x. adds K (P x) (f x)"
  shows "adds K (\<lambda>v. \<forall>x \<in> set (xs v). P x v) (\<lambda>b. fold f (xs (validator_of b)) b)"
  unfolding adds_def
proof (rule allI)
  fix b
  show "validator_of (fold f (xs (validator_of b)) b) = validator_of b
      \<and> (\<exists>es. builder_errors (fold f (xs (validator_of b)) b) = builder_errors b @ es
        \<and> (es = [] \<longleftrightarrow> (\<forall>x \<in> set (xs (validator_of b)). P x (validator_of b))) \<and> (\<forall>e \<in> set es. K (fst e)))"
    using adds_fold_list [of K P f "xs (validator_of b)", OF assms] unfolding adds_def by (rule spec)
qed

lemma adds_undefined_variables:
  "adds (\<lambda>e. \<exists>s n. e = UndefinedVariable s n) (\<lambda>v. \<forall>x \<in> set (mm_iter M (unresolved_variables v)). contains_variable M v (fst x) (snd x))
    (check_undefined_variables M)"
  unfolding check_undefined_variables_def [abs_def]
  by (rule adds_fold) (simp add: adds_def report_def add_to_errors_def case_prod_beta)

lemma adds_undefined_iterables:
  "adds (\<lambda>e. \<exists>s n. e = UndefinedIterable s n)
    (\<lambda>v. \<forall>x \<in> set (mm_iter M (unresolved_iterables v)). find_closest_fold_span M v (fst x) (snd x) \<noteq> None) (check_undefined_iterables M)"
  unfolding check_undefined_iterables_def [abs_def]
  by (rule adds_fold) (simp add: adds_def report_def add_to_errors_def case_prod_beta)

lemma adds_new_on_iterators:
  "adds (\<lambda>e. \<exists>s n. e = IteratorRestrictionNotAllowed s n)
    (\<lambda>v. \<forall>x \<in> set (not_iterators_candidates v). find_closest_fold_span M v (fst x) (snd x) = None) (check_new_on_iterators M)"
  unfolding check_new_on_iterators_def [abs_def]
  by (rule adds_fold) (simp add: adds_def report_def add_to_errors_def case_prod_beta)

lemma adds_last_checks:
  "adds (\<lambda>e. \<exists>s k n. e = UnsupportedMapKeyType s k n) (\<lambda>v. \<forall>x \<in> set (unsupported_map_keys v). False) check_for_unsupported_map_keys"
  "adds (\<lambda>e. \<exists>s. e = UnsupportedLiteralErrCodes s) (\<lambda>v. \<forall>x \<in> set (unsupported_literal_errcodes v). False) check_for_unsupported_literal_errcodes"
  "adds (\<lambda>e. \<exists>s. e = FoldHasInstructionAfterNext s) (\<lambda>v. \<forall>x \<in> set (malformed_spans (after_next_machine v)). False) check_after_next_instr"
  unfolding check_for_unsupported_map_keys_def [abs_def] check_for_unsupported_literal_errcodes_def [abs_def] check_after_next_instr_def [abs_def]
  by (rule adds_fold, simp add: adds_def report_def add_to_errors_def case_prod_beta)+

text \<open>The loop over the \<open>next\<close>s of a name reports nothing when their closest folds are different and not met before.\<close>

lemma next_of_fold_step:
  "next_of_fold M name s (met, b) =
    (case find_closest_fold_span M (validator_of b) name s of
       None \<Rightarrow> (met, b)
     | Some c \<Rightarrow> if c \<in> set met then (met, report s TNext (MultipleNextInFold s name) b) else (c # met, b))"
  by (simp add: next_of_fold_def)

lemma next_of_fold_loop:
  fixes b :: "('n, 'mm) validator_error_builder"
  shows "\<exists>es. builder_errors (snd (fold (next_of_fold M name) spans (met, b))) = builder_errors b @ es
    \<and> validator_of (snd (fold (next_of_fold M name) spans (met, b))) = validator_of b
    \<and> (es = [] \<longleftrightarrow> distinct (List.map_filter (find_closest_fold_span M (validator_of b) name) spans)
          \<and> set (List.map_filter (find_closest_fold_span M (validator_of b) name) spans) \<inter> set met = {})
    \<and> (\<forall>e \<in> set es. \<exists>s n. fst e = MultipleNextInFold s n)"
proof (induction spans arbitrary: met b)
  case (Cons s spans)
  show ?case
  proof (cases "find_closest_fold_span M (validator_of b) name s")
    case None
    then show ?thesis using Cons [of met b] by (simp add: next_of_fold_step map_filter_simps)
  next
    case (Some c)
    show ?thesis
    proof (cases "c \<in> set met")
      case True
      let ?e = "(MultipleNextInFold s name, [(span_left s, TNext, span_right s)]) :: 'n error_recovery"
      obtain es where "builder_errors (snd (fold (next_of_fold M name) spans (met, report s TNext (MultipleNextInFold s name) b)))
          = builder_errors b @ ?e # es" "\<forall>e \<in> set es. \<exists>s n. fst e = MultipleNextInFold s n"
          "validator_of (snd (fold (next_of_fold M name) spans (met, report s TNext (MultipleNextInFold s name) b))) = validator_of b"
        using Cons [of met "report s TNext (MultipleNextInFold s name) b"] by (auto simp: report_def add_to_errors_def)
      with Some True show ?thesis by (intro exI [of _ "?e # es"]) (auto simp: next_of_fold_step map_filter_simps)
    next
      case False
      with Some show ?thesis using Cons [of "c # met" b] by (auto simp: next_of_fold_step map_filter_simps)
    qed
  qed
qed (simp add: map_filter_simps)

lemma adds_multiple_next:
  fixes M :: "'mm multimap_ops"
  shows "adds (\<lambda>e. \<exists>s n. e = MultipleNextInFold s n)
    (\<lambda>v. \<forall>x \<in> set (mm_iter_all M (multiple_next_candidates v)). distinct (List.map_filter (find_closest_fold_span M v (fst x)) (snd x)))
    (check_multiple_next_in_fold M :: ('n, 'mm) check)"
  unfolding check_multiple_next_in_fold_def [abs_def]
proof (rule adds_fold)
  fix x :: "string \<times> air_span list"
  show "adds (\<lambda>e. \<exists>s n. e = MultipleNextInFold s n) (\<lambda>v. distinct (List.map_filter (find_closest_fold_span M v (fst x)) (snd x)))
      (case x of (name, spans) \<Rightarrow> \<lambda>self :: ('n, 'mm) validator_error_builder. snd (fold (next_of_fold M name) spans ([], self)))"
    unfolding case_prod_beta by (rule addsI) (use next_of_fold_loop [of M "fst x" "snd x" "[]"] in simp)
qed

text \<open>The loop over the sorted folds of a name reports nothing when none is inside the one before it.\<close>

lemma definition_of_iterator_step:
  "definition_of_iterator name s (None, b) = (Some s, b)"
  "definition_of_iterator name s (Some p, b) =
    (if contains_span p s then (Some p, report s TFold (MultipleIterableValuesForOneIterator s name) b) else (Some s, b))"
  by (simp_all add: definition_of_iterator_def)

lemma definition_loop:
  fixes b :: "('n, 'mm) validator_error_builder"
  shows "\<exists>es. builder_errors (snd (fold (definition_of_iterator name) spans (Some p, b))) = builder_errors b @ es
    \<and> validator_of (snd (fold (definition_of_iterator name) spans (Some p, b))) = validator_of b
    \<and> (es = [] \<longleftrightarrow> successively (\<lambda>s t. \<not> contains_span s t) (p # spans))
    \<and> (\<forall>e \<in> set es. \<exists>s n. fst e = MultipleIterableValuesForOneIterator s n)"
proof (induction spans arbitrary: p b)
  case (Cons s spans)
  show ?case
  proof (cases "contains_span p s")
    case True
    let ?b = "report s TFold (MultipleIterableValuesForOneIterator s name) b"
    let ?e = "(MultipleIterableValuesForOneIterator s name, [(span_left s, TFold, span_right s)]) :: 'n error_recovery"
    obtain es where "builder_errors (snd (fold (definition_of_iterator name) spans (Some p, ?b))) = builder_errors b @ ?e # es"
        "\<forall>e \<in> set es. \<exists>s n. fst e = MultipleIterableValuesForOneIterator s n"
        "validator_of (snd (fold (definition_of_iterator name) spans (Some p, ?b))) = validator_of b"
      using Cons [of p ?b] by (auto simp: report_def add_to_errors_def)
    with True show ?thesis by (intro exI [of _ "?e # es"]) (auto simp: definition_of_iterator_step)
  next
    case False
    then show ?thesis using Cons [of s b] by (auto simp: definition_of_iterator_step)
  qed
qed simp

lemma adds_definitions:
  fixes spans :: "air_span list"
  shows "adds (\<lambda>e. \<exists>s n. e = MultipleIterableValuesForOneIterator s n) (\<lambda>v. successively (\<lambda>s t. \<not> contains_span s t) spans)
    (\<lambda>self :: ('n, 'mm) validator_error_builder. snd (fold (definition_of_iterator name) spans (None, self)))"
proof (cases spans)
  case (Cons s ss)
  show ?thesis unfolding Cons by (rule addsI) (use definition_loop [of name ss s] in \<open>simp add: definition_of_iterator_step\<close>)
qed (simp add: adds_def)

text \<open>The errors of the three checks for iterators.\<close>

fun iteration_error :: "parser_error \<Rightarrow> bool" where
  "iteration_error (UndefinedIterable _ _) \<longleftrightarrow> True"
| "iteration_error (MultipleNextInFold _ _) \<longleftrightarrow> True"
| "iteration_error (MultipleIterableValuesForOneIterator _ _) \<longleftrightarrow> True"
| "iteration_error _ \<longleftrightarrow> False"

definition clean :: "'n error_recovery list \<Rightarrow> bool" where
  "clean es \<longleftrightarrow> (\<forall>e \<in> set es. \<not> iteration_error (fst e))"

lemma adds_clean:
  assumes "adds K P c" "\<And>e. K e \<Longrightarrow> iteration_error e"
  shows "clean (builder_errors (c b)) \<longleftrightarrow> clean (builder_errors b) \<and> P (validator_of b)"
proof -
  obtain es where "builder_errors (c b) = builder_errors b @ es" "es = [] \<longleftrightarrow> P (validator_of b)" "\<forall>e \<in> set es. K (fst e)"
    using assms(1) unfolding adds_def by blast
  then show ?thesis using assms(2) by (cases es) (auto simp: clean_def)
qed

lemma adds_other:
  assumes "adds K P c" "\<And>e. K e \<Longrightarrow> \<not> iteration_error e"
  shows "clean (builder_errors (c b)) \<longleftrightarrow> clean (builder_errors b)"
proof -
  obtain es where "builder_errors (c b) = builder_errors b @ es" "\<forall>e \<in> set es. K (fst e)" using assms(1) unfolding adds_def by blast
  then show ?thesis using assms(2) by (auto simp: clean_def)
qed

lemma adds_validator: "adds K P c \<Longrightarrow> validator_of (c b) = validator_of b"
  by (simp add: adds_def)

lemma clean_definitions:
  fixes b :: "('n, 'mm) validator_error_builder"
  shows "clean (builder_errors (check_iterator_for_multiple_definitions M b)) \<longleftrightarrow> clean (builder_errors b)
    \<and> (\<forall>x \<in> set (mm_iter_all M (mm_update_all M span_sort (met_iterator_definitions (validator_of b)))).
        successively (\<lambda>s t. \<not> contains_span s t) (snd x))"
proof -
  let ?b = "sort_iterator_definitions M b"
  have "adds (\<lambda>e. \<exists>s n. e = MultipleIterableValuesForOneIterator s n)
      (\<lambda>v. \<forall>x \<in> set (mm_iter_all M (met_iterator_definitions v)). successively (\<lambda>s t. \<not> contains_span s t) (snd x))
      (\<lambda>b :: ('n, 'mm) validator_error_builder. fold (\<lambda>(name, spans) self. snd (fold (definition_of_iterator name) spans (None, self)))
        (mm_iter_all M (met_iterator_definitions (validator_of b))) b)"
    by (rule adds_fold) (simp add: case_prod_beta adds_definitions)
  note this = adds_clean [OF this, of ?b]
  moreover have "iteration_error e" if "\<exists>s n. e = MultipleIterableValuesForOneIterator s n" for e using that by auto
  ultimately show ?thesis
    by (simp add: check_iterator_for_multiple_definitions_def Let_def sort_iterator_definitions_def)
qed

lemma clean_finalize:
  fixes M :: "'mm multimap_ops" and v :: "'mm variable_validator"
  defines "w \<equiv> v\<lparr>met_iterator_definitions := mm_update_all M span_sort (met_iterator_definitions v)\<rparr>"
  shows "clean (finalize M v :: 'n error_recovery list)
    \<longleftrightarrow> (\<forall>x \<in> set (mm_iter M (unresolved_iterables v)). find_closest_fold_span M w (fst x) (snd x) \<noteq> None)
      \<and> (\<forall>x \<in> set (mm_iter_all M (multiple_next_candidates v)). distinct (List.map_filter (find_closest_fold_span M w (fst x)) (snd x)))
      \<and> (\<forall>x \<in> set (mm_iter_all M (mm_update_all M span_sort (met_iterator_definitions w))). successively (\<lambda>s t. \<not> contains_span s t) (snd x))"
proof -
  note kept = adds_validator [OF adds_undefined_variables] adds_validator [OF adds_undefined_iterables] adds_validator [OF adds_multiple_next]
    adds_validator [OF adds_new_on_iterators]
  have other: "clean (builder_errors (check_undefined_variables M b)) = clean (builder_errors b)"
    "clean (builder_errors (check_new_on_iterators M b)) = clean (builder_errors b)"
    "clean (builder_errors (check_for_unsupported_map_keys b)) = clean (builder_errors b)"
    "clean (builder_errors (check_for_unsupported_literal_errcodes b)) = clean (builder_errors b)"
    "clean (builder_errors (check_after_next_instr b)) = clean (builder_errors b)" for b :: "('n, 'mm) validator_error_builder"
    by (rule adds_other [OF adds_undefined_variables] adds_other [OF adds_new_on_iterators] adds_other [OF adds_last_checks(1)]
        adds_other [OF adds_last_checks(2)] adds_other [OF adds_last_checks(3)]; fastforce)+
  have own: "clean (builder_errors (check_undefined_iterables M b)) \<longleftrightarrow> clean (builder_errors b)
      \<and> (\<forall>x \<in> set (mm_iter M (unresolved_iterables (validator_of b))). find_closest_fold_span M (validator_of b) (fst x) (snd x) \<noteq> None)"
    "clean (builder_errors (check_multiple_next_in_fold M b)) \<longleftrightarrow> clean (builder_errors b)
      \<and> (\<forall>x \<in> set (mm_iter_all M (multiple_next_candidates (validator_of b))).
          distinct (List.map_filter (find_closest_fold_span M (validator_of b) (fst x)) (snd x)))"
    for b :: "('n, 'mm) validator_error_builder"
    by (rule adds_clean [OF adds_undefined_iterables] adds_clean [OF adds_multiple_next]; fastforce)+
  have new: "validator_of (builder_new M v :: ('n, 'mm) validator_error_builder) = w"
    "clean (builder_errors (builder_new M v :: ('n, 'mm) validator_error_builder))"
    "unresolved_iterables w = unresolved_iterables v" "multiple_next_candidates w = multiple_next_candidates v"
    by (simp_all add: builder_new_def sort_iterator_definitions_def w_def clean_def)
  show ?thesis
    unfolding finalize_def other clean_definitions own kept new(1,3,4) using new(2) by blast
qed

section \<open>The checks on a script\<close>

lemma get_vec_values: "multimap_documented M \<Longrightarrow> mm_get_vec M m k = (if mm_values M m k = [] then None else Some (mm_values M m k))"
  using documentedD(3) [of M m k] by (auto simp: mm_values_def split: option.splits)

lemma iterated_values:
  assumes "multimap_documented M"
  shows "(\<forall>x \<in> set (mm_iter M m). Q (fst x) (snd x)) \<longleftrightarrow> (\<forall>k. mm_values M m k \<noteq> [] \<longrightarrow> Q k (hd (mm_values M m k)))"
    and "(\<forall>x \<in> set (mm_iter_all M m). R (fst x) (snd x)) \<longleftrightarrow> (\<forall>k. mm_values M m k \<noteq> [] \<longrightarrow> R k (mm_values M m k))"
  unfolding documentedD(4,5) [OF assms] get_vec_values [OF assms] by auto

lemma span_sort_Nil [simp]: "span_sort fs = [] \<longleftrightarrow> fs = []"
  by (metis length_0_conv length_sort span_sort_def)

lemma sorted_values: "multimap_documented M \<Longrightarrow> mm_values M (mm_update_all M span_sort m) k = span_sort (mm_values M m k)"
  using documentedD(6) [of M span_sort m k] by (simp add: mm_values_def split: option.split) (simp add: span_sort_def)

text \<open>The last of the folds around a span.\<close>

definition closest :: "air_span list \<Rightarrow> air_span \<Rightarrow> air_span option" where
  "closest fs t = (let inside = filter (\<lambda>f. contains_span f t) fs in if inside = [] then None else Some (last inside))"

lemma find_closest: "multimap_documented M \<Longrightarrow> find_closest_fold_span M v x = closest (mm_values M (met_iterator_definitions v) x)"
  by (rule ext) (simp add: find_closest_fold_span_def closest_def get_vec_values Let_def)

lemma closest_None: "closest fs t = None \<longleftrightarrow> (\<forall>f \<in> set fs. \<not> contains_span f t)"
  by (auto simp: closest_def Let_def filter_empty_conv)

lemma set_span_sort [simp]: "set (span_sort fs) = set fs"
  by (simp add: span_sort_def)

lemma clean_script:
  assumes "multimap_documented M"
  shows "clean (finalize M (run_actions M rs) :: 'n error_recovery list)
    \<longleftrightarrow> (\<forall>x. nexts_of x rs \<noteq> [] \<longrightarrow> enclosed x rs (hd (nexts_of x rs)))
      \<and> (\<forall>x. distinct (List.map_filter (closest (span_sort (folds_of x rs))) (nexts_of x rs)))
      \<and> (\<forall>x. successively (\<lambda>s t. \<not> contains_span s t) (span_sort (span_sort (folds_of x rs))))"
proof -
  let ?v = "run_actions M rs"
  have v: "mm_values M (unresolved_iterables ?v) x = nexts_of x rs" "mm_values M (multiple_next_candidates ?v) x = nexts_of x rs"
    "mm_values M (met_iterator_definitions ?v) x = folds_of x rs" for x
    using records_actions [OF assms, of x rs] by (simp_all add: recorded_def iteration_fields_def)
  have e: "closest (span_sort (folds_of x rs)) t \<noteq> None \<longleftrightarrow> enclosed x rs t" for x t
    unfolding closest_None enclosed_def by auto
  have "clean (finalize M ?v :: 'n error_recovery list) \<longleftrightarrow>
      (\<forall>x. nexts_of x rs \<noteq> [] \<longrightarrow> closest (span_sort (folds_of x rs)) (hd (nexts_of x rs)) \<noteq> None)
    \<and> (\<forall>x. nexts_of x rs \<noteq> [] \<longrightarrow> distinct (List.map_filter (closest (span_sort (folds_of x rs))) (nexts_of x rs)))
    \<and> (\<forall>x. span_sort (span_sort (folds_of x rs)) \<noteq> [] \<longrightarrow> successively (\<lambda>s t. \<not> contains_span s t) (span_sort (span_sort (folds_of x rs))))"
    unfolding clean_finalize
      iterated_values(1) [OF assms, of "unresolved_iterables ?v" "\<lambda>x t. find_closest_fold_span M _ x t \<noteq> None"]
      iterated_values(2) [OF assms, of "multiple_next_candidates ?v" "\<lambda>x ts. distinct (List.map_filter (find_closest_fold_span M _ x) ts)"]
      iterated_values(2) [OF assms, of _ "\<lambda>_. successively (\<lambda>s t. \<not> contains_span s t)"]
    by (simp add: v sorted_values [OF assms] find_closest [OF assms])
  moreover have "(nexts_of x rs \<noteq> [] \<longrightarrow> distinct (List.map_filter (closest (span_sort (folds_of x rs))) (nexts_of x rs)))
      \<longleftrightarrow> distinct (List.map_filter (closest (span_sort (folds_of x rs))) (nexts_of x rs))" for x
    by (cases "nexts_of x rs") (simp_all add: map_filter_simps)
  moreover have "(span_sort fs \<noteq> [] \<longrightarrow> successively (\<lambda>s t. \<not> contains_span s t) (span_sort fs))
      \<longleftrightarrow> successively (\<lambda>s t. \<not> contains_span s t) (span_sort fs)" for fs
    by (cases "fs = []") (simp_all, simp add: span_sort_def)
  ultimately show ?thesis by (simp only: e)
qed

lemma sorted_folds:
  assumes "laid_out i s rs" "set fs = set (folds_of x rs)" "distinct fs"
  shows "sorted_wrt (<) (map span_left (span_sort fs))"
proof -
  have "distinct (map span_left (folds_of x rs))"
    using laid_nested(1) [OF assms(1)] by (simp add: folds_of_def distinct_map_filter comp_def)
  then have "inj_on span_left (set fs)" unfolding assms(2) by (simp add: distinct_map)
  then have "distinct (map span_left (span_sort fs))" using assms(3) by (simp add: distinct_map) (simp add: span_sort_def)
  moreover have "span_min t = span_left t" if "t \<in> set fs" for t
    using laid_bounds(1) [OF assms(1)] spans_of_reductions(1) that unfolding assms(2) span_min_def by (metis less_imp_le min.absorb1)
  then have "map span_left (span_sort fs) = map span_min (span_sort fs)" by simp
  then have "sorted (map span_left (span_sort fs))" unfolding span_sort_def by (simp only: sorted_sort_key)
  ultimately show ?thesis by (simp add: strict_sorted_iff)
qed

lemma successively_apart:
  assumes "sorted_wrt (<) (map span_left fs)" "\<forall>s \<in> set fs. span_left s < span_right s" "\<forall>s \<in> set fs. \<forall>t \<in> set fs. nested_or_apart s t"
  shows "successively (\<lambda>s t. \<not> contains_span s t) fs \<longleftrightarrow> (\<forall>s \<in> set fs. \<forall>t \<in> set fs. \<not> contains_span s t)"
  using assms
proof (induction fs)
  case (Cons f fs)
  show ?case
  proof (cases fs)
    case (Cons g gs)
    have lt: "span_left f < span_left t" if "t \<in> set fs" for t using Cons.prems(1) that by simp
    have "\<not> contains_span f t" if "\<not> contains_span f g" "t \<in> set fs" for t
    proof -
      have "span_right f \<le> span_left g"
        using that(1) Cons.prems(2,3) lt [of g] Cons by (auto simp: nested_or_apart_def contains_iff)
      moreover have "span_left g \<le> span_left t" using Cons.prems(1) that(2) Cons by auto
      ultimately show ?thesis by (auto simp: contains_iff)
    qed
    moreover have "\<not> contains_span t f" if "t \<in> set (f # fs)" for t using lt [of t] that by (auto simp: contains_iff)
    moreover have "successively (\<lambda>s t. \<not> contains_span s t) fs \<longleftrightarrow> (\<forall>s \<in> set fs. \<forall>t \<in> set fs. \<not> contains_span s t)"
      using Cons.prems by (intro Cons.IH) auto
    moreover have "successively (\<lambda>s t. \<not> contains_span s t) (f # fs) \<longleftrightarrow> \<not> contains_span f g \<and> successively (\<lambda>s t. \<not> contains_span s t) fs"
      using Cons by simp
    moreover have "g \<in> set fs" using Cons by simp
    ultimately show ?thesis by auto
  qed (simp add: contains_iff)
qed simp

lemma closest_in: "closest fs t = Some f \<Longrightarrow> f \<in> set fs \<and> contains_span f t"
  using last_in_set [of "filter (\<lambda>f. contains_span f t) fs"] by (auto simp: closest_def Let_def split: if_splits)

lemma closest_Some:
  assumes "\<And>f g. f \<in> set fs \<Longrightarrow> g \<in> set fs \<Longrightarrow> contains_span f t \<Longrightarrow> contains_span g t \<Longrightarrow> f = g"
  shows "closest fs t = Some f \<longleftrightarrow> f \<in> set fs \<and> contains_span f t"
proof
  assume "closest fs t = Some f"
  then show "f \<in> set fs \<and> contains_span f t" by (rule closest_in)
next
  assume f: "f \<in> set fs \<and> contains_span f t"
  then obtain g where g: "closest fs t = Some g" using closest_None by fastforce
  then have "g \<in> set fs \<and> contains_span g t" by (rule closest_in)
  with f g assms show "closest fs t = Some f" by blast
qed

text \<open>When a span is in at most one fold, the closest folds differ exactly when no fold has two of the spans in it.\<close>

lemma closest_distinct:
  assumes "\<And>t f g. t \<in> set ts \<Longrightarrow> f \<in> set fs \<Longrightarrow> g \<in> set fs \<Longrightarrow> contains_span f t \<Longrightarrow> contains_span g t \<Longrightarrow> f = g"
  shows "distinct (List.map_filter (closest fs) ts) \<longleftrightarrow> (\<forall>f \<in> set fs. length (filter (contains_span f) ts) \<le> 1)"
  using assms
proof (induction ts)
  case (Cons t ts)
  have IH: "distinct (List.map_filter (closest fs) ts) \<longleftrightarrow> (\<forall>f \<in> set fs. length (filter (contains_span f) ts) \<le> 1)"
    by (rule Cons.IH) (use Cons.prems in \<open>meson list.set_intros(2)\<close>)
  have closest: "closest fs u = Some f \<longleftrightarrow> f \<in> set fs \<and> contains_span f u" if "u \<in> set (t # ts)" for u f
    using closest_Some [of fs u f] Cons.prems [OF that] by blast
  show ?case
  proof (cases "closest fs t")
    case None
    then have "\<forall>f \<in> set fs. \<not> contains_span f t" by (simp add: closest_None)
    with None IH show ?thesis by (simp add: map_filter_simps)
  next
    case (Some f)
    then have f: "f \<in> set fs" "contains_span f t" using closest by simp_all
    have "f \<in> set (List.map_filter (closest fs) ts) \<longleftrightarrow> (\<exists>u \<in> set ts. closest fs u = Some f)" by (force simp: List.map_filter_def)
    also have "... \<longleftrightarrow> filter (contains_span f) ts \<noteq> []" using closest f(1) by (auto simp: filter_empty_conv)
    finally have "distinct (List.map_filter (closest fs) (t # ts)) \<longleftrightarrow>
        filter (contains_span f) ts = [] \<and> (\<forall>f \<in> set fs. length (filter (contains_span f) ts) \<le> 1)"
      using Some IH by (simp add: map_filter_simps)
    moreover have "contains_span g t \<longleftrightarrow> g = f" if "g \<in> set fs" for g
      using f Cons.prems [OF list.set_intros(1) that f(1)] by blast
    then have "(\<forall>g \<in> set fs. length (filter (contains_span g) (t # ts)) \<le> 1)
        \<longleftrightarrow> (\<forall>g \<in> set fs. length (if g = f then t # filter (contains_span g) ts else filter (contains_span g) ts) \<le> 1)" by simp
    moreover have "... \<longleftrightarrow> filter (contains_span f) ts = [] \<and> (\<forall>g \<in> set fs. length (filter (contains_span g) ts) \<le> 1)"
    proof -
      have "length (if g = f then t # filter (contains_span g) ts else filter (contains_span g) ts) \<le> 1
          \<longleftrightarrow> length (filter (contains_span g) ts) \<le> 1 \<and> (g = f \<longrightarrow> filter (contains_span f) ts = [])" for g
        by (cases "g = f") auto
      then show ?thesis using f(1) by (simp only:) blast
    qed
    ultimately show ?thesis by simp
  qed
qed (simp add: map_filter_simps)

lemma clean_laid_out:
  fixes rs :: "'n reductions"
  assumes "multimap_documented M" "laid_out i s rs"
  shows "clean (finalize M (run_actions M rs) :: 'n error_recovery list) \<longleftrightarrow> first_nexts_bound i \<and> iterators_ok i"
proof -
  have in_rs: "span_left t < span_right t" "\<And>u. u \<in> snd ` set rs \<Longrightarrow> nested_or_apart t u" if "t \<in> snd ` set rs" for t
    using laid_bounds(1) [OF assms(2)] laid_nested(1) [OF assms(2)] that by blast+
  have "distinct (List.map_filter (closest (span_sort (folds_of x rs))) (nexts_of x rs))
      \<and> successively (\<lambda>s t. \<not> contains_span s t) (span_sort (span_sort (folds_of x rs))) \<longleftrightarrow> spans_ok x rs" for x
  proof -
    let ?F = "folds_of x rs"
    have F: "\<forall>f \<in> set ?F. span_left f < span_right f" "\<forall>f \<in> set ?F. \<forall>g \<in> set ?F. nested_or_apart f g"
      by (simp_all add: in_rs [OF spans_of_reductions(1)] spans_of_reductions(1))
    have "distinct (map (span_left \<circ> snd) rs)" using laid_nested(1) [OF assms(2)] by simp
    then have "distinct (map span_left ?F)" by (simp add: folds_of_def distinct_map_filter comp_def)
    then have "distinct (span_sort ?F)" by (simp add: distinct_map span_sort_def)
    then have "sorted_wrt (<) (map span_left (span_sort (span_sort ?F)))" by (intro sorted_folds [OF assms(2)]) simp_all
    then have "successively (\<lambda>s t. \<not> contains_span s t) (span_sort (span_sort ?F)) \<longleftrightarrow> (\<forall>f \<in> set ?F. \<forall>g \<in> set ?F. \<not> contains_span f g)"
      using successively_apart [of "span_sort (span_sort ?F)"] F by simp
    moreover have "distinct (List.map_filter (closest (span_sort ?F)) (nexts_of x rs))
        \<longleftrightarrow> (\<forall>f \<in> set ?F. length (filter (contains_span f) (nexts_of x rs)) \<le> 1)" if "\<forall>f \<in> set ?F. \<forall>g \<in> set ?F. \<not> contains_span f g"
    proof -
      note apart = that
      have "f = g" if "f \<in> set ?F" "g \<in> set ?F" "contains_span f t" "contains_span g t" for f g t
      proof -
        have "nested_or_apart f g" "\<not> contains_span f g" "\<not> contains_span g f" using F(2) apart that(1,2) by simp_all
        then show ?thesis using that(3,4) unfolding nested_or_apart_def by (auto simp: contains_iff)
      qed
      then show ?thesis using closest_distinct [of "nexts_of x rs" "span_sort ?F"] by simp
    qed
    ultimately show ?thesis unfolding spans_ok_def by blast
  qed
  then show ?thesis
    unfolding clean_script [OF assms(1)] laid_first_bound [OF assms(2)] laid_iterators_ok(1) [OF assms(2), symmetric] by blast
qed

lemma parsed_laid_out:
  fixes ts :: "'n tokens"
  assumes "lex F script = Ok ts" "parse_instr n ts = Some (i, rs, [])"
  obtains s where "laid_out i s rs"
proof -
  have "spans_ordered 0 (length script) ts"
    using assms(1) lex_chars_ordered [of F script "char_indices script" ts 0] char_indices_offsets [of 0 script]
    by (simp add: lex_def char_indices_def)
  then show ?thesis using laysD [OF lays_parse_instr assms(2)] that by blast
qed

lemma parse_scriptD:
  fixes i :: "'n instruction"
  assumes "parse_script F M script = Ok i"
  obtains ts rs where "lex F script = Ok ts" "parse_instr (length ts) ts = Some (i, rs, [])"
    "finalize M (run_actions M rs) = ([] :: 'n error_recovery list)"
proof (cases "lex F script")
  case (Ok ts)
  show ?thesis
  proof (cases "parse_instr (length ts) ts")
    case (Some p)
    obtain j rs rest where p: "p = (j, rs, rest)" by (cases p)
    show ?thesis using assms that Ok Some unfolding p by (cases rest) (simp_all add: parse_script_def Let_def split: if_splits)
  qed (use assms Ok in \<open>simp add: parse_script_def\<close>)
qed (use assms in \<open>simp_all add: parse_script_def\<close>)

lemma parse_scriptI:
  fixes i :: "'n instruction"
  assumes "lex F script = Ok ts" "parse_instr n ts = Some (i, rs, [])" "finalize M (run_actions M rs) = ([] :: 'n error_recovery list)"
  shows "parse_script F M script = Ok i"
  using assms(1,3) parse_instr_fuel [OF assms(2) order.refl] by (simp add: parse_script_def)

lemma accepted_iterators:
  fixes i :: "'n instruction"
  assumes "multimap_documented M" "parse_script F M script = Ok i"
  shows "first_nexts_bound i \<and> iterators_ok i"
proof -
  obtain ts rs where p: "lex F script = Ok ts" "parse_instr (length ts) ts = Some (i, rs, [])"
      "finalize M (run_actions M rs) = ([] :: 'n error_recovery list)"
    using parse_scriptD [OF assms(2)] .
  obtain s where s: "laid_out i s rs" using parsed_laid_out [OF p(1,2)] .
  show ?thesis using clean_laid_out [OF assms(1) s] p(3) by (simp add: clean_def)
qed

section \<open>Properties\<close>

lemmas iterator_specs = iterators.simps next_names.simps iterators_ok.simps next_marks.simps first_nexts_bound_def

lemma example_loop_lexed:
  "lex example_front ''(fold a i (next i))'' = Ok [(0, TOpenRoundBracket, 1), (1, TFold, 5), (6, TScalar ''a'' 6, 7), (8, TScalar ''i'' 8, 9),
     (10, TOpenRoundBracket, 11), (11, TNext, 15), (16, TScalar ''i'' 16, 17), (17, TCloseRoundBracket, 18), (18, TCloseRoundBracket, 19)]"
  by (simp add: lex_eval)

lemmas parse_eval = numeral_eq_Suc parse_keyword_def parse_call_def parse_triplet_def parse_call_output_def parse_args.simps parse_value_def parse_ap_argument_def
  empty_array_or_def one_token_def expect_token_def reduce_def parse_canon_def parse_ap_def parse_fold_iterable_def parse_last_instruction_def
  parse_two_def parse_match_def parse_new_def parse_fold_def parse_fail_def parse_next_def Let_def span_of_def variable_of_def

definition example_loop :: "int instruction" where
  "example_loop = IFoldScalar (IterScalar \<lparr>var_name = ''a'', var_position = 6\<rparr>) \<lparr>var_name = ''i'', var_position = 8\<rparr>
     (INext \<lparr>var_name = ''i'', var_position = 16\<rparr>) None \<lparr>span_left = 0, span_right = 19\<rparr>"

definition example_loop_reductions :: "int reductions" where
  "example_loop_reductions = [(INext \<lparr>var_name = ''i'', var_position = 16\<rparr>, \<lparr>span_left = 10, span_right = 18\<rparr>),
     (example_loop, \<lparr>span_left = 0, span_right = 19\<rparr>)]"

lemma example_loop_parsed:
  "parse_instr 9 [(0, TOpenRoundBracket, 1), (1, TFold, 5), (6, TScalar ''a'' 6, 7), (8, TScalar ''i'' 8, 9),
     (10, TOpenRoundBracket, 11), (11, TNext, 15), (16, TScalar ''i'' 16, 17), (17, TCloseRoundBracket, 18), (18, TCloseRoundBracket, 19)]
   = Some (example_loop, example_loop_reductions, [])"
  by (simp add: parse_eval example_loop_def example_loop_reductions_def)

text \<open>C9. The three checks of the validator for iterators, on the sorted spans of the folds and \<open>next\<close>s recorded while a script is
  parsed, report nothing exactly when no fold of the script is inside another one over the same iterator, no fold has two
  \<open>next\<close>s of its iterator inside it, and the first \<open>next\<close> of every name is inside a fold over that name. Only the first: the
  further ones of the same name may be outside of every fold over it.\<close>

theorem iterator_checks_correct:
  fixes i :: "'n instruction"
  assumes "multimap_documented M" "lex F script = Ok ts" "parse_instr n ts = Some (i, rs, [])"
  shows "(\<forall>e \<in> set (finalize M (run_actions M rs) :: 'n error_recovery list). \<not> iteration_error (fst e))
    \<longleftrightarrow> iterators_ok i \<and> first_nexts_bound i"
proof -
  obtain s where "laid_out i s rs" using parsed_laid_out [OF assms(2,3)] .
  from clean_laid_out [OF assms(1) this] show ?thesis unfolding clean_def by blast
qed

theorem iterator_checks_correct_witness:
  "(\<forall>e \<in> set (finalize list_multimap (run_actions list_multimap example_loop_reductions) :: int error_recovery list). \<not> iteration_error (fst e))
    \<longleftrightarrow> iterators_ok example_loop \<and> first_nexts_bound example_loop"
  by (rule iterator_checks_correct [OF list_multimap_documented example_loop_lexed example_loop_parsed])

end
