(* ===== verification/Run_Properties.thy ===== *)
theory Run_Properties
  imports Exec_Properties Script_Iterators
begin

text \<open>
  Properties of a whole run of the interpreter: which outcomes there are, what a successful one hands to the host,
  and that a run of a well-formed script without folds over streams ends.
\<close>

section \<open>Preparation\<close>

text \<open>The steps before the execution succeed and give the context, the trace handler and the script of \<open>pd\<close>,
  with the soft limits that were exceeded.\<close>

definition prepared_with ::
    "('n, 'bm, 'mm, 'pk, 'sg, 'kp, 'ver) host_ops \<Rightarrow> string \<Rightarrow> bytes \<Rightarrow> bytes \<Rightarrow> host_parameters \<Rightarrow> bytes
       \<Rightarrow> ('n, 'bm, 'kp) preparation_descriptor \<Rightarrow> soft_limits_triggering \<Rightarrow> bool" where
  "prepared_with H script raw_prev raw_current params raw_call_results pd limits' \<longleftrightarrow>
     (\<exists>limits prev current sigs.
        check_against_size_limits params script raw_current = (Ok limits :: (_, 'ver preparation_error) result)
      \<and> parse_data H raw_prev raw_current = Ok (prev, current)
      \<and> verify_step (cids (air H)) (serdes (air H)) (keys H) (verification_orders H) prev current (hp_particle_id params) = Ok sigs
      \<and> prepare H prev current script raw_call_results params sigs limits = (Ok pd, limits'))"

definition prepared ::
    "('n, 'bm, 'mm, 'pk, 'sg, 'kp, 'ver) host_ops \<Rightarrow> string \<Rightarrow> bytes \<Rightarrow> bytes \<Rightarrow> host_parameters \<Rightarrow> bytes
       \<Rightarrow> ('n, 'bm, 'kp) preparation_descriptor \<Rightarrow> bool" where
  "prepared H script raw_prev raw_current params raw_call_results pd \<longleftrightarrow>
     (\<exists>limits. prepared_with H script raw_prev raw_current params raw_call_results pd limits)"

lemma preparation_Ok:
  fixes H :: "('n, 'bm, 'mm, 'pk, 'sg, 'kp, 'ver) host_ops"
  assumes "prepare H prev current script results params sigs limits = (Ok pd, limits')"
  shows "parse_air H script = Ok (pd_air pd)"
    and "handler_from_trace (bimaps (air H)) (data_trace prev) (data_trace current)
      = (Ok (pd_trace_handler pd) :: (_, 'ver preparation_error) result)"
    and "\<exists>rs. pd_exec_ctx pd = execution_ctx_new (numbers (air H)) (ingredients_of prev) (ingredients_of current) rs sigs (run_params_of params)"
  using assms
  by (auto simp: prepare_def make_exec_ctx_def and_then_def handle_limit_exceeding_def result_simps
      split: prod.splits result.splits if_splits)

lemma execution_ctx_new_start:
  "last_request_id (execution_ctx_new N prev current rs sigs params) = ing_last_call_request_id prev"
  "call_requests (execution_ctx_new N prev current rs sigs params) = Map.empty"
  "scalars_of (execution_ctx_new N prev current rs sigs params) = scalars_new"
  "run_params (execution_ctx_new N prev current rs sigs params) = params"
  by (simp_all add: execution_ctx_new_def)

section \<open>Outcomes\<close>

text \<open>An error with the previous data as it was given, and an error of the compactification, without data.\<close>

definition rejected :: "('n, 'bm, 'mm, 'pk, 'sg, 'kp, 'ver) host_ops \<Rightarrow> bytes \<Rightarrow> interpreter_outcome \<Rightarrow> bool" where
  "rejected H raw_prev out \<longleftrightarrow> out_ret_code out \<noteq> INTERPRETER_SUCCESS \<and> out_data out = raw_prev
     \<and> out_next_peer_pks out = [] \<and> call_requests_encode H Map.empty = Inr (out_call_requests out)"

definition discarded :: "interpreter_outcome \<Rightarrow> bool" where
  "discarded out \<longleftrightarrow> out_ret_code out \<noteq> INTERPRETER_SUCCESS \<and> out_data out = []
     \<and> out_next_peer_pks out = [] \<and> out_call_requests out = []"

text \<open>The outcome carries the data and the requests of the state \<open>t\<close> the execution ended in, after the compactification of streams.\<close>

definition carries ::
    "('n, 'bm, 'mm, 'pk, 'sg, 'kp, 'ver) host_ops \<Rightarrow> soft_limits_triggering \<Rightarrow> ('n, 'bm) exec_state \<Rightarrow> interpreter_outcome \<Rightarrow> bool" where
  "carries H limits t out \<longleftrightarrow>
     (\<exists>t' inner. compactify_streams H limits t = (Ok (), t')
      \<and> data_encode H (from_execution_result H t') = Inr inner
      \<and> envelope_encode H \<lparr>data_version = own_data_version H, interpreter_version = own_version H\<rparr> inner = Inr (out_data out)
      \<and> last_call_request_id (from_execution_result H t') = last_request_id (fst t)
      \<and> signatures (from_execution_result H t') = signatures_of (fst t))
     \<and> call_requests_encode H (call_requests (fst t)) = Inr (out_call_requests out)
     \<and> out_next_peer_pks out = peers_order H (set (next_peer_pks (fst t)))"

definition outcome_of :: "('a, 'a) result \<Rightarrow> ('a, unit) result" where
  "outcome_of r = (case r of Ok outcome \<Rightarrow> Ok outcome | Err outcome \<Rightarrow> Ok outcome | Panic \<Rightarrow> Panic)"

lemma outcome_of_as_error [simp]: "outcome_of (as_error r) = outcome_of r"
  by (cases r) (simp_all add: outcome_of_def)

lemma outcome_of_Ok: "outcome_of r = Ok out \<longleftrightarrow> r = Ok out \<or> r = Err out"
  by (cases r) (simp_all add: outcome_of_def)

lemma to_error_code_positive: "0 < to_error_code e"
  by (cases e) (simp_all add: CATCHABLE_ERRORS_START_ID_def UNCATCHABLE_ERRORS_START_ID_def)

lemmas codes_not_success = to_error_code_positive [THEN less_imp_neq, THEN not_sym]

lemma from_uncatchable_rejected:
  assumes "outcome_of (from_uncatchable_error H raw_prev code msg limits) = Ok out" "code \<noteq> 0"
  shows "rejected H raw_prev out"
  using assms
  by (auto simp: outcome_of_Ok from_uncatchable_error_def expect_def rejected_def interpreter_outcome_new_def INTERPRETER_SUCCESS_def
      split: sum.splits)

lemma describe_codes: "fst (describe_preparation H e) \<noteq> 0" "fst (describe_execution H e') \<noteq> 0"
  by (simp_all add: describe_preparation_def preparation_error_code_def PREPARATION_ERROR_START_ID_def describe_execution_def
      codes_not_success)

text \<open>A step that fails rejects, a step that succeeds goes on.\<close>

lemma farewell_if_fail_cases:
  assumes "farewell_if_fail H raw_prev limits describe r k = Some x" "outcome_of x = Ok out" "\<And>e. fst (describe e) \<noteq> 0"
  shows "rejected H raw_prev out \<or> (\<exists>a. r = Ok a \<and> k a = Some x)"
proof (cases r)
  case (Err e)
  then have "x = as_error (from_uncatchable_error H raw_prev (fst (describe e)) (snd (describe e)) limits)"
    using assms(1) by (simp add: farewell_if_fail_def split: prod.splits)
  then show ?thesis using from_uncatchable_rejected assms(2,3) by fastforce
qed (use assms in \<open>auto simp: farewell_if_fail_def outcome_of_def\<close>)

section \<open>The end of a run\<close>

lemma compactify_streams_keeps:
  assumes "compactify_streams H limits s = (r, t)"
  shows "call_requests (fst t) = call_requests (fst s)" "last_request_id (fst t) = last_request_id (fst s)"
    "next_peer_pks (fst t) = next_peer_pks (fst s)" "cid_tracker (fst t) = cid_tracker (fst s)"
    "run_params (fst t) = run_params (fst s)" "signatures_of (fst t) = signatures_of (fst s)"
  using assms
  by (auto simp: compactify_streams_def map_err_def and_then_def zoom_with_trace_def split: prod.splits result.splits)

lemma compactify_streams_Err: "compactify_streams H limits s = (Err out, t) \<Longrightarrow> discarded out"
  by (auto simp: compactify_streams_def map_err_def execution_error_into_outcome_def discarded_def interpreter_outcome_new_def
      INTERPRETER_SUCCESS_def codes_not_success split: prod.splits elim!: res_map_err.elims)

text \<open>The state after the signing of the produced CIDs.\<close>

definition signed_state :: "('n, 'bm) exec_state \<Rightarrow> signature_store \<Rightarrow> ('n, 'bm) exec_state" where
  "signed_state t sigs = ((fst t)\<lparr>signatures_of := sigs\<rparr>, snd t)"

lemma signed_state_simps [simp]:
  "call_requests (fst (signed_state t sigs)) = call_requests (fst t)" "last_request_id (fst (signed_state t sigs)) = last_request_id (fst t)"
  "call_results (fst (signed_state t sigs)) = call_results (fst t)" "snd (signed_state t sigs) = snd t"
  "cid_tracker (fst (signed_state t sigs)) = cid_tracker (fst t)" "run_params (fst (signed_state t sigs)) = run_params (fst t)"
  "signatures_of (fst (signed_state t sigs)) = sigs"
  by (simp_all add: signed_state_def)

abbreviation produced_signed ::
    "('n, 'bm, 'mm, 'pk, 'sg, 'kp, 'ver) host_ops \<Rightarrow> string \<Rightarrow> 'kp \<Rightarrow> ('n, 'bm) exec_state
       \<Rightarrow> (unit, 'n execution_error) result \<times> signature_store" where
  "produced_signed H salt kp t \<equiv> sign_produced_cids (keys H) (cid_tracker (fst t)) salt kp (signatures_of (fst t))"

text \<open>The runner signs twice. When the first signing succeeds, the second one signs the same CIDs with the same salt and key: it
  succeeds and stores the signature that is there.\<close>

lemma signed_again:
  assumes "produced_signed H salt kp t = (Ok (), sigs)" "cid_tracker (fst u) = cid_tracker (fst t)"
    and "rp_salt (run_params (fst u)) = salt" "signatures_of (fst u) = sigs"
  shows "sign_result H kp limits u = (Ok (), u)"
proof -
  obtain sig where sig: "gen_signature (keys H) salt kp (cid_tracker (fst t)) = Ok sig"
      "sigs = signature_put (key_pair_public (keys H) kp) sig (signatures_of (fst t))"
    using assms(1) by (auto simp: sign_produced_cids_def and_then_lift Let_def modify_def elim!: res_map_err.elims split: result.splits)
  then have "signatures_of_update (signature_put (key_pair_public (keys H) kp) sig) (fst u) = fst u"
    using assms(4) by (simp add: signature_put_def)
  with sig(1) assms(2,3) show ?thesis
    by (cases u) (simp add: sign_result_def and_then_lift update_ctx_def modify_def)
qed

lemma populate_outcome_cases:
  assumes "outcome_of (populate_outcome_from_contexts H code msg kp limits (signed_state t sigs)) = Ok out"
    and "produced_signed H (rp_salt (run_params (fst t))) kp t = (Ok (), sigs)"
  shows "(\<exists>s. compactify_streams H limits (signed_state t sigs) = (Err out, s)) \<or> out_ret_code out = code \<and> carries H limits (signed_state t sigs) out"
proof -
  obtain r u where m: "compactify_streams H limits (signed_state t sigs) = (r, u)" by (meson surj_pair)
  note keep = compactify_streams_keeps [OF m]
  show ?thesis
  proof (cases r)
    case (Ok v)
    have "sign_result H kp limits u = (Ok (), u)"
      by (rule signed_again [OF assms(2)]) (simp_all add: keep)
    with assms(1) m Ok obtain inner where "data_encode H (from_execution_result H u) = Inr inner"
        "envelope_encode H \<lparr>data_version = own_data_version H, interpreter_version = own_version H\<rparr> inner = Inr (out_data out)"
        "call_requests_encode H (call_requests (fst u)) = Inr (out_call_requests out)"
        "out_next_peer_pks out = peers_order H (set (next_peer_pks (fst u)))" "out_ret_code out = code"
      by (auto simp: populate_outcome_from_contexts_def outcome_of_Ok expect_def interpreter_outcome_new_def and_then_def split: sum.splits)
    with m Ok keep show ?thesis unfolding carries_def by (auto simp: from_execution_result_def)
  qed (use assms(1) m in \<open>simp_all add: populate_outcome_from_contexts_def outcome_of_Ok and_then_def\<close>)
qed

text \<open>What a run is after the preparation, by the result of the execution.\<close>

definition script_outcome :: "(unit, 'n exec_stop) result \<Rightarrow> ('n, 'bm) exec_state \<Rightarrow> interpreter_outcome \<Rightarrow> bool" where
  "script_outcome r t out \<longleftrightarrow> (case r of
     Ok _ \<Rightarrow> (if call_results (fst t) = Map.empty then out_ret_code out = INTERPRETER_SUCCESS
              else out_ret_code out = FAREWELL_ERRORS_START_ID)
   | Err (Stop e) \<Rightarrow> is_catchable e \<and> out_ret_code out = to_error_code e
   | _ \<Rightarrow> False)"

text \<open>The three ends of an execution with result \<open>r\<close> in state \<open>t\<close>: the signing of the produced CIDs fails, the error is not
  catchable, or the outcome is made from the state, unless the compactification of streams fails.\<close>

definition run_end ::
    "('n, 'bm, 'mm, 'pk, 'sg, 'kp, 'ver) host_ops \<Rightarrow> bytes \<Rightarrow> string \<Rightarrow> 'kp \<Rightarrow> soft_limits_triggering \<Rightarrow> (unit, 'n exec_stop) result
       \<Rightarrow> ('n, 'bm) exec_state \<Rightarrow> interpreter_outcome \<Rightarrow> bool" where
  "run_end H raw_prev salt kp limits r t out \<longleftrightarrow> (case produced_signed H salt kp t of
     (Err e, _) \<Rightarrow> rejected H raw_prev out \<and> out_ret_code out = to_error_code e
   | (Panic, _) \<Rightarrow> False
   | (Ok _, sigs) \<Rightarrow>
       (\<exists>e. r = Err (Stop e) \<and> \<not> is_catchable e \<and> rejected H raw_prev out \<and> out_ret_code out = to_error_code e)
       \<or> (r = Ok () \<or> (\<exists>e. r = Err (Stop e) \<and> is_catchable e))
         \<and> ((\<exists>s. compactify_streams H limits (signed_state t sigs) = (Err out, s)) \<and> discarded out
            \<or> script_outcome r (signed_state t sigs) out \<and> carries H limits (signed_state t sigs) out))"

lemma run_end_completed:
  assumes "run_end H raw_prev salt kp limits r t out" "\<not> rejected H raw_prev out" "\<not> discarded out"
  obtains sigs where "script_outcome r (signed_state t sigs) out" "carries H limits (signed_state t sigs) out"
proof -
  obtain q sigs where "produced_signed H salt kp t = (q, sigs)" by (meson surj_pair)
  with assms that show ?thesis by (cases q) (auto simp: run_end_def)
qed

lemma from_uncatchable_code: "outcome_of (from_uncatchable_error H raw_prev code msg limits) = Ok out \<Longrightarrow> out_ret_code out = code"
  by (auto simp: outcome_of_Ok from_uncatchable_error_def expect_def interpreter_outcome_new_def split: sum.splits)

lemma finish_run_cases:
  assumes "finish_run H raw_prev kp limits r (signed_state t sigs) = Some x" "outcome_of x = Ok out"
    and "produced_signed H (rp_salt (run_params (fst t))) kp t = (Ok (), sigs)"
  shows "run_end H raw_prev (rp_salt (run_params (fst t))) kp limits r t out"
proof -
  note populate = populate_outcome_cases [OF _ assms(3), of _ _ limits out] and compact = compactify_streams_Err [of H limits "signed_state t sigs" out]
  show ?thesis
  proof (cases r)
    case (Ok u)
    define code where "code = (if call_results (fst t) = Map.empty then INTERPRETER_SUCCESS else FAREWELL_ERRORS_START_ID)"
    have "\<exists>msg. outcome_of (populate_outcome_from_contexts H code msg kp limits (signed_state t sigs)) = Ok out"
      using assms(1,2) Ok by (auto simp: finish_run_def from_success_result_def farewell_error_code_def Let_def code_def split: if_splits)
    with populate compact Ok assms(3) show ?thesis by (fastforce simp: run_end_def script_outcome_def code_def)
  next
    case (Err stop)
    then obtain e where e: "stop = Stop e" using assms(1) by (cases stop) (simp_all add: finish_run_def)
    show ?thesis
    proof (cases "is_catchable e")
      case True
      then have "outcome_of (populate_outcome_from_contexts H (to_error_code e) (error_text (air H) e) kp limits (signed_state t sigs)) = Ok out"
        using assms(1,2) Err e by (auto simp: finish_run_def from_execution_error_def)
      with populate compact Err e True assms(3) show ?thesis by (fastforce simp: run_end_def script_outcome_def)
    next
      case False
      then have "outcome_of (from_uncatchable_error H raw_prev (to_error_code e) (error_text (air H) e) limits) = Ok out"
        using assms(1,2) Err e by (auto simp: finish_run_def)
      with from_uncatchable_rejected from_uncatchable_code codes_not_success Err e False assms(3) show ?thesis
        by (fastforce simp: run_end_def)
    qed
  qed (use assms in \<open>auto simp: finish_run_def outcome_of_def\<close>)
qed

lemma execute_and_farewell_cases:
  fixes H :: "('n, 'bm, 'mm, 'pk, 'sg, 'kp, 'ver) host_ops"
  assumes "execute_and_farewell n H raw_prev salt pd limits = Some x" "outcome_of x = Ok out"
    and "rp_salt (run_params (pd_exec_ctx pd)) = salt"
  shows "\<exists>r t. execute n (air H) (pd_air pd) (pd_exec_ctx pd, pd_trace_handler pd) = (r, t)
    \<and> run_end H raw_prev salt (pd_keypair pd) limits r t out"
proof -
  obtain r t where e: "execute n (air H) (pd_air pd) (pd_exec_ctx pd, pd_trace_handler pd) = (r, t)" by (meson surj_pair)
  obtain q :: "(unit, 'n execution_error) result" and sigs where g: "produced_signed H salt (pd_keypair pd) t = (q, sigs)"
    by (meson surj_pair)
  have r: "r \<noteq> Panic" "r \<noteq> Err OutOfFuel" using assms(1,2) e by (auto simp: execute_and_farewell_def outcome_of_def)
  then have salt: "rp_salt (run_params (fst t)) = salt"
    using records.execute_related [OF e] assms(3) by (simp add: settled_all records_extended_def)
  have run: "farewell_if_fail H raw_prev limits (describe_execution H) q
      (\<lambda>_. finish_run H raw_prev (pd_keypair pd) limits r (signed_state t sigs)) = Some x"
    using assms(1) e g r by (cases r) (auto simp: execute_and_farewell_def signed_state_def split: prod.splits exec_stop.splits)
  have "run_end H raw_prev salt (pd_keypair pd) limits r t out"
  proof (cases q)
    case (Ok u)
    then show ?thesis
      using run g finish_run_cases [of H raw_prev "pd_keypair pd" limits r t sigs x out] assms(2) salt by (simp add: farewell_if_fail_def)
  next
    case (Err er)
    then have "outcome_of (from_uncatchable_error H raw_prev (to_error_code er) (error_text (air H) er) limits) = Ok out"
      using run assms(2) by (auto simp: farewell_if_fail_def describe_execution_def)
    with Err g from_uncatchable_rejected from_uncatchable_code codes_not_success show ?thesis by (fastforce simp: run_end_def)
  qed (use run assms(2) in \<open>auto simp: farewell_if_fail_def outcome_of_def\<close>)
  with e show ?thesis by blast
qed

lemma farewell_if_failE:
  assumes "farewell_if_fail H raw_prev limits (describe_preparation H) r k = Some x"
    and "outcome_of x = Ok out" "\<not> rejected H raw_prev out"
  obtains a where "r = Ok a" "k a = Some x"
  using farewell_if_fail_cases [OF assms(1,2) describe_codes(1)] assms(3) by blast

lemma execute_air_impl_cases:
  fixes H :: "('n, 'bm, 'mm, 'pk, 'sg, 'kp, 'ver) host_ops"
  assumes "execute_air_impl n H script raw_prev raw_current params results = Some x" "outcome_of x = Ok out"
  shows "rejected H raw_prev out
    \<or> (\<exists>pd limits. prepared_with H script raw_prev raw_current params results pd limits
        \<and> execute_and_farewell n H raw_prev (hp_particle_id params) pd limits = Some x)"
proof (cases "rejected H raw_prev out")
  case False
  note step = farewell_if_failE [OF _ assms(2) False]
  obtain limits prev current where
      1: "check_against_size_limits params script raw_current = (Ok limits :: (_, 'ver preparation_error) result)"
    and 2: "parse_data H raw_prev raw_current = Ok (prev, current)"
    and x: "farewell_if_fail H raw_prev limits (describe_preparation H)
       (res_map_err verification_error_into (verify_step (cids (air H)) (serdes (air H)) (keys H) (verification_orders H)
          prev current (hp_particle_id params))) (\<lambda>sigs.
     case prepare H prev current script results params sigs limits of
       (r, limits) \<Rightarrow> farewell_if_fail H raw_prev limits (describe_preparation H) r (\<lambda>pd.
         execute_and_farewell n H raw_prev (hp_particle_id params) pd limits)) = Some x"
    using assms(1) unfolding execute_air_impl_def Let_def by (elim step) auto
  obtain sigs where 3: "verify_step (cids (air H)) (serdes (air H)) (keys H) (verification_orders H) prev current (hp_particle_id params) = Ok sigs"
    and x: "(case prepare H prev current script results params sigs limits of
       (r, limits) \<Rightarrow> farewell_if_fail H raw_prev limits (describe_preparation H) r (\<lambda>pd.
         execute_and_farewell n H raw_prev (hp_particle_id params) pd limits)) = Some x"
    using x by (elim step) (auto simp: result_simps)
  obtain r limits' where p: "prepare H prev current script results params sigs limits = (r, limits')" by (meson surj_pair)
  with x have "farewell_if_fail H raw_prev limits' (describe_preparation H) r (\<lambda>pd.
         execute_and_farewell n H raw_prev (hp_particle_id params) pd limits') = Some x" by simp
  then obtain pd where "r = Ok pd" "execute_and_farewell n H raw_prev (hp_particle_id params) pd limits' = Some x"
    by (elim step)
  with 1 2 3 p show ?thesis unfolding prepared_with_def by blast
qed simp

lemma prepared_start:
  assumes "prepared_with H script raw_prev raw_current params results pd limits'"
  obtains prev current where "parse_data H raw_prev raw_current = Ok (prev, current)"
    "last_request_id (pd_exec_ctx pd) = last_call_request_id prev" "call_requests (pd_exec_ctx pd) = Map.empty"
    "run_params (pd_exec_ctx pd) = run_params_of params" "parse_air H script = Ok (pd_air pd)"
proof -
  obtain prev current sigs limits where p: "parse_data H raw_prev raw_current = Ok (prev, current)"
    "prepare H prev current script results params sigs limits = (Ok pd, limits')"
    using assms unfolding prepared_with_def by blast
  obtain rs where "pd_exec_ctx pd = execution_ctx_new (numbers (air H)) (ingredients_of prev) (ingredients_of current) rs sigs (run_params_of params)"
    using preparation_Ok(3) [OF p(2)] ..
  then show ?thesis using that [OF p(1)] preparation_Ok(1) [OF p(2)] by (simp add: execution_ctx_new_start ingredients_of_def)
qed

lemma prepared_runs:
  assumes "prepared_with H script raw_prev raw_current params results pd limits"
  shows "execute_air_impl n H script raw_prev raw_current params results = execute_and_farewell n H raw_prev (hp_particle_id params) pd limits"
  using assms unfolding prepared_with_def by (auto simp: execute_air_impl_def farewell_if_fail_def Let_def result_simps)

lemma execute_air_cases:
  assumes "execute_air n H script raw_prev raw_current params results = Some (Ok out)"
  shows "(\<forall>pd. \<not> prepared H script raw_prev raw_current params results pd) \<and> rejected H raw_prev out
    \<or> (\<exists>pd limits r t. prepared_with H script raw_prev raw_current params results pd limits
        \<and> execute n (air H) (pd_air pd) (pd_exec_ctx pd, pd_trace_handler pd) = (r, t)
        \<and> run_end H raw_prev (hp_particle_id params) (pd_keypair pd) limits r t out)"
proof -
  obtain x where x: "execute_air_impl n H script raw_prev raw_current params results = Some x" "outcome_of x = Ok out"
    using assms by (auto simp: execute_air_def outcome_of_def)
  show ?thesis
  proof (cases "\<exists>pd limits. prepared_with H script raw_prev raw_current params results pd limits")
    case True
    then obtain pd limits where p: "prepared_with H script raw_prev raw_current params results pd limits" by blast
    have "rp_salt (run_params (pd_exec_ctx pd)) = hp_particle_id params"
      by (rule prepared_start [OF p]) (simp add: run_params_of_def)
    with execute_and_farewell_cases [OF _ x(2)] x(1) prepared_runs [OF p] p show ?thesis by metis
  next
    case False
    with execute_air_impl_cases [OF x] show ?thesis unfolding prepared_def by blast
  qed
qed

text \<open>An outcome that is neither a rejection nor without data.\<close>

lemma execute_air_completed:
  assumes "execute_air n H script raw_prev raw_current params results = Some (Ok out)" "\<not> rejected H raw_prev out" "\<not> discarded out"
  obtains pd limits r t sigs where "prepared_with H script raw_prev raw_current params results pd limits"
    "execute n (air H) (pd_air pd) (pd_exec_ctx pd, pd_trace_handler pd) = (r, t)"
    "script_outcome r (signed_state t sigs) out" "carries H limits (signed_state t sigs) out"
proof -
  obtain pd limits r t where p: "prepared_with H script raw_prev raw_current params results pd limits"
    and e: "execute n (air H) (pd_air pd) (pd_exec_ctx pd, pd_trace_handler pd) = (r, t)"
    and o: "run_end H raw_prev (hp_particle_id params) (pd_keypair pd) limits r t out"
    using execute_air_cases [OF assms(1)] assms(2) by blast
  from run_end_completed [OF o assms(2,3)] show ?thesis using that [OF p e] by blast
qed

lemma script_outcome_success:
  "script_outcome r t out \<Longrightarrow> out_ret_code out = INTERPRETER_SUCCESS \<Longrightarrow> r = Ok () \<and> call_results (fst t) = Map.empty"
  by (auto simp: script_outcome_def INTERPRETER_SUCCESS_def codes_not_success FAREWELL_ERRORS_START_ID_def
      split: result.splits exec_stop.splits if_splits)

section \<open>Accepted scripts\<close>

text \<open>What the validator checks of iterators is what the termination of an execution needs, for scripts without folds over streams in
  which no \<open>next\<close> is outside of the folds over its iterator.\<close>

function no_stream_folds :: "'n instruction \<Rightarrow> bool" where
  "no_stream_folds i \<longleftrightarrow> (case i of IFoldStream _ _ _ _ _ \<Rightarrow> False | IFoldStreamMap _ _ _ _ _ \<Rightarrow> False | _ \<Rightarrow> True)
     \<and> (\<forall>c \<in> set (children i). no_stream_folds c)"
  by pat_completeness auto
termination
  by (relation "measure size") auto

declare no_stream_folds.simps [simp del]

lemma instruction_induct: "(\<And>i. (\<And>c. c \<in> set (children i) \<Longrightarrow> P c) \<Longrightarrow> P i) \<Longrightarrow> P i"
  by (induction i rule: measure_induct_rule [of size]) simp

lemma free_nexts_named: "free_nexts i \<subseteq> set (next_names i)"
proof (induction i rule: instruction_induct)
  case (1 i)
  have "set (next_names i) = set_option (next_iterator i) \<union> (\<Union>c \<in> set (children i). set (next_names c))"
    using next_no_children [of i] by (subst next_names.simps) (auto split: option.split)
  then show ?case using 1 by (cases i) (auto split: option.splits if_splits)
qed

lemma accepted_nexts_ok: "iterators_ok i \<Longrightarrow> no_stream_folds i \<Longrightarrow> nexts_ok i"
proof (induction i rule: instruction_induct)
  case (1 i)
  have c: "\<forall>c \<in> set (children i). nexts_ok c" "\<forall>c \<in> set (children i). free_nexts c \<subseteq> set (next_names c)"
    using 1 free_nexts_named by (auto simp: iterators_ok.simps [of i] no_stream_folds.simps [of i])
  show ?case
  proof (cases i)
    case (IFoldScalar x v b l s)
    have "\<not> (var_name v \<in> set (next_names b) \<and> var_name v \<in> set (next_names l'))" if "l = Some l'" for l'
    proof -
      have "count_list (next_names b) (var_name v) + count_list (next_names l') (var_name v) \<le> 1"
        using 1(2) IFoldScalar that by (simp add: iterators_ok.simps [of "IFoldScalar x v b (Some l') s"])
      then show ?thesis
        using count_list_0_iff [of "next_names b" "var_name v"] count_list_0_iff [of "next_names l'" "var_name v"] by linarith
    qed
    with c IFoldScalar show ?thesis by (auto split: option.split)
  qed (use c 1(3) in \<open>auto simp: no_stream_folds.simps [of "IFoldStream _ _ _ _ _"] no_stream_folds.simps [of "IFoldStreamMap _ _ _ _ _"]\<close>)
qed

lemma marks_names: "map fst (next_marks B i) = next_names i"
proof (induction i arbitrary: B rule: instruction_induct)
  case (1 i)
  then show ?case by (subst next_marks.simps, subst next_names.simps) (auto simp: map_concat comp_def cong: map_cong split: option.split)
qed

lemma free_nexts_marked: "x \<in> free_nexts i \<Longrightarrow> x \<notin> B \<Longrightarrow> (x, False) \<in> set (next_marks B i)"
proof (induction i arbitrary: B rule: instruction_induct)
  case (1 i)
  have m: "set (next_marks B i) = (\<Union>c \<in> set (children i). set (next_marks (B \<union> set_option (fold_iterator i)) c))" if "next_iterator i = None"
    using that by (subst next_marks.simps) simp
  show ?case
  proof (cases "next_iterator i")
    case None
    obtain c where c: "c \<in> set (children i)" "x \<in> free_nexts c" "x \<notin> set_option (fold_iterator i)"
      using 1(2) None by (cases i) (auto split: option.splits if_splits)
    have "(x, False) \<in> set (next_marks (B \<union> set_option (fold_iterator i)) c)" using 1(1) [OF c(1,2)] 1(3) c(3) by simp
    with c(1) show ?thesis unfolding m [OF None] by blast
  next
    case (Some y)
    then show ?thesis using 1(2,3) by (cases i; subst next_marks.simps) auto
  qed
qed

lemma accepted_no_free_nexts:
  assumes "first_nexts_bound i" "distinct (next_names i)"
  shows "free_nexts i = {}"
proof (rule ccontr)
  assume "free_nexts i \<noteq> {}"
  then obtain x where x: "x \<in> free_nexts i" by blast
  have "(x, False) \<in> set (next_marks {} i)" using free_nexts_marked [OF x] by simp
  then have "map_of (next_marks {} i) x = Some False" using assms(2) marks_names [of "{}" i] by (metis map_of_eq_Some_iff)
  then show False using assms(1) x free_nexts_named [of i] by (auto simp: first_nexts_bound_def)
qed

section \<open>Termination of a run\<close>

definition returns :: "(nat \<Rightarrow> 'a option) \<Rightarrow> bool" where
  "returns f \<longleftrightarrow> (\<exists>n a. \<forall>m \<ge> n. f m = Some a)"

lemma returns_farewell:
  "(\<And>a. r = Ok a \<Longrightarrow> returns (\<lambda>m. k m a)) \<Longrightarrow> returns (\<lambda>m. farewell_if_fail H raw_prev limits describe r (k m))"
  by (cases r) (auto simp: returns_def farewell_if_fail_def split: prod.split)

lemma returns_case: "(\<And>a b. x = (a, b) \<Longrightarrow> returns (\<lambda>n. f n a b)) \<Longrightarrow> returns (\<lambda>n. case x of (a, b) \<Rightarrow> f n a b)"
  by (cases x) simp

lemma returns_execute_and_farewell:
  assumes "halts (\<lambda>n. execute n (air H) (pd_air pd)) (pd_exec_ctx pd, pd_trace_handler pd)"
  shows "returns (\<lambda>n. execute_and_farewell n H raw_prev salt pd limits)"
proof -
  obtain r t n where e: "r \<noteq> Err OutOfFuel"
    "\<And>m. n \<le> m \<Longrightarrow> execute m (air H) (pd_air pd) (pd_exec_ctx pd, pd_trace_handler pd) = (r, t)"
    using assms unfolding halts_def by blast
  have "\<exists>x. execute_and_farewell n H raw_prev salt pd limits = Some x"
    using e by (cases r) (auto simp: execute_and_farewell_def farewell_if_fail_def finish_run_def split: prod.splits result.splits exec_stop.splits)
  moreover have "execute_and_farewell m H raw_prev salt pd limits = execute_and_farewell n H raw_prev salt pd limits" if "n \<le> m" for m
    using e(2) [OF that] e(2) [of n] by (simp add: execute_and_farewell_def)
  ultimately show ?thesis unfolding returns_def by metis
qed

lemma run_halts:
  assumes "\<And>i. parse_air H script = Ok i \<Longrightarrow> nexts_ok i \<and> free_nexts i = {}"
  shows "returns (\<lambda>n. execute_air_impl n H script raw_prev raw_current params results)"
proof -
  have "returns (\<lambda>n. execute_and_farewell n H raw_prev salt pd limits)"
    if prep: "prepare H prev current script results params sigs ls = (Ok pd, limits)" for prev current sigs ls salt pd limits
  proof (rule returns_execute_and_farewell)
    obtain rs where ctx: "pd_exec_ctx pd = execution_ctx_new (numbers (air H)) (ingredients_of prev) (ingredients_of current) rs sigs (run_params_of params)"
      using preparation_Ok(3) [OF prep] ..
    show "halts (\<lambda>n. execute n (air H) (pd_air pd)) (pd_exec_ctx pd, pd_trace_handler pd)"
      using assms [OF preparation_Ok(1) [OF prep]] by (intro fresh_script_halts) (simp_all add: ctx execution_ctx_new_start scalars_new_def scalars_wf_def sparse_wf_new)
  qed
  then show ?thesis
    unfolding execute_air_impl_def Let_def by (auto intro!: returns_farewell returns_case)
qed

section \<open>An example\<close>

definition example_orders_none :: iteration_orders where
  "example_orders_none = \<lparr>prev_keys = [], current_keys = [], current_peers = [], merged_peers = [], counted_cids = (\<lambda>_. [])\<rparr>"

definition example_host :: "(int, trace_pos \<Rightarrow> trace_pos option, list_multimap, string, string, string, nat) host_ops" where
  "example_host = \<lparr>air = example_air, keys = plain_keys, front = example_front, multimaps = list_multimap, report_errors = (\<lambda>_. ''report''),
     envelope_decode = (\<lambda>b. Inr (\<lparr>data_version = 1, interpreter_version = 1\<rparr>, b)), versions_decode = (\<lambda>_. Inl ''''),
     envelope_encode = (\<lambda>_ b. Inr b), data_decode = (\<lambda>_. Inr default_data), data_encode = (\<lambda>_. Inr ''data''),
     call_results_decode = (\<lambda>_. Inr []), call_requests_encode = (\<lambda>_. Inr ''requests''), key_format_decode = (\<lambda>_. Inr Ed25519),
     kp_from_secret = (\<lambda>_ _. Inr ''p''), version_less = (<), min_supported_version = 1, own_version = 1, own_data_version = 1,
     preparation_text = (\<lambda>_. []), farewell_text = (\<lambda>_. []), verification_orders = example_orders_none, names_order = (\<lambda>_. []),
     peers_order = (\<lambda>_. []), stores_order = (\<lambda>_. \<lparr>values_order = [], tetraplets_order = [], canon_elements_order = [], canon_results_order = [], service_results_order = []\<rparr>)\<rparr>"

definition example_host_params :: host_parameters where
  "example_host_params = \<lparr>hp_init_peer_id = ''p'', hp_current_peer_id = ''p'', hp_timestamp = 0, hp_ttl = 0, hp_key_format = 0,
     hp_secret_key_bytes = [], hp_particle_id = ''salt'', hp_air_size_limit = 100, hp_particle_size_limit = 100,
     hp_call_result_size_limit = 100, hp_hard_limit_enabled = True\<rparr>"

lemma example_verify:
  "verify_step plain_cids plain_serde plain_keys example_orders_none (default_data :: int interpreter_data) default_data salt = Ok Map.empty"
  by (simp add: verify_step_def default_data_def example_orders_none_def data_verifier_new_def data_verifier_verify_def
      verifier_merge_def cid_info_verify_def store_verify_raw_value_def store_verify_def
      verify_canon_result_store_def verify_service_result_store_def)

lemma example_null_lexed: "lex example_front ''(null)'' = Ok [(0, TOpenRoundBracket, 1), (1, TNull, 5), (5, TCloseRoundBracket, 6)]"
  by (simp add: lex_eval)

lemma example_null_parsed: "parse_script example_front list_multimap ''(null)'' = Ok INull"
  by (rule parse_scriptI [OF example_null_lexed, of 1 _ "[(INull, \<lparr>span_left = 0, span_right = 6\<rparr>)]"]) (simp add: parse_eval, code_simp)

lemma example_fold_lexed:
  "lex example_front ''(fold [] i (next i))'' = Ok [(0, TOpenRoundBracket, 1), (1, TFold, 5), (6, TOpenSquareBracket, 7), (7, TCloseSquareBracket, 8),
     (9, TScalar ''i'' 9, 10), (11, TOpenRoundBracket, 12), (12, TNext, 16), (17, TScalar ''i'' 17, 18), (18, TCloseRoundBracket, 19),
     (19, TCloseRoundBracket, 20)]"
  by (simp add: lex_eval)

definition example_empty_fold :: "int instruction" where
  "example_empty_fold = IFoldScalar IterEmptyArray \<lparr>var_name = ''i'', var_position = 9\<rparr>
     (INext \<lparr>var_name = ''i'', var_position = 17\<rparr>) None \<lparr>span_left = 0, span_right = 20\<rparr>"

definition example_fold_reductions :: "int reductions" where
  "example_fold_reductions = [(INext \<lparr>var_name = ''i'', var_position = 17\<rparr>, \<lparr>span_left = 11, span_right = 19\<rparr>),
     (example_empty_fold, \<lparr>span_left = 0, span_right = 20\<rparr>)]"

lemma example_fold_reduced:
  "parse_instr 10 [(0, TOpenRoundBracket, 1), (1, TFold, 5), (6, TOpenSquareBracket, 7), (7, TCloseSquareBracket, 8),
     (9, TScalar ''i'' 9, 10), (11, TOpenRoundBracket, 12), (12, TNext, 16), (17, TScalar ''i'' 17, 18), (18, TCloseRoundBracket, 19),
     (19, TCloseRoundBracket, 20)] = Some (example_empty_fold, example_fold_reductions, [])"
  by (simp add: parse_eval example_empty_fold_def example_fold_reductions_def)

lemma example_fold_valid: "finalize list_multimap (run_actions list_multimap example_fold_reductions) = ([] :: int error_recovery list)"
  by code_simp

lemma example_fold_parsed: "parse_script example_front list_multimap ''(fold [] i (next i))'' = Ok example_empty_fold"
  by (rule parse_scriptI [OF example_fold_lexed example_fold_reduced example_fold_valid])

lemma example_run:
  "\<exists>out. execute_air 1 example_host ''(null)'' [] [] example_host_params [] = Some (Ok out) \<and> out_ret_code out = INTERPRETER_SUCCESS"
  apply (simp add: execute_air_def execute_air_impl_def farewell_if_fail_def check_against_size_limits_def example_host_params_def
     example_host_def parse_air_def example_null_parsed soft_limits_default_def parse_data_def try_to_envelope_def envelope_new_def expect_def check_version_compatibility_def
     try_to_data_def example_air_def example_verify prepare_def make_exec_ctx_def)
  apply (simp add: and_then_def example_handler_new key_pair_new_def plain_keys_def validate_with_key_format_def execute_and_farewell_def
     execute_null_def sign_produced_cids_def gen_signature_def Let_def default_data_def execute_instruction_def leaf_def execution_ctx_new_def
     farewell_if_fail_def sign_cids_def key_pair_public_def finish_run_def from_success_result_def
     populate_outcome_from_contexts_def compactify_streams_def map_err_def zoom_with_trace_def sign_result_def update_ctx_def expect_def
     interpreter_outcome_new_def with_errors_def attempt_def)
  done

section \<open>Properties of a run\<close>

text \<open>C6. A run that returns an outcome ends in one of the ways the runner has. When a preparation step fails (sizes, data,
  verification, script, call results, keys) it rejects: an error code, the previous data as it was given, no peers and the encoded empty
  map of requests. Otherwise the script was executed. It also rejects, with the code of the error, when the signing of the produced
  CIDs fails and when the script ends with an uncatchable error. When the script ends with success or a catchable error, the outcome
  has the code of that end and the data, the requests and the peers of the state in which it ended, with the streams compactified and
  exactly the signatures that the signing of the produced CIDs has left (the second signing of the runner cannot fail and adds
  nothing). Only when this compactification fails, the outcome is its error, without data.\<close>

theorem run_outcomes:
  assumes "execute_air n H script raw_prev raw_current params results = Some (Ok out)"
  shows "(\<forall>pd. \<not> prepared H script raw_prev raw_current params results pd) \<and> rejected H raw_prev out
    \<or> (\<exists>pd limits r t. prepared_with H script raw_prev raw_current params results pd limits
        \<and> execute n (air H) (pd_air pd) (pd_exec_ctx pd, pd_trace_handler pd) = (r, t)
        \<and> run_end H raw_prev (hp_particle_id params) (pd_keypair pd) limits r t out)"
  by (rule execute_air_cases [OF assms])

theorem run_outcomes_witness:
  "\<exists>out pd limits t. execute_air 1 example_host ''(null)'' [] [] example_host_params [] = Some (Ok out)
    \<and> prepared_with example_host ''(null)'' [] [] example_host_params [] pd limits
    \<and> run_end example_host [] ''salt'' (pd_keypair pd) limits (Ok ()) t out \<and> out_ret_code out = INTERPRETER_SUCCESS"
proof -
  obtain out where o: "execute_air 1 example_host ''(null)'' [] [] example_host_params [] = Some (Ok out)"
      "out_ret_code out = INTERPRETER_SUCCESS"
    using example_run by blast
  have no: "\<not> rejected example_host [] out" "\<not> discarded out" using o(2) by (simp_all add: rejected_def discarded_def)
  obtain pd limits r t where p: "prepared_with example_host ''(null)'' [] [] example_host_params [] pd limits"
    and t: "run_end example_host [] ''salt'' (pd_keypair pd) limits r t out"
    using run_outcomes [OF o(1)] no by (auto simp: example_host_params_def)
  obtain sigs where "script_outcome r (signed_state t sigs) out" using run_end_completed [OF t no] .
  then have "r = Ok ()" using script_outcome_success [OF _ o(2)] by blast
  with o p t show ?thesis by blast
qed

text \<open>C5. A run that reports success has executed the script to its end and used every call result, and the requests it hands to
  the host have exactly the numbers from the one after the last request of the previous data up to the last request the new data
  records.\<close>

theorem run_success_requests:
  assumes "execute_air n H script raw_prev raw_current params results = Some (Ok out)" "out_ret_code out = INTERPRETER_SUCCESS"
  shows "\<exists>pd t prev current d inner requests.
      prepared H script raw_prev raw_current params results pd
    \<and> execute n (air H) (pd_air pd) (pd_exec_ctx pd, pd_trace_handler pd) = (Ok (), t) \<and> call_results (fst t) = Map.empty
    \<and> parse_data H raw_prev raw_current = Ok (prev, current)
    \<and> data_encode H d = Inr inner
    \<and> envelope_encode H \<lparr>data_version = own_data_version H, interpreter_version = own_version H\<rparr> inner = Inr (out_data out)
    \<and> call_requests_encode H requests = Inr (out_call_requests out)
    \<and> last_call_request_id prev \<le> last_call_request_id d
    \<and> dom requests = {last_call_request_id prev <.. last_call_request_id d}"
proof -
  obtain pd limits r t sigs where p: "prepared_with H script raw_prev raw_current params results pd limits"
    and e: "execute n (air H) (pd_air pd) (pd_exec_ctx pd, pd_trace_handler pd) = (r, t)"
    and o: "script_outcome r (signed_state t sigs) out" and c: "carries H limits (signed_state t sigs) out"
    by (rule execute_air_completed [OF assms(1)]) (use assms(2) in \<open>simp_all add: rejected_def discarded_def\<close>)
  have r: "r = Ok ()" "call_results (fst t) = Map.empty" using script_outcome_success [OF o assms(2)] by simp_all
  obtain prev current where d: "parse_data H raw_prev raw_current = Ok (prev, current)"
      "last_request_id (pd_exec_ctx pd) = last_call_request_id prev" "call_requests (pd_exec_ctx pd) = Map.empty"
    using prepared_start [OF p] by blast
  have "requests_extended (pd_exec_ctx pd, pd_trace_handler pd) t"
    using requests.execute_related [OF e] r(1) by simp
  with d have "last_call_request_id prev \<le> last_request_id (fst t)"
      "dom (call_requests (fst t)) = {last_call_request_id prev <.. last_request_id (fst t)}"
    by (simp_all add: requests_extended_def)
  moreover have "prepared H script raw_prev raw_current params results pd" using p unfolding prepared_def by blast
  ultimately show ?thesis using e r d(1) c unfolding carries_def signed_state_simps by metis
qed

theorem run_success_requests_witness:
  "\<exists>out t. execute_air 1 example_host ''(null)'' [] [] example_host_params [] = Some (Ok out)
    \<and> call_results (fst t) = (Map.empty :: string \<rightharpoonup> call_service_result)
    \<and> (\<exists>pd. prepared example_host ''(null)'' [] [] example_host_params [] pd
        \<and> execute 1 example_air (pd_air pd) (pd_exec_ctx pd, pd_trace_handler pd) = (Ok (), t))"
proof -
  obtain out where o: "execute_air 1 example_host ''(null)'' [] [] example_host_params [] = Some (Ok out)"
      "out_ret_code out = INTERPRETER_SUCCESS"
    using example_run by blast
  have A: "air example_host = example_air" by (simp add: example_host_def)
  show ?thesis using run_success_requests [OF o, unfolded A] o(1) by blast
qed

text \<open>C4. A run ends, whatever the data, the call results and the parameters are: with enough fuel it always returns the same result.
  This holds for every script without folds over streams in which no two \<open>next\<close>s have the same name, or every \<open>next\<close> is inside a
  fold over its iterator; what else the termination needs, the validator has checked when the script is executed.\<close>

theorem run_terminates:
  assumes "multimap_documented (multimaps H)"
    and "\<And>i. parse_script (front H) (multimaps H) script = Ok i \<Longrightarrow> no_stream_folds i \<and> (distinct (next_names i) \<or> free_nexts i = {})"
  shows "\<exists>n outcome. \<forall>m \<ge> n. execute_air m H script raw_prev raw_current params results = Some outcome"
proof -
  have "nexts_ok i \<and> free_nexts i = {}" if "parse_air H script = Ok i" for i
  proof -
    have i: "parse_script (front H) (multimaps H) script = Ok i" using that by (simp add: parse_air_def result_simps)
    show ?thesis
      using assms(2) [OF i] accepted_iterators [OF assms(1) i] accepted_nexts_ok accepted_no_free_nexts by blast
  qed
  then obtain n x where "\<And>m. n \<le> m \<Longrightarrow> execute_air_impl m H script raw_prev raw_current params results = Some x"
    using run_halts [of H script raw_prev raw_current params results] unfolding returns_def by blast
  then show ?thesis unfolding execute_air_def by (metis option.simps(9))
qed

theorem run_terminates_witness:
  "parse_script example_front list_multimap ''(fold [] i (next i))'' = Ok example_empty_fold
    \<and> (\<exists>n outcome. \<forall>m \<ge> n. execute_air m example_host ''(fold [] i (next i))'' [] [] example_host_params [] = Some outcome)"
proof -
  have h: "front example_host = example_front" "multimaps example_host = list_multimap" by (simp_all add: example_host_def)
  have "no_stream_folds example_empty_fold" "distinct (next_names example_empty_fold)"
    unfolding example_empty_fold_def by (simp_all add: no_stream_folds.simps [of "IFoldScalar _ _ _ _ _"] no_stream_folds.simps [of "INext _"]
      next_names.simps [of "IFoldScalar _ _ _ _ _"] next_names.simps [of "INext _"])
  then have "\<exists>n outcome. \<forall>m \<ge> n. execute_air m example_host ''(fold [] i (next i))'' [] [] example_host_params [] = Some outcome"
    by (intro run_terminates) (simp_all add: h list_multimap_documented example_fold_parsed)
  then show ?thesis using example_fold_parsed by blast
qed

end
