(* ===== verification/Endless_Script.thy ===== *)
theory Endless_Script
  imports Run_Properties
begin

text \<open>
  A script the validator accepts and whose execution never ends. \<^verbatim>\<open>check_undefined_iterables\<close> walks over the recorded
  \<open>next\<close>s with the function \<^verbatim>\<open>iter\<close> of the multimap, which gives one value for each key: of the \<open>next\<close>s of one name
  only the first is compared with the folds. A further one may stand in the last instruction of an outer fold. There it is
  executed while the inner fold is still open and exhausted, and runs the last instruction of the inner fold, which here is the same
  \<open>next\<close> again.
\<close>

section \<open>The script\<close>

abbreviation quoted :: "string \<Rightarrow> string" where
  "quoted s \<equiv> CHR 0x22 # s @ [CHR 0x22]"

definition endless_text :: string where
  "endless_text = ''(seq (call %init_peer_id% ('' @ quoted ''s'' @ '' '' @ quoted ''f'' @ '') [] a) ''
     @ ''(fold a y (fold a x (next y) (next x)) (next x)))''"

lemma endless_lexed:
  "lex example_front endless_text = Ok
    [(0, TOpenRoundBracket, 1), (1, TSeq, 4), (5, TOpenRoundBracket, 6), (6, TCall, 10), (11, TInitPeerId, 25), (26, TOpenRoundBracket, 27),
     (27, TStringLiteral ''s'', 30), (31, TStringLiteral ''f'', 34), (34, TCloseRoundBracket, 35), (36, TOpenSquareBracket, 37),
     (37, TCloseSquareBracket, 38), (39, TScalar ''a'' 39, 40), (40, TCloseRoundBracket, 41), (42, TOpenRoundBracket, 43), (43, TFold, 47),
     (48, TScalar ''a'' 48, 49), (50, TScalar ''y'' 50, 51), (52, TOpenRoundBracket, 53), (53, TFold, 57), (58, TScalar ''a'' 58, 59),
     (60, TScalar ''x'' 60, 61), (62, TOpenRoundBracket, 63), (63, TNext, 67), (68, TScalar ''y'' 68, 69), (69, TCloseRoundBracket, 70),
     (71, TOpenRoundBracket, 72), (72, TNext, 76), (77, TScalar ''x'' 77, 78), (78, TCloseRoundBracket, 79), (79, TCloseRoundBracket, 80),
     (81, TOpenRoundBracket, 82), (82, TNext, 86), (87, TScalar ''x'' 87, 88), (88, TCloseRoundBracket, 89), (89, TCloseRoundBracket, 90),
     (90, TCloseRoundBracket, 91)]"
  by (simp add: lex_eval endless_text_def)

definition endless_call :: "int call_ast" where
  "endless_call = \<lparr>call_triplet = \<lparr>trip_peer_id = PeerInitPeerId, trip_service_id = StrLiteral ''s'', trip_function_name = StrLiteral ''f''\<rparr>,
     call_args = [], call_output = OutScalar (variable_of ''a'' 39)\<rparr>"

definition inner_fold :: "int instruction" where
  "inner_fold = IFoldScalar (IterScalar (variable_of ''a'' 58)) (variable_of ''x'' 60) (INext (variable_of ''y'' 68))
     (Some (INext (variable_of ''x'' 77))) (span_of 52 80)"

definition outer_fold :: "int instruction" where
  "outer_fold = IFoldScalar (IterScalar (variable_of ''a'' 48)) (variable_of ''y'' 50) inner_fold (Some (INext (variable_of ''x'' 87))) (span_of 42 90)"

definition endless_reductions :: "int reductions" where
  "endless_reductions = [(ICall endless_call, span_of 5 41), (INext (variable_of ''y'' 68), span_of 62 70),
     (INext (variable_of ''x'' 77), span_of 71 79), (inner_fold, span_of 52 80), (INext (variable_of ''x'' 87), span_of 81 89),
     (outer_fold, span_of 42 90), (ISeq (ICall endless_call) outer_fold, span_of 0 91)]"

lemma endless_reduced:
  "parse_instr 4 [(0, TOpenRoundBracket, 1), (1, TSeq, 4), (5, TOpenRoundBracket, 6), (6, TCall, 10), (11, TInitPeerId, 25), (26, TOpenRoundBracket, 27),
     (27, TStringLiteral ''s'', 30), (31, TStringLiteral ''f'', 34), (34, TCloseRoundBracket, 35), (36, TOpenSquareBracket, 37),
     (37, TCloseSquareBracket, 38), (39, TScalar ''a'' 39, 40), (40, TCloseRoundBracket, 41), (42, TOpenRoundBracket, 43), (43, TFold, 47),
     (48, TScalar ''a'' 48, 49), (50, TScalar ''y'' 50, 51), (52, TOpenRoundBracket, 53), (53, TFold, 57), (58, TScalar ''a'' 58, 59),
     (60, TScalar ''x'' 60, 61), (62, TOpenRoundBracket, 63), (63, TNext, 67), (68, TScalar ''y'' 68, 69), (69, TCloseRoundBracket, 70),
     (71, TOpenRoundBracket, 72), (72, TNext, 76), (77, TScalar ''x'' 77, 78), (78, TCloseRoundBracket, 79), (79, TCloseRoundBracket, 80),
     (81, TOpenRoundBracket, 82), (82, TNext, 86), (87, TScalar ''x'' 87, 88), (88, TCloseRoundBracket, 89), (89, TCloseRoundBracket, 90),
     (90, TCloseRoundBracket, 91)] = Some (ISeq (ICall endless_call) outer_fold, endless_reductions, [])"
  by (simp add: parse_eval endless_call_def inner_fold_def outer_fold_def endless_reductions_def)

lemma endless_valid: "finalize list_multimap (run_actions list_multimap endless_reductions) = ([] :: int error_recovery list)"
  by code_simp

lemma endless_accepted: "parse_script example_front list_multimap endless_text = Ok (ISeq (ICall endless_call) outer_fold)"
  by (rule parse_scriptI [OF endless_lexed endless_reduced endless_valid])

section \<open>Its execution\<close>

text \<open>A fold over a scalar that is at its last item.\<close>

definition exhausted :: "('n, 'bm) exec_state \<Rightarrow> string \<Rightarrow> 'n instruction \<Rightarrow> bool" where
  "exhausted s name l \<longleftrightarrow> (\<exists>fs. iterable_variables (scalars_of (fst s)) name = Some fs \<and> fs_iterable_type fs = ScalarIterable
     \<and> fst (iterable_next (fs_iterable fs)) = False \<and> fs_last_instr_head fs = Some l)"

lemma flush_keeps_exhausted: "exhausted (apfst flush_subgraph_completeness s) = exhausted s"
  by (rule ext)+ (simp add: exhausted_def flush_subgraph_completeness_def)

text \<open>Such a \<open>next\<close> runs the last instruction of its fold.\<close>

lemma next_exhausted:
  assumes "exhausted s (var_name v) l" "fst (execute n A l (apfst flush_subgraph_completeness s)) = Err OutOfFuel"
  shows "fst (execute (Suc n) A (INext v) s) = Err OutOfFuel"
proof -
  obtain fs where fs: "iterable_variables (scalars_of (fst s)) (var_name v) = Some fs" "fs_iterable_type fs = ScalarIterable"
    "fs_last_instr_head fs = Some l" "iterable_next (fs_iterable fs) = (False, fs_iterable fs)"
    using assms(1) by (auto simp: exhausted_def iterable_next_def split: if_splits)
  obtain ctx th where s: "s = (ctx, th)" by (cases s)
  obtain t where t: "execute n A l (flush_subgraph_completeness ctx, th) = (Err OutOfFuel, t)"
    using assms(2) s by (cases "execute n A l (flush_subgraph_completeness ctx, th)") simp
  have "execute_next A (execute n A) v s = (Err OutOfFuel, t)"
    using fs s t by (simp add: execute_next_def Let_def get_fold_state_def leaf_def with_ctx_def get_iterable_def and_then_def
      maybe_meet_iteration_end_def maybe_meet_back_iterator_def next_last_def update_ctx_def map_err_def)
  then show ?thesis by (simp add: execute_instruction_def with_errors_def)
qed

lemma next_forever:
  assumes "exhausted s (var_name v) (INext w)" "var_name w = var_name v" 
  shows "fst (execute n A (INext v) s) = Err OutOfFuel"
proof -
  have "exhausted s (var_name u) (INext w) \<Longrightarrow> fst (execute n A (INext u) s) = Err OutOfFuel" if "var_name u = var_name w" for u s
    using that
  proof (induction n arbitrary: s u)
    case (Suc n)
    show ?case
      by (rule next_exhausted [OF Suc.prems(1)], rule Suc.IH) (use Suc.prems in \<open>simp_all add: flush_keeps_exhausted\<close>)
  qed simp
  then show ?thesis using assms by simp
qed

text \<open>The context inside a fold over a scalar.\<close>

definition inside_fold :: "string \<Rightarrow> 'n fold_state \<Rightarrow> 'n execution_ctx \<Rightarrow> 'n execution_ctx" where
  "inside_fold name fs ctx = (let sc = scalars_of ctx in
     ctx\<lparr>scalars_of := (scalars_fold_start sc)\<lparr>iterable_variables := (iterable_variables sc)(name \<mapsto> fs)\<rparr>\<rparr>)"

definition resolves_to :: "string \<Rightarrow> 'n value_aggregate \<Rightarrow> 'n execution_ctx \<Rightarrow> bool" where
  "resolves_to name r ctx \<longleftrightarrow> get_ctx_scalar ctx name = Ok (ScalarValueRef r)"

lemma scalar_reference:
  "scalars_get_value a sc = Ok (ScalarValueRef r) \<longleftrightarrow> get_non_iterable_scalar a sc = Ok (Some r) \<and> iterable_variables sc a = None"
  by (auto simp: scalars_get_value_def split: result.splits option.splits)

lemma resolves_inside_fold: "resolves_to a r ctx \<Longrightarrow> name \<noteq> a \<Longrightarrow> resolves_to a r (inside_fold name fs ctx)"
  by (cases "cells (non_iterable_variables (scalars_of ctx)) a")
    (auto simp: resolves_to_def get_ctx_scalar_def scalar_reference inside_fold_def scalars_fold_start_def get_non_iterable_scalar_def
      matrix_get_value_def matrix_fold_start_def Let_def result_simps split: if_splits)

lemma fold_forever:
  assumes "resolves_to (var_name it) r ctx" "get_result r = JArray [w]" "iterable_variables (scalars_of ctx) (var_name v) = None"
    and "\<And>fs. exhausted (inside_fold (var_name v) fs ctx, th) (var_name v) l \<Longrightarrow>
      fst (execute n A b (inside_fold (var_name v) fs ctx, th)) = Err OutOfFuel"
  shows "fst (execute (Suc n) A (IFoldScalar (IterScalar it) v b (Some l) span) (ctx, th)) = Err OutOfFuel"
proof -
  let ?fs = "from_iterable (ItResolvedCall r 1 0) ScalarIterable b (Some l)" and ?x = "var_name v"
  have "exhausted (inside_fold ?x ?fs ctx, th) ?x l"
    by (simp add: exhausted_def inside_fold_def from_iterable_def iterable_next_def Let_def)
  then obtain t where t: "execute n A b (inside_fold ?x ?fs ctx, th) = (Err OutOfFuel, t)"
    using assms(4) [of ?fs] by (cases "execute n A b (inside_fold ?x ?fs ctx, th)") simp
  have it: "scalar_iterable A (IterScalar it) ctx = Ok (ScalarBased (ItResolvedCall r 1 0))"
    using assms(1,2) by (simp add: resolves_to_def create_scalar_iterable_def fold_from_value_def)
  have "execute_fold (execute n A) (ItResolvedCall r 1 0) ScalarIterable ?x b (Some l) (ctx, th) = (Err OutOfFuel, t)"
    using t assms(3) by (simp add: execute_fold_def Let_def and_then_def update_ctx_def leaf_def on_scalars_def set_iterable_value_def
      scalars_fold_start_def on_ctx_def zoom_def attempt_def map_err_def inside_fold_def)
  then show ?thesis
    using it by (simp add: execute_instruction_def with_errors_def execute_fold_scalar_def joinable_run_def with_ctx_def)
qed

lemma inside_fold_iterators [simp]:
  "iterable_variables (scalars_of (inside_fold name fs ctx)) = (iterable_variables (scalars_of ctx))(name \<mapsto> fs)"
  by (simp add: inside_fold_def Let_def)

lemma exhausted_inside_fold: "name' \<noteq> name \<Longrightarrow> exhausted (ctx, th) name l \<Longrightarrow> exhausted (inside_fold name' fs ctx, th) name l"
  by (simp add: exhausted_def)

text \<open>C10. Counterexample to the termination of accepted scripts. The parser accepts the script \<open>endless_text\<close>, a call with a fold in a fold
  after it, although its second \<open>next x\<close> is outside of the fold over \<open>x\<close>. When the call has returned an array of one element, the
  execution of the fold never ends: no amount of fuel is enough.\<close>

theorem accepted_script_without_end:
  assumes "resolves_to ''a'' r ctx" "get_result r = JArray [w]" "iterable_variables (scalars_of ctx) = Map.empty"
  shows "parse_script example_front list_multimap endless_text = Ok (ISeq (ICall endless_call) outer_fold)
    \<and> (\<forall>n. fst (execute n A outer_fold (ctx, th)) = Err OutOfFuel)"
proof -
  have names: "var_name (variable_of n p) = n" for n p by (simp add: variable_of_def)
  let ?last = "INext (variable_of ''x'' 87) :: int instruction"
  have body: "fst (execute n A (INext (variable_of ''y'' 68)) s) = Err OutOfFuel"
    if "exhausted s ''y'' ?last" "exhausted s ''x'' (INext (variable_of ''x'' 77))" for n s
  proof (cases n)
    case (Suc m)
    have "fst (execute m A ?last (apfst flush_subgraph_completeness s)) = Err OutOfFuel"
      using that(2) by (intro next_forever [where w = "variable_of ''x'' 77"]) (simp_all add: flush_keeps_exhausted names)
    then show ?thesis unfolding Suc using that(1) by (intro next_exhausted [where l = ?last]) (simp_all add: names)
  qed simp
  have inner: "fst (execute n A inner_fold (inside_fold ''y'' fs ctx, th)) = Err OutOfFuel" if "exhausted (inside_fold ''y'' fs ctx, th) ''y'' ?last" for n fs
  proof (cases n)
    case (Suc m)
    show ?thesis
      unfolding Suc inner_fold_def
      by (rule fold_forever [where r = r and w = w])
        (use assms that in \<open>auto simp: names intro!: resolves_inside_fold body exhausted_inside_fold\<close>)
  qed simp
  have "fst (execute n A outer_fold (ctx, th)) = Err OutOfFuel" for n
  proof (cases n)
    case (Suc m)
    show ?thesis
      unfolding Suc outer_fold_def by (rule fold_forever [where r = r and w = w]) (use assms inner in \<open>auto simp: names\<close>)
  qed simp
  then show ?thesis using endless_accepted by blast
qed

text \<open>The context after the call has returned the array.\<close>

definition endless_result :: "int value_aggregate" where
  "endless_result = ServiceResultValue \<lparr>sra_result = JArray [JNull], sra_tetraplet = literal_tetraplet ''p'', sra_trace_pos = 0\<rparr> ''cid''"

definition endless_ctx :: "int execution_ctx" where
  "endless_ctx = (fst example_state)\<lparr>scalars_of := snd (set_scalar_value ''a'' endless_result scalars_new)\<rparr>"

lemma endless_ctx_resolves: "resolves_to ''a'' endless_result endless_ctx" "iterable_variables (scalars_of endless_ctx) = Map.empty"
  by (simp_all add: endless_ctx_def resolves_to_def get_ctx_scalar_def scalar_reference set_scalar_value_def zoom_def set_value_def scalars_new_def
      sparse_matrix_new_def Let_def cell_from_value_def get_non_iterable_scalar_def matrix_get_value_def)

theorem accepted_script_without_end_witness:
  "parse_script example_front list_multimap endless_text = Ok (ISeq (ICall endless_call) outer_fold)
    \<and> (\<forall>n. fst (execute n example_air outer_fold (endless_ctx, example_handler [] [])) = Err OutOfFuel)"
  by (rule accepted_script_without_end [OF endless_ctx_resolves(1) _ endless_ctx_resolves(2)]) (simp add: endless_result_def)

end
