(* ===== verification/Avm_Interface.thy ===== *)
theory Avm_Interface
  imports Runner
begin

text \<open>
  The interface between the host, the Wasm runtime and the interpreter: the values that cross the boundary
  (\<^verbatim>\<open>interpreter-interface\<close>: \<^verbatim>\<open>run_parameters.rs\<close>, \<^verbatim>\<open>interpreter_outcome.rs\<close>, \<^verbatim>\<open>run_args_memory_limits.rs\<close>) and the types
  of the host (\<^verbatim>\<open>avm/interface\<close>): call requests, call results, particles and outcomes.

  \<open>ivalue\<close> has the kinds of \<^verbatim>\<open>fluence_it_types::IValue\<close> that the code builds or inspects; \<open>IvOther\<close> stands for the others. Parameters, in the record
  \<open>interface_ops\<close>: the debug texts of these values, the text of a JSON value, and the MessagePack formats. A deserialized hash map
  is an association list in the order of its iteration.
\<close>

section \<open>Values of the Wasm runtime\<close>

datatype ivalue =
    IvBoolean bool
  | IvU8 nat
  | IvU32 u32
  | IvU64 nat
  | IvS64 int
  | IvString string
  | IvByteArray bytes
  | IvArray "ivalue list"
  | IvRecord "ivalue list"
  | IvOther string

record 'n interface_ops =
  ivalue_debug :: "ivalue \<Rightarrow> string"
  ivalues_debug :: "ivalue list \<Rightarrow> string"
  jvalue_to_string :: "'n jvalue \<Rightarrow> string"
  call_results_encode :: "(string \<times> call_service_result) list \<Rightarrow> string + bytes"
  call_requests_decode :: "bytes \<Rightarrow> string + (u32 \<times> call_request_params) list"
  arguments_decode :: "bytes \<Rightarrow> string + 'n jvalue list"
  tetraplets_decode :: "bytes \<Rightarrow> string + security_tetraplet list list"

text \<open>\<^verbatim>\<open>into_iter().map(f).collect::<Result<_, _>>()\<close> stops at the first error.\<close>

fun collect_results :: "('a \<Rightarrow> ('b, 'e) result) \<Rightarrow> 'a list \<Rightarrow> ('b list, 'e) result" where
  "collect_results f [] = Ok []"
| "collect_results f (x # xs) = res_then (f x) (\<lambda>y. res_then (collect_results f xs) (\<lambda>ys. Ok (y # ys)))"

definition into_ivalue :: "host_parameters \<Rightarrow> ivalue" where
  "into_ivalue self = IvRecord
     [IvString (hp_init_peer_id self), IvString (hp_current_peer_id self), IvU64 (hp_timestamp self), IvU32 (hp_ttl self),
      IvU8 (hp_key_format self), IvByteArray (hp_secret_key_bytes self), IvString (hp_particle_id self),
      IvU64 (hp_air_size_limit self), IvU64 (hp_particle_size_limit self), IvU64 (hp_call_result_size_limit self),
      IvBoolean (hp_hard_limit_enabled self)]"

section \<open>Reading an outcome of the interpreter\<close>

fun try_as_record :: "'n interface_ops \<Rightarrow> ivalue \<Rightarrow> (ivalue list, string) result" where
  "try_as_record I (IvRecord record_values) = Ok record_values"
| "try_as_record I v = Err (''expected record for InterpreterOutcome, got '' @ ivalue_debug I v)"

fun try_as_i64 :: "'n interface_ops \<Rightarrow> string \<Rightarrow> ivalue \<Rightarrow> (int, string) result" where
  "try_as_i64 I field_name (IvS64 value) = Ok value"
| "try_as_i64 I field_name v = Err (''expected an i64 for '' @ field_name @ '', got '' @ ivalue_debug I v)"

fun try_as_string :: "'n interface_ops \<Rightarrow> string \<Rightarrow> ivalue \<Rightarrow> (string, string) result" where
  "try_as_string I field_name (IvString value) = Ok value"
| "try_as_string I field_name v = Err (''expected a string for '' @ field_name @ '', got '' @ ivalue_debug I v)"

fun try_as_byte :: "'n interface_ops \<Rightarrow> ivalue \<Rightarrow> (char, string) result" where
  "try_as_byte I (IvU8 byte) = Ok (char_of byte)"
| "try_as_byte I v = Err (''expected a byte, got '' @ ivalue_debug I v)"

fun try_as_byte_vec :: "'n interface_ops \<Rightarrow> string \<Rightarrow> ivalue \<Rightarrow> (bytes, string) result" where
  "try_as_byte_vec I field_name (IvArray array) = collect_results (try_as_byte I) array"
| "try_as_byte_vec I field_name (IvByteArray array) = Ok array"
| "try_as_byte_vec I field_name v = Err (''expected a Vec<u8> for '' @ field_name @ '', got '' @ ivalue_debug I v)"

fun try_as_peer :: "'n interface_ops \<Rightarrow> ivalue \<Rightarrow> (string, string) result" where
  "try_as_peer I (IvString str) = Ok str"
| "try_as_peer I v = Err (''expected string for next_peer_pks, got '' @ ivalue_debug I v)"

fun try_as_string_vec :: "'n interface_ops \<Rightarrow> string \<Rightarrow> ivalue \<Rightarrow> (string list, string) result" where
  "try_as_string_vec I field_name (IvArray ar_values) = collect_results (try_as_peer I) ar_values"
| "try_as_string_vec I field_name v = Err (''expected an array for '' @ field_name @ '', got '' @ ivalue_debug I v)"

fun try_as_boolean :: "'n interface_ops \<Rightarrow> string \<Rightarrow> ivalue \<Rightarrow> (bool, string) result" where
  "try_as_boolean I field_name (IvBoolean value) = Ok value"
| "try_as_boolean I field_name v = Err (''expected a bool for '' @ field_name @ '', got '' @ ivalue_debug I v)"

text \<open>\<^verbatim>\<open>record_values.pop().unwrap()\<close>, and the conversion of the value it gives.\<close>

definition pop_as :: "(ivalue \<Rightarrow> ('a, string) result) \<Rightarrow> (ivalue list, 'a, string) comp" where
  "pop_as conv = (\<lambda>record_values. if record_values = [] then (Panic, record_values)
     else (conv (last record_values), butlast record_values))"

definition OUTCOME_FIELDS_COUNT :: nat where
  "OUTCOME_FIELDS_COUNT = 8"

definition pop_outcome :: "'n interface_ops \<Rightarrow> (ivalue list, interpreter_outcome, string) comp" where
  "pop_outcome I =
     and_then (pop_as (try_as_boolean I ''call_result_size_limit_exceeded'')) (\<lambda>call_result_size_limit_exceeded.
     and_then (pop_as (try_as_boolean I ''particle_size_limit_exceeded'')) (\<lambda>particle_size_limit_exceeded.
     and_then (pop_as (try_as_boolean I ''air_size_limit_exceeded'')) (\<lambda>air_size_limit_exceeded.
     and_then (pop_as (try_as_byte_vec I ''call_requests'')) (\<lambda>requests.
     and_then (pop_as (try_as_string_vec I ''next_peer_pks'')) (\<lambda>peers.
     and_then (pop_as (try_as_byte_vec I ''data'')) (\<lambda>data.
     and_then (pop_as (try_as_string I ''error_message'')) (\<lambda>error_message.
     and_then (pop_as (try_as_i64 I ''ret_code'')) (\<lambda>ret_code.
     ret (interpreter_outcome_new ret_code error_message data peers requests
       \<lparr>slt_air = air_size_limit_exceeded, slt_particle = particle_size_limit_exceeded,
        slt_call_result = call_result_size_limit_exceeded\<rparr>)))))))))"

definition from_ivalue :: "'n interface_ops \<Rightarrow> ivalue \<Rightarrow> (interpreter_outcome, string) result" where
  "from_ivalue I v =
     res_then (try_as_record I v) (\<lambda>record_values.
     if length record_values \<noteq> OUTCOME_FIELDS_COUNT
     then Err (''expected InterpreterOutcome struct with 8 fields, got '' @ ivalues_debug I record_values)
     else fst (pop_outcome I record_values))"

text \<open>What the glue of the \<^verbatim>\<open>marine\<close> attribute makes of an outcome: a record with the fields in the order of the struct.\<close>

definition outcome_ivalue :: "interpreter_outcome \<Rightarrow> ivalue" where
  "outcome_ivalue out = IvRecord
     [IvS64 (out_ret_code out), IvString (out_error_message out), IvByteArray (out_data out),
      IvArray (map IvString (out_next_peer_pks out)), IvByteArray (out_call_requests out),
      IvBoolean (out_air_size_limit_exceeded out), IvBoolean (out_particle_size_limit_exceeded out),
      IvBoolean (out_call_result_size_limit_exceeded out)]"

section \<open>Size limits\<close>

definition MB :: nat where
  "MB = 1024 * 1024"

definition MAX_AIR_SIZE :: nat where
  "MAX_AIR_SIZE = 16 * MB"

definition MAX_PARTICLE_SIZE :: nat where
  "MAX_PARTICLE_SIZE = 64 * MB"

definition MAX_CALL_RESULT_SIZE :: nat where
  "MAX_CALL_RESULT_SIZE = 32 * MB"

definition are_limits_exceeded :: "soft_limits_triggering \<Rightarrow> bool" where
  "are_limits_exceeded self \<longleftrightarrow> slt_air self \<or> slt_particle self \<or> slt_call_result self"

section \<open>Call results and call requests of the host\<close>

record 'n avm_service_result =
  asr_ret_code :: int
  asr_result :: "'n jvalue"

definition AVM_CALL_SERVICE_SUCCESS :: int where
  "AVM_CALL_SERVICE_SUCCESS = 0"

definition service_result_ok :: "'n jvalue \<Rightarrow> 'n avm_service_result" where
  "service_result_ok r = \<lparr>asr_ret_code = AVM_CALL_SERVICE_SUCCESS, asr_result = r\<rparr>"

definition service_result_err :: "int \<Rightarrow> 'n jvalue \<Rightarrow> 'n avm_service_result" where
  "service_result_err err_code r = \<lparr>asr_ret_code = err_code, asr_result = r\<rparr>"

definition into_raw :: "'n interface_ops \<Rightarrow> 'n avm_service_result \<Rightarrow> call_service_result" where
  "into_raw I self = \<lparr>csr_ret_code = asr_ret_code self, csr_result = jvalue_to_string I (asr_result self)\<rparr>"

definition into_raw_result ::
    "'n interface_ops \<Rightarrow> (u32 \<times> 'n avm_service_result) list \<Rightarrow> (string \<times> call_service_result) list" where
  "into_raw_result I results = map (\<lambda>(request_id, call_result). (show_nat (unat request_id), into_raw I call_result)) results"

record 'n avm_call_request =
  acr_service_id :: string
  acr_function_name :: string
  acr_arguments :: "'n jvalue list"
  acr_tetraplets :: "security_tetraplet list list"

datatype call_se_de_errors =
    CallResultsSeFailed "(string \<times> call_service_result) list" string
  | CallRequestsDeError bytes string
  | CallParamsArgsDeFailed call_request_params string
  | CallParamsTetrapletsDeFailed call_request_params string

definition request_from_raw ::
    "'n interface_ops \<Rightarrow> call_request_params \<Rightarrow> ('n avm_call_request, call_se_de_errors) result" where
  "request_from_raw I call_params =
     res_then (res_map_err (CallParamsArgsDeFailed call_params) (of_sum (arguments_decode I (crp_arguments call_params)))) (\<lambda>arguments.
     res_then (res_map_err (CallParamsTetrapletsDeFailed call_params) (of_sum (tetraplets_decode I (crp_tetraplets call_params)))) (\<lambda>tetraplets.
     Ok \<lparr>acr_service_id = crp_service_id call_params, acr_function_name = crp_function_name call_params,
         acr_arguments = arguments, acr_tetraplets = tetraplets\<rparr>))"

definition from_raw_call_requests ::
    "'n interface_ops \<Rightarrow> bytes \<Rightarrow> (u32 \<rightharpoonup> 'n avm_call_request, call_se_de_errors) result" where
  "from_raw_call_requests I raw_call_params =
     res_then (res_map_err (CallRequestsDeError raw_call_params) (of_sum (call_requests_decode I raw_call_params))) (\<lambda>requests.
     res_then (collect_results (\<lambda>(request_id, call_params).
       res_then (request_from_raw I call_params) (\<lambda>call_params. Ok (request_id, call_params))) requests) (\<lambda>requests.
     Ok (map_of requests)))"

section \<open>Particles and outcomes\<close>

record particle_parameters =
  pp_init_peer_id :: string
  pp_particle_id :: string
  pp_timestamp :: nat
  pp_ttl :: u32
  pp_current_peer_id :: string

record 'n raw_avm_outcome =
  raw_ret_code :: int
  raw_error_message :: string
  raw_data :: bytes
  raw_call_requests :: "u32 \<rightharpoonup> 'n avm_call_request"
  raw_next_peer_pks :: "string list"
  raw_soft_limits :: soft_limits_triggering

definition from_interpreter_outcome ::
    "'n interface_ops \<Rightarrow> interpreter_outcome \<Rightarrow> ('n raw_avm_outcome, call_se_de_errors) result" where
  "from_interpreter_outcome I outcome =
     res_then (from_raw_call_requests I (out_call_requests outcome)) (\<lambda>requests.
     Ok \<lparr>raw_ret_code = out_ret_code outcome, raw_error_message = out_error_message outcome, raw_data = out_data outcome,
         raw_call_requests = requests, raw_next_peer_pks = out_next_peer_pks outcome,
         raw_soft_limits = \<lparr>slt_air = out_air_size_limit_exceeded outcome, slt_particle = out_particle_size_limit_exceeded outcome,
           slt_call_result = out_call_result_size_limit_exceeded outcome\<rparr>\<rparr>)"

record 'n avm_outcome =
  avm_data :: bytes
  avm_call_requests :: "u32 \<rightharpoonup> 'n avm_call_request"
  avm_next_peer_pks :: "string list"
  avm_memory_delta :: nat
  avm_execution_time :: nat
  avm_soft_limits :: soft_limits_triggering

record 'n error_avm_outcome =
  eao_error_code :: int
  eao_error_message :: string
  eao_outcome :: "'n avm_outcome"

definition from_raw_outcome ::
    "'n raw_avm_outcome \<Rightarrow> nat \<Rightarrow> nat \<Rightarrow> ('n avm_outcome, 'n error_avm_outcome) result" where
  "from_raw_outcome raw_outcome memory_delta execution_time =
     (let outcome = \<lparr>avm_data = raw_data raw_outcome, avm_call_requests = raw_call_requests raw_outcome, avm_next_peer_pks = raw_next_peer_pks raw_outcome,
        avm_memory_delta = memory_delta, avm_execution_time = execution_time, avm_soft_limits = raw_soft_limits raw_outcome\<rparr> in
      if raw_ret_code raw_outcome = INTERPRETER_SUCCESS then Ok outcome
      else Err \<lparr>eao_error_code = raw_ret_code raw_outcome, eao_error_message = raw_error_message raw_outcome, eao_outcome = outcome\<rparr>)"

section \<open>Lemmas\<close>

lemma collect_results_Ok:
  "collect_results f xs = Ok ys \<longleftrightarrow> list_all2 (\<lambda>x y. f x = Ok y) xs ys"
  by (induction xs arbitrary: ys) (auto simp: result_simps list_all2_Cons1)

lemma collect_results_map: "(\<And>x. f (g x) = Ok x) \<Longrightarrow> collect_results f (map g xs) = Ok xs"
  by (induction xs) simp_all

text \<open>The outcome that the runtime hands over is the outcome that the host reads.\<close>

lemma from_outcome_ivalue: "from_ivalue I (outcome_ivalue out) = Ok out"
  by (simp add: from_ivalue_def outcome_ivalue_def OUTCOME_FIELDS_COUNT_def pop_outcome_def and_then_def pop_as_def
      collect_results_map interpreter_outcome_new_def)

lemma map_of_zipped:
  assumes "list_all2 (\<lambda>(k, x) (k', y). k' = k \<and> f x = Ok y) xs ys"
  shows "dom (map_of ys) = dom (map_of xs)"
proof -
  have "map fst ys = map fst xs" using assms by (induction rule: list_all2_induct) auto
  then show ?thesis unfolding dom_map_of_conv_image_fst by (metis set_map)
qed

lemma from_raw_call_requests_dom:
  assumes "from_raw_call_requests I raw_requests = Ok requests"
  obtains rs where "call_requests_decode I raw_requests = Inr rs" "dom requests = dom (map_of rs)"
proof -
  obtain rs ys where rs: "call_requests_decode I raw_requests = Inr rs" "requests = map_of ys"
      "list_all2 (\<lambda>x y. (case x of (request_id, call_params) \<Rightarrow>
         res_then (request_from_raw I call_params) (\<lambda>call_params. Ok (request_id, call_params))) = Ok y) rs ys"
    using assms by (auto simp: from_raw_call_requests_def result_simps collect_results_Ok)
  have "list_all2 (\<lambda>(k, x) (k', y). k' = k \<and> request_from_raw I x = Ok y) rs ys"
    using rs(3) by (rule list_all2_mono) (auto simp: result_simps)
  with that rs show ?thesis using map_of_zipped by blast
qed

end
