(* ===== verification/Avm_Server.thy ===== *)
theory Avm_Server
  imports Avm_Interface
begin

text \<open>
  The host side of the interpreter: \<^verbatim>\<open>avm/server/src/runner.rs\<close>, which calls the Wasm module, \<^verbatim>\<open>avm.rs\<close>, which reads the previous
  data of a particle, runs the interpreter on it and stores the new data, and the trait of data stores (\<^verbatim>\<open>crates/data-store\<close>).

  Parameters: the Wasm runtime with its state, files, key pairs and JSON (\<open>server_ops\<close>), and the data store (\<open>data_store_ops\<close>), of
  which the repository has the trait only. The time that a call took is an argument. A path is the list of its components. The file
  \<^verbatim>\<open>avm_runtime_limits.rs\<close> is an unused copy of the limits in \<^verbatim>\<open>runner.rs\<close>. \<^verbatim>\<open>debug_assert!\<close> is not part of a release build.
\<close>

section \<open>Limits\<close>

record aquavm_runtime_limits =
  arl_air_size_limit :: nat
  arl_particle_size_limit :: nat
  arl_call_result_size_limit :: nat
  arl_hard_limit_enabled :: bool

record avm_runtime_limits =
  opt_air_size_limit :: "nat option"
  opt_particle_size_limit :: "nat option"
  opt_call_result_size_limit :: "nat option"
  opt_hard_limit_enabled :: bool

definition avm_runtime_limits_default :: avm_runtime_limits where
  "avm_runtime_limits_default = \<lparr>opt_air_size_limit = None, opt_particle_size_limit = None, opt_call_result_size_limit = None,
     opt_hard_limit_enabled = False\<rparr>"

fun unwrap_or :: "'a option \<Rightarrow> 'a \<Rightarrow> 'a" where
  "unwrap_or (Some x) _ = x"
| "unwrap_or None d = d"

definition runtime_limits_from :: "avm_runtime_limits \<Rightarrow> aquavm_runtime_limits" where
  "runtime_limits_from value =
     \<lparr>arl_air_size_limit = unwrap_or (opt_air_size_limit value) MAX_AIR_SIZE,
      arl_particle_size_limit = unwrap_or (opt_particle_size_limit value) MAX_PARTICLE_SIZE,
      arl_call_result_size_limit = unwrap_or (opt_call_result_size_limit value) MAX_CALL_RESULT_SIZE,
      arl_hard_limit_enabled = opt_hard_limit_enabled value\<rparr>"

section \<open>Errors and parameters\<close>

datatype runner_error =
    MarineError string
  | InvalidAIRPath "string list" "string option" string
  | InterpreterResultDeError string
  | IncorrectInterpreterResult "ivalue list"
  | CallSeDeErrors call_se_de_errors
  | KeyError string
  | Aux string

datatype ('n, 'e) avm_error =
    InterpreterFailed "'n error_avm_outcome"
  | RunnerError runner_error
  | DataStoreError 'e
  | AnomalyDataSeError string

text \<open>The configuration of the one module, without the fields the code always leaves empty.\<close>

record marine_config =
  mc_modules_dir :: "string list"
  mc_total_memory_limit :: "nat option"
  mc_file_name :: string
  mc_import_name :: string
  mc_logger_enabled :: bool
  mc_logging_mask :: int

record ('n, 'w, 'fk) server_ops =
  iface :: "'n interface_ops"
  marine_new :: "marine_config \<Rightarrow> string + 'w"
  marine_call :: "string \<Rightarrow> string \<Rightarrow> ivalue list \<Rightarrow> ('w, ivalue list, string) comp"
  marine_memory :: "'w \<Rightarrow> nat list"
  marine_rejects :: "'w \<Rightarrow> u32 option"
  path_is_file :: "string list \<Rightarrow> string + bool"
  keypair_format :: "'fk \<Rightarrow> nat"
  keypair_secret :: "'fk \<Rightarrow> string + bytes"
  results_json :: "(u32 \<times> 'n avm_service_result) list \<Rightarrow> string + bytes"
  particle_json :: "particle_parameters \<Rightarrow> string + bytes"
  outcome_json :: "'n raw_avm_outcome \<Rightarrow> string + bytes"

record anomaly_data =
  ad_air_script :: string
  ad_particle :: bytes
  ad_prev_data :: bytes
  ad_current_data :: bytes
  ad_call_results :: bytes
  ad_avm_outcome :: bytes
  ad_execution_time :: nat
  ad_memory_delta :: nat

record ('n, 'd, 'e) data_store_ops =
  ds_initialize :: "('d, unit, 'e) comp"
  ds_store_data :: "bytes \<Rightarrow> string \<Rightarrow> string \<Rightarrow> ('d, unit, 'e) comp"
  ds_read_data :: "string \<Rightarrow> string \<Rightarrow> ('d, bytes, 'e) comp"
  ds_cleanup_data :: "string \<Rightarrow> string \<Rightarrow> ('d, unit, 'e) comp"
  ds_detect_anomaly :: "nat \<Rightarrow> nat \<Rightarrow> 'n raw_avm_outcome \<Rightarrow> 'd \<Rightarrow> bool"
  ds_collect_anomaly_data :: "string \<Rightarrow> string \<Rightarrow> anomaly_data \<Rightarrow> ('d, unit, 'e) comp"

section \<open>The runner\<close>

record 'w avm_runner =
  ar_marine :: 'w
  ar_wasm_filename :: string
  ar_total_memory_limit :: "nat option"
  ar_limits :: aquavm_runtime_limits

record avm_memory_stats =
  ms_memory_size :: nat
  ms_total_memory_limit :: "nat option"
  ms_allocation_rejects :: "u32 option"

definition path_file_name :: "string list \<Rightarrow> string option" where
  "path_file_name path = (if path = [] \<or> last path = ''..'' then None else Some (last path))"

definition split_dirname :: "('n, 'w, 'fk) server_ops \<Rightarrow> string list \<Rightarrow> (string list \<times> string, runner_error) result" where
  "split_dirname S path =
     (case path_is_file S path of
        Inl err \<Rightarrow> Err (InvalidAIRPath path (Some err) (''failed to get file'' @ CHR 0x27 # ''s metadata (doesn'' @ CHR 0x27 # ''t exist or invalid permissions)''))
      | Inr False \<Rightarrow> Err (InvalidAIRPath path None ''is not a file'')
      | Inr True \<Rightarrow> res_then (unwrap (path_file_name path)) (\<lambda>file_name. Ok (butlast path, file_name)))"

definition make_marine_config :: "string list \<Rightarrow> string \<Rightarrow> nat option \<Rightarrow> int \<Rightarrow> marine_config" where
  "make_marine_config air_wasm_dir air_wasm_file total_memory_limit logging_mask =
     \<lparr>mc_modules_dir = air_wasm_dir, mc_total_memory_limit = total_memory_limit, mc_file_name = air_wasm_file,
      mc_import_name = air_wasm_file, mc_logger_enabled = True, mc_logging_mask = logging_mask\<rparr>"

definition runner_new ::
    "('n, 'w, 'fk) server_ops \<Rightarrow> string list \<Rightarrow> nat option \<Rightarrow> avm_runtime_limits \<Rightarrow> int \<Rightarrow> ('w avm_runner, runner_error) result" where
  "runner_new S air_wasm_path total_memory_limit limits logging_mask =
     res_then (split_dirname S air_wasm_path) (\<lambda>(wasm_dir, wasm_filename).
     res_then (res_map_err MarineError (of_sum (marine_new S
       (make_marine_config wasm_dir wasm_filename total_memory_limit logging_mask)))) (\<lambda>marine.
     Ok \<lparr>ar_marine = marine, ar_wasm_filename = wasm_filename, ar_total_memory_limit = total_memory_limit,
         ar_limits = runtime_limits_from limits\<rparr>))"

definition call_parameters ::
    "aquavm_runtime_limits \<Rightarrow> string \<Rightarrow> string \<Rightarrow> nat \<Rightarrow> u32 \<Rightarrow> nat \<Rightarrow> bytes \<Rightarrow> string \<Rightarrow> host_parameters" where
  "call_parameters limits current_peer init_peer_id timestamp ttl key_format secret_key_bytes particle_id =
     \<lparr>hp_init_peer_id = init_peer_id, hp_current_peer_id = current_peer, hp_timestamp = timestamp, hp_ttl = ttl,
      hp_key_format = key_format, hp_secret_key_bytes = secret_key_bytes, hp_particle_id = particle_id,
      hp_air_size_limit = arl_air_size_limit limits, hp_particle_size_limit = arl_particle_size_limit limits,
      hp_call_result_size_limit = arl_call_result_size_limit limits, hp_hard_limit_enabled = arl_hard_limit_enabled limits\<rparr>"

definition prepare_args ::
    "'n interface_ops \<Rightarrow> string \<Rightarrow> bytes \<Rightarrow> bytes \<Rightarrow> string \<Rightarrow> string \<Rightarrow> nat \<Rightarrow> u32 \<Rightarrow> aquavm_runtime_limits
       \<Rightarrow> (u32 \<times> 'n avm_service_result) list \<Rightarrow> nat \<Rightarrow> bytes \<Rightarrow> string \<Rightarrow> (ivalue list, 'e) result" where
  "prepare_args I script prev_data data current_peer init_peer_id timestamp ttl limits results key_format secret_key_bytes particle_id =
     (let run_parameters = into_ivalue
            (call_parameters limits current_peer init_peer_id timestamp ttl key_format secret_key_bytes particle_id) in
      res_then (expect (call_results_encode I (into_raw_result I results))) (\<lambda>results.
      Ok [IvString script, IvByteArray prev_data, IvByteArray data, run_parameters, IvByteArray results]))"

definition try_as_one_value_vec :: "ivalue list \<Rightarrow> (ivalue, runner_error) result" where
  "try_as_one_value_vec ivalues =
     (if length ivalues \<noteq> 1 then Err (IncorrectInterpreterResult ivalues) else Ok (hd ivalues))"

text \<open>The end of \<^verbatim>\<open>call\<close> and \<^verbatim>\<open>call_tracing\<close>.\<close>

definition outcome_from_values :: "'n interface_ops \<Rightarrow> ivalue list \<Rightarrow> ('n raw_avm_outcome, runner_error) result" where
  "outcome_from_values I values =
     res_then (try_as_one_value_vec values) (\<lambda>value.
     res_then (res_map_err InterpreterResultDeError (from_ivalue I value)) (\<lambda>outcome.
     res_map_err CallSeDeErrors (from_interpreter_outcome I outcome)))"

definition call_with_ivalues ::
    "('n, 'w, 'fk) server_ops \<Rightarrow> string \<Rightarrow> ivalue list \<Rightarrow> ('w avm_runner, ivalue list, runner_error) comp" where
  "call_with_ivalues S func args =
     and_then (gets ar_wasm_filename) (\<lambda>file.
     zoom ar_marine ar_marine_update (map_err MarineError (marine_call S file func args)))"

definition runner_call ::
    "('n, 'w, 'fk) server_ops \<Rightarrow> string \<Rightarrow> bytes \<Rightarrow> bytes \<Rightarrow> string \<Rightarrow> nat \<Rightarrow> u32 \<Rightarrow> string \<Rightarrow> (u32 \<times> 'n avm_service_result) list
       \<Rightarrow> 'fk \<Rightarrow> string \<Rightarrow> ('w avm_runner, 'n raw_avm_outcome, runner_error) comp" where
  "runner_call S script prev_data data init_peer_id timestamp ttl current_peer results keypair particle_id =
     (let key_format = keypair_format S keypair in
      and_then (lift (res_map_err KeyError (of_sum (keypair_secret S keypair)))) (\<lambda>secret_key_bytes.
      and_then (gets ar_limits) (\<lambda>limits.
      and_then (lift (prepare_args (iface S) script prev_data data current_peer init_peer_id timestamp ttl limits results
        key_format secret_key_bytes particle_id)) (\<lambda>args.
      and_then (call_with_ivalues S ''invoke'' args) (\<lambda>result.
      lift (outcome_from_values (iface S) result))))))"

definition call_tracing ::
    "('n, 'w, 'fk) server_ops \<Rightarrow> string \<Rightarrow> bytes \<Rightarrow> bytes \<Rightarrow> string \<Rightarrow> nat \<Rightarrow> u32 \<Rightarrow> string \<Rightarrow> (u32 \<times> 'n avm_service_result) list
       \<Rightarrow> string \<Rightarrow> nat \<Rightarrow> nat \<Rightarrow> bytes \<Rightarrow> string \<Rightarrow> ('w avm_runner, 'n raw_avm_outcome, runner_error) comp" where
  "call_tracing S script prev_data data init_peer_id timestamp ttl current_peer results tracing_params tracing_output_mode
     key_format secret_key_bytes particle_id =
     and_then (gets ar_limits) (\<lambda>limits.
     and_then (lift (prepare_args (iface S) script prev_data data current_peer init_peer_id timestamp ttl limits results
       key_format secret_key_bytes particle_id)) (\<lambda>args.
     and_then (call_with_ivalues S ''invoke_tracing'' (args @ [IvString tracing_params, IvU8 tracing_output_mode])) (\<lambda>result.
     lift (outcome_from_values (iface S) result))))"

definition to_human_readable_data ::
    "('n, 'w, 'fk) server_ops \<Rightarrow> bytes \<Rightarrow> ('w avm_runner, string, runner_error) comp" where
  "to_human_readable_data S data =
     and_then (call_with_ivalues S ''to_human_readable_data'' [IvByteArray data]) (\<lambda>result.
     and_then (lift (try_as_one_value_vec result)) (\<lambda>result.
     lift (res_map_err Aux (try_as_string (iface S) ''result'' result))))"

definition memory_stats :: "('n, 'w, 'fk) server_ops \<Rightarrow> 'w avm_runner \<Rightarrow> (avm_memory_stats, 'e) result" where
  "memory_stats S self =
     res_then (index_vec (marine_memory S (ar_marine self)) 0) (\<lambda>memory_size.
     Ok \<lparr>ms_memory_size = memory_size, ms_total_memory_limit = ar_total_memory_limit self,
         ms_allocation_rejects = marine_rejects S (ar_marine self)\<rparr>)"

section \<open>The AVM\<close>

record ('w, 'd) avm =
  avm_runner :: "'w avm_runner"
  avm_store :: 'd

record 'd avm_config =
  cfg_air_wasm_path :: "string list"
  cfg_max_heap_size :: "nat option"
  cfg_logging_mask :: int
  cfg_data_store :: 'd

definition avm_new ::
    "('n, 'w, 'fk) server_ops \<Rightarrow> ('n, 'd, 'e) data_store_ops \<Rightarrow> 'd avm_config \<Rightarrow> (('w, 'd) avm, ('n, 'e) avm_error) result" where
  "avm_new S D config =
     (case ds_initialize D (cfg_data_store config) of (r, data_store) \<Rightarrow>
      res_then (res_map_err DataStoreError r) (\<lambda>_.
      res_then (res_map_err RunnerError (runner_new S (cfg_air_wasm_path config) (cfg_max_heap_size config)
        avm_runtime_limits_default (cfg_logging_mask config))) (\<lambda>runner.
      Ok \<lparr>avm_runner = runner, avm_store = data_store\<rparr>)))"

definition on_store :: "('d, 'a, 'e) comp \<Rightarrow> (('w, 'd) avm, 'a, ('n, 'e) avm_error) comp" where
  "on_store m = zoom avm_store avm_store_update (map_err DataStoreError m)"

definition memory_size :: "('n, 'w, 'fk) server_ops \<Rightarrow> (('w, 'd) avm, nat, ('n, 'e) avm_error) comp" where
  "memory_size S = (\<lambda>self. (res_then (memory_stats S (avm_runner self)) (\<lambda>stats. Ok (ms_memory_size stats)), self))"

definition usize_sub :: "nat \<Rightarrow> nat \<Rightarrow> (nat, 'e) result" where
  "usize_sub a b = (if b \<le> a then Ok (a - b) else Panic)"

definition save_anomaly_data ::
    "('n, 'w, 'fk) server_ops \<Rightarrow> ('n, 'd, 'e) data_store_ops \<Rightarrow> string \<Rightarrow> bytes \<Rightarrow> (u32 \<times> 'n avm_service_result) list
       \<Rightarrow> particle_parameters \<Rightarrow> 'n raw_avm_outcome \<Rightarrow> nat \<Rightarrow> nat \<Rightarrow> (('w, 'd) avm, unit, ('n, 'e) avm_error) comp" where
  "save_anomaly_data S D air_script current_data results pp outcome execution_time memory_delta =
     and_then (on_store (ds_read_data D (pp_particle_id pp) (pp_current_peer_id pp))) (\<lambda>prev_data.
     and_then (lift (res_map_err AnomalyDataSeError (of_sum (results_json S results)))) (\<lambda>results.
     and_then (lift (res_map_err AnomalyDataSeError (of_sum (particle_json S pp)))) (\<lambda>ser_particle.
     and_then (lift (res_map_err AnomalyDataSeError (of_sum (outcome_json S outcome)))) (\<lambda>ser_avm_outcome.
     on_store (ds_collect_anomaly_data D (pp_particle_id pp) (pp_current_peer_id pp)
       \<lparr>ad_air_script = air_script, ad_particle = ser_particle, ad_prev_data = prev_data, ad_current_data = current_data,
        ad_call_results = results, ad_avm_outcome = ser_avm_outcome, ad_execution_time = execution_time,
        ad_memory_delta = memory_delta\<rparr>)))))"

definition avm_call ::
    "('n, 'w, 'fk) server_ops \<Rightarrow> ('n, 'd, 'e) data_store_ops \<Rightarrow> nat \<Rightarrow> string \<Rightarrow> bytes \<Rightarrow> particle_parameters
       \<Rightarrow> (u32 \<times> 'n avm_service_result) list \<Rightarrow> 'fk \<Rightarrow> (('w, 'd) avm, 'n avm_outcome, ('n, 'e) avm_error) comp" where
  "avm_call S D execution_time script current_data pp results keypair =
     and_then (on_store (ds_read_data D (pp_particle_id pp) (pp_current_peer_id pp))) (\<lambda>prev_data.
     and_then (memory_size S) (\<lambda>memory_size_before.
     and_then (zoom avm_runner avm_runner_update (map_err RunnerError (runner_call S script prev_data current_data
       (pp_init_peer_id pp) (pp_timestamp pp) (pp_ttl pp) (pp_current_peer_id pp) results keypair (pp_particle_id pp)))) (\<lambda>outcome.
     and_then (memory_size S) (\<lambda>memory_size_after.
     and_then (lift (usize_sub memory_size_after memory_size_before)) (\<lambda>memory_delta.
     and_then (gets (\<lambda>self. ds_detect_anomaly D execution_time memory_delta outcome (avm_store self))) (\<lambda>anomaly.
     and_then (if anomaly then save_anomaly_data S D script current_data results pp outcome execution_time memory_delta else ret ()) (\<lambda>_.
     and_then (on_store (ds_store_data D (raw_data outcome) (pp_particle_id pp) (pp_current_peer_id pp))) (\<lambda>_.
     lift (res_map_err InterpreterFailed (from_raw_outcome outcome memory_delta execution_time))))))))))"

definition avm_cleanup_data ::
    "('n, 'd, 'e) data_store_ops \<Rightarrow> string \<Rightarrow> string \<Rightarrow> (('w, 'd) avm, unit, ('n, 'e) avm_error) comp" where
  "avm_cleanup_data D particle_id current_peer = on_store (ds_cleanup_data D particle_id current_peer)"

section \<open>The interpreter module\<close>

text \<open>\<^verbatim>\<open>invoke\<close> of \<^verbatim>\<open>air-interpreter/src/marine.rs\<close>.\<close>

definition invoke ::
    "nat \<Rightarrow> ('n, 'bm, 'mm, 'pk, 'sg, 'kp, 'ver) host_ops \<Rightarrow> string \<Rightarrow> bytes \<Rightarrow> bytes \<Rightarrow> host_parameters \<Rightarrow> bytes
       \<Rightarrow> (interpreter_outcome, unit) result option" where
  "invoke n H script prev_data data params results = execute_air n H script prev_data data params results"

end
