(* ===== verification/Avm_Properties.thy ===== *)
theory Avm_Properties
  imports Avm_Server Run_Properties
begin

text \<open>
  Properties of the host side: what a call leaves in the data store, and that the numbers of the requests which successive calls
  hand out for one particle never repeat. They compose the data store, the runner, the boundary to the Wasm module and a whole run of
  the interpreter.
\<close>

section \<open>Data stores\<close>

text \<open>\<open>view\<close> gives the data a store keeps for a particle and a peer. Storing and cleaning change that entry only, and reading gives it:
  the trait promises to persist the data between successive calls. That an operation which fails keeps everything is part of the
  contract here; the trait does not spell it out.\<close>

definition store_documented :: "('n, 'd, 'e) data_store_ops \<Rightarrow> ('d \<Rightarrow> string \<times> string \<Rightarrow> bytes) \<Rightarrow> bool" where
  "store_documented D view \<longleftrightarrow>
     (\<forall>p c d r d'. ds_read_data D p c d = (r, d') \<longrightarrow> view d' = view d)
   \<and> (\<forall>p c d b d'. ds_read_data D p c d = (Ok b, d') \<longrightarrow> b = view d (p, c))
   \<and> (\<forall>b p c d d'. ds_store_data D b p c d = (Ok (), d') \<longrightarrow> view d' = (view d)((p, c) := b))
   \<and> (\<forall>b p c d e d'. ds_store_data D b p c d = (Err e, d') \<longrightarrow> view d' = view d)
   \<and> (\<forall>p c d d'. ds_cleanup_data D p c d = (Ok (), d') \<longrightarrow> view d' = (view d)((p, c) := []))
   \<and> (\<forall>p c d e d'. ds_cleanup_data D p c d = (Err e, d') \<longrightarrow> view d' = view d)
   \<and> (\<forall>p c a d r d'. ds_collect_anomaly_data D p c a d = (r, d') \<longrightarrow> view d' = view d)"

definition particle_key :: "particle_parameters \<Rightarrow> string \<times> string" where
  "particle_key pp = (pp_particle_id pp, pp_current_peer_id pp)"

section \<open>Postconditions of calls that may panic\<close>

definition wlp :: "('s, 'a, 'e) comp \<Rightarrow> ('a \<Rightarrow> 's \<Rightarrow> bool) \<Rightarrow> ('e \<Rightarrow> 's \<Rightarrow> bool) \<Rightarrow> 's \<Rightarrow> bool" where
  "wlp m Q E s = (case m s of (Ok a, t) \<Rightarrow> Q a t | (Err e, t) \<Rightarrow> E e t | (Panic, t) \<Rightarrow> True)"

lemma wlp_simps [simp]:
  "wlp (and_then m f) Q E s = wlp m (\<lambda>a t. wlp (f a) Q E t) E s"
  "wlp (gets g) Q E s = Q (g s) s" "wlp (ret a) Q E s = Q a s"
  "wlp (lift x) Q E s = (case x of Ok a \<Rightarrow> Q a s | Err e \<Rightarrow> E e s | Panic \<Rightarrow> True)"
  by (simp_all add: wlp_def and_then_def split: prod.splits result.splits)

lemma wlpI: "(\<And>a t. m s = (Ok a, t) \<Longrightarrow> Q a t) \<Longrightarrow> (\<And>e t. m s = (Err e, t) \<Longrightarrow> E e t) \<Longrightarrow> wlp m Q E s"
  by (simp add: wlp_def split: prod.splits result.splits)

lemma wlpD: "wlp m Q E s \<Longrightarrow> m s = (r, t) \<Longrightarrow> (\<exists>a. r = Ok a \<and> Q a t) \<or> (\<exists>e. r = Err e \<and> E e t) \<or> r = Panic"
  by (simp add: wlp_def split: result.splits)

lemma on_store_eq: "on_store m s = (res_map_err DataStoreError (fst (m (avm_store s))), s\<lparr>avm_store := snd (m (avm_store s))\<rparr>)"
  by (simp add: on_store_def zoom_def map_err_def split: prod.splits)

text \<open>An operation of the store gives an error of the store, never a failure of the interpreter.\<close>

definition host_error :: "('n, 'e) avm_error \<Rightarrow> bool" where
  "host_error e \<longleftrightarrow> (\<forall>x. e \<noteq> InterpreterFailed x)"

lemma host_error_simps [simp]: "host_error (DataStoreError e)" "host_error (RunnerError e')" "host_error (AnomalyDataSeError e'')"
    "\<not> host_error (InterpreterFailed x)"
  by (simp_all add: host_error_def)

lemma store_rules:
  assumes "store_documented D view"
  shows "ds_read_data D p c d = (r, d') \<Longrightarrow> view d' = view d" "ds_read_data D p c d = (Ok b, d') \<Longrightarrow> b = view d (p, c)"
    and "ds_store_data D b p c d = (Ok (), d') \<Longrightarrow> view d' = (view d)((p, c) := b)"
    and "ds_store_data D b p c d = (Err e, d') \<Longrightarrow> view d' = view d"
    and "ds_cleanup_data D p c d = (Ok (), d') \<Longrightarrow> view d' = (view d)((p, c) := [])"
    and "ds_cleanup_data D p c d = (Err e, d') \<Longrightarrow> view d' = view d"
    and "ds_collect_anomaly_data D p c a d = (r', d') \<Longrightarrow> view d' = view d"
  using assms unfolding store_documented_def by - metis+

lemma wlp_on_store:
  assumes "\<And>a d. m (avm_store s) = (Ok a, d) \<Longrightarrow> Q a (s\<lparr>avm_store := d\<rparr>)"
    and "\<And>e d. m (avm_store s) = (Err e, d) \<Longrightarrow> E (DataStoreError e) (s\<lparr>avm_store := d\<rparr>)"
  shows "wlp (on_store m) Q E s"
proof -
  obtain q d where "m (avm_store s) = (q, d)" by (meson surj_pair)
  with assms show ?thesis by (cases q) (simp_all add: wlp_def on_store_eq)
qed

lemma wlp_read:
  assumes "store_documented D view"
    and "\<And>t. view (avm_store t) = view (avm_store s) \<Longrightarrow> avm_runner t = avm_runner s \<Longrightarrow> Q (view (avm_store s) (p, c)) t"
    and "\<And>e t. host_error e \<Longrightarrow> view (avm_store t) = view (avm_store s) \<Longrightarrow> E e t"
  shows "wlp (on_store (ds_read_data D p c)) Q E s"
proof (rule wlp_on_store)
  fix b d assume d: "ds_read_data D p c (avm_store s) = (Ok b, d)"
  show "Q b (s\<lparr>avm_store := d\<rparr>)"
    unfolding store_rules(2) [OF assms(1) d] using store_rules(1) [OF assms(1) d] by (intro assms(2)) simp_all
qed (use assms(3) store_rules(1) [OF assms(1)] in simp)

lemma wlp_store:
  assumes "store_documented D view"
    and "\<And>t. view (avm_store t) = (view (avm_store s))((p, c) := b) \<Longrightarrow> Q () t"
    and "\<And>e t. host_error e \<Longrightarrow> view (avm_store t) = view (avm_store s) \<Longrightarrow> E e t"
  shows "wlp (on_store (ds_store_data D b p c)) Q E s"
  using assms(2,3) store_rules(3,4) [OF assms(1)] by (intro wlp_on_store) simp_all

lemma wlp_collect:
  assumes "store_documented D view"
    and "\<And>t. view (avm_store t) = view (avm_store s) \<Longrightarrow> Q () t"
    and "\<And>e t. host_error e \<Longrightarrow> view (avm_store t) = view (avm_store s) \<Longrightarrow> E e t"
  shows "wlp (on_store (ds_collect_anomaly_data D p c a)) Q E s"
  using assms(2,3) store_rules(7) [OF assms(1)] by (intro wlp_on_store) simp_all

lemma wlp_save_anomaly_data:
  assumes "store_documented D view"
    and "\<And>t. view (avm_store t) = view (avm_store s) \<Longrightarrow> Q () t"
    and "\<And>e t. host_error e \<Longrightarrow> view (avm_store t) = view (avm_store s) \<Longrightarrow> E e t"
  shows "wlp (save_anomaly_data S D script data results pp outcome time delta) Q E s"
  unfolding save_anomaly_data_def wlp_simps
  by (rule wlp_read [OF assms(1)])
    (auto split: result.split intro!: wlp_collect [OF assms(1)] assms(2,3) elim!: res_map_err.elims)

lemma wlp_memory_size: "(\<And>m. Q m s) \<Longrightarrow> wlp (memory_size S) Q E s"
  by (auto simp: wlp_def memory_size_def memory_stats_def index_vec_def)

section \<open>A call\<close>

text \<open>The runner has called the interpreter with the previous data \<open>prev_data\<close> and has read \<open>outcome\<close> from its answer.\<close>

definition call_settled ::
    "('n, 'w, 'fk) server_ops \<Rightarrow> string \<Rightarrow> bytes \<Rightarrow> bytes \<Rightarrow> particle_parameters \<Rightarrow> (u32 \<times> 'n avm_service_result) list \<Rightarrow> 'fk
       \<Rightarrow> 'w avm_runner \<Rightarrow> 'n raw_avm_outcome \<Rightarrow> bool" where
  "call_settled S script prev_data data pp results keypair runner outcome \<longleftrightarrow>
     fst (runner_call S script prev_data data (pp_init_peer_id pp) (pp_timestamp pp) (pp_ttl pp) (pp_current_peer_id pp) results
        keypair (pp_particle_id pp) runner) = Ok outcome"

lemma wlp_runner_call:
  assumes "\<And>outcome t. call_settled S script prev_data data pp results keypair (avm_runner s) outcome \<Longrightarrow> avm_store t = avm_store s
      \<Longrightarrow> Q outcome t"
    and "\<And>e t. host_error e \<Longrightarrow> avm_store t = avm_store s \<Longrightarrow> E e t"
  shows "wlp (zoom avm_runner avm_runner_update (map_err RunnerError (runner_call S script prev_data data
       (pp_init_peer_id pp) (pp_timestamp pp) (pp_ttl pp) (pp_current_peer_id pp) results keypair (pp_particle_id pp)))) Q E s"
  using assms by (auto simp: wlp_def zoom_def map_err_def call_settled_def split: prod.splits result.splits elim!: res_map_err.elims)

text \<open>The end of a call: anomaly data may be saved, then the new data is stored.\<close>

lemma wlp_persist:
  assumes "store_documented D view"
    and "\<And>t. view (avm_store t) = (view (avm_store s))(particle_key pp := raw_data outcome) \<Longrightarrow> case x of Ok a \<Rightarrow> Q a t | Err e \<Rightarrow> E e t | Panic \<Rightarrow> True"
    and "\<And>e t. host_error e \<Longrightarrow> view (avm_store t) = view (avm_store s) \<Longrightarrow> E e t"
  shows "wlp (and_then (if anomaly then save_anomaly_data S D script data results pp outcome time delta else ret ()) (\<lambda>_.
     and_then (on_store (ds_store_data D (raw_data outcome) (pp_particle_id pp) (pp_current_peer_id pp))) (\<lambda>_. lift x))) Q E s"
proof -
  have "wlp (on_store (ds_store_data D (raw_data outcome) (pp_particle_id pp) (pp_current_peer_id pp)))
      (\<lambda>_ t. case x of Ok a \<Rightarrow> Q a t | Err e \<Rightarrow> E e t | Panic \<Rightarrow> True) E u" if "view (avm_store u) = view (avm_store s)" for u
    using assms(2,3) that by (intro wlp_store [OF assms(1)]) (simp_all add: particle_key_def)
  then show ?thesis
    unfolding wlp_simps using assms(3) by (cases anomaly) (auto intro!: wlp_save_anomaly_data [OF assms(1)])
qed

definition call_stored ::
    "('d \<Rightarrow> string \<times> string \<Rightarrow> bytes) \<Rightarrow> ('n, 'w, 'fk) server_ops \<Rightarrow> nat \<Rightarrow> string \<Rightarrow> bytes \<Rightarrow> particle_parameters
       \<Rightarrow> (u32 \<times> 'n avm_service_result) list \<Rightarrow> 'fk \<Rightarrow> ('w, 'd) avm \<Rightarrow> ('n avm_outcome, 'n error_avm_outcome) result \<Rightarrow> ('w, 'd) avm \<Rightarrow> bool" where
  "call_stored view S time script data pp results keypair s r t \<longleftrightarrow>
     (\<exists>outcome delta. call_settled S script (view (avm_store s) (particle_key pp)) data pp results keypair (avm_runner s) outcome
        \<and> r = from_raw_outcome outcome delta time
        \<and> view (avm_store t) = (view (avm_store s))(particle_key pp := raw_data outcome))"

lemma wlp_seq: "wlp m (\<lambda>a t. wlp (f a) Q E t) E s \<Longrightarrow> wlp (and_then m f) Q E s"
  by simp

lemma wlp_avm_call:
  fixes s :: "('w, 'd) avm"
  assumes "store_documented D view"
  shows "wlp (avm_call S D time script data pp results keypair)
    (\<lambda>out. call_stored view S time script data pp results keypair s (Ok out))
    (\<lambda>e t. case e of InterpreterFailed x \<Rightarrow> call_stored view S time script data pp results keypair s (Err x) t
       | _ \<Rightarrow> view (avm_store t) = view (avm_store s)) s" (is "wlp _ ?Q ?E s")
proof -
  have err: "?E e t" if "host_error e" "view (avm_store t) = view (avm_store s)" for e t
    using that by (cases e) simp_all
  have tail: "wlp (and_then (lift (usize_sub m' m)) (\<lambda>delta.
       and_then (gets (\<lambda>self. ds_detect_anomaly D time delta outcome (avm_store self))) (\<lambda>anomaly.
       and_then (if anomaly then save_anomaly_data S D script data results pp outcome time delta else ret ()) (\<lambda>_.
       and_then (on_store (ds_store_data D (raw_data outcome) (pp_particle_id pp) (pp_current_peer_id pp))) (\<lambda>_.
       lift (res_map_err InterpreterFailed (from_raw_outcome outcome delta time))))))) ?Q ?E v"
    if v: "call_settled S script (view (avm_store s) (pp_particle_id pp, pp_current_peer_id pp)) data pp results keypair (avm_runner s) outcome"
      "view (avm_store v) = view (avm_store s)" for m m' outcome v
  proof -
    have "case res_map_err InterpreterFailed (from_raw_outcome outcome delta time) of Ok a \<Rightarrow> ?Q a t | Err e \<Rightarrow> ?E e t | Panic \<Rightarrow> True"
      if "view (avm_store t) = (view (avm_store v))(particle_key pp := raw_data outcome)" for t delta
    proof -
      have "call_stored view S time script data pp results keypair s (from_raw_outcome outcome delta time) t"
        using that v unfolding call_stored_def particle_key_def by auto
      then show ?thesis by (cases "from_raw_outcome outcome delta time") simp_all
    qed
    then have "wlp (and_then (if anomaly then save_anomaly_data S D script data results pp outcome time delta else ret ()) (\<lambda>_.
       and_then (on_store (ds_store_data D (raw_data outcome) (pp_particle_id pp) (pp_current_peer_id pp))) (\<lambda>_.
       lift (res_map_err InterpreterFailed (from_raw_outcome outcome delta time))))) ?Q ?E v" for anomaly delta
      using v err by (intro wlp_persist [OF assms]) simp_all
    then show ?thesis unfolding usize_sub_def by (simp only: wlp_simps(1,2,4) split: if_splits result.split) simp
  qed
  show ?thesis
    unfolding avm_call_def
  proof (rule wlp_seq, rule wlp_read [OF assms], rule wlp_seq, rule wlp_memory_size, rule wlp_seq, rule wlp_runner_call,
      rule wlp_seq, rule wlp_memory_size, rule tail)
  qed (use err in \<open>simp_all\<close>)
qed

section \<open>Requests of one call\<close>

text \<open>What the formats promise: data that is read back has the number of the last request, an envelope is not empty and has its data,
  requests are read back, and empty bytes are no requests.\<close>

definition formats_documented :: "('n, 'bm, 'mm, 'pk, 'sg, 'kp, 'ver) host_ops \<Rightarrow> 'n interface_ops \<Rightarrow> bool" where
  "formats_documented H I \<longleftrightarrow>
     (\<forall>d b. data_encode H d = Inr b \<longrightarrow> (\<exists>d'. data_decode H b = Inr d' \<and> last_call_request_id d' = last_call_request_id d))
   \<and> (\<forall>vs b e. envelope_encode H vs b = Inr e \<longrightarrow> e \<noteq> [] \<and> (\<exists>vs'. envelope_decode H e = Inr (vs', b)))
   \<and> (\<forall>m b. call_requests_encode H m = Inr b \<longrightarrow> (\<exists>rs. call_requests_decode I b = Inr rs \<and> map_of rs = m))
   \<and> (\<exists>e. call_requests_decode I [] = Inl e)"

text \<open>The Wasm runtime runs \<^verbatim>\<open>invoke\<close>: what it returns is the outcome of a run of the interpreter on the arguments.\<close>

definition marine_runs :: "('n, 'bm, 'mm, 'pk, 'sg, 'kp, 'ver) host_ops \<Rightarrow> ('n, 'w, 'fk) server_ops \<Rightarrow> bool" where
  "marine_runs H S \<longleftrightarrow> (\<forall>file script prev_data data params results w vs w'.
     marine_call S file ''invoke'' [IvString script, IvByteArray prev_data, IvByteArray data, into_ivalue params, IvByteArray results] w
       = (Ok vs, w')
     \<longrightarrow> (\<exists>n out. invoke n H script prev_data data params results = Some (Ok out) \<and> vs = [outcome_ivalue out]))"

text \<open>The number of the last request that stored data records.\<close>

definition recorded_id :: "('n, 'bm, 'mm, 'pk, 'sg, 'kp, 'ver) host_ops \<Rightarrow> bytes \<Rightarrow> u32" where
  "recorded_id H b = (case try_to_envelope H b of
     Ok (_, inner) \<Rightarrow> (case data_decode H inner of Inr d \<Rightarrow> last_call_request_id d | Inl _ \<Rightarrow> 0)
   | _ \<Rightarrow> 0)"

lemma recorded_prev: "parse_data H raw_prev raw_current = Ok (prev, current) \<Longrightarrow> recorded_id H raw_prev = last_call_request_id prev"
  by (auto simp: parse_data_def recorded_id_def try_to_data_def result_simps)

lemma recorded_new:
  assumes "formats_documented H I" "data_encode H d = Inr inner" "envelope_encode H vs inner = Inr e"
  shows "recorded_id H e = last_call_request_id d"
proof -
  obtain d' vs' where "data_decode H inner = Inr d'" "last_call_request_id d' = last_call_request_id d" "e \<noteq> []"
      "envelope_decode H e = Inr (vs', inner)"
    using assms unfolding formats_documented_def by metis
  then show ?thesis by (simp add: recorded_id_def try_to_envelope_def)
qed

lemma script_outcome_settled: "script_outcome r t out \<Longrightarrow> settled (stop_in (\<lambda>_. True)) r"
  by (auto simp: script_outcome_def settled_all split: result.splits exec_stop.splits)

lemma run_records:
  assumes "formats_documented H I" "execute_air n H script raw_prev raw_current params results = Some (Ok out)" "\<not> discarded out"
  shows "recorded_id H raw_prev \<le> recorded_id H (out_data out)
    \<and> (\<exists>m. call_requests_encode H m = Inr (out_call_requests out) \<and> dom m = {recorded_id H raw_prev <.. recorded_id H (out_data out)})"
proof (cases "rejected H raw_prev out")
  case True
  then show ?thesis unfolding rejected_def by (intro conjI exI [of _ Map.empty]) simp_all
next
  case False
  then obtain pd limits r t sigs where p: "prepared_with H script raw_prev raw_current params results pd limits"
    and e: "execute n (air H) (pd_air pd) (pd_exec_ctx pd, pd_trace_handler pd) = (r, t)"
    and o: "script_outcome r (signed_state t sigs) out" and c: "carries H limits (signed_state t sigs) out"
    using execute_air_completed [OF assms(2) _ assms(3)] by blast
  obtain prev current where d: "parse_data H raw_prev raw_current = Ok (prev, current)"
      "last_request_id (pd_exec_ctx pd) = last_call_request_id prev" "call_requests (pd_exec_ctx pd) = Map.empty"
    using prepared_start [OF p] by blast
  have "requests_extended (pd_exec_ctx pd, pd_trace_handler pd) t"
    using requests.execute_related [OF e] script_outcome_settled [OF o] by simp
  with d have ext: "last_call_request_id prev \<le> last_request_id (fst t)"
      "dom (call_requests (fst t)) = {last_call_request_id prev <.. last_request_id (fst t)}"
    by (simp_all add: requests_extended_def)
  obtain d' inner vs where "data_encode H d' = Inr inner" "last_call_request_id d' = last_request_id (fst t)"
      "envelope_encode H vs inner = Inr (out_data out)" "call_requests_encode H (call_requests (fst t)) = Inr (out_call_requests out)"
    using c unfolding carries_def signed_state_simps by blast
  with ext recorded_prev [OF d(1)] recorded_new [OF assms(1)] show ?thesis by metis
qed

lemma runner_call_run:
  assumes "marine_runs H S"
    and "runner_call S script prev_data data init_peer timestamp ttl peer results keypair particle runner = (Ok outcome, runner')"
  obtains n params raw_results out where "execute_air n H script prev_data data params raw_results = Some (Ok out)"
    "from_interpreter_outcome (iface S) out = Ok outcome"
proof -
  obtain params raw_results vs w where call: "marine_call S (ar_wasm_filename runner) ''invoke''
      [IvString script, IvByteArray prev_data, IvByteArray data, into_ivalue params, IvByteArray raw_results] (ar_marine runner) = (Ok vs, w)"
    and vs: "outcome_from_values (iface S) vs = Ok outcome"
    using assms(2)
    by (auto simp: runner_call_def prepare_args_def call_with_ivalues_def and_then_def zoom_def map_err_def result_simps Let_def
        split: prod.splits result.splits)
  obtain n out where "execute_air n H script prev_data data params raw_results = Some (Ok out)" "vs = [outcome_ivalue out]"
    using assms(1) call unfolding marine_runs_def invoke_def by blast
  moreover have "from_interpreter_outcome (iface S) out = Ok outcome"
    using vs \<open>vs = [outcome_ivalue out]\<close>
    by (simp add: outcome_from_values_def try_as_one_value_vec_def from_outcome_ivalue result_simps)
  ultimately show ?thesis using that by blast
qed

lemma call_records:
  assumes "marine_runs H S" "formats_documented H (iface S)" "call_settled S script prev_data data pp results keypair runner outcome"
  shows "recorded_id H prev_data \<le> recorded_id H (raw_data outcome)
    \<and> dom (raw_call_requests outcome) = {recorded_id H prev_data <.. recorded_id H (raw_data outcome)}"
proof -
  obtain n params raw_results out where run: "execute_air n H script prev_data data params raw_results = Some (Ok out)"
    and o: "from_interpreter_outcome (iface S) out = Ok outcome"
    using assms(3) runner_call_run [OF assms(1)] unfolding call_settled_def by (metis prod.collapse)
  have requests: "from_raw_call_requests (iface S) (out_call_requests out) = Ok (raw_call_requests outcome)"
    and data: "raw_data outcome = out_data out"
    using o by (auto simp: from_interpreter_outcome_def result_simps)
  obtain rs where rs: "call_requests_decode (iface S) (out_call_requests out) = Inr rs" "dom (raw_call_requests outcome) = dom (map_of rs)"
    using from_raw_call_requests_dom [OF requests] .
  have "\<not> discarded out"
    using rs(1) assms(2) unfolding discarded_def formats_documented_def by auto
  then obtain m where "recorded_id H prev_data \<le> recorded_id H (out_data out)" "call_requests_encode H m = Inr (out_call_requests out)"
      "dom m = {recorded_id H prev_data <.. recorded_id H (out_data out)}"
    using run_records [OF assms(2) run] by blast
  moreover from this(2) have "map_of rs = m" using assms(2) rs(1) unfolding formats_documented_def by (metis sum.inject(2))
  ultimately show ?thesis using rs(2) data by simp
qed

section \<open>Histories\<close>

text \<open>The numbers of the requests that a call hands to the host.\<close>

fun handed_out :: "('n avm_outcome, ('n, 'e) avm_error) result \<Rightarrow> u32 set" where
  "handed_out (Ok out) = dom (avm_call_requests out)"
| "handed_out (Err (InterpreterFailed e)) = dom (avm_call_requests (eao_outcome e))"
| "handed_out _ = {}"

datatype avm_event = Requested string string "u32 set" | CleanedUp string string

text \<open>Calls and cleanups of one AVM, for any particles and peers, in the order in which they happened.\<close>

inductive avm_history :: "('n, 'w, 'fk) server_ops \<Rightarrow> ('n, 'd, 'e) data_store_ops \<Rightarrow> ('w, 'd) avm \<Rightarrow> avm_event list \<Rightarrow> ('w, 'd) avm \<Rightarrow> bool"
  for S D s where
  start: "avm_history S D s [] s"
| call: "avm_history S D s events t \<Longrightarrow> avm_call S D time script data pp results keypair t = (r, u) \<Longrightarrow> r \<noteq> Panic
    \<Longrightarrow> avm_history S D s (events @ [Requested (pp_particle_id pp) (pp_current_peer_id pp) (handed_out r)]) u"
| cleanup: "avm_history S D s events t \<Longrightarrow> avm_cleanup_data D p c t = (r, u) \<Longrightarrow> r \<noteq> Panic
    \<Longrightarrow> avm_history S D s (events @ [CleanedUp p c]) u"

lemma avm_history_append: "avm_history S D s (xs @ ys) u \<Longrightarrow> \<exists>t. avm_history S D s xs t \<and> avm_history S D t ys u"
proof (induction ys arbitrary: u rule: rev_induct)
  case (snoc y ys)
  from snoc.prems show ?case
  proof (cases rule: avm_history.cases)
    case (call events t time script data pp results keypair r)
    then obtain v where "avm_history S D s xs v" "avm_history S D v ys t" using snoc.IH by auto
    moreover have "avm_history S D v (ys @ [y]) u" using avm_history.call [OF \<open>avm_history S D v ys t\<close>] call by simp
    ultimately show ?thesis by blast
  next
    case (cleanup events t p c r)
    then obtain v where "avm_history S D s xs v" "avm_history S D v ys t" using snoc.IH by auto
    moreover have "avm_history S D v (ys @ [y]) u" using avm_history.cleanup [OF \<open>avm_history S D v ys t\<close>] cleanup by simp
    ultimately show ?thesis by blast
  qed simp
qed (auto intro: avm_history.start)

text \<open>The number that the stored data of a particle records.\<close>

definition recorded_at ::
    "('n, 'bm, 'mm, 'pk, 'sg, 'kp, 'ver) host_ops \<Rightarrow> ('d \<Rightarrow> string \<times> string \<Rightarrow> bytes) \<Rightarrow> ('w, 'd) avm \<Rightarrow> string \<times> string \<Rightarrow> u32" where
  "recorded_at H view s k = recorded_id H (view (avm_store s) k)"

lemma handed_out_raw: "handed_out (res_map_err InterpreterFailed (from_raw_outcome outcome delta time)) = dom (raw_call_requests outcome)"
  by (simp add: from_raw_outcome_def Let_def)

lemma handed_out_host_error: "host_error e \<Longrightarrow> handed_out (Err e) = {}"
  by (cases e) simp_all

lemma avm_call_cases:
  assumes "store_documented D view" "avm_call S D time script data pp results keypair s = (r, t)" "r \<noteq> Panic"
  obtains (stored) outcome delta where "r = res_map_err InterpreterFailed (from_raw_outcome outcome delta time)"
      "call_settled S script (view (avm_store s) (particle_key pp)) data pp results keypair (avm_runner s) outcome"
      "view (avm_store t) = (view (avm_store s))(particle_key pp := raw_data outcome)"
  | (failed) e where "r = Err e" "host_error e" "view (avm_store t) = view (avm_store s)"
proof -
  have stored': thesis if "call_stored view S time script data pp results keypair s q t" "r = res_map_err InterpreterFailed q" for q
    using that stored unfolding call_stored_def by blast
  show thesis
    using wlpD [OF wlp_avm_call [OF assms(1)] assms(2)]
  proof (elim disjE exE conjE)
    fix a assume "r = Ok a" "call_stored view S time script data pp results keypair s (Ok a) t"
    then show thesis using stored' [of "Ok a"] by simp
  next
    fix e assume e: "r = Err e" "case e of InterpreterFailed x \<Rightarrow> call_stored view S time script data pp results keypair s (Err x) t
       | _ \<Rightarrow> view (avm_store t) = view (avm_store s)"
    show thesis
    proof (cases e)
      case (InterpreterFailed x)
      with e show thesis using stored' [of "Err x"] by simp
    qed (use e failed in \<open>simp_all\<close>)
  qed (use assms(3) in simp)
qed

lemma call_step:
  assumes docs: "marine_runs H S" "formats_documented H (iface S)" "store_documented D view"
    and c: "avm_call S D time script data pp results keypair s = (r, t)" "r \<noteq> Panic"
  shows "recorded_at H view s k \<le> recorded_at H view t k"
    and "handed_out r \<subseteq> {recorded_at H view s (particle_key pp) <.. recorded_at H view t (particle_key pp)}"
  using docs(3) c
proof (atomize (full), cases rule: avm_call_cases)
  case (stored outcome delta)
  note rec = call_records [OF docs(1,2) stored(2)]
  have "handed_out r = dom (raw_call_requests outcome)" unfolding stored(1) handed_out_raw ..
  then show "recorded_at H view s k \<le> recorded_at H view t k
      \<and> handed_out r \<subseteq> {recorded_at H view s (particle_key pp) <.. recorded_at H view t (particle_key pp)}"
    using rec stored(3) by (simp add: recorded_at_def)
next
  case (failed e)
  then show "recorded_at H view s k \<le> recorded_at H view t k
      \<and> handed_out r \<subseteq> {recorded_at H view s (particle_key pp) <.. recorded_at H view t (particle_key pp)}"
    by (simp add: recorded_at_def handed_out_host_error)
qed

lemma cleanup_step:
  assumes "store_documented D view" "avm_cleanup_data D p c s = (r, t)" "r \<noteq> Panic" "k \<noteq> (p, c)"
  shows "view (avm_store t) k = view (avm_store s) k"
proof -
  obtain q d where q: "ds_cleanup_data D p c (avm_store s) = (q, d)" by (meson surj_pair)
  then have t: "t = s\<lparr>avm_store := d\<rparr>" "r = res_map_err DataStoreError q" using assms(2) by (auto simp: avm_cleanup_data_def on_store_eq)
  have "view d k = view (avm_store s) k"
  proof (cases q)
    case (Ok u)
    then show ?thesis using store_rules(5) [OF assms(1)] q assms(4) by simp
  next
    case (Err e)
    then show ?thesis using store_rules(6) [OF assms(1)] q by simp
  qed (use t assms(3) in simp)
  with t show ?thesis by simp
qed

lemma history_records:
  assumes docs: "marine_runs H S" "formats_documented H (iface S)" "store_documented D view"
    and h: "avm_history S D s events t" and no: "CleanedUp p c \<notin> set events"
  shows "recorded_at H view s (p, c) \<le> recorded_at H view t (p, c)
    \<and> (\<forall>A. Requested p c A \<in> set events \<longrightarrow> A \<subseteq> {recorded_at H view s (p, c) <.. recorded_at H view t (p, c)})"
  using h no
proof induction
  case (call events t time script data pp results keypair r u)
  note step = call_step [OF docs call.hyps(2,3)]
  have IH: "recorded_at H view s (p, c) \<le> recorded_at H view t (p, c)"
      "Requested p c A \<in> set events \<Longrightarrow> A \<subseteq> {recorded_at H view s (p, c) <.. recorded_at H view t (p, c)}" for A
    using call.IH call.prems by simp_all
  have "A \<subseteq> {recorded_at H view s (p, c) <.. recorded_at H view u (p, c)}"
    if "Requested p c A \<in> set (events @ [Requested (pp_particle_id pp) (pp_current_peer_id pp) (handed_out r)])" for A
  proof (cases "Requested p c A \<in> set events")
    case True
    then show ?thesis using IH(2) [of A] step(1) [of "(p, c)"] by fastforce
  next
    case False
    then have "A = handed_out r" "particle_key pp = (p, c)" using that by (simp_all add: particle_key_def)
    then show ?thesis using step(2) IH(1) by fastforce
  qed
  with step(1) [of "(p, c)"] IH(1) show ?case by force
next
  case (cleanup events t p' c' r u)
  have "(p, c) \<noteq> (p', c')" using cleanup.prems by auto
  then have "recorded_at H view u (p, c) = recorded_at H view t (p, c)"
    using cleanup_step [OF docs(3) cleanup.hyps(2,3)] by (simp add: recorded_at_def)
  with cleanup show ?case by simp
qed simp

section \<open>Results of the host\<close>

text \<open>The results of the host reach the interpreter under the keys by which its calls look them up.\<close>

lemma show_nat_u32_inject: "show_nat (unat (a :: u32)) = show_nat (unat b) \<longleftrightarrow> a = b"
  by (metis parse_u32_show result.inject(1))

lemma into_raw_result_lookup:
  "map_of (into_raw_result I results) (show_nat (unat request_id)) = map_option (into_raw I) (map_of results request_id)"
  by (induction results) (auto simp: into_raw_result_def show_nat_u32_inject)

section \<open>An example\<close>

text \<open>A host whose data keeps the number of the last request only, in unary, and whose requests are those of one script.\<close>

definition example_request :: call_request_params where
  "example_request = \<lparr>crp_service_id = ''s'', crp_function_name = ''f'', crp_arguments = ''args'', crp_tetraplets = ''tetraplets''\<rparr>"

definition example_requests_encode :: "(u32 \<rightharpoonup> call_request_params) \<Rightarrow> string + bytes" where
  "example_requests_encode m = (if m = Map.empty then Inr ''0'' else if m = [1 \<mapsto> example_request] then Inr ''1''
     else if m = [2 \<mapsto> example_request] then Inr ''2'' else Inl ''format'')"

definition example_requests_decode :: "bytes \<Rightarrow> string + (u32 \<times> call_request_params) list" where
  "example_requests_decode b = (if b = ''0'' then Inr [] else if b = ''1'' then Inr [(1, example_request)]
     else if b = ''2'' then Inr [(2, example_request)] else Inl ''format'')"

definition counting_host :: "(int, trace_pos \<Rightarrow> trace_pos option, list_multimap, string, string, string, nat) host_ops" where
  "counting_host = example_host\<lparr>envelope_encode := (\<lambda>_ b. Inr (CHR ''e'' # b)),
     envelope_decode := (\<lambda>b. Inr (\<lparr>data_version = 1, interpreter_version = 1\<rparr>, tl b)),
     data_encode := (\<lambda>d. Inr (replicate (unat (last_call_request_id d)) CHR ''x'')),
     data_decode := (\<lambda>b. Inr (default_data\<lparr>last_call_request_id := of_nat (length b)\<rparr>)),
     call_requests_encode := example_requests_encode\<rparr>"

definition example_interface :: "int interface_ops" where
  "example_interface = \<lparr>ivalue_debug = (\<lambda>_. []), ivalues_debug = (\<lambda>_. []), jvalue_to_string = (\<lambda>_. ''json''),
     call_results_encode = (\<lambda>_. Inr ''results''), call_requests_decode = example_requests_decode,
     arguments_decode = (\<lambda>_. Inr []), tetraplets_decode = (\<lambda>_. Inr [])\<rparr>"

lemma example_formats: "formats_documented counting_host example_interface"
  unfolding formats_documented_def
  by (auto simp: counting_host_def example_interface_def example_requests_encode_def example_requests_decode_def split: if_splits)

text \<open>A runtime that decodes the arguments and runs the interpreter with fuel 1.\<close>

fun iv_string :: "ivalue \<Rightarrow> string" where
  "iv_string (IvString s) = s"
| "iv_string (IvByteArray b) = b"
| "iv_string _ = []"

fun iv_nat :: "ivalue \<Rightarrow> nat" where
  "iv_nat (IvU8 n) = n"
| "iv_nat (IvU64 n) = n"
| "iv_nat _ = 0"

fun iv_u32 :: "ivalue \<Rightarrow> u32" where
  "iv_u32 (IvU32 n) = n"
| "iv_u32 _ = 0"

fun iv_record :: "ivalue \<Rightarrow> ivalue list" where
  "iv_record (IvRecord vs) = vs"
| "iv_record _ = []"

definition host_parameters_of :: "ivalue \<Rightarrow> host_parameters" where
  "host_parameters_of v = (let vs = iv_record v in
     \<lparr>hp_init_peer_id = iv_string (vs ! 0), hp_current_peer_id = iv_string (vs ! 1), hp_timestamp = iv_nat (vs ! 2),
      hp_ttl = iv_u32 (vs ! 3), hp_key_format = iv_nat (vs ! 4), hp_secret_key_bytes = iv_string (vs ! 5),
      hp_particle_id = iv_string (vs ! 6), hp_air_size_limit = iv_nat (vs ! 7), hp_particle_size_limit = iv_nat (vs ! 8),
      hp_call_result_size_limit = iv_nat (vs ! 9), hp_hard_limit_enabled = (vs ! 10 = IvBoolean True)\<rparr>)"

lemma host_parameters_of_into_ivalue [simp]: "host_parameters_of (into_ivalue params) = params"
  by (simp add: host_parameters_of_def into_ivalue_def)

definition example_server :: "(int, nat, unit) server_ops" where
  "example_server = \<lparr>iface = example_interface, marine_new = (\<lambda>_. Inr 0),
     marine_call = (\<lambda>_ _ args w. (case execute_air 1 counting_host (iv_string (args ! 0)) (iv_string (args ! 1)) (iv_string (args ! 2))
       (host_parameters_of (args ! 3)) (iv_string (args ! 4)) of Some (Ok out) \<Rightarrow> Ok [outcome_ivalue out] | _ \<Rightarrow> Err ''trap'', w)),
     marine_memory = (\<lambda>w. [w]), marine_rejects = (\<lambda>_. None), path_is_file = (\<lambda>_. Inr True), keypair_format = (\<lambda>_. 0),
     keypair_secret = (\<lambda>_. Inr []), results_json = (\<lambda>_. Inr []), particle_json = (\<lambda>_. Inr []), outcome_json = (\<lambda>_. Inr [])\<rparr>"

lemma example_marine: "marine_runs counting_host example_server"
  unfolding marine_runs_def invoke_def
  by (auto simp: example_server_def split: option.splits result.splits)

definition example_store :: "(int, string \<times> string \<Rightarrow> bytes, unit) data_store_ops" where
  "example_store = \<lparr>ds_initialize = ret (), ds_store_data = (\<lambda>b p c. modify (\<lambda>d. d((p, c) := b))),
     ds_read_data = (\<lambda>p c. gets (\<lambda>d. d (p, c))), ds_cleanup_data = (\<lambda>p c. modify (\<lambda>d. d((p, c) := []))),
     ds_detect_anomaly = (\<lambda>_ _ _ _. True), ds_collect_anomaly_data = (\<lambda>_ _ _. ret ())\<rparr>"

lemma example_store_documented: "store_documented example_store id"
  unfolding store_documented_def by (simp add: example_store_def)

text \<open>Two runs of a script with one call: the data records one request more after each.\<close>

definition example_script :: string where
  "example_script = ''(call %init_peer_id% ('' @ (CHR 0x22 # ''s'' @ [CHR 0x22]) @ '' '' @ (CHR 0x22 # ''f'' @ [CHR 0x22]) @ '') [])''"

definition requesting_call :: "int call_ast" where
  "requesting_call = \<lparr>call_triplet = \<lparr>trip_peer_id = PeerInitPeerId, trip_service_id = StrLiteral ''s'', trip_function_name = StrLiteral ''f''\<rparr>,
     call_args = [], call_output = OutNone\<rparr>"

lemma requesting_lexed:
  "lex example_front example_script = Ok [(0, TOpenRoundBracket, 1), (1, TCall, 5), (6, TInitPeerId, 20), (21, TOpenRoundBracket, 22),
     (22, TStringLiteral ''s'', 25), (26, TStringLiteral ''f'', 29), (29, TCloseRoundBracket, 30), (31, TOpenSquareBracket, 32),
     (32, TCloseSquareBracket, 33), (33, TCloseRoundBracket, 34)]"
  by (simp add: lex_eval example_script_def)

lemma requesting_reduced:
  "parse_instr 10 [(0, TOpenRoundBracket, 1), (1, TCall, 5), (6, TInitPeerId, 20), (21, TOpenRoundBracket, 22),
     (22, TStringLiteral ''s'', 25), (26, TStringLiteral ''f'', 29), (29, TCloseRoundBracket, 30), (31, TOpenSquareBracket, 32),
     (32, TCloseSquareBracket, 33), (33, TCloseRoundBracket, 34)]
   = Some (ICall requesting_call, [(ICall requesting_call, \<lparr>span_left = 0, span_right = 34\<rparr>)], [])"
  by (simp add: parse_eval requesting_call_def)

lemma requesting_valid:
  "finalize list_multimap (run_actions list_multimap [(ICall requesting_call, \<lparr>span_left = 0, span_right = 34\<rparr>)]) = ([] :: int error_recovery list)"
  by code_simp

lemma requesting_parsed: "parse_script example_front list_multimap example_script = Ok (ICall requesting_call)"
  by (rule parse_scriptI [OF requesting_lexed requesting_reduced requesting_valid])

definition example_particle :: particle_parameters where
  "example_particle = \<lparr>pp_init_peer_id = ''p'', pp_particle_id = ''salt'', pp_timestamp = 0, pp_ttl = 0, pp_current_peer_id = ''p''\<rparr>"

definition example_runner :: "nat avm_runner" where
  "example_runner = \<lparr>ar_marine = 0, ar_wasm_filename = ''air.wasm'', ar_total_memory_limit = None,
     ar_limits = runtime_limits_from avm_runtime_limits_default\<rparr>"

definition example_call_params :: host_parameters where
  "example_call_params = call_parameters (ar_limits example_runner) ''p'' ''p'' 0 0 0 [] ''salt''"

definition counted :: "u32 \<Rightarrow> int interpreter_data" where
  "counted k = default_data\<lparr>last_call_request_id := k\<rparr>"

lemma requesting_call_runs:
  assumes "unat k + 1 < u32_bound"
  shows "\<exists>t. execute 1 example_air (ICall requesting_call)
      (execution_ctx_new int_numbers (ingredients_of (counted k)) empty_ingredients Map.empty Map.empty (run_params_of example_call_params),
       example_handler [] []) = (Ok (), t)
    \<and> last_request_id (fst t) = k + 1 \<and> call_requests (fst t) = [k + 1 \<mapsto> example_request] \<and> call_results (fst t) = Map.empty
    \<and> cid_tracker (fst t) = cid_tracker (execution_ctx_new int_numbers (ingredients_of (counted k)) empty_ingredients Map.empty Map.empty (run_params_of example_call_params))"
  using assms
  by (simp add: execute_instruction_def leaf_def execute_call_def requesting_call_def
    on_ctx_def zoom_def meet_call_def and_then_def map_err_def joinable_or_eq with_ctx_def resolved_call_new_def resolve_triplet_def
    check_output_name_def Let_def execution_ctx_new_def resolved_call_execute_def check_args_def hash_args_def example_air_def
    prepare_current_executed_state_def on_trace_def trace_to_exec_err_def example_call_start
    send_request_def prepare_request_params_def resolve_args_def next_call_request_id_def update_ctx_def call_end_def ignore_result_def
    example_call_params_def call_parameters_def run_params_of_def u32_add_cases instruction_tracker_default_def empty_ingredients_def
    value_to_json_cid_def plain_cids_def counted_def ingredients_of_def default_data_def
    tetraplet_from_triplet_def descriptor_no_previous_state_def meet_call_end_def push_state_def on_data_keeper_eq
    make_subgraph_incomplete_def value_json_hash_def example_request_def)

lemma default_ingredients: "ingredients_of default_data = empty_ingredients"
  by (simp add: ingredients_of_def empty_ingredients_def default_data_def)

definition counted_bytes :: "u32 \<Rightarrow> bytes" where
  "counted_bytes k = CHR ''e'' # replicate (unat k) CHR ''x''"

lemma counted_parsed:
  assumes "raw_prev = counted_bytes k \<or> raw_prev = [] \<and> k = 0"
  shows "parse_data counting_host raw_prev [] = (Ok (counted k, default_data) :: (_, nat preparation_error) result)"
proof -
  have "counted 0 = default_data" by (simp add: counted_def default_data_def)
  with assms show ?thesis
    by (auto simp: parse_data_def try_to_envelope_def envelope_new_def expect_def check_version_compatibility_def try_to_data_def
        counting_host_def example_host_def counted_bytes_def counted_def default_data_def)
qed

lemma example_verify_counted:
  "verify_step plain_cids plain_serde plain_keys example_orders_none (counted k) default_data salt = Ok Map.empty"
  by (simp add: verify_step_def counted_def default_data_def example_orders_none_def data_verifier_new_def data_verifier_verify_def
      verifier_merge_def cid_info_verify_def store_verify_raw_value_def store_verify_def
      verify_canon_result_store_def verify_service_result_store_def)

lemma example_requests_encoded:
  "example_requests_encode [1 \<mapsto> example_request] = Inr ''1''" "example_requests_encode [2 \<mapsto> example_request] = Inr ''2''"
proof -
  have "([2 \<mapsto> example_request] :: u32 \<rightharpoonup> _) 2 \<noteq> ([1 \<mapsto> example_request] :: u32 \<rightharpoonup> _) 2" by simp
  then have "[2 \<mapsto> example_request] \<noteq> [1 :: u32 \<mapsto> example_request]" by metis
  then show "example_requests_encode [1 \<mapsto> example_request] = Inr ''1''" "example_requests_encode [2 \<mapsto> example_request] = Inr ''2''"
    by (simp_all add: example_requests_encode_def)
qed

lemma counted_traces: "data_trace (counted k) = []" "data_trace default_data = []"
  by (simp_all add: counted_def default_data_def)

lemma counting_run:
  assumes k: "k = 0 \<or> k = 1" and prev: "raw_prev = counted_bytes k \<or> raw_prev = [] \<and> k = 0"
  shows "\<exists>out. execute_air 1 counting_host example_script raw_prev [] example_call_params results = Some (Ok out)
    \<and> out_ret_code out = INTERPRETER_SUCCESS \<and> out_data out = counted_bytes (k + 1)
    \<and> example_requests_encode [k + 1 \<mapsto> example_request] = Inr (out_call_requests out)"
proof -
  have "unat k + 1 < u32_bound" using k by auto
  note runs = requesting_call_runs [OF this]
  obtain b where b: "example_requests_encode [k + 1 \<mapsto> example_request] = Inr b"
    using k example_requests_encoded by auto
  have h: "air counting_host = example_air" "keys counting_host = plain_keys" "front counting_host = example_front"
      "multimaps counting_host = list_multimap" "verification_orders counting_host = example_orders_none"
      "cids example_air = plain_cids" "serdes example_air = plain_serde" "numbers example_air = int_numbers" "bimaps example_air = fun_bimap"
    by (simp_all add: counting_host_def example_host_def example_air_def)
  have hc: "names_order counting_host = (\<lambda>_. [])" "peers_order counting_host = (\<lambda>_. [])"
      "call_requests_encode counting_host = example_requests_encode"
      "data_encode counting_host = (\<lambda>d. Inr (replicate (unat (last_call_request_id d)) CHR ''x''))"
      "envelope_encode counting_host = (\<lambda>_ b. Inr (CHR ''e'' # b))"
    by (simp_all add: counting_host_def example_host_def)
  have limits: "check_against_size_limits example_call_params example_script [] = (Ok soft_limits_default :: (_, nat preparation_error) result)"
    by (simp add: check_against_size_limits_def example_call_params_def call_parameters_def example_runner_def runtime_limits_from_def
        avm_runtime_limits_default_def MAX_AIR_SIZE_def MAX_PARTICLE_SIZE_def MB_def example_script_def)
  have particle: "hp_particle_id example_call_params = ''salt''" by (simp add: example_call_params_def call_parameters_def)
  define ctx where "ctx = execution_ctx_new int_numbers (ingredients_of (counted k)) empty_ingredients Map.empty Map.empty (run_params_of example_call_params)"
  have prep: "prepare counting_host (counted k) default_data example_script results example_call_params Map.empty soft_limits_default
      = (Ok \<lparr>pd_exec_ctx = ctx, pd_trace_handler = example_handler [] [], pd_air = ICall requesting_call, pd_keypair = ''p''\<rparr>, soft_limits_default)"
    by (simp add: prepare_def parse_air_def h requesting_parsed make_exec_ctx_def and_then_def counting_host_def example_host_def
        default_ingredients [symmetric] ctx_def counted_traces example_handler_new key_pair_new_def plain_keys_def
        validate_with_key_format_def)
  obtain ctx' th where t: "execute 1 example_air (ICall requesting_call) (ctx, example_handler [] []) = (Ok (), (ctx', th))"
      "last_request_id ctx' = k + 1" "call_requests ctx' = [k + 1 \<mapsto> example_request]" "call_results ctx' = Map.empty"
      "cid_tracker ctx' = cid_tracker ctx"
    using runs unfolding ctx_def by auto
  have finish: "execute_and_farewell 1 counting_host raw_prev ''salt''
      \<lparr>pd_exec_ctx = ctx, pd_trace_handler = example_handler [] [], pd_air = ICall requesting_call, pd_keypair = ''p''\<rparr> soft_limits_default
      = Some (Ok (interpreter_outcome_new INTERPRETER_SUCCESS [] (counted_bytes (k + 1)) [] b soft_limits_default))"
    by (simp add: execute_and_farewell_def hc and_then_def from_execution_result_def counted_bytes_def b h t sign_produced_cids_def gen_signature_def Let_def
     farewell_if_fail_def sign_cids_def key_pair_public_def finish_run_def from_success_result_def
     populate_outcome_from_contexts_def compactify_streams_def map_err_def zoom_with_trace_def sign_result_def update_ctx_def expect_def
     interpreter_outcome_new_def plain_keys_def del: execute.simps One_nat_def)
  show ?thesis
    by (simp add: execute_air_def execute_air_impl_def farewell_if_fail_def limits counted_parsed [OF prev] h example_verify_counted prep
        particle finish interpreter_outcome_new_def b del: One_nat_def)
qed

definition example_avm :: "(nat, string \<times> string \<Rightarrow> bytes) avm" where
  "example_avm = \<lparr>avm_runner = example_runner, avm_store = (\<lambda>_. [])\<rparr>"

definition example_avm_call :: "(nat, string \<times> string \<Rightarrow> bytes) avm \<Rightarrow> (int avm_outcome, (int, unit) avm_error) result \<times> (nat, string \<times> string \<Rightarrow> bytes) avm" where
  "example_avm_call = avm_call example_server example_store 0 example_script [] example_particle [] ()"

lemma example_avm_runs:
  assumes k: "k = 0 \<or> k = 1" and prev: "avm_store s (''salt'', ''p'') = counted_bytes k \<or> avm_store s (''salt'', ''p'') = [] \<and> k = 0"
    and runner: "avm_runner s = example_runner"
  shows "\<exists>out t. example_avm_call s = (Ok out, t) \<and> handed_out (Ok out :: (_, (int, unit) avm_error) result) = {k + 1}
    \<and> avm_store t (''salt'', ''p'') = counted_bytes (k + 1) \<and> avm_runner t = example_runner"
proof -
  obtain out where out: "execute_air 1 counting_host example_script (avm_store s (''salt'', ''p'')) [] example_call_params ''results'' = Some (Ok out)"
      "out_ret_code out = INTERPRETER_SUCCESS" "out_data out = counted_bytes (k + 1)"
      "example_requests_encode [k + 1 \<mapsto> example_request] = Inr (out_call_requests out)"
    using counting_run [OF k prev] by blast
  have decode: "example_requests_decode (out_call_requests out) = Inr [(k + 1, example_request)]"
    using k out(4) example_requests_encoded by (auto simp: example_requests_decode_def)
  show ?thesis
    using out decode runner
    by (simp add: example_avm_call_def avm_call_def example_store_def on_store_eq and_then_def memory_size_def memory_stats_def index_vec_def
        example_server_def zoom_def map_err_def runner_call_def prepare_args_def call_with_ivalues_def expect_def usize_sub_def
        save_anomaly_data_def example_interface_def outcome_from_values_def try_as_one_value_vec_def from_outcome_ivalue
        from_interpreter_outcome_def from_raw_call_requests_def request_from_raw_def from_raw_outcome_def Let_def
        example_particle_def example_call_params_def [symmetric] host_parameters_of_into_ivalue
        del: One_nat_def)
qed

section \<open>Properties\<close>

text \<open>C8. What a call of the AVM leaves in the data store. When it returns an outcome, or reports that the interpreter failed, the store
  has the data of that outcome for the particle and the peer; when it fails for any other reason, the store has what it had. The
  data of other particles and peers never changes.\<close>

theorem avm_call_persists:
  assumes "store_documented D view" "avm_call S D time script data pp results keypair s = (r, t)"
  shows "case r of
      Ok out \<Rightarrow> view (avm_store t) = (view (avm_store s))(particle_key pp := avm_data out)
    | Err (InterpreterFailed e) \<Rightarrow> eao_error_code e \<noteq> INTERPRETER_SUCCESS
        \<and> view (avm_store t) = (view (avm_store s))(particle_key pp := avm_data (eao_outcome e))
    | Err _ \<Rightarrow> view (avm_store t) = view (avm_store s)
    | Panic \<Rightarrow> True"
proof (cases "r = Panic")
  case False
  with assms show ?thesis
  proof (cases rule: avm_call_cases)
    case (stored outcome delta)
    then show ?thesis by (simp add: from_raw_outcome_def Let_def)
  next
    case (failed e)
    then show ?thesis by (cases e) simp_all
  qed
qed simp

theorem avm_call_persists_witness:
  "\<exists>out t. example_avm_call example_avm = (Ok out, t) \<and> avm_store t = (avm_store example_avm)((''salt'', ''p'') := avm_data out)
    \<and> avm_data out = counted_bytes 1"
proof -
  obtain out t where t: "example_avm_call example_avm = (Ok out, t)" "avm_store t (''salt'', ''p'') = counted_bytes 1"
    using example_avm_runs [of 0 example_avm] by (auto simp: example_avm_def)
  have "avm_store t = (avm_store example_avm)((''salt'', ''p'') := avm_data out)"
    using avm_call_persists [OF example_store_documented t(1) [unfolded example_avm_call_def]] by (simp add: particle_key_def example_particle_def)
  with t show ?thesis by simp
qed

text \<open>C7. The requests of successive calls for one particle on one peer have different, growing numbers, also when the interpreter fails,
  the host fails in between or other particles are handled; only cleaning up the particle starts the numbers anew. So a result the host
  gives for a number cannot be taken for the result of another request.\<close>

theorem avm_requests_fresh:
  assumes "marine_runs H S" "formats_documented H (iface S)" "store_documented D view"
    and "avm_history S D s (before @ [Requested p c A] @ between @ [Requested p c B] @ after) t" "CleanedUp p c \<notin> set between"
    and "a \<in> A" "b \<in> B"
  shows "a < b"
proof -
  note records = history_records [OF assms(1-3), of _ _ _ p c]
  obtain t1 t2 t3 t4 where "avm_history S D t1 [Requested p c A] t2" "avm_history S D t2 between t3"
      "avm_history S D t3 [Requested p c B] t4"
    using avm_history_append assms(4) by metis
  with records [of t1 "[Requested p c A]" t2] records [of t2 between t3] records [of t3 "[Requested p c B]" t4] assms(5-7)
  have "a \<le> recorded_at H view t2 (p, c)" "recorded_at H view t2 (p, c) \<le> recorded_at H view t3 (p, c)"
      "recorded_at H view t3 (p, c) < b"
    by auto
  then show ?thesis by order
qed

theorem avm_requests_fresh_witness:
  "\<exists>t. avm_history example_server example_store example_avm
      [Requested ''salt'' ''p'' {1}, CleanedUp ''other'' ''p'', Requested ''salt'' ''p'' {2}] t \<and> (1 :: u32) < 2"
proof -
  note iv = example_avm_def example_particle_def
  obtain out1 t1 where t1: "example_avm_call example_avm = (Ok out1, t1)" "handed_out (Ok out1 :: (_, (int, unit) avm_error) result) = {1}"
      "avm_store t1 (''salt'', ''p'') = counted_bytes 1" "avm_runner t1 = example_runner"
    using example_avm_runs [of 0 example_avm] by (auto simp: example_avm_def)
  define u where "u = t1\<lparr>avm_store := (avm_store t1)((''other'', ''p'') := [])\<rparr>"
  have u: "avm_cleanup_data example_store ''other'' ''p'' t1 = (Ok () :: (_, (int, unit) avm_error) result, u)"
    by (simp add: avm_cleanup_data_def on_store_eq example_store_def u_def)
  obtain out2 t2 where t2: "example_avm_call u = (Ok out2, t2)" "handed_out (Ok out2 :: (_, (int, unit) avm_error) result) = {2}"
    using example_avm_runs [of 1 u] t1(3,4) by (auto simp: u_def)
  note call = avm_history.call [of example_server example_store _ _ _ 0 example_script "[]" example_particle "[]" "()",
      folded example_avm_call_def]
  have 1: "avm_history example_server example_store example_avm [Requested ''salt'' ''p'' {1}] t1"
    using call [OF avm_history.start t1(1)] by (simp add: t1(2) example_particle_def del: handed_out.simps)
  have "avm_history example_server example_store example_avm [Requested ''salt'' ''p'' {1}, CleanedUp ''other'' ''p''] u"
    using avm_history.cleanup [OF 1 u] by simp
  from call [OF this t2(1)]
  have 2: "avm_history example_server example_store example_avm
      [Requested ''salt'' ''p'' {1}, CleanedUp ''other'' ''p'', Requested ''salt'' ''p'' {2}] t2"
    by (simp add: t2(2) example_particle_def del: handed_out.simps)
  have formats: "formats_documented counting_host (iface example_server)" using example_formats by (simp add: example_server_def)
  have "(1 :: u32) < 2"
    by (rule avm_requests_fresh [OF example_marine formats example_store_documented, where before = "[]" and between = "[CleanedUp ''other'' ''p'']"
        and after = "[]" and p = "''salt''" and c = "''p''" and A = "{1}" and B = "{2}"]) (use 2 in simp_all)
  with 2 show ?thesis by blast
qed

end
