(* ===== verification/Spec2Isabelle.thy ===== *)
theory Spec2Isabelle
  imports Endless_Script Trace_Replay Avm_Properties
begin

text \<open>
  A model of AquaVM, the interpreter of AIR scripts, and theorems about it.

  \<^bold>\<open>The program.\<close> A script runs on several peers. A peer gets the script, its own data of earlier runs (the \<^emph>\<open>previous\<close>
  data), the data of another peer (the \<^emph>\<open>current\<close> data) and results of services it has called. One run
  (\<^verbatim>\<open>air/src/runner.rs\<close>) checks sizes, parses and verifies both pieces of data, parses the script, executes it and returns
  new data, requests for services and the peers to send the data to. The data holds a \<^emph>\<open>trace\<close>, the states of the instructions
  in the order in which they were executed; the execution of an instruction merges the state of the previous trace with that of the
  current one, so that a peer that executes the script again repeats what is known and adds what is new.

  \<^bold>\<open>Front end\<close> (\<^verbatim>\<open>crates/air-lib/air-parser\<close>, \<^verbatim>\<open>crates/air-lib/lambda\<close>).
  \<open>Rust_Text\<close>: UTF-8 texts, their characters and slices, numbers in texts. \<open>Lambda_Parser\<close>: lexer and grammar of lambdas.
  \<open>Air_Lexer\<close>: \<^verbatim>\<open>lexer/air_lexer.rs\<close> and the automaton of \<^verbatim>\<open>call_variable_parser.rs\<close>.
  \<open>Variable_Validator\<close>: \<^verbatim>\<open>validator.rs\<close>, \<^verbatim>\<open>errors.rs\<close>, \<^verbatim>\<open>span.rs\<close>. \<open>Air_Parser\<close>: the productions of
  \<^verbatim>\<open>air.lalrpop\<close> with their actions, and \<^verbatim>\<open>air_parser.rs\<close>. \<open>Air_Ast\<close>: the abstract syntax with its text.
  \<open>Script_Iterators\<close> relates the checks of the validator for iterators, which work on sorted spans, to a recursion over the
  instruction; \<open>Endless_Script\<close> has a script they let through and whose execution does not end.

  \<^bold>\<open>Traces\<close> (\<^verbatim>\<open>crates/air-lib/trace-handler\<close>, \<^verbatim>\<open>crates/air-lib/interpreter-data\<close>). \<open>Interpreter_Data\<close>: states and
  traces. \<open>Trace_Slider\<close>, \<open>Data_Keeper\<close>: windows over the two traces, the result trace and the maps between positions.
  \<open>Merger\<close>, \<open>Fold_Lore\<close>: merging of the states of one instruction. \<open>Par_Fsm\<close>, \<open>Fold_Fsm\<close>: the automata that follow
  \<open>par\<close> and \<open>fold\<close>. \<open>Trace_Handler\<close>: the interface the interpreter calls, with the invariant of its states.
  \<open>Trace_Replay\<close>: whole traces, merged by a handler that is driven along them.

  \<^bold>\<open>Values\<close> (\<^verbatim>\<open>air/src/execution_step/value_types\<close>, \<^verbatim>\<open>execution_context\<close>). \<open>Air_Values\<close>: values with their provenance,
  errors and their codes. \<open>Air_Streams\<close>, \<open>Stream_Variables\<close>: streams, their generations, the cursor of recursive folds, scopes.
  \<open>Stream_Maps\<close>: stream maps and canonicalized streams. \<open>Scalar_Variables\<close>: sparse matrices of scalars, scopes of folds and of
  \<open>new\<close>. \<open>Cid_Stores\<close>, \<open>Data_Verification\<close>: content identifiers, their stores, signatures and the verification of data
  (\<^verbatim>\<open>interpreter-cid\<close>, \<^verbatim>\<open>interpreter-signatures\<close>, \<^verbatim>\<open>verification_step.rs\<close>, \<^verbatim>\<open>signing_step.rs\<close>).

  \<^bold>\<open>Execution\<close> (\<^verbatim>\<open>air/src/execution_step\<close>). \<open>Execution_Context\<close>, \<open>Resolver\<close>: the context, lambdas and arguments.
  \<open>Instr_Call\<close>, \<open>Instr_Canon\<close>, \<open>Instr_Ap\<close>, \<open>Executor\<close>: the instructions. \<open>Runner\<close>: preparation, execution and
  outcome of a run. \<open>Exec_Relations\<close> has a locale for what every execution keeps between the states before and after;
  \<open>Exec_Footprint\<close> and \<open>Exec_Scalars\<close> interpret it. \<open>Exec_Fuel\<close>, \<open>Exec_Termination\<close>: more fuel never changes a
  result, and an order in which folds decrease. \<open>Exec_Properties\<close>, \<open>Run_Properties\<close>: the properties of executions and runs.

  \<^bold>\<open>Host side\<close> (\<^verbatim>\<open>avm/server\<close>, \<^verbatim>\<open>avm/interface\<close>, \<^verbatim>\<open>crates/data-store\<close>, \<^verbatim>\<open>interpreter-interface\<close>). \<open>Avm_Interface\<close>:
  the values that cross the boundary of the Wasm module, requests, results and outcomes of the host. \<open>Avm_Server\<close>: the runner that
  calls the module and the AVM that keeps the data of particles in a store. \<open>Avm_Properties\<close> composes them with a run of the
  interpreter, over histories of calls and cleanups.

  \<^bold>\<open>State and effects.\<close> Functions that change a state are computations of the type \<open>comp\<close> of \<open>Prelude\<close>: they take the state and
  give a result and the state, which is kept when they fail. A result is \<open>Ok\<close>, \<open>Err\<close> or \<open>Panic\<close>; the build checks
  overflow, so an overflow is a panic. \<^verbatim>\<open>usize\<close> is \<open>nat\<close>, \<^verbatim>\<open>u32\<close> is a word of 32 bits. Hash maps are partial
  maps, and where the code iterates over one, the order is an argument.

  \<^bold>\<open>Fuel.\<close> \<open>execute\<close> has fuel for the nesting of instructions and for the rounds of folds over streams; too little gives
  \<open>OutOfFuel\<close>, and \<open>None\<close> for a run. Theorems that an execution or a run ends say that from some fuel on the result is the same.
  \<open>parse_instr\<close> has fuel for the depth of a script; the number of tokens is enough (\<open>parse_instr_fuel\<close>).

  \<^bold>\<open>Parameters.\<close> Code of packages is an argument of the definitions that use it, in records: \<open>bimap_ops\<close> (bimap), \<open>number_ops\<close>
  (numbers of serde_json), \<open>cid_ops\<close> (hashes and CIDs), \<open>serde_ops\<close> (JSON), \<open>key_ops\<close> (keys and signatures), \<open>host_ops\<close>
  (binary formats, versions, orders of iteration), \<open>front_ops\<close> (Unicode tables, floats), \<open>multimap_ops\<close> (multimap), \<open>interface_ops\<close>,
  \<open>server_ops\<close> and \<open>data_store_ops\<close> (formats, the Wasm runtime, data stores), and the texts of errors. What a theorem needs of one is a hypothesis with its documented behaviour, and its witness has an instance.

  \<^bold>\<open>What the theorems show.\<close> Traces: for traces without folds, replaying the handler gives the specified merge, and peers that
  merge the same traces in any order, and again, arrive at the same trace up to senders of requests and generations; a right subgraph and
  a fold can always be closed, a left subgraph when the sliders stand inside their traces. Automata, mergers, lores and sliders: what each operation
  returns on every branch, with the invariants of their states. Streams and scalars: scopes give back what they found, recursive folds
  see every value, compactification keeps the values in order. Data: what is verified is signed, what is signed verifies, and the
  stores of CIDs are consistent. Executions: fresh numbers of requests, restored scopes, a handler that can be closed,
  termination. Runs: the kinds of outcome with their causes, the requests of a successful run, termination for every accepted script without folds
  over streams whose \<open>next\<close>s have different names. Host: what a call stores, and that the numbers of the requests it hands out never repeat. Front end: positions of tokens, printed lambdas are read back, the meaning of
  the checks for iterators. Some theorems state behaviour the code does not intend: names that panic, a percent sign that changes the
  kind of a variable, dangling CIDs that panic, cursors that skip a value, scopes that are replaced, a script without end.

  \<^bold>\<open>Not modelled.\<close> The tables of the generated parsers (\<^verbatim>\<open>air.rs\<close>, \<^verbatim>\<open>va_lambda.rs\<close>): the productions are modelled
  instead, and after a syntax error, where the generated parser goes on to look for further errors, the model fails. Serialization
  (\<^verbatim>\<open>interpreter-sede\<close>) is code of packages behind thin wrappers. The TypeScript client
  (\<^verbatim>\<open>avm/client\<close>) and the bindings for it, tools, benchmarks and test infrastructure are not part of the interpreter. Logging is left out. The depth of the stack is
  not bounded in the model. The termination theorem does not cover folds over streams: they may go on as long as values are added, and
  the code bounds the size of a stream only.
\<close>

end
